(* ===== verification/Rust_Prelude.thy ===== *)
theory Rust_Prelude
  imports Main "HOL-Library.Word"
begin

text \<open>
  The parts of Rust and of its standard library that several components use.
  \<^item> A Rust \<open>char\<close> is a Unicode scalar value, here its code point; a \<open>str\<close> or \<open>String\<close> is
    the list of its characters, so \<open>chars().count()\<close> is the length of the list and \<open>len()\<close>,
    which counts UTF-8 bytes, is \<open>utf8_len\<close>. A literal is written \<open>lit ''...''\<close>.
  \<^item> \<open>u64\<close> and \<open>u128\<close> are words; \<open>saturating_add\<close> and \<open>saturating_mul\<close> are
    \<open>sat_add\<close> and \<open>sat_mul\<close>.
  \<^item> \<open>usize\<close> values that count the elements of a collection in memory are \<open>nat\<close>.
  \<^item> \<open>Iterator::min_by_key\<close>, \<open>str::trim\<close>, \<open>rsplit_once\<close> and their kin are written out.
\<close>

named_theorems rust_str
named_theorems sat_arith

section \<open>Characters and strings\<close>

type_synonym rchar = nat
type_synonym rstr = "rchar list"

definition lit :: "string \<Rightarrow> rstr" where
  "lit s = map of_char s"

lemma lit_inject [simp]: "lit s = lit t \<longleftrightarrow> s = t"
  unfolding lit_def by (rule inj_map_eq_map) (simp add: inj_of_char)

lemma lit_Nil [simp]: "lit [] = []"
  by (simp add: lit_def)

lemma lit_eq_Nil [simp]: "lit s = [] \<longleftrightarrow> s = []" "[] = lit s \<longleftrightarrow> s = []"
  by (auto simp: lit_def)

lemma length_lit [simp]: "length (lit s) = length s"
  by (simp add: lit_def)

text \<open>\<open>char::is_whitespace\<close>: the code points with the Unicode property \<open>White_Space\<close>.\<close>

definition is_whitespace :: "rchar \<Rightarrow> bool" where
  "is_whitespace c \<longleftrightarrow> (9 \<le> c \<and> c \<le> 13) \<or> c = 32 \<or> c = 133 \<or> c = 160 \<or> c = 5760
     \<or> (8192 \<le> c \<and> c \<le> 8202) \<or> c = 8232 \<or> c = 8233 \<or> c = 8239 \<or> c = 8287 \<or> c = 12288"

text \<open>\<open>char::is_control\<close>: the general category \<open>Cc\<close>.\<close>

definition is_control :: "rchar \<Rightarrow> bool" where
  "is_control c \<longleftrightarrow> c < 32 \<or> (127 \<le> c \<and> c < 160)"

definition is_ascii_digit :: "rchar \<Rightarrow> bool" where
  "is_ascii_digit c \<longleftrightarrow> 48 \<le> c \<and> c \<le> 57"

definition is_ascii_alphanumeric :: "rchar \<Rightarrow> bool" where
  "is_ascii_alphanumeric c \<longleftrightarrow>
     is_ascii_digit c \<or> (65 \<le> c \<and> c \<le> 90) \<or> (97 \<le> c \<and> c \<le> 122)"

definition ascii_lower_char :: "rchar \<Rightarrow> rchar" where
  "ascii_lower_char c = (if 65 \<le> c \<and> c \<le> 90 then c + 32 else c)"

definition to_ascii_lowercase :: "rstr \<Rightarrow> rstr" where
  "to_ascii_lowercase s = map ascii_lower_char s"

lemma ascii_lower_char_idem [simp]: "ascii_lower_char (ascii_lower_char c) = ascii_lower_char c"
  by (simp add: ascii_lower_char_def)

lemma to_ascii_lowercase_idem [simp]:
  "to_ascii_lowercase (to_ascii_lowercase s) = to_ascii_lowercase s"
  by (simp add: to_ascii_lowercase_def)

lemma length_to_ascii_lowercase [simp]: "length (to_ascii_lowercase s) = length s"
  by (simp add: to_ascii_lowercase_def)

text \<open>The number of UTF-8 bytes of a character and of a string (\<open>str::len\<close>).\<close>

definition utf8_char_len :: "rchar \<Rightarrow> nat" where
  "utf8_char_len c = (if c < 128 then 1 else if c < 2048 then 2 else if c < 65536 then 3 else 4)"

definition utf8_len :: "rstr \<Rightarrow> nat" where
  "utf8_len s = sum_list (map utf8_char_len s)"

lemma utf8_len_simps [simp]:
  "utf8_len [] = 0"
  "utf8_len (c # s) = utf8_char_len c + utf8_len s"
  "utf8_len (s @ t) = utf8_len s + utf8_len t"
  by (simp_all add: utf8_len_def)

lemma utf8_len_ascii: "\<forall>c \<in> set s. c < 128 \<Longrightarrow> utf8_len s = length s"
  by (induction s) (auto simp: utf8_char_len_def)

lemma utf8_len_ge: "length s \<le> utf8_len s"
  by (induction s) (auto simp: utf8_char_len_def)

subsection \<open>Trimming\<close>

definition trim_start :: "rstr \<Rightarrow> rstr" where
  "trim_start s = dropWhile is_whitespace s"

definition trim_end :: "rstr \<Rightarrow> rstr" where
  "trim_end s = rev (dropWhile is_whitespace (rev s))"

definition trim :: "rstr \<Rightarrow> rstr" where
  "trim s = trim_end (trim_start s)"

text \<open>\<open>trim_end_matches\<close> and \<open>trim_start_matches\<close> with a predicate on characters.\<close>

definition trim_start_matches :: "(rchar \<Rightarrow> bool) \<Rightarrow> rstr \<Rightarrow> rstr" where
  "trim_start_matches p s = dropWhile p s"

text \<open>What trimming keeps: the non-whitespace characters, in order.\<close>

definition visible :: "rstr \<Rightarrow> rstr" where
  "visible s = filter (\<lambda>c. \<not> is_whitespace c) s"

lemma visible_simps [simp]:
  "visible [] = []"
  "visible (c # s) = (if is_whitespace c then visible s else c # visible s)"
  "visible (s @ t) = visible s @ visible t"
  by (simp_all add: visible_def)

lemma visible_rev: "visible (rev s) = rev (visible s)"
  by (simp add: visible_def rev_filter)

lemma visible_dropWhile [simp]: "visible (dropWhile is_whitespace s) = visible s"
  by (induction s) auto

lemma visible_trim_start [simp]: "visible (trim_start s) = visible s"
  by (simp add: trim_start_def)

lemma visible_trim_end [simp]: "visible (trim_end s) = visible s"
  by (simp add: trim_end_def visible_rev)

lemma visible_trim [simp]: "visible (trim s) = visible s"
  by (simp add: trim_def)

lemma visible_eq_Nil: "visible s = [] \<longleftrightarrow> (\<forall>c \<in> set s. is_whitespace c)"
  by (auto simp: visible_def filter_empty_conv)

lemma trim_start_eq_Nil: "trim_start s = [] \<longleftrightarrow> visible s = []"
  by (simp add: trim_start_def visible_eq_Nil)

lemma trim_end_eq_Nil: "trim_end s = [] \<longleftrightarrow> visible s = []"
  by (simp add: trim_end_def visible_eq_Nil)

lemma trim_eq_Nil: "trim s = [] \<longleftrightarrow> visible s = []"
  by (simp add: trim_def trim_end_eq_Nil)

lemma length_trim_start: "length (trim_start s) \<le> length s"
  by (simp add: trim_start_def length_dropWhile_le)

lemma length_trim_end: "length (trim_end s) \<le> length s"
  using length_dropWhile_le [of is_whitespace "rev s"] by (simp add: trim_end_def)

lemma length_trim: "length (trim s) \<le> length s"
  unfolding trim_def using length_trim_end [of "trim_start s"] length_trim_start [of s] by simp

lemma trim_start_no_op: "s = [] \<or> \<not> is_whitespace (hd s) \<Longrightarrow> trim_start s = s"
  by (cases s) (auto simp: trim_start_def)

lemma hd_trim_start: "trim_start s \<noteq> [] \<Longrightarrow> \<not> is_whitespace (hd (trim_start s))"
  unfolding trim_start_def by (rule hd_dropWhile)

lemma trim_end_prefix: "\<exists>w. s = trim_end s @ w \<and> visible w = []"
proof -
  have "rev s = takeWhile is_whitespace (rev s) @ dropWhile is_whitespace (rev s)"
    by simp
  then have "s = rev (dropWhile is_whitespace (rev s)) @ rev (takeWhile is_whitespace (rev s))"
    by (metis rev_append rev_rev_ident)
  moreover have "visible (rev (takeWhile is_whitespace (rev s))) = []"
    by (auto simp: visible_eq_Nil dest: set_takeWhileD)
  ultimately show ?thesis unfolding trim_end_def by blast
qed

lemma hd_trim_end:
  assumes "trim_end s \<noteq> []" shows "hd (trim_end s) = hd s"
proof -
  obtain w where "s = trim_end s @ w" using trim_end_prefix [of s] by blast
  with assms show ?thesis by (metis hd_append2)
qed

lemma hd_trim: "trim s \<noteq> [] \<Longrightarrow> \<not> is_whitespace (hd (trim s))"
proof -
  assume ne: "trim s \<noteq> []"
  then have "trim_start s \<noteq> []" by (simp add: trim_eq_Nil trim_start_eq_Nil)
  with ne show ?thesis
    using hd_trim_end [of "trim_start s"] hd_trim_start [of s] by (simp add: trim_def)
qed

lemma trim_idem [simp]: "trim (trim s) = trim s"
proof -
  have e: "trim_end (trim_end t) = trim_end t" for t
    by (simp add: trim_end_def dropWhile_idem)
  have "trim_start (trim s) = trim s"
    by (rule trim_start_no_op) (use hd_trim in blast)
  then show ?thesis unfolding trim_def [of "trim s"] by (simp add: trim_def e)
qed

subsection \<open>Prefixes, suffixes and splitting\<close>

definition starts_with :: "rstr \<Rightarrow> rstr \<Rightarrow> bool" where
  "starts_with s p \<longleftrightarrow> take (length p) s = p"

definition ends_with :: "rstr \<Rightarrow> rstr \<Rightarrow> bool" where
  "ends_with s p \<longleftrightarrow> length p \<le> length s \<and> drop (length s - length p) s = p"

definition strip_suffix :: "rstr \<Rightarrow> rstr \<Rightarrow> rstr option" where
  "strip_suffix s p = (if ends_with s p then Some (take (length s - length p) s) else None)"

text \<open>\<open>split(p).next()\<close>: the part before the first matching character.\<close>

definition split_first :: "(rchar \<Rightarrow> bool) \<Rightarrow> rstr \<Rightarrow> rstr" where
  "split_first p s = takeWhile (\<lambda>c. \<not> p c) s"

text \<open>\<open>rsplit(p).next()\<close>: the part after the last matching character.\<close>

definition rsplit_first :: "(rchar \<Rightarrow> bool) \<Rightarrow> rstr \<Rightarrow> rstr" where
  "rsplit_first p s = rev (takeWhile (\<lambda>c. \<not> p c) (rev s))"

definition split_once :: "rchar \<Rightarrow> rstr \<Rightarrow> (rstr \<times> rstr) option" where
  "split_once x s = (if x \<in> set s
     then Some (takeWhile (\<lambda>c. c \<noteq> x) s, tl (dropWhile (\<lambda>c. c \<noteq> x) s)) else None)"

definition rsplit_once :: "rchar \<Rightarrow> rstr \<Rightarrow> (rstr \<times> rstr) option" where
  "rsplit_once x s = (if x \<in> set s
     then Some (rev (tl (dropWhile (\<lambda>c. c \<noteq> x) (rev s))), rev (takeWhile (\<lambda>c. c \<noteq> x) (rev s)))
     else None)"

lemma split_at_first:
  assumes "x \<in> set s"
  shows "s = takeWhile (\<lambda>c. c \<noteq> x) s @ x # tl (dropWhile (\<lambda>c. c \<noteq> x) s)"
  using assms by (induction s) auto

lemma split_once_Some:
  assumes "split_once x s = Some (a, b)"
  shows "s = a @ x # b" "x \<notin> set a"
proof -
  from assms have x: "x \<in> set s" and a: "a = takeWhile (\<lambda>c. c \<noteq> x) s"
    and b: "b = tl (dropWhile (\<lambda>c. c \<noteq> x) s)"
    by (auto simp: split_once_def split: if_splits)
  show "s = a @ x # b" unfolding a b by (rule split_at_first [OF x])
  show "x \<notin> set a" unfolding a by (auto dest: set_takeWhileD)
qed

lemma rsplit_once_Some:
  assumes "rsplit_once x s = Some (a, b)"
  shows "s = a @ x # b" "x \<notin> set b"
proof -
  from assms have "split_once x (rev s) = Some (rev b, rev a)"
    by (auto simp: rsplit_once_def split_once_def split: if_splits)
  then have "rev s = rev b @ x # rev a" "x \<notin> set (rev b)"
    by (rule split_once_Some)+
  then show "s = a @ x # b" "x \<notin> set b"
    by (auto simp: rev_swap)
qed

text \<open>\<open>split(c)\<close>: all parts; \<open>join(sep)\<close>; \<open>contains\<close> of a string; \<open>strip_prefix\<close>.\<close>

fun split_on :: "'a \<Rightarrow> 'a list \<Rightarrow> 'a list list" where
  "split_on x [] = [[]]"
| "split_on x (c # cs) =
     (if c = x then [] # split_on x cs else (c # hd (split_on x cs)) # tl (split_on x cs))"

lemma split_on_not_Nil [simp]: "split_on x s \<noteq> []"
  by (cases s) auto

lemma split_on_parts: "p \<in> set (split_on x s) \<Longrightarrow> x \<notin> set p"
proof (induction s arbitrary: p)
  case (Cons c s)
  obtain h t where "split_on x s = h # t" by (cases "split_on x s") auto
  with Cons show ?case by (auto split: if_splits)
qed simp

lemma split_on_free [simp]: "x \<notin> set s \<Longrightarrow> split_on x s = [s]"
  by (induction s) auto

lemma split_on_append: "x \<notin> set p \<Longrightarrow> split_on x (p @ x # q) = p # split_on x q"
  by (induction p) auto

lemma split_on_snoc: "x \<notin> set b \<Longrightarrow> split_on x (a @ x # b) = split_on x a @ [b]"
proof (induction a)
  case (Cons c a)
  obtain h t where "split_on x a = h # t" by (cases "split_on x a") auto
  with Cons show ?case by auto
qed simp

fun join_with :: "rstr \<Rightarrow> rstr list \<Rightarrow> rstr" where
  "join_with sep [] = []"
| "join_with sep [s] = s"
| "join_with sep (s # ss) = s @ sep @ join_with sep ss"

fun str_contains :: "rstr \<Rightarrow> rstr \<Rightarrow> bool" where
  "str_contains [] n \<longleftrightarrow> n = []"
| "str_contains (c # s) n \<longleftrightarrow> starts_with (c # s) n \<or> str_contains s n"

definition strip_prefix :: "rstr \<Rightarrow> rstr \<Rightarrow> rstr option" where
  "strip_prefix s p = (if starts_with s p then Some (drop (length p) s) else None)"

text \<open>\<open>str::lines\<close>: the text between line feeds, without a carriage return before a line feed; no
  empty line at the end.\<close>

definition strip_cr :: "rstr \<Rightarrow> rstr" where
  "strip_cr l = (if l \<noteq> [] \<and> last l = 13 then butlast l else l)"

fun lines_from :: "rstr \<Rightarrow> rstr \<Rightarrow> rstr list" where
  "lines_from cur [] = (if cur = [] then [] else [cur])"
| "lines_from cur (c # cs) =
     (if c = 10 then strip_cr cur # lines_from [] cs else lines_from (cur @ [c]) cs)"

section \<open>Decimal numbers\<close>

text \<open>\<open>Display\<close> of an unsigned integer: its decimal digits.\<close>

fun show_nat :: "nat \<Rightarrow> rstr" where
  "show_nat n = (if n < 10 then [48 + n] else show_nat (n div 10) @ [48 + n mod 10])"

declare show_nat.simps [simp del]

definition read_digits :: "rstr \<Rightarrow> nat" where
  "read_digits s = foldl (\<lambda>acc c. 10 * acc + (c - 48)) 0 s"

lemma read_show_nat [simp]: "read_digits (show_nat n) = n"
proof (induction n rule: show_nat.induct)
  case (1 n)
  show ?case
  proof (cases "n < 10")
    case True
    then show ?thesis by (simp add: show_nat.simps [of n] read_digits_def)
  next
    case False
    with 1 have "read_digits (show_nat (n div 10)) = n div 10" by simp
    then have "read_digits (show_nat n) = 10 * (n div 10) + n mod 10"
      using False by (subst show_nat.simps) (simp add: read_digits_def)
    then show ?thesis by simp
  qed
qed

lemma show_nat_inject [simp]: "show_nat m = show_nat n \<longleftrightarrow> m = n"
  by (metis read_show_nat)

lemma show_nat_digits: "\<forall>c \<in> set (show_nat n). is_ascii_digit c"
proof (induction n rule: show_nat.induct)
  case (1 n)
  show ?case
  proof (cases "n < 10")
    case True
    then show ?thesis by (subst show_nat.simps) (auto simp: is_ascii_digit_def)
  next
    case False
    have "n mod 10 < 10" by simp
    then have "is_ascii_digit (48 + n mod 10)" unfolding is_ascii_digit_def by linarith
    with 1 False show ?thesis by (subst show_nat.simps) auto
  qed
qed

section \<open>Saturating and rounding-up arithmetic on machine words\<close>

type_synonym u32 = "32 word"
type_synonym u64 = "64 word"
type_synonym u128 = "128 word"

definition sat_add :: "'a::len word \<Rightarrow> 'a word \<Rightarrow> 'a word" where
  "sat_add a b = (if unat a + unat b < 2 ^ LENGTH('a) then a + b else - 1)"

definition sat_mul :: "'a::len word \<Rightarrow> 'a word \<Rightarrow> 'a word" where
  "sat_mul a b = (if unat a * unat b < 2 ^ LENGTH('a) then a * b else - 1)"

lemma unat_minus_one_max: "unat (- 1 :: 'a::len word) = 2 ^ LENGTH('a) - 1"
  by (simp add: unsigned_minus_1_eq_mask mask_eq_exp_minus_1)

lemma unat_sat_add [sat_arith]:
  "unat (sat_add a b) = min (unat a + unat b) (2 ^ LENGTH('a) - 1)" for a b :: "'a::len word"
proof (cases "unat a + unat b < 2 ^ LENGTH('a)")
  case True
  then show ?thesis by (simp add: sat_add_def unat_word_ariths)
next
  case False
  then show ?thesis by (simp add: sat_add_def unat_minus_one_max)
qed

lemma unat_sat_mul [sat_arith]:
  "unat (sat_mul a b) = min (unat a * unat b) (2 ^ LENGTH('a) - 1)" for a b :: "'a::len word"
proof (cases "unat a * unat b < 2 ^ LENGTH('a)")
  case True
  then show ?thesis by (simp add: sat_mul_def unat_word_ariths)
next
  case False
  then show ?thesis by (simp add: sat_mul_def unat_minus_one_max)
qed

lemma word_eqI_unat: "unat a = unat b \<Longrightarrow> a = b" for a b :: "'a::len word"
  by (simp add: word_unat_eq_iff)

lemma unat_le_max: "unat a \<le> 2 ^ LENGTH('a) - 1" for a :: "'a::len word"
proof -
  have "unat a < 2 ^ LENGTH('a)" by (rule unsigned_less)
  then show ?thesis by linarith
qed

text \<open>Saturating addition is a commutative monoid: the order in which units are added up does
  not change the total.\<close>

lemma sat_add_assoc: "sat_add (sat_add a b) c = sat_add a (sat_add b c)"
  by (rule word_eqI_unat) (simp add: unat_sat_add)

lemma sat_add_commute: "sat_add a b = sat_add b a"
  by (simp add: sat_add_def add.commute)

lemma sat_add_zero [simp]: "sat_add 0 a = a" "sat_add a 0 = a"
  by (simp_all add: sat_add_def)

interpretation sat: comm_monoid sat_add "0 :: 'a::len word"
  by unfold_locales (rule sat_add_assoc sat_add_commute sat_add_zero)+

lemma sat_add_ge: "a \<le> sat_add a b" "b \<le> sat_add a b"
  using unat_le_max [of a] unat_le_max [of b]
  by (simp_all add: word_le_nat_alt unat_sat_add)

lemma sat_add_mono: "a \<le> b \<Longrightarrow> sat_add a c \<le> sat_add b c"
  by (auto simp: word_le_nat_alt unat_sat_add)

text \<open>\<open>div_ceil\<close> on unsigned integers.\<close>

definition div_ceil_nat :: "nat \<Rightarrow> nat \<Rightarrow> nat" where
  "div_ceil_nat a b = (if a mod b = 0 then a div b else a div b + 1)"

lemma div_ceil_nat_bounds:
  assumes "0 < b"
  shows "a \<le> div_ceil_nat a b * b" "div_ceil_nat a b * b < a + b"
proof -
  have e: "a div b * b + a mod b = a" and m: "a mod b < b" using assms by simp_all
  show "a \<le> div_ceil_nat a b * b"
  proof (cases "a mod b = 0")
    case True
    with e show ?thesis unfolding div_ceil_nat_def by simp
  next
    case False
    have "a \<le> a div b * b + b" using e m by linarith
    with False show ?thesis unfolding div_ceil_nat_def by (simp add: algebra_simps)
  qed
  show "div_ceil_nat a b * b < a + b"
  proof (cases "a mod b = 0")
    case True
    with e assms show ?thesis unfolding div_ceil_nat_def by simp
  next
    case False
    then have "0 < a mod b" by simp
    then have "a div b * b + b < a + b" using e by linarith
    with False show ?thesis unfolding div_ceil_nat_def by (simp add: algebra_simps)
  qed
qed

section \<open>Iterators\<close>

text \<open>\<open>Iterator::min_by_key\<close>: the first element with the least key.\<close>

fun min_by_key :: "('a \<Rightarrow> 'k::linorder) \<Rightarrow> 'a list \<Rightarrow> 'a option" where
  "min_by_key k [] = None"
| "min_by_key k (x # xs) =
     (case min_by_key k xs of None \<Rightarrow> Some x | Some y \<Rightarrow> if k x \<le> k y then Some x else Some y)"

lemma min_by_key_None [simp]: "min_by_key k xs = None \<longleftrightarrow> xs = []"
  by (cases xs) (auto split: option.splits)

lemma min_by_key_in: "min_by_key k xs = Some x \<Longrightarrow> x \<in> set xs"
  by (induction xs arbitrary: x) (auto split: option.splits if_splits)

lemma min_by_key_le: "min_by_key k xs = Some x \<Longrightarrow> y \<in> set xs \<Longrightarrow> k x \<le> k y"
proof (induction xs arbitrary: x)
  case Nil
  then show ?case by simp
next
  case (Cons z xs)
  show ?case
  proof (cases "min_by_key k xs")
    case None
    with Cons.prems show ?thesis by simp
  next
    case (Some m)
    have le: "y \<in> set xs \<Longrightarrow> k m \<le> k y" using Cons.IH [OF Some] .
    from Cons.prems Some show ?thesis
      by (auto split: if_splits dest: le)
  qed
qed

text \<open>\<open>?\<close> in a function that acts on the world.\<close>

definition and_then :: "('e + 'a) \<times> 'w \<Rightarrow> ('a \<Rightarrow> 'w \<Rightarrow> ('e + 'b) \<times> 'w) \<Rightarrow> ('e + 'b) \<times> 'w" where
  "and_then r f = (case r of (Inl e, w) \<Rightarrow> (Inl e, w) | (Inr x, w) \<Rightarrow> f x w)"

lemma and_then_simps [simp]:
  "and_then (Inl e, w) f = (Inl e, w)" "and_then (Inr x, w) f = f x w"
  by (simp_all add: and_then_def)

lemma and_then_Inr: "and_then r f = (Inr y, w') \<longleftrightarrow> (\<exists>x w. r = (Inr x, w) \<and> f x w = (Inr y, w'))"
  by (cases r) (auto simp: and_then_def split: sum.splits)

text \<open>\<open>Option::or\<close>.\<close>

definition or_else :: "'a option \<Rightarrow> 'a option \<Rightarrow> 'a option" where
  "or_else x y = (case x of None \<Rightarrow> y | Some _ \<Rightarrow> x)"

lemma or_else_simps [simp]:
  "or_else None y = y" "or_else (Some a) y = Some a" "or_else x None = x"
  by (simp_all add: or_else_def split: option.split)

text \<open>\<open>enumerate\<close>.\<close>

definition enumerated :: "'a list \<Rightarrow> (nat \<times> 'a) list" where
  "enumerated xs = zip [0..<length xs] xs"

lemma in_enumerated: "(i, x) \<in> set (enumerated xs) \<longleftrightarrow> i < length xs \<and> xs ! i = x"
  by (auto simp: enumerated_def set_zip intro: exI [of _ i])

lemma map_snd_enumerated [simp]: "map snd (enumerated xs) = xs"
  by (simp add: enumerated_def)

lemma length_enumerated [simp]: "length (enumerated xs) = length xs"
  by (simp add: enumerated_def)

text \<open>\<open>Iterator::find\<close>.\<close>

lemma find_SomeD: "find P xs = Some x \<Longrightarrow> x \<in> set xs \<and> P x"
  by (induction xs) (auto split: if_splits)

lemma find_Some_ex: "find P xs = None \<longleftrightarrow> (\<forall>x \<in> set xs. \<not> P x)"
  by (auto simp: find_None_iff)

section \<open>Results\<close>

type_synonym byte = "8 word"

text \<open>What a reader gives: its bytes, then its end or an error.\<close>

record stream =
  sm_bytes :: "byte list"
  sm_error :: "rstr option"

text \<open>\<open>reader.take(n).read_to_end(..)\<close>.\<close>

definition read_at_most :: "nat \<Rightarrow> stream \<Rightarrow> rstr + byte list" where
  "read_at_most n s =
     (if n \<le> length (sm_bytes s) then Inr (take n (sm_bytes s))
      else (case sm_error s of Some e \<Rightarrow> Inl e | None \<Rightarrow> Inr (sm_bytes s)))"

text \<open>The outcome of code that may panic.\<close>

datatype 'a panic_or = Panic | Value 'a

text \<open>A \<open>Result<T, E>\<close> is a sum with the error on the left; \<open>?\<close> is \<open>try_bind\<close>.\<close>

definition try_bind :: "'e + 'a \<Rightarrow> ('a \<Rightarrow> 'e + 'b) \<Rightarrow> 'e + 'b" where
  "try_bind r f = (case r of Inl e \<Rightarrow> Inl e | Inr x \<Rightarrow> f x)"

lemma try_bind_simps [simp]:
  "try_bind (Inl e) f = Inl e"
  "try_bind (Inr x) f = f x"
  by (simp_all add: try_bind_def)

lemma try_bind_eq_Inr: "try_bind r f = Inr y \<longleftrightarrow> (\<exists>x. r = Inr x \<and> f x = Inr y)"
  by (cases r) auto

end
