(* ===== verification/F64.thy ===== *)
theory F64
  imports Complex_Main Rust_Prelude "HOL-Library.Log_Nat"
begin

text \<open>
  Rust's \<open>f64\<close>: the IEEE 754 double of the language, with the operations the cost and usage code
  uses. A finite double is the rational number it stands for (the sign of zero is not kept: no
  code here observes it); every operation computes exactly and rounds the result to the nearest
  double, ties to even, with gradual underflow and overflow to infinity. An \<open>as\<close> cast to an
  unsigned integer truncates and saturates, and maps NaN to 0.
\<close>

datatype f64 = Fin rat | PosInf | NegInf | NaN

definition pow2 :: "int \<Rightarrow> rat" where
  "pow2 e = (if 0 \<le> e then 2 ^ nat e else inverse (2 ^ nat (- e)))"

text \<open>The exponent of the leading bit of a positive rational.\<close>

definition leading_exp :: "rat \<Rightarrow> int" where
  "leading_exp a = (let (n, d) = quotient_of a;
       e = int (floorlog 2 (nat n)) - int (floorlog 2 (nat d))
     in if pow2 e \<le> a then e else e - 1)"

definition round_half_even :: "rat \<Rightarrow> int" where
  "round_half_even q = (let n = \<lfloor>q\<rfloor>; r = q - of_int n in
     if r < 1 / 2 then n else if 1 / 2 < r then n + 1 else if even n then n else n + 1)"

definition round_f64 :: "rat \<Rightarrow> f64" where
  "round_f64 q = (if q = 0 then Fin 0 else
     let a = \<bar>q\<bar>; e = max (leading_exp a - 52) (- 1074);
         v = of_int (round_half_even (a / pow2 e)) * pow2 e
     in if 2 ^ 1024 \<le> v then (if 0 < q then PosInf else NegInf)
        else Fin (if 0 < q then v else - v))"

fun f64_add :: "f64 \<Rightarrow> f64 \<Rightarrow> f64" where
  "f64_add (Fin a) (Fin b) = round_f64 (a + b)"
| "f64_add NaN _ = NaN"
| "f64_add _ NaN = NaN"
| "f64_add PosInf NegInf = NaN"
| "f64_add NegInf PosInf = NaN"
| "f64_add PosInf _ = PosInf"
| "f64_add _ PosInf = PosInf"
| "f64_add NegInf _ = NegInf"
| "f64_add _ NegInf = NegInf"

definition signed_inf :: "bool \<Rightarrow> f64" where
  "signed_inf pos = (if pos then PosInf else NegInf)"

fun f64_mul :: "f64 \<Rightarrow> f64 \<Rightarrow> f64" where
  "f64_mul (Fin a) (Fin b) = round_f64 (a * b)"
| "f64_mul NaN _ = NaN"
| "f64_mul _ NaN = NaN"
| "f64_mul (Fin a) PosInf = (if a = 0 then NaN else signed_inf (0 < a))"
| "f64_mul (Fin a) NegInf = (if a = 0 then NaN else signed_inf (a < 0))"
| "f64_mul PosInf (Fin b) = (if b = 0 then NaN else signed_inf (0 < b))"
| "f64_mul NegInf (Fin b) = (if b = 0 then NaN else signed_inf (b < 0))"
| "f64_mul PosInf PosInf = PosInf"
| "f64_mul PosInf NegInf = NegInf"
| "f64_mul NegInf PosInf = NegInf"
| "f64_mul NegInf NegInf = PosInf"

fun f64_ceil :: "f64 \<Rightarrow> f64" where
  "f64_ceil (Fin q) = Fin (of_int \<lceil>q\<rceil>)"
| "f64_ceil x = x"

fun f64_is_finite :: "f64 \<Rightarrow> bool" where
  "f64_is_finite (Fin _) = True"
| "f64_is_finite _ = False"

fun f64_is_positive :: "f64 \<Rightarrow> bool" where
  "f64_is_positive (Fin q) = (0 < q)"
| "f64_is_positive PosInf = True"
| "f64_is_positive _ = False"

text \<open>\<open>PartialOrd\<close>: a NaN compares with nothing.\<close>

instantiation f64 :: ord
begin

fun less_eq_f64 :: "f64 \<Rightarrow> f64 \<Rightarrow> bool" where
  "less_eq_f64 (Fin a) (Fin b) \<longleftrightarrow> a \<le> b"
| "less_eq_f64 NaN _ \<longleftrightarrow> False"
| "less_eq_f64 _ NaN \<longleftrightarrow> False"
| "less_eq_f64 NegInf _ \<longleftrightarrow> True"
| "less_eq_f64 _ PosInf \<longleftrightarrow> True"
| "less_eq_f64 _ _ \<longleftrightarrow> False"

definition less_f64 :: "f64 \<Rightarrow> f64 \<Rightarrow> bool" where
  "less_f64 x y \<longleftrightarrow> x \<le> y \<and> \<not> y \<le> x"

instance
  ..

end

lemma f64_is_positive_iff: "f64_is_positive x \<longleftrightarrow> Fin 0 < x"
  by (cases x) (auto simp: less_f64_def)

text \<open>\<open>==\<close> on \<open>f64\<close>: NaN differs from itself.\<close>

definition f64_eq :: "f64 \<Rightarrow> f64 \<Rightarrow> bool" where
  "f64_eq x y \<longleftrightarrow> x = y \<and> x \<noteq> NaN"

definition f64_of_u64 :: "u64 \<Rightarrow> f64" where
  "f64_of_u64 w = round_f64 (of_nat (unat w))"

definition clamp_to_word :: "int \<Rightarrow> 'a::len word" where
  "clamp_to_word n = (if n \<le> 0 then 0 else if 2 ^ LENGTH('a) \<le> n then - 1 else of_int n)"

fun f64_as_word :: "f64 \<Rightarrow> 'a::len word" where
  "f64_as_word (Fin q) = clamp_to_word (if 0 \<le> q then \<lfloor>q\<rfloor> else \<lceil>q\<rceil>)"
| "f64_as_word PosInf = - 1"
| "f64_as_word NegInf = 0"
| "f64_as_word NaN = 0"

section \<open>Rounding\<close>

lemma round_f64_zero [simp]: "round_f64 0 = Fin 0"
  by (simp add: round_f64_def)

lemma pow2_pos: "0 < pow2 e"
  by (simp add: pow2_def)

lemma round_half_even_nonneg: "0 \<le> q \<Longrightarrow> 0 \<le> round_half_even q"
  by (auto simp: round_half_even_def Let_def)

lemma round_f64_pos:
  assumes "0 < q"
  shows "round_f64 q = PosInf \<or> (\<exists>v. 0 \<le> v \<and> round_f64 q = Fin v)"
proof -
  have "0 \<le> round_half_even (\<bar>q\<bar> / pow2 e)" for e
    by (rule round_half_even_nonneg) (simp add: pow2_pos less_imp_le)
  then have "0 \<le> rat_of_int (round_half_even (\<bar>q\<bar> / pow2 e)) * pow2 e" for e
    by (simp add: pow2_pos less_imp_le)
  with assms show ?thesis by (auto simp: round_f64_def Let_def)
qed

lemma round_f64_not_NaN [simp]: "round_f64 q \<noteq> NaN"
  by (auto simp: round_f64_def Let_def)

lemma f64_is_positive_not_zero: "f64_is_positive x \<Longrightarrow> x \<noteq> Fin 0"
  by (cases x) auto

lemma clamp_to_word_nat: "unat (clamp_to_word n :: 'a::len word) = min (nat n) (2 ^ LENGTH('a) - 1)"
proof -
  consider "n \<le> 0" | "0 < n" "n < 2 ^ LENGTH('a)" | "2 ^ LENGTH('a) \<le> n" by linarith
  then show ?thesis
  proof cases
    case 1
    then show ?thesis by (simp add: clamp_to_word_def)
  next
    case 2
    then have "nat n < 2 ^ LENGTH('a)" by (simp add: nat_less_iff)
    then have "min (nat n) (2 ^ LENGTH('a) - 1) = nat n" by linarith
    moreover from 2 have "unat (of_int n :: 'a word) = nat n"
      by (simp add: unsigned_of_int take_bit_int_eq_self)
    ultimately show ?thesis using 2 unfolding clamp_to_word_def by simp
  next
    case 3
    then have "2 ^ LENGTH('a) \<le> nat n" by (simp add: le_nat_iff)
    then have "min (nat n) (2 ^ LENGTH('a) - 1) = 2 ^ LENGTH('a) - 1" by linarith
    moreover have "\<not> n \<le> 0" using 3 by (smt (verit) zero_less_power)
    ultimately show ?thesis using 3
      by (simp add: clamp_to_word_def unat_minus_one_max)
  qed
qed

end
