(* ===== verification/Json.thy ===== *)
theory Json
  imports F64 "HOL-Library.List_Lexorder"
begin

text \<open>
  \<open>BTreeMap\<close>, the ordered map behind \<open>serde_json::Map\<close> (the workspace does not enable
  \<open>preserve_order\<close>), the interface a keyed store offers, and \<open>serde_json::Value\<close>.
\<close>

section \<open>The interface of a keyed store\<close>

text \<open>
  What the code relies on when it looks a key up after inserting it, whatever the container:
  the last write of a key wins, other keys are untouched, and the container's invariant is kept.
\<close>

locale keyed_store =
  fixes get :: "'m \<Rightarrow> 'k \<Rightarrow> 'v option"
    and put :: "'k \<Rightarrow> 'v \<Rightarrow> 'm \<Rightarrow> 'm"
    and inv :: "'m \<Rightarrow> bool"
  assumes get_put: "inv m \<Longrightarrow> get (put k v m) k' = (if k' = k then Some v else get m k')"
    and inv_put: "inv m \<Longrightarrow> inv (put k v m)"
begin

lemma inv_put_all: "inv m \<Longrightarrow> inv (fold (\<lambda>(k, v). put k v) kvs m)"
  by (induction kvs arbitrary: m) (auto simp: inv_put)

lemma get_put_all:
  "inv m \<Longrightarrow> get (fold (\<lambda>(k, v). put k v) kvs m) x
     = (case map_of (rev kvs) x of Some v \<Rightarrow> Some v | None \<Rightarrow> get m x)"
  by (induction kvs arbitrary: m)
    (auto simp: inv_put get_put map_add_def split: option.splits)

lemma get_put_all_notin:
  "inv m \<Longrightarrow> x \<notin> fst ` set kvs \<Longrightarrow> get (fold (\<lambda>(k, v). put k v) kvs m) x = get m x"
proof -
  assume "inv m" and "x \<notin> fst ` set kvs"
  then have "map_of (rev kvs) x = None" by (simp add: map_of_eq_None_iff)
  with \<open>inv m\<close> show ?thesis by (simp add: get_put_all)
qed

lemma get_put_all_in:
  assumes "inv m" and "distinct (map fst kvs)" and "(x, v) \<in> set kvs"
  shows "get (fold (\<lambda>(k, v). put k v) kvs m) x = Some v"
proof -
  from assms(2,3) have "map_of (rev kvs) x = Some v"
    by (intro map_of_is_SomeI) (simp_all add: rev_map [symmetric])
  with assms(1) show ?thesis by (simp add: get_put_all)
qed

text \<open>Writing a key only while it is absent (\<open>if !contains_key(k) { insert(k, v) }\<close>).\<close>

lemma get_put_if:
  "inv m \<Longrightarrow> get (if c then put k v m else m) x = (if c \<and> x = k then Some v else get m x)"
  by (simp add: get_put)

end

text \<open>A \<open>HashMap\<close> is a partial function.\<close>

definition hm_get :: "('k \<rightharpoonup> 'v) \<Rightarrow> 'k \<Rightarrow> 'v option" where
  "hm_get m k = m k"

definition hm_insert :: "'k \<Rightarrow> 'v \<Rightarrow> ('k \<rightharpoonup> 'v) \<Rightarrow> ('k \<rightharpoonup> 'v)" where
  "hm_insert k v m = m(k \<mapsto> v)"

interpretation hm: keyed_store hm_get hm_insert "\<lambda>_. True"
  by unfold_locales (simp_all add: hm_get_def hm_insert_def)

section \<open>Ordered maps\<close>

type_synonym ('k, 'v) btree = "('k \<times> 'v) list"

definition bt_inv :: "('k::linorder, 'v) btree \<Rightarrow> bool" where
  "bt_inv m \<longleftrightarrow> sorted_wrt (<) (map fst m)"

definition bt_get :: "('k, 'v) btree \<Rightarrow> 'k \<Rightarrow> 'v option" where
  "bt_get m k = map_of m k"

definition bt_contains_key :: "('k, 'v) btree \<Rightarrow> 'k \<Rightarrow> bool" where
  "bt_contains_key m k \<longleftrightarrow> bt_get m k \<noteq> None"

fun bt_insert :: "'k::linorder \<Rightarrow> 'v \<Rightarrow> ('k, 'v) btree \<Rightarrow> ('k, 'v) btree" where
  "bt_insert k v [] = [(k, v)]"
| "bt_insert k v ((k', v') # m) =
     (if k < k' then (k, v) # (k', v') # m
      else if k = k' then (k, v) # m
      else (k', v') # bt_insert k v m)"

definition bt_of_list :: "('k::linorder \<times> 'v) list \<Rightarrow> ('k, 'v) btree" where
  "bt_of_list kvs = fold (\<lambda>(k, v). bt_insert k v) kvs []"

definition bt_remove :: "'k \<Rightarrow> ('k, 'v) btree \<Rightarrow> ('k, 'v) btree" where
  "bt_remove k m = filter (\<lambda>(k', _). k' \<noteq> k) m"

lemma bt_get_insert: "bt_get (bt_insert k v m) x = (if x = k then Some v else bt_get m x)"
  by (induction m) (auto simp: bt_get_def)

lemma bt_get_remove: "bt_get (bt_remove k m) x = (if x = k then None else bt_get m x)"
  by (induction m) (auto simp: bt_get_def bt_remove_def)

lemma keys_bt_insert: "fst ` set (bt_insert k v m) = insert k (fst ` set m)"
  by (induction k v m rule: bt_insert.induct) (simp_all add: insert_commute)

lemma bt_inv_insert: "bt_inv m \<Longrightarrow> bt_inv (bt_insert k v m)"
proof (induction m)
  case Nil
  then show ?case by (simp add: bt_inv_def)
next
  case (Cons p m)
  obtain k' v' where p: "p = (k', v')" by (cases p)
  from Cons.prems have gt: "\<forall>x \<in> fst ` set m. k' < x" and m: "bt_inv m"
    by (auto simp: bt_inv_def p)
  show ?case
  proof (cases "k < k'")
    case True
    with Cons.prems show ?thesis by (auto simp: p bt_inv_def)
  next
    case nlt: False
    show ?thesis
    proof (cases "k = k'")
      case True
      with Cons.prems show ?thesis by (simp add: p bt_inv_def)
    next
      case False
      with nlt have "k' < k" by simp
      then have "\<forall>x \<in> fst ` set (bt_insert k v m). k' < x"
        using gt by (simp add: keys_bt_insert)
      with Cons.IH [OF m] nlt False show ?thesis by (simp add: p bt_inv_def)
    qed
  qed
qed

interpretation bt: keyed_store bt_get bt_insert bt_inv
  by unfold_locales (simp_all add: bt_get_insert bt_inv_insert)

lemma bt_inv_Nil [simp]: "bt_inv []"
  by (simp add: bt_inv_def)

lemma bt_get_Nil [simp]: "bt_get [] k = None"
  by (simp add: bt_get_def)

lemma bt_inv_of_list: "bt_inv (bt_of_list kvs)"
  unfolding bt_of_list_def by (rule bt.inv_put_all) simp

lemma bt_get_of_list: "bt_get (bt_of_list kvs) x = map_of (rev kvs) x"
  unfolding bt_of_list_def by (simp add: bt.get_put_all split: option.splits)

declare bt_insert.simps [simp del]

section \<open>JSON values\<close>

datatype jnumber = JInt int | JFloat f64

datatype json =
    JNull
  | JBool bool
  | JNumber jnumber
  | JString rstr
  | JArray "json list"
  | JObject "(rstr \<times> json) list"

type_synonym jmap = "(rstr, json) btree"

fun json_as_str :: "json \<Rightarrow> rstr option" where
  "json_as_str (JString s) = Some s"
| "json_as_str _ = None"

fun json_is_object :: "json \<Rightarrow> bool" where
  "json_is_object (JObject _) = True"
| "json_is_object _ = False"

text \<open>\<open>Value::get\<close> with a string key: only an object has one.\<close>

fun json_get :: "json \<Rightarrow> rstr \<Rightarrow> json option" where
  "json_get (JObject m) k = bt_get m k"
| "json_get _ k = None"

text \<open>The fields of a struct whose \<open>Option\<close>s carry
  \<open>#[serde(skip_serializing_if = "Option::is_none")]\<close>.\<close>

definition opt_field :: "string \<Rightarrow> ('a \<Rightarrow> json) \<Rightarrow> 'a option \<Rightarrow> (rstr \<times> json) list" where
  "opt_field k f v = (case v of None \<Rightarrow> [] | Some x \<Rightarrow> [(lit k, f x)])"

lemma opt_field_simps [simp]:
  "opt_field k f None = []"
  "opt_field k f (Some x) = [(lit k, f x)]"
  by (simp_all add: opt_field_def)

lemma map_of_rev_opt_field:
  "map_of (rev (opt_field k f v @ rest)) x =
     (case map_of (rev rest) x of Some y \<Rightarrow> Some y
      | None \<Rightarrow> if x = lit k then map_option f v else None)"
  by (cases v) (simp_all add: map_add_def split: option.splits)

lemma map_of_rev_opt_field_last:
  "map_of (rev (opt_field k f v)) x = (if x = lit k then map_option f v else None)"
  by (cases v) simp_all

definition json_obj :: "(rstr \<times> json) list \<Rightarrow> json" where
  "json_obj kvs = JObject (bt_of_list kvs)"

lemma json_get_obj [simp]: "json_get (json_obj kvs) k = map_of (rev kvs) k"
  by (simp add: json_obj_def bt_get_of_list)

end
