(* ===== verification/Sdk_Types.thy ===== *)
theory Sdk_Types
  imports Json
begin

text \<open>
  The shared data of \<open>crates/plugin-sdk/src/types.rs\<close>: the tenant context, documents, plugin
  inputs and outputs, usage units, and the injection of the tenant context into a step's
  configuration. UUIDs are drawn by the \<open>uuid\<close> crate: a function that draws one takes it as the
  argument \<open>fresh\<close>. The length of a value serialized by \<open>serde_json\<close> is the argument \<open>ser\<close>.
\<close>

section \<open>Tenant context\<close>

record meili_context =
  ctx_tenant_id :: "rstr option"
  ctx_host :: "rstr option"
  ctx_api_key :: "rstr option"
  ctx_index :: "rstr option"
  ctx_region :: "rstr option"

text \<open>The serialized context: \<open>None\<close> fields are skipped.\<close>

definition context_fields :: "meili_context \<Rightarrow> (rstr \<times> json) list" where
  "context_fields c = bt_of_list
     (opt_field ''tenant_id'' JString (ctx_tenant_id c)
      @ opt_field ''host'' JString (ctx_host c)
      @ opt_field ''api_key'' JString (ctx_api_key c)
      @ opt_field ''index'' JString (ctx_index c)
      @ opt_field ''region'' JString (ctx_region c))"

section \<open>Documents\<close>

record document_meta =
  meta_source :: "rstr option"
  meta_filename :: "rstr option"
  meta_mime :: "rstr option"
  meta_page :: "u32 option"
  meta_section :: "rstr option"
  meta_chunk_index :: "nat option"
  meta_chunk_total :: "nat option"
  meta_parent_id :: "rstr option"
  meta_language :: "rstr option"
  meta_extra :: jmap

definition default_meta :: document_meta where
  "default_meta = \<lparr>meta_source = None, meta_filename = None, meta_mime = None, meta_page = None,
     meta_section = None, meta_chunk_index = None, meta_chunk_total = None,
     meta_parent_id = None, meta_language = None, meta_extra = []\<rparr>"

record document =
  doc_id :: rstr
  doc_title :: "rstr option"
  doc_content :: rstr
  doc_fields :: jmap
  doc_meta :: document_meta

definition document_meta_json :: "document_meta \<Rightarrow> json" where
  "document_meta_json m = json_obj
     (opt_field ''source'' JString (meta_source m)
      @ opt_field ''filename'' JString (meta_filename m)
      @ opt_field ''mime'' JString (meta_mime m)
      @ opt_field ''page'' (\<lambda>p. JNumber (JInt (uint p))) (meta_page m)
      @ opt_field ''section'' JString (meta_section m)
      @ opt_field ''chunk_index'' (\<lambda>i. JNumber (JInt (int i))) (meta_chunk_index m)
      @ opt_field ''chunk_total'' (\<lambda>i. JNumber (JInt (int i))) (meta_chunk_total m)
      @ opt_field ''parent_id'' JString (meta_parent_id m)
      @ opt_field ''language'' JString (meta_language m)
      @ (if meta_extra m = [] then [] else [(lit ''extra'', JObject (meta_extra m))]))"

text \<open>\<open>Document::to_index_json\<close>: the flattened object sent to Meilisearch.\<close>

definition reserved_key :: "rstr \<Rightarrow> bool" where
  "reserved_key k \<longleftrightarrow> k = lit ''id'' \<or> k = lit ''content'' \<or> k = lit ''_meta''"

definition index_object :: "document \<Rightarrow> jmap" where
  "index_object d =
     (let obj = bt_insert (lit ''id'') (JString (doc_id d)) [];
          obj = (case doc_title d of None \<Rightarrow> obj
                 | Some t \<Rightarrow> bt_insert (lit ''title'') (JString t) obj);
          obj = bt_insert (lit ''content'') (JString (doc_content d)) obj;
          obj = fold (\<lambda>(k, v). bt_insert k v) (filter (\<lambda>(k, v). \<not> reserved_key k) (doc_fields d)) obj
      in bt_insert (lit ''_meta'') (document_meta_json (doc_meta d)) obj)"

definition to_index_json :: "document \<Rightarrow> json" where
  "to_index_json d = JObject (index_object d)"

subsection \<open>Document ids\<close>

definition id_char :: "rchar \<Rightarrow> bool" where
  "id_char c \<longleftrightarrow> is_ascii_alphanumeric c \<or> c = 45 \<or> c = 95"

definition sanitize_id :: "rstr \<Rightarrow> rstr \<Rightarrow> rstr" where
  "sanitize_id fresh raw =
     (let out = map (\<lambda>c. if id_char c then c else 95) raw;
          out = (if out = [] then fresh else out)
      in if 511 < utf8_len out then take 511 out else out)"

text \<open>Drawn ids are well formed: what \<open>Uuid::new_v4().to_string()\<close> documents.\<close>

definition uuid_string :: "rstr \<Rightarrow> bool" where
  "uuid_string s \<longleftrightarrow> length s = 36 \<and> (\<forall>c \<in> set s. is_ascii_digit c \<or> (97 \<le> c \<and> c \<le> 102) \<or> c = 45)"

definition filename_id_stem :: "rstr \<Rightarrow> rstr option \<Rightarrow> rstr option" where
  "filename_id_stem fresh filename =
     (case filename of None \<Rightarrow> None
      | Some name \<Rightarrow>
         let name = dropWhile (\<lambda>c. c = 47) (rsplit_first (\<lambda>c. c = 92) name);
             (dir, base) = (case rsplit_once 47 name of Some p \<Rightarrow> p | None \<Rightarrow> ([], name));
             stem = (case rsplit_once 46 base of
                       Some (s, _) \<Rightarrow> if s \<noteq> [] then s else base | None \<Rightarrow> base)
         in if stem = [] then None
            else Some (sanitize_id fresh (if dir = [] then stem else dir @ [47] @ stem)))"

definition new_document :: "rstr \<Rightarrow> rstr \<Rightarrow> document" where
  "new_document fresh content = \<lparr>doc_id = fresh, doc_title = None, doc_content = content,
     doc_fields = [], doc_meta = default_meta\<rparr>"

definition document_with_id :: "rstr \<Rightarrow> rstr \<Rightarrow> rstr \<Rightarrow> document" where
  "document_with_id fresh i content = \<lparr>doc_id = sanitize_id fresh i, doc_title = None,
     doc_content = content, doc_fields = [], doc_meta = default_meta\<rparr>"

section \<open>Plugin inputs and outputs\<close>

datatype plugin_error =
    ErrRetryable rstr
  | ErrNonRetryable rstr
  | ErrInvalidConfig rstr
  | ErrInvalidInput rstr
  | ErrCancelled
  | ErrIo rstr
  | ErrSerde rstr
  | ErrOther rstr

fun is_retryable :: "plugin_error \<Rightarrow> bool" where
  "is_retryable (ErrRetryable _) = True"
| "is_retryable (ErrIo _) = True"
| "is_retryable (ErrOther _) = True"
| "is_retryable _ = False"


record blob =
  blob_data :: "byte list"
  blob_mime :: rstr
  blob_filename :: "rstr option"

datatype content_ref =
    RefUrl rstr "rstr option" "rstr option"
  | RefS3 rstr "rstr option" "rstr option"
  | RefStaged rstr "rstr option" "rstr option"

fun ref_mime :: "content_ref \<Rightarrow> rstr option" where
  "ref_mime (RefUrl _ m _) = m"
| "ref_mime (RefS3 _ m _) = m"
| "ref_mime (RefStaged _ m _) = m"

fun ref_filename :: "content_ref \<Rightarrow> rstr option" where
  "ref_filename (RefUrl _ _ f) = f"
| "ref_filename (RefS3 _ _ f) = f"
| "ref_filename (RefStaged _ _ f) = f"

fun ref_location :: "content_ref \<Rightarrow> rstr" where
  "ref_location (RefUrl u _ _) = u"
| "ref_location (RefS3 u _ _) = u"
| "ref_location (RefStaged u _ _) = u"

record index_report =
  rep_index :: rstr
  rep_document_count :: nat
  rep_task_uids :: "u32 list"

datatype plugin_output =
    OutBytes blob
  | OutRef content_ref
  | OutDocuments "document list"
  | OutMany "plugin_output list"
  | OutIndexed index_report
  | OutEmpty

datatype plugin_input =
    InBytes blob
  | InRef content_ref
  | InDocuments "document list"
  | InMany "plugin_output list"
  | InEmpty

datatype input_kind = IkBytes | IkRef | IkDocuments | IkMany | IkEmpty
datatype output_kind = OkBytes | OkRef | OkDocuments | OkMany | OkIndexed | OkEmpty

fun input_kind_of :: "plugin_input \<Rightarrow> input_kind" where
  "input_kind_of (InBytes _) = IkBytes"
| "input_kind_of (InRef _) = IkRef"
| "input_kind_of (InDocuments _) = IkDocuments"
| "input_kind_of (InMany _) = IkMany"
| "input_kind_of InEmpty = IkEmpty"

fun output_kind_of :: "plugin_output \<Rightarrow> output_kind" where
  "output_kind_of (OutBytes _) = OkBytes"
| "output_kind_of (OutRef _) = OkRef"
| "output_kind_of (OutDocuments _) = OkDocuments"
| "output_kind_of (OutMany _) = OkMany"
| "output_kind_of (OutIndexed _) = OkIndexed"
| "output_kind_of OutEmpty = OkEmpty"

fun input_kind_debug :: "input_kind \<Rightarrow> rstr" where
  "input_kind_debug IkBytes = lit ''Bytes''"
| "input_kind_debug IkRef = lit ''Ref''"
| "input_kind_debug IkDocuments = lit ''Documents''"
| "input_kind_debug IkMany = lit ''Many''"
| "input_kind_debug IkEmpty = lit ''Empty''"

fun output_kind_debug :: "output_kind \<Rightarrow> rstr" where
  "output_kind_debug OkBytes = lit ''Bytes''"
| "output_kind_debug OkRef = lit ''Ref''"
| "output_kind_debug OkDocuments = lit ''Documents''"
| "output_kind_debug OkMany = lit ''Many''"
| "output_kind_debug OkIndexed = lit ''Indexed''"
| "output_kind_debug OkEmpty = lit ''Empty''"

fun into_bytes :: "plugin_input \<Rightarrow> plugin_error + blob" where
  "into_bytes (InBytes b) = Inr b"
| "into_bytes other = Inl (ErrInvalidInput
     (lit ''expected bytes, got '' @ input_kind_debug (input_kind_of other)))"

text \<open>Outputs first, then inputs: \<open>Many\<close> is flattened recursively and the first output that is
  not made of documents ends the walk with its error.\<close>

fun out_into_documents :: "plugin_output \<Rightarrow> plugin_error + document list"
  and outs_into_documents :: "plugin_output list \<Rightarrow> plugin_error + document list" where
  "out_into_documents (OutDocuments d) = Inr d"
| "out_into_documents (OutMany m) = outs_into_documents m"
| "out_into_documents (OutIndexed _) = Inr []"
| "out_into_documents OutEmpty = Inr []"
| "out_into_documents (OutBytes b) = Inl (ErrInvalidInput
     (lit ''expected documents, got '' @ output_kind_debug OkBytes))"
| "out_into_documents (OutRef r) = Inl (ErrInvalidInput
     (lit ''expected documents, got '' @ output_kind_debug OkRef))"
| "outs_into_documents [] = Inr []"
| "outs_into_documents (p # ps) =
     try_bind (out_into_documents p) (\<lambda>d. try_bind (outs_into_documents ps) (\<lambda>ds. Inr (d @ ds)))"

fun in_into_documents :: "plugin_input \<Rightarrow> plugin_error + document list" where
  "in_into_documents (InDocuments d) = Inr d"
| "in_into_documents (InMany outs) = outs_into_documents outs"
| "in_into_documents InEmpty = Inr []"
| "in_into_documents other = Inl (ErrInvalidInput
     (lit ''expected documents, got '' @ input_kind_debug (input_kind_of other)))"

fun out_document_count :: "plugin_output \<Rightarrow> nat" where
  "out_document_count (OutDocuments d) = length d"
| "out_document_count (OutMany m) = sum_list (map out_document_count m)"
| "out_document_count (OutIndexed r) = rep_document_count r"
| "out_document_count _ = 0"

fun input_of_output :: "plugin_output \<Rightarrow> plugin_input" where
  "input_of_output (OutBytes b) = InBytes b"
| "input_of_output (OutRef r) = InRef r"
| "input_of_output (OutDocuments d) = InDocuments d"
| "input_of_output (OutMany m) = InMany m"
| "input_of_output (OutIndexed _) = InEmpty"
| "input_of_output OutEmpty = InEmpty"

definition doc_size :: "(jmap \<Rightarrow> nat) \<Rightarrow> document \<Rightarrow> nat" where
  "doc_size ser d = utf8_len (doc_id d) + utf8_len (doc_content d)
     + (case doc_title d of None \<Rightarrow> 0 | Some t \<Rightarrow> utf8_len t) + ser (doc_fields d) + 256"

fun out_approx_size :: "(jmap \<Rightarrow> nat) \<Rightarrow> plugin_output \<Rightarrow> nat" where
  "out_approx_size ser (OutBytes b) = length (blob_data b) * 4 div 3"
| "out_approx_size ser (OutRef _) = 256"
| "out_approx_size ser (OutDocuments d) = sum_list (map (doc_size ser) d)"
| "out_approx_size ser (OutMany m) = sum_list (map (out_approx_size ser) m)"
| "out_approx_size ser (OutIndexed _) = 128"
| "out_approx_size ser OutEmpty = 8"

fun in_approx_size :: "(jmap \<Rightarrow> nat) \<Rightarrow> plugin_input \<Rightarrow> nat" where
  "in_approx_size ser (InBytes b) = length (blob_data b) * 4 div 3"
| "in_approx_size ser (InRef _) = 256"
| "in_approx_size ser (InDocuments d) = sum_list (map (doc_size ser) d)"
| "in_approx_size ser (InMany m) = sum_list (map (out_approx_size ser) m)"
| "in_approx_size ser InEmpty = 8"

section \<open>Usage units\<close>

record usage_units =
  llm_input_tokens :: u64
  llm_output_tokens :: u64
  llm_requests :: u64
  audio_seconds :: f64
  uu_pages :: u64
  uu_images :: u64
  external_requests :: u64
  cost_micro_usd :: u64
  unpriced_calls :: u64

definition no_usage :: usage_units where
  "no_usage = \<lparr>llm_input_tokens = 0, llm_output_tokens = 0, llm_requests = 0,
     audio_seconds = Fin 0, uu_pages = 0, uu_images = 0, external_requests = 0,
     cost_micro_usd = 0, unpriced_calls = 0\<rparr>"

definition usage_is_empty :: "usage_units \<Rightarrow> bool" where
  "usage_is_empty u \<longleftrightarrow> llm_input_tokens u = 0 \<and> llm_output_tokens u = 0 \<and> llm_requests u = 0
     \<and> f64_eq (audio_seconds u) (Fin 0) \<and> uu_pages u = 0 \<and> uu_images u = 0
     \<and> external_requests u = 0 \<and> cost_micro_usd u = 0 \<and> unpriced_calls u = 0"

definition usage_merge :: "usage_units \<Rightarrow> usage_units \<Rightarrow> usage_units" where
  "usage_merge u v = \<lparr>
     llm_input_tokens = sat_add (llm_input_tokens u) (llm_input_tokens v),
     llm_output_tokens = sat_add (llm_output_tokens u) (llm_output_tokens v),
     llm_requests = sat_add (llm_requests u) (llm_requests v),
     audio_seconds = f64_add (audio_seconds u) (audio_seconds v),
     uu_pages = sat_add (uu_pages u) (uu_pages v),
     uu_images = sat_add (uu_images u) (uu_images v),
     external_requests = sat_add (external_requests u) (external_requests v),
     cost_micro_usd = sat_add (cost_micro_usd u) (cost_micro_usd v),
     unpriced_calls = sat_add (unpriced_calls u) (unpriced_calls v)\<rparr>"

definition usage_llm :: "u64 \<Rightarrow> u64 \<Rightarrow> usage_units" where
  "usage_llm i out = no_usage\<lparr>llm_input_tokens := i, llm_output_tokens := out, llm_requests := 1\<rparr>"

definition usage_transcription :: "f64 \<Rightarrow> usage_units" where
  "usage_transcription seconds = no_usage\<lparr>audio_seconds := seconds, external_requests := 1\<rparr>"

definition usage_pages :: "u64 \<Rightarrow> usage_units" where
  "usage_pages count = no_usage\<lparr>uu_pages := count\<rparr>"

section \<open>Jobs\<close>

datatype job_status = Queued | Running | Succeeded | Failed | Cancelled

fun job_status_str :: "job_status \<Rightarrow> rstr" where
  "job_status_str Queued = lit ''queued''"
| "job_status_str Running = lit ''running''"
| "job_status_str Succeeded = lit ''succeeded''"
| "job_status_str Failed = lit ''failed''"
| "job_status_str Cancelled = lit ''cancelled''"

fun is_terminal :: "job_status \<Rightarrow> bool" where
  "is_terminal Succeeded = True"
| "is_terminal Failed = True"
| "is_terminal Cancelled = True"
| "is_terminal _ = False"

record step_result =
  sr_step_id :: rstr
  sr_plugin :: rstr
  sr_status :: job_status
  sr_document_count :: nat
  sr_branches :: nat
  sr_error :: "rstr option"
  sr_duration_ms :: u64
  sr_input_bytes :: u64
  sr_usage :: usage_units

section \<open>Archive jobs\<close>

type_synonym uuid = rstr

record archive_file_issue =
  issue_path :: rstr
  issue_reason :: rstr
  issue_job_id :: "uuid option"

record archive_progress =
  files_total :: nat
  files_started :: nat
  files_succeeded :: nat
  files_failed :: nat
  files_skipped :: nat
  arch_skipped :: "archive_file_issue list"
  arch_failed :: "archive_file_issue list"

definition ARCHIVE_ISSUES_KEPT :: nat where
  "ARCHIVE_ISSUES_KEPT = 50"

definition no_archive_progress :: archive_progress where
  "no_archive_progress = \<lparr>files_total = 0, files_started = 0, files_succeeded = 0,
     files_failed = 0, files_skipped = 0, arch_skipped = [], arch_failed = []\<rparr>"

definition archive_skip :: "archive_file_issue \<Rightarrow> archive_progress \<Rightarrow> archive_progress" where
  "archive_skip i a =
     (let a = a\<lparr>files_skipped := files_skipped a + 1\<rparr>
      in if length (arch_skipped a) < ARCHIVE_ISSUES_KEPT
         then a\<lparr>arch_skipped := arch_skipped a @ [i]\<rparr> else a)"

definition archive_fail :: "archive_file_issue \<Rightarrow> archive_progress \<Rightarrow> archive_progress" where
  "archive_fail i a =
     (let a = a\<lparr>files_failed := files_failed a + 1\<rparr>
      in if length (arch_failed a) < ARCHIVE_ISSUES_KEPT
         then a\<lparr>arch_failed := arch_failed a @ [i]\<rparr> else a)"

text \<open>The details kept are bounded and never more than what was counted.\<close>

definition issues_bounded :: "archive_progress \<Rightarrow> bool" where
  "issues_bounded a \<longleftrightarrow>
     length (arch_skipped a) = min (files_skipped a) ARCHIVE_ISSUES_KEPT
     \<and> length (arch_failed a) = min (files_failed a) ARCHIVE_ISSUES_KEPT"

record workflow_progress =
  wp_status :: job_status
  wp_current_step :: "rstr option"
  wp_completed_steps :: nat
  wp_total_steps :: nat
  wp_steps :: "step_result list"
  wp_error :: "rstr option"
  wp_cancel_requested :: bool
  wp_archive :: "archive_progress option"

definition initial_progress :: workflow_progress where
  "initial_progress = \<lparr>wp_status = Queued, wp_current_step = None, wp_completed_steps = 0,
     wp_total_steps = 0, wp_steps = [], wp_error = None, wp_cancel_requested = False,
     wp_archive = None\<rparr>"

section \<open>Step activities\<close>

record step_activity_input =
  sai_job_id :: uuid
  sai_step_id :: rstr
  sai_plugin :: rstr
  sai_config :: json
  sai_input :: plugin_input
  sai_branch :: "nat option"
  sai_branch_total :: "nat option"
  sai_tenant_id :: "rstr option"

record step_activity_output =
  sao_step_id :: rstr
  sao_output :: plugin_output
  sao_duration_ms :: u64
  sao_usage :: usage_units
  sao_input_bytes :: u64
  sao_documents_out :: u64

section \<open>The destination of an index step\<close>

definition INDEXER_PLUGIN :: rstr where
  "INDEXER_PLUGIN = lit ''meili_indexer''"

definition CONNECTION_KEY :: rstr where
  "CONNECTION_KEY = lit ''connection''"

text \<open>The connection a step's configuration pins; a blank name does not count.\<close>

definition pinned_connection :: "json \<Rightarrow> rstr option" where
  "pinned_connection config =
     (case Option.bind (json_get config CONNECTION_KEY) json_as_str of
        None \<Rightarrow> None
      | Some s \<Rightarrow> let s = trim s in if s = [] then None else Some s)"

definition destination_key :: "rstr \<Rightarrow> bool" where
  "destination_key k \<longleftrightarrow> k = lit ''host'' \<or> k = lit ''api_key''"

definition inject_field :: "bool \<Rightarrow> rstr \<times> json \<Rightarrow> jmap \<Rightarrow> jmap" where
  "inject_field pinned kv obj =
     (let (k, v) = kv; destination = destination_key k
      in if destination \<and> pinned then obj
         else if destination \<or> \<not> bt_contains_key obj k then bt_insert k v obj else obj)"

definition inject_meili_context :: "json \<Rightarrow> meili_context \<Rightarrow> json" where
  "inject_meili_context config c =
     (let config = (if json_is_object config then config else JObject []);
          pinned = pinned_connection config \<noteq> None
      in case config of
           JObject obj \<Rightarrow> JObject (fold (inject_field pinned) (context_fields c) obj)
         | other \<Rightarrow> other)"

section \<open>Document ids are accepted by Meilisearch\<close>

lemma uuid_string_id_chars: "uuid_string s \<Longrightarrow> \<forall>c \<in> set s. id_char c"
  by (auto simp: uuid_string_def id_char_def is_ascii_alphanumeric_def)

lemma id_char_ascii: "id_char c \<Longrightarrow> c < 128"
  by (auto simp: id_char_def is_ascii_alphanumeric_def is_ascii_digit_def)

lemma utf8_len_id_chars: "\<forall>c \<in> set s. id_char c \<Longrightarrow> utf8_len s = length s"
  by (rule utf8_len_ascii) (auto dest: id_char_ascii)

definition valid_document_id :: "rstr \<Rightarrow> bool" where
  "valid_document_id s \<longleftrightarrow> s \<noteq> [] \<and> utf8_len s \<le> 511 \<and> (\<forall>c \<in> set s. id_char c)"

lemma id_char_underscore [simp]: "id_char 95"
  by (simp add: id_char_def)

lemma sanitize_id_fixed:
  assumes "valid_document_id s" shows "sanitize_id fresh s = s"
proof -
  from assms have "map (\<lambda>c. if id_char c then c else 95) s = s"
    by (intro map_idI) (auto simp: valid_document_id_def)
  with assms show ?thesis by (simp add: sanitize_id_def valid_document_id_def)
qed

lemma sanitize_id_valid_if:
  assumes "uuid_string fresh \<or> raw \<noteq> []"
  shows "valid_document_id (sanitize_id fresh raw)"
proof -
  define out where "out = (if raw = [] then fresh else map (\<lambda>c. if id_char c then c else 95) raw)"
  have chars: "\<forall>c \<in> set out. id_char c"
    using assms uuid_string_id_chars by (auto simp: out_def)
  have ne: "out \<noteq> []" using assms by (auto simp: out_def uuid_string_def)
  have eq: "sanitize_id fresh raw = (if 511 < length out then take 511 out else out)"
    using utf8_len_id_chars [OF chars] by (simp add: sanitize_id_def out_def Let_def)
  have "\<forall>c \<in> set (take 511 out). id_char c" using chars by (auto dest: in_set_takeD)
  then show ?thesis unfolding valid_document_id_def eq using ne chars utf8_len_id_chars
    by (auto simp: min_def)
qed

text \<open>Whatever the caller passes, \<open>sanitize_id\<close> returns an id Meilisearch accepts (one to 511
  bytes of letters, digits, hyphen and underscore), and sanitizing it again changes nothing.\<close>

theorem sanitize_id_valid:
  assumes "uuid_string fresh"
  shows "valid_document_id (sanitize_id fresh raw)
    \<and> sanitize_id fresh' (sanitize_id fresh raw) = sanitize_id fresh raw"
  using assms by (simp add: sanitize_id_valid_if sanitize_id_fixed)

definition example_uuid :: rstr where
  "example_uuid = lit ''550e8400-e29b-41d4-a716-446655440000''"

lemma uuid_string_example: "uuid_string example_uuid"
  by (simp add: uuid_string_def example_uuid_def lit_def is_ascii_digit_def)

theorem sanitize_id_valid_witness:
  "valid_document_id (sanitize_id example_uuid [])
    \<and> sanitize_id [] (sanitize_id example_uuid []) = sanitize_id example_uuid []"
  by (rule sanitize_id_valid [OF uuid_string_example])

lemma filename_id_stem_valid:
  "filename_id_stem fresh f = Some s \<Longrightarrow> valid_document_id s"
  unfolding filename_id_stem_def Let_def
  by (auto split: option.split_asm if_split_asm prod.split_asm
      simp del: dropWhile_eq_Nil_conv intro!: sanitize_id_valid_if)

section \<open>The indexed object\<close>

lemma bt_inv_distinct: "bt_inv m \<Longrightarrow> distinct (map fst m)"
  unfolding bt_inv_def by (rule strict_sorted_iff [THEN iffD1, THEN conjunct2])

lemma map_of_rev_filter:
  assumes "bt_inv m"
  shows "map_of (rev (filter P m)) k = (case bt_get m k of Some v \<Rightarrow> if P (k, v) then Some v else None
     | None \<Rightarrow> None)"
proof -
  have d: "distinct (map fst (filter P m))"
    using bt_inv_distinct [OF assms] by (rule distinct_map_filter)
  have "map_of (rev (filter P m)) k = map_of (filter P m) k"
    using d by (metis distinct_rev map_of_inject_set rev_map set_rev)
  also have "\<dots> = (case bt_get m k of Some v \<Rightarrow> if P (k, v) then Some v else None | None \<Rightarrow> None)"
    using bt_inv_distinct [OF assms] unfolding bt_get_def
    by (induction m) (auto split: option.splits simp: map_of_eq_None_iff rev_image_eqI)
  finally show ?thesis .
qed

lemma bt_inv_index_object: "bt_inv (index_object d)"
  by (auto simp: index_object_def Let_def intro!: bt_inv_insert bt.inv_put_all split: option.splits)

text \<open>What Meilisearch receives under each key.\<close>

definition indexed_value :: "document \<Rightarrow> rstr \<Rightarrow> json option" where
  "indexed_value d k =
     (if k = lit ''id'' then Some (JString (doc_id d))
      else if k = lit ''content'' then Some (JString (doc_content d))
      else if k = lit ''_meta'' then Some (document_meta_json (doc_meta d))
      else case bt_get (doc_fields d) k of Some v \<Rightarrow> Some v
           | None \<Rightarrow> if k = lit ''title'' then map_option JString (doc_title d) else None)"

text \<open>The object sent to Meilisearch holds the document's id, content and metadata under
  their own keys whatever its fields are called, and every other field under its name.\<close>

theorem to_index_json_get:
  assumes "bt_inv (doc_fields d)"
  shows "json_get (to_index_json d) k = indexed_value d k \<and> bt_inv (index_object d)"
proof -
  let ?fs = "filter (\<lambda>(k, v). \<not> reserved_key k) (doc_fields d)"
  have inv: "bt_inv (bt_insert (lit ''content'') (JString (doc_content d))
      (case doc_title d of None \<Rightarrow> bt_insert (lit ''id'') (JString (doc_id d)) []
       | Some t \<Rightarrow> bt_insert (lit ''title'') (JString t) (bt_insert (lit ''id'') (JString (doc_id d)) [])))"
    by (auto intro!: bt_inv_insert split: option.splits)
  have "json_get (to_index_json d) k = indexed_value d k"
    unfolding to_index_json_def index_object_def indexed_value_def Let_def json_get.simps
      bt_get_insert bt.get_put_all [OF inv] map_of_rev_filter [OF assms]
    by (auto simp: reserved_key_def bt_get_insert split: option.splits)
  then show ?thesis by (simp add: bt_inv_index_object)
qed

definition example_document :: document where
  "example_document = \<lparr>doc_id = lit ''a1'', doc_title = Some (lit ''T''), doc_content = lit ''text'',
     doc_fields = [(lit ''id'', JString (lit ''spoofed'')), (lit ''lang'', JString (lit ''fr''))],
     doc_meta = default_meta\<rparr>"

theorem to_index_json_get_witness:
  "json_get (to_index_json example_document) (lit ''id'') = Some (JString (lit ''a1''))"
proof -
  have "bt_inv (doc_fields example_document)"
    by (simp add: example_document_def bt_inv_def lit_def)
  then show ?thesis
    using to_index_json_get [of example_document "lit ''id''"]
    by (simp add: indexed_value_def example_document_def)
qed

section \<open>Injecting the tenant context\<close>

lemma context_fields_get:
  "bt_get (context_fields c) k =
     (if k = lit ''tenant_id'' then map_option JString (ctx_tenant_id c)
      else if k = lit ''host'' then map_option JString (ctx_host c)
      else if k = lit ''api_key'' then map_option JString (ctx_api_key c)
      else if k = lit ''index'' then map_option JString (ctx_index c)
      else if k = lit ''region'' then map_option JString (ctx_region c) else None)"
proof -
  note lookup = context_fields_def bt_get_of_list map_of_rev_opt_field map_of_rev_opt_field_last
  have tenant_id: "bt_get (context_fields c) (lit ''tenant_id'') = map_option JString (ctx_tenant_id c)"
    by (simp add: lookup del: rev_append split: option.split)
  have host: "bt_get (context_fields c) (lit ''host'') = map_option JString (ctx_host c)"
    by (simp add: lookup del: rev_append split: option.split)
  have api_key: "bt_get (context_fields c) (lit ''api_key'') = map_option JString (ctx_api_key c)"
    by (simp add: lookup del: rev_append split: option.split)
  have index: "bt_get (context_fields c) (lit ''index'') = map_option JString (ctx_index c)"
    by (simp add: lookup del: rev_append split: option.split)
  have region: "bt_get (context_fields c) (lit ''region'') = map_option JString (ctx_region c)"
    by (simp add: lookup del: rev_append split: option.split)
  have other: "bt_get (context_fields c) k = None" if "k \<notin> lit ` {''tenant_id'', ''host'', ''api_key'', ''index'', ''region''}"
    using that by (simp add: lookup del: rev_append)
  show ?thesis
    using other tenant_id host api_key index region by (simp split: if_split)
qed

lemma inject_field_get:
  "bt_get (inject_field pinned (k', v') obj) k = (if k = k' then
      (if destination_key k then (if pinned then bt_get obj k else Some v')
       else (case bt_get obj k of Some x \<Rightarrow> Some x | None \<Rightarrow> Some v')) else bt_get obj k)"
  by (auto simp: inject_field_def Let_def bt_get_insert bt_contains_key_def split: option.splits)

lemma inject_fields_get:
  assumes "distinct (map fst kvs)"
  shows "bt_get (fold (inject_field pinned) kvs obj) k =
    (case bt_get kvs k of None \<Rightarrow> bt_get obj k
     | Some v \<Rightarrow> if destination_key k then (if pinned then bt_get obj k else Some v)
        else (case bt_get obj k of Some x \<Rightarrow> Some x | None \<Rightarrow> Some v))"
  using assms
proof (induction kvs arbitrary: obj)
  case Nil
  then show ?case by simp
next
  case (Cons p kvs)
  obtain k' v' where p: "p = (k', v')" by (cases p)
  have nin: "bt_get kvs k' = None" using Cons.prems by (simp add: p bt_get_def map_of_eq_None_iff)
  have hd: "bt_get ((k', v') # kvs) k = (if k = k' then Some v' else bt_get kvs k)"
    by (simp add: bt_get_def)
  note step = inject_field_get
  from Cons.prems have "distinct (map fst kvs)" by simp
  note IH = Cons.IH [OF this, of "inject_field pinned (k', v') obj"]
  show ?case
    unfolding p hd fold.simps comp_def IH
    by (cases "k = k'") (simp_all add: step nin split: option.split)
qed

text \<open>What an index step's configuration holds after the tenant context is merged in. A step
  that pins a connection keeps its own host and key; otherwise the request's host and key replace
  the step's; every other key only fills what the step left unset.\<close>

theorem inject_meili_context_get:
  "json_get (inject_meili_context config c) k =
    (case bt_get (context_fields c) k of None \<Rightarrow> json_get config k
     | Some v \<Rightarrow>
        if destination_key k
        then (if pinned_connection config \<noteq> None then json_get config k else Some v)
        else (case json_get config k of Some x \<Rightarrow> Some x | None \<Rightarrow> Some v))"
proof -
  have "bt_inv (context_fields c)" by (simp add: context_fields_def bt_inv_of_list)
  then have d: "distinct (map fst (context_fields c))" by (rule bt_inv_distinct)
  show ?thesis
  proof (cases config)
    case (JObject m)
    show ?thesis unfolding JObject
      by (simp add: inject_meili_context_def Let_def inject_fields_get [OF d] split: option.split)
  qed (simp_all add: inject_meili_context_def Let_def inject_fields_get [OF d]
      pinned_connection_def split: option.split)
qed

text \<open>A request without a host leaves the host the step itself names in place.\<close>

theorem inject_keeps_step_host:
  assumes "ctx_host c = None"
  shows "json_get (inject_meili_context config c) (lit ''host'') = json_get config (lit ''host'')"
  using assms by (simp add: inject_meili_context_get context_fields_get)

definition bare_context :: meili_context where
  "bare_context = \<lparr>ctx_tenant_id = None, ctx_host = None, ctx_api_key = None, ctx_index = None,
     ctx_region = None\<rparr>"

theorem inject_keeps_step_host_witness:
  "json_get (inject_meili_context (JObject [(lit ''host'', JString (lit ''http://m''))]) bare_context)
     (lit ''host'') = Some (JString (lit ''http://m''))"
  using inject_keeps_step_host [of bare_context "JObject [(lit ''host'', JString (lit ''http://m''))]"]
  by (simp add: bare_context_def bt_get_def)

section \<open>Flattening outputs\<close>

fun indexed_total :: "plugin_output \<Rightarrow> nat" where
  "indexed_total (OutMany m) = sum_list (map indexed_total m)"
| "indexed_total (OutIndexed r) = rep_document_count r"
| "indexed_total _ = 0"

fun has_raw :: "plugin_output \<Rightarrow> bool" where
  "has_raw (OutMany m) = list_ex has_raw m"
| "has_raw (OutBytes _) = True"
| "has_raw (OutRef _) = True"
| "has_raw _ = False"

lemma into_documents_ok_iff:
  "(\<exists>ds. out_into_documents out = Inr ds) \<longleftrightarrow> \<not> has_raw out"
  "(\<exists>ds. outs_into_documents outs = Inr ds) \<longleftrightarrow> \<not> list_ex has_raw outs"
  by (induction out and outs rule: out_into_documents_outs_into_documents.induct)
    (auto simp: try_bind_eq_Inr)

lemma into_documents_count:
  "out_into_documents out = Inr ds \<Longrightarrow> out_document_count out = length ds + indexed_total out"
  "outs_into_documents outs = Inr ds \<Longrightarrow>
     sum_list (map out_document_count outs) = length ds + sum_list (map indexed_total outs)"
  by (induction out and outs arbitrary: ds and ds rule: out_into_documents_outs_into_documents.induct)
    (fastforce simp: try_bind_eq_Inr)+

text \<open>Flattening an output into documents fails exactly when raw content (bytes or a spilled
  reference) is nested anywhere in it, and otherwise yields every document the count reports
  beyond those an indexer already sent.\<close>

theorem into_documents_count_eq:
  "(\<exists>ds. out_into_documents out = Inr ds) = (\<not> has_raw out)
   \<and> (\<forall>ds. out_into_documents out = Inr ds
        \<longrightarrow> length ds = out_document_count out - indexed_total out)"
  using into_documents_ok_iff(1) [of out] into_documents_count(1) [of out] by auto

theorem into_documents_count_eq_witness:
  "length [example_document] =
     out_document_count (OutMany [OutDocuments [example_document], OutEmpty])
     - indexed_total (OutMany [OutDocuments [example_document], OutEmpty])"
  using into_documents_count_eq [of "OutMany [OutDocuments [example_document], OutEmpty]"] by simp

section \<open>Adding up usage\<close>

lemma usage_merge_cost: "cost_micro_usd (usage_merge u v) = sat_add (cost_micro_usd u) (cost_micro_usd v)"
  by (simp add: usage_merge_def)

lemma fold_sat_add:
  "unat (fold (\<lambda>x acc. sat_add acc (f x)) xs acc)
     = min (unat acc + (\<Sum>x \<leftarrow> xs. unat (f x))) (2 ^ LENGTH('a) - 1)" for acc :: "'a::len word"
proof (induction xs arbitrary: acc)
  case Nil
  then show ?case using unat_le_max [of acc] by simp
next
  case (Cons x xs)
  have "min (a :: nat) m + b = min (a + b) (m + b)" for a b m by simp
  then show ?case by (simp add: Cons unat_sat_add add.assoc min.assoc)
qed

lemma fold_usage_merge_field:
  assumes "\<And>u v. g (usage_merge u v) = sat_add (g u) (g v)"
  shows "g (fold (\<lambda>x acc. usage_merge acc (f x)) xs acc) = fold (\<lambda>x acc. sat_add acc (g (f x))) xs (g acc)"
  by (induction xs arbitrary: acc) (simp_all add: assms)

text \<open>Merging usage over any list of steps charges the exact sum of their costs, capped at the
  largest \<open>u64\<close>: it never wraps, so a job is never undercharged by overflow.\<close>

theorem usage_total_cost:
  "unat (cost_micro_usd (fold (\<lambda>x acc. usage_merge acc (f x)) xs no_usage))
     = min (\<Sum>x \<leftarrow> xs. unat (cost_micro_usd (f x))) (2 ^ 64 - 1)"
  by (simp add: fold_usage_merge_field [where g = cost_micro_usd] usage_merge_cost fold_sat_add
      no_usage_def)

section \<open>Archive counters\<close>

lemma issues_bounded_initial [simp]: "issues_bounded no_archive_progress"
  by (simp add: issues_bounded_def no_archive_progress_def)

lemma issues_bounded_skip: "issues_bounded a \<Longrightarrow> issues_bounded (archive_skip i a)"
  by (auto simp: issues_bounded_def archive_skip_def Let_def)

lemma issues_bounded_fail: "issues_bounded a \<Longrightarrow> issues_bounded (archive_fail i a)"
  by (auto simp: issues_bounded_def archive_fail_def Let_def)

lemma archive_skip_counts [simp]:
  "files_skipped (archive_skip i a) = files_skipped a + 1"
  "files_failed (archive_skip i a) = files_failed a"
  "files_succeeded (archive_skip i a) = files_succeeded a"
  "files_started (archive_skip i a) = files_started a"
  "files_total (archive_skip i a) = files_total a"
  "arch_failed (archive_skip i a) = arch_failed a"
  by (simp_all add: archive_skip_def Let_def)

lemma archive_fail_counts [simp]:
  "files_failed (archive_fail i a) = files_failed a + 1"
  "files_skipped (archive_fail i a) = files_skipped a"
  "files_succeeded (archive_fail i a) = files_succeeded a"
  "files_started (archive_fail i a) = files_started a"
  "files_total (archive_fail i a) = files_total a"
  "arch_skipped (archive_fail i a) = arch_skipped a"
  by (simp_all add: archive_fail_def Let_def)

end
