(* ===== verification/Pipeline.thy ===== *)
theory Pipeline
  imports Sdk_Types
begin

text \<open>
  Pipeline definitions of \<open>crates/plugin-sdk/src/types.rs\<close>: the steps of a pipeline, the implicit
  sequential rule (\<open>normalize\<close>), validation with Kahn's algorithm (\<open>validate\<close>), the destination
  a pipeline pins, and the triggers that select it. A panic of the code (an index out of range, a
  counter that underflows) is the value \<open>None\<close> of the Kahn loop.
\<close>

section \<open>Steps and pipelines\<close>

datatype backoff = Exponential | Linear | NoBackoff

record retry_config =
  max_attempts :: u32
  backoff_strategy :: backoff
  initial_interval_secs :: u64

definition default_retry :: retry_config where
  "default_retry = \<lparr>max_attempts = 3, backoff_strategy = Exponential, initial_interval_secs = 1\<rparr>"

record step_definition =
  step_id :: rstr
  step_plugin :: rstr
  depends_on :: "rstr list"
  fan_out :: "rstr option"
  step_config :: json
  timeout_secs :: "u64 option"
  step_retry :: "retry_config option"

definition new_step :: "rstr \<Rightarrow> rstr \<Rightarrow> step_definition" where
  "new_step i plugin = \<lparr>step_id = i, step_plugin = plugin, depends_on = [], fan_out = None,
     step_config = JObject [], timeout_secs = None, step_retry = None\<rparr>"

definition effective_timeout_secs :: "step_definition \<Rightarrow> u64" where
  "effective_timeout_secs s = (case timeout_secs s of None \<Rightarrow> 300 | Some t \<Rightarrow> t)"

definition effective_retry :: "step_definition \<Rightarrow> retry_config" where
  "effective_retry s = (case step_retry s of None \<Rightarrow> default_retry | Some r \<Rightarrow> r)"

record pipeline_trigger =
  content_types :: "rstr list"
  filename_pattern :: "rstr option"
  index_pattern :: "rstr option"

record pipeline_definition =
  pl_uid :: rstr
  pl_name :: rstr
  pl_description :: "rstr option"
  pl_version :: u32
  pl_trigger :: "pipeline_trigger option"
  pl_steps :: "step_definition list"
  pl_builtin :: bool
  pl_tenant_id :: "rstr option"

datatype pipeline_error =
    PeEmpty
  | PeInvalidUid rstr
  | PeDuplicateStep rstr
  | PeUnknownDependency rstr rstr
  | PeCycle "rstr list"
  | PeFanOutArity rstr
  | PeFanOutPath rstr rstr

section \<open>The implicit sequential rule\<close>

text \<open>The loop \<open>for i in 1..len\<close>: a step that has no dependency (or, when no step has one, every
  step) depends on the step right before it.\<close>

fun chain_steps :: "bool \<Rightarrow> step_definition \<Rightarrow> step_definition list \<Rightarrow> step_definition list" where
  "chain_steps explicit prev [] = []"
| "chain_steps explicit prev (s # ss) =
     (let s = (if explicit \<and> depends_on s \<noteq> [] then s else s\<lparr>depends_on := [step_id prev]\<rparr>)
      in s # chain_steps explicit s ss)"

definition normalize_steps :: "step_definition list \<Rightarrow> step_definition list" where
  "normalize_steps ss =
     (let has_any_explicit = list_ex (\<lambda>s. depends_on s \<noteq> []) ss
      in case ss of [] \<Rightarrow> [] | s # rest \<Rightarrow> s # chain_steps has_any_explicit s rest)"

definition normalize :: "pipeline_definition \<Rightarrow> pipeline_definition" where
  "normalize p = p\<lparr>pl_steps := normalize_steps (pl_steps p),
     pl_name := (if pl_name p = [] then pl_uid p else pl_name p)\<rparr>"

section \<open>Validation\<close>

definition uid_char :: "rchar \<Rightarrow> bool" where
  "uid_char c \<longleftrightarrow> is_ascii_alphanumeric c \<or> c = 46 \<or> c = 95 \<or> c = 45"

fun first_duplicate :: "rstr set \<Rightarrow> step_definition list \<Rightarrow> rstr option" where
  "first_duplicate seen [] = None"
| "first_duplicate seen (s # ss) =
     (if step_id s \<in> seen then Some (step_id s) else first_duplicate (insert (step_id s) seen) ss)"

definition fan_out_path_ok :: "rstr \<Rightarrow> bool" where
  "fan_out_path_ok path \<longleftrightarrow> path = lit ''$.documents'' \<or> path = lit ''$.many'' \<or> path = lit ''$''"

definition step_error :: "rstr list \<Rightarrow> step_definition \<Rightarrow> pipeline_error option" where
  "step_error ids s =
     (case find (\<lambda>d. d \<notin> set ids) (depends_on s) of
        Some d \<Rightarrow> Some (PeUnknownDependency (step_id s) d)
      | None \<Rightarrow>
          (case fan_out s of None \<Rightarrow> None
           | Some path \<Rightarrow>
               if length (depends_on s) \<noteq> 1 then Some (PeFanOutArity (step_id s))
               else if \<not> fan_out_path_ok path then Some (PeFanOutPath (step_id s) path)
               else None))"

fun first_step_error :: "rstr list \<Rightarrow> step_definition list \<Rightarrow> pipeline_error option" where
  "first_step_error ids [] = None"
| "first_step_error ids (s # ss) =
     (case step_error ids s of Some e \<Rightarrow> Some e | None \<Rightarrow> first_step_error ids ss)"

subsection \<open>Kahn's algorithm\<close>

text \<open>The map from step ids to positions, and the dependencies of a step as positions.\<close>

definition step_index :: "step_definition list \<Rightarrow> rstr \<Rightarrow> nat option" where
  "step_index ss d = map_of (rev (zip (map step_id ss) [0..<length ss])) d"

definition dep_indices :: "step_definition list \<Rightarrow> nat \<Rightarrow> nat list" where
  "dep_indices ss i = (if i < length ss then List.map_filter (step_index ss) (depends_on (ss ! i)) else [])"

text \<open>\<open>indegree\<close> and \<open>children\<close> as the two nested loops leave them: \<open>children ! j\<close> lists a step once
  for every time it names step \<open>j\<close>.\<close>

definition initial_indegree :: "step_definition list \<Rightarrow> nat list" where
  "initial_indegree ss = map (\<lambda>i. length (dep_indices ss i)) [0..<length ss]"

definition children_of :: "step_definition list \<Rightarrow> nat list list" where
  "children_of ss = map (\<lambda>j. concat (map (\<lambda>i. map (\<lambda>_. i) (filter (\<lambda>k. k = j) (dep_indices ss i)))
     [0..<length ss])) [0..<length ss]"

text \<open>The inner loop: every child loses one from its count and is ready when none is left.\<close>

fun relax_children :: "nat list \<Rightarrow> nat list \<Rightarrow> nat list \<Rightarrow> (nat list \<times> nat list) option" where
  "relax_children indeg ready [] = Some (indeg, ready)"
| "relax_children indeg ready (c # cs) =
     (if c < length indeg \<and> 0 < indeg ! c
      then (let indeg = indeg[c := indeg ! c - 1]
            in relax_children indeg (if indeg ! c = 0 then ready @ [c] else ready) cs)
      else None)"

definition positive_count :: "nat list \<Rightarrow> nat" where
  "positive_count indeg = length (filter (\<lambda>d. 0 < d) indeg)"

lemma positive_count_update:
  assumes "c < length indeg"
  shows "positive_count (indeg[c := d]) + (if 0 < indeg ! c then 1 else 0)
     = positive_count indeg + (if 0 < d then 1 else 0)"
  using assms unfolding positive_count_def
proof (induction indeg arbitrary: c)
  case Nil
  then show ?case by simp
next
  case (Cons x xs)
  show ?case
  proof (cases c)
    case 0
    then show ?thesis by simp
  next
    case (Suc k)
    with Cons.prems Cons.IH [of k] show ?thesis by auto
  qed
qed

lemma relax_children_measure:
  "relax_children indeg ready cs = Some (indeg', ready') \<Longrightarrow>
     length ready' + positive_count indeg' = length ready + positive_count indeg"
proof (induction cs arbitrary: indeg ready)
  case Nil
  then show ?case by simp
next
  case (Cons c cs)
  from Cons.prems have c: "c < length indeg" "0 < indeg ! c" by (auto split: if_splits)
  with Cons.prems have "length ready' + positive_count indeg' =
      length (if indeg[c := indeg ! c - 1] ! c = 0 then ready @ [c] else ready)
      + positive_count (indeg[c := indeg ! c - 1])"
    by (intro Cons.IH) (simp add: Let_def)
  with positive_count_update [OF c(1), of "indeg ! c - 1"] c show ?case by (auto split: if_splits)
qed

function kahn_loop :: "nat list list \<Rightarrow> nat list \<Rightarrow> nat list \<Rightarrow> nat list \<Rightarrow> (nat list \<times> nat list) option" where
  "kahn_loop children indeg [] order = Some (order, indeg)"
| "kahn_loop children indeg (i # queue) order =
     (if i < length children
      then (case relax_children indeg [] (children ! i) of
              None \<Rightarrow> None
            | Some (indeg', ready) \<Rightarrow> kahn_loop children indeg' (queue @ sort ready) (order @ [i]))
      else None)"
  by pat_completeness auto
termination
  by (relation "measure (\<lambda>(children, indeg, queue, order). length queue + positive_count indeg)")
    (auto dest!: relax_children_measure)

definition kahn :: "step_definition list \<Rightarrow> (nat list \<times> nat list) option" where
  "kahn ss = kahn_loop (children_of ss) (initial_indegree ss)
     (filter (\<lambda>i. initial_indegree ss ! i = 0) [0..<length ss]) []"

definition validate :: "pipeline_definition \<Rightarrow> (pipeline_error + rstr list) panic_or" where
  "validate p =
     (let ss = pl_steps p; ids = map step_id ss in
      if pl_uid p = [] \<or> \<not> list_all uid_char (pl_uid p) then Value (Inl (PeInvalidUid (pl_uid p)))
      else if ss = [] then Value (Inl PeEmpty)
      else case first_duplicate {} ss of Some d \<Rightarrow> Value (Inl (PeDuplicateStep d)) | None \<Rightarrow>
        (case first_step_error ids ss of Some e \<Rightarrow> Value (Inl e) | None \<Rightarrow>
          (case kahn ss of None \<Rightarrow> Panic
           | Some (order, indeg) \<Rightarrow>
               if length order \<noteq> length ss
               then Value (Inl (PeCycle (map (\<lambda>i. step_id (ss ! i))
                      (filter (\<lambda>i. 0 < indeg ! i) [0..<length ss]))))
               else Value (Inr (map (\<lambda>i. step_id (ss ! i)) order)))))"

definition find_step :: "pipeline_definition \<Rightarrow> rstr \<Rightarrow> step_definition option" where
  "find_step p i = find (\<lambda>s. step_id s = i) (pl_steps p)"

section \<open>Destination of a pipeline\<close>

definition indexer_steps :: "pipeline_definition \<Rightarrow> step_definition list" where
  "indexer_steps p = filter (\<lambda>s. step_plugin s = INDEXER_PLUGIN) (pl_steps p)"

definition pins_destination :: "pipeline_definition \<Rightarrow> bool" where
  "pins_destination p \<longleftrightarrow> indexer_steps p \<noteq> []
     \<and> list_all (\<lambda>s. pinned_connection (step_config s) \<noteq> None) (indexer_steps p)"

definition step_index_name :: "step_definition \<Rightarrow> rstr option" where
  "step_index_name s =
     (case Option.bind (json_get (step_config s) (lit ''index'')) json_as_str of
        None \<Rightarrow> None | Some v \<Rightarrow> let v = trim v in if v = [] then None else Some v)"

definition step_indexes :: "pipeline_definition \<Rightarrow> rstr list" where
  "step_indexes p = List.map_filter step_index_name (indexer_steps p)"

definition fixed_index :: "pipeline_definition \<Rightarrow> rstr option" where
  "fixed_index p =
     (let named = step_indexes p
      in case named of [] \<Rightarrow> None
         | first # _ \<Rightarrow> if length named = length (indexer_steps p) \<and> list_all (\<lambda>i. i = first) named
             then Some first else None)"

section \<open>Triggers\<close>

definition mime_essence :: "rstr \<Rightarrow> rstr" where
  "mime_essence m = to_ascii_lowercase (trim (split_first (\<lambda>c. c = 59) m))"

definition mime_matches :: "rstr \<Rightarrow> rstr \<Rightarrow> bool" where
  "mime_matches pattern mime =
     (let mime = mime_essence mime; pattern = to_ascii_lowercase (trim pattern)
      in if pattern = lit ''*/*'' \<or> pattern = lit ''*'' then True
         else case strip_suffix pattern (lit ''/*'') of
                Some prefix \<Rightarrow> split_first (\<lambda>c. c = 47) mime = prefix
              | None \<Rightarrow> pattern = mime)"

text \<open>The recursion of \<open>glob_match\<close>: 42 is the star, 63 the question mark.\<close>

function glob_rec :: "rstr \<Rightarrow> rstr \<Rightarrow> bool" where
  "glob_rec [] [] = True"
| "glob_rec [] (b # n) = False"
| "glob_rec (a # p) [] = (if a = 42 then glob_rec p [] else False)"
| "glob_rec (a # p) (b # n) =
     (if a = 42 then glob_rec p (b # n) \<or> glob_rec (a # p) n
      else if a = 63 then glob_rec p n
      else if a = b then glob_rec p n else False)"
  by pat_completeness auto
termination
  by (relation "measure (\<lambda>(p, n). length p + length n)") auto

definition glob_match :: "rstr \<Rightarrow> rstr \<Rightarrow> bool" where
  "glob_match pattern name = glob_rec (to_ascii_lowercase pattern)
     (to_ascii_lowercase (rsplit_first (\<lambda>c. c = 47 \<or> c = 92) name))"

definition trigger_matches :: "pipeline_definition \<Rightarrow> rstr \<Rightarrow> rstr option \<Rightarrow> bool" where
  "trigger_matches p mime filename =
     (case pl_trigger p of None \<Rightarrow> False
      | Some t \<Rightarrow>
         let mime_ok = list_ex (\<lambda>ct. mime_matches ct mime) (content_types t)
         in if \<not> mime_ok \<and> content_types t \<noteq> [] then False
            else (case (filename_pattern t, filename) of
                    (Some pat, Some name) \<Rightarrow> glob_match pat name
                  | (Some _, None) \<Rightarrow> False
                  | (None, _) \<Rightarrow> mime_ok))"

end
