(* ===== verification/Kahn.thy ===== *)
theory Kahn
  imports Pipeline
begin

text \<open>
  Kahn's algorithm as \<open>validate\<close> runs it, over any graph given by the dependency lists of its
  nodes: it never panics, what it outputs is a topological order, and what it leaves out depends on
  something it left out. The interface is the locale \<open>dep_graph\<close>; the model's own graph (the
  positions of a pipeline's steps) interprets it.
\<close>

section \<open>Relaxing the children of a step\<close>

lemma relax_children_spec:
  assumes "\<forall>c \<in> set cs. c < length indeg"
    and "\<forall>c. c < length indeg \<longrightarrow> count_list cs c \<le> indeg ! c"
  shows "\<exists>indeg' r. relax_children indeg ready cs = Some (indeg', ready @ r)
    \<and> length indeg' = length indeg
    \<and> (\<forall>c < length indeg. indeg' ! c = indeg ! c - count_list cs c)
    \<and> distinct r \<and> set r = {c \<in> set cs. indeg' ! c = 0}"
  using assms
proof (induction cs arbitrary: indeg ready)
  case Nil
  then show ?case by simp
next
  case (Cons c cs)
  have c: "c < length indeg" using Cons.prems(1) by simp
  from Cons.prems(2) c have pos: "Suc (count_list cs c) \<le> indeg ! c" by force
  let ?d = "indeg[c := indeg ! c - 1]"
  have le: "\<forall>x. x < length ?d \<longrightarrow> count_list cs x \<le> ?d ! x"
  proof (intro allI impI)
    fix x assume x: "x < length ?d"
    show "count_list cs x \<le> ?d ! x"
    proof (cases "x = c")
      case True
      with pos c show ?thesis by simp
    next
      case False
      with Cons.prems(2) x show ?thesis by force
    qed
  qed
  have lt: "\<forall>x \<in> set cs. x < length ?d" using Cons.prems(1) by simp
  let ?ready = "if ?d ! c = 0 then ready @ [c] else ready"
  obtain indeg' r where step: "relax_children ?d ?ready cs = Some (indeg', ?ready @ r)"
    and len: "length indeg' = length indeg"
    and val: "\<forall>x < length indeg. indeg' ! x = ?d ! x - count_list cs x"
    and r: "distinct r" "set r = {x \<in> set cs. indeg' ! x = 0}"
    using Cons.IH [OF lt le, of ?ready] by auto
  have val': "\<forall>x < length indeg. indeg' ! x = indeg ! x - count_list (c # cs) x"
    using val c by (auto simp: nth_list_update)
  show ?case
  proof (cases "?d ! c = 0")
    case True
    with le c have "count_list cs c = 0" by fastforce
    then have "c \<notin> set cs" by (simp add: count_list_0_iff)
    moreover have "indeg' ! c = 0" using val' c pos True by simp
    ultimately have "distinct (c # r)" "set (c # r) = {x \<in> set (c # cs). indeg' ! x = 0}"
      using r by auto
    moreover have "relax_children indeg ready (c # cs) = Some (indeg', ready @ (c # r))"
      using step True c pos by (simp add: Let_def)
    ultimately show ?thesis using len val' by blast
  next
    case False
    have "set r = {x \<in> set (c # cs). indeg' ! x = 0}"
    proof (cases "c \<in> set cs")
      case True
      with r show ?thesis by auto
    next
      case nin: False
      then have "indeg' ! c = ?d ! c" using val c by (simp add: count_list_0_iff)
      with False r show ?thesis by auto
    qed
    moreover have "relax_children indeg ready (c # cs) = Some (indeg', ready @ r)"
      using step False c pos by (simp add: Let_def)
    ultimately show ?thesis using len val' r(1) by blast
  qed
qed

lemma length_filter_insert:
  assumes "i \<notin> set P"
  shows "length (filter (\<lambda>d. d \<notin> set (P @ [i])) xs) + count_list xs i
    = length (filter (\<lambda>d. d \<notin> set P) xs)"
  using assms by (induction xs) auto

section \<open>The interface: a graph of dependency lists\<close>

locale dep_graph =
  fixes n :: nat
    and deps :: "nat \<Rightarrow> nat list"
  assumes deps_lt: "j \<in> set (deps i) \<Longrightarrow> j < n"
    and deps_out: "n \<le> i \<Longrightarrow> deps i = []"
begin

definition kids :: "nat \<Rightarrow> nat list" where
  "kids j = concat (map (\<lambda>i. map (\<lambda>_. i) (filter (\<lambda>k. k = j) (deps i))) [0..<n])"

definition topo :: "nat list \<Rightarrow> bool" where
  "topo P \<longleftrightarrow> (\<forall>k < length P. set (deps (P ! k)) \<subseteq> set (take k P))"

definition missing :: "nat list \<Rightarrow> nat \<Rightarrow> nat list" where
  "missing P i = filter (\<lambda>d. d \<notin> set P) (deps i)"

definition loop_inv :: "nat list \<Rightarrow> nat list \<Rightarrow> nat list \<Rightarrow> bool" where
  "loop_inv P Q indeg \<longleftrightarrow> length indeg = n \<and> distinct (P @ Q) \<and> set (P @ Q) \<subseteq> {..<n}
     \<and> (\<forall>i < n. indeg ! i = length (missing P i))
     \<and> (\<forall>i < n. (i \<in> set (P @ Q)) = (indeg ! i = 0)) \<and> topo P"

lemma count_kids: "count_list (kids j) i = count_list (deps i) j"
proof -
  have const: "count_list (map (\<lambda>_. x) ys) i = (if x = i then length ys else 0)" for x and ys :: "nat list"
    by (induction ys) auto
  have "count_list (kids j) i
      = (\<Sum>x \<leftarrow> [0..<n]. if x = i then length (filter (\<lambda>k. k = j) (deps x)) else 0)"
    unfolding kids_def by (induction "[0..<n]" rule: rev_induct) (auto simp: const o_def sum_list_map_eq_sum_count count_list_concat)
  also have "\<dots> = (if i < n then length (filter (\<lambda>k. k = j) (deps i)) else 0)"
    by (induction n) auto
  also have "\<dots> = length (filter (\<lambda>k. k = j) (deps i))" using deps_out [of i] by simp
  also have "\<dots> = count_list (deps i) j"
    unfolding count_list_eq_length_filter by (intro arg_cong [of _ _ length] filter_cong) auto
  finally show ?thesis .
qed

lemma set_kids: "c \<in> set (kids j) \<longleftrightarrow> j \<in> set (deps c)"
  using count_list_0_iff [of "kids j" c] count_list_0_iff [of "deps c" j] by (metis count_kids)

lemma kids_lt: "c \<in> set (kids j) \<Longrightarrow> c < n"
  unfolding set_kids using deps_out [of c] by (cases "c < n") auto

lemma length_missing_snoc:
  assumes "i \<notin> set P"
  shows "length (missing (P @ [i]) c) = length (missing P c) - count_list (deps c) i"
    and "count_list (deps c) i \<le> length (missing P c)"
proof -
  have "length (missing (P @ [i]) c) + count_list (deps c) i = length (missing P c)"
    unfolding missing_def by (rule length_filter_insert) (rule assms)
  then show "length (missing (P @ [i]) c) = length (missing P c) - count_list (deps c) i"
    "count_list (deps c) i \<le> length (missing P c)" by linarith+
qed

lemma topo_snoc: "topo P \<Longrightarrow> set (deps i) \<subseteq> set P \<Longrightarrow> topo (P @ [i])"
  unfolding topo_def by (auto simp: nth_append less_Suc_eq)

lemma missing_Nil_iff: "missing P i = [] \<longleftrightarrow> set (deps i) \<subseteq> set P"
  by (auto simp: missing_def filter_empty_conv)

lemma loop_inv_step:
  assumes inv: "loop_inv P (i # Q) indeg"
  obtains indeg' r where "relax_children indeg [] (map kids [0..<n] ! i) = Some (indeg', r)"
    and "loop_inv (P @ [i]) (Q @ sort r) indeg'"
proof -
  from inv have i: "i < n" "i \<notin> set P" and len: "length indeg = n"
    and val: "\<forall>c < n. indeg ! c = length (missing P c)"
    and zero: "\<forall>c < n. (c \<in> set (P @ i # Q)) = (indeg ! c = 0)" and topo: "topo P"
    by (auto simp: loop_inv_def)
  have "\<forall>c. c < length indeg \<longrightarrow> count_list (kids i) c \<le> indeg ! c"
    using val len length_missing_snoc(2) [OF i(2)] by (simp add: count_kids)
  then obtain indeg' r where relax: "relax_children indeg [] (kids i) = Some (indeg', r)"
    and len': "length indeg' = n"
    and val': "\<forall>c < n. indeg' ! c = indeg ! c - count_list (kids i) c"
    and r: "distinct r" "set r = {c \<in> set (kids i). indeg' ! c = 0}"
    using relax_children_spec [of "kids i" indeg "[]"] kids_lt len by auto
  have new: "\<forall>c < n. indeg' ! c = length (missing (P @ [i]) c)"
    using val val' length_missing_snoc(1) [OF i(2)] by (simp add: count_kids)
  have fresh: "\<And>c. c \<in> set (kids i) \<Longrightarrow> c < n \<and> c \<notin> set (P @ i # Q)"
  proof -
    fix c assume c: "c \<in> set (kids i)"
    then have "i \<in> set (missing P c)" using i(2) by (simp add: set_kids missing_def)
    then have "indeg ! c \<noteq> 0" using val kids_lt [OF c] by auto
    with zero kids_lt [OF c] have "c \<notin> set (P @ i # Q)" by simp
    with kids_lt [OF c] show "c < n \<and> c \<notin> set (P @ i # Q)" by simp
  qed
  have mem: "(c \<in> set ((P @ [i]) @ (Q @ sort r))) = (indeg' ! c = 0)" if "c < n" for c
  proof (cases "c \<in> set (kids i)")
    case True
    with fresh r show ?thesis by auto
  next
    case False
    then have "count_list (kids i) c = 0" by (simp add: count_list_0_iff)
    with val' that have "indeg' ! c = indeg ! c" by simp
    with zero that False r show ?thesis by auto
  qed
  have "missing P i = []" using val zero i by force
  then have "topo (P @ [i])" using topo topo_snoc by (simp add: missing_Nil_iff)
  moreover have "distinct ((P @ [i]) @ (Q @ sort r))" "set ((P @ [i]) @ (Q @ sort r)) \<subseteq> {..<n}"
    using inv r fresh by (auto simp: loop_inv_def)
  ultimately have "loop_inv (P @ [i]) (Q @ sort r) indeg'"
    using len' new mem unfolding loop_inv_def by blast
  with relax i(1) that show ?thesis by simp
qed

lemma kahn_loop_inv:
  assumes "loop_inv P Q indeg"
  shows "\<exists>P' indeg'. kahn_loop (map kids [0..<n]) indeg Q P = Some (P', indeg') \<and> loop_inv P' [] indeg'"
proof -
  have "loop_inv P Q indeg \<Longrightarrow>
    \<exists>P' indeg'. kahn_loop ch indeg Q P = Some (P', indeg') \<and> loop_inv P' [] indeg'"
    if "ch = map kids [0..<n]" for ch
    using that
  proof (induction ch indeg Q P rule: kahn_loop.induct)
    case (1 ch indeg P)
    then show ?case by auto
  next
    case (2 ch indeg i Q P)
    from "2.prems"(1) have lt: "i < length ch" by (auto simp: loop_inv_def "2.prems"(2))
    obtain indeg' r where relax: "relax_children indeg [] (ch ! i) = Some (indeg', r)"
      and inv': "loop_inv (P @ [i]) (Q @ sort r) indeg'"
      using loop_inv_step [OF "2.prems"(1)] "2.prems"(2) by blast
    from "2.IH" [OF lt relax refl inv' "2.prems"(2)] lt relax show ?case by simp
  qed
  then show ?thesis using assms by blast
qed

lemma loop_inv_start:
  "loop_inv [] (filter (\<lambda>i. map (\<lambda>i. length (deps i)) [0..<n] ! i = 0) [0..<n])
     (map (\<lambda>i. length (deps i)) [0..<n])"
  by (auto simp: loop_inv_def missing_def topo_def)

definition edges :: "(nat \<times> nat) set" where
  "edges = {(d, i). d \<in> set (deps i)}"

lemma edges_sub: "edges \<subseteq> {..<n} \<times> {..<n}"
proof
  fix e assume "e \<in> edges"
  then obtain d i where e: "e = (d, i)" "d \<in> set (deps i)" by (auto simp: edges_def)
  then have "deps i \<noteq> []" by auto
  then have "i < n" using deps_out [of i] by (cases "i < n") auto
  with e deps_lt show "e \<in> {..<n} \<times> {..<n}" by simp
qed

lemma topo_acyclic:
  assumes "topo P" and "distinct P" and "set P = {..<n}"
  shows "acyclic edges"
proof -
  define pos where "pos i = (THE k. k < length P \<and> P ! k = i)" for i
  have pos: "pos (P ! k) = k" if "k < length P" for k
    unfolding pos_def using that assms(2) by (intro the_equality) (auto simp: nth_eq_iff_index_eq)
  have "edges \<subseteq> measure pos"
  proof (rule subrelI)
    fix d i assume "(d, i) \<in> edges"
    then have d: "d \<in> set (deps i)" by (simp add: edges_def)
    then have "i \<in> set P" using deps_out [of i] assms(3) by (cases "i < n") auto
    then obtain k where k: "k < length P" "P ! k = i" by (auto simp: in_set_conv_nth)
    with assms(1) d have "d \<in> set (take k P)" by (auto simp: topo_def)
    then obtain m where "m < k" "P ! m = d" using k by (auto simp: in_set_conv_nth)
    with k pos [of m] pos [of k] show "(d, i) \<in> measure pos" by auto
  qed
  then show ?thesis using acyclic_subset wf_acyclic wf_measure by blast
qed

lemma stuck_cycle:
  assumes "loop_inv P [] indeg" and "length P \<noteq> n"
  shows "\<exists>i < n. 0 < indeg ! i"
    and "\<And>i. i < n \<Longrightarrow> 0 < indeg ! i \<Longrightarrow> \<exists>d \<in> set (deps i). d < n \<and> 0 < indeg ! d"
    and "\<not> acyclic edges"
proof -
  from assms(1) have d: "distinct P" and sub: "set P \<subseteq> {..<n}"
    and val: "\<forall>i < n. indeg ! i = length (missing P i)"
    and zero: "\<forall>i < n. (i \<in> set P) = (indeg ! i = 0)"
    by (auto simp: loop_inv_def)
  have "set P \<noteq> {..<n}"
  proof
    assume "set P = {..<n}"
    then have "card (set P) = n" by simp
    with distinct_card [OF d] assms(2) show False by simp
  qed
  then obtain i where i: "i < n" "i \<notin> set P" using sub by auto
  then show ex: "\<exists>i < n. 0 < indeg ! i" using zero by auto
  show stuck: "\<exists>d \<in> set (deps i). d < n \<and> 0 < indeg ! d" if "i < n" "0 < indeg ! i" for i
  proof -
    from that val have "missing P i \<noteq> []" by auto
    then obtain d where "d \<in> set (deps i)" "d \<notin> set P" by (auto simp: missing_Nil_iff)
    then show ?thesis using deps_lt zero by blast
  qed
  show "\<not> acyclic edges"
  proof
    assume "acyclic edges"
    moreover have "finite edges"
      by (rule finite_subset [OF edges_sub]) simp
    ultimately have "wf edges" by (rule finite_acyclic_wf [rotated])
    moreover obtain i where "i \<in> {i. i < n \<and> 0 < indeg ! i}" using ex by blast
    ultimately obtain m where "m \<in> {i. i < n \<and> 0 < indeg ! i}"
      and "\<And>y. (y, m) \<in> edges \<Longrightarrow> y \<notin> {i. i < n \<and> 0 < indeg ! i}"
      by (rule wfE_min) blast
    moreover from calculation obtain d where "d \<in> set (deps m)" "d < n" "0 < indeg ! d"
      using stuck by blast
    ultimately show False unfolding edges_def by blast
  qed
qed

end

end
