(* ===== verification/Validate.thy ===== *)
theory Validate
  imports Kahn
begin

text \<open>
  What \<open>PipelineDefinition::validate\<close> and \<open>normalize\<close> guarantee: validation never panics, accepts
  exactly the well-formed acyclic pipelines, and returns an order in which every step follows the
  steps it depends on.
\<close>

section \<open>Positions and ids\<close>

lemma step_index_Some:
  assumes "distinct (map step_id ss)"
  shows "step_index ss x = Some i \<longleftrightarrow> i < length ss \<and> step_id (ss ! i) = x"
proof -
  have d: "distinct (map fst (rev (zip (map step_id ss) [0..<length ss])))"
    using assms by (simp add: rev_map [symmetric])
  have m: "(x, i) \<in> set (rev (zip (map step_id ss) [0..<length ss])) \<longleftrightarrow> i < length ss \<and> step_id (ss ! i) = x"
    for x by (auto simp: set_zip intro: exI [of _ i])
  show ?thesis unfolding step_index_def map_of_eq_Some_iff [OF d] by (rule m)
qed

lemma step_index_lt: "step_index ss d = Some i \<Longrightarrow> i < length ss"
  unfolding step_index_def by (drule map_of_SomeD) (auto simp: set_zip)

interpretation kd: dep_graph "length ss" "dep_indices ss" for ss
  by unfold_locales
    (auto simp: dep_indices_def map_filter_def step_index_lt split: if_splits)

lemma kahn_unfold:
  "kahn ss = kahn_loop (map (kd.kids ss) [0..<length ss]) (map (\<lambda>i. length (dep_indices ss i)) [0..<length ss])
     (filter (\<lambda>i. map (\<lambda>i. length (dep_indices ss i)) [0..<length ss] ! i = 0) [0..<length ss]) []"
  by (simp add: kahn_def children_of_def initial_indegree_def kd.kids_def [abs_def])

lemma kahn_result:
  "\<exists>P indeg. kahn ss = Some (P, indeg) \<and> kd.loop_inv ss P [] indeg"
  unfolding kahn_unfold by (rule kd.kahn_loop_inv) (rule kd.loop_inv_start)

section \<open>Well-formed pipelines\<close>

definition dep_rel :: "pipeline_definition \<Rightarrow> (rstr \<times> rstr) set" where
  "dep_rel p = {(d, step_id s) | d s. s \<in> set (pl_steps p) \<and> d \<in> set (depends_on s)}"

definition step_ids :: "pipeline_definition \<Rightarrow> rstr list" where
  "step_ids p = map step_id (pl_steps p)"

definition step_ok :: "rstr list \<Rightarrow> step_definition \<Rightarrow> bool" where
  "step_ok ids s \<longleftrightarrow> set (depends_on s) \<subseteq> set ids
     \<and> (\<forall>path. fan_out s = Some path \<longrightarrow> length (depends_on s) = 1 \<and> fan_out_path_ok path)"

definition well_formed :: "pipeline_definition \<Rightarrow> bool" where
  "well_formed p \<longleftrightarrow> pl_uid p \<noteq> [] \<and> list_all uid_char (pl_uid p) \<and> pl_steps p \<noteq> []
     \<and> distinct (step_ids p) \<and> list_all (step_ok (step_ids p)) (pl_steps p)"

lemma first_duplicate_None:
  "first_duplicate seen ss = None \<longleftrightarrow> distinct (map step_id ss) \<and> set (map step_id ss) \<inter> seen = {}"
  by (induction ss arbitrary: seen) auto

lemma step_error_None: "step_error ids s = None \<longleftrightarrow> step_ok ids s"
proof (cases "find (\<lambda>d. d \<notin> set ids) (depends_on s)")
  case None
  then have "set (depends_on s) \<subseteq> set ids" unfolding find_Some_ex by blast
  then show ?thesis unfolding step_error_def step_ok_def None
    by (cases "fan_out s") simp_all
next
  case (Some d)
  have "\<not> set (depends_on s) \<subseteq> set ids" using find_SomeD [OF Some] by auto
  with Some show ?thesis by (simp add: step_error_def step_ok_def)
qed

lemma first_step_error_None: "first_step_error ids ss = None \<longleftrightarrow> list_all (step_ok ids) ss"
  by (induction ss) (auto simp: step_error_None [symmetric] split: option.split)

lemma validate_well_formed:
  assumes "well_formed p"
  shows "validate p = (case kahn (pl_steps p) of None \<Rightarrow> Panic
     | Some (order, indeg) \<Rightarrow>
         if length order \<noteq> length (pl_steps p)
         then Value (Inl (PeCycle (map (\<lambda>i. step_id (pl_steps p ! i))
                (filter (\<lambda>i. 0 < indeg ! i) [0..<length (pl_steps p)]))))
         else Value (Inr (map (\<lambda>i. step_id (pl_steps p ! i)) order)))"
proof -
  from assms have "first_duplicate {} (pl_steps p) = None"
    and "first_step_error (map step_id (pl_steps p)) (pl_steps p) = None"
    by (simp_all add: well_formed_def step_ids_def first_duplicate_None first_step_error_None)
  with assms show ?thesis by (simp add: validate_def well_formed_def Let_def)
qed

lemma validate_ill_formed:
  assumes "\<not> well_formed p"
  shows "\<exists>e. validate p = Value (Inl e) \<and> (\<forall>ids. e \<noteq> PeCycle ids)"
proof -
  have err: "first_step_error ids ss \<noteq> Some (PeCycle cs)" for ids ss cs
    by (induction ss) (auto simp: step_error_def split: option.splits if_splits)
  have "\<not> (first_duplicate {} (pl_steps p) = None
      \<and> first_step_error (step_ids p) (pl_steps p) = None)"
    if "pl_uid p \<noteq> []" "list_all uid_char (pl_uid p)" "pl_steps p \<noteq> []"
    using that assms by (auto simp: well_formed_def step_ids_def first_duplicate_None first_step_error_None)
  then show ?thesis
    using err by (auto simp: validate_def Let_def step_ids_def split: option.split)
qed

lemma dep_indices_well_formed:
  assumes "well_formed p" and "i < length (pl_steps p)"
  shows "map (\<lambda>j. step_id (pl_steps p ! j)) (dep_indices (pl_steps p) i) = depends_on (pl_steps p ! i)"
proof -
  let ?ss = "pl_steps p"
  have d: "distinct (map step_id ?ss)" using assms(1) by (simp add: well_formed_def step_ids_def)
  have "\<forall>x \<in> set (depends_on (?ss ! i)). \<exists>j. step_index ?ss x = Some j"
  proof
    fix x assume "x \<in> set (depends_on (?ss ! i))"
    moreover have "step_ok (step_ids p) (?ss ! i)"
      using assms by (simp add: well_formed_def list_all_length)
    ultimately have "x \<in> set (map step_id ?ss)" by (auto simp: step_ok_def step_ids_def)
    then obtain j where "j < length ?ss" "step_id (?ss ! j) = x"
      by (metis in_set_conv_nth length_map nth_map)
    with step_index_Some [OF d] show "\<exists>j. step_index ?ss x = Some j" by blast
  qed
  then have "map (\<lambda>j. step_id (?ss ! j)) (List.map_filter (step_index ?ss) xs) = xs"
    if "set xs \<subseteq> set (depends_on (?ss ! i))" for xs
    using that
  proof (induction xs)
    case (Cons x xs)
    then obtain j where "step_index ?ss x = Some j" by auto
    with Cons step_index_Some [OF d, of x j] show ?case by (simp add: map_filter_simps)
  qed (simp add: map_filter_simps)
  with assms(2) show ?thesis by (simp add: dep_indices_def)
qed

lemma acyclic_edges:
  assumes "well_formed p"
  shows "acyclic (kd.edges (pl_steps p)) \<longleftrightarrow> acyclic (dep_rel p)"
proof -
  let ?ss = "pl_steps p" and ?id = "\<lambda>i. step_id (pl_steps p ! i)"
  have d: "distinct (map step_id ?ss)" using assms by (simp add: well_formed_def step_ids_def)
  have inj: "inj_on ?id {..<length ?ss}"
    using d by (auto simp: inj_on_def distinct_conv_nth)
  have rel: "dep_rel p = map_prod ?id ?id ` kd.edges ?ss"
  proof
    show "dep_rel p \<subseteq> map_prod ?id ?id ` kd.edges ?ss"
    proof (rule subrelI)
      fix a b assume "(a, b) \<in> dep_rel p"
      then obtain i where i: "i < length ?ss" "b = ?id i" "a \<in> set (depends_on (?ss ! i))"
        by (auto simp: dep_rel_def in_set_conv_nth)
      then have "a \<in> ?id ` set (dep_indices ?ss i)"
        using dep_indices_well_formed [OF assms i(1)] by (metis set_map)
      with i(2) show "(a, b) \<in> map_prod ?id ?id ` kd.edges ?ss"
        by (force simp: kd.edges_def)
    qed
    show "map_prod ?id ?id ` kd.edges ?ss \<subseteq> dep_rel p"
    proof (rule image_subsetI)
      fix e assume e: "e \<in> kd.edges ?ss"
      then obtain j i where ji: "e = (j, i)" "j \<in> set (dep_indices ?ss i)"
        by (auto simp: kd.edges_def)
      with e have i: "i < length ?ss" using kd.edges_sub by auto
      then have "?id j \<in> set (depends_on (?ss ! i))"
        using ji(2) dep_indices_well_formed [OF assms i] by (metis image_eqI set_map)
      with i ji(1) show "map_prod ?id ?id e \<in> dep_rel p" by (auto simp: dep_rel_def)
    qed
  qed
  show ?thesis
  proof
    assume "acyclic (dep_rel p)"
    then have "wf (dep_rel p)"
      by (intro finite_acyclic_wf) (auto simp: rel intro!: finite_imageI
          finite_subset [OF kd.edges_sub])
    then have "wf (inv_image (dep_rel p) ?id)" by (rule wf_inv_image)
    moreover have "kd.edges ?ss \<subseteq> inv_image (dep_rel p) ?id"
      unfolding rel by (force simp: inv_image_def)
    ultimately show "acyclic (kd.edges ?ss)" using wf_acyclic wf_subset by blast
  next
    assume "acyclic (kd.edges ?ss)"
    then have "wf (kd.edges ?ss)"
      by (intro finite_acyclic_wf finite_subset [OF kd.edges_sub]) simp_all
    then have "wf (inv_image (kd.edges ?ss) (inv_into {..<length ?ss} ?id))" by (rule wf_inv_image)
    moreover have "dep_rel p \<subseteq> inv_image (kd.edges ?ss) (inv_into {..<length ?ss} ?id)"
    proof (rule subrelI)
      fix a b assume "(a, b) \<in> dep_rel p"
      then obtain j i where e: "(j, i) \<in> kd.edges ?ss" "a = ?id j" "b = ?id i" unfolding rel by auto
      then have "j \<in> {..<length ?ss}" "i \<in> {..<length ?ss}" using kd.edges_sub by blast+
      with e inv_into_f_f [OF inj, of j] inv_into_f_f [OF inj, of i]
      show "(a, b) \<in> inv_image (kd.edges ?ss) (inv_into {..<length ?ss} ?id)"
        by simp
    qed
    ultimately have "wf (dep_rel p)" by (rule wf_subset)
    then show "acyclic (dep_rel p)" by (rule wf_acyclic)
  qed
qed

lemma kahn_complete_iff:
  assumes "well_formed p" and "kahn (pl_steps p) = Some (P, indeg)"
    and "kd.loop_inv (pl_steps p) P [] indeg"
  shows "length P = length (pl_steps p) \<longleftrightarrow> acyclic (dep_rel p)"
proof
  assume len: "length P = length (pl_steps p)"
  from assms(3) have "distinct P" "set P \<subseteq> {..<length (pl_steps p)}" "kd.topo (pl_steps p) P"
    by (auto simp: kd.loop_inv_def)
  moreover from this len have "set P = {..<length (pl_steps p)}"
    by (intro card_subset_eq) (auto simp: distinct_card)
  ultimately show "acyclic (dep_rel p)"
    using kd.topo_acyclic acyclic_edges [OF assms(1)] by blast
next
  assume "acyclic (dep_rel p)"
  then show "length P = length (pl_steps p)"
    using kd.stuck_cycle(3) [OF assms(3)] acyclic_edges [OF assms(1)] by blast
qed

section \<open>Properties of validation\<close>

lemma validate_accepts:
  "validate p \<noteq> Panic \<and> ((\<exists>order. validate p = Value (Inr order)) = (well_formed p \<and> acyclic (dep_rel p)))"
proof (cases "well_formed p")
  case True
  obtain P indeg where k: "kahn (pl_steps p) = Some (P, indeg)" "kd.loop_inv (pl_steps p) P [] indeg"
    using kahn_result by blast
  from kahn_complete_iff [OF True k] k(1) True show ?thesis
    by (auto simp: validate_well_formed)
next
  case False
  then show ?thesis using validate_ill_formed [of p] by auto
qed

text \<open>The order puts every step after everything it depends on.\<close>

definition dependency_order :: "pipeline_definition \<Rightarrow> rstr list \<Rightarrow> bool" where
  "dependency_order p order \<longleftrightarrow> distinct order \<and> set order = set (step_ids p)
     \<and> length order = length (pl_steps p)
     \<and> (\<forall>k < length order. \<forall>s \<in> set (pl_steps p).
          step_id s = order ! k \<longrightarrow> set (depends_on s) \<subseteq> set (take k order))"

text \<open>C7. Validating a pipeline never panics (no lookup is out of range and no counter
  underflows), and it accepts exactly the well-formed pipelines whose dependencies have no cycle.\<close>

theorem validate_accepts_iff:
  "validate p \<noteq> Panic \<and> ((\<exists>order. validate p = Value (Inr order)) = (well_formed p \<and> acyclic (dep_rel p)))"
  by (rule validate_accepts)

lemma validate_dependency_order:
  assumes "validate p = Value (Inr order)"
  shows "dependency_order p order"
proof -
  let ?ss = "pl_steps p" and ?id = "\<lambda>i. step_id (pl_steps p ! i)"
  have wf: "well_formed p" using validate_accepts assms by blast
  then have d: "distinct (map step_id ?ss)" by (simp add: well_formed_def step_ids_def)
  then have inj: "inj_on ?id {..<length ?ss}" by (auto simp: inj_on_def distinct_conv_nth)
  obtain P indeg where k: "kahn ?ss = Some (P, indeg)" and inv: "kd.loop_inv ?ss P [] indeg"
    using kahn_result by blast
  with assms wf have len: "length P = length ?ss" and order: "order = map ?id P"
    by (auto simp: validate_well_formed split: if_splits)
  from inv have dP: "distinct P" and sub: "set P \<subseteq> {..<length ?ss}" and topo: "kd.topo ?ss P"
    by (auto simp: kd.loop_inv_def)
  have setP: "set P = {..<length ?ss}"
    using dP sub len by (intro card_subset_eq) (auto simp: distinct_card)
  have "distinct order" unfolding order using dP inj setP by (simp add: distinct_map)
  moreover have "set order = set (step_ids p)"
  proof -
    have "step_ids p = map ?id [0..<length ?ss]"
      unfolding step_ids_def by (rule nth_equalityI) simp_all
    with setP show ?thesis by (simp add: order atLeast0LessThan)
  qed
  moreover have "set (depends_on s) \<subseteq> set (take k order)"
    if "k < length order" "s \<in> set ?ss" "step_id s = order ! k" for k s
  proof -
    have k: "k < length P" using that(1) order by simp
    then have lt: "P ! k < length ?ss" using setP nth_mem by blast
    from that(2) obtain i where i: "i < length ?ss" "?ss ! i = s" by (auto simp: in_set_conv_nth)
    with that(3) k order have "?id i = ?id (P ! k)" by simp
    with inj i(1) lt have "i = P ! k" by (auto simp: inj_on_def)
    with i(2) have s: "?ss ! (P ! k) = s" by simp
    have "set (depends_on s) = ?id ` set (dep_indices ?ss (P ! k))"
      using dep_indices_well_formed [OF wf lt] s by (metis set_map)
    also have "\<dots> \<subseteq> ?id ` set (take k P)" using topo k by (auto simp: kd.topo_def)
    also have "\<dots> = set (take k order)" by (simp add: order take_map)
    finally show ?thesis .
  qed
  ultimately show ?thesis using len order by (auto simp: dependency_order_def)
qed

text \<open>The order validation returns lists every step exactly once, each after all the steps it
  depends on.\<close>

theorem validate_order:
  assumes "validate p = Value (Inr order)"
  shows "dependency_order p order"
  using assms by (rule validate_dependency_order)

text \<open>A reported cycle is real: the steps named are steps of the pipeline, there is at least
  one, each depends on another of them, and the dependencies are cyclic.\<close>

theorem validate_cycle:
  assumes "validate p = Value (Inl (PeCycle stuck))"
  shows "stuck \<noteq> [] \<and> set stuck \<subseteq> set (step_ids p) \<and> \<not> acyclic (dep_rel p)
    \<and> (\<forall>x \<in> set stuck. \<exists>d \<in> set stuck. (d, x) \<in> dep_rel p)"
proof -
  let ?ss = "pl_steps p" and ?id = "\<lambda>i. step_id (pl_steps p ! i)"
  have wf: "well_formed p" using validate_ill_formed [of p] assms by auto
  obtain P indeg where k: "kahn ?ss = Some (P, indeg)" and inv: "kd.loop_inv ?ss P [] indeg"
    using kahn_result by blast
  with assms wf have len: "length P \<noteq> length ?ss"
    and stuck: "stuck = map ?id (filter (\<lambda>i. 0 < indeg ! i) [0..<length ?ss])"
    by (auto simp: validate_well_formed split: if_splits)
  note c = kd.stuck_cycle [OF inv len]
  have "stuck \<noteq> []" using c(1) by (auto simp: stuck filter_empty_conv)
  moreover have "set stuck \<subseteq> set (step_ids p)" by (auto simp: stuck step_ids_def)
  moreover have "\<not> acyclic (dep_rel p)" using c(3) acyclic_edges [OF wf] by blast
  moreover have "\<exists>d \<in> set stuck. (d, x) \<in> dep_rel p" if "x \<in> set stuck" for x
  proof -
    from that obtain i where i: "i < length ?ss" "0 < indeg ! i" "x = ?id i" by (auto simp: stuck)
    then obtain j where j: "j \<in> set (dep_indices ?ss i)" "j < length ?ss" "0 < indeg ! j"
      using c(2) by blast
    then have "?id j \<in> set (depends_on (?ss ! i))"
      using dep_indices_well_formed [OF wf i(1)] by (metis image_eqI set_map)
    then have "(?id j, x) \<in> dep_rel p" using i by (auto simp: dep_rel_def)
    moreover have "?id j \<in> set stuck" using j by (auto simp: stuck)
    ultimately show ?thesis by blast
  qed
  ultimately show ?thesis by blast
qed

section \<open>Examples\<close>

definition example_step :: "string \<Rightarrow> string list \<Rightarrow> step_definition" where
  "example_step i deps = (new_step (lit i) (lit ''x''))\<lparr>depends_on := map lit deps\<rparr>"

definition example_pipeline :: "step_definition list \<Rightarrow> pipeline_definition" where
  "example_pipeline ss = \<lparr>pl_uid = lit ''t'', pl_name = lit ''t'', pl_description = None,
     pl_version = 1, pl_trigger = None, pl_steps = ss, pl_builtin = False, pl_tenant_id = None\<rparr>"

definition diamond :: pipeline_definition where
  "diamond = example_pipeline [example_step ''a'' [], example_step ''b'' [''a''],
     example_step ''c'' [''a''], example_step ''d'' [''b'', ''c'']]"

definition two_cycle :: pipeline_definition where
  "two_cycle = example_pipeline [example_step ''a'' [], example_step ''b'' [''c''],
     example_step ''c'' [''b'']]"

lemma validate_diamond: "validate diamond = Value (Inr [lit ''a'', lit ''b'', lit ''c'', lit ''d''])"
  by code_simp

lemma validate_two_cycle: "validate two_cycle = Value (Inl (PeCycle [lit ''b'', lit ''c'']))"
  by code_simp

theorem validate_order_witness:
  "dependency_order diamond [lit ''a'', lit ''b'', lit ''c'', lit ''d'']"
  by (rule validate_order [OF validate_diamond])

theorem validate_cycle_witness:
  "\<not> acyclic (dep_rel two_cycle)"
  using validate_cycle [OF validate_two_cycle] by blast

text \<open>The order is breadth first, not by position: here the independent steps \<open>c\<close> (third) and
  \<open>d\<close> (fourth) come out the other way round.\<close>

lemma validate_order_not_positional:
  "validate (example_pipeline [example_step ''a'' [], example_step ''b'' [''a''],
      example_step ''c'' [''b''], example_step ''d'' [''a'']])
    = Value (Inr [lit ''a'', lit ''b'', lit ''d'', lit ''c''])"
  by code_simp

section \<open>The implicit sequential rule\<close>

lemma length_chain_steps [simp]: "length (chain_steps e prev ss) = length ss"
  by (induction ss arbitrary: prev) (simp_all add: Let_def)

lemma map_step_id_chain [simp]: "map step_id (chain_steps e prev ss) = map step_id ss"
  by (induction ss arbitrary: prev) (simp_all add: Let_def)

lemma chain_steps_nth:
  assumes "e \<or> list_all (\<lambda>s. depends_on s = []) ss" and "i < length ss"
  shows "chain_steps e prev ss ! i = (if depends_on (ss ! i) \<noteq> [] then ss ! i
    else (ss ! i)\<lparr>depends_on := [step_id ((prev # ss) ! i)]\<rparr>)"
  using assms
proof (induction ss arbitrary: prev i)
  case Nil
  then show ?case by simp
next
  case (Cons s ss)
  show ?case
  proof (cases i)
    case 0
    with Cons.prems(1) show ?thesis by (auto simp: Let_def)
  next
    case (Suc k)
    define s' where "s' = (if e \<and> depends_on s \<noteq> [] then s else s\<lparr>depends_on := [step_id prev]\<rparr>)"
    have "step_id ((s' # ss) ! k) = step_id ((s # ss) ! k)"
      by (cases k) (simp_all add: s'_def)
    moreover have "e \<or> list_all (\<lambda>s. depends_on s = []) ss" "k < length ss"
      using Cons.prems Suc by auto
    ultimately show ?thesis using Cons.IH [of k s'] Suc by (simp add: Let_def s'_def)
  qed
qed

definition normalized_step :: "step_definition list \<Rightarrow> nat \<Rightarrow> step_definition" where
  "normalized_step ss i = (if i = 0 \<or> depends_on (ss ! i) \<noteq> [] then ss ! i
     else (ss ! i)\<lparr>depends_on := [step_id (ss ! (i - 1))]\<rparr>)"

lemma length_normalize_steps [simp]: "length (normalize_steps ss) = length ss"
  by (auto simp: normalize_steps_def Let_def split: list.split)

lemma map_step_id_normalize [simp]: "map step_id (normalize_steps ss) = map step_id ss"
  by (auto simp: normalize_steps_def Let_def split: list.split)

lemma normalize_steps_nth:
  assumes "i < length ss" shows "normalize_steps ss ! i = normalized_step ss i"
proof (cases ss)
  case Nil
  with assms show ?thesis by simp
next
  case (Cons s rest)
  show ?thesis
  proof (cases i)
    case 0
    with Cons show ?thesis by (simp add: normalize_steps_def normalized_step_def)
  next
    case (Suc k)
    let ?e = "list_ex (\<lambda>s. depends_on s \<noteq> []) ss"
    have "?e \<or> list_all (\<lambda>s. depends_on s = []) rest"
      by (auto simp: Cons list_ex_iff list_all_iff)
    moreover have "k < length rest" using assms Cons Suc by simp
    ultimately have "chain_steps ?e s rest ! k = normalized_step ss i"
      using chain_steps_nth [of ?e rest k s] by (simp add: normalized_step_def Cons Suc)
    then show ?thesis by (simp add: normalize_steps_def Let_def Cons Suc)
  qed
qed

lemma normalize_simps [simp]:
  "pl_uid (normalize p) = pl_uid p" "pl_steps (normalize p) = normalize_steps (pl_steps p)"
  "step_ids (normalize p) = step_ids p"
  by (simp_all add: normalize_def step_ids_def)

lemma normalize_steps_idem: "normalize_steps (normalize_steps ss) = normalize_steps ss"
proof (rule nth_equalityI)
  fix i assume "i < length (normalize_steps (normalize_steps ss))"
  then have i: "i < length ss" by simp
  then have "normalize_steps (normalize_steps ss) ! i = normalized_step (normalize_steps ss) i"
    by (simp add: normalize_steps_nth)
  also have "\<dots> = normalize_steps ss ! i"
    using i by (auto simp: normalized_step_def normalize_steps_nth)
  finally show "normalize_steps (normalize_steps ss) ! i = normalize_steps ss ! i" .
qed simp

text \<open>Normalizing fills in dependencies and nothing else: a step that names none depends on the
  step right before it, the first step and the steps that name dependencies are untouched, and
  normalizing again changes nothing.\<close>

theorem normalize_steps_spec:
  "pl_steps (normalize p) = map (normalized_step (pl_steps p)) [0..<length (pl_steps p)]
   \<and> normalize (normalize p) = normalize p"
proof
  show "pl_steps (normalize p) = map (normalized_step (pl_steps p)) [0..<length (pl_steps p)]"
    by (rule nth_equalityI) (simp_all add: normalize_steps_nth)
  show "normalize (normalize p) = normalize p"
    by (simp add: normalize_def normalize_steps_idem)
qed

text \<open>Only the first step of a normalized pipeline can be a root: a later step written with
  \<open>depends_on: []\<close> is chained to its predecessor, even when it is listed right after the first.\<close>

theorem normalize_single_root:
  assumes "i < length (pl_steps p)" and "depends_on (pl_steps (normalize p) ! i) = []"
  shows "i = 0"
  using assms by (auto simp: normalize_steps_nth normalized_step_def split: if_splits)

theorem normalize_single_root_witness:
  "(0 :: nat) < length (pl_steps diamond) \<and> depends_on (pl_steps (normalize diamond) ! 0) = [] \<and> (0 :: nat) = 0"
proof -
  have "0 < length (pl_steps diamond)" "depends_on (pl_steps (normalize diamond) ! 0) = []"
    by code_simp+
  with normalize_single_root [OF this] show ?thesis by blast
qed

section \<open>Linear pipelines\<close>

definition linear :: "pipeline_definition \<Rightarrow> bool" where
  "linear p \<longleftrightarrow> pl_uid p \<noteq> [] \<and> list_all uid_char (pl_uid p) \<and> pl_steps p \<noteq> []
     \<and> distinct (step_ids p)
     \<and> list_all (\<lambda>s. depends_on s = [] \<and> fan_out s = None) (pl_steps p)"

lemma linear_deps:
  assumes "linear p" and "i < length (pl_steps p)"
  shows "depends_on (normalize_steps (pl_steps p) ! i)
      = (if i = 0 then [] else [step_id (pl_steps p ! (i - 1))])"
    and "fan_out (normalize_steps (pl_steps p) ! i) = None"
    and "step_id (normalize_steps (pl_steps p) ! i) = step_id (pl_steps p ! i)"
  using assms by (auto simp: normalize_steps_nth normalized_step_def linear_def list_all_length)

lemma linear_well_formed:
  assumes "linear p" shows "well_formed (normalize p)"
proof -
  have "step_ok (step_ids p) (normalize_steps (pl_steps p) ! i)" if "i < length (pl_steps p)" for i
    using that linear_deps [OF assms that] by (simp add: step_ok_def step_ids_def)
  then have "list_all (step_ok (step_ids p)) (normalize_steps (pl_steps p))"
    by (simp add: list_all_length)
  moreover have "normalize_steps (pl_steps p) \<noteq> []"
    using assms length_normalize_steps [of "pl_steps p"] by (metis length_0_conv linear_def)
  ultimately show ?thesis using assms by (simp add: well_formed_def linear_def)
qed

lemma linear_acyclic:
  assumes "linear p" shows "acyclic (dep_rel (normalize p))"
proof -
  let ?ss = "normalize_steps (pl_steps p)"
  note wf = linear_well_formed [OF assms]
  have d: "distinct (map step_id (pl_steps p))" using assms by (simp add: linear_def step_ids_def)
  have "kd.edges ?ss \<subseteq> less_than"
  proof (rule subrelI)
    fix j i assume "(j, i) \<in> kd.edges ?ss"
    then have j: "j \<in> set (dep_indices ?ss i)" and lt: "i < length (pl_steps p)" "j < length (pl_steps p)"
      using kd.edges_sub [of ?ss] by (auto simp: kd.edges_def)
    have "step_id (?ss ! j) \<in> set (depends_on (?ss ! i))"
      using dep_indices_well_formed [OF wf, of i] j lt by (metis image_eqI length_normalize_steps
          normalize_simps(2) set_map)
    then have "i \<noteq> 0 \<and> step_id (pl_steps p ! j) = step_id (pl_steps p ! (i - 1))"
      using linear_deps [OF assms lt(1)] linear_deps(3) [OF assms lt(2)] by (simp split: if_splits)
    with d lt have "i \<noteq> 0" "j = i - 1" by (auto simp: distinct_conv_nth) (metis Suc_pred diff_less lessI less_trans neq0_conv)
    then show "(j, i) \<in> less_than" by simp
  qed
  then have "acyclic (kd.edges ?ss)" by (meson acyclic_subset wf_acyclic wf_less_than)
  then show ?thesis using acyclic_edges [OF wf] by simp
qed

lemma chain_order_unique:
  assumes d: "distinct ids" "distinct order" and s: "set order = set ids"
    and prev: "\<And>k i. k < length order \<Longrightarrow> i < length ids \<Longrightarrow> 0 < i \<Longrightarrow> ids ! i = order ! k
      \<Longrightarrow> ids ! (i - 1) \<in> set (take k order)"
  shows "order = ids"
proof (rule nth_equalityI)
  show len: "length order = length ids" using d s distinct_card by metis
  fix k assume "k < length order"
  then show "order ! k = ids ! k"
  proof (induction k rule: less_induct)
    case (less k)
    then have "order ! k \<in> set ids" using s by auto
    then obtain m where m: "m < length ids" "ids ! m = order ! k" by (auto simp: in_set_conv_nth)
    have "\<not> m < k"
    proof
      assume "m < k"
      with less have "order ! m = order ! k" using m by simp
      with \<open>m < k\<close> less.prems d(2) show False by (simp add: nth_eq_iff_index_eq)
    qed
    moreover have "\<not> k < m"
    proof
      assume km: "k < m"
      with prev [OF less.prems m(1) _ m(2)] have "ids ! (m - 1) \<in> set (take k order)" by simp
      then obtain j where j: "j < k" "order ! j = ids ! (m - 1)"
        using less.prems by (auto simp: in_set_conv_nth)
      with less have "ids ! j = ids ! (m - 1)" by simp
      with d(1) j(1) km m(1) have "j = m - 1" by (simp add: nth_eq_iff_index_eq)
      with j(1) km show False by simp
    qed
    ultimately have "m = k" by simp
    with m(2) show ?case by simp
  qed
qed

lemma linear_pipeline_accepted:
  assumes "linear p"
  shows "validate (normalize p) = Value (Inr (step_ids p))"
proof -
  obtain order where v: "validate (normalize p) = Value (Inr order)"
    using validate_accepts linear_well_formed [OF assms] linear_acyclic [OF assms] by blast
  then have "dependency_order (normalize p) order" by (rule validate_dependency_order)
  then have o: "distinct order" "set order = set (step_ids p)"
    and dep: "\<And>k i. k < length order \<Longrightarrow> i < length (pl_steps p) \<Longrightarrow>
      step_id (normalize_steps (pl_steps p) ! i) = order ! k \<Longrightarrow>
      set (depends_on (normalize_steps (pl_steps p) ! i)) \<subseteq> set (take k order)"
    by (auto simp: dependency_order_def)
  have "order = step_ids p"
  proof (rule chain_order_unique)
    fix k i assume k: "k < length order" and i: "i < length (step_ids p)" "0 < i"
      and eq: "step_ids p ! i = order ! k"
    then have lt: "i < length (pl_steps p)" by (simp add: step_ids_def)
    with dep [OF k lt] eq linear_deps [OF assms lt] i(2)
    have "step_id (pl_steps p ! (i - 1)) \<in> set (take k order)" by (simp add: step_ids_def)
    with lt show "step_ids p ! (i - 1) \<in> set (take k order)" by (simp add: step_ids_def)
  qed (use assms o in \<open>simp_all add: linear_def\<close>)
  with v show ?thesis by simp
qed

text \<open>A pipeline written as a plain list of steps, with no \<open>depends_on\<close> anywhere, is accepted
  once normalized and runs in the order it is written.\<close>

theorem linear_pipeline_order:
  assumes "linear p"
  shows "validate (normalize p) = Value (Inr (step_ids p))"
  using assms by (rule linear_pipeline_accepted)

definition example_linear :: pipeline_definition where
  "example_linear = example_pipeline [example_step ''extract'' [], example_step ''chunk'' [],
     example_step ''index'' []]"

theorem linear_pipeline_order_witness:
  "validate (normalize example_linear) = Value (Inr [lit ''extract'', lit ''chunk'', lit ''index''])"
proof -
  have "linear example_linear" by code_simp
  from linear_pipeline_order [OF this] show ?thesis
    by (simp add: step_ids_def example_linear_def example_pipeline_def example_step_def new_step_def)
qed

section \<open>Globs\<close>

text \<open>The language of a filename pattern: a star stands for any run of characters, a question mark
  for one, any other character for itself.\<close>

inductive glob_lang :: "rstr \<Rightarrow> rstr \<Rightarrow> bool" where
  glob_nil: "glob_lang [] []"
| glob_star: "glob_lang p n \<Longrightarrow> glob_lang (42 # p) (run @ n)"
| glob_any: "glob_lang p n \<Longrightarrow> glob_lang (63 # p) (b # n)"
| glob_char: "a \<noteq> 42 \<Longrightarrow> a \<noteq> 63 \<Longrightarrow> glob_lang p n \<Longrightarrow> glob_lang (a # p) (a # n)"

inductive_cases glob_lang_NilE: "glob_lang [] n"
inductive_cases glob_lang_ConsE: "glob_lang (a # p) n"

lemma glob_rec_star: "glob_rec p n \<Longrightarrow> glob_rec (42 # p) (run @ n)"
proof (induction run)
  case Nil
  then show ?case by (cases n) auto
next
  case (Cons b run)
  then show ?case by simp
qed

lemma glob_rec_sound: "glob_rec p n \<Longrightarrow> glob_lang p n"
proof (induction p n rule: glob_rec.induct)
  case (3 a p)
  then show ?case using glob_star [of p "[]" "[]"] by (auto split: if_splits)
next
  case (4 a p b n)
  have star: "glob_lang (42 # p) (b # n)" if "glob_lang (42 # p) n"
  proof -
    from that obtain run rest where "n = run @ rest" "glob_lang p rest"
      by (auto elim: glob_lang_ConsE)
    then show ?thesis using glob_star [of p rest "b # run"] by simp
  qed
  from 4 show ?case
    using glob_star [of p "b # n" "[]"] star by (auto split: if_splits intro: glob_any glob_char)
qed (auto intro: glob_nil)

lemma glob_rec_complete: "glob_lang p n \<Longrightarrow> glob_rec p n"
  by (induction rule: glob_lang.induct) (simp_all add: glob_rec_star)

text \<open>Filename patterns mean what they say: \<open>glob_match\<close> accepts a name exactly when its base
  name, ignoring ASCII case, is in the language of the pattern.\<close>

theorem glob_match_iff:
  "glob_match pattern name \<longleftrightarrow> glob_lang (to_ascii_lowercase pattern)
     (to_ascii_lowercase (rsplit_first (\<lambda>c. c = 47 \<or> c = 92) name))"
  unfolding glob_match_def using glob_rec_sound glob_rec_complete by blast

section \<open>Pinned destinations\<close>

text \<open>When a pipeline pins its destination, merging a request's tenant context into any of its
  index steps leaves the host and the API key of the step's configuration alone.\<close>

theorem pinned_destination_kept:
  assumes "pins_destination p" and "s \<in> set (pl_steps p)" and "step_plugin s = INDEXER_PLUGIN"
    and "destination_key k"
  shows "json_get (inject_meili_context (step_config s) c) k = json_get (step_config s) k"
proof -
  from assms have "pinned_connection (step_config s) \<noteq> None"
    by (auto simp: pins_destination_def indexer_steps_def list_all_iff)
  with assms(4) show ?thesis
    using inject_meili_context_get [of "step_config s" c k] by (simp split: option.split)
qed

definition pinned_example :: pipeline_definition where
  "pinned_example = example_pipeline [(new_step (lit ''index'') INDEXER_PLUGIN)
     \<lparr>step_config := JObject [(CONNECTION_KEY, JString (lit ''prod''))]\<rparr>]"

theorem pinned_destination_kept_witness:
  "json_get (inject_meili_context (step_config (hd (pl_steps pinned_example)))
      (bare_context\<lparr>ctx_host := Some (lit ''http://evil'')\<rparr>)) (lit ''host'') = None"
proof -
  let ?s = "hd (pl_steps pinned_example)"
  have "pins_destination pinned_example" by code_simp
  moreover have "?s \<in> set (pl_steps pinned_example)"
    by (simp add: pinned_example_def example_pipeline_def)
  moreover have "step_plugin ?s = INDEXER_PLUGIN" by code_simp
  moreover have "destination_key (lit ''host'')" by (simp add: destination_key_def)
  ultimately have "json_get (inject_meili_context (step_config ?s)
      (bare_context\<lparr>ctx_host := Some (lit ''http://evil'')\<rparr>)) (lit ''host'')
      = json_get (step_config ?s) (lit ''host'')"
    by (rule pinned_destination_kept)
  also have "\<dots> = None"
    by (simp add: pinned_example_def example_pipeline_def bt_get_def CONNECTION_KEY_def)
  finally show ?thesis .
qed

end
