(* ===== verification/Dag.thy ===== *)
theory Dag
  imports Validate
begin

text \<open>
  \<open>crates/worker/src/dag.rs\<close>: the pure helpers that schedule the steps of a job. \<open>ready_steps\<close> picks
  the steps that can run, \<open>resolve_input\<close> gathers what a step reads, \<open>fan_out_branches\<close> splits an
  output among parallel activities and \<open>retry_params\<close> turns a retry policy into Temporal's.
\<close>

section \<open>Scheduling\<close>

type_synonym done_map = "rstr \<rightharpoonup> plugin_output"

definition ready_steps :: "pipeline_definition \<Rightarrow> rstr list \<Rightarrow> done_map \<Rightarrow> step_definition list" where
  "ready_steps p order done =
     filter (\<lambda>s. list_all (\<lambda>d. done d \<noteq> None) (depends_on s))
       (List.map_filter (find_step p) (filter (\<lambda>i. done i = None) order))"

definition resolve_input :: "step_definition \<Rightarrow> plugin_input \<Rightarrow> done_map \<Rightarrow> plugin_input" where
  "resolve_input s initial done =
     (case depends_on s of
        [] \<Rightarrow> initial
      | [single] \<Rightarrow> (case done single of Some out \<Rightarrow> input_of_output out | None \<Rightarrow> InEmpty)
      | many \<Rightarrow> InMany (List.map_filter done many))"

section \<open>Fan-out\<close>

datatype fan_out_result = Branches "plugin_input list" | NeedsActivity plugin_output

text \<open>The loop over the peekable iterator: \<open>take(per_branch)\<close> until nothing is left.\<close>

fun take_groups :: "nat \<Rightarrow> document list \<Rightarrow> document list list" where
  "take_groups n [] = []"
| "take_groups n (d # ds) = (d # take (n - 1) ds) # take_groups n (drop (n - 1) ds)"

definition group_documents :: "document list \<Rightarrow> nat \<Rightarrow> plugin_input list" where
  "group_documents docs max_branches =
     (if docs = [] then []
      else let per_branch = max (div_ceil_nat (length docs) (max max_branches 1)) 1
           in map InDocuments (take_groups per_branch docs))"

definition fan_out_branches :: "rstr \<Rightarrow> plugin_output \<Rightarrow> nat \<Rightarrow> fan_out_result" where
  "fan_out_branches path upstream max_branches =
     (let max_branches = max max_branches 1 in
      if path = lit ''$'' then Branches [input_of_output upstream]
      else (case upstream of
              OutRef r \<Rightarrow> NeedsActivity (OutRef r)
            | _ \<Rightarrow>
                if path = lit ''$.many''
                then (case upstream of
                        OutMany items \<Rightarrow> Branches (map input_of_output items)
                      | other \<Rightarrow> Branches [input_of_output other])
                else (case out_into_documents upstream of
                        Inr docs \<Rightarrow> Branches (group_documents docs max_branches)
                      | Inl _ \<Rightarrow> Branches [])))"

section \<open>Retries\<close>

record retry_params =
  maximum_attempts :: u32
  backoff_coefficient :: f64
  rp_initial_interval_secs :: u64

definition retry_params_of :: "retry_config \<Rightarrow> retry_params" where
  "retry_params_of cfg =
     (case backoff_strategy cfg of
        Exponential \<Rightarrow> \<lparr>maximum_attempts = max (max_attempts cfg) 1, backoff_coefficient = Fin 2,
                        rp_initial_interval_secs = max (initial_interval_secs cfg) 1\<rparr>
      | Linear \<Rightarrow> \<lparr>maximum_attempts = max (max_attempts cfg) 1, backoff_coefficient = Fin 1,
                   rp_initial_interval_secs = max (initial_interval_secs cfg) 1\<rparr>
      | NoBackoff \<Rightarrow> \<lparr>maximum_attempts = max (max_attempts cfg) 1, backoff_coefficient = Fin 1,
                      rp_initial_interval_secs = 0\<rparr>)"

section \<open>Ready steps\<close>

lemma find_step_id: "find_step p i = Some s \<Longrightarrow> step_id s = i \<and> s \<in> set (pl_steps p)"
  unfolding find_step_def by (auto dest: find_SomeD)

lemma find_step_ex: "i \<in> set (step_ids p) \<Longrightarrow> \<exists>s. find_step p i = Some s"
proof (rule ccontr)
  assume i: "i \<in> set (step_ids p)" and "\<nexists>s. find_step p i = Some s"
  then have "find_step p i = None" by (cases "find_step p i") auto
  with i show False by (auto simp: find_step_def find_None_iff step_ids_def)
qed

lemma set_map_filter: "set (List.map_filter f xs) = {y. \<exists>x \<in> set xs. f x = Some y}"
  by (induction xs) (auto simp: List.map_filter_simps split: option.splits)

lemma in_ready_steps:
  "s \<in> set (ready_steps p order done) \<longleftrightarrow>
     (\<exists>i \<in> set order. done i = None \<and> find_step p i = Some s) \<and> (\<forall>d \<in> set (depends_on s). done d \<noteq> None)"
  by (auto simp: ready_steps_def set_map_filter list_all_iff)

lemma ready_ids_distinct:
  assumes "distinct order" shows "distinct (map step_id (ready_steps p order done))"
proof -
  have "distinct (map step_id (List.map_filter (find_step p) is))" if "distinct is" for "is"
    using that
  proof (induction "is")
    case (Cons i "is")
    have "step_id ` set (List.map_filter (find_step p) is) \<subseteq> set is"
      using find_step_id by (fastforce simp: set_map_filter)
    with Cons show ?case
      using find_step_id [of p i] by (auto simp: List.map_filter_simps split: option.splits)
  qed (simp add: List.map_filter_simps)
  then show ?thesis using assms unfolding ready_steps_def by (simp add: distinct_map_filter)
qed

lemma first_pending:
  assumes "i \<in> set order" and "done i = None"
  obtains k where "k < length order" "done (order ! k) = None" "\<forall>j \<in> set (take k order). done j \<noteq> None"
proof -
  define k where "k = (LEAST k. k < length order \<and> done (order ! k) = None)"
  from assms obtain m where m: "m < length order \<and> done (order ! m) = None" by (auto simp: in_set_conv_nth)
  then have k: "k < length order \<and> done (order ! k) = None" unfolding k_def by (rule LeastI)
  have "done (order ! j) \<noteq> None" if "j < k" for j
    using not_less_Least [OF that [unfolded k_def]] that k by simp
  then have "\<forall>j \<in> set (take k order). done j \<noteq> None" using k by (auto simp: in_set_conv_nth)
  with k show thesis using that by blast
qed

lemma ready_progress:
  assumes "dependency_order p order" and "i \<in> set order" and "done i = None"
  shows "ready_steps p order done \<noteq> []"
proof -
  obtain k where k: "k < length order" "done (order ! k) = None" "\<forall>j \<in> set (take k order). done j \<noteq> None"
    using first_pending [of i order "done", OF assms(2,3)] by blast
  have "order ! k \<in> set (step_ids p)" using assms(1) k(1) by (auto simp: dependency_order_def)
  then obtain s where s: "find_step p (order ! k) = Some s" using find_step_ex by blast
  with find_step_id have "step_id s = order ! k" "s \<in> set (pl_steps p)" by blast+
  with assms(1) k(1) have "set (depends_on s) \<subseteq> set (take k order)" by (simp add: dependency_order_def)
  with k s have "s \<in> set (ready_steps p order done)" by (auto simp: in_ready_steps)
  then show ?thesis by auto
qed

text \<open>A job never stalls: as long as a step of a valid order is not done, at least one step is
  ready, and every ready step is new and has all its dependencies done.\<close>

theorem ready_steps_progress:
  assumes "dependency_order p order"
  shows "(ready_steps p order done = []) = list_all (\<lambda>i. done i \<noteq> None) order
    \<and> list_all (\<lambda>s. done (step_id s) = None \<and> list_all (\<lambda>d. done d \<noteq> None) (depends_on s)
                    \<and> s \<in> set (pl_steps p)) (ready_steps p order done)
    \<and> distinct (map step_id (ready_steps p order done))"
proof (intro conjI)
  show "(ready_steps p order done = []) = list_all (\<lambda>i. done i \<noteq> None) order"
  proof
    assume "ready_steps p order done = []"
    then show "list_all (\<lambda>i. done i \<noteq> None) order"
      unfolding list_all_iff using ready_progress [OF assms] by blast
  next
    assume all: "list_all (\<lambda>i. done i \<noteq> None) order"
    have "s \<notin> set (ready_steps p order done)" for s
      using all by (auto simp: in_ready_steps list_all_iff)
    then show "ready_steps p order done = []" by (metis list.set_intros(1) neq_Nil_conv)
  qed
  show "list_all (\<lambda>s. done (step_id s) = None \<and> list_all (\<lambda>d. done d \<noteq> None) (depends_on s)
      \<and> s \<in> set (pl_steps p)) (ready_steps p order done)"
    using find_step_id by (fastforce simp: list_all_iff in_ready_steps)
  show "distinct (map step_id (ready_steps p order done))"
    using assms by (intro ready_ids_distinct) (simp add: dependency_order_def)
qed

section \<open>Groups of documents\<close>

lemma concat_take_groups: "0 < n \<Longrightarrow> concat (take_groups n ds) = ds"
  by (induction n ds rule: take_groups.induct) simp_all

lemma take_groups_sizes: "0 < n \<Longrightarrow> g \<in> set (take_groups n ds) \<Longrightarrow> g \<noteq> [] \<and> length g \<le> n"
  by (induction n ds rule: take_groups.induct) auto

lemma length_take_groups:
  assumes "0 < n" shows "length ds \<le> m * n \<Longrightarrow> length (take_groups n ds) \<le> m"
  using assms
proof (induction n ds arbitrary: m rule: take_groups.induct)
  case (1 n)
  then show ?case by simp
next
  case (2 n d ds)
  then obtain k where m: "m = Suc k" by (cases m) auto
  have "length (drop (n - 1) ds) \<le> k * n" using 2(2,3) by (simp add: m)
  with 2 show ?case by (simp add: m)
qed

definition group_docs :: "plugin_input \<Rightarrow> document list" where
  "group_docs i = (case i of InDocuments ds \<Rightarrow> ds | _ \<Rightarrow> [])"

lemma group_documents_shape:
  fixes m :: nat
  assumes "docs \<noteq> []"
  defines "n \<equiv> max (div_ceil_nat (length docs) (max m 1)) 1"
  shows "group_documents docs m = map InDocuments (take_groups n docs)" "0 < n"
  using assms by (simp_all add: group_documents_def Let_def)

lemma group_documents_bound: "length (group_documents docs m) \<le> max m 1"
proof (cases "docs = []")
  case True
  then show ?thesis by (simp add: group_documents_def)
next
  case False
  let ?c = "div_ceil_nat (length docs) (max m 1)"
  have "length docs \<le> ?c * max m 1" by (rule div_ceil_nat_bounds) simp
  also have "\<dots> \<le> max m 1 * max ?c 1" by (simp add: mult.commute)
  finally show ?thesis
    unfolding group_documents_shape [OF False] by (simp add: length_take_groups)
qed

text \<open>Grouping a step's documents for a fan-out loses, repeats and reorders none of them, leaves
  no branch without documents and never makes more branches than allowed.\<close>

theorem group_documents_partition:
  "concat (map group_docs (group_documents docs m)) = docs
   \<and> length (group_documents docs m) \<le> max m 1
   \<and> list_all (\<lambda>b. \<exists>ds. b = InDocuments ds \<and> ds \<noteq> []) (group_documents docs m)"
proof (cases "docs = []")
  case True
  then show ?thesis by (simp add: group_documents_def)
next
  case False
  have "concat (map group_docs (map InDocuments gs)) = concat gs" for gs
    by (simp add: group_docs_def comp_def)
  then have "concat (map group_docs (group_documents docs m)) = docs"
    unfolding group_documents_shape [OF False] by (simp add: concat_take_groups)
  moreover have "list_all (\<lambda>b. \<exists>ds. b = InDocuments ds \<and> ds \<noteq> []) (group_documents docs m)"
    unfolding group_documents_shape [OF False] by (auto simp: list_all_iff dest: take_groups_sizes [rotated])
  ultimately show ?thesis using group_documents_bound by blast
qed

text \<open>The retry policy handed to Temporal always allows an attempt and never waits a zero
  interval where the step asks for a backoff.\<close>

theorem retry_params_sane:
  "1 \<le> maximum_attempts (retry_params_of cfg)
   \<and> (backoff_strategy cfg = NoBackoff \<or> 1 \<le> rp_initial_interval_secs (retry_params_of cfg))
   \<and> max_attempts cfg \<le> maximum_attempts (retry_params_of cfg)"
  by (cases "backoff_strategy cfg") (simp_all add: retry_params_of_def)

section \<open>Example\<close>

lemma diamond_order: "dependency_order diamond [lit ''a'', lit ''b'', lit ''c'', lit ''d'']"
  by (rule validate_dependency_order [OF validate_diamond])

definition two_done :: done_map where
  "two_done = [lit ''a'' \<mapsto> OutEmpty, lit ''b'' \<mapsto> OutEmpty]"

theorem ready_steps_progress_witness:
  "ready_steps diamond [lit ''a'', lit ''b'', lit ''c'', lit ''d''] two_done \<noteq> []"
  using ready_steps_progress [OF diamond_order, of two_done] by (simp add: two_done_def)

end
