(* ===== verification/Utf8.thy ===== *)
theory Utf8
  imports Rust_Prelude
begin

text \<open>
  UTF-8 as the standard library has it: \<open>str::as_bytes\<close> and \<open>str::from_utf8\<close>, whose error says how
  many bytes are valid (\<open>valid_up_to\<close>) and how many are wrong (\<open>error_len\<close>, \<open>None\<close> when the input
  ends inside a character). Bytes are numbers below 256. The lemmas: decoding what was encoded gives
  the text back, and decoding a cut text gives an error of the second kind whose valid prefix is
  a prefix of the text.
\<close>

section \<open>Encoding\<close>

text \<open>A \<open>char\<close> is a Unicode scalar value.\<close>

definition is_scalar :: "rchar \<Rightarrow> bool" where
  "is_scalar c \<longleftrightarrow> c < 55296 \<or> (57344 \<le> c \<and> c < 1114112)"

definition encode_char :: "rchar \<Rightarrow> nat list" where
  "encode_char c =
     (if c < 128 then [c]
      else if c < 2048 then [192 + c div 64, 128 + c mod 64]
      else if c < 65536 then [224 + c div 4096, 128 + c div 64 mod 64, 128 + c mod 64]
      else [240 + c div 262144, 128 + c div 4096 mod 64, 128 + c div 64 mod 64, 128 + c mod 64])"

definition utf8_bytes :: "rstr \<Rightarrow> nat list" where
  "utf8_bytes s = concat (map encode_char s)"

lemma utf8_bytes_simps [simp]:
  "utf8_bytes [] = []"
  "utf8_bytes (c # s) = encode_char c @ utf8_bytes s"
  "utf8_bytes (s @ t) = utf8_bytes s @ utf8_bytes t"
  by (simp_all add: utf8_bytes_def)

lemma length_encode_char [simp]: "length (encode_char c) = utf8_char_len c"
  by (simp add: encode_char_def utf8_char_len_def)

lemma length_utf8_bytes [simp]: "length (utf8_bytes s) = utf8_len s"
  by (induction s) simp_all

lemma utf8_char_len_bounds: "1 \<le> utf8_char_len c" "utf8_char_len c \<le> 4"
  by (simp_all add: utf8_char_len_def)

section \<open>Decoding\<close>

definition is_cont :: "nat \<Rightarrow> bool" where
  "is_cont b \<longleftrightarrow> 128 \<le> b \<and> b < 192"

text \<open>The second byte of a three- or four-byte character: overlong forms, surrogates and code points
  above the last one are excluded here.\<close>

definition second_ok :: "nat \<Rightarrow> nat \<Rightarrow> bool" where
  "second_ok b0 b1 \<longleftrightarrow> is_cont b1 \<and> (b0 = 224 \<longrightarrow> 160 \<le> b1) \<and> (b0 = 237 \<longrightarrow> b1 < 160)
     \<and> (b0 = 240 \<longrightarrow> 144 \<le> b1) \<and> (b0 = 244 \<longrightarrow> b1 < 144)"

text \<open>The next character and the bytes after it, or \<open>error_len\<close>.\<close>

definition next_char :: "nat \<Rightarrow> nat list \<Rightarrow> nat option + (rchar \<times> nat list)" where
  "next_char b0 bs =
     (if b0 < 128 then Inr (b0, bs)
      else if 194 \<le> b0 \<and> b0 \<le> 223 then
        (case bs of [] \<Rightarrow> Inl None
         | b1 # r \<Rightarrow> if is_cont b1 then Inr ((b0 - 192) * 64 + (b1 - 128), r) else Inl (Some 1))
      else if 224 \<le> b0 \<and> b0 \<le> 239 then
        (case bs of [] \<Rightarrow> Inl None
         | b1 # r1 \<Rightarrow> if \<not> second_ok b0 b1 then Inl (Some 1)
             else (case r1 of [] \<Rightarrow> Inl None
                   | b2 # r \<Rightarrow> if is_cont b2
                       then Inr ((b0 - 224) * 4096 + (b1 - 128) * 64 + (b2 - 128), r)
                       else Inl (Some 2)))
      else if 240 \<le> b0 \<and> b0 \<le> 244 then
        (case bs of [] \<Rightarrow> Inl None
         | b1 # r1 \<Rightarrow> if \<not> second_ok b0 b1 then Inl (Some 1)
             else (case r1 of [] \<Rightarrow> Inl None
                   | b2 # r2 \<Rightarrow> if \<not> is_cont b2 then Inl (Some 2)
                       else (case r2 of [] \<Rightarrow> Inl None
                             | b3 # r \<Rightarrow> if is_cont b3
                                 then Inr ((b0 - 240) * 262144 + (b1 - 128) * 4096
                                           + (b2 - 128) * 64 + (b3 - 128), r)
                                 else Inl (Some 3))))
      else Inl (Some 1))"

lemma next_char_shorter: "next_char b bs = Inr (c, rest) \<Longrightarrow> length rest \<le> length bs"
  by (auto simp: next_char_def split: if_splits list.splits)

record utf8_error =
  valid_up_to :: nat
  error_len :: "nat option"

function decode_from :: "nat \<Rightarrow> nat list \<Rightarrow> utf8_error + rstr" where
  "decode_from n [] = Inr []"
| "decode_from n (b # bs) =
     (case next_char b bs of
        Inl e \<Rightarrow> Inl \<lparr>valid_up_to = n, error_len = e\<rparr>
      | Inr (c, rest) \<Rightarrow>
          (case decode_from (n + utf8_char_len c) rest of Inl e \<Rightarrow> Inl e | Inr s \<Rightarrow> Inr (c # s)))"
  by pat_completeness auto
termination
  by (relation "measure (\<lambda>(n, bs). length bs)") (auto dest!: next_char_shorter)

definition from_utf8 :: "nat list \<Rightarrow> utf8_error + rstr" where
  "from_utf8 bs = decode_from 0 bs"

section \<open>Round trip\<close>

lemma div_mod_digits:
  fixes c :: nat
  shows "c div 64 * 64 + c mod 64 = c"
    and "c div 4096 * 4096 + c div 64 mod 64 * 64 + c mod 64 = c"
    and "c div 262144 * 262144 + c div 4096 mod 64 * 4096 + c div 64 mod 64 * 64 + c mod 64 = c"
proof -
  show d: "x div 64 * 64 + x mod 64 = x" for x :: nat by simp
  have e: "c div 64 div 64 = c div 4096" "c div 4096 div 64 = c div 262144"
    by (simp_all add: div_mult2_eq [symmetric])
  show t: "c div 4096 * 4096 + c div 64 mod 64 * 64 + c mod 64 = c"
    using d [of c] d [of "c div 64"] e by linarith
  show "c div 262144 * 262144 + c div 4096 mod 64 * 4096 + c div 64 mod 64 * 64 + c mod 64 = c"
    using t d [of "c div 4096"] e by linarith
qed

lemma second_ok_encoded:
  assumes "is_scalar c"
  shows "2048 \<le> c \<Longrightarrow> c < 65536 \<Longrightarrow> second_ok (224 + c div 4096) (128 + c div 64 mod 64)"
    and "65536 \<le> c \<Longrightarrow> second_ok (240 + c div 262144) (128 + c div 4096 mod 64)"
proof -
  define a q r where "a = c div 4096" and "q = c div 64 mod 64" and "r = c mod 64"
  have c: "c = a * 4096 + q * 64 + r" and b: "q < 64" "r < 64"
    using div_mod_digits(2) [of c] by (simp_all add: a_def q_def r_def)
  show "second_ok (224 + c div 4096) (128 + c div 64 mod 64)" if "2048 \<le> c" "c < 65536"
  proof -
    have "160 \<le> 128 + q" if "a = 0" using that c b \<open>2048 \<le> c\<close> by simp
    moreover have "128 + q < 160" if "a = 13"
      using that c b assms \<open>c < 65536\<close> by (auto simp: is_scalar_def)
    moreover have "a < 16" using c \<open>c < 65536\<close> by simp
    ultimately show ?thesis using b(1)
      by (auto simp: second_ok_def is_cont_def simp flip: a_def q_def)
  qed
  define d e where "d = c div 262144" and "e = c div 4096 mod 64"
  have c': "c = d * 262144 + e * 4096 + q * 64 + r" and b': "e < 64"
    using div_mod_digits(3) [of c] by (simp_all add: d_def e_def q_def r_def)
  show "second_ok (240 + c div 262144) (128 + c div 4096 mod 64)" if "65536 \<le> c"
  proof -
    have "144 \<le> 128 + e" if "d = 0" using that c' b \<open>65536 \<le> c\<close> by simp
    moreover have "128 + e < 144" if "d = 4" using that c' assms by (auto simp: is_scalar_def)
    ultimately show ?thesis using b'
      by (auto simp: second_ok_def is_cont_def simp flip: d_def e_def)
  qed
qed

lemma is_cont_mod [simp]: "is_cont (128 + x mod 64)"
  by (simp add: is_cont_def)

lemma next_char_encode:
  assumes "is_scalar c" and "encode_char c = b # bs"
  shows "next_char b (bs @ rest) = Inr (c, rest)"
proof -
  consider "c < 128" | "128 \<le> c" "c < 2048" | "2048 \<le> c" "c < 65536" | "65536 \<le> c" by linarith
  then show ?thesis
  proof cases
    case 1
    with assms show ?thesis by (simp add: encode_char_def next_char_def)
  next
    case 2
    then have "2 \<le> c div 64" "c div 64 < 32" by (simp_all add: less_eq_div_iff_mult_less_eq div_less_iff_less_mult)
    with 2 assms(2) div_mod_digits(1) [of c] show ?thesis
      by (auto simp: encode_char_def next_char_def)
  next
    case 3
    then have "c div 4096 < 16" by (simp add: div_less_iff_less_mult)
    with 3 assms(2) div_mod_digits(2) [of c] second_ok_encoded(1) [OF assms(1)] show ?thesis
      by (auto simp: encode_char_def next_char_def)
  next
    case 4
    then have "c div 262144 < 5" using assms(1)
      by (simp add: div_less_iff_less_mult is_scalar_def)
    with 4 assms(2) div_mod_digits(3) [of c] second_ok_encoded(2) [OF assms(1)] show ?thesis
      by (auto simp: encode_char_def next_char_def)
  qed
qed

lemma encode_char_Cons: "\<exists>b bs. encode_char c = b # bs"
  by (simp add: encode_char_def)

lemma decode_from_encode:
  assumes "is_scalar c"
  shows "decode_from n (encode_char c @ rest) =
    (case decode_from (n + utf8_char_len c) rest of Inl e \<Rightarrow> Inl e | Inr s \<Rightarrow> Inr (c # s))"
proof -
  obtain b bs where "encode_char c = b # bs" using encode_char_Cons by blast
  with next_char_encode [OF assms this] show ?thesis by simp
qed

lemma from_utf8_bytes: "\<forall>c \<in> set s. is_scalar c \<Longrightarrow> decode_from n (utf8_bytes s) = Inr s"
  by (induction s arbitrary: n) (simp_all add: decode_from_encode)

section \<open>A cut text\<close>

lemma next_char_cut:
  assumes "is_scalar c" and "0 < k" and "k < utf8_char_len c"
    and "take k (encode_char c) = b # bs"
  shows "next_char b bs = Inl None"
proof -
  consider "c < 128" | "128 \<le> c" "c < 2048" | "2048 \<le> c" "c < 65536" | "65536 \<le> c" by linarith
  then show ?thesis
  proof cases
    case 1
    with assms show ?thesis by (simp add: utf8_char_len_def)
  next
    case 2
    then have d: "2 \<le> c div 64" "c div 64 < 32"
      by (simp_all add: less_eq_div_iff_mult_less_eq div_less_iff_less_mult)
    from 2 assms have "k = 1" by (simp add: utf8_char_len_def)
    with 2 d assms(4) show ?thesis by (auto simp: encode_char_def next_char_def)
  next
    case 3
    then have d: "c div 4096 < 16" by (simp add: div_less_iff_less_mult)
    from 3 assms have "k = 1 \<or> k = 2" by (auto simp: utf8_char_len_def)
    with 3 d assms(4) second_ok_encoded(1) [OF assms(1)] show ?thesis
      by (auto simp: encode_char_def next_char_def numeral_2_eq_2)
  next
    case 4
    then have d: "c div 262144 < 5" using assms(1)
      by (simp add: div_less_iff_less_mult is_scalar_def)
    from 4 assms have "k = 1 \<or> k = 2 \<or> k = 3" by (auto simp: utf8_char_len_def)
    with 4 d assms(4) second_ok_encoded(2) [OF assms(1)] show ?thesis
      by (auto simp: encode_char_def next_char_def numeral_2_eq_2 numeral_3_eq_3)
  qed
qed

text \<open>Decoding the first \<open>k\<close> bytes of a text: either they end at a character, or the error is that
  the input ends too soon, fewer than four bytes after a character.\<close>

definition cut_result :: "nat \<Rightarrow> nat list \<Rightarrow> rstr \<Rightarrow> utf8_error + rstr \<Rightarrow> bool" where
  "cut_result n bs t r \<longleftrightarrow>
     (r = Inr t \<and> bs = utf8_bytes t)
   \<or> (r = Inl \<lparr>valid_up_to = n + utf8_len t, error_len = None\<rparr>
      \<and> take (utf8_len t) bs = utf8_bytes t \<and> length bs < utf8_len t + 4)"

lemma decode_cut:
  assumes "\<forall>c \<in> set s. is_scalar c"
  shows "\<exists>t u. s = t @ u \<and> cut_result n (take k (utf8_bytes s)) t (decode_from n (take k (utf8_bytes s)))"
  using assms
proof (induction s arbitrary: n k)
  case Nil
  then show ?case by (simp add: cut_result_def)
next
  case (Cons c s)
  then have c: "is_scalar c" by simp
  consider "k = 0" | "0 < k" "k < utf8_char_len c" | "utf8_char_len c \<le> k" by linarith
  then show ?case
  proof cases
    case 1
    then show ?thesis by (intro exI [of _ "[]"] exI [of _ "c # s"]) (simp add: cut_result_def)
  next
    case 2
    then have t: "take k (utf8_bytes (c # s)) = take k (encode_char c)" by simp
    from 2 obtain b bs where b: "take k (encode_char c) = b # bs"
      by (metis encode_char_Cons gr0_conv_Suc take_Suc_Cons)
    have "length (b # bs) < 4" using 2 utf8_char_len_bounds(2) [of c] by (simp flip: b)
    with next_char_cut [OF c 2 b] show ?thesis
      unfolding t b by (intro exI [of _ "[]"] exI [of _ "c # s"]) (simp add: cut_result_def)
  next
    case 3
    then have e: "take k (utf8_bytes (c # s)) = encode_char c @ take (k - utf8_char_len c) (utf8_bytes s)"
      by simp
    obtain t u where tu: "s = t @ u" and r: "cut_result (n + utf8_char_len c)
        (take (k - utf8_char_len c) (utf8_bytes s)) t
        (decode_from (n + utf8_char_len c) (take (k - utf8_char_len c) (utf8_bytes s)))"
      using Cons.IH [of "n + utf8_char_len c" "k - utf8_char_len c"] Cons.prems by auto
    have "cut_result n (take k (utf8_bytes (c # s))) (c # t) (decode_from n (take k (utf8_bytes (c # s))))"
      unfolding e decode_from_encode [OF c] using r by (auto simp: cut_result_def)
    with tu show ?thesis by (intro exI [of _ "c # t"] exI [of _ u]) simp
  qed
qed

end
