(* ===== verification/Router.thy ===== *)
theory Router
  imports Validate Utf8 "HOL-Library.Product_Lexorder"
begin

text \<open>
  \<open>crates/router/src/lib.rs\<close>: which pipeline runs a file (\<open>resolve\<close>, \<open>by_uid\<close>, \<open>all\<close>), what type
  a file has (\<open>detect_mime\<close>), the tables of canonical types, default indexes and task queues, and the
  fifteen built-in pipelines. A router is its list of pipelines. The crates \<open>infer\<close> and
  \<open>mime_guess\<close> and the JSON check of \<open>serde_json\<close> are arguments (\<open>infer_get\<close>, \<open>guess_ext\<close>,
  \<open>json_valid\<close>) of the definitions that call them.
\<close>

section \<open>Media types\<close>

definition MIME_PDF :: rstr where
  "MIME_PDF = lit ''application/pdf''"

definition MIME_DOCX :: rstr where
  "MIME_DOCX = lit ''application/vnd.openxmlformats-officedocument.wordprocessingml.document''"

definition MIME_DOC :: rstr where
  "MIME_DOC = lit ''application/msword''"

definition MIME_XLSX :: rstr where
  "MIME_XLSX = lit ''application/vnd.openxmlformats-officedocument.spreadsheetml.sheet''"

definition MIME_XLS :: rstr where
  "MIME_XLS = lit ''application/vnd.ms-excel''"

definition MIME_PPTX :: rstr where
  "MIME_PPTX = lit ''application/vnd.openxmlformats-officedocument.presentationml.presentation''"

definition MIME_PPT :: rstr where
  "MIME_PPT = lit ''application/vnd.ms-powerpoint''"

definition MIME_HTML :: rstr where
  "MIME_HTML = lit ''text/html''"

definition MIME_TEXT :: rstr where
  "MIME_TEXT = lit ''text/plain''"

definition MIME_MARKDOWN :: rstr where
  "MIME_MARKDOWN = lit ''text/markdown''"

definition MIME_X_MARKDOWN :: rstr where
  "MIME_X_MARKDOWN = lit ''text/x-markdown''"

definition MIME_CSV :: rstr where
  "MIME_CSV = lit ''text/csv''"

definition MIME_JSON :: rstr where
  "MIME_JSON = lit ''application/json''"

definition MIME_PARQUET :: rstr where
  "MIME_PARQUET = lit ''application/vnd.apache.parquet''"

definition MIME_AVRO :: rstr where
  "MIME_AVRO = lit ''application/vnd.apache.avro''"

definition MIME_MSGPACK :: rstr where
  "MIME_MSGPACK = lit ''application/vnd.msgpack''"

definition MIME_YAML :: rstr where
  "MIME_YAML = lit ''application/yaml''"

definition MIME_ZIP :: rstr where
  "MIME_ZIP = lit ''application/zip''"

definition MIME_GZIP :: rstr where
  "MIME_GZIP = lit ''application/gzip''"

definition MIME_TAR :: rstr where
  "MIME_TAR = lit ''application/x-tar''"

definition MIME_WAV :: rstr where
  "MIME_WAV = lit ''audio/wav''"

definition MIME_MP3 :: rstr where
  "MIME_MP3 = lit ''audio/mpeg''"

definition MIME_M4A :: rstr where
  "MIME_M4A = lit ''audio/mp4''"

definition MIME_OGG :: rstr where
  "MIME_OGG = lit ''audio/ogg''"

definition MIME_FLAC :: rstr where
  "MIME_FLAC = lit ''audio/flac''"

definition MIME_MKV :: rstr where
  "MIME_MKV = lit ''video/x-matroska''"

lemmas mime_consts = MIME_PDF_def MIME_DOCX_def MIME_DOC_def MIME_XLSX_def MIME_XLS_def MIME_PPTX_def MIME_PPT_def MIME_HTML_def MIME_TEXT_def MIME_MARKDOWN_def MIME_X_MARKDOWN_def MIME_CSV_def MIME_JSON_def MIME_PARQUET_def MIME_AVRO_def MIME_MSGPACK_def MIME_YAML_def MIME_ZIP_def MIME_GZIP_def MIME_TAR_def MIME_WAV_def MIME_MP3_def MIME_M4A_def MIME_OGG_def MIME_FLAC_def MIME_MKV_def

definition OCTET_STREAM :: rstr where
  "OCTET_STREAM = lit ''application/octet-stream''"

definition SNIFF_LEN :: nat where
  "SNIFF_LEN = 512"

definition canonical_mime :: "rstr \<Rightarrow> rstr" where
  "canonical_mime m =
     (if m \<in> lit ` {''audio/x-wav'', ''audio/wave'', ''audio/vnd.wave'', ''audio/x-pn-wav'', ''audio/wav-x''}
        then MIME_WAV
      else if m \<in> lit ` {''audio/mp3'', ''audio/x-mpeg'', ''audio/mpeg3'', ''audio/x-mp3''} then MIME_MP3
      else if m \<in> lit ` {''audio/m4a'', ''audio/x-m4a'', ''audio/mp4a-latm'', ''audio/aac'', ''audio/x-aac''}
        then MIME_M4A
      else if m = lit ''audio/x-flac'' then MIME_FLAC
      else if m \<in> lit ` {''audio/vorbis'', ''audio/x-ogg'', ''application/ogg''} then MIME_OGG
      else if m = lit ''video/x-quicktime'' then lit ''video/quicktime''
      else if m \<in> lit ` {''video/matroska'', ''video/x-mkv''} then MIME_MKV
      else if m = lit ''image/jpg'' then lit ''image/jpeg''
      else if m \<in> lit ` {''text/x-csv'', ''application/csv''} then MIME_CSV
      else if m \<in> lit ` {''application/x-parquet'', ''application/parquet'',
                         ''application/vnd.apache.parquet1''} then MIME_PARQUET
      else if m \<in> lit ` {''application/avro'', ''avro/binary'', ''application/x-avro'',
                         ''application/avro-binary''} then MIME_AVRO
      else if m \<in> lit ` {''application/x-msgpack'', ''application/msgpack'', ''application/x-messagepack''}
        then MIME_MSGPACK
      else if m \<in> lit ` {''application/x-zip-compressed'', ''application/x-zip'', ''multipart/x-zip''}
        then MIME_ZIP
      else if m \<in> lit ` {''application/x-gzip'', ''application/gzip-compressed'', ''application/x-gtar'',
                         ''application/x-tgz'', ''application/x-compressed''} then MIME_GZIP
      else if m = lit ''application/tar'' then MIME_TAR
      else m)"

definition is_archive :: "rstr \<Rightarrow> bool" where
  "is_archive m \<longleftrightarrow> m = MIME_ZIP \<or> m = MIME_GZIP \<or> m = MIME_TAR"

section \<open>The router\<close>

record route_request =
  rq_mime :: rstr
  rq_filename :: "rstr option"
  rq_tenant_id :: "rstr option"

record route_match =
  rm_pipeline :: pipeline_definition
  rm_index_pattern :: "rstr option"

definition tier :: "pipeline_definition \<Rightarrow> nat" where
  "tier p = (if pl_builtin p then 2 else if pl_tenant_id p \<noteq> None then 0 else 1)"

definition visible_to :: "pipeline_definition \<Rightarrow> rstr option \<Rightarrow> bool" where
  "visible_to p tenant = (case pl_tenant_id p of None \<Rightarrow> True | Some owner \<Rightarrow> Some owner = tenant)"

definition has_pattern :: "pipeline_definition \<Rightarrow> bool" where
  "has_pattern p \<longleftrightarrow> Option.bind (pl_trigger p) filename_pattern \<noteq> None"

definition resolve_key :: "nat \<times> pipeline_definition \<Rightarrow> nat \<times> nat \<times> nat" where
  "resolve_key = (\<lambda>(i, p). (tier p, if has_pattern p then 0 else 1, i))"

definition resolve :: "pipeline_definition list \<Rightarrow> route_request \<Rightarrow> route_match option" where
  "resolve ps req =
     map_option (\<lambda>(_, p). \<lparr>rm_pipeline = p, rm_index_pattern = Option.bind (pl_trigger p) index_pattern\<rparr>)
       (min_by_key resolve_key
          (filter (\<lambda>(_, p). trigger_matches p (rq_mime req) (rq_filename req))
             (filter (\<lambda>(_, p). visible_to p (rq_tenant_id req)) (enumerated ps))))"

definition by_uid :: "pipeline_definition list \<Rightarrow> rstr \<Rightarrow> rstr option \<Rightarrow> pipeline_definition option" where
  "by_uid ps uid tenant =
     map_option snd (min_by_key (\<lambda>(i, p). (tier p, i))
       (filter (\<lambda>(_, p). pl_uid p = uid \<and> visible_to p tenant) (enumerated ps)))"

definition all_pipelines :: "pipeline_definition list \<Rightarrow> rstr option \<Rightarrow> pipeline_definition list" where
  "all_pipelines ps tenant =
     (let visible = filter (\<lambda>p. visible_to p tenant) ps
      in filter (\<lambda>p. pl_tenant_id p \<noteq> None
           \<or> \<not> list_ex (\<lambda>q. pl_tenant_id q \<noteq> None \<and> pl_uid q = pl_uid p) visible) visible)"

section \<open>Tables\<close>

definition mime_to_default_index :: "rstr \<Rightarrow> rstr" where
  "mime_to_default_index m =
     (let e = mime_essence m in
      if starts_with e (lit ''video/'') then lit ''videos''
      else if starts_with e (lit ''audio/'') then lit ''audio''
      else if starts_with e (lit ''image/'') then lit ''images''
      else if e = MIME_HTML then lit ''pages''
      else if e = MIME_CSV \<or> e = MIME_PARQUET \<or> e = MIME_AVRO then lit ''datasets''
      else lit ''documents'')"

definition plugin_task_queue :: "rstr \<Rightarrow> rstr" where
  "plugin_task_queue plugin =
     (if plugin = lit ''s3_downloader'' then lit ''workers-io'' else lit ''workers-general'')"

section \<open>Detection\<close>

definition mapped_extension :: "rstr \<Rightarrow> rstr option" where
  "mapped_extension ext =
     (if ext = lit ''md'' \<or> ext = lit ''markdown'' then Some MIME_MARKDOWN
      else if ext = lit ''yaml'' \<or> ext = lit ''yml'' then Some MIME_YAML
      else if ext = lit ''json'' then Some MIME_JSON
      else if ext = lit ''csv'' then Some MIME_CSV
      else if ext = lit ''parquet'' then Some MIME_PARQUET
      else if ext = lit ''avro'' then Some MIME_AVRO
      else if ext = lit ''msgpack'' \<or> ext = lit ''mpk'' then Some MIME_MSGPACK
      else if ext = lit ''txt'' \<or> ext = lit ''text'' \<or> ext = lit ''log'' then Some MIME_TEXT
      else if ext = lit ''htm'' \<or> ext = lit ''html'' then Some MIME_HTML
      else None)"

definition mime_from_extension :: "(rstr \<Rightarrow> rstr option) \<Rightarrow> rstr \<Rightarrow> rstr option" where
  "mime_from_extension guess_ext filename =
     (case rsplit_once 46 (rsplit_first (\<lambda>c. c = 47 \<or> c = 92) filename) of
        None \<Rightarrow> None
      | Some (_, ext) \<Rightarrow>
          let ext = to_ascii_lowercase ext
          in if ext = [] then None
             else (case mapped_extension ext of Some m \<Rightarrow> Some m | None \<Rightarrow> guess_ext ext))"

definition magic_record_format :: "nat list \<Rightarrow> rstr option" where
  "magic_record_format data =
     (if 8 \<le> length data \<and> starts_with data (lit ''PAR1'') \<and> ends_with data (lit ''PAR1'')
        then Some MIME_PARQUET
      else if starts_with data (lit ''Obj'' @ [1]) then Some MIME_AVRO
      else None)"

definition is_zip_based_office :: "rstr \<Rightarrow> bool" where
  "is_zip_based_office m \<longleftrightarrow> m = MIME_DOCX \<or> m = MIME_XLSX \<or> m = MIME_PPTX
     \<or> starts_with m (lit ''application/vnd.openxmlformats-officedocument.'')
     \<or> starts_with m (lit ''application/vnd.oasis.opendocument.'')"

definition stray_control :: "rchar \<Rightarrow> bool" where
  "stray_control c \<longleftrightarrow> is_control c \<and> \<not> (c = 9 \<or> c = 10 \<or> c = 13 \<or> c = 12)"

definition sniff_text :: "nat list \<Rightarrow> rstr option" where
  "sniff_text head =
     (case from_utf8 head of
        Inr s \<Rightarrow> Some s
      | Inl e \<Rightarrow> if error_len e = None \<and> 0 < valid_up_to e
          then (case from_utf8 (take (valid_up_to e) head) of Inr s \<Rightarrow> Some s | Inl _ \<Rightarrow> None)
          else None)"

definition sniff_utf8 :: "nat list \<Rightarrow> rstr option" where
  "sniff_utf8 data =
     (if data = [] then None
      else (case sniff_text (take (min (length data) SNIFF_LEN) data) of
              None \<Rightarrow> None
            | Some text \<Rightarrow> if list_ex stray_control text then None else Some text))"

definition classify_text :: "(nat list \<Rightarrow> bool) \<Rightarrow> rstr \<Rightarrow> nat list \<Rightarrow> rstr" where
  "classify_text json_valid head full =
     (let trimmed = trim_start_matches (\<lambda>c. c = 65279 \<or> c = 32 \<or> c = 9 \<or> c = 10 \<or> c = 13) head in
      if (starts_with trimmed [123] \<or> starts_with trimmed [91]) \<and> json_valid full then MIME_JSON
      else let lower = to_ascii_lowercase (take 32 trimmed) in
           if starts_with lower (lit ''<!doctype html'') \<or> starts_with lower (lit ''<html'')
             then MIME_HTML else MIME_TEXT)"

definition usable_hint :: "rstr \<Rightarrow> rstr option" where
  "usable_hint hint =
     (let e = mime_essence hint in
      if e = [] \<or> e = OCTET_STREAM \<or> starts_with e (lit ''multipart/'') \<or> 47 \<notin> set e
        then None else Some e)"

definition detect_mime_raw ::
  "(nat list \<Rightarrow> rstr option) \<Rightarrow> (rstr \<Rightarrow> rstr option) \<Rightarrow> (nat list \<Rightarrow> bool)
   \<Rightarrow> nat list \<Rightarrow> rstr option \<Rightarrow> rstr option \<Rightarrow> rstr" where
  "detect_mime_raw infer_get guess_ext json_valid data filename hint =
     (let from_ext = Option.bind filename (mime_from_extension guess_ext) in
      case magic_record_format data of Some magic \<Rightarrow> magic
      | None \<Rightarrow>
     (case infer_get data of
        Some magic \<Rightarrow>
          (case from_ext of
             Some ext \<Rightarrow> if magic = MIME_ZIP \<and> is_zip_based_office ext then ext else magic
           | None \<Rightarrow> magic)
      | None \<Rightarrow>
     (case from_ext of Some ext \<Rightarrow> ext
      | None \<Rightarrow>
     (case sniff_utf8 data of Some text \<Rightarrow> classify_text json_valid text data
      | None \<Rightarrow>
     (case Option.bind hint usable_hint of Some h \<Rightarrow> h
      | None \<Rightarrow> OCTET_STREAM)))))"

definition detect_mime ::
  "(nat list \<Rightarrow> rstr option) \<Rightarrow> (rstr \<Rightarrow> rstr option) \<Rightarrow> (nat list \<Rightarrow> bool)
   \<Rightarrow> nat list \<Rightarrow> rstr option \<Rightarrow> rstr option \<Rightarrow> rstr" where
  "detect_mime infer_get guess_ext json_valid data filename hint =
     canonical_mime (detect_mime_raw infer_get guess_ext json_valid data filename hint)"

section \<open>Built-in pipelines\<close>

definition default_chunker_config :: json where
  "default_chunker_config = json_obj [(lit ''strategy'', JString (lit ''sentence'')),
     (lit ''chunk_size'', JNumber (JInt 512)), (lit ''overlap'', JNumber (JInt 64))]"

definition INDEX_STEP_TIMEOUT_SECS :: u64 where
  "INDEX_STEP_TIMEOUT_SECS = 1800"

definition builtin_step :: "string \<Rightarrow> rstr \<Rightarrow> step_definition" where
  "builtin_step i plugin = (new_step (lit i) plugin)\<lparr>step_retry := Some default_retry\<rparr>"

definition chunk_step :: step_definition where
  "chunk_step = (builtin_step ''chunk'' (lit ''chunker''))\<lparr>step_config := default_chunker_config\<rparr>"

definition index_step :: step_definition where
  "index_step = (builtin_step ''index'' INDEXER_PLUGIN)\<lparr>timeout_secs := Some INDEX_STEP_TIMEOUT_SECS\<rparr>"

definition builtin_pipeline ::
  "string \<Rightarrow> string \<Rightarrow> string \<Rightarrow> rstr list \<Rightarrow> step_definition list \<Rightarrow> pipeline_definition" where
  "builtin_pipeline suffix name description types steps =
     normalize \<lparr>pl_uid = lit ''builtin.'' @ lit suffix, pl_name = lit name,
       pl_description = Some (lit description), pl_version = 1,
       pl_trigger = Some \<lparr>content_types = types, filename_pattern = None, index_pattern = None\<rparr>,
       pl_steps = steps, pl_builtin = True, pl_tenant_id = None\<rparr>"

definition builtin_pipelines :: "pipeline_definition list" where
  "builtin_pipelines =
    [builtin_pipeline ''pdf'' ''PDF'' ''Extract text per page, chunk, index.'' [MIME_PDF]
       [builtin_step ''extract'' (lit ''pdf_extractor''), chunk_step, index_step],
     builtin_pipeline ''word'' ''Word'' ''Extract text from Word documents, chunk, index.''
       [MIME_DOCX, MIME_DOC]
       [builtin_step ''extract'' (lit ''docx_extractor''), chunk_step, index_step],
     builtin_pipeline ''excel'' ''Excel'' ''One document per spreadsheet row, index.''
       [MIME_XLSX, MIME_XLS] [builtin_step ''extract'' (lit ''xlsx_extractor''), index_step],
     builtin_pipeline ''powerpoint'' ''PowerPoint'' ''Extract slide text, index.''
       [MIME_PPTX] [builtin_step ''extract'' (lit ''pptx_extractor''), index_step],
     builtin_pipeline ''html'' ''HTML'' ''Extract readable text from HTML, chunk, index.'' [MIME_HTML]
       [builtin_step ''extract'' (lit ''html_extractor''), chunk_step, index_step],
     builtin_pipeline ''text'' ''Plain text'' ''Chunk plain text, index.'' [MIME_TEXT]
       [chunk_step, index_step],
     builtin_pipeline ''markdown'' ''Markdown'' ''Split Markdown on headings, index.''
       [MIME_MARKDOWN, MIME_X_MARKDOWN] [builtin_step ''extract'' (lit ''markdown_extractor''), index_step],
     builtin_pipeline ''csv'' ''CSV'' ''One document per CSV row, index.'' [MIME_CSV]
       [builtin_step ''extract'' (lit ''csv_parser''), index_step],
     builtin_pipeline ''json'' ''JSON'' ''Flatten JSON into documents, index.'' [MIME_JSON]
       [builtin_step ''extract'' (lit ''json_flattener''), index_step],
     builtin_pipeline ''parquet'' ''Parquet'' ''One document per Parquet row, index.'' [MIME_PARQUET]
       [builtin_step ''extract'' (lit ''parquet_parser''), index_step],
     builtin_pipeline ''avro'' ''Avro'' ''One document per Avro record, index.'' [MIME_AVRO]
       [builtin_step ''extract'' (lit ''avro_parser''), index_step],
     builtin_pipeline ''msgpack'' ''MessagePack'' ''Decode MessagePack into documents, index.''
       [MIME_MSGPACK] [builtin_step ''extract'' (lit ''msgpack_parser''), index_step],
     builtin_pipeline ''image'' ''Image'' ''Caption the image with a vision model, index.''
       [lit ''image/jpeg'', lit ''image/png'', lit ''image/webp'', lit ''image/gif'']
       [(builtin_step ''caption'' (lit ''image_captioner''))\<lparr>timeout_secs := Some 600\<rparr>, index_step],
     builtin_pipeline ''audio'' ''Audio'' ''Transcribe audio with Whisper, index.''
       [lit ''audio/mpeg'', lit ''audio/wav'', lit ''audio/ogg'', lit ''audio/mp4'', lit ''audio/flac'']
       [(builtin_step ''transcribe'' (lit ''whisper_transcriber''))\<lparr>timeout_secs := Some 3600\<rparr>, index_step],
     builtin_pipeline ''video'' ''Video'' ''Extract the audio track, transcribe with Whisper, index.''
       [lit ''video/mp4'', lit ''video/quicktime'', lit ''video/webm'', lit ''video/x-matroska'']
       [(builtin_step ''extract_audio'' (lit ''video_audio_extractor''))\<lparr>timeout_secs := Some 1800\<rparr>,
        (builtin_step ''transcribe'' (lit ''whisper_transcriber''))\<lparr>timeout_secs := Some 3600\<rparr>,
        index_step]]"

section \<open>Selection\<close>

text \<open>\<open>enumerate\<close> with the position as the last key is a stable minimum: positions decide ties, and
  the first of the best elements wins.\<close>

lemma min_by_key_enum_from:
  fixes k :: "'a \<Rightarrow> 'k::linorder" and K :: "nat \<times> 'a \<Rightarrow> 'm::linorder"
  assumes K: "\<And>i j x y. K (i, x) \<le> K (j, y) \<longleftrightarrow> k x < k y \<or> (k x = k y \<and> i \<le> j)"
  shows "map_option snd (min_by_key K (filter (\<lambda>(_, x). P x) (zip [n..<n + length xs] xs)))
       = min_by_key k (filter P xs)"
proof (induction xs arbitrary: n)
  case Nil
  then show ?case by simp
next
  case (Cons x xs)
  let ?f = "filter (\<lambda>(_, x). P x) (zip [Suc n..<Suc n + length xs] xs)"
  have IH: "map_option snd (min_by_key K ?f) = min_by_key k (filter P xs)"
    by (rule Cons.IH)
  have step: "filter (\<lambda>(_, x). P x) (zip [n..<n + length (x # xs)] (x # xs))
      = (if P x then [(n, x)] else []) @ ?f"
    by (simp add: upt_conv_Cons del: upt_Suc)
  show ?case
  proof (cases "P x")
    case False
    then show ?thesis unfolding step using IH by simp
  next
    case True
    show ?thesis
    proof (cases "min_by_key K ?f")
      case None
      then have "min_by_key k (filter P xs) = None" using IH by simp
      with None True show ?thesis unfolding step by simp
    next
      case (Some m)
      obtain j y where m: "m = (j, y)" by (cases m)
      from min_by_key_in [OF Some] have "n < j" by (auto simp: m simp del: upt_Suc dest: set_zip_leftD)
      then have "K (n, x) \<le> K m \<longleftrightarrow> k x \<le> k y" by (auto simp: K m)
      moreover have "min_by_key k (filter P xs) = Some y" using IH Some by (simp add: m)
      ultimately show ?thesis unfolding step using True Some by (simp add: m)
    qed
  qed
qed

lemma min_by_key_enumerated:
  fixes k :: "'a \<Rightarrow> 'k::linorder" and K :: "nat \<times> 'a \<Rightarrow> 'm::linorder"
  assumes "\<And>i j x y. K (i, x) \<le> K (j, y) \<longleftrightarrow> k x < k y \<or> (k x = k y \<and> i \<le> j)"
  shows "map_option snd (min_by_key K (filter (\<lambda>(_, x). P x) (enumerated xs)))
       = min_by_key k (filter P xs)"
  using min_by_key_enum_from [OF assms, of P 0 xs] by (simp add: enumerated_def)

definition matching :: "route_request \<Rightarrow> pipeline_definition \<Rightarrow> bool" where
  "matching req p \<longleftrightarrow> visible_to p (rq_tenant_id req) \<and> trigger_matches p (rq_mime req) (rq_filename req)"

definition rank :: "pipeline_definition \<Rightarrow> nat \<times> nat" where
  "rank p = (tier p, if has_pattern p then 0 else 1)"

definition matched :: "pipeline_definition \<Rightarrow> route_match" where
  "matched p = \<lparr>rm_pipeline = p, rm_index_pattern = Option.bind (pl_trigger p) index_pattern\<rparr>"

lemma filter_matching:
  "filter (\<lambda>(_, p). trigger_matches p (rq_mime req) (rq_filename req))
     (filter (\<lambda>(_, p). visible_to p (rq_tenant_id req)) ips) = filter (\<lambda>(_, p). matching req p) ips"
  by (simp add: matching_def case_prod_unfold conj_commute)

lemma resolve_alt: "resolve ps req = map_option matched (min_by_key rank (filter (matching req) ps))"
proof -
  have "resolve_key (i, p) \<le> resolve_key (j, q) \<longleftrightarrow> rank p < rank q \<or> (rank p = rank q \<and> i \<le> j)" for i j p q
    by (auto simp: resolve_key_def rank_def less_eq_prod_def less_prod_def)
  from min_by_key_enumerated [where K = resolve_key and k = rank, OF this, of "matching req" ps]
  have e: "min_by_key rank (filter (matching req) ps)
      = map_option snd (min_by_key resolve_key (filter (\<lambda>(_, p). matching req p) (enumerated ps)))" by simp
  show ?thesis
    unfolding e resolve_def filter_matching
    by (simp add: matched_def option.map_comp comp_def case_prod_unfold)
qed

lemma by_uid_alt:
  "by_uid ps uid tenant = min_by_key tier (filter (\<lambda>p. pl_uid p = uid \<and> visible_to p tenant) ps)"
  unfolding by_uid_def by (rule min_by_key_enumerated) (auto simp: less_eq_prod_def less_prod_def)

text \<open>C8. The pipeline that runs a file is visible to the tenant and its trigger matches, and no other
  such pipeline has a better tier (tenant, global, built-in), or the same tier and a filename pattern
  where it has none, or the same of both and an earlier position.\<close>

theorem resolve_precedence:
  assumes "resolve ps req = Some m"
  shows "\<exists>i < length ps. m = matched (ps ! i) \<and> matching req (ps ! i)
    \<and> (\<forall>j < length ps. matching req (ps ! j) \<longrightarrow>
         rank (ps ! i) < rank (ps ! j) \<or> (rank (ps ! i) = rank (ps ! j) \<and> i \<le> j))"
proof -
  let ?f = "filter (\<lambda>(_, p). matching req p) (enumerated ps)"
  from assms obtain i p where min: "min_by_key resolve_key ?f = Some (i, p)" and m: "m = matched p"
    unfolding resolve_def filter_matching by (auto simp: matched_def)
  from min_by_key_in [OF min] have i: "i < length ps" "ps ! i = p" "matching req p"
    by (simp_all add: in_enumerated)
  have "rank p < rank (ps ! j) \<or> (rank p = rank (ps ! j) \<and> i \<le> j)"
    if "j < length ps" "matching req (ps ! j)" for j
  proof -
    have "(j, ps ! j) \<in> set ?f" using that by (simp add: in_enumerated)
    from min_by_key_le [OF min this] show ?thesis
      by (auto simp: resolve_key_def rank_def less_eq_prod_def less_prod_def)
  qed
  with i m show ?thesis by blast
qed

text \<open>A file finds no pipeline only when no pipeline visible to the tenant has a trigger for it.\<close>

theorem resolve_none_iff:
  "(resolve ps req = None) = (\<not> list_ex (matching req) ps)"
  by (simp add: resolve_alt filter_empty_conv list_ex_iff)

text \<open>C9. The pipelines of other tenants change nothing: routing, lookup by uid and listing give
  the same answer when they are removed from the router.\<close>

theorem tenant_isolation:
  "resolve ps req = resolve (filter (\<lambda>p. visible_to p (rq_tenant_id req)) ps) req
   \<and> by_uid ps uid tenant = by_uid (filter (\<lambda>p. visible_to p tenant) ps) uid tenant
   \<and> all_pipelines ps tenant = all_pipelines (filter (\<lambda>p. visible_to p tenant) ps) tenant"
proof -
  have "matching req p \<longleftrightarrow> visible_to p (rq_tenant_id req) \<and> matching req p" for p
    by (auto simp: matching_def)
  then have "filter (matching req) ps
      = filter (matching req) (filter (\<lambda>p. visible_to p (rq_tenant_id req)) ps)"
    by (metis (mono_tags, lifting) filter_cong filter_filter)
  moreover have "filter (\<lambda>p. pl_uid p = uid \<and> visible_to p tenant) ps
      = filter (\<lambda>p. pl_uid p = uid \<and> visible_to p tenant) (filter (\<lambda>p. visible_to p tenant) ps)"
    by (simp add: conj_commute cong: conj_cong)
  ultimately show ?thesis by (simp add: resolve_alt by_uid_alt all_pipelines_def)
qed

section \<open>Listing and lookup\<close>

definition consistent_store :: "pipeline_definition list \<Rightarrow> bool" where
  "consistent_store ps \<longleftrightarrow> distinct (map (\<lambda>p. (pl_uid p, pl_tenant_id p)) ps)
     \<and> list_all (\<lambda>p. pl_builtin p \<longrightarrow> pl_tenant_id p = None) ps"

lemma consistent_storeD:
  assumes "consistent_store ps" and "p \<in> set ps"
  shows "q \<in> set ps \<Longrightarrow> pl_uid p = pl_uid q \<Longrightarrow> pl_tenant_id p = pl_tenant_id q \<Longrightarrow> p = q"
    and "tier p = 0 \<longleftrightarrow> pl_tenant_id p \<noteq> None"
  using assms by (auto simp: consistent_store_def distinct_map inj_on_def list_all_iff tier_def)

lemma visible_tenant: "visible_to p t \<Longrightarrow> pl_tenant_id p \<noteq> None \<Longrightarrow> pl_tenant_id p = t"
  by (auto simp: visible_to_def)

text \<open>Where each owner has at most one pipeline of a uid, a tenant's listing holds exactly the
  pipelines that a lookup by uid can return to it.\<close>

theorem all_pipelines_by_uid:
  assumes "consistent_store ps"
  shows "p \<in> set (all_pipelines ps tenant) \<longleftrightarrow> by_uid ps (pl_uid p) tenant = Some p"
proof -
  let ?c = "filter (\<lambda>q. pl_uid q = pl_uid p \<and> visible_to q tenant) ps"
  note uniq = consistent_storeD(1) [OF assms] and tier0 = consistent_storeD(2) [OF assms]
  show ?thesis
  proof
    assume p: "p \<in> set (all_pipelines ps tenant)"
    then have ps: "p \<in> set ps" "visible_to p tenant" by (auto simp: all_pipelines_def)
    then have "min_by_key tier ?c \<noteq> None" by (auto simp: filter_empty_conv)
    then obtain q where q: "min_by_key tier ?c = Some q" by blast
    from min_by_key_in [OF q] have qs: "q \<in> set ps" "pl_uid q = pl_uid p" "visible_to q tenant" by auto
    have le: "tier q \<le> tier p" using min_by_key_le [OF q, of p] ps by simp
    have "pl_tenant_id q = pl_tenant_id p"
    proof (cases "pl_tenant_id p = None")
      case True
      with p qs show ?thesis by (auto simp: all_pipelines_def list_ex_iff)
    next
      case False
      with le tier0 [OF ps(1)] tier0 [OF qs(1)] have "pl_tenant_id q \<noteq> None" by simp
      with False visible_tenant ps(2) qs(3) show ?thesis by metis
    qed
    with uniq [OF ps(1) qs(1)] qs q show "by_uid ps (pl_uid p) tenant = Some p" by (simp add: by_uid_alt)
  next
    assume "by_uid ps (pl_uid p) tenant = Some p"
    then have m: "min_by_key tier ?c = Some p" by (simp add: by_uid_alt)
    from min_by_key_in [OF m] have ps: "p \<in> set ps" "visible_to p tenant" by auto
    have "pl_tenant_id p \<noteq> None" if "q \<in> set ps" "visible_to q tenant" "pl_tenant_id q \<noteq> None"
      "pl_uid q = pl_uid p" for q
      using min_by_key_le [OF m, of q] that tier0 [OF ps(1)] tier0 [OF that(1)] by simp
    with ps show "p \<in> set (all_pipelines ps tenant)"
      by (auto simp: all_pipelines_def list_ex_iff)
  qed
qed

section \<open>Types\<close>

definition canonical_types :: "rstr list" where
  "canonical_types = [MIME_WAV, MIME_MP3, MIME_M4A, MIME_FLAC, MIME_OGG, lit ''video/quicktime'', MIME_MKV,
     lit ''image/jpeg'', MIME_CSV, MIME_PARQUET, MIME_AVRO, MIME_MSGPACK, MIME_ZIP, MIME_GZIP, MIME_TAR]"

lemma canonical_types_fixed: "list_all (\<lambda>m. canonical_mime m = m) canonical_types"
  by (simp add: canonical_types_def canonical_mime_def mime_consts)

lemma canonical_mime_cases: "canonical_mime m = m \<or> canonical_mime m \<in> set canonical_types"
  unfolding canonical_mime_def canonical_types_def by (simp del: image_insert)

text \<open>Canonicalising twice changes nothing more, so a detected type is its own canonical type.\<close>

theorem canonical_mime_idem:
  "canonical_mime (canonical_mime m) = canonical_mime m
   \<and> canonical_mime (detect_mime infer_get guess_ext json_valid data filename hint)
     = detect_mime infer_get guess_ext json_valid data filename hint"
proof -
  have "canonical_mime (canonical_mime m) = canonical_mime m" for m
    using canonical_mime_cases [of m] canonical_types_fixed by (auto simp: list_all_iff)
  then show ?thesis by (simp add: detect_mime_def)
qed

text \<open>The first 512 bytes of a text without stray control characters pass for text, also where the
  cut goes through a character.\<close>

lemma sniff_text_prefix:
  assumes "\<forall>c \<in> set s. is_scalar c" and "s \<noteq> []"
  shows "\<exists>t u. s = t @ u \<and> sniff_text (take SNIFF_LEN (utf8_bytes s)) = Some t"
proof -
  let ?bs = "take SNIFF_LEN (utf8_bytes s)"
  obtain t u where tu: "s = t @ u" and r: "cut_result 0 ?bs t (from_utf8 ?bs)"
    using decode_cut [OF assms(1)] unfolding from_utf8_def by blast
  have t: "from_utf8 (utf8_bytes t) = Inr t"
    using assms(1) tu by (auto simp: from_utf8_def from_utf8_bytes)
  from r consider "from_utf8 ?bs = Inr t"
    | "from_utf8 ?bs = Inl \<lparr>valid_up_to = utf8_len t, error_len = None\<rparr>"
      "take (utf8_len t) ?bs = utf8_bytes t" "length ?bs < utf8_len t + 4"
    by (auto simp: cut_result_def)
  then have "sniff_text ?bs = Some t"
  proof cases
    case 1
    then show ?thesis by (simp add: sniff_text_def)
  next
    case 2
    have "t \<noteq> []"
    proof
      assume "t = []"
      with 2(3) have "?bs = utf8_bytes s" by (auto simp: SNIFF_LEN_def min_def split: if_splits)
      with 2(1) assms(1) show False by (simp add: from_utf8_def from_utf8_bytes)
    qed
    then have "0 < utf8_len t" using utf8_len_ge [of t] by (metis length_greater_0_conv less_le_trans)
    with 2 t show ?thesis by (simp add: sniff_text_def)
  qed
  with tu show ?thesis by blast
qed

lemma sniff_utf8_prefix:
  assumes "\<forall>c \<in> set s. is_scalar c \<and> \<not> stray_control c" and "s \<noteq> []"
  shows "\<exists>t u. s = t @ u \<and> sniff_utf8 (utf8_bytes s) = Some t"
proof -
  obtain t u where t: "s = t @ u" "sniff_text (take SNIFF_LEN (utf8_bytes s)) = Some t"
    using sniff_text_prefix [of s] assms by blast
  have "utf8_bytes s \<noteq> []" using assms(2) utf8_len_ge [of s] length_utf8_bytes [of s]
    by (metis le_zero_eq length_0_conv)
  moreover have "take (min (length (utf8_bytes s)) SNIFF_LEN) (utf8_bytes s) = take SNIFF_LEN (utf8_bytes s)"
    by (simp add: min_def)
  moreover have "\<not> list_ex stray_control t" using assms(1) t(1) by (auto simp: list_ex_iff)
  ultimately have "sniff_utf8 (utf8_bytes s) = Some t" using t(2) by (simp add: sniff_utf8_def)
  with t(1) show ?thesis by blast
qed

text \<open>A text file of any length and language, without a name or a known signature, is detected
  as plain text, JSON or HTML: reading only its first 512 bytes never makes it unknown.\<close>

theorem detect_text_file:
  assumes "\<forall>c \<in> set s. is_scalar c \<and> \<not> stray_control c" and "s \<noteq> []"
    and "magic_record_format (utf8_bytes s) = None" and "infer_get (utf8_bytes s) = None"
  shows "detect_mime infer_get guess_ext json_valid (utf8_bytes s) None hint
    \<in> {MIME_TEXT, MIME_JSON, MIME_HTML}"
proof -
  obtain t where t: "sniff_utf8 (utf8_bytes s) = Some t"
    using sniff_utf8_prefix [OF assms(1,2)] by blast
  have c: "canonical_mime m = m" if "m \<in> {MIME_TEXT, MIME_JSON, MIME_HTML}" for m
    using that unfolding canonical_mime_def by (auto simp: mime_consts)
  have "classify_text json_valid t (utf8_bytes s) \<in> {MIME_TEXT, MIME_JSON, MIME_HTML}"
    by (simp add: classify_text_def Let_def)
  with assms(3,4) t c show ?thesis by (simp add: detect_mime_def detect_mime_raw_def Let_def)
qed

definition clean_type :: "rstr \<Rightarrow> bool" where
  "clean_type m \<longleftrightarrow> to_ascii_lowercase (trim m) = m \<and> m \<noteq> lit ''*/*'' \<and> m \<noteq> lit ''*''
     \<and> strip_suffix m (lit ''/*'') = None"

lemma mime_matches_clean: "clean_type ct \<Longrightarrow> mime_matches ct m \<longleftrightarrow> mime_essence m = ct"
  by (auto simp: mime_matches_def clean_type_def Let_def)

definition declared_types :: "pipeline_definition \<Rightarrow> rstr list" where
  "declared_types p = (case pl_trigger p of None \<Rightarrow> [] | Some t \<Rightarrow> content_types t)"

text \<open>Global pipelines selected by type alone, each type by one of them.\<close>

definition disjoint_types :: "pipeline_definition list \<Rightarrow> bool" where
  "disjoint_types ps \<longleftrightarrow> distinct (concat (map declared_types ps))
     \<and> list_all clean_type (concat (map declared_types ps))
     \<and> list_all (\<lambda>p. pl_tenant_id p = None \<and> \<not> has_pattern p \<and> declared_types p \<noteq> []) ps"

lemma distinct_concat_unique:
  "distinct (concat (map f xs)) \<Longrightarrow> x \<in> set xs \<Longrightarrow> c \<in> set (f x) \<Longrightarrow>
   filter (\<lambda>y. c \<in> set (f y)) xs = [x]"
proof (induction xs)
  case Nil
  then show ?case by simp
next
  case (Cons z xs)
  show ?case
  proof (cases "c \<in> set (f z)")
    case True
    with Cons.prems have "c \<notin> set (f y)" if "y \<in> set xs" for y using that by auto
    then have "filter (\<lambda>y. c \<in> set (f y)) xs = []" by (simp add: filter_empty_conv)
    moreover have "x = z" using True Cons.prems by auto
    ultimately show ?thesis using True by simp
  next
    case False
    with Cons show ?thesis by auto
  qed
qed

lemma resolve_disjoint:
  assumes "disjoint_types ps" and "p \<in> set ps" and "rq_mime req = m" and "mime_essence m \<in> set (declared_types p)"
  shows "resolve ps req = Some (matched p)"
proof -
  let ?ct = "mime_essence m"
  have "matching req q \<longleftrightarrow> ?ct \<in> set (declared_types q)" if "q \<in> set ps" for q
  proof -
    have q: "pl_tenant_id q = None" "\<not> has_pattern q" "declared_types q \<noteq> []"
      "\<And>ct. ct \<in> set (declared_types q) \<Longrightarrow> clean_type ct"
      using assms(1) that by (auto simp: disjoint_types_def list_all_iff)
    obtain t where t: "pl_trigger q = Some t" "declared_types q = content_types t"
      using q(3) by (auto simp: declared_types_def split: option.splits)
    have "list_ex (\<lambda>ct. mime_matches ct m) (content_types t) \<longleftrightarrow> ?ct \<in> set (content_types t)"
      using q(4) mime_matches_clean unfolding t(2) by (auto simp: list_ex_iff)
    with q t show ?thesis
      by (simp add: matching_def visible_to_def trigger_matches_def has_pattern_def assms(3) Let_def)
  qed
  then have "filter (matching req) ps = filter (\<lambda>q. ?ct \<in> set (declared_types q)) ps"
    by (rule filter_cong [OF refl])
  also have "\<dots> = [p]"
    using assms by (intro distinct_concat_unique) (simp_all add: disjoint_types_def)
  finally show ?thesis by (simp add: resolve_alt)
qed

lemma declared_types_builtin [simp]: "declared_types (builtin_pipeline s n d ts ss) = ts"
  by (simp add: declared_types_def builtin_pipeline_def normalize_def)

lemma builtin_pipeline_simps [simp]:
  "pl_uid (builtin_pipeline s n d ts ss) = lit ''builtin.'' @ lit s"
  "pl_tenant_id (builtin_pipeline s n d ts ss) = None"
  "\<not> has_pattern (builtin_pipeline s n d ts ss)"
  "step_ids (builtin_pipeline s n d ts ss) = map step_id ss"
  by (simp_all add: builtin_pipeline_def normalize_def has_pattern_def step_ids_def)

lemma validate_builtin:
  assumes "list_all (\<lambda>c. uid_char (of_char c)) s" and "ss \<noteq> []" and "distinct (map step_id ss)"
    and "list_all (\<lambda>s. depends_on s = [] \<and> fan_out s = None) ss"
  shows "validate (builtin_pipeline s n d ts ss) = Value (Inr (map step_id ss))"
proof -
  have "list_all (\<lambda>c. uid_char (of_char c)) ''builtin.''"
    by (simp add: uid_char_def is_ascii_alphanumeric_def is_ascii_digit_def)
  with assms show ?thesis
    unfolding builtin_pipeline_def
    by (subst linear_pipeline_accepted) (simp_all add: linear_def lit_def step_ids_def list_all_iff)
qed

lemma builtin_step_simps [simp]:
  "step_id (builtin_step i pl) = lit i" "depends_on (builtin_step i pl) = []" "fan_out (builtin_step i pl) = None"
  "step_id chunk_step = lit ''chunk''" "depends_on chunk_step = []" "fan_out chunk_step = None"
  "step_id index_step = lit ''index''" "depends_on index_step = []" "fan_out index_step = None"
  by (simp_all add: builtin_step_def chunk_step_def index_step_def new_step_def)

text \<open>Every built-in pipeline is accepted and runs in the order it is written, and no two
  share a uid.\<close>

theorem builtins_valid:
  "length builtin_pipelines = 15
   \<and> list_all (\<lambda>p. validate p = Value (Inr (step_ids p))) builtin_pipelines
   \<and> distinct (map pl_uid builtin_pipelines)"
  unfolding builtin_pipelines_def
  by (simp add: validate_builtin uid_char_def is_ascii_alphanumeric_def is_ascii_digit_def)

lemma builtin_types_clean: "list_all clean_type (concat (map declared_types builtin_pipelines))"
  unfolding builtin_pipelines_def
  by (simp add: clean_type_def mime_consts lit_def to_ascii_lowercase_def ascii_lower_char_def
      trim_def trim_start_def trim_end_def is_whitespace_def strip_suffix_def ends_with_def)

lemma builtin_disjoint: "disjoint_types builtin_pipelines"
  unfolding disjoint_types_def using builtin_types_clean
  by (simp add: builtin_pipelines_def mime_consts)

text \<open>With the built-in pipelines alone, a file of a type that one of them declares runs that
  pipeline, whatever its name, its tenant and the parameters of its type.\<close>

theorem builtins_routed:
  assumes "p \<in> set builtin_pipelines" and "mime_essence (rq_mime req) \<in> set (declared_types p)"
  shows "resolve builtin_pipelines req = Some (matched p)"
  using resolve_disjoint [OF builtin_disjoint assms(1) refl assms(2)] .

section \<open>Examples\<close>

definition pdf_request :: route_request where
  "pdf_request = \<lparr>rq_mime = lit ''application/pdf; x=1'', rq_filename = Some (lit ''a.pdf''), rq_tenant_id = None\<rparr>"

definition pdf_pipeline :: pipeline_definition where
  "pdf_pipeline = hd builtin_pipelines"

lemma pdf_request_essence: "mime_essence (rq_mime pdf_request) = MIME_PDF"
  by code_simp

lemma pdf_pipeline_in: "pdf_pipeline \<in> set builtin_pipelines" "MIME_PDF \<in> set (declared_types pdf_pipeline)"
  unfolding pdf_pipeline_def builtin_pipelines_def by simp_all

theorem builtins_routed_witness:
  "resolve builtin_pipelines pdf_request = Some (matched pdf_pipeline)"
  by (rule builtins_routed) (simp_all add: pdf_request_essence pdf_pipeline_in)

definition tenant_store :: "pipeline_definition list" where
  "tenant_store = [example_linear\<lparr>pl_uid := lit ''p''\<rparr>,
     example_linear\<lparr>pl_uid := lit ''p'', pl_tenant_id := Some (lit ''acme'')\<rparr>,
     example_linear\<lparr>pl_uid := lit ''p'', pl_tenant_id := Some (lit ''other'')\<rparr>]"

lemma resolve_pdf: "resolve builtin_pipelines pdf_request = Some (matched pdf_pipeline)"
  using resolve_disjoint [OF builtin_disjoint pdf_pipeline_in(1) refl] pdf_pipeline_in(2)
  by (simp add: pdf_request_essence)

theorem resolve_precedence_witness:
  "\<exists>i < length builtin_pipelines. matched pdf_pipeline = matched (builtin_pipelines ! i)
    \<and> matching pdf_request (builtin_pipelines ! i)"
  using resolve_precedence [OF resolve_pdf] by blast

theorem all_pipelines_by_uid_witness:
  "tenant_store ! 1 \<in> set (all_pipelines tenant_store (Some (lit ''acme'')))
   \<longleftrightarrow> by_uid tenant_store (pl_uid (tenant_store ! 1)) (Some (lit ''acme'')) = Some (tenant_store ! 1)"
proof (rule all_pipelines_by_uid)
  show "consistent_store tenant_store"
    by (simp add: consistent_store_def tenant_store_def example_linear_def example_pipeline_def)
qed

definition example_text :: rstr where
  "example_text = [98, 111, 110, 106, 111, 117, 114, 44, 32, 233, 116, 233]"

theorem detect_text_file_witness:
  "detect_mime (\<lambda>_. None) (\<lambda>_. None) (\<lambda>_. False) (utf8_bytes example_text) None None
    \<in> {MIME_TEXT, MIME_JSON, MIME_HTML}"
proof (rule detect_text_file)
  show "\<forall>c \<in> set example_text. is_scalar c \<and> \<not> stray_control c"
    by (simp add: example_text_def is_scalar_def stray_control_def is_control_def)
  show "example_text \<noteq> []" by (simp add: example_text_def)
  show "magic_record_format (utf8_bytes example_text) = None" by code_simp
qed simp

end
