(* ===== verification/Usage_Events.thy ===== *)
theory Usage_Events
  imports Sdk_Types
begin

text \<open>
  \<open>crates/usage/src/lib.rs\<close>: the rows that billing reads. \<open>events_for_job\<close> builds one row per step
  and one per job from what the workflow recorded; \<open>classify_error\<close> reduces messages to eight kinds;
  \<open>send\<close> is the outcome of one delivery, a function of what the HTTP exchange returned. A time is a
  number of nanoseconds since the epoch. The analytics store is a table that keeps one row per
  sorting key (tenant, time, event id), which is what its documentation promises of a
  \<open>ReplacingMergeTree\<close> after a merge.
\<close>

section \<open>Text\<close>

definition truncate_chars :: "rstr \<Rightarrow> nat \<Rightarrow> rstr" where
  "truncate_chars s n = take n s"

definition MAX_ERROR_CHARS :: nat where
  "MAX_ERROR_CHARS = 512"

definition REPORTED_ATTEMPT :: u32 where
  "REPORTED_ATTEMPT = 1"

section \<open>Kinds of errors\<close>

datatype error_kind =
  EkNone | EkTimeout | EkAuth | EkInvalidInput | EkInvalidConfig | EkUpstream | EkCancelled | EkInternal

fun error_kind_str :: "error_kind \<Rightarrow> rstr" where
  "error_kind_str EkNone = []"
| "error_kind_str EkTimeout = lit ''timeout''"
| "error_kind_str EkAuth = lit ''auth''"
| "error_kind_str EkInvalidInput = lit ''invalid_input''"
| "error_kind_str EkInvalidConfig = lit ''invalid_config''"
| "error_kind_str EkUpstream = lit ''upstream''"
| "error_kind_str EkCancelled = lit ''cancelled''"
| "error_kind_str EkInternal = lit ''internal''"

definition mentions :: "rstr \<Rightarrow> string list \<Rightarrow> bool" where
  "mentions m needles \<longleftrightarrow> list_ex (\<lambda>n. str_contains m (lit n)) needles"

definition classify_error :: "rstr \<Rightarrow> error_kind" where
  "classify_error message =
     (let m = to_ascii_lowercase (trim message) in
      if m = [] then EkNone
      else if mentions m [''timeout'', ''timed out'', ''deadline exceeded'', ''elapsed''] then EkTimeout
      else if mentions m [''cancel''] then EkCancelled
      else if mentions m [''invalid config'', ''invalidconfig'', ''not set'', ''missing config'',
                          ''unknown plugin''] then EkInvalidConfig
      else if mentions m [''unauthorized'', ''forbidden'', ''http 401'', ''http 403'', ''api key'',
                          ''api_key'', ''credential'', ''authentication''] then EkAuth
      else if mentions m [''invalid input'', ''invalidinput'', ''unsupported'', ''malformed'',
                          ''corrupt'', ''cannot parse'', ''parse error'', ''decode''] then EkInvalidInput
      else if mentions m [''upstream'', ''rate limit'', ''too many requests'', ''http 5'', ''502'',
                          ''503'', ''504'', ''connection'', ''connect'', ''dns'', ''refused'',
                          ''unavailable''] then EkUpstream
      else EkInternal)"

definition error_kind_for :: "job_status \<Rightarrow> rstr option \<Rightarrow> error_kind" where
  "error_kind_for status error =
     (if status = Cancelled then EkCancelled
      else classify_error (case error of None \<Rightarrow> [] | Some e \<Rightarrow> e))"

section \<open>Rows\<close>

type_synonym nanos = int

datatype usage_event_kind = KindJob | KindStep

record usage_event =
  ev_event_id :: rstr
  ev_kind :: usage_event_kind
  ev_ts :: nanos
  ev_job_id :: rstr
  ev_workflow_id :: rstr
  ev_tenant_id :: rstr
  ev_region :: rstr
  ev_pipeline_uid :: rstr
  ev_pipeline_builtin :: bool
  ev_index_name :: rstr
  ev_step_id :: rstr
  ev_plugin :: rstr
  ev_task_queue :: rstr
  ev_status :: rstr
  ev_attempt :: u32
  ev_branches :: u32
  ev_duration_ms :: u64
  ev_input_bytes :: u64
  ev_input_mime :: rstr
  ev_documents_out :: u64
  ev_llm_input_tokens :: u64
  ev_llm_output_tokens :: u64
  ev_llm_requests :: u64
  ev_audio_seconds :: f64
  ev_pages :: u64
  ev_images :: u64
  ev_external_requests :: u64
  ev_error_kind :: rstr
  ev_error :: rstr

record job_usage_input =
  ju_job_id :: uuid
  ju_workflow_id :: rstr
  ju_pipeline_uid :: rstr
  ju_pipeline_builtin :: bool
  ju_tenant_id :: rstr
  ju_region :: rstr
  ju_index_name :: rstr
  ju_task_queue :: rstr
  ju_status :: job_status
  ju_started_at :: nanos
  ju_finished_at :: nanos
  ju_input_bytes :: u64
  ju_input_mime :: rstr
  ju_steps :: "step_result list"
  ju_error :: "rstr option"

definition step_event_id :: "rstr \<Rightarrow> rstr \<Rightarrow> u32 \<Rightarrow> rstr" where
  "step_event_id job step attempt = job @ [58] @ step @ [58] @ show_nat (unat attempt)"

definition job_event_id :: "rstr \<Rightarrow> rstr" where
  "job_event_id job = job @ lit '':job''"

definition wall_clock_ms :: "nanos \<Rightarrow> nanos \<Rightarrow> u64" where
  "wall_clock_ms started finished =
     (let ns = finished - started; ms = (if ns < 0 then - ((- ns) div 1000000) else ns div 1000000)
      in if ms < 0 then 0 else word_of_int ms)"

definition clamp_u32 :: "nat \<Rightarrow> u32" where
  "clamp_u32 v = (if v < 2 ^ 32 then of_nat v else - 1)"

definition base_event :: "job_usage_input \<Rightarrow> usage_event" where
  "base_event inp = \<lparr>ev_event_id = [], ev_kind = KindJob, ev_ts = ju_finished_at inp,
     ev_job_id = ju_job_id inp, ev_workflow_id = ju_workflow_id inp, ev_tenant_id = ju_tenant_id inp,
     ev_region = ju_region inp, ev_pipeline_uid = ju_pipeline_uid inp,
     ev_pipeline_builtin = ju_pipeline_builtin inp, ev_index_name = ju_index_name inp,
     ev_step_id = [], ev_plugin = [], ev_task_queue = ju_task_queue inp,
     ev_status = job_status_str (ju_status inp), ev_attempt = REPORTED_ATTEMPT, ev_branches = 0,
     ev_duration_ms = 0, ev_input_bytes = 0, ev_input_mime = ju_input_mime inp, ev_documents_out = 0,
     ev_llm_input_tokens = 0, ev_llm_output_tokens = 0, ev_llm_requests = 0, ev_audio_seconds = Fin 0,
     ev_pages = 0, ev_images = 0, ev_external_requests = 0, ev_error_kind = [], ev_error = []\<rparr>"

definition apply_units :: "usage_units \<Rightarrow> usage_event \<Rightarrow> usage_event" where
  "apply_units u e = e\<lparr>ev_llm_input_tokens := llm_input_tokens u,
     ev_llm_output_tokens := llm_output_tokens u, ev_llm_requests := llm_requests u,
     ev_audio_seconds := audio_seconds u, ev_pages := uu_pages u, ev_images := uu_images u,
     ev_external_requests := external_requests u\<rparr>"

definition error_text :: "rstr option \<Rightarrow> rstr" where
  "error_text error = truncate_chars (case error of None \<Rightarrow> [] | Some e \<Rightarrow> e) MAX_ERROR_CHARS"

definition step_event :: "job_usage_input \<Rightarrow> step_result \<Rightarrow> usage_event" where
  "step_event inp s = (apply_units (sr_usage s) ((base_event inp)
     \<lparr>ev_event_id := step_event_id (ju_job_id inp) (sr_step_id s) REPORTED_ATTEMPT,
      ev_kind := KindStep, ev_step_id := sr_step_id s, ev_plugin := sr_plugin s,
      ev_status := job_status_str (sr_status s), ev_branches := clamp_u32 (sr_branches s),
      ev_duration_ms := sr_duration_ms s, ev_input_bytes := sr_input_bytes s,
      ev_documents_out := of_nat (sr_document_count s)\<rparr>))
     \<lparr>ev_error_kind := error_kind_str (error_kind_for (sr_status s) (sr_error s)),
      ev_error := error_text (sr_error s)\<rparr>"

definition usage_totals :: "step_result list \<Rightarrow> usage_units" where
  "usage_totals steps = fold (\<lambda>s totals. usage_merge totals (sr_usage s)) steps no_usage"

definition job_event :: "job_usage_input \<Rightarrow> usage_event" where
  "job_event inp = (apply_units (usage_totals (ju_steps inp)) ((base_event inp)
     \<lparr>ev_event_id := job_event_id (ju_job_id inp), ev_kind := KindJob,
      ev_status := job_status_str (ju_status inp),
      ev_duration_ms := wall_clock_ms (ju_started_at inp) (ju_finished_at inp),
      ev_input_bytes := ju_input_bytes inp,
      ev_documents_out := (if ju_steps inp = [] then 0 else of_nat (sr_document_count (last (ju_steps inp))))\<rparr>))
     \<lparr>ev_error_kind := error_kind_str (error_kind_for (ju_status inp) (ju_error inp)),
      ev_error := error_text (ju_error inp)\<rparr>"

definition events_for_job :: "job_usage_input \<Rightarrow> usage_event list" where
  "events_for_job inp = map (step_event inp) (ju_steps inp) @ [job_event inp]"

section \<open>Delivery\<close>

datatype usage_error =
    UeConfig rstr
  | UeTransport rstr
  | UeUpstream nat rstr
  | UeAuth nat
  | UeRejected nat rstr
  | UeQuarantined u64 rstr
  | UeEncode rstr

fun usage_error_retryable :: "usage_error \<Rightarrow> bool" where
  "usage_error_retryable (UeTransport _) = True"
| "usage_error_retryable (UeUpstream _ _) = True"
| "usage_error_retryable _ = False"

definition map_http_failure :: "nat \<Rightarrow> rstr \<Rightarrow> usage_error" where
  "map_http_failure status body =
     (if status = 401 \<or> status = 403 then UeAuth status
      else if status = 429 \<or> (500 \<le> status \<and> status \<le> 599)
        then UeUpstream status (truncate_chars body MAX_ERROR_CHARS)
      else UeRejected status (truncate_chars body MAX_ERROR_CHARS))"

text \<open>One delivery to Tinybird: \<open>encode\<close> is the serialization of an event, \<open>post\<close> the HTTP exchange
  on the body (a transport error, or a status and a body that may fail to arrive), \<open>quarantined\<close> the
  count read from a successful reply.\<close>

definition encode_body :: "(usage_event \<Rightarrow> rstr + rstr) \<Rightarrow> usage_event list \<Rightarrow> usage_error + rstr" where
  "encode_body encode events = fold (\<lambda>e body. try_bind body (\<lambda>b.
     case encode e of
       Inl msg \<Rightarrow> Inl (UeEncode (lit ''event '' @ ev_event_id e @ lit '': '' @ msg))
     | Inr line \<Rightarrow> Inr (b @ line @ [10]))) events (Inr [])"

definition send ::
  "(usage_event \<Rightarrow> rstr + rstr) \<Rightarrow> (rstr \<Rightarrow> rstr + nat \<times> (rstr + rstr)) \<Rightarrow> (rstr \<Rightarrow> u64)
   \<Rightarrow> rstr \<Rightarrow> rstr \<Rightarrow> usage_event list \<Rightarrow> usage_error + unit" where
  "send encode post quarantined base_url datasource events =
     (if events = [] then Inr ()
      else try_bind (encode_body encode events) (\<lambda>body.
        case post body of
          Inl e \<Rightarrow> Inl (UeTransport (lit ''POST '' @ base_url @ lit ''/v0/events (name='' @ datasource
                                    @ lit '') failed: '' @ e))
        | Inr (status, Inl e) \<Rightarrow> Inl (UeTransport (lit ''Tinybird response body unreadable: '' @ e))
        | Inr (status, Inr text) \<Rightarrow>
            if \<not> (200 \<le> status \<and> status < 300) then Inl (map_http_failure status text)
            else if 0 < quarantined text then Inl (UeQuarantined (quarantined text) datasource)
            else Inr ()))"

section \<open>Identity of rows\<close>

lemma step_event_simps [simp]:
  "ev_event_id (step_event inp s) = step_event_id (ju_job_id inp) (sr_step_id s) REPORTED_ATTEMPT"
  "ev_ts (step_event inp s) = ju_finished_at inp" "ev_tenant_id (step_event inp s) = ju_tenant_id inp"
  "ev_kind (step_event inp s) = KindStep"
  by (simp_all add: step_event_def apply_units_def base_event_def)

lemma job_event_simps [simp]:
  "ev_event_id (job_event inp) = job_event_id (ju_job_id inp)"
  "ev_ts (job_event inp) = ju_finished_at inp" "ev_tenant_id (job_event inp) = ju_tenant_id inp"
  "ev_kind (job_event inp) = KindJob"
  by (simp_all add: job_event_def apply_units_def base_event_def)

lemma step_event_id_inject [simp]:
  "step_event_id job a n = step_event_id job b n \<longleftrightarrow> a = b"
  by (simp add: step_event_id_def)

lemma last_show_nat_digit: "is_ascii_digit (last (show_nat n))"
  using show_nat_digits [of n] by (simp add: show_nat.simps [of n])

lemma show_nat_not_Nil [simp]: "show_nat n \<noteq> []"
  by (simp add: show_nat.simps [of n])

lemma step_id_not_job_id: "step_event_id a s n \<noteq> job_event_id b"
proof
  assume "step_event_id a s n = job_event_id b"
  then have "last (step_event_id a s n) = last (job_event_id b)" by simp
  then have "last (show_nat (unat n)) = 98"
    by (simp add: step_event_id_def job_event_id_def lit_def)
  with last_show_nat_digit [of "unat n"] show False by (simp add: is_ascii_digit_def)
qed

lemma event_ids_distinct_if:
  assumes "distinct (map sr_step_id (ju_steps inp))"
  shows "distinct (map ev_event_id (events_for_job inp))"
  using assms step_id_not_job_id [symmetric] step_id_not_job_id
  by (auto simp: events_for_job_def distinct_map inj_on_def)

text \<open>The rows of a job have different event ids, one per step and one for the job, when no step
  is reported twice.\<close>

theorem event_ids_distinct:
  assumes "distinct (map sr_step_id (ju_steps inp))"
  shows "distinct (map ev_event_id (events_for_job inp))
    \<and> length (events_for_job inp) = length (ju_steps inp) + 1"
  using event_ids_distinct_if [OF assms] by (simp add: events_for_job_def)

lemma uuid_string_length: "uuid_string j \<Longrightarrow> length j = 36"
  by (simp add: uuid_string_def)

lemma event_id_prefix:
  "e \<in> set (events_for_job inp) \<Longrightarrow> \<exists>rest. ev_event_id e = ju_job_id inp @ rest"
  by (auto simp: events_for_job_def step_event_id_def job_event_id_def)

text \<open>Two jobs never share an event id, so the rows of one cannot replace the rows of the
  other.\<close>

theorem event_ids_separate:
  assumes "uuid_string (ju_job_id a)" and "uuid_string (ju_job_id b)" and "ju_job_id a \<noteq> ju_job_id b"
  shows "ev_event_id ` set (events_for_job a) \<inter> ev_event_id ` set (events_for_job b) = {}"
proof -
  have "ev_event_id e \<noteq> ev_event_id f"
    if e: "e \<in> set (events_for_job a)" and f: "f \<in> set (events_for_job b)" for e f
  proof
    assume "ev_event_id e = ev_event_id f"
    then obtain r r' where "ju_job_id a @ r = ju_job_id b @ r'"
      using event_id_prefix [OF e] event_id_prefix [OF f] by metis
    with assms show False by (simp add: append_eq_append_conv uuid_string_length)
  qed
  then show ?thesis by auto
qed

section \<open>Redelivery\<close>

definition row_key :: "usage_event \<Rightarrow> rstr \<times> nanos \<times> rstr" where
  "row_key e = (ev_tenant_id e, ev_ts e, ev_event_id e)"

type_synonym usage_table = "rstr \<times> nanos \<times> rstr \<rightharpoonup> usage_event"

definition insert_rows :: "usage_event list \<Rightarrow> usage_table \<Rightarrow> usage_table" where
  "insert_rows rows t = fold (\<lambda>(k, e). hm_insert k e) (map (\<lambda>e. (row_key e, e)) rows) t"

lemma insert_rows_get:
  "insert_rows rows t k = (case map_of (rev (map (\<lambda>e. (row_key e, e)) rows)) k of Some e \<Rightarrow> Some e | None \<Rightarrow> t k)"
  using hm.get_put_all [where m = t and kvs = "map (\<lambda>e. (row_key e, e)) rows" and x = k]
  unfolding insert_rows_def by (simp add: hm_get_def split: option.split)

lemma distinct_row_keys:
  assumes "distinct (map sr_step_id (ju_steps inp))"
  shows "distinct (map row_key (events_for_job inp))"
proof -
  have "distinct (map ev_event_id (events_for_job inp))"
    by (rule event_ids_distinct_if [OF assms])
  moreover have "map ev_event_id (events_for_job inp) = map (snd \<circ> snd) (map row_key (events_for_job inp))"
    by (simp add: row_key_def)
  ultimately show ?thesis by (metis distinct_map)
qed

text \<open>At-least-once delivery counts once: after the rows of a job have been written any number
  of times, with other jobs' rows in between, the table holds each of them exactly once, and the same
  table as after one delivery.\<close>

theorem redelivery_counts_once:
  assumes "distinct (map sr_step_id (ju_steps inp))"
    and "row_key ` set others \<inter> row_key ` set (events_for_job inp) = {}"
  shows "insert_rows (events_for_job inp) (insert_rows others (insert_rows (events_for_job inp) t))
       = insert_rows others (insert_rows (events_for_job inp) t)
    \<and> list_all (\<lambda>e. insert_rows others (insert_rows (events_for_job inp) t) (row_key e) = Some e) (events_for_job inp)"
proof -
  let ?rows = "events_for_job inp"
  let ?kvs = "\<lambda>rows. rev (map (\<lambda>e. (row_key e, e)) rows)"
  have d: "distinct (map fst (?kvs ?rows))"
    using distinct_row_keys [OF assms(1)] by (simp add: comp_def rev_map [symmetric])
  have own: "map_of (?kvs ?rows) (row_key e) = Some e" if "e \<in> set ?rows" for e
    by (rule map_of_is_SomeI [OF d]) (use that in auto)
  have other: "map_of (?kvs others) (row_key e) = None" if "e \<in> set ?rows" for e
  proof -
    have "row_key e \<notin> row_key ` set others" using assms(2) that by blast
    then show ?thesis by (simp add: map_of_eq_None_iff image_image)
  qed
  have keys: "k \<in> row_key ` set ?rows" if "map_of (?kvs ?rows) k = Some e" for k e
    using map_of_SomeD [OF that] by auto
  have "insert_rows ?rows (insert_rows others (insert_rows ?rows t)) k
      = insert_rows others (insert_rows ?rows t) k" for k
  proof (cases "k \<in> row_key ` set ?rows")
    case True
    then obtain e where "e \<in> set ?rows" "k = row_key e" by blast
    then show ?thesis using own other by (simp add: insert_rows_get)
  next
    case False
    then have "map_of (?kvs ?rows) k = None" using keys by (cases "map_of (?kvs ?rows) k") auto
    then show ?thesis by (simp add: insert_rows_get)
  qed
  moreover have "insert_rows others (insert_rows ?rows t) (row_key e) = Some e" if "e \<in> set ?rows" for e
    using own [OF that] other [OF that] by (simp add: insert_rows_get)
  ultimately show ?thesis by (auto simp: list_all_iff)
qed

section \<open>Totals\<close>

lemma unit_fields [simp]:
  "ev_llm_input_tokens (step_event inp s) = llm_input_tokens (sr_usage s)"
  "ev_llm_output_tokens (step_event inp s) = llm_output_tokens (sr_usage s)"
  "ev_pages (step_event inp s) = uu_pages (sr_usage s)"
  "ev_llm_input_tokens (job_event inp) = llm_input_tokens (usage_totals (ju_steps inp))"
  "ev_llm_output_tokens (job_event inp) = llm_output_tokens (usage_totals (ju_steps inp))"
  "ev_pages (job_event inp) = uu_pages (usage_totals (ju_steps inp))"
  by (simp_all add: step_event_def job_event_def apply_units_def)

lemma usage_totals_field:
  fixes g :: "usage_units \<Rightarrow> u64"
  assumes "\<And>u v. g (usage_merge u v) = sat_add (g u) (g v)" and "g no_usage = 0"
  shows "unat (g (usage_totals steps)) = min (\<Sum>s\<leftarrow>steps. unat (g (sr_usage s))) (2 ^ 64 - 1)"
  unfolding usage_totals_def by (simp add: fold_usage_merge_field [where g = g, OF assms(1)] assms(2) fold_sat_add)

lemma usage_merge_fields [simp]:
  "llm_input_tokens (usage_merge u v) = sat_add (llm_input_tokens u) (llm_input_tokens v)"
  "llm_output_tokens (usage_merge u v) = sat_add (llm_output_tokens u) (llm_output_tokens v)"
  "uu_pages (usage_merge u v) = sat_add (uu_pages u) (uu_pages v)"
  "llm_input_tokens no_usage = 0" "llm_output_tokens no_usage = 0" "uu_pages no_usage = 0"
  by (simp_all add: usage_merge_def no_usage_def)

text \<open>The job row carries the sum of the step rows, stopped at the largest 64-bit number, for
  every unit that is billed as a number.\<close>

theorem job_row_totals:
  "unat (ev_llm_input_tokens (job_event inp))
     = min (\<Sum>s\<leftarrow>ju_steps inp. unat (ev_llm_input_tokens (step_event inp s))) (2 ^ 64 - 1)
   \<and> unat (ev_llm_output_tokens (job_event inp))
     = min (\<Sum>s\<leftarrow>ju_steps inp. unat (ev_llm_output_tokens (step_event inp s))) (2 ^ 64 - 1)
   \<and> unat (ev_pages (job_event inp))
     = min (\<Sum>s\<leftarrow>ju_steps inp. unat (ev_pages (step_event inp s))) (2 ^ 64 - 1)"
  using usage_totals_field [where g = llm_input_tokens] usage_totals_field [where g = llm_output_tokens]
    usage_totals_field [where g = uu_pages] by simp

lemma encode_body_error:
  "fold (\<lambda>e body. try_bind body (\<lambda>b. case encode e of
       Inl msg \<Rightarrow> Inl (UeEncode (lit ''event '' @ ev_event_id e @ lit '': '' @ msg))
     | Inr line \<Rightarrow> Inr (b @ line @ [10]))) events r = Inl err
   \<Longrightarrow> (\<And>e. r = Inl e \<Longrightarrow> \<not> usage_error_retryable e) \<Longrightarrow> \<not> usage_error_retryable err"
proof (induction events arbitrary: r)
  case Nil
  then show ?case by simp
next
  case (Cons e events)
  show ?case
    by (rule Cons.IH [OF Cons.prems(1) [simplified]])
      (use Cons.prems(2) in \<open>auto simp: try_bind_def split: sum.splits\<close>)
qed

lemma map_http_failure_retryable:
  "usage_error_retryable (map_http_failure status body) \<longleftrightarrow> status = 429 \<or> (500 \<le> status \<and> status \<le> 599)"
  by (auto simp: map_http_failure_def)

text \<open>A failed delivery is retried exactly when the store may accept it later: no reply, a reply
  that could not be read, too many requests, or a server error. A refusal that a retry cannot fix,
  and rows put in quarantine, are final.\<close>

theorem send_retryable:
  assumes "send encode post quarantined base_url datasource events = Inl e"
  shows "usage_error_retryable e = (\<exists>body. encode_body encode events = Inr body
    \<and> (case post body of Inl _ \<Rightarrow> True | Inr (status, Inl _) \<Rightarrow> True
       | Inr (status, Inr _) \<Rightarrow> status = 429 \<or> (500 \<le> status \<and> status \<le> 599)))"
proof (cases "encode_body encode events")
  case (Inl err)
  then have "\<not> usage_error_retryable err"
    unfolding encode_body_def by (rule encode_body_error) simp
  with assms Inl show ?thesis by (auto simp: send_def split: if_splits)
next
  case (Inr body)
  with assms show ?thesis
    by (auto simp: send_def map_http_failure_retryable split: if_splits sum.splits)
qed

definition example_result :: "string \<Rightarrow> step_result" where
  "example_result i = \<lparr>sr_step_id = lit i, sr_plugin = lit ''x'', sr_status = Succeeded,
     sr_document_count = 1, sr_branches = 1, sr_error = None, sr_duration_ms = 5, sr_input_bytes = 9,
     sr_usage = usage_pages 2\<rparr>"

definition example_usage :: "char \<Rightarrow> job_usage_input" where
  "example_usage c = \<lparr>ju_job_id = replicate 36 (of_char c), ju_workflow_id = [], ju_pipeline_uid = [],
     ju_pipeline_builtin = True, ju_tenant_id = [], ju_region = [], ju_index_name = [], ju_task_queue = [],
     ju_status = Succeeded, ju_started_at = 0, ju_finished_at = 7000000, ju_input_bytes = 9, ju_input_mime = [],
     ju_steps = [example_result ''a'', example_result ''b''], ju_error = None\<rparr>"

lemma example_usage_simps [simp]:
  "map sr_step_id (ju_steps (example_usage c)) = [lit ''a'', lit ''b'']"
  "ju_job_id (example_usage c) = replicate 36 (of_char c)" "length (ju_steps (example_usage c)) = 2"
  by (simp_all add: example_usage_def example_result_def)

theorem event_ids_distinct_witness:
  "distinct (map ev_event_id (events_for_job (example_usage CHR ''a'')))
    \<and> length (events_for_job (example_usage CHR ''a'')) = 3"
  using event_ids_distinct [of "example_usage CHR ''a''"] by simp

lemma replicate_uuid: "uuid_string (replicate 36 97)" "uuid_string (replicate 36 98)"
  by (simp_all add: uuid_string_def)

theorem event_ids_separate_witness:
  "ev_event_id ` set (events_for_job (example_usage CHR ''a''))
   \<inter> ev_event_id ` set (events_for_job (example_usage CHR ''b'')) = {}"
  by (rule event_ids_separate) (simp_all add: replicate_uuid)

theorem redelivery_counts_once_witness:
  "insert_rows (events_for_job (example_usage CHR ''a'')) (insert_rows [] (insert_rows (events_for_job (example_usage CHR ''a'')) Map.empty))
    = insert_rows [] (insert_rows (events_for_job (example_usage CHR ''a'')) Map.empty)"
  using redelivery_counts_once [of "example_usage CHR ''a''" "[]" Map.empty] by simp

lemma send_overloaded:
  "send (\<lambda>_. Inr []) (\<lambda>_. Inr (503, Inr [])) (\<lambda>_. 0) [] [] (events_for_job (example_usage CHR ''a''))
     = Inl (UeUpstream 503 [])"
  by (simp add: send_def events_for_job_def encode_body_def example_usage_def map_http_failure_def
      truncate_chars_def)

theorem send_retryable_witness:
  "usage_error_retryable (UeUpstream 503 [])"
  using send_retryable [OF send_overloaded] send_overloaded
  by (simp add: send_def events_for_job_def encode_body_def example_usage_def)

end
