(* ===== verification/Workflow.thy ===== *)
theory Workflow
  imports Dag Router Usage_Events
begin

text \<open>
  \<open>crates/worker/src/workflow.rs\<close>: the \<open>PipelineWorkflow\<close>, one job from validation to its usage
  record. The code is a deterministic function of what Temporal answers; the model is that function.
  The answers are the record \<open>wf_env\<close>: the outcome of an activity is a function of its input (a run
  schedules no step activity twice, see \<open>calls_distinct\<close>), a cancel signal is a flag for every
  turn of the loop, workflow time is read at the start and at the end. The state is the progress
  that queries see, the outputs of the finished steps, the index report and the list of activities
  scheduled so far. The activities of one wave run in parallel: the list has them in the order of
  their steps. \<open>en_debug\<close> is \<open>Debug\<close> of a string, used in messages only.
\<close>

section \<open>Activities and their outcomes\<close>

datatype failure = Failure (fail_message: rstr) (fail_cause: "failure option")

datatype activity_error = ActCancelled "failure option" rstr | ActFailed "failure option" rstr

record activity_options =
  ao_start_to_close_secs :: u64
  ao_task_queue :: rstr
  ao_heartbeat_secs :: nat
  ao_retry :: retry_params

record fan_out_activity_input =
  fo_job_id :: uuid
  fo_step_id :: rstr
  fo_upstream :: plugin_output
  fo_path :: rstr
  fo_max_branches :: nat

datatype wf_call =
    CallStarted uuid "rstr option"
  | CallStep step_activity_input activity_options
  | CallExpand fan_out_activity_input
  | CallUsage job_usage_input

record wf_env =
  en_step :: "step_activity_input \<Rightarrow> activity_error + step_activity_output"
  en_expand :: "fan_out_activity_input \<Rightarrow> activity_error + plugin_input list"
  en_cancel :: "nat \<Rightarrow> bool"
  en_started_at :: "nanos option"
  en_finished_at :: "nanos option"
  en_ser :: "jmap \<Rightarrow> nat"
  en_debug :: "rstr \<Rightarrow> rstr"

section \<open>Inputs, outputs and messages\<close>

record pipeline_workflow_input =
  wi_job_id :: uuid
  wi_pipeline :: pipeline_definition
  wi_input :: plugin_input
  wi_context :: meili_context

record pipeline_workflow_output =
  wo_job_id :: uuid
  wo_status :: job_status
  wo_steps :: "step_result list"
  wo_index_report :: "index_report option"
  wo_error :: "rstr option"

definition workflow_id :: "uuid \<Rightarrow> rstr" where
  "workflow_id job = lit ''ingest-'' @ job"

definition MAX_FAN_OUT_BRANCHES :: nat where
  "MAX_FAN_OUT_BRANCHES = 500"

definition debug_list :: "(rstr \<Rightarrow> rstr) \<Rightarrow> rstr list \<Rightarrow> rstr" where
  "debug_list dbg xs = [91] @ concat (map (\<lambda>(i, x). (if i = 0 then [] else lit '', '') @ dbg x) (enumerated xs)) @ [93]"

fun pipeline_error_str :: "(rstr \<Rightarrow> rstr) \<Rightarrow> pipeline_error \<Rightarrow> rstr" where
  "pipeline_error_str dbg PeEmpty = lit ''pipeline has no steps''"
| "pipeline_error_str dbg (PeInvalidUid u) =
     lit ''invalid pipeline uid '' @ dbg u @ lit '': must be non-empty and match [a-zA-Z0-9._-]+''"
| "pipeline_error_str dbg (PeDuplicateStep s) = lit ''duplicate step id '' @ dbg s"
| "pipeline_error_str dbg (PeUnknownDependency s d) =
     lit ''step '' @ dbg s @ lit '' depends on unknown step '' @ dbg d"
| "pipeline_error_str dbg (PeCycle ids) = lit ''pipeline has a cycle involving steps '' @ debug_list dbg ids"
| "pipeline_error_str dbg (PeFanOutArity s) =
     lit ''fan_out step '' @ dbg s @ lit '' must depend on exactly one step''"
| "pipeline_error_str dbg (PeFanOutPath s path) =
     lit ''fan_out path '' @ dbg path @ lit '' on step '' @ dbg s
     @ lit '' is not supported (use \"$.documents\" or \"$.many\")''"

definition non_empty_message :: "rstr \<Rightarrow> rstr option" where
  "non_empty_message m =
     (let m = trim m in if m \<noteq> [] \<and> m \<noteq> lit ''Activity task failed'' then Some m else None)"

fun deepest_loop :: "rstr option \<Rightarrow> failure \<Rightarrow> rstr option" where
  "deepest_loop best (Failure m c) =
     (let best = (case non_empty_message m of Some m \<Rightarrow> Some m | None \<Rightarrow> best)
      in case c of None \<Rightarrow> best | Some f \<Rightarrow> deepest_loop best f)"

definition deepest_failure_message :: "failure \<Rightarrow> rstr option" where
  "deepest_failure_message f = deepest_loop None f"

definition describe_activity_failure :: "failure option \<Rightarrow> rstr \<Rightarrow> rstr" where
  "describe_activity_failure f display =
     (case Option.bind f deepest_failure_message of Some m \<Rightarrow> m | None \<Rightarrow> display)"

definition to_utc :: "nanos option \<Rightarrow> nanos" where
  "to_utc t = (case t of Some t \<Rightarrow> t | None \<Rightarrow> 0)"

fun initial_mime :: "plugin_input \<Rightarrow> rstr" where
  "initial_mime (InBytes b) = blob_mime b"
| "initial_mime (InRef r) = (case ref_mime r of Some m \<Rightarrow> m | None \<Rightarrow> [])"
| "initial_mime (InDocuments _) = lit ''application/json''"
| "initial_mime _ = []"

section \<open>Running a step\<close>

record step_outcome =
  so_output :: plugin_output
  so_branches :: nat
  so_duration_ms :: u64
  so_input_bytes :: u64
  so_usage :: usage_units

datatype step_failure = SfCancelled | SfFailed rstr

fun map_activity_error :: "activity_error \<Rightarrow> step_failure" where
  "map_activity_error (ActCancelled _ _) = SfCancelled"
| "map_activity_error (ActFailed f display) = SfFailed (describe_activity_failure f display)"

definition activity_options_of :: "step_definition \<Rightarrow> activity_options" where
  "activity_options_of s = \<lparr>ao_start_to_close_secs = effective_timeout_secs s,
     ao_task_queue = plugin_task_queue (step_plugin s), ao_heartbeat_secs = 90,
     ao_retry = retry_params_of (effective_retry s)\<rparr>"

definition step_config_of :: "step_definition \<Rightarrow> pipeline_workflow_input \<Rightarrow> json" where
  "step_config_of s inp =
     (if step_plugin s = INDEXER_PLUGIN then inject_meili_context (step_config s) (wi_context inp)
      else step_config s)"

definition mk_activity ::
  "pipeline_workflow_input \<Rightarrow> step_definition \<Rightarrow> nat option \<Rightarrow> nat option \<Rightarrow> plugin_input \<Rightarrow> step_activity_input" where
  "mk_activity inp s branch n_total b = \<lparr>sai_job_id = wi_job_id inp, sai_step_id = step_id s,
     sai_plugin = step_plugin s, sai_config = step_config_of s inp, sai_input = b, sai_branch = branch,
     sai_branch_total = n_total, sai_tenant_id = ctx_tenant_id (wi_context inp)\<rparr>"

record branch_acc =
  ba_outputs :: "plugin_output list"
  ba_cancelled :: bool
  ba_first_error :: "rstr option"
  ba_duration_ms :: u64
  ba_input_bytes :: u64
  ba_usage :: usage_units

definition no_branches :: branch_acc where
  "no_branches = \<lparr>ba_outputs = [], ba_cancelled = False, ba_first_error = None, ba_duration_ms = 0,
     ba_input_bytes = 0, ba_usage = no_usage\<rparr>"

fun collect_branch :: "activity_error + step_activity_output \<Rightarrow> branch_acc \<Rightarrow> branch_acc" where
  "collect_branch (Inr out) acc = acc\<lparr>ba_duration_ms := ba_duration_ms acc + sao_duration_ms out,
     ba_input_bytes := ba_input_bytes acc + sao_input_bytes out,
     ba_usage := usage_merge (ba_usage acc) (sao_usage out),
     ba_outputs := ba_outputs acc @ [sao_output out]\<rparr>"
| "collect_branch (Inl (ActCancelled _ _)) acc = acc\<lparr>ba_cancelled := True\<rparr>"
| "collect_branch (Inl (ActFailed f display)) acc =
     (case ba_first_error acc of
        None \<Rightarrow> acc\<lparr>ba_first_error := Some (describe_activity_failure f display)\<rparr>
      | Some _ \<Rightarrow> acc)"

definition run_branches ::
  "wf_env \<Rightarrow> pipeline_workflow_input \<Rightarrow> step_definition \<Rightarrow> plugin_input list
   \<Rightarrow> (step_failure + step_outcome) \<times> wf_call list" where
  "run_branches env inp s branches =
     (if branches = [] then
        (Inr \<lparr>so_output = OutMany [], so_branches = 0, so_duration_ms = 0, so_input_bytes = 0,
              so_usage = no_usage\<rparr>, [])
      else
        let n_total = length branches;
            activities = map (\<lambda>(i, b). mk_activity inp s (Some i) (Some n_total) b) (enumerated branches);
            acc = fold collect_branch (map (en_step env) activities) no_branches;
            calls = map (\<lambda>a. CallStep a (activity_options_of s)) activities
        in (case ba_first_error acc of
              Some msg \<Rightarrow> Inl (SfFailed (show_nat (n_total - length (ba_outputs acc)) @ lit '' of ''
                 @ show_nat n_total @ lit '' branches failed; first error: '' @ msg))
            | None \<Rightarrow>
                if ba_cancelled acc then Inl SfCancelled
                else Inr \<lparr>so_output = OutMany (ba_outputs acc), so_branches = n_total,
                          so_duration_ms = ba_duration_ms acc, so_input_bytes = ba_input_bytes acc,
                          so_usage = ba_usage acc\<rparr>, calls))"

definition run_step ::
  "wf_env \<Rightarrow> pipeline_workflow_input \<Rightarrow> done_map \<Rightarrow> step_definition
   \<Rightarrow> (step_failure + step_outcome) \<times> wf_call list" where
  "run_step env inp done s =
     (case fan_out s of
        None \<Rightarrow>
          (let a = mk_activity inp s None None (resolve_input s (wi_input inp) done)
           in (case en_step env a of
                 Inl e \<Rightarrow> Inl (map_activity_error e)
               | Inr out \<Rightarrow> Inr \<lparr>so_output = sao_output out, so_branches = 1,
                    so_duration_ms = sao_duration_ms out, so_input_bytes = sao_input_bytes out,
                    so_usage = sao_usage out\<rparr>,
               [CallStep a (activity_options_of s)]))
      | Some path \<Rightarrow>
          (let upstream = (case depends_on s of [] \<Rightarrow> OutEmpty
                           | d # _ \<Rightarrow> (case done d of Some out \<Rightarrow> out | None \<Rightarrow> OutEmpty))
           in case fan_out_branches path upstream MAX_FAN_OUT_BRANCHES of
                Branches b \<Rightarrow> run_branches env inp s b
              | NeedsActivity spilled \<Rightarrow>
                  (let a = \<lparr>fo_job_id = wi_job_id inp, fo_step_id = step_id s, fo_upstream = spilled,
                            fo_path = path, fo_max_branches = MAX_FAN_OUT_BRANCHES\<rparr>
                   in case en_expand env a of
                        Inl e \<Rightarrow> (Inl (map_activity_error e), [CallExpand a])
                      | Inr b \<Rightarrow> (let (r, calls) = run_branches env inp s b in (r, CallExpand a # calls)))))"

section \<open>The run\<close>

record wf_state =
  ws_progress :: workflow_progress
  ws_done :: done_map
  ws_report :: "index_report option"
  ws_calls :: "wf_call list"

datatype wf_error = WfCancelled | WfFailure rstr

definition usage_input_of ::
  "wf_env \<Rightarrow> pipeline_workflow_input \<Rightarrow> job_status \<Rightarrow> rstr option \<Rightarrow> step_result list \<Rightarrow> job_usage_input" where
  "usage_input_of env inp status err steps = \<lparr>ju_job_id = wi_job_id inp,
     ju_workflow_id = workflow_id (wi_job_id inp), ju_pipeline_uid = pl_uid (wi_pipeline inp),
     ju_pipeline_builtin = pl_builtin (wi_pipeline inp),
     ju_tenant_id = (case ctx_tenant_id (wi_context inp) of Some t \<Rightarrow> t | None \<Rightarrow> []),
     ju_region = (case ctx_region (wi_context inp) of Some r \<Rightarrow> r | None \<Rightarrow> []),
     ju_index_name = (case ctx_index (wi_context inp) of Some i \<Rightarrow> i | None \<Rightarrow> []),
     ju_task_queue = lit ''workers-general'', ju_status = status,
     ju_started_at = to_utc (en_started_at env), ju_finished_at = to_utc (en_finished_at env),
     ju_input_bytes = of_nat (in_approx_size (en_ser env) (wi_input inp)),
     ju_input_mime = initial_mime (wi_input inp), ju_steps = steps, ju_error = err\<rparr>"

definition emit_usage ::
  "wf_env \<Rightarrow> pipeline_workflow_input \<Rightarrow> job_status \<Rightarrow> rstr option \<Rightarrow> wf_state \<Rightarrow> wf_state" where
  "emit_usage env inp status err st = st\<lparr>ws_calls := ws_calls st
     @ [CallUsage (usage_input_of env inp status err (wp_steps (ws_progress st)))]\<rparr>"

definition finish_cancelled :: "wf_env \<Rightarrow> pipeline_workflow_input \<Rightarrow> wf_state \<Rightarrow> wf_error \<times> wf_state" where
  "finish_cancelled env inp st = (WfCancelled, emit_usage env inp Cancelled None
     (st\<lparr>ws_progress := (ws_progress st)\<lparr>wp_status := Cancelled, wp_current_step := None\<rparr>\<rparr>))"

definition finish_failed ::
  "wf_env \<Rightarrow> pipeline_workflow_input \<Rightarrow> step_definition \<Rightarrow> rstr \<Rightarrow> wf_state \<Rightarrow> wf_error \<times> wf_state" where
  "finish_failed env inp s msg st =
     (let full = lit ''step '' @ step_id s @ lit '' ('' @ step_plugin s @ lit '') failed: '' @ msg;
          p = ws_progress st;
          p = p\<lparr>wp_status := Failed, wp_error := Some full, wp_steps := wp_steps p
                @ [\<lparr>sr_step_id = step_id s, sr_plugin = step_plugin s, sr_status = Failed,
                    sr_document_count = 0, sr_branches = 1, sr_error = Some msg, sr_duration_ms = 0,
                    sr_input_bytes = 0, sr_usage = no_usage\<rparr>]\<rparr>
      in (WfFailure full, emit_usage env inp Failed (Some full) (st\<lparr>ws_progress := p\<rparr>)))"

definition record_success :: "step_definition \<Rightarrow> step_outcome \<Rightarrow> wf_state \<Rightarrow> wf_state" where
  "record_success s outcome st =
     (let p = ws_progress st;
          report = (case so_output outcome of
                      OutIndexed r \<Rightarrow> if step_plugin s = INDEXER_PLUGIN then Some r else ws_report st
                    | _ \<Rightarrow> ws_report st);
          p = p\<lparr>wp_completed_steps := wp_completed_steps p + 1, wp_steps := wp_steps p
                @ [\<lparr>sr_step_id = step_id s, sr_plugin = step_plugin s, sr_status = Succeeded,
                    sr_document_count = out_document_count (so_output outcome),
                    sr_branches = so_branches outcome, sr_error = None,
                    sr_duration_ms = so_duration_ms outcome, sr_input_bytes = so_input_bytes outcome,
                    sr_usage = so_usage outcome\<rparr>]\<rparr>
      in st\<lparr>ws_progress := p, ws_report := report,
            ws_done := (ws_done st)(step_id s \<mapsto> so_output outcome)\<rparr>)"

text \<open>The results of a wave, in the order of its steps: the first step that did not complete ends the
  run.\<close>

fun settle ::
  "wf_env \<Rightarrow> pipeline_workflow_input \<Rightarrow> (step_definition \<times> (step_failure + step_outcome)) list
   \<Rightarrow> wf_state \<Rightarrow> (wf_error \<times> wf_state) + wf_state" where
  "settle env inp [] st = Inr st"
| "settle env inp ((s, Inr outcome) # rest) st = settle env inp rest (record_success s outcome st)"
| "settle env inp ((s, Inl SfCancelled) # rest) st = Inl (finish_cancelled env inp st)"
| "settle env inp ((s, Inl (SfFailed msg)) # rest) st = Inl (finish_failed env inp s msg st)"

text \<open>A wave: the first ready step is announced, the activities of all ready steps are scheduled, and
  their results settled.\<close>

definition announce :: "step_definition list \<Rightarrow> wf_call list \<Rightarrow> wf_state \<Rightarrow> wf_state" where
  "announce ready calls st = st\<lparr>ws_progress := (ws_progress st)\<lparr>wp_current_step :=
       (case ready of [] \<Rightarrow> None | s # _ \<Rightarrow> Some (step_id s))\<rparr>,
     ws_calls := ws_calls st @ calls\<rparr>"

definition wave ::
  "wf_env \<Rightarrow> pipeline_workflow_input \<Rightarrow> step_definition list \<Rightarrow> wf_state \<Rightarrow> (wf_error \<times> wf_state) + wf_state" where
  "wave env inp ready st =
     (let results = map (run_step env inp (ws_done st)) ready
      in settle env inp (zip ready (map fst results)) (announce ready (concat (map snd results)) st))"

definition signal_cancel :: "bool \<Rightarrow> wf_state \<Rightarrow> wf_state" where
  "signal_cancel c st = st\<lparr>ws_progress := (ws_progress st)
     \<lparr>wp_cancel_requested := wp_cancel_requested (ws_progress st) \<or> c\<rparr>\<rparr>"

definition pending :: "rstr list \<Rightarrow> wf_state \<Rightarrow> nat" where
  "pending order st = length (filter (\<lambda>i. ws_done st i = None) order)"

lemma signal_cancel_simps [simp]:
  "ws_done (signal_cancel c st) = ws_done st" "ws_calls (signal_cancel c st) = ws_calls st"
  "wp_steps (ws_progress (signal_cancel c st)) = wp_steps (ws_progress st)"
  "wp_completed_steps (ws_progress (signal_cancel c st)) = wp_completed_steps (ws_progress st)"
  "wp_total_steps (ws_progress (signal_cancel c st)) = wp_total_steps (ws_progress st)"
  "wp_status (ws_progress (signal_cancel c st)) = wp_status (ws_progress st)"
  by (simp_all add: signal_cancel_def)

lemma announce_simps [simp]:
  "ws_done (announce ready calls st) = ws_done st" "ws_calls (announce ready calls st) = ws_calls st @ calls"
  "wp_steps (ws_progress (announce ready calls st)) = wp_steps (ws_progress st)"
  "wp_completed_steps (ws_progress (announce ready calls st)) = wp_completed_steps (ws_progress st)"
  "wp_total_steps (ws_progress (announce ready calls st)) = wp_total_steps (ws_progress st)"
  "wp_status (ws_progress (announce ready calls st)) = wp_status (ws_progress st)"
  by (simp_all add: announce_def)

lemma record_success_simps [simp]:
  "ws_done (record_success s out st) = (ws_done st)(step_id s \<mapsto> so_output out)"
  "ws_calls (record_success s out st) = ws_calls st"
  "map sr_step_id (wp_steps (ws_progress (record_success s out st)))
     = map sr_step_id (wp_steps (ws_progress st)) @ [step_id s]"
  "wp_completed_steps (ws_progress (record_success s out st)) = wp_completed_steps (ws_progress st) + 1"
  "wp_total_steps (ws_progress (record_success s out st)) = wp_total_steps (ws_progress st)"
  "wp_status (ws_progress (record_success s out st)) = wp_status (ws_progress st)"
  by (simp_all add: record_success_def Let_def)

lemma settle_done:
  "settle env inp rs st = Inr st' \<Longrightarrow>
     dom (ws_done st') = dom (ws_done st) \<union> step_id ` fst ` set rs"
proof (induction env inp rs st rule: settle.induct)
  case (2 env inp s outcome rest st)
  then show ?case by auto
qed auto

lemma fst_zip_results [simp]: "fst ` set (zip ready (map f ready)) = set ready"
  by (metis length_map map_fst_zip set_map)

lemma wave_done:
  "wave env inp ready st = Inr st' \<Longrightarrow> dom (ws_done st') = dom (ws_done st) \<union> step_id ` set ready"
  unfolding wave_def Let_def by (drule settle_done) simp

lemma length_filter_strict:
  assumes "\<And>j. P j \<Longrightarrow> Q j" and "i \<in> set xs" and "Q i" and "\<not> P i"
  shows "length (filter P xs) < length (filter Q xs)"
  using assms(2)
proof (induction xs)
  case (Cons x xs)
  have "length (filter P xs) \<le> length (filter Q xs)" using assms(1) by (induction xs) auto
  then show ?case using Cons assms by (cases "x = i") auto
qed simp

lemma pending_decreases:
  assumes "ready_steps p order (ws_done st) \<noteq> []" and "wave env inp (ready_steps p order (ws_done st)) st = Inr st'"
  shows "pending order st' < pending order st"
proof -
  let ?ready = "ready_steps p order (ws_done st)"
  obtain s where "s \<in> set ?ready" using assms(1) by (cases ?ready) auto
  then obtain i where i: "i \<in> set order" "ws_done st i = None" "step_id s = i"
    using find_step_id by (fastforce simp: in_ready_steps)
  have d: "dom (ws_done st') = dom (ws_done st) \<union> step_id ` set ?ready" by (rule wave_done [OF assms(2)])
  with i \<open>s \<in> set ?ready\<close> have "ws_done st' i \<noteq> None" by blast
  moreover have "ws_done st j = None" if "ws_done st' j = None" for j using d that by blast
  ultimately show ?thesis unfolding pending_def using i
    by (intro length_filter_strict [where i = i]) auto
qed

text \<open>The loop. Turn \<open>n\<close> first looks for a cancel signal, then runs the steps that are ready.\<close>

function run_loop ::
  "wf_env \<Rightarrow> pipeline_workflow_input \<Rightarrow> rstr list \<Rightarrow> nat \<Rightarrow> wf_state \<Rightarrow> (wf_error \<times> wf_state) + wf_state" where
  "run_loop env inp order n st =
     (let st = signal_cancel (en_cancel env n) st;
          ready = ready_steps (wi_pipeline inp) order (ws_done st)
      in if wp_cancel_requested (ws_progress st) then Inl (finish_cancelled env inp st)
         else if ready = [] then Inr st
         else (case wave env inp ready st of
                 Inl x \<Rightarrow> Inl x
               | Inr st' \<Rightarrow> run_loop env inp order (n + 1) st'))"
  by pat_completeness auto
termination
proof (relation "measure (\<lambda>(env, inp, order, n, st). pending order st)", goal_cases)
  case (2 env inp order n st st1 ready st')
  then have "pending order st' < pending order st1"
    using pending_decreases [of "wi_pipeline inp" order st1 env inp st'] by simp
  with 2 show ?case by (simp add: pending_def)
qed simp

declare run_loop.simps [simp del]

definition initial_state :: wf_state where
  "initial_state = \<lparr>ws_progress = initial_progress, ws_done = Map.empty, ws_report = None, ws_calls = []\<rparr>"

definition started_state :: "pipeline_workflow_input \<Rightarrow> rstr list \<Rightarrow> wf_state" where
  "started_state inp order = initial_state
     \<lparr>ws_progress := initial_progress\<lparr>wp_status := Running, wp_total_steps := length order\<rparr>,
      ws_calls := [CallStarted (wi_job_id inp) (case order of [] \<Rightarrow> None | i # _ \<Rightarrow> Some i)]\<rparr>"

definition finish_succeeded ::
  "wf_env \<Rightarrow> pipeline_workflow_input \<Rightarrow> wf_state \<Rightarrow> pipeline_workflow_output \<times> wf_state" where
  "finish_succeeded env inp st =
     (let st = emit_usage env inp Succeeded None
                 (st\<lparr>ws_progress := (ws_progress st)\<lparr>wp_status := Succeeded, wp_current_step := None\<rparr>\<rparr>)
      in (\<lparr>wo_job_id = wi_job_id inp, wo_status = Succeeded, wo_steps = wp_steps (ws_progress st),
           wo_index_report = ws_report st, wo_error = None\<rparr>, st))"

definition run ::
  "wf_env \<Rightarrow> pipeline_workflow_input
   \<Rightarrow> ((wf_error \<times> wf_state) + (pipeline_workflow_output \<times> wf_state)) panic_or" where
  "run env inp =
     (case validate (wi_pipeline inp) of
        Panic \<Rightarrow> Panic
      | Value (Inl e) \<Rightarrow>
          (let msg = lit ''invalid pipeline '' @ pl_uid (wi_pipeline inp) @ lit '': ''
                       @ pipeline_error_str (en_debug env) e
           in Value (Inl (WfFailure msg, initial_state\<lparr>ws_progress :=
                initial_progress\<lparr>wp_status := Failed, wp_error := Some msg\<rparr>\<rparr>)))
      | Value (Inr order) \<Rightarrow>
          (case run_loop env inp order 0 (started_state inp order) of
             Inl x \<Rightarrow> Value (Inl x)
           | Inr st \<Rightarrow> Value (Inr (finish_succeeded env inp st))))"

section \<open>Queries\<close>

definition query_current_step :: "wf_state \<Rightarrow> rstr" where
  "query_current_step st = (case wp_current_step (ws_progress st) of Some i \<Rightarrow> i | None \<Rightarrow> [])"

end
