(* ===== verification/Workflow_Correct.thy ===== *)
theory Workflow_Correct
  imports Workflow
begin

text \<open>
  What a run of the workflow guarantees. Two invariants hold at every turn of the loop and at its end:
  \<open>progress_inv\<close> (the steps reported are distinct, succeeded, are the ones whose outputs are known, and
  come after their dependencies) and \<open>calls_inv\<close> (no step activity is scheduled twice, none before
  the dependencies of its step succeeded, and no usage is reported yet). The properties read them off
  the three ways a run can end.
\<close>

section \<open>Reported steps\<close>

definition reported :: "wf_state \<Rightarrow> rstr list" where
  "reported st = map sr_step_id (wp_steps (ws_progress st))"

definition dep_closed :: "pipeline_definition \<Rightarrow> rstr list \<Rightarrow> bool" where
  "dep_closed p ids \<longleftrightarrow> (\<forall>k < length ids. \<forall>s \<in> set (pl_steps p).
     step_id s = ids ! k \<longrightarrow> set (depends_on s) \<subseteq> set (take k ids))"

lemma dep_closed_Nil [simp]: "dep_closed p []"
  by (simp add: dep_closed_def)

lemma dep_closed_snoc:
  "dep_closed p ids \<Longrightarrow> (\<And>s. s \<in> set (pl_steps p) \<Longrightarrow> step_id s = i \<Longrightarrow> set (depends_on s) \<subseteq> set ids)
   \<Longrightarrow> dep_closed p (ids @ [i])"
  by (auto simp: dep_closed_def nth_append less_Suc_eq)

definition all_succeeded :: "wf_state \<Rightarrow> bool" where
  "all_succeeded st \<longleftrightarrow> list_all (\<lambda>r. sr_status r = Succeeded) (wp_steps (ws_progress st))"

definition progress_inv :: "pipeline_definition \<Rightarrow> rstr list \<Rightarrow> rstr list \<Rightarrow> wf_state \<Rightarrow> bool" where
  "progress_inv p order pend st \<longleftrightarrow>
     distinct (reported st @ pend) \<and> set (reported st) = dom (ws_done st)
     \<and> set (reported st @ pend) \<subseteq> set order \<and> dep_closed p (reported st)
     \<and> (\<forall>s \<in> set (pl_steps p). step_id s \<in> set pend \<longrightarrow> set (depends_on s) \<subseteq> set (reported st))
     \<and> all_succeeded st
     \<and> wp_completed_steps (ws_progress st) = length (reported st)
     \<and> wp_status (ws_progress st) = Running \<and> wp_total_steps (ws_progress st) = length order"

lemma reported_simps [simp]:
  "reported (signal_cancel c st) = reported st" "reported (announce ready calls st) = reported st"
  "reported (record_success s out st) = reported st @ [step_id s]"
  "all_succeeded (signal_cancel c st) = all_succeeded st"
  "all_succeeded (announce ready calls st) = all_succeeded st"
  "all_succeeded (record_success s out st) = all_succeeded st"
  by (simp_all add: reported_def all_succeeded_def record_success_def Let_def)

lemma progress_inv_signal [simp]: "progress_inv p order pend (signal_cancel c st) = progress_inv p order pend st"
  by (simp add: progress_inv_def)

lemma progress_inv_announce [simp]:
  "progress_inv p order pend (announce ready calls st) = progress_inv p order pend st"
  by (simp add: progress_inv_def)

lemma progress_inv_next:
  assumes "progress_inv p order (i # pend) st"
  shows "dep_closed p (reported st @ [i])"
proof -
  have "set (depends_on s) \<subseteq> set (reported st)" if "s \<in> set (pl_steps p)" "step_id s = i" for s
    using assms that unfolding progress_inv_def by (metis list.set_intros(1))
  then show ?thesis using assms by (intro dep_closed_snoc) (simp_all add: progress_inv_def)
qed

lemma progress_inv_record:
  assumes "progress_inv p order (step_id s # pend) st"
  shows "progress_inv p order pend (record_success s out st)"
proof -
  have "dep_closed p (reported st @ [step_id s])" by (rule progress_inv_next [OF assms])
  moreover have "\<forall>s' \<in> set (pl_steps p). step_id s' \<in> set pend
      \<longrightarrow> set (depends_on s') \<subseteq> set (reported (record_success s out st))"
    using assms unfolding progress_inv_def reported_simps set_append by (meson le_supI1 list.set_intros(2))
  ultimately show ?thesis using assms by (auto simp: progress_inv_def)
qed

text \<open>How a run ends early: cancelled, or by the first step of the pending ones that failed.\<close>

definition ended :: "wf_env \<Rightarrow> pipeline_workflow_input \<Rightarrow> rstr list \<Rightarrow> wf_error \<times> wf_state \<Rightarrow> wf_state \<Rightarrow> bool" where
  "ended env inp order x st \<longleftrightarrow> (\<exists>pend. progress_inv (wi_pipeline inp) order pend st
     \<and> (x = finish_cancelled env inp st
        \<or> (\<exists>s msg pend'. pend = step_id s # pend' \<and> x = finish_failed env inp s msg st)))"

lemma settle_progress:
  assumes "progress_inv (wi_pipeline inp) order (map step_id (map fst rs)) st"
  shows "case settle env inp rs st of Inr st' \<Rightarrow> progress_inv (wi_pipeline inp) order [] st'
    | Inl x \<Rightarrow> \<exists>st'. ended env inp order x st'"
  using assms
proof (induction env inp rs st rule: settle.induct)
  case (1 env inp st)
  then show ?case by simp
next
  case (2 env inp s outcome rest st)
  then have "progress_inv (wi_pipeline inp) order (map step_id (map fst rest)) (record_success s outcome st)"
    by (intro progress_inv_record) simp
  from 2(1) [OF this] show ?case by simp
next
  case (3 env inp s rest st)
  then have "ended env inp order (finish_cancelled env inp st) st" unfolding ended_def by blast
  then show ?case by auto
next
  case (4 env inp s msg rest st)
  then show ?case by (force simp: ended_def)
qed

section \<open>Scheduled activities\<close>

definition step_calls :: "wf_call list \<Rightarrow> step_activity_input list" where
  "step_calls cs = List.map_filter (\<lambda>c. case c of CallStep a _ \<Rightarrow> Some a | _ \<Rightarrow> None) cs"

definition usage_calls :: "wf_call list \<Rightarrow> job_usage_input list" where
  "usage_calls cs = List.map_filter (\<lambda>c. case c of CallUsage u \<Rightarrow> Some u | _ \<Rightarrow> None) cs"

definition call_key :: "step_activity_input \<Rightarrow> rstr \<times> nat option" where
  "call_key a = (sai_step_id a, sai_branch a)"

lemma map_filter_append [simp]: "List.map_filter f (xs @ ys) = List.map_filter f xs @ List.map_filter f ys"
  by (induction xs) (auto simp: List.map_filter_simps split: option.split)

lemma map_filter_concat: "List.map_filter f (concat xss) = concat (map (List.map_filter f) xss)"
  by (induction xss) (simp_all add: List.map_filter_simps)

lemma calls_simps [simp]:
  "step_calls [] = []" "usage_calls [] = []"
  "step_calls (xs @ ys) = step_calls xs @ step_calls ys"
  "usage_calls (xs @ ys) = usage_calls xs @ usage_calls ys"
  "step_calls (CallStep a opts # cs) = a # step_calls cs" "usage_calls (CallStep a opts # cs) = usage_calls cs"
  "step_calls (CallExpand f # cs) = step_calls cs" "usage_calls (CallExpand f # cs) = usage_calls cs"
  "step_calls (CallUsage u # cs) = step_calls cs" "usage_calls (CallUsage u # cs) = u # usage_calls cs"
  "step_calls (CallStarted j i # cs) = step_calls cs" "usage_calls (CallStarted j i # cs) = usage_calls cs"
  by (simp_all add: step_calls_def usage_calls_def List.map_filter_simps)

lemma calls_map_step [simp]:
  "step_calls (map (\<lambda>a. CallStep a opts) as) = as" "usage_calls (map (\<lambda>a. CallStep a opts) as) = []"
  by (induction as) simp_all

definition activities_of ::
  "pipeline_workflow_input \<Rightarrow> step_definition \<Rightarrow> plugin_input list \<Rightarrow> step_activity_input list" where
  "activities_of inp s bs =
     map (\<lambda>(i, b). mk_activity inp s (Some i) (Some (length bs)) b) (enumerated bs)"

lemma run_branches_calls:
  "step_calls (snd (run_branches env inp s bs)) = activities_of inp s bs"
  "usage_calls (snd (run_branches env inp s bs)) = []"
  by (auto simp: run_branches_def Let_def activities_of_def enumerated_def simp del: map_map)

text \<open>Every activity of a step is one of its branches, or the step itself, and they are distinct.\<close>

lemma activities_of_props:
  "a \<in> set (activities_of inp s bs) \<Longrightarrow> \<exists>b t i. a = mk_activity inp s b t i"
  "distinct (map call_key (activities_of inp s bs))"
proof -
  show "a \<in> set (activities_of inp s bs) \<Longrightarrow> \<exists>b t i. a = mk_activity inp s b t i"
    by (auto simp: activities_of_def)
  have "map call_key (activities_of inp s bs) = map (\<lambda>i. (step_id s, Some i)) [0..<length bs]"
    by (rule nth_equalityI) (simp_all add: activities_of_def enumerated_def call_key_def mk_activity_def)
  then show "distinct (map call_key (activities_of inp s bs))"
    by (simp add: distinct_map inj_on_def)
qed

lemma run_step_calls:
  "usage_calls (snd (run_step env inp dn s)) = []"
  "a \<in> set (step_calls (snd (run_step env inp dn s))) \<Longrightarrow> \<exists>b t i. a = mk_activity inp s b t i"
  "distinct (map call_key (step_calls (snd (run_step env inp dn s))))"
  using run_branches_calls [of env inp s] activities_of_props [where inp = inp and s = s]
  by (auto simp: run_step_def Let_def case_prod_beta split: option.splits fan_out_result.splits sum.splits)

definition calls_inv :: "pipeline_workflow_input \<Rightarrow> rstr set \<Rightarrow> wf_state \<Rightarrow> bool" where
  "calls_inv inp extra st \<longleftrightarrow>
     distinct (map call_key (step_calls (ws_calls st))) \<and> usage_calls (ws_calls st) = []
     \<and> (\<forall>a \<in> set (step_calls (ws_calls st)). sai_step_id a \<in> dom (ws_done st) \<union> extra
          \<and> (\<exists>s \<in> set (pl_steps (wi_pipeline inp)). set (depends_on s) \<subseteq> dom (ws_done st)
                \<and> (\<exists>b t i. a = mk_activity inp s b t i)))"

lemma calls_inv_signal [simp]: "calls_inv inp extra (signal_cancel c st) = calls_inv inp extra st"
  by (simp add: calls_inv_def)

lemma calls_inv_record: "calls_inv inp extra st \<Longrightarrow> calls_inv inp extra (record_success s out st)"
  unfolding calls_inv_def by (simp add: dom_def) blast

lemma calls_inv_shrink: "calls_inv inp extra st \<Longrightarrow> extra \<subseteq> dom (ws_done st) \<Longrightarrow> calls_inv inp {} st"
  unfolding calls_inv_def by (simp add: Un_absorb2)

section \<open>A wave\<close>

lemma step_calls_concat: "step_calls (concat css) = concat (map step_calls css)"
  "usage_calls (concat css) = concat (map usage_calls css)"
  by (induction css) simp_all

definition wave_calls :: "wf_env \<Rightarrow> pipeline_workflow_input \<Rightarrow> done_map \<Rightarrow> step_definition list \<Rightarrow> wf_call list" where
  "wave_calls env inp dn ss = concat (map snd (map (run_step env inp dn) ss))"

lemma mk_activity_id [simp]: "sai_step_id (mk_activity inp s b t i) = step_id s"
  by (simp add: mk_activity_def)

lemma wave_calls_props:
  "usage_calls (wave_calls env inp dn ss) = []"
  "a \<in> set (step_calls (wave_calls env inp dn ss)) \<Longrightarrow> \<exists>s \<in> set ss. \<exists>b t i. a = mk_activity inp s b t i"
  using run_step_calls(1,2) by (fastforce simp: wave_calls_def step_calls_concat)+

lemma wave_calls_distinct:
  "distinct (map step_id ss) \<Longrightarrow> distinct (map call_key (step_calls (wave_calls env inp dn ss)))"
proof (induction ss)
  case (Cons s ss)
  have d: "distinct (map call_key (step_calls (snd (run_step env inp dn s))))" by (rule run_step_calls)
  have "fst k = step_id s" if "k \<in> call_key ` set (step_calls (snd (run_step env inp dn s)))" for k
    using that run_step_calls(2) by (fastforce simp: call_key_def)
  moreover have "fst k \<in> step_id ` set ss" if "k \<in> call_key ` set (step_calls (wave_calls env inp dn ss))" for k
    using that wave_calls_props(2) by (fastforce simp: call_key_def)
  moreover have "step_id s \<notin> step_id ` set ss" using Cons.prems by auto
  ultimately have "call_key ` set (step_calls (snd (run_step env inp dn s)))
      \<inter> call_key ` set (step_calls (wave_calls env inp dn ss)) = {}" by (metis disjoint_iff)
  with d Cons show ?case by (simp add: wave_calls_def)
qed (simp add: wave_calls_def)

lemma dependency_order_steps:
  assumes "dependency_order p order" and "s \<in> set (pl_steps p)" and "t \<in> set (pl_steps p)" and "step_id s = step_id t"
  shows "s = t"
proof -
  have "distinct order" "set order = set (step_ids p)" "length order = length (step_ids p)"
    using assms(1) by (auto simp: dependency_order_def step_ids_def)
  then have "distinct (step_ids p)" by (metis card_distinct distinct_card)
  with assms(2-4) show ?thesis by (auto simp: step_ids_def distinct_map inj_on_def)
qed

lemma wave_inv:
  fixes env :: wf_env
  assumes ord: "dependency_order (wi_pipeline inp) order"
    and ci: "calls_inv inp {} st" and pi: "progress_inv (wi_pipeline inp) order [] st"
  defines "ready \<equiv> ready_steps (wi_pipeline inp) order (ws_done st)"
  defines "st1 \<equiv> announce ready (wave_calls env inp (ws_done st) ready) st"
  shows "calls_inv inp (step_id ` set ready) st1"
    and "progress_inv (wi_pipeline inp) order (map step_id ready) st1"
proof -
  let ?p = "wi_pipeline inp"
  have dom: "set (reported st) = dom (ws_done st)" using pi by (simp add: progress_inv_def)
  have rd: "distinct (map step_id ready)"
    unfolding ready_def using ord by (intro ready_ids_distinct) (simp add: dependency_order_def)
  have r: "s \<in> set (pl_steps ?p)" "step_id s \<in> set order" "ws_done st (step_id s) = None"
    "set (depends_on s) \<subseteq> dom (ws_done st)" if "s \<in> set ready" for s
    using that find_step_id [of ?p _ s] by (auto simp: ready_def in_ready_steps)
  have new: "fst k \<notin> step_id ` set ready" if "k \<in> call_key ` set (step_calls (ws_calls st))" for k
    using that ci r(3) by (fastforce simp: calls_inv_def call_key_def)
  have own: "fst k \<in> step_id ` set ready"
    if "k \<in> call_key ` set (step_calls (wave_calls env inp (ws_done st) ready))" for k
    using that wave_calls_props(2) by (fastforce simp: call_key_def)
  have "call_key ` set (step_calls (ws_calls st))
      \<inter> call_key ` set (step_calls (wave_calls env inp (ws_done st) ready)) = {}"
    using new own by blast
  then have "distinct (map call_key (step_calls (ws_calls st1)))"
    using ci wave_calls_distinct [OF rd] by (simp add: st1_def calls_inv_def)
  moreover have "sai_step_id a \<in> dom (ws_done st1) \<union> step_id ` set ready
      \<and> (\<exists>s \<in> set (pl_steps ?p). set (depends_on s) \<subseteq> dom (ws_done st1) \<and> (\<exists>b t i. a = mk_activity inp s b t i))"
    if "a \<in> set (step_calls (ws_calls st1))" for a
  proof (cases "a \<in> set (step_calls (ws_calls st))")
    case True
    with ci show ?thesis by (auto simp: calls_inv_def st1_def)
  next
    case False
    with that obtain s b t i where "s \<in> set ready" "a = mk_activity inp s b t i"
      using wave_calls_props(2) [of a env inp "ws_done st" ready] by (auto simp: st1_def)
    moreover have "s \<in> set (pl_steps ?p)" "set (depends_on s) \<subseteq> dom (ws_done st1)"
      using r \<open>s \<in> set ready\<close> by (simp_all add: st1_def)
    ultimately show ?thesis by auto
  qed
  ultimately show "calls_inv inp (step_id ` set ready) st1"
    using ci wave_calls_props(1) by (auto simp: calls_inv_def st1_def)
  have "set (depends_on s) \<subseteq> set (reported st)" if "s \<in> set (pl_steps ?p)" "step_id s \<in> step_id ` set ready" for s
    using that r(1,4) dependency_order_steps [OF ord] unfolding dom by blast
  moreover have "set (reported st) \<inter> step_id ` set ready = {}" using r(3) dom by auto
  ultimately show "progress_inv ?p order (map step_id ready) st1"
    using pi rd r(2) by (auto simp: progress_inv_def st1_def)
qed

section \<open>The loop\<close>

lemma wave_alt:
  "wave env inp ready st = settle env inp (zip ready (map fst (map (run_step env inp (ws_done st)) ready)))
     (announce ready (wave_calls env inp (ws_done st) ready) st)"
  by (simp add: wave_def wave_calls_def Let_def)

definition run_inv :: "pipeline_workflow_input \<Rightarrow> rstr list \<Rightarrow> wf_state \<Rightarrow> bool" where
  "run_inv inp order st \<longleftrightarrow> progress_inv (wi_pipeline inp) order [] st \<and> calls_inv inp {} st"

text \<open>The end of a run that did not succeed: the state before it, and what ended it.\<close>

definition early_end :: "wf_env \<Rightarrow> pipeline_workflow_input \<Rightarrow> rstr list \<Rightarrow> wf_error \<times> wf_state \<Rightarrow> bool" where
  "early_end env inp order x \<longleftrightarrow> (\<exists>st pend. progress_inv (wi_pipeline inp) order pend st
     \<and> calls_inv inp UNIV st
     \<and> (x = finish_cancelled env inp st
        \<or> (\<exists>s msg pend'. pend = step_id s # pend' \<and> x = finish_failed env inp s msg st)))"

lemma settle_both:
  assumes "progress_inv (wi_pipeline inp) order (map step_id (map fst rs)) st" and "calls_inv inp extra st"
  shows "case settle env inp rs st of
      Inr st' \<Rightarrow> progress_inv (wi_pipeline inp) order [] st' \<and> calls_inv inp extra st'
    | Inl x \<Rightarrow> early_end env inp order x"
  using assms
proof (induction env inp rs st rule: settle.induct)
  case (2 env inp s outcome rest st)
  then have "progress_inv (wi_pipeline inp) order (map step_id (map fst rest)) (record_success s outcome st)"
    by (intro progress_inv_record) simp
  from 2(1) [OF this calls_inv_record [OF 2(3)]] show ?case by simp
next
  case (3 env inp s rest st)
  moreover have "calls_inv inp UNIV st" using 3 by (auto simp: calls_inv_def)
  ultimately show ?case unfolding early_end_def by auto
next
  case (4 env inp s msg rest st)
  moreover have "calls_inv inp UNIV st" using 4 by (auto simp: calls_inv_def)
  ultimately show ?case unfolding early_end_def by force
qed simp

lemma wave_result:
  assumes "dependency_order (wi_pipeline inp) order" and "run_inv inp order st"
    and "ready = ready_steps (wi_pipeline inp) order (ws_done st)"
  shows "case wave env inp ready st of Inr st' \<Rightarrow> run_inv inp order st' | Inl x \<Rightarrow> early_end env inp order x"
proof -
  let ?st1 = "announce ready (wave_calls env inp (ws_done st) ready) st"
  let ?rs = "zip ready (map fst (map (run_step env inp (ws_done st)) ready))"
  have i: "calls_inv inp (step_id ` set ready) ?st1" "progress_inv (wi_pipeline inp) order (map step_id ready) ?st1"
    using wave_inv [of inp order st env] assms by (simp_all add: run_inv_def)
  have "map fst ?rs = ready" by simp
  with settle_both [of inp order ?rs ?st1 "step_id ` set ready" env] i
  have r: "case wave env inp ready st of
      Inr st' \<Rightarrow> progress_inv (wi_pipeline inp) order [] st' \<and> calls_inv inp (step_id ` set ready) st'
    | Inl x \<Rightarrow> early_end env inp order x"
    unfolding wave_alt by simp
  show ?thesis
  proof (cases "wave env inp ready st")
    case (Inl x)
    with r show ?thesis by simp
  next
    case (Inr st')
    have "step_id ` set ready \<subseteq> dom (ws_done st')" using wave_done [OF Inr] by blast
    with r Inr show ?thesis by (auto simp: run_inv_def intro: calls_inv_shrink)
  qed
qed

lemma run_loop_result:
  assumes "dependency_order (wi_pipeline inp) order" and "run_inv inp order st"
  shows "case run_loop env inp order n st of
      Inr st' \<Rightarrow> run_inv inp order st' \<and> set (reported st') = set order
    | Inl x \<Rightarrow> early_end env inp order x"
  using assms
proof (induction env inp order n st rule: run_loop.induct)
  case (1 env inp order n st)
  let ?st = "signal_cancel (en_cancel env n) st"
  let ?ready = "ready_steps (wi_pipeline inp) order (ws_done ?st)"
  have li: "run_inv inp order ?st" using 1(3) by (simp add: run_inv_def)
  consider (cancel) "wp_cancel_requested (ws_progress ?st)"
    | (fin) "\<not> wp_cancel_requested (ws_progress ?st)" "?ready = []"
    | (wave) "\<not> wp_cancel_requested (ws_progress ?st)" "?ready \<noteq> []" by blast
  then show ?case
  proof cases
    case cancel
    then have e: "run_loop env inp order n st = Inl (finish_cancelled env inp ?st)"
      by (subst run_loop.simps) (simp add: Let_def)
    have "calls_inv inp UNIV ?st" using li by (auto simp: run_inv_def calls_inv_def)
    with li have "early_end env inp order (finish_cancelled env inp ?st)"
      unfolding early_end_def run_inv_def by blast
    with e show ?thesis by simp
  next
    case fin
    then have e: "run_loop env inp order n st = Inr ?st"
      by (subst run_loop.simps) (simp add: Let_def)
    have "set order \<subseteq> dom (ws_done ?st)"
      using ready_progress [OF 1(2), of _ "ws_done ?st"] fin(2) by blast
    with li have "set (reported ?st) = set order" by (auto simp: run_inv_def progress_inv_def)
    with e li show ?thesis by simp
  next
    case wave
    show ?thesis
    proof (cases "wave env inp ?ready ?st")
      case (Inl x)
      with wave have "run_loop env inp order n st = Inl x"
        by (subst run_loop.simps) (simp add: Let_def)
      with wave_result [OF 1(2) li refl, of env] Inl show ?thesis by simp
    next
      case (Inr st')
      with wave have "run_loop env inp order n st = run_loop env inp order (n + 1) st'"
        by (subst run_loop.simps) (simp add: Let_def)
      moreover have "run_inv inp order st'" using wave_result [OF 1(2) li refl, of env] Inr by simp
      ultimately show ?thesis using 1(1) [OF refl refl wave Inr 1(2)] by simp
    qed
  qed
qed

section \<open>The end of a run\<close>

lemma run_inv_start: "run_inv inp order (started_state inp order)"
  by (simp add: run_inv_def progress_inv_def calls_inv_def started_state_def initial_state_def
      initial_progress_def reported_def all_succeeded_def)

definition final_state :: "(wf_error \<times> wf_state) + (pipeline_workflow_output \<times> wf_state) \<Rightarrow> wf_state" where
  "final_state r = (case r of Inl (_, st) \<Rightarrow> st | Inr (_, st) \<Rightarrow> st)"

lemma finish_simps [simp]:
  "step_calls (ws_calls (snd (finish_cancelled env inp st))) = step_calls (ws_calls st)"
  "step_calls (ws_calls (snd (finish_failed env inp s msg st))) = step_calls (ws_calls st)"
  "step_calls (ws_calls (snd (finish_succeeded env inp st))) = step_calls (ws_calls st)"
  "ws_done (snd (finish_cancelled env inp st)) = ws_done st"
  "ws_done (snd (finish_failed env inp s msg st)) = ws_done st"
  "ws_done (snd (finish_succeeded env inp st)) = ws_done st"
  by (simp_all add: finish_cancelled_def finish_failed_def finish_succeeded_def emit_usage_def Let_def)

lemma run_result:
  assumes "validate (wi_pipeline inp) = Value (Inr order)"
  shows "\<exists>r. run env inp = Value r \<and> (case r of Inl x \<Rightarrow> early_end env inp order x
    | Inr y \<Rightarrow> \<exists>st. run_inv inp order st \<and> set (reported st) = set order \<and> y = finish_succeeded env inp st)"
proof -
  have r: "case run_loop env inp order 0 (started_state inp order) of
      Inr st' \<Rightarrow> run_inv inp order st' \<and> set (reported st') = set order
    | Inl x \<Rightarrow> early_end env inp order x"
    by (rule run_loop_result [OF validate_dependency_order [OF assms] run_inv_start])
  show ?thesis
  proof (cases "run_loop env inp order 0 (started_state inp order)")
    case (Inl x)
    with r assms show ?thesis by (simp add: run_def)
  next
    case (Inr st)
    with r assms show ?thesis by (auto simp: run_def)
  qed
qed

lemma run_cases:
  assumes "validate (wi_pipeline inp) = Value (Inr order)" and "run env inp = Value r"
  obtains (success) st where "r = Inr (finish_succeeded env inp st)" "run_inv inp order st" "set (reported st) = set order"
  | (cancelled) st pend where "r = Inl (finish_cancelled env inp st)"
      "progress_inv (wi_pipeline inp) order pend st" "calls_inv inp UNIV st"
  | (failed) st s msg pend where "r = Inl (finish_failed env inp s msg st)"
      "progress_inv (wi_pipeline inp) order (step_id s # pend) st" "calls_inv inp UNIV st"
  using run_result [OF assms(1), of env] assms(2)
  by (auto simp: early_end_def split: sum.splits)

lemma run_order:
  assumes "run env inp = Value (Inr (out, st))"
  shows "\<exists>order. validate (wi_pipeline inp) = Value (Inr order)"
  using assms by (auto simp: run_def Let_def split: panic_or.splits sum.splits)

text \<open>C1. A job reported as succeeded ran a valid pipeline, and ran all of it: every step is reported
  once, as succeeded, after the steps it depends on, and the counters say so.\<close>

theorem run_success:
  assumes "run env inp = Value (Inr (out, st))"
  shows "distinct (map sr_step_id (wo_steps out)) \<and> set (map sr_step_id (wo_steps out)) = set (step_ids (wi_pipeline inp))
    \<and> dep_closed (wi_pipeline inp) (map sr_step_id (wo_steps out))
    \<and> list_all (\<lambda>r. sr_status r = Succeeded) (wo_steps out)
    \<and> wp_status (ws_progress st) = Succeeded \<and> wo_status out = Succeeded
    \<and> wp_completed_steps (ws_progress st) = length (pl_steps (wi_pipeline inp))
    \<and> wp_total_steps (ws_progress st) = length (pl_steps (wi_pipeline inp))"
proof -
  obtain order where v: "validate (wi_pipeline inp) = Value (Inr order)" using run_order [OF assms] by blast
  from validate_dependency_order [OF v]
  have ord: "set order = set (step_ids (wi_pipeline inp))" "distinct order" "length order = length (pl_steps (wi_pipeline inp))"
    by (auto simp: dependency_order_def)
  from v assms show ?thesis
  proof (cases rule: run_cases)
    case (success st0)
    from success(2) have p: "distinct (reported st0)" "dep_closed (wi_pipeline inp) (reported st0)" "all_succeeded st0"
      "wp_completed_steps (ws_progress st0) = length (reported st0)" "wp_total_steps (ws_progress st0) = length order"
      by (auto simp: run_inv_def progress_inv_def)
    have "length (reported st0) = length order"
      using p(1) ord(2) success(3) by (metis distinct_card)
    with p success(1,3) ord show ?thesis
      by (simp add: finish_succeeded_def emit_usage_def reported_def all_succeeded_def)
  qed simp_all
qed

text \<open>C3. A job of a valid pipeline that ends in the failure of a step reports that step last, with its error, and before it only
  steps that succeeded, each once and after the steps it depends on. The job's error names the failed step and repeats its error; the
  job's status is \<open>Failed\<close> and the steps before the last are the ones it counts as completed. Steps that ran beside the failed
  one may be missing.\<close>

theorem run_failure:
  assumes "validate (wi_pipeline inp) = Value (Inr order)"
    and "run env inp = Value (Inl (WfFailure msg, st))"
  shows "\<exists>before r m. wp_steps (ws_progress st) = before @ [r]
    \<and> list_all (\<lambda>r. sr_status r = Succeeded) before \<and> sr_status r = Failed
    \<and> sr_error r = Some m \<and> msg = lit ''step '' @ sr_step_id r @ lit '' ('' @ sr_plugin r @ lit '') failed: '' @ m
    \<and> distinct (map sr_step_id (before @ [r])) \<and> dep_closed (wi_pipeline inp) (map sr_step_id (before @ [r]))
    \<and> set (map sr_step_id (before @ [r])) \<subseteq> set (step_ids (wi_pipeline inp))
    \<and> wp_status (ws_progress st) = Failed \<and> wp_error (ws_progress st) = Some msg
    \<and> wp_completed_steps (ws_progress st) = length before
    \<and> wp_total_steps (ws_progress st) = length (pl_steps (wi_pipeline inp))"
  using assms
proof (cases rule: run_cases)
  case (failed st0 s m pend)
  then have p: "distinct (reported st0 @ [step_id s])" "all_succeeded st0" "set (reported st0 @ [step_id s]) \<subseteq> set order"
    "wp_completed_steps (ws_progress st0) = length (reported st0)" "wp_total_steps (ws_progress st0) = length order"
    by (auto simp: progress_inv_def)
  have "dep_closed (wi_pipeline inp) (reported st0 @ [step_id s])" by (rule progress_inv_next [OF failed(2)])
  moreover have "set order = set (step_ids (wi_pipeline inp))" "length order = length (pl_steps (wi_pipeline inp))"
    using validate_dependency_order [OF assms(1)] by (auto simp: dependency_order_def)
  ultimately show ?thesis
    using failed(1) p by (simp add: finish_failed_def emit_usage_def Let_def reported_def all_succeeded_def)
next
  case (cancelled st0 pend)
  then show ?thesis by (simp add: finish_cancelled_def)
qed simp

text \<open>C2. Every run ends, without a panic, and bills exactly once: a job whose pipeline is valid
  sends one usage record, with the terminal status and all the steps of its progress, whether it
  succeeds, fails or is cancelled; a job whose pipeline is refused runs nothing and sends none.\<close>

theorem run_bills_once:
  "\<exists>r. run env inp = Value r
    \<and> is_terminal (wp_status (ws_progress (final_state r)))
    \<and> (case validate (wi_pipeline inp) of
         Value (Inr order) \<Rightarrow> \<exists>u. usage_calls (ws_calls (final_state r)) = [u]
            \<and> last (ws_calls (final_state r)) = CallUsage u
            \<and> ju_status u = wp_status (ws_progress (final_state r))
            \<and> ju_steps u = wp_steps (ws_progress (final_state r))
       | _ \<Rightarrow> ws_calls (final_state r) = [])"
proof (cases "validate (wi_pipeline inp)")
  case Panic
  with validate_accepts [of "wi_pipeline inp"] show ?thesis by simp
next
  case (Value v)
  show ?thesis
  proof (cases v)
    case (Inl e)
    with Value show ?thesis
      by (simp add: run_def Let_def final_state_def initial_state_def initial_progress_def)
  next
    case (Inr order)
    with Value have v: "validate (wi_pipeline inp) = Value (Inr order)" by simp
    then obtain r where r: "run env inp = Value r" using run_result by blast
    from v r show ?thesis
    proof (cases rule: run_cases)
      case (success st)
      then show ?thesis using r v
        by (auto simp: final_state_def finish_succeeded_def emit_usage_def Let_def usage_input_of_def
            run_inv_def calls_inv_def)
    next
      case (cancelled st pend)
      then show ?thesis using r v
        by (auto simp: final_state_def finish_cancelled_def emit_usage_def usage_input_of_def calls_inv_def)
    next
      case (failed st s msg pend)
      then show ?thesis using r v
        by (auto simp: final_state_def finish_failed_def emit_usage_def Let_def usage_input_of_def calls_inv_def)
    qed
  qed
qed

section \<open>What was scheduled\<close>

lemma run_calls_inv:
  assumes "run env inp = Value r"
  shows "\<exists>st. step_calls (ws_calls (final_state r)) = step_calls (ws_calls st)
    \<and> ws_done (final_state r) = ws_done st \<and> calls_inv inp UNIV st"
proof (cases "\<exists>order. validate (wi_pipeline inp) = Value (Inr order)")
  case False
  with assms have "ws_calls (final_state r) = [] \<and> ws_done (final_state r) = Map.empty"
    by (auto simp: run_def Let_def final_state_def initial_state_def split: panic_or.splits sum.splits)
  moreover have "calls_inv inp UNIV initial_state" by (simp add: calls_inv_def initial_state_def)
  ultimately show ?thesis by (intro exI [of _ initial_state]) (simp add: initial_state_def)
next
  case True
  then obtain order where v: "validate (wi_pipeline inp) = Value (Inr order)" by blast
  from v assms show ?thesis
  proof (cases rule: run_cases)
    case (success st)
    then have "calls_inv inp UNIV st" by (auto simp: run_inv_def calls_inv_def)
    with success show ?thesis
      using finish_simps(3,6) [of env inp st] by (auto simp: final_state_def case_prod_beta)
  next
    case (cancelled st pend)
    then show ?thesis
      using finish_simps(1,4) [of env inp st] by (auto simp: final_state_def case_prod_beta)
  next
    case (failed st s msg pend)
    then show ?thesis
      using finish_simps(2,5) [of env inp s msg st] by (auto simp: final_state_def case_prod_beta)
  qed
qed

text \<open>C4. However a run ends, no step activity was scheduled twice, and one was scheduled only for a
  step of the pipeline all of whose dependencies had produced their outputs.\<close>

theorem run_schedules_once:
  assumes "run env inp = Value r"
  shows "distinct (map call_key (step_calls (ws_calls (final_state r))))
    \<and> list_all (\<lambda>a. list_ex (\<lambda>s. step_id s = sai_step_id a
          \<and> list_all (\<lambda>d. ws_done (final_state r) d \<noteq> None) (depends_on s)) (pl_steps (wi_pipeline inp)))
        (step_calls (ws_calls (final_state r)))"
proof -
  obtain st where st: "step_calls (ws_calls (final_state r)) = step_calls (ws_calls st)"
    "ws_done (final_state r) = ws_done st" "calls_inv inp UNIV st"
    using run_calls_inv [OF assms] by blast
  then have "\<exists>s \<in> set (pl_steps (wi_pipeline inp)). step_id s = sai_step_id a
      \<and> list_all (\<lambda>d. ws_done st d \<noteq> None) (depends_on s)"
    if "a \<in> set (step_calls (ws_calls st))" for a
    using that by (fastforce simp: calls_inv_def list_all_iff)
  with st show ?thesis by (auto simp: calls_inv_def list_all_iff list_ex_iff)
qed

text \<open>C6. The tenant's Meilisearch credentials go to index steps only: every other plugin is started
  with the configuration written in the pipeline, unchanged.\<close>

theorem credentials_only_to_indexer:
  assumes "run env inp = Value r" and "a \<in> set (step_calls (ws_calls (final_state r)))"
    and "sai_plugin a \<noteq> INDEXER_PLUGIN"
  shows "\<exists>s \<in> set (pl_steps (wi_pipeline inp)). step_id s = sai_step_id a \<and> step_plugin s = sai_plugin a
    \<and> sai_config a = step_config s"
proof -
  obtain st where "step_calls (ws_calls (final_state r)) = step_calls (ws_calls st)" "calls_inv inp UNIV st"
    using run_calls_inv [OF assms(1)] by blast
  with assms(2) obtain s b t i where "s \<in> set (pl_steps (wi_pipeline inp))" "a = mk_activity inp s b t i"
    by (auto simp: calls_inv_def)
  with assms(3) show ?thesis by (auto simp: mk_activity_def step_config_of_def)
qed

text \<open>A job cancelled before its first step runs no step; its usage is still reported, as
  cancelled.\<close>

theorem cancelled_before_start:
  assumes "validate (wi_pipeline inp) = Value (Inr order)" and "en_cancel env 0"
  shows "\<exists>st. run env inp = Value (Inl (WfCancelled, st)) \<and> step_calls (ws_calls st) = []
    \<and> wp_status (ws_progress st) = Cancelled
    \<and> usage_calls (ws_calls st) = [usage_input_of env inp Cancelled None []]"
proof -
  have "run_loop env inp order 0 (started_state inp order)
      = Inl (finish_cancelled env inp (signal_cancel True (started_state inp order)))"
    using assms(2) by (subst run_loop.simps) (simp add: Let_def signal_cancel_def)
  with assms(1) show ?thesis
    by (simp add: run_def finish_cancelled_def emit_usage_def started_state_def initial_state_def
        initial_progress_def signal_cancel_def)
qed

section \<open>Liveness\<close>

abbreviation is_ok :: "'e + 'a \<Rightarrow> bool" where
  "is_ok r \<equiv> \<not> isl r"

definition no_trouble :: "wf_env \<Rightarrow> bool" where
  "no_trouble env \<longleftrightarrow> (\<forall>a. is_ok (en_step env a)) \<and> (\<forall>a. is_ok (en_expand env a)) \<and> (\<forall>n. \<not> en_cancel env n)"

lemma collect_all_ok:
  "list_all is_ok rs \<Longrightarrow> ba_first_error (fold collect_branch rs acc) = ba_first_error acc
     \<and> ba_cancelled (fold collect_branch rs acc) = ba_cancelled acc"
proof (induction rs arbitrary: acc)
  case (Cons r rs)
  then obtain out where "r = Inr out" by (cases r) auto
  with Cons show ?case by simp
qed simp

lemma run_branches_ok: "no_trouble env \<Longrightarrow> is_ok (fst (run_branches env inp s bs))"
proof -
  assume "no_trouble env"
  then have "list_all is_ok (map (en_step env) as)" for as by (simp add: no_trouble_def list_all_iff)
  then show ?thesis by (simp add: run_branches_def Let_def collect_all_ok no_branches_def del: map_map)
qed

lemma run_step_ok:
  assumes "no_trouble env" shows "is_ok (fst (run_step env inp dn s))"
proof -
  have "is_ok (en_step env a)" "is_ok (en_expand env f)" for a f using assms by (auto simp: no_trouble_def)
  then have "en_step env a \<noteq> Inl e" "en_expand env f \<noteq> Inl e" for a f e
    by (metis sum.disc(1))+
  then show ?thesis
    using run_branches_ok [OF assms]
    by (auto simp: run_step_def Let_def case_prod_beta split: option.splits fan_out_result.splits sum.splits)
qed

lemma settle_ok: "list_all (\<lambda>(s, r). is_ok r) rs \<Longrightarrow> is_ok (settle env inp rs st)"
  by (induction env inp rs st rule: settle.induct) simp_all

lemma wave_ok:
  assumes "no_trouble env" shows "is_ok (wave env inp ready st)"
  unfolding wave_alt
  by (rule settle_ok) (auto simp: list_all_iff set_zip run_step_ok [OF assms])

lemma settle_cancel:
  "settle env inp rs st = Inr st' \<Longrightarrow> wp_cancel_requested (ws_progress st') = wp_cancel_requested (ws_progress st)"
  by (induction env inp rs st rule: settle.induct) (simp_all add: record_success_def Let_def)

lemma run_loop_ok:
  assumes "no_trouble env" and "\<not> wp_cancel_requested (ws_progress st)"
  shows "is_ok (run_loop env inp order n st)"
  using assms
proof (induction env inp order n st rule: run_loop.induct)
  case (1 env inp order n st)
  let ?st = "signal_cancel (en_cancel env n) st"
  let ?ready = "ready_steps (wi_pipeline inp) order (ws_done ?st)"
  have nc: "\<not> wp_cancel_requested (ws_progress ?st)" using 1(2,3) by (simp add: signal_cancel_def no_trouble_def)
  show ?case
  proof (cases "?ready = []")
    case True
    with nc show ?thesis by (subst run_loop.simps) (simp add: Let_def)
  next
    case False
    obtain st' where w: "wave env inp ?ready ?st = Inr st'"
      using wave_ok [OF 1(2), of inp ?ready ?st] by (cases "wave env inp ?ready ?st") auto
    with nc False have "run_loop env inp order n st = run_loop env inp order (n + 1) st'"
      by (subst run_loop.simps) (simp add: Let_def)
    moreover have "\<not> wp_cancel_requested (ws_progress st')"
      using settle_cancel [OF w [unfolded wave_alt]] nc by (simp add: announce_def)
    ultimately show ?thesis using 1(1) [OF refl refl nc False w 1(2)] by simp
  qed
qed

lemma run_ok:
  assumes "well_formed (wi_pipeline inp)" and "acyclic (dep_rel (wi_pipeline inp))" and "no_trouble env"
  shows "\<exists>out st. run env inp = Value (Inr (out, st))"
proof -
  obtain order where v: "validate (wi_pipeline inp) = Value (Inr order)"
    using validate_accepts assms(1,2) by blast
  have "\<not> wp_cancel_requested (ws_progress (started_state inp order))"
    by (simp add: started_state_def initial_progress_def)
  from run_loop_ok [OF assms(3) this, of inp order 0]
  obtain st where "run_loop env inp order 0 (started_state inp order) = Inr st"
    by (cases "run_loop env inp order 0 (started_state inp order)") auto
  with v show ?thesis by (simp add: run_def finish_succeeded_def Let_def)
qed

text \<open>C5. A job with a valid pipeline whose activities all succeed and that nobody cancels succeeds,
  in as many turns of the loop as it takes.\<close>

theorem run_succeeds:
  assumes "well_formed (wi_pipeline inp)" and "acyclic (dep_rel (wi_pipeline inp))" and "no_trouble env"
  shows "\<exists>out st. run env inp = Value (Inr (out, st))"
  using assms by (rule run_ok)

section \<open>Fan-out\<close>

lemma collect_first_error:
  "ba_first_error (fold collect_branch rs acc) = None \<Longrightarrow> \<not> ba_cancelled (fold collect_branch rs acc)
   \<Longrightarrow> ba_first_error acc = None \<and> \<not> ba_cancelled acc \<and> (\<exists>outs. rs = map Inr outs
     \<and> ba_outputs (fold collect_branch rs acc) = ba_outputs acc @ map sao_output outs
     \<and> ba_usage (fold collect_branch rs acc) = fold (\<lambda>x u. usage_merge u (sao_usage x)) outs (ba_usage acc))"
proof (induction rs arbitrary: acc)
  case Nil
  then show ?case by simp
next
  case (Cons r rs)
  from Cons.prems have p: "ba_first_error (fold collect_branch rs (collect_branch r acc)) = None"
    "\<not> ba_cancelled (fold collect_branch rs (collect_branch r acc))" by simp_all
  from Cons.IH [OF p] obtain outs where ih: "ba_first_error (collect_branch r acc) = None"
    "\<not> ba_cancelled (collect_branch r acc)" "rs = map Inr outs"
    "ba_outputs (fold collect_branch rs (collect_branch r acc)) = ba_outputs (collect_branch r acc) @ map sao_output outs"
    "ba_usage (fold collect_branch rs (collect_branch r acc))
       = fold (\<lambda>x u. usage_merge u (sao_usage x)) outs (ba_usage (collect_branch r acc))" by blast
  show ?case
  proof (cases r)
    case (Inl e)
    with ih(1,2) show ?thesis by (cases e) (auto split: option.splits)
  next
    case (Inr out)
    with ih show ?thesis by (auto intro!: exI [of _ "out # outs"])
  qed
qed

text \<open>A fanned-out step succeeds only as a whole: every branch succeeded, the outputs are the
  branches' in their order, and the step's usage is the sum over its branches.\<close>

theorem fan_out_all_or_nothing:
  assumes "fst (run_branches env inp s bs) = Inr out"
  shows "\<exists>outs. map (en_step env) (activities_of inp s bs) = map Inr outs
    \<and> so_output out = OutMany (map sao_output outs) \<and> so_branches out = length bs
    \<and> so_usage out = fold (\<lambda>x u. usage_merge u (sao_usage x)) outs no_usage"
proof (cases "bs = []")
  case True
  with assms show ?thesis
    by (auto simp: run_branches_def activities_of_def enumerated_def intro!: exI [of _ "[]"])
next
  case False
  let ?acc = "fold collect_branch (map (en_step env) (activities_of inp s bs)) no_branches"
  from assms False have ok: "ba_first_error ?acc = None" "\<not> ba_cancelled ?acc"
    and out: "so_output out = OutMany (ba_outputs ?acc)" "so_branches out = length bs" "so_usage out = ba_usage ?acc"
    by (auto simp: run_branches_def Let_def activities_of_def [symmetric] simp del: map_map
        split: option.splits if_splits)
  from collect_first_error [OF ok] out show ?thesis by (auto simp: no_branches_def)
qed

section \<open>Examples\<close>

definition example_outcome :: "step_activity_input \<Rightarrow> step_activity_output" where
  "example_outcome a = \<lparr>sao_step_id = sai_step_id a, sao_output = OutEmpty, sao_duration_ms = 1,
     sao_usage = no_usage\<lparr>cost_micro_usd := 7\<rparr>, sao_input_bytes = 1, sao_documents_out = 0\<rparr>"

definition example_env :: "(step_activity_input \<Rightarrow> bool) \<Rightarrow> (nat \<Rightarrow> bool) \<Rightarrow> wf_env" where
  "example_env fails cancel = \<lparr>
     en_step = (\<lambda>a. if fails a then Inl (ActFailed None (lit ''boom'')) else Inr (example_outcome a)),
     en_expand = (\<lambda>_. Inr []), en_cancel = cancel, en_started_at = Some 0, en_finished_at = Some 9,
     en_ser = (\<lambda>_. 0), en_debug = id\<rparr>"

definition example_job :: "pipeline_definition \<Rightarrow> pipeline_workflow_input" where
  "example_job p = \<lparr>wi_job_id = lit ''j'', wi_pipeline = p, wi_input = InEmpty, wi_context = bare_context\<rparr>"

abbreviation good_env :: wf_env where
  "good_env \<equiv> example_env (\<lambda>_. False) (\<lambda>_. False)"

lemma good_env_ok: "no_trouble good_env"
  by (simp add: no_trouble_def example_env_def)

lemma diamond_valid: "well_formed diamond" "acyclic (dep_rel diamond)"
  using validate_accepts [of diamond] validate_diamond by auto

lemma job_pipeline [simp]: "wi_pipeline (example_job p) = p"
  by (simp add: example_job_def)

lemma diamond_run: "\<exists>out st. run good_env (example_job diamond) = Value (Inr (out, st))"
  by (rule run_ok) (simp_all add: diamond_valid good_env_ok)

theorem run_succeeds_witness:
  "\<exists>out st. run good_env (example_job diamond) = Value (Inr (out, st))"
  by (rule run_succeeds) (simp_all add: diamond_valid good_env_ok)

theorem run_success_witness:
  "\<exists>out st. run good_env (example_job diamond) = Value (Inr (out, st))
    \<and> set (map sr_step_id (wo_steps out)) = set (step_ids diamond) \<and> wp_status (ws_progress st) = Succeeded"
  using diamond_run run_success [of good_env "example_job diamond"] by (metis job_pipeline)

theorem run_schedules_once_witness:
  "\<exists>r. run good_env (example_job diamond) = Value r
    \<and> distinct (map call_key (step_calls (ws_calls (final_state r))))"
  using diamond_run run_schedules_once [of good_env "example_job diamond"] by metis

theorem cancelled_before_start_witness:
  "\<exists>st. run (example_env (\<lambda>_. False) (\<lambda>n. n = 0)) (example_job diamond) = Value (Inl (WfCancelled, st))
    \<and> step_calls (ws_calls st) = []"
proof -
  have "en_cancel (example_env (\<lambda>_. False) (\<lambda>n. n = 0)) 0" by (simp add: example_env_def)
  with cancelled_before_start [of "example_job diamond"] validate_diamond show ?thesis
    by (metis job_pipeline)
qed

theorem fan_out_all_or_nothing_witness:
  "\<exists>out. fst (run_branches good_env (example_job diamond) (hd (pl_steps diamond)) [InEmpty, InEmpty]) = Inr out
    \<and> so_branches out = 2"
proof -
  have "is_ok (fst (run_branches good_env (example_job diamond) (hd (pl_steps diamond)) [InEmpty, InEmpty]))"
    by (rule run_branches_ok [OF good_env_ok])
  then obtain out where "fst (run_branches good_env (example_job diamond) (hd (pl_steps diamond)) [InEmpty, InEmpty]) = Inr out"
    by (metis sum.collapse(2))
  with fan_out_all_or_nothing [OF this] show ?thesis by auto
qed

definition failing_env :: wf_env where
  "failing_env = example_env (\<lambda>a. sai_step_id a = lit ''c'') (\<lambda>_. False)"

definition failure_of :: "((wf_error \<times> wf_state) + (pipeline_workflow_output \<times> wf_state)) panic_or \<Rightarrow> (rstr \<times> wf_state) option" where
  "failure_of r = (case r of Value (Inl (WfFailure m, st)) \<Rightarrow> Some (m, st) | _ \<Rightarrow> None)"

lemma failing_run: "failure_of (run failing_env (example_job diamond)) \<noteq> None"
  by code_simp

lemma failure_of_Some: "failure_of r = Some (m, st) \<longleftrightarrow> r = Value (Inl (WfFailure m, st))"
  by (auto simp: failure_of_def split: panic_or.splits sum.splits wf_error.splits)

theorem run_failure_witness:
  "\<exists>msg st before r. run failing_env (example_job diamond) = Value (Inl (WfFailure msg, st))
    \<and> wp_steps (ws_progress st) = before @ [r] \<and> sr_status r = Failed"
proof -
  obtain m st where "run failing_env (example_job diamond) = Value (Inl (WfFailure m, st))"
    using failing_run failure_of_Some by (metis option.exhaust prod.exhaust)
  moreover have "validate (wi_pipeline (example_job diamond)) = Value (Inr [lit ''a'', lit ''b'', lit ''c'', lit ''d''])"
    by (simp add: validate_diamond)
  ultimately show ?thesis using run_failure by metis
qed

definition first_call :: "((wf_error \<times> wf_state) + (pipeline_workflow_output \<times> wf_state)) panic_or \<Rightarrow> step_activity_input option" where
  "first_call r = (case r of Panic \<Rightarrow> None
     | Value x \<Rightarrow> (case step_calls (ws_calls (final_state x)) of [] \<Rightarrow> None | a # _ \<Rightarrow> Some a))"

lemma first_call_plugin: "map_option sai_plugin (first_call (run good_env (example_job diamond))) = Some (lit ''x'')"
  by code_simp

lemma first_call_in: "first_call (Value x) = Some a \<Longrightarrow> a \<in> set (step_calls (ws_calls (final_state x)))"
  by (auto simp: first_call_def split: list.splits)

theorem credentials_only_to_indexer_witness:
  "\<exists>r a. run good_env (example_job diamond) = Value r \<and> a \<in> set (step_calls (ws_calls (final_state r)))
    \<and> (\<exists>s \<in> set (pl_steps diamond). step_id s = sai_step_id a \<and> sai_config a = step_config s)"
proof -
  obtain r where r: "run good_env (example_job diamond) = Value r" using diamond_run by blast
  from first_call_plugin obtain a where a: "first_call (Value r) = Some a" "sai_plugin a = lit ''x''"
    unfolding r by auto
  have "sai_plugin a \<noteq> INDEXER_PLUGIN" by (simp add: a(2) INDEXER_PLUGIN_def)
  from credentials_only_to_indexer [OF r first_call_in [OF a(1)] this] r first_call_in [OF a(1)]
  show ?thesis by auto
qed

section \<open>Usage of work done beside a failure\<close>

text \<open>The step that failed is reported without usage, whatever its branches that succeeded consumed; and
  the steps of its wave that come after it are not reported at all, although their activities ran
  and succeeded: here \<open>b\<close> ran beside \<open>c\<close>, which failed, and the usage record knows \<open>a\<close> and \<open>c\<close> only.\<close>

lemma failed_step_unmetered:
  assumes "validate (wi_pipeline inp) = Value (Inr order)"
    and "run env inp = Value (Inl (WfFailure msg, st))"
  shows "sr_usage (last (wp_steps (ws_progress st))) = no_usage"
  using assms
  by (cases rule: run_cases) (auto simp: finish_failed_def finish_cancelled_def emit_usage_def Let_def)

definition side_by_side :: pipeline_definition where
  "side_by_side = example_pipeline [example_step ''a'' [], example_step ''c'' [''a''], example_step ''b'' [''a'']]"

lemma sibling_unmetered:
  "case run failing_env (example_job side_by_side) of
     Value r \<Rightarrow> map sr_step_id (wp_steps (ws_progress (final_state r))) = [lit ''a'', lit ''c'']
       \<and> list_ex (\<lambda>a. sai_step_id a = lit ''b'') (step_calls (ws_calls (final_state r)))
   | Panic \<Rightarrow> False"
  by code_simp

end
