(* ===== verification/Chunker.thy ===== *)
theory Chunker
  imports Sdk_Types Utf8
begin

text \<open>
  \<open>crates/plugins/chunker/src/lib.rs\<close>: documents are cut into overlapping chunks by sentences, by
  paragraphs or by a sliding window. Sizes count characters, so a text is a list of characters and
  a length is the length of that list. The window loop (\<open>fixed_ranges\<close>) does not end for every
  argument: it is a partial function whose result \<open>None\<close> is a run that does not return. The lemmas:
  with a configuration that was accepted it returns, its ranges cover the text, every strategy
  keeps the visible characters in order and repeats at most \<open>overlap\<close> characters, and sizes are
  bounded.
\<close>

section \<open>Configuration\<close>

datatype strategy = Sentence | Fixed | Paragraph

record chunk_config =
  cc_strategy :: strategy
  chunk_size :: nat
  overlap :: nat
  min_chunk_size :: nat
  keep_parent_fields :: bool

definition default_config :: chunk_config where
  "default_config = \<lparr>cc_strategy = Sentence, chunk_size = 512, overlap = 64, min_chunk_size = 32,
     keep_parent_fields = True\<rparr>"

text \<open>\<open>from_value\<close> is the derived deserialization of \<open>serde_json\<close>.\<close>

definition parse_config :: "(json \<Rightarrow> rstr + chunk_config) \<Rightarrow> json \<Rightarrow> plugin_error + chunk_config" where
  "parse_config from_value value =
     (if value = JNull then Inr default_config
      else (case from_value value of
              Inl e \<Rightarrow> Inl (ErrInvalidConfig (lit ''chunker: '' @ e))
            | Inr cfg \<Rightarrow>
                if chunk_size cfg = 0
                then Inl (ErrInvalidConfig (lit ''chunker: `chunk_size` must be at least 1''))
                else if chunk_size cfg \<le> overlap cfg
                then Inl (ErrInvalidConfig (lit ''chunker: `overlap` ('' @ show_nat (overlap cfg)
                       @ lit '') must be smaller than `chunk_size` ('' @ show_nat (chunk_size cfg) @ lit '')''))
                else Inr cfg))"

section \<open>Splitting\<close>

definition slice :: "'a list \<Rightarrow> nat \<times> nat \<Rightarrow> 'a list" where
  "slice xs = (\<lambda>(s, e). take (e - s) (drop s xs))"

text \<open>The last whitespace before the boundary, searched downwards from \<open>end\<close> to \<open>lower\<close>.\<close>

definition window_cut :: "rstr \<Rightarrow> nat \<Rightarrow> nat \<Rightarrow> nat \<Rightarrow> nat" where
  "window_cut chars start cs ov =
     (let end = start + cs; lower = min (start + max (cs div 2) (ov + 1)) end
      in case find (\<lambda>i. start < i \<and> is_whitespace (chars ! (i - 1))) (rev [lower..<end + 1]) of
           Some i \<Rightarrow> i | None \<Rightarrow> end)"

partial_function (option) ranges_from ::
  "rstr \<Rightarrow> nat \<Rightarrow> nat \<Rightarrow> nat \<Rightarrow> (nat \<times> nat) list option" where
  "ranges_from chars cs ov start =
     (if \<not> start < length chars then Some []
      else if length chars - start \<le> cs then Some [(start, length chars)]
      else (let cut = window_cut chars start cs ov
            in if cut < ov then None
               else Option.bind (ranges_from chars cs ov (cut - ov)) (\<lambda>rs. Some ((start, cut) # rs))))"

declare ranges_from.simps [code]

definition fixed_ranges :: "rstr \<Rightarrow> nat \<Rightarrow> nat \<Rightarrow> (nat \<times> nat) list option" where
  "fixed_ranges chars cs ov = ranges_from chars cs ov 0"

definition push_unit :: "rstr \<Rightarrow> rstr list" where
  "push_unit cur = (let t = trim cur in if t \<noteq> [] then [t] else [])"

definition terminator :: "rchar \<Rightarrow> bool" where
  "terminator c \<longleftrightarrow> c = 46 \<or> c = 33 \<or> c = 63"

fun sentences_from :: "rstr \<Rightarrow> rstr \<Rightarrow> rstr list" where
  "sentences_from cur [] = push_unit cur"
| "sentences_from cur (c # cs) =
     (if c = 10 then push_unit cur @ sentences_from [] cs
      else if terminator c \<and> \<not> (case cs of [] \<Rightarrow> False | n # _ \<Rightarrow> terminator n)
                \<and> (case cs of [] \<Rightarrow> True | n # _ \<Rightarrow> is_whitespace n)
      then push_unit (cur @ [c]) @ sentences_from [] cs
      else sentences_from (cur @ [c]) cs)"

definition split_sentences :: "rstr \<Rightarrow> rstr list" where
  "split_sentences text = sentences_from [] text"

fun paragraphs_from :: "rstr \<Rightarrow> rstr list \<Rightarrow> rstr list" where
  "paragraphs_from cur [] = push_unit cur"
| "paragraphs_from cur (l # ls) =
     (if trim l = [] then push_unit cur @ paragraphs_from [] ls
      else paragraphs_from (if cur \<noteq> [] then cur @ [10] @ l else l) ls)"

definition split_paragraphs :: "rstr \<Rightarrow> rstr list" where
  "split_paragraphs text = paragraphs_from [] (lines_from [] text)"

fun cap_units :: "nat \<Rightarrow> rstr list \<Rightarrow> rstr list option" where
  "cap_units cs [] = Some []"
| "cap_units cs (u # us) =
     Option.bind (if length u \<le> cs then Some [u]
                  else map_option (\<lambda>rs. filter (\<lambda>p. p \<noteq> []) (map (\<lambda>r. trim (slice u r)) rs))
                         (fixed_ranges u cs 0))
       (\<lambda>pieces. map_option (\<lambda>rest. pieces @ rest) (cap_units cs us))"

section \<open>Packing\<close>

record packed =
  pk_text :: rstr
  pk_overlap :: nat

definition tail_overlap :: "rstr \<Rightarrow> nat \<Rightarrow> rstr" where
  "tail_overlap text ov =
     (if ov = 0 then []
      else if length text \<le> ov then text
      else let start = length text - ov; tail = drop start text;
               adjusted = (if is_whitespace (text ! (start - 1)) then tail
                           else dropWhile (\<lambda>c. \<not> is_whitespace c) tail)
           in trim_start adjusted)"

record pack_state =
  pa_chunks :: "packed list"
  pa_cur :: rstr
  pa_cur_len :: nat
  pa_overlap :: nat
  pa_units :: nat

definition pack_start :: pack_state where
  "pack_start = \<lparr>pa_chunks = [], pa_cur = [], pa_cur_len = 0, pa_overlap = 0, pa_units = 0\<rparr>"

definition flush_chunk :: "nat \<Rightarrow> nat \<Rightarrow> nat \<Rightarrow> nat \<Rightarrow> pack_state \<Rightarrow> pack_state" where
  "flush_chunk sep_len cs ov unit_len st =
     (let prefix = tail_overlap (pa_cur st) ov;
          budget = cs - (unit_len + sep_len);
          prefix = (if budget < length prefix then tail_overlap prefix budget else prefix)
      in \<lparr>pa_chunks = pa_chunks st @ [\<lparr>pk_text = pa_cur st, pk_overlap = pa_overlap st\<rparr>],
          pa_cur = prefix, pa_cur_len = length prefix, pa_overlap = length prefix, pa_units = 0\<rparr>)"

definition add_unit :: "rstr \<Rightarrow> rstr \<Rightarrow> pack_state \<Rightarrow> pack_state" where
  "add_unit sep u st =
     (let st = (if pa_cur st \<noteq> []
                then st\<lparr>pa_cur := pa_cur st @ sep, pa_cur_len := pa_cur_len st + length sep\<rparr> else st)
      in st\<lparr>pa_cur := pa_cur st @ u, pa_cur_len := pa_cur_len st + length u, pa_units := pa_units st + 1\<rparr>)"

definition pack_unit :: "rstr \<Rightarrow> nat \<Rightarrow> nat \<Rightarrow> rstr \<Rightarrow> pack_state \<Rightarrow> pack_state" where
  "pack_unit sep cs ov u st =
     (let joined_len = (if pa_cur st = [] then length u else pa_cur_len st + length sep + length u);
          st = (if 0 < pa_units st \<and> cs < joined_len then flush_chunk (length sep) cs ov (length u) st else st)
      in add_unit sep u st)"

definition pack_units :: "rstr list \<Rightarrow> rstr \<Rightarrow> nat \<Rightarrow> nat \<Rightarrow> packed list" where
  "pack_units units sep cs ov =
     (let st = fold (pack_unit sep cs ov) units pack_start
      in if 0 < pa_units st
         then pa_chunks st @ [\<lparr>pk_text = pa_cur st, pk_overlap = pa_overlap st\<rparr>] else pa_chunks st)"

definition merge_short_tail :: "packed list \<Rightarrow> rstr \<Rightarrow> nat \<Rightarrow> rstr list" where
  "merge_short_tail chunks sep mn =
     map pk_text
       (if 2 \<le> length chunks \<and> length (pk_text (last chunks)) < mn
        then (let l = last chunks; prev = last (butlast chunks);
                  fresh = trim_start (drop (pk_overlap l) (pk_text l))
              in butlast (butlast chunks)
                 @ [if fresh \<noteq> [] then prev\<lparr>pk_text := pk_text prev @ sep @ fresh\<rparr> else prev])
        else chunks)"

definition merge_short_range :: "(nat \<times> nat) list \<Rightarrow> nat \<Rightarrow> (nat \<times> nat) list" where
  "merge_short_range ranges mn =
     (if 2 \<le> length ranges \<and> snd (last ranges) - fst (last ranges) < mn
      then butlast (butlast ranges) @ [(fst (last (butlast ranges)), snd (last ranges))]
      else ranges)"

section \<open>Chunking\<close>

definition chunk_units :: "rstr list \<Rightarrow> rstr \<Rightarrow> chunk_config \<Rightarrow> rstr list option" where
  "chunk_units units sep cfg =
     map_option (\<lambda>us. merge_short_tail (pack_units us sep (chunk_size cfg) (overlap cfg)) sep (min_chunk_size cfg))
       (cap_units (chunk_size cfg) units)"

definition chunk_text :: "rstr \<Rightarrow> chunk_config \<Rightarrow> rstr list option" where
  "chunk_text content cfg =
     (let trimmed = trim content in
      if trimmed = [] then Some []
      else if length trimmed \<le> chunk_size cfg then Some [trimmed]
      else (case cc_strategy cfg of
              Fixed \<Rightarrow> map_option (\<lambda>ranges. filter (\<lambda>s. s \<noteq> []) (map (\<lambda>r. trim (slice trimmed r))
                                  (merge_short_range ranges (min_chunk_size cfg))))
                         (fixed_ranges trimmed (chunk_size cfg) (overlap cfg))
            | Sentence \<Rightarrow> chunk_units (split_sentences trimmed) [32] cfg
            | Paragraph \<Rightarrow> chunk_units (split_paragraphs trimmed) [10, 10] cfg))"

definition chunk_meta :: "document \<Rightarrow> chunk_config \<Rightarrow> nat \<Rightarrow> nat \<Rightarrow> document_meta" where
  "chunk_meta parent cfg i n =
     (if keep_parent_fields cfg then doc_meta parent else default_meta)
       \<lparr>meta_chunk_index := Some i, meta_chunk_total := Some n, meta_parent_id := Some (doc_id parent)\<rparr>"

definition chunk_document :: "document \<Rightarrow> chunk_config \<Rightarrow> document list option" where
  "chunk_document parent cfg =
     map_option (\<lambda>chunks. map (\<lambda>(i, text).
         \<lparr>doc_id = doc_id parent @ [95] @ show_nat i,
          doc_title = (if keep_parent_fields cfg then doc_title parent else None), doc_content = text,
          doc_fields = (if keep_parent_fields cfg then doc_fields parent else []),
          doc_meta = chunk_meta parent cfg i (length chunks)\<rparr>) (enumerated chunks))
       (chunk_text (doc_content parent) cfg)"

section \<open>The plugin\<close>

definition document_from_text :: "rstr \<Rightarrow> blob \<Rightarrow> plugin_error + document" where
  "document_from_text fresh b =
     (case from_utf8 (map unat (blob_data b)) of
        Inl _ \<Rightarrow> Inl (ErrInvalidInput (lit (''chunker received bytes that are not valid UTF-8 text; add an extractor step ''
                    @ ''(pdf_extractor, docx_extractor, ...) before the chunker'')))
      | Inr content \<Rightarrow>
          let doc = (case filename_id_stem fresh (blob_filename b) of
                       Some i \<Rightarrow> document_with_id fresh i content | None \<Rightarrow> new_document fresh content)
          in Inr (doc\<lparr>doc_meta := (doc_meta doc)\<lparr>meta_source := blob_filename b, meta_filename := blob_filename b,
                        meta_mime := Some (blob_mime b)\<rparr>\<rparr>))"

text \<open>The loop over the documents: cancellation is checked before each one, heartbeats only report.
  The outer \<open>None\<close> is a chunker that does not return.\<close>

fun chunk_documents :: "(nat \<Rightarrow> bool) \<Rightarrow> chunk_config \<Rightarrow> nat \<Rightarrow> document list \<Rightarrow> (plugin_error + document list) option" where
  "chunk_documents cancelled cfg i [] = Some (Inr [])"
| "chunk_documents cancelled cfg i (d # ds) =
     (if cancelled i then Some (Inl ErrCancelled)
      else Option.bind (chunk_document d cfg) (\<lambda>chunks.
             map_option (\<lambda>r. try_bind r (\<lambda>rest. Inr (chunks @ rest))) (chunk_documents cancelled cfg (i + 1) ds)))"

definition chunker_execute ::
  "(json \<Rightarrow> rstr + chunk_config) \<Rightarrow> (nat \<Rightarrow> bool) \<Rightarrow> rstr \<Rightarrow> plugin_input \<Rightarrow> json
   \<Rightarrow> (plugin_error + plugin_output) option" where
  "chunker_execute from_value cancelled fresh input config =
     (case parse_config from_value config of
        Inl e \<Rightarrow> Some (Inl e)
      | Inr cfg \<Rightarrow>
          (case (case input of
                   InBytes b \<Rightarrow> try_bind (document_from_text fresh b) (\<lambda>d. Inr [d])
                 | other \<Rightarrow> in_into_documents other) of
             Inl e \<Rightarrow> Some (Inl e)
           | Inr docs \<Rightarrow> map_option (\<lambda>r. try_bind r (\<lambda>out. Inr (OutDocuments out)))
                            (chunk_documents cancelled cfg 0 docs)))"

section \<open>The window loop returns\<close>

text \<open>Ranges from \<open>start\<close> to \<open>n\<close>: each begins \<open>ov\<close> characters before the end of the one before it and
  the last one ends at \<open>n\<close>.\<close>

fun ranges_chain :: "nat \<Rightarrow> nat \<Rightarrow> nat \<Rightarrow> (nat \<times> nat) list \<Rightarrow> bool" where
  "ranges_chain n ov start [] \<longleftrightarrow> n \<le> start"
| "ranges_chain n ov start [(s, e)] \<longleftrightarrow> s = start \<and> s < e \<and> e = n"
| "ranges_chain n ov start ((s, e) # r # rs) \<longleftrightarrow>
     s = start \<and> s + ov < e \<and> e < n \<and> ranges_chain n ov (e - ov) (r # rs)"

lemma ranges_chain_Cons:
  "ranges_chain n ov (e - ov) rs \<Longrightarrow> rs \<noteq> [] \<Longrightarrow> start + ov < e \<Longrightarrow> e < n
   \<Longrightarrow> ranges_chain n ov start ((start, e) # rs)"
  by (cases rs) auto

lemma window_cut_bounds:
  assumes "ov < cs" shows "start + ov < window_cut chars start cs ov" "window_cut chars start cs ov \<le> start + cs"
proof -
  let ?lower = "min (start + max (cs div 2) (ov + 1)) (start + cs)"
  let ?P = "\<lambda>i. start < i \<and> is_whitespace (chars ! (i - 1))"
  have w: "window_cut chars start cs ov
      = (case find ?P (rev [?lower..<start + cs + 1]) of Some i \<Rightarrow> i | None \<Rightarrow> start + cs)"
    by (simp only: window_cut_def Let_def)
  have "start + ov < window_cut chars start cs ov \<and> window_cut chars start cs ov \<le> start + cs"
  proof (cases "find ?P (rev [?lower..<start + cs + 1])")
    case None
    with assms show ?thesis by (simp add: w del: upt_Suc)
  next
    case (Some i)
    from find_SomeD [OF Some] have "i \<in> set [?lower..<start + cs + 1]" by (metis set_rev)
    then have "?lower \<le> i" "i \<le> start + cs" by (simp_all del: upt_Suc)
    moreover have "start + ov < ?lower" using assms by simp
    ultimately show ?thesis unfolding w Some by simp
  qed
  then show "start + ov < window_cut chars start cs ov" "window_cut chars start cs ov \<le> start + cs" by simp_all
qed

lemma ranges_from_returns:
  assumes "ov < cs"
  shows "\<exists>rs. ranges_from chars cs ov start = Some rs \<and> ranges_chain (length chars) ov start rs
    \<and> list_all (\<lambda>(s, e). e - s \<le> cs) rs"
proof (induction "length chars - start" arbitrary: start rule: less_induct)
  case less
  consider "\<not> start < length chars" | "start < length chars" "length chars - start \<le> cs"
    | "start < length chars" "cs < length chars - start" by linarith
  then show ?case
  proof cases
    case 1
    then show ?thesis by (subst ranges_from.simps) simp
  next
    case 2
    then show ?thesis by (subst ranges_from.simps) simp
  next
    case 3
    let ?cut = "window_cut chars start cs ov"
    have c: "start + ov < ?cut" "?cut \<le> start + cs" by (rule window_cut_bounds [OF assms])+
    then have lt: "?cut < length chars" using 3 by linarith
    have "length chars - (?cut - ov) < length chars - start" using c lt by linarith
    from less(1) [OF this] obtain rs where rs: "ranges_from chars cs ov (?cut - ov) = Some rs"
      "ranges_chain (length chars) ov (?cut - ov) rs" "list_all (\<lambda>(s, e). e - s \<le> cs) rs" by blast
    have "rs \<noteq> []" using rs(2) lt c by auto
    then have "ranges_chain (length chars) ov start ((start, ?cut) # rs)"
      using rs(2) c lt by (intro ranges_chain_Cons)
    moreover have "ranges_from chars cs ov start = Some ((start, ?cut) # rs)"
      using 3 c rs(1) by (subst ranges_from.simps) (simp add: Let_def)
    ultimately show ?thesis using c rs(3) by auto
  qed
qed

section \<open>What chunks keep\<close>

text \<open>\<open>covers ov chunks v\<close>: without at most \<open>ov\<close> characters at the beginning of each chunk, the visible
  characters of the chunks are \<open>v\<close>, in order.\<close>

inductive covers :: "nat \<Rightarrow> rstr list \<Rightarrow> rstr \<Rightarrow> bool" for ov where
  covers_Nil: "covers ov [] []"
| covers_Cons: "n \<le> ov \<Longrightarrow> n \<le> length c \<Longrightarrow> covers ov cs v \<Longrightarrow> covers ov (c # cs) (visible (drop n c) @ v)"

inductive_simps covers_Nil_iff [simp]: "covers ov [] v"
inductive_cases covers_ConsE: "covers ov (c # cs) v"

lemma covers_Cons0: "covers ov cs v \<Longrightarrow> covers ov (c # cs) (visible c @ v)"
  using covers_Cons [of 0 ov c cs v] by simp

lemma covers_append: "covers ov xs v \<Longrightarrow> covers ov ys w \<Longrightarrow> covers ov (xs @ ys) (v @ w)"
  by (induction rule: covers.induct) (auto intro: covers_Cons)

lemma covers_map_visible: "covers ov xs (concat (map visible xs))"
  by (induction xs) (auto intro: covers_Cons0)

text \<open>Trimming a window keeps what is visible after its first \<open>k\<close> characters.\<close>

lemma trim_start_append: "\<exists>ws. w = ws @ trim_start w \<and> visible ws = []"
  by (intro exI [of _ "takeWhile is_whitespace w"])
    (auto simp: trim_start_def visible_eq_Nil dest: set_takeWhileD)

lemma visible_drop_trim:
  "\<exists>n \<le> k. n \<le> length (trim w) \<and> visible (drop n (trim w)) = visible (drop k w)"
proof -
  obtain ws where w: "w = ws @ trim_start w" "visible ws = []" using trim_start_append by blast
  obtain we where we: "trim_start w = trim w @ we" "visible we = []"
    using trim_end_prefix [of "trim_start w"] by (auto simp: trim_def)
  have v: "visible (drop k w) = visible (drop k ws) @ visible (drop (k - length ws) (trim w)) @ visible (drop (k - length ws - length (trim w)) we)"
    by (subst w(1), subst we(1)) simp
  have "visible (drop j xs) = []" if "visible xs = []" for j xs
    using that by (auto simp: visible_eq_Nil dest: in_set_dropD)
  with v w(2) we(2) have e: "visible (drop k w) = visible (drop (k - length ws) (trim w))" by simp
  show ?thesis
  proof (cases "k - length ws \<le> length (trim w)")
    case True
    with e show ?thesis by (intro exI [of _ "k - length ws"]) simp
  next
    case False
    with e show ?thesis by (intro exI [of _ "length (trim w)"]) simp
  qed
qed

lemma drop_slice:
  assumes "start + k \<le> e"
  shows "drop (start + k) u = drop k (slice u (start, e)) @ drop e u"
proof -
  have "drop k (slice u (start, e)) = take (e - start - k) (drop (start + k) u)"
    by (simp add: slice_def drop_take add.commute)
  moreover have "drop e u = drop (e - start - k) (drop (start + k) u)"
    using assms by (simp add: drop_drop)
  ultimately show ?thesis by (simp only: append_take_drop_id)
qed

lemma covers_windows:
  assumes "ranges_chain (length u) ov start rs" and "k \<le> ov" and "start + k \<le> length u \<or> rs = []"
  shows "covers ov (filter (\<lambda>p. p \<noteq> []) (map (\<lambda>r. trim (slice u r)) rs)) (visible (drop (start + k) u))"
  using assms
proof (induction "length u" ov start rs arbitrary: k rule: ranges_chain.induct)
  case (1 ov start)
  then show ?case by simp
next
  case (2 ov start s e)
  let ?w = "slice u (s, e)"
  obtain n where n: "n \<le> k" "n \<le> length (trim ?w)" "visible (drop n (trim ?w)) = visible (drop k ?w)"
    using visible_drop_trim by blast
  have "drop k ?w = drop (start + k) u" using 2 by (simp add: slice_def add.commute)
  with n 2(2) covers_Cons [of n ov "trim ?w" "[]" "[]"] show ?case by (auto intro: covers_Nil)
next
  case (3 ov start s e r rs)
  let ?w = "slice u (s, e)"
  obtain n where n: "n \<le> k" "n \<le> length (trim ?w)" "visible (drop n (trim ?w)) = visible (drop k ?w)"
    using visible_drop_trim by blast
  have se: "s = start" "start + ov < e" "e < length u" using 3(2) by simp_all
  have "drop (start + k) u = drop k ?w @ drop e u"
    using drop_slice [of start k e u] se 3(3) by simp
  moreover have "covers ov (filter (\<lambda>p. p \<noteq> []) (map (\<lambda>r. trim (slice u r)) (r # rs))) (visible (drop (e - ov + ov) u))"
    using 3(2) se by (intro 3(1)) auto
  ultimately show ?case
    using n 3(3) se covers_Cons [of n ov "trim ?w" "filter (\<lambda>p. p \<noteq> []) (map (\<lambda>r. trim (slice u r)) (r # rs))" "visible (drop e u)"]
    by auto
qed

section \<open>Units\<close>

lemma push_unit_visible [simp]: "concat (map visible (push_unit cur)) = visible cur"
proof (cases "trim cur = []")
  case True
  then have "visible cur = []" by (simp add: trim_eq_Nil)
  with True show ?thesis by (simp add: push_unit_def)
next
  case False
  then show ?thesis by (simp add: push_unit_def)
qed

lemma push_unit_not_Nil: "u \<in> set (push_unit cur) \<Longrightarrow> u \<noteq> []"
  by (auto simp: push_unit_def Let_def split: if_splits)

lemma newline_whitespace [simp]: "is_whitespace 10" "is_whitespace 13" "is_whitespace 32"
  by (simp_all add: is_whitespace_def)

lemma sentences_visible: "concat (map visible (sentences_from cur tx)) = visible (cur @ tx)"
  by (induction cur tx rule: sentences_from.induct) simp_all

lemma sentences_not_Nil: "u \<in> set (sentences_from cur tx) \<Longrightarrow> u \<noteq> []"
  by (induction cur tx rule: sentences_from.induct) (auto dest: push_unit_not_Nil split: if_splits)

lemma visible_strip_cr [simp]: "visible (strip_cr l) = visible l"
proof (cases "l \<noteq> [] \<and> last l = 13")
  case True
  then have "l = butlast l @ [13]" by (metis append_butlast_last_id)
  then have "visible l = visible (butlast l) @ visible [13]" by (metis visible_simps(3))
  with True show ?thesis by (simp add: strip_cr_def)
next
  case False
  then show ?thesis by (auto simp: strip_cr_def)
qed

lemma lines_visible: "concat (map visible (lines_from cur tx)) = visible (cur @ tx)"
  by (induction cur tx rule: lines_from.induct) simp_all

lemma paragraphs_visible: "concat (map visible (paragraphs_from cur ls)) = visible cur @ concat (map visible ls)"
proof (induction cur ls rule: paragraphs_from.induct)
  case (2 cur l ls)
  show ?case
  proof (cases "trim l = []")
    case True
    then have "visible l = []" by (simp add: trim_eq_Nil)
    with True 2(1) show ?thesis by simp
  next
    case False
    with 2(2) show ?thesis by simp
  qed
qed simp

lemma paragraphs_not_Nil: "u \<in> set (paragraphs_from cur ls) \<Longrightarrow> u \<noteq> []"
  by (induction cur ls rule: paragraphs_from.induct) (auto dest: push_unit_not_Nil split: if_splits)

lemma split_units_visible:
  "concat (map visible (split_sentences tx)) = visible tx"
  "concat (map visible (split_paragraphs tx)) = visible tx"
  by (simp_all add: split_sentences_def sentences_visible split_paragraphs_def paragraphs_visible lines_visible)

lemma split_units_not_Nil:
  "u \<in> set (split_sentences tx) \<Longrightarrow> u \<noteq> []" "u \<in> set (split_paragraphs tx) \<Longrightarrow> u \<noteq> []"
  using sentences_not_Nil paragraphs_not_Nil unfolding split_sentences_def split_paragraphs_def by blast+

lemma covers_0: "covers 0 cs v \<Longrightarrow> v = concat (map visible cs)"
  by (induction rule: covers.induct) simp_all

definition fits :: "nat \<Rightarrow> rstr list \<Rightarrow> bool" where
  "fits n us \<longleftrightarrow> list_all (\<lambda>u. u \<noteq> [] \<and> length u \<le> n) us"

lemma slice_length: "length (slice u (s, e)) \<le> e - s"
  by (simp add: slice_def)

lemma trim_slice_length: "length (trim (slice u (s, e))) \<le> e - s"
  using length_trim [of "slice u (s, e)"] slice_length [of u s e] by linarith

lemma cap_units_returns:
  assumes "0 < cs" and "\<forall>u \<in> set us. u \<noteq> []"
  shows "\<exists>vs. cap_units cs us = Some vs \<and> fits cs vs \<and> concat (map visible vs) = concat (map visible us)"
  using assms(2)
proof (induction us)
  case Nil
  then show ?case by (simp add: fits_def)
next
  case (Cons u us)
  then obtain vs where vs: "cap_units cs us = Some vs" "fits cs vs"
    "concat (map visible vs) = concat (map visible us)" by auto
  show ?case
  proof (cases "length u \<le> cs")
    case True
    with vs Cons.prems show ?thesis by (simp add: fits_def)
  next
    case False
    obtain rs where rs: "fixed_ranges u cs 0 = Some rs" "ranges_chain (length u) 0 0 rs"
      "list_all (\<lambda>(s, e). e - s \<le> cs) rs"
      using ranges_from_returns [OF assms(1), of u 0] unfolding fixed_ranges_def by blast
    let ?ps = "filter (\<lambda>p. p \<noteq> []) (map (\<lambda>r. trim (slice u r)) rs)"
    have "covers 0 ?ps (visible (drop (0 + 0) u))" by (rule covers_windows [OF rs(2)]) simp_all
    then have "concat (map visible ?ps) = visible u" using covers_0 by fastforce
    moreover have "length (trim (slice u r)) \<le> cs" if "r \<in> set rs" for r
    proof -
      obtain s e where r: "r = (s, e)" by (cases r)
      with that rs(3) have "e - s \<le> cs" by (auto simp: list_all_iff)
      then show ?thesis using trim_slice_length [of u s e] by (simp add: r)
    qed
    then have "fits cs ?ps" by (auto simp: fits_def list_all_iff)
    ultimately show ?thesis using vs False rs(1) by (simp add: fits_def)
  qed
qed

section \<open>Packing units\<close>

lemma length_tail_overlap: "length (tail_overlap text ov) \<le> ov"
proof -
  let ?tail = "drop (length text - ov) text"
  have "length (trim_start xs) \<le> ov" if "length xs \<le> ov" for xs :: rstr
    using that length_trim_start [of xs] by linarith
  moreover have "length (dropWhile (\<lambda>c. \<not> is_whitespace c) ?tail) \<le> ov"
    using length_dropWhile_le [of "\<lambda>c. \<not> is_whitespace c" ?tail] by simp
  ultimately show ?thesis by (simp add: tail_overlap_def Let_def)
qed

definition fresh :: "packed \<Rightarrow> rstr" where
  "fresh p = drop (pk_overlap p) (pk_text p)"

definition packed_ok :: "nat \<Rightarrow> nat \<Rightarrow> packed \<Rightarrow> bool" where
  "packed_ok cs ov p \<longleftrightarrow> pk_text p \<noteq> [] \<and> length (pk_text p) \<le> cs \<and> pk_overlap p \<le> ov
     \<and> pk_overlap p \<le> length (pk_text p)"

definition current :: "pack_state \<Rightarrow> packed" where
  "current st = \<lparr>pk_text = pa_cur st, pk_overlap = pa_overlap st\<rparr>"

text \<open>Before each unit: nothing was read yet, or the open chunk holds at least one unit.\<close>

definition pack_inv :: "nat \<Rightarrow> nat \<Rightarrow> rstr \<Rightarrow> pack_state \<Rightarrow> bool" where
  "pack_inv cs ov v st \<longleftrightarrow> pa_cur_len st = length (pa_cur st) \<and> list_all (packed_ok cs ov) (pa_chunks st)
     \<and> (if pa_units st = 0 then pa_chunks st = [] \<and> pa_cur st = [] \<and> pa_overlap st = 0 \<and> v = []
        else packed_ok cs ov (current st)
             \<and> concat (map (\<lambda>p. visible (fresh p)) (pa_chunks st @ [current st])) = v)"

lemma pack_unit_inv:
  assumes "pack_inv cs ov v st" and "u \<noteq> []" and "length u \<le> cs" and "visible sep = []"
  shows "pack_inv cs ov (v @ visible u) (pack_unit sep cs ov u st)" "0 < pa_units (pack_unit sep cs ov u st)"
proof -
  let ?cur = "pa_cur st"
  let ?joined = "if ?cur = [] then length u else pa_cur_len st + length sep + length u"
  show "0 < pa_units (pack_unit sep cs ov u st)" by (simp add: pack_unit_def add_unit_def Let_def)
  show "pack_inv cs ov (v @ visible u) (pack_unit sep cs ov u st)"
  proof (cases "0 < pa_units st \<and> cs < ?joined")
    case False
    then have e: "pack_unit sep cs ov u st = add_unit sep u st" unfolding pack_unit_def Let_def by (simp only: if_False)
    show ?thesis
    proof (cases "pa_units st = 0")
      case True
      with assms show ?thesis
        unfolding e by (simp add: pack_inv_def add_unit_def current_def packed_ok_def fresh_def)
    next
      case u: False
      with assms(1) have p: "packed_ok cs ov (current st)" "pa_cur_len st = length ?cur"
        and c: "concat (map (\<lambda>p. visible (fresh p)) (pa_chunks st @ [current st])) = v"
        by (simp_all add: pack_inv_def)
      then have cur: "?cur \<noteq> []" "pa_overlap st \<le> length ?cur" "pa_overlap st \<le> ov"
        by (simp_all add: packed_ok_def current_def)
      with False u p(2) have "length ?cur + length sep + length u \<le> cs" by simp
      with assms u p c cur show ?thesis
        unfolding e by (simp add: pack_inv_def add_unit_def current_def packed_ok_def fresh_def)
    qed
  next
    case True
    let ?st = "flush_chunk (length sep) cs ov (length u) st"
    have e: "pack_unit sep cs ov u st = add_unit sep u ?st" using True unfolding pack_unit_def Let_def by (simp only: if_True simp_thms)
    from True assms(1) have p: "packed_ok cs ov (current st)" "list_all (packed_ok cs ov) (pa_chunks st)"
      and c: "concat (map (\<lambda>p. visible (fresh p)) (pa_chunks st @ [current st])) = v"
      by (simp_all add: pack_inv_def)
    have f: "pa_chunks ?st = pa_chunks st @ [current st]" "pa_units ?st = 0"
      "pa_cur_len ?st = length (pa_cur ?st)" "pa_overlap ?st = length (pa_cur ?st)"
      by (simp_all add: flush_chunk_def Let_def current_def)
    have "length (pa_cur ?st) \<le> ov" "length (pa_cur ?st) \<le> cs - (length u + length sep)"
      using length_tail_overlap [of ?cur ov] length_tail_overlap [of "tail_overlap ?cur ov" "cs - (length u + length sep)"]
      by (auto simp: flush_chunk_def Let_def)
    moreover have "length (pa_cur ?st) + length sep + length u \<le> cs" if "pa_cur ?st \<noteq> []"
    proof -
      have "0 < length (pa_cur ?st)" using that by simp
      with \<open>length (pa_cur ?st) \<le> cs - (length u + length sep)\<close> show ?thesis by linarith
    qed
    ultimately have "length (pa_cur ?st) \<le> ov" "pa_cur ?st = [] \<or> length (pa_cur ?st) + length sep + length u \<le> cs"
      by blast+
    with p c f assms(2-4) show ?thesis
      unfolding e by (auto simp: pack_inv_def add_unit_def current_def packed_ok_def fresh_def)
  qed
qed

lemma fold_pack_inv:
  assumes "visible sep = []" and "fits cs us" and "pack_inv cs ov v st"
  shows "pack_inv cs ov (v @ concat (map visible us)) (fold (pack_unit sep cs ov) us st)"
  using assms(2,3)
proof (induction us arbitrary: v st)
  case (Cons u us)
  then have "pack_inv cs ov (v @ visible u) (pack_unit sep cs ov u st)"
    using pack_unit_inv [of cs ov v st u sep] assms(1) by (simp add: fits_def)
  moreover have "fits cs us" using Cons.prems by (simp add: fits_def)
  ultimately show ?case using Cons.IH by fastforce
qed simp

lemma pack_units_ok:
  assumes "visible sep = []" and "fits cs us"
  shows "list_all (packed_ok cs ov) (pack_units us sep cs ov)
    \<and> concat (map (\<lambda>p. visible (fresh p)) (pack_units us sep cs ov)) = concat (map visible us)"
proof -
  let ?st = "fold (pack_unit sep cs ov) us pack_start"
  have "pack_inv cs ov [] pack_start" by (simp add: pack_inv_def pack_start_def)
  from fold_pack_inv [OF assms this] have "pack_inv cs ov (concat (map visible us)) ?st" by simp
  then show ?thesis by (auto simp: pack_units_def Let_def pack_inv_def current_def split: if_splits)
qed

section \<open>The short tail\<close>

text \<open>All chunks but the last have at most \<open>n\<close> characters, the last one less than \<open>m\<close> more.\<close>

definition sized :: "nat \<Rightarrow> nat \<Rightarrow> rstr list \<Rightarrow> bool" where
  "sized n m cs \<longleftrightarrow> list_all (\<lambda>c. c \<noteq> []) cs \<and> list_all (\<lambda>c. length c \<le> n) (butlast cs)
     \<and> (cs \<noteq> [] \<longrightarrow> length (last cs) \<le> n \<or> length (last cs) < n + m)"

lemma covers_packed:
  assumes "list_all (packed_ok cs ov) ps"
  shows "covers ov (map pk_text ps) (concat (map (\<lambda>p. visible (fresh p)) ps))"
  using assms by (induction ps) (auto simp: packed_ok_def fresh_def intro: covers_Cons)

lemma visible_drop_append:
  "n \<le> length a \<Longrightarrow> visible (drop n (a @ b)) = visible (drop n a) @ visible b"
  by simp

lemma merge_short_tail_ok:
  assumes ok: "list_all (packed_ok cs ov) ps" and sep: "visible sep = []"
  shows "covers ov (merge_short_tail ps sep mn) (concat (map (\<lambda>p. visible (fresh p)) ps))
    \<and> sized cs (length sep + mn) (merge_short_tail ps sep mn)"
proof (cases "2 \<le> length ps \<and> length (pk_text (last ps)) < mn")
  case False
  have "\<forall>p \<in> set ps. pk_text p \<noteq> [] \<and> length (pk_text p) \<le> cs" using ok by (auto simp: packed_ok_def list_all_iff)
  then have "sized cs (length sep + mn) (map pk_text ps)"
    by (cases ps rule: rev_cases) (auto simp: sized_def list_all_iff)
  with False covers_packed [OF ok] show ?thesis by (auto simp: merge_short_tail_def)
next
  case True
  then obtain qs l where "ps = qs @ [l]" by (cases ps rule: rev_cases) auto
  with True obtain rs prev where ps: "ps = rs @ [prev, l]" by (cases qs rule: rev_cases) auto
  define tl where "tl = trim_start (fresh l)"
  have l: "length tl < mn" using True length_trim_start [of "fresh l"] by (auto simp: tl_def ps fresh_def)
  have tv: "visible tl = visible (fresh l)" by (simp add: tl_def)
  define p where "p = (if tl \<noteq> [] then prev\<lparr>pk_text := pk_text prev @ sep @ tl\<rparr> else prev)"
  have m: "merge_short_tail ps sep mn = map pk_text (rs @ [p])"
    using True by (simp add: merge_short_tail_def Let_def ps p_def tl_def fresh_def butlast_append)
  have prev: "packed_ok cs ov prev" and rs: "list_all (packed_ok cs ov) rs" using ok by (simp_all add: ps)
  have "pk_overlap p = pk_overlap prev" by (simp add: p_def)
  moreover have "visible (drop (pk_overlap prev) (pk_text p)) = visible (fresh prev) @ visible (fresh l)"
    using prev sep tv by (auto simp: p_def fresh_def packed_ok_def)
  moreover have "length (pk_text prev) \<le> length (pk_text p)" by (simp add: p_def)
  ultimately have "covers ov [pk_text p] ((visible (fresh prev) @ visible (fresh l)) @ [])"
    using covers_Cons [of "pk_overlap prev" ov "pk_text p" "[]" "[]"] prev
    by (auto simp: packed_ok_def covers_Nil)
  with covers_append [OF covers_packed [OF rs]] have "covers ov (map pk_text (rs @ [p])) (concat (map (\<lambda>p. visible (fresh p)) ps))"
    by (fastforce simp: ps)
  moreover have "sized cs (length sep + mn) (map pk_text (rs @ [p]))"
    using prev rs l by (auto simp: sized_def packed_ok_def list_all_iff p_def)
  ultimately show ?thesis by (simp add: m)
qed

lemma chunk_units_ok:
  assumes "0 < chunk_size cfg" and "\<forall>u \<in> set us. u \<noteq> []" and "visible sep = []"
  shows "\<exists>cs. chunk_units us sep cfg = Some cs \<and> covers (overlap cfg) cs (concat (map visible us))
    \<and> sized (chunk_size cfg) (length sep + min_chunk_size cfg) cs"
proof -
  obtain vs where vs: "cap_units (chunk_size cfg) us = Some vs" "fits (chunk_size cfg) vs"
    "concat (map visible vs) = concat (map visible us)"
    using cap_units_returns [OF assms(1,2)] by blast
  note p = pack_units_ok [OF assms(3) vs(2), of "overlap cfg"]
  with merge_short_tail_ok [OF conjunct1 [OF p] assms(3), of "min_chunk_size cfg"] vs
  show ?thesis by (simp add: chunk_units_def)
qed

section \<open>Windows with a short tail\<close>

lemma ranges_chain_merge:
  "ranges_chain n ov start (rs @ [r, l]) \<Longrightarrow> ranges_chain n ov start (rs @ [(fst r, snd l)])"
proof (induction n ov start rs rule: ranges_chain.induct)
  case (1 n ov start)
  then show ?case by (cases r; cases l) auto
next
  case (2 n ov start s e)
  then show ?case by (cases r; cases l) auto
next
  case (3 n ov start s e r' rs)
  then show ?case by simp
qed

lemma ranges_chain_sizes:
  "ranges_chain n ov start (rs @ [r, l]) \<Longrightarrow> fst l = snd r - ov \<and> snd l = n \<and> fst r + ov < snd r \<and> snd r < n"
proof (induction n ov start rs rule: ranges_chain.induct)
  case (1 n ov start)
  then show ?case by (cases r; cases l) auto
next
  case (2 n ov start s e)
  then show ?case by (cases r; cases l) auto
next
  case (3 n ov start s e r' rs)
  then show ?case by simp
qed

lemma merge_short_range_ok:
  assumes "ranges_chain n ov start rs" and "list_all (\<lambda>(s, e). e - s \<le> cs) rs"
  shows "ranges_chain n ov start (merge_short_range rs mn)"
    and "list_all (\<lambda>(s, e). e - s \<le> cs) (butlast (merge_short_range rs mn))"
    and "merge_short_range rs mn \<noteq> [] \<Longrightarrow>
      (\<lambda>(s, e). e - s \<le> cs \<or> e - s < cs + mn) (last (merge_short_range rs mn))"
proof -
  have "ranges_chain n ov start (merge_short_range rs mn)
    \<and> list_all (\<lambda>(s, e). e - s \<le> cs) (butlast (merge_short_range rs mn))
    \<and> (merge_short_range rs mn \<noteq> [] \<longrightarrow>
        (\<lambda>(s, e). e - s \<le> cs \<or> e - s < cs + mn) (last (merge_short_range rs mn)))"
  proof (cases "2 \<le> length rs \<and> snd (last rs) - fst (last rs) < mn")
    case False
    then have "merge_short_range rs mn = rs" by (auto simp: merge_short_range_def)
    with assms show ?thesis by (cases rs rule: rev_cases) auto
  next
    case True
    then obtain qs l where "rs = qs @ [l]" by (cases rs rule: rev_cases) auto
    with True obtain ts r where rs: "rs = ts @ [r, l]" by (cases qs rule: rev_cases) auto
    have m: "merge_short_range rs mn = ts @ [(fst r, snd l)]"
      using True by (simp add: merge_short_range_def rs butlast_append)
    have c: "fst l = snd r - ov" "snd l = n" "fst r + ov < snd r" "snd r < n"
      using ranges_chain_sizes assms(1) unfolding rs by blast+
    have "snd r - fst r \<le> cs" using assms(2) by (auto simp: rs case_prod_beta)
    moreover have "snd l - fst l < mn" using True by (simp add: rs)
    ultimately have "snd l - fst r < cs + mn" using c by linarith
    with ranges_chain_merge [OF assms(1) [unfolded rs]] assms(2) show ?thesis
      unfolding m by (simp add: rs)
  qed
  then show "ranges_chain n ov start (merge_short_range rs mn)"
    "list_all (\<lambda>(s, e). e - s \<le> cs) (butlast (merge_short_range rs mn))"
    "merge_short_range rs mn \<noteq> [] \<Longrightarrow>
      (\<lambda>(s, e). e - s \<le> cs \<or> e - s < cs + mn) (last (merge_short_range rs mn))"
    by (simp_all add: case_prod_beta)
qed

lemma sized_filter:
  assumes "list_all (\<lambda>c. length c \<le> n) (butlast cs)" and "cs \<noteq> [] \<Longrightarrow> length (last cs) \<le> n \<or> length (last cs) < n + m"
  shows "sized n m (filter (\<lambda>c. c \<noteq> []) cs)"
proof (cases cs rule: rev_cases)
  case Nil
  then show ?thesis by (simp add: sized_def)
next
  case (snoc xs x)
  have xs: "length c \<le> n" if "c \<in> set xs" for c using assms(1) that by (simp add: snoc list_all_iff)
  show ?thesis
  proof (cases "x = []")
    case True
    show ?thesis
    proof (cases "filter (\<lambda>c. c \<noteq> []) xs = []")
      case True
      with \<open>x = []\<close> show ?thesis by (simp add: sized_def snoc)
    next
      case False
      then have "last (filter (\<lambda>c. c \<noteq> []) xs) \<in> set xs" by (metis filter_is_subset last_in_set subsetD)
      with \<open>x = []\<close> xs show ?thesis by (auto simp: sized_def snoc list_all_iff dest: in_set_butlastD)
    qed
  next
    case False
    with assms(2) xs show ?thesis by (auto simp: sized_def snoc list_all_iff)
  qed
qed

section \<open>Chunking a text\<close>

definition accepted :: "chunk_config \<Rightarrow> bool" where
  "accepted cfg \<longleftrightarrow> 0 < chunk_size cfg \<and> overlap cfg < chunk_size cfg"

lemma parse_config_accepted: "parse_config from_value value = Inr cfg \<Longrightarrow> accepted cfg"
  by (auto simp: parse_config_def accepted_def default_config_def split: if_splits sum.splits)

lemma chunk_text_ok:
  assumes "accepted cfg"
  shows "\<exists>cs. chunk_text content cfg = Some cs \<and> covers (overlap cfg) cs (visible content)
    \<and> sized (chunk_size cfg) (min_chunk_size cfg + 2) cs"
proof -
  let ?t = "trim content"
  have a: "0 < chunk_size cfg" "overlap cfg < chunk_size cfg" using assms by (simp_all add: accepted_def)
  have v: "visible ?t = visible content" by simp
  consider "?t = []" | "?t \<noteq> []" "length ?t \<le> chunk_size cfg" | "chunk_size cfg < length ?t" by linarith
  then show ?thesis
  proof cases
    case 1
    with v have "visible content = []" by (simp add: trim_eq_Nil)
    with 1 show ?thesis by (simp add: chunk_text_def sized_def)
  next
    case 2
    have "covers (overlap cfg) [?t] (visible ?t)" using covers_Cons0 [OF covers_Nil, of "overlap cfg" ?t] by simp
    with 2 show ?thesis by (simp add: chunk_text_def sized_def)
  next
    case 3
    then have ne: "?t \<noteq> []" by auto
    show ?thesis
    proof (cases "cc_strategy cfg")
      case Sentence
      with 3 ne chunk_units_ok [OF a(1), of "split_sentences ?t" "[32]"] split_units_not_Nil(1) show ?thesis
        by (auto simp: chunk_text_def split_units_visible sized_def)
    next
      case Paragraph
      with 3 ne chunk_units_ok [OF a(1), of "split_paragraphs ?t" "[10, 10]"] split_units_not_Nil(2) show ?thesis
        by (auto simp: chunk_text_def split_units_visible sized_def)
    next
      case Fixed
      obtain rs where rs: "fixed_ranges ?t (chunk_size cfg) (overlap cfg) = Some rs"
        "ranges_chain (length ?t) (overlap cfg) 0 rs" "list_all (\<lambda>(s, e). e - s \<le> chunk_size cfg) rs"
        using ranges_from_returns [OF a(2), of ?t 0] unfolding fixed_ranges_def by blast
      let ?ms = "merge_short_range rs (min_chunk_size cfg)"
      let ?ps = "map (\<lambda>r. trim (slice ?t r)) ?ms"
      note m = merge_short_range_ok [OF rs(2,3), of "min_chunk_size cfg"]
      have "covers (overlap cfg) (filter (\<lambda>p. p \<noteq> []) ?ps) (visible (drop (0 + 0) ?t))"
        by (rule covers_windows [OF m(1)]) simp_all
      then have "covers (overlap cfg) (filter (\<lambda>p. p \<noteq> []) ?ps) (visible content)" by simp
      moreover have "sized (chunk_size cfg) (min_chunk_size cfg + 2) (filter (\<lambda>p. p \<noteq> []) ?ps)"
      proof (rule sized_filter)
        have "length (trim (slice ?t r)) \<le> chunk_size cfg" if "r \<in> set (butlast ?ms)" for r
          using that m(2) trim_slice_length [of ?t "fst r" "snd r"] by (fastforce simp: list_all_iff case_prod_beta)
        then show "list_all (\<lambda>c. length c \<le> chunk_size cfg) (butlast ?ps)"
          by (simp add: list_all_iff map_butlast [symmetric])
      next
        assume "?ps \<noteq> []"
        then have "?ms \<noteq> []" by simp
        with m(3) show "length (last ?ps) \<le> chunk_size cfg \<or> length (last ?ps) < chunk_size cfg + (min_chunk_size cfg + 2)"
          using trim_slice_length [of ?t "fst (last ?ms)" "snd (last ?ms)"] by (auto simp: last_map case_prod_beta)
      qed
      ultimately show ?thesis using 3 ne Fixed rs(1) by (simp add: chunk_text_def)
    qed
  qed
qed

text \<open>C10. With a configuration that was accepted, chunking a text always returns, and whatever the
  strategy no visible character of the text is lost, added or moved: the chunks, each without at
  most \<open>overlap\<close> characters repeated at its beginning, read in order give the text.\<close>

theorem chunk_text_keeps_content:
  assumes "parse_config from_value value = Inr cfg"
  shows "\<exists>cs. chunk_text content cfg = Some cs \<and> covers (overlap cfg) cs (visible content)"
  using chunk_text_ok [OF parse_config_accepted [OF assms], of content] by blast

text \<open>No chunk is empty, and none is longer than \<open>chunk_size\<close> but the last one, which the merge of
  a short tail can make longer by less than \<open>min_chunk_size\<close> and the separator of two characters.\<close>

theorem chunk_text_sizes:
  assumes "parse_config from_value value = Inr cfg"
  shows "\<exists>cs. chunk_text content cfg = Some cs \<and> list_all (\<lambda>c. c \<noteq> []) cs
    \<and> list_all (\<lambda>c. length c \<le> chunk_size cfg) (butlast cs)
    \<and> list_all (\<lambda>c. length c < chunk_size cfg + min_chunk_size cfg + 2) cs"
proof -
  obtain cs where cs: "chunk_text content cfg = Some cs" "sized (chunk_size cfg) (min_chunk_size cfg + 2) cs"
    using chunk_text_ok [OF parse_config_accepted [OF assms], of content] by blast
  have "length c < chunk_size cfg + min_chunk_size cfg + 2" if "c \<in> set cs" for c
    using that cs(2) by (cases cs rule: rev_cases) (auto simp: sized_def list_all_iff)
  with cs show ?thesis by (auto simp: sized_def list_all_iff)
qed

section \<open>Chunk documents\<close>

text \<open>The chunks of a document have different ids, made of the document's id and their position,
  and say which chunk of how many they are.\<close>

theorem chunk_document_ids:
  assumes "chunk_document parent cfg = Some docs"
  shows "distinct (map doc_id docs)
    \<and> map (\<lambda>d. meta_chunk_index (doc_meta d)) docs = map Some [0..<length docs]
    \<and> list_all (\<lambda>d. meta_chunk_total (doc_meta d) = Some (length docs)
          \<and> meta_parent_id (doc_meta d) = Some (doc_id parent)) docs"
proof -
  from assms obtain cs where "chunk_text (doc_content parent) cfg = Some cs"
    and docs: "docs = map (\<lambda>(i, t). \<lparr>doc_id = doc_id parent @ [95] @ show_nat i,
          doc_title = (if keep_parent_fields cfg then doc_title parent else None), doc_content = t,
          doc_fields = (if keep_parent_fields cfg then doc_fields parent else []),
          doc_meta = chunk_meta parent cfg i (length cs)\<rparr>) (enumerated cs)"
    by (auto simp: chunk_document_def)
  have len: "length docs = length cs" by (simp add: docs)
  have "map doc_id docs = map (\<lambda>i. doc_id parent @ [95] @ show_nat i) [0..<length cs]"
    by (rule nth_equalityI) (simp_all add: docs enumerated_def)
  moreover have "map (\<lambda>d. meta_chunk_index (doc_meta d)) docs = map Some [0..<length docs]"
    by (rule nth_equalityI) (simp_all add: docs enumerated_def chunk_meta_def)
  moreover have "list_all (\<lambda>d. meta_chunk_total (doc_meta d) = Some (length docs)
          \<and> meta_parent_id (doc_meta d) = Some (doc_id parent)) docs"
    unfolding len by (auto simp: docs list_all_iff chunk_meta_def)
  ultimately show ?thesis by (simp add: distinct_map inj_on_def)
qed

lemma chunk_documents_returns:
  assumes "accepted cfg" shows "\<exists>r. chunk_documents cancelled cfg i ds = Some r"
proof (induction ds arbitrary: i)
  case (Cons d ds)
  obtain cs where "chunk_text (doc_content d) cfg = Some cs" using chunk_text_ok [OF assms] by blast
  with Cons [of "i + 1"] show ?case by (auto simp: chunk_document_def)
qed simp

text \<open>C11. The plugin returns, with documents or an error, for every input and every configuration.\<close>

theorem chunker_returns:
  "\<exists>r. chunker_execute from_value cancelled unique input config = Some r"
proof (cases "parse_config from_value config")
  case (Inl e)
  then show ?thesis by (simp add: chunker_execute_def)
next
  case (Inr cfg)
  let ?docs = "case input of InBytes b \<Rightarrow> try_bind (document_from_text unique b) (\<lambda>d. Inr [d])
      | other \<Rightarrow> in_into_documents other"
  show ?thesis
  proof (cases ?docs)
    case (Inl e)
    with Inr show ?thesis by (simp add: chunker_execute_def)
  next
    case (Inr docs)
    obtain r where "chunk_documents cancelled cfg 0 docs = Some r"
      using chunk_documents_returns [OF parse_config_accepted [OF \<open>parse_config from_value config = Inr cfg\<close>]] by blast
    with Inr \<open>parse_config from_value config = Inr cfg\<close> show ?thesis by (simp add: chunker_execute_def)
  qed
qed

section \<open>Examples\<close>

definition tiny_config :: "strategy \<Rightarrow> chunk_config" where
  "tiny_config s = \<lparr>cc_strategy = s, chunk_size = 12, overlap = 4, min_chunk_size = 2, keep_parent_fields = True\<rparr>"

lemma parse_tiny: "parse_config (\<lambda>_. Inr (tiny_config s)) (JObject []) = Inr (tiny_config s)"
  by (simp add: parse_config_def tiny_config_def)

theorem chunk_text_keeps_content_witness:
  "\<exists>cs. chunk_text (lit ''One two. Three four five.'') (tiny_config Sentence) = Some cs
     \<and> covers 4 cs (visible (lit ''One two. Three four five.''))"
  using chunk_text_keeps_content [OF parse_tiny [of Sentence]] by (simp add: tiny_config_def)

theorem chunk_text_sizes_witness:
  "\<exists>cs. chunk_text (lit ''One two. Three four five.'') (tiny_config Fixed) = Some cs
     \<and> list_all (\<lambda>c. length c < 16) cs"
  using chunk_text_sizes [OF parse_tiny [of Fixed], of "lit ''One two. Three four five.''"]
  by (auto simp: tiny_config_def)

lemma chunk_document_example:
  "\<exists>docs. chunk_document (new_document [97] (lit ''One two. Three four five.'')) (tiny_config Sentence) = Some docs"
proof -
  have "accepted (tiny_config Sentence)" by (simp add: accepted_def tiny_config_def)
  from chunk_text_ok [OF this] show ?thesis by (auto simp: chunk_document_def)
qed

theorem chunk_document_ids_witness:
  "\<exists>docs. chunk_document (new_document [97] (lit ''One two. Three four five.'')) (tiny_config Sentence) = Some docs
     \<and> distinct (map doc_id docs)"
  using chunk_document_example chunk_document_ids by blast

end
