(* ===== verification/Cost.thy ===== *)
theory Cost
  imports Sdk_Types "HOL-Library.Finite_Map"
begin

text \<open>
  \<open>crates/plugin-sdk/src/cost.rs\<close>: what a call to a hosted model costs. The table is a finite map
  from plugins to finite maps from models to prices; reading it from TOML text and from the file
  system is a parameter. The arithmetic is the one of the code: \<open>u128\<close> saturating on the way,
  \<open>u64\<close> at the end, seconds of audio in \<open>f64\<close>. The lemmas show that the saturation on the way never
  shows: the cost is the exact sum, cut off at the largest \<open>u64\<close> only.
\<close>

section \<open>The table\<close>

definition PRICED_PLUGINS :: "rstr list" where
  "PRICED_PLUGINS = [lit ''llm_enricher'', lit ''jev_enricher'', lit ''image_captioner'',
     lit ''whisper_transcriber'']"

record price =
  input_per_mtok :: u64
  output_per_mtok :: u64
  per_audio_second :: u64
  per_request :: u64

definition default_price :: price where
  "default_price = \<lparr>input_per_mtok = 0, output_per_mtok = 0, per_audio_second = 0, per_request = 0\<rparr>"

type_synonym price_table = "(rstr, (rstr, price) fmap) fmap"

record provider_costs =
  entries :: price_table

definition no_costs :: provider_costs where
  "no_costs = \<lparr>entries = fmempty\<rparr>"

text \<open>\<open>toml\<close> is the TOML deserializer, \<open>read_file\<close> the file system.\<close>

definition from_toml :: "(rstr \<Rightarrow> rstr + price_table) \<Rightarrow> rstr \<Rightarrow> rstr + provider_costs" where
  "from_toml toml source =
     (case toml source of Inl e \<Rightarrow> Inl (lit ''invalid provider cost table: '' @ e)
      | Inr t \<Rightarrow> Inr \<lparr>entries = t\<rparr>)"

definition or_unpriced :: "rstr + provider_costs \<Rightarrow> provider_costs" where
  "or_unpriced loaded = (case loaded of Inl _ \<Rightarrow> no_costs | Inr c \<Rightarrow> c)"

definition bundled_costs :: "(rstr \<Rightarrow> rstr + price_table) \<Rightarrow> rstr \<Rightarrow> provider_costs" where
  "bundled_costs toml bundled_source = or_unpriced (from_toml toml bundled_source)"

definition load_costs ::
  "(rstr \<Rightarrow> rstr + price_table) \<Rightarrow> rstr \<Rightarrow> (rstr \<Rightarrow> rstr + rstr) \<Rightarrow> rstr option \<Rightarrow> rstr + provider_costs" where
  "load_costs toml bundled_source read_file path =
     (case path of
        None \<Rightarrow> Inr (bundled_costs toml bundled_source)
      | Some p \<Rightarrow>
          (case read_file p of
             Inl e \<Rightarrow> Inl (lit ''cannot read provider cost file '' @ p @ lit '': '' @ e)
           | Inr source \<Rightarrow>
               (case from_toml toml source of Inl e \<Rightarrow> Inl (p @ lit '': '' @ e) | Inr c \<Rightarrow> Inr c)))"

text \<open>\<open>PROVIDER_COSTS_FILE\<close>, when set and not blank.\<close>

definition costs_env_path :: "rstr option \<Rightarrow> rstr option" where
  "costs_env_path var = (case var of Some p \<Rightarrow> if trim p \<noteq> [] then Some p else None | None \<Rightarrow> None)"

definition global_costs ::
  "(rstr \<Rightarrow> rstr + price_table) \<Rightarrow> rstr \<Rightarrow> (rstr \<Rightarrow> rstr + rstr) \<Rightarrow> rstr option \<Rightarrow> provider_costs" where
  "global_costs toml bundled_source read_file var =
     or_unpriced (load_costs toml bundled_source read_file (costs_env_path var))"

section \<open>Pricing a call\<close>

definition price_of :: "provider_costs \<Rightarrow> rstr \<Rightarrow> rstr \<Rightarrow> price option" where
  "price_of costs plugin model =
     (case fmlookup (entries costs) plugin of
        None \<Rightarrow> None
      | Some models \<Rightarrow>
          or_else (or_else (fmlookup models model)
                     (case split_once 47 model of Some (_, bare) \<Rightarrow> fmlookup models bare | None \<Rightarrow> None))
            (fmlookup models (lit ''default'')))"

definition unpriced_plugins :: "provider_costs \<Rightarrow> rstr list \<Rightarrow> rstr list" where
  "unpriced_plugins costs registered =
     filter (\<lambda>p. case fmlookup (entries costs) p of
                 None \<Rightarrow> True | Some models \<Rightarrow> fmpred (\<lambda>_ pr. pr = default_price) models)
       (filter (\<lambda>p. p \<in> set PRICED_PLUGINS) registered)"

datatype unpriced_reason = UnknownModel | MissingQuantity

text \<open>The set of calls already warned about; the first result says whether this one is new.\<close>

type_synonym seen_calls = "(rstr \<times> rstr \<times> unpriced_reason) fset"

definition warn_unpriced_once ::
  "rstr \<Rightarrow> rstr \<Rightarrow> unpriced_reason \<Rightarrow> seen_calls \<Rightarrow> bool \<times> seen_calls" where
  "warn_unpriced_once plugin model reason seen =
     ((plugin, model, reason) |\<notin>| seen, finsert (plugin, model, reason) seen)"

definition count_unpriced :: "usage_units \<Rightarrow> usage_units" where
  "count_unpriced u = u\<lparr>unpriced_calls := sat_add (unpriced_calls u) 1\<rparr>"

definition missing_quantity :: "price \<Rightarrow> usage_units \<Rightarrow> bool" where
  "missing_quantity p u \<longleftrightarrow>
     (let prices_tokens = 0 < input_per_mtok p \<or> 0 < output_per_mtok p;
          no_tokens = llm_input_tokens u = 0 \<and> llm_output_tokens u = 0;
          no_seconds = \<not> (f64_is_finite (audio_seconds u) \<and> f64_is_positive (audio_seconds u))
      in (prices_tokens \<and> no_tokens) \<or> (0 < per_audio_second p \<and> no_seconds))"

definition u128_of :: "u64 \<Rightarrow> u128" where
  "u128_of w = ucast w"

definition u128_div_ceil :: "u128 \<Rightarrow> nat \<Rightarrow> u128" where
  "u128_div_ceil a b = of_nat (div_ceil_nat (unat a) b)"

definition u64_of_u128_or_max :: "u128 \<Rightarrow> u64" where
  "u64_of_u128_or_max w = (if unat w < 2 ^ 64 then ucast w else - 1)"

definition token_cost :: "price \<Rightarrow> usage_units \<Rightarrow> u128" where
  "token_cost p u =
     u128_div_ceil
       (sat_add (sat_mul (u128_of (llm_input_tokens u)) (u128_of (input_per_mtok p)))
                (sat_mul (u128_of (llm_output_tokens u)) (u128_of (output_per_mtok p)))) 1000000"

definition audio_cost :: "price \<Rightarrow> usage_units \<Rightarrow> u128" where
  "audio_cost p u = f64_as_word (f64_ceil (f64_mul (audio_seconds u) (f64_of_u64 (per_audio_second p))))"

definition request_cost :: "price \<Rightarrow> usage_units \<Rightarrow> u128" where
  "request_cost p u =
     (let requests = max (sat_add (llm_requests u) (external_requests u)) 1
      in sat_mul (u128_of requests) (u128_of (per_request p)))"

definition call_cost :: "price \<Rightarrow> usage_units \<Rightarrow> u128" where
  "call_cost p u = sat_add (sat_add (token_cost p u) (audio_cost p u)) (request_cost p u)"

definition apply_costs ::
  "provider_costs \<Rightarrow> rstr \<Rightarrow> rstr \<Rightarrow> seen_calls \<Rightarrow> usage_units \<Rightarrow> usage_units \<times> seen_calls" where
  "apply_costs costs plugin model seen u =
     (case price_of costs plugin model of
        None \<Rightarrow> (count_unpriced u, snd (warn_unpriced_once plugin model UnknownModel seen))
      | Some p \<Rightarrow>
          if missing_quantity p u
          then (count_unpriced u, snd (warn_unpriced_once plugin model MissingQuantity seen))
          else (u\<lparr>cost_micro_usd := sat_add (cost_micro_usd u) (u64_of_u128_or_max (call_cost p u))\<rparr>, seen))"

section \<open>Saturation only at the end\<close>

lemma unat_u128_of: "unat (u128_of w) = unat w"
  by (simp add: u128_of_def unsigned_ucast_eq take_bit_nat_eq_self order_less_le_trans [OF unsigned_less])

lemma unat_u64_or_max: "unat (u64_of_u128_or_max w) = min (unat w) (2 ^ 64 - 1)"
proof (cases "unat w < 2 ^ 64")
  case True
  then show ?thesis
    by (simp add: u64_of_u128_or_max_def unsigned_ucast_eq take_bit_nat_eq_self)
next
  case False
  then show ?thesis using unat_minus_one_max [where 'a = 64] by (simp add: u64_of_u128_or_max_def)
qed

lemma div_ceil_nat_le: "0 < b \<Longrightarrow> div_ceil_nat a b \<le> a"
proof -
  assume b: "0 < b"
  show ?thesis
  proof (cases "a mod b = 0")
    case False
    then have "a div b < a" using b
      by (metis div_less_dividend div_by_1 mod_by_1 mod_0 neq0_conv nat_neq_iff less_one)
    with False show ?thesis by (simp add: div_ceil_nat_def)
  qed (simp add: div_ceil_nat_def)
qed

lemma div_ceil_nat_mono: "0 < b \<Longrightarrow> a \<le> a' \<Longrightarrow> div_ceil_nat a b \<le> div_ceil_nat a' b"
proof -
  assume b: "0 < b" and le: "a \<le> a'"
  have "div_ceil_nat a b * b < a + b" using b by (rule div_ceil_nat_bounds)
  also have "\<dots> \<le> div_ceil_nat a' b * b + b" using div_ceil_nat_bounds(1) [OF b, of a'] le by linarith
  finally have "div_ceil_nat a b * b < (div_ceil_nat a' b + 1) * b" by (simp add: algebra_simps)
  then show ?thesis using mult_less_cancel2 [of "div_ceil_nat a b" b "div_ceil_nat a' b + 1"] by linarith
qed

text \<open>The exact cost of a call, in natural numbers.\<close>

definition exact_tokens :: "price \<Rightarrow> usage_units \<Rightarrow> nat" where
  "exact_tokens p u = unat (llm_input_tokens u) * unat (input_per_mtok p)
     + unat (llm_output_tokens u) * unat (output_per_mtok p)"

definition exact_cost :: "price \<Rightarrow> usage_units \<Rightarrow> nat" where
  "exact_cost p u = div_ceil_nat (exact_tokens p u) 1000000 + unat (audio_cost p u)
     + max (unat (llm_requests u) + unat (external_requests u)) 1 * unat (per_request p)"

lemma u64_product_bound: "unat a * unat b \<le> (2 ^ 64 - 1) * (2 ^ 64 - 1)" for a b :: u64
  using unat_le_max [of a] unat_le_max [of b] by (intro mult_le_mono) simp_all

lemma unat_token_cost:
  "min (unat (token_cost p u)) (2 ^ 64 - 1) = min (div_ceil_nat (exact_tokens p u) 1000000) (2 ^ 64 - 1)"
proof -
  let ?s = "sat_add (sat_mul (u128_of (llm_input_tokens u)) (u128_of (input_per_mtok p)))
                (sat_mul (u128_of (llm_output_tokens u)) (u128_of (output_per_mtok p)))"
  have s: "unat ?s = min (exact_tokens p u) (2 ^ 128 - 1)"
    by (simp add: unat_sat_add unat_sat_mul unat_u128_of exact_tokens_def)
  have "unat (token_cost p u) = take_bit 128 (div_ceil_nat (unat ?s) 1000000)"
    by (simp add: token_cost_def u128_div_ceil_def unsigned_of_nat)
  also have "\<dots> = div_ceil_nat (unat ?s) 1000000"
    using div_ceil_nat_le [of 1000000 "unat ?s"] unat_le_max [of ?s] by (intro take_bit_nat_eq_self) simp
  finally have t: "unat (token_cost p u) = div_ceil_nat (unat ?s) 1000000" .
  show ?thesis
  proof (cases "exact_tokens p u \<le> 2 ^ 128 - 1")
    case True
    then show ?thesis by (simp add: t s)
  next
    case False
    then have "unat ?s = 2 ^ 128 - 1" unfolding s by simp
    moreover have "(2 ^ 64 - 1 :: nat) \<le> div_ceil_nat (2 ^ 128 - 1) 1000000"
      by (simp add: div_ceil_nat_def)
    moreover have "div_ceil_nat (2 ^ 128 - 1) 1000000 \<le> div_ceil_nat (exact_tokens p u) 1000000"
      using False by (intro div_ceil_nat_mono) simp_all
    ultimately show ?thesis by (simp add: t)
  qed
qed

lemma unat_request_cost:
  "min (unat (request_cost p u)) (2 ^ 64 - 1)
   = min (max (unat (llm_requests u) + unat (external_requests u)) 1 * unat (per_request p)) (2 ^ 64 - 1)"
proof -
  let ?r = "max (sat_add (llm_requests u) (external_requests u)) 1"
  let ?n = "max (unat (llm_requests u) + unat (external_requests u)) 1"
  have r: "unat ?r = min ?n (2 ^ 64 - 1)"
    by (auto simp: max_def word_le_nat_alt unat_sat_add min_def split: if_splits)
  have "unat (request_cost p u) = min (unat ?r * unat (per_request p)) (2 ^ 128 - 1)"
    by (simp add: request_cost_def Let_def unat_sat_mul unat_u128_of)
  moreover have "unat ?r * unat (per_request p) \<le> 2 ^ 128 - 1"
    using u64_product_bound [of ?r "per_request p"] by simp
  ultimately have q: "unat (request_cost p u) = unat ?r * unat (per_request p)" by simp
  show ?thesis
  proof (cases "?n \<le> 2 ^ 64 - 1 \<or> unat (per_request p) = 0")
    case True
    then show ?thesis unfolding q r by auto
  next
    case False
    then have "unat ?r = 2 ^ 64 - 1" "1 \<le> unat (per_request p)" "2 ^ 64 - 1 \<le> ?n"
      unfolding r by auto
    then have "2 ^ 64 - 1 \<le> unat ?r * unat (per_request p)" "2 ^ 64 - 1 \<le> ?n * unat (per_request p)"
      using mult_le_mono [of "2 ^ 64 - 1" "unat ?r" 1 "unat (per_request p)"]
        mult_le_mono [of "2 ^ 64 - 1" ?n 1 "unat (per_request p)"] by simp_all
    then show ?thesis unfolding q by simp
  qed
qed

lemma min_add_cong:
  "min a m = min a' m \<Longrightarrow> min b m = min b' m \<Longrightarrow> min (a + b) m = min (a' + b') m" for a :: nat
  by (auto simp: min_def split: if_splits)

lemma unat_call_cost: "min (unat (call_cost p u)) (2 ^ 64 - 1) = min (exact_cost p u) (2 ^ 64 - 1)"
proof -
  have "min (unat (call_cost p u)) (2 ^ 64 - 1)
      = min (unat (token_cost p u) + unat (audio_cost p u) + unat (request_cost p u)) (2 ^ 64 - 1)"
    by (simp add: call_cost_def unat_sat_add)
  also have "\<dots> = min (exact_cost p u) (2 ^ 64 - 1)"
    unfolding exact_cost_def by (intro min_add_cong unat_token_cost unat_request_cost refl)
  finally show ?thesis .
qed

section \<open>Properties\<close>

text \<open>A call the table can price adds its exact cost, rounded up to a micro-dollar once for all
  tokens, and is cut off only when the total exceeds the largest \<open>u64\<close>: neither the saturation of
  the partial sums nor the casts lose anything. Any other call is counted as unpriced.\<close>

theorem apply_costs_exact:
  "fst (apply_costs costs plugin model seen u) =
     (case price_of costs plugin model of
        None \<Rightarrow> count_unpriced u
      | Some p \<Rightarrow> if missing_quantity p u then count_unpriced u
                 else u\<lparr>cost_micro_usd := of_nat (min (unat (cost_micro_usd u) + exact_cost p u) (2 ^ 64 - 1))\<rparr>)"
proof -
  have "sat_add a (u64_of_u128_or_max (call_cost p u)) = of_nat (min (unat a + exact_cost p u) (2 ^ 64 - 1))"
    for a :: u64 and p
  proof (rule word_eqI_unat)
    have "unat (sat_add a (u64_of_u128_or_max (call_cost p u)))
        = min (unat a + min (unat (call_cost p u)) (2 ^ 64 - 1)) (2 ^ 64 - 1)"
      by (simp add: unat_sat_add unat_u64_or_max)
    also have "\<dots> = min (unat a + exact_cost p u) (2 ^ 64 - 1)"
      by (simp only: unat_call_cost)
    also have "\<dots> = unat (of_nat (min (unat a + exact_cost p u) (2 ^ 64 - 1)) :: u64)"
      by (simp add: unsigned_of_nat take_bit_nat_eq_self)
    finally show "unat (sat_add a (u64_of_u128_or_max (call_cost p u)))
      = unat (of_nat (min (unat a + exact_cost p u) (2 ^ 64 - 1)) :: u64)" .
  qed
  then show ?thesis by (simp add: apply_costs_def split: option.split)
qed

lemma split_once_append: "x \<notin> set a \<Longrightarrow> split_once x (a @ x # b) = Some (a, b)"
  by (induction a) (auto simp: split_once_def split: if_splits)

text \<open>A gateway names models as \<open>provider/model\<close>: without an entry of its own such a name is priced
  as the bare model is.\<close>

theorem gateway_model_price:
  assumes "47 \<notin> set provider" "47 \<notin> set model"
    and "\<And>models. fmlookup (entries costs) plugin = Some models \<Longrightarrow> fmlookup models (provider @ [47] @ model) = None"
  shows "price_of costs plugin (provider @ [47] @ model) = price_of costs plugin model"
proof -
  have "split_once 47 (provider @ 47 # model) = Some (provider, model)" "split_once 47 model = None"
    using assms(2) by (simp_all add: split_once_append [OF assms(1)]) (simp add: split_once_def)
  with assms(3) show ?thesis by (auto simp: price_of_def split: option.split)
qed

lemma zero_price_costs_nothing: "call_cost default_price u = 0"
proof -
  have z: "f64_as_word (f64_ceil (f64_mul x (Fin 0))) = (0 :: u128)" for x
    by (cases x) (simp_all add: clamp_to_word_def)
  have "token_cost default_price u = 0"
    by (simp add: token_cost_def default_price_def u128_of_def sat_mul_def u128_div_ceil_def div_ceil_nat_def)
  moreover have "audio_cost default_price u = 0"
    using z [of "audio_seconds u"] by (simp add: audio_cost_def default_price_def f64_of_u64_def)
  moreover have "request_cost default_price u = 0"
    by (simp add: request_cost_def default_price_def u128_of_def sat_mul_def)
  ultimately show ?thesis by (simp add: call_cost_def)
qed

lemma unpriced_plugins_zero:
  "plugin \<in> set (unpriced_plugins costs registered) \<longleftrightarrow>
     plugin \<in> set registered \<and> plugin \<in> set PRICED_PLUGINS
     \<and> (\<forall>model p. price_of costs plugin model = Some p \<longrightarrow> p = default_price)
     \<and> (\<forall>model seen u. cost_micro_usd (fst (apply_costs costs plugin model seen u)) = cost_micro_usd u)"
  (is "?l \<longleftrightarrow> ?r \<and> ?q \<and> ?z \<and> ?c")
proof -
  have l: "?l \<longleftrightarrow> ?r \<and> ?q \<and> ?z"
  proof (cases "fmlookup (entries costs) plugin")
    case None
    then show ?thesis by (auto simp: unpriced_plugins_def price_of_def)
  next
    case (Some models)
    have "fmpred (\<lambda>_ pr. pr = default_price) models \<longleftrightarrow> ?z"
    proof
      assume a: "fmpred (\<lambda>_ pr. pr = default_price) models"
      then have "fmlookup models m = Some pr \<Longrightarrow> pr = default_price" for m pr
        by (auto simp: fmpred_iff)
      then show ?z using Some by (auto simp: price_of_def or_else_def split: option.splits prod.splits)
    next
      assume z: ?z
      have "price_of costs plugin m = Some pr" if "fmlookup models m = Some pr" for m pr
        using Some that by (simp add: price_of_def)
      with z show "fmpred (\<lambda>_ pr. pr = default_price) models" by (auto simp: fmpred_iff)
    qed
    then show ?thesis using Some by (auto simp: unpriced_plugins_def)
  qed
  moreover have ?c if ?z
  proof (intro allI)
    fix model seen and u :: usage_units
    show "cost_micro_usd (fst (apply_costs costs plugin model seen u)) = cost_micro_usd u"
    proof (cases "price_of costs plugin model")
      case None
      then show ?thesis by (simp add: apply_costs_def count_unpriced_def)
    next
      case (Some p)
      with that have "p = default_price" by blast
      then show ?thesis using Some
        by (simp add: apply_costs_def count_unpriced_def zero_price_costs_nothing u64_of_u128_or_max_def)
    qed
  qed
  ultimately show ?thesis by blast
qed

lemma none_or_some: "P = None \<or> P = Some d \<longleftrightarrow> (\<forall>p. P = Some p \<longrightarrow> p = d)"
  by (cases P) auto

text \<open>The check at boot reports exactly the registered plugins that pay a provider and for which no
  model has a price other than zero, and every call of a plugin it reports is billed at nothing.\<close>

theorem unpriced_plugins_iff:
  "plugin \<in> set (unpriced_plugins costs registered) \<longleftrightarrow>
     plugin \<in> set registered \<and> plugin \<in> set PRICED_PLUGINS
     \<and> (\<forall>model. price_of costs plugin model = None \<or> price_of costs plugin model = Some default_price)
     \<and> (\<forall>model seen u. cost_micro_usd (fst (apply_costs costs plugin model seen u)) = cost_micro_usd u)"
  unfolding none_or_some by (rule unpriced_plugins_zero)

text \<open>A call is warned about once for each reason.\<close>

lemma warn_unpriced_once_again:
  "fst (warn_unpriced_once p m r (snd (warn_unpriced_once p m r seen))) = False"
  "(p', m', r') \<noteq> (p, m, r) \<Longrightarrow>
     fst (warn_unpriced_once p' m' r' (snd (warn_unpriced_once p m r seen))) = fst (warn_unpriced_once p' m' r' seen)"
  by (auto simp: warn_unpriced_once_def)

section \<open>Witnesses\<close>

definition demo_costs :: provider_costs where
  "demo_costs = \<lparr>entries = fmupd (lit ''llm_enricher'')
     (fmupd (lit ''m'') \<lparr>input_per_mtok = 150000, output_per_mtok = 600000, per_audio_second = 0, per_request = 0\<rparr> fmempty)
     fmempty\<rparr>"

theorem gateway_model_price_witness:
  "price_of demo_costs (lit ''llm_enricher'') (lit ''openai'' @ [47] @ lit ''m'')
     = price_of demo_costs (lit ''llm_enricher'') (lit ''m'')"
  by (rule gateway_model_price) (auto simp: demo_costs_def lit_def split: if_splits)

end
