(* ===== verification/Http.thy ===== *)
theory Http
  imports Rust_Prelude
begin

text \<open>
  The outcome of an HTTP request as the callers see it: no reply, or a status and the body as the
  caller's type, whose deserialization may fail.
\<close>

datatype 'a http_reply = NoHttpReply rstr | HttpReply nat "rstr + 'a"

definition http_success :: "nat \<Rightarrow> bool" where
  "http_success status \<longleftrightarrow> 200 \<le> status \<and> status < 300"

definition is_redirection :: "nat \<Rightarrow> bool" where
  "is_redirection status \<longleftrightarrow> 300 \<le> status \<and> status < 400"

definition is_client_error :: "nat \<Rightarrow> bool" where
  "is_client_error status \<longleftrightarrow> 400 \<le> status \<and> status < 500"

end
