(* ===== verification/Lab_Credits.thy ===== *)
theory Lab_Credits
  imports Utf8 Sdk_Types Http
begin

text \<open>
  \<open>crates/lab/src/credits.rs\<close> and the account lookup of \<open>crates/lab/src/lib.rs\<close>: may billable work
  start for an account? Lookups are cached, and when the Lab does not answer the check fails closed.
  The clock is a number of nanoseconds and \<open>duration_since\<close> is natural subtraction, as it saturates.
  The Lab is the environment: what it answers to each request, and when, is an argument.

  The code is modelled twice: as the function \<open>check\<close> runs alone, and as a step relation in which
  any number of checks share the cache and are interleaved at every lock and at the request.
\<close>

section \<open>Accounts and the Lab's answers\<close>

definition is_lab_account :: "rstr \<Rightarrow> bool" where
  "is_lab_account i =
     (let b = utf8_bytes i
      in length b = 36 \<and> list_all (\<lambda>(i, c). if i \<in> {8, 13, 18, 23} then c = 45
                                              else is_ascii_digit c \<or> (97 \<le> c \<and> c \<le> 102)) (enumerated b))"

record credits =
  balance :: "64 word"

record account_lookup =
  active :: bool
  al_account_id :: "rstr option"
  al_tier :: "rstr option"
  al_credits :: "credits option"
  cache_ttl :: "u64 option"

text \<open>The balance is an \<open>i64\<close>.\<close>

definition can_spend :: "account_lookup \<Rightarrow> bool" where
  "can_spend l \<longleftrightarrow> active l \<and> (case al_credits l of Some c \<Rightarrow> 0 <s balance c | None \<Rightarrow> False)"

datatype lab_error = LabTransport rstr | LabUnauthorized | LabStatus nat | LabMalformed rstr | LabWrongProduct rstr

definition PRODUCT :: rstr where
  "PRODUCT = lit ''glutony''"

text \<open>The product of the instance the credentials belong to.\<close>

definition check_product :: "rstr \<Rightarrow> lab_error + unit" where
  "check_product product = (if product = PRODUCT then Inr () else Inl (LabWrongProduct product))"

definition get_json :: "'a http_reply \<Rightarrow> lab_error + 'a" where
  "get_json reply =
     (case reply of
        NoHttpReply e \<Rightarrow> Inl (LabTransport e)
      | HttpReply status body \<Rightarrow>
          if status = 401 then Inl LabUnauthorized
          else if \<not> http_success status then Inl (LabStatus status)
          else (case body of Inl e \<Rightarrow> Inl (LabMalformed e) | Inr v \<Rightarrow> Inr v))"

text \<open>\<open>debug\<close> is the standard library's \<open>{:?}\<close> of a string.\<close>

definition fetch_account ::
  "(rstr \<Rightarrow> rstr) \<Rightarrow> account_lookup http_reply \<Rightarrow> rstr \<Rightarrow> lab_error + account_lookup" where
  "fetch_account debug reply account =
     (if \<not> is_lab_account account then Inl (LabMalformed (debug account @ lit '' is not a Lab account id''))
      else get_json reply)"

section \<open>The cache\<close>

definition secs :: "nat \<Rightarrow> nat" where
  "secs n = n * 1000000000"

definition FRESH_FOR :: nat where
  "FRESH_FOR = secs 30"

definition STALE_FOR :: nat where
  "STALE_FOR = secs 300"

definition FAILURE_BACKOFF :: nat where
  "FAILURE_BACKOFF = secs 10"

datatype credit_decision = Allowed | NotALabAccount | NoCredits rstr | Unavailable rstr

definition decision_message :: "credit_decision \<Rightarrow> rstr option" where
  "decision_message d = (case d of NoCredits m \<Rightarrow> Some m | Unavailable m \<Rightarrow> Some m | _ \<Rightarrow> None)"

record cached =
  fetched_at :: nat
  cached_lookup :: account_lookup

record credit_cache =
  accounts :: "rstr \<rightharpoonup> cached"
  last_failure :: "nat option"

definition new_cache :: credit_cache where
  "new_cache = \<lparr>accounts = Map.empty, last_failure = None\<rparr>"

definition cached_within :: "nat \<Rightarrow> credit_cache \<Rightarrow> rstr \<Rightarrow> nat \<Rightarrow> account_lookup option" where
  "cached_within age cache account now =
     (case accounts cache account of
        Some c \<Rightarrow> if now - fetched_at c < age then Some (cached_lookup c) else None
      | None \<Rightarrow> None)"

definition backing_off :: "credit_cache \<Rightarrow> nat \<Rightarrow> bool" where
  "backing_off cache now =
     (case last_failure cache of Some t \<Rightarrow> now - t < FAILURE_BACKOFF | None \<Rightarrow> False)"

definition note_answer :: "nat \<Rightarrow> lab_error + account_lookup \<Rightarrow> credit_cache \<Rightarrow> credit_cache" where
  "note_answer seen fetched cache = cache\<lparr>last_failure := (if isl fetched then Some seen else None)\<rparr>"

definition store_lookup :: "rstr \<Rightarrow> nat \<Rightarrow> account_lookup \<Rightarrow> credit_cache \<Rightarrow> credit_cache" where
  "store_lookup account now l cache =
     cache\<lparr>accounts := (accounts cache)(account \<mapsto> \<lparr>fetched_at = now, cached_lookup = l\<rparr>)\<rparr>"

definition not_asked :: lab_error where
  "not_asked = LabTransport (lit ''not asked: the last Lab request failed less than '' @ show_nat (FAILURE_BACKOFF div secs 1)
     @ lit ''s ago'')"

text \<open>One lookup alone: \<open>now\<close> is the time it starts, \<open>seen\<close> the time the Lab's answer is there.\<close>

definition lookup_account ::
  "(rstr \<Rightarrow> rstr) \<Rightarrow> account_lookup http_reply \<Rightarrow> nat \<Rightarrow> nat \<Rightarrow> rstr \<Rightarrow> credit_cache
   \<Rightarrow> account_lookup option \<times> credit_cache" where
  "lookup_account debug reply now seen account cache =
     (case cached_within FRESH_FOR cache account now of
        Some l \<Rightarrow> (Some l, cache)
      | None \<Rightarrow>
          let (fetched, cache) =
            (if backing_off cache now then (Inl not_asked, cache)
             else let fetched = fetch_account debug reply account
                  in (fetched, note_answer seen fetched cache))
          in (case fetched of
                Inr l \<Rightarrow> (Some l, store_lookup account now l cache)
              | Inl e \<Rightarrow> (cached_within STALE_FOR cache account now, cache)))"

definition decide :: "rstr \<Rightarrow> account_lookup option \<Rightarrow> credit_decision" where
  "decide account found =
     (case found of
        Some l \<Rightarrow> if \<not> can_spend l
                  then NoCredits (lit ''account '' @ account @ lit '' has no credits left; top up in the Lab console'')
                  else Allowed
      | None \<Rightarrow> Unavailable (lit ''the Lab has been unreachable for more than '' @ show_nat (STALE_FOR div secs 1)
                  @ lit ''s; cannot check account '' @ account @ lit (CHR 0x27 # ''s credits'')))"

definition check ::
  "(rstr \<Rightarrow> rstr) \<Rightarrow> account_lookup http_reply \<Rightarrow> nat \<Rightarrow> nat \<Rightarrow> rstr \<Rightarrow> credit_cache
   \<Rightarrow> credit_decision \<times> credit_cache" where
  "check debug reply now seen account cache =
     (if \<not> is_lab_account account then (NotALabAccount, cache)
      else let (found, cache) = lookup_account debug reply now seen account cache
           in (decide account found, cache))"

section \<open>Interleaved checks\<close>

text \<open>Where a check stands between two accesses to the shared state: it arrived; it found no fresh
  entry; its request is on the way; its answer is to be stored; it falls back to an old entry; it
  ended. The time is the one the check started at.\<close>

datatype phase =
    Arrived rstr
  | Missed rstr nat
  | Asking rstr nat
  | Storing rstr nat account_lookup
  | Fallback rstr nat
  | Decided rstr nat credit_decision

text \<open>One step of a check at time \<open>clock\<close>; \<open>reply\<close> is used by a check whose request is on the way.\<close>

fun check_step ::
  "(rstr \<Rightarrow> rstr) \<Rightarrow> account_lookup http_reply \<Rightarrow> nat \<Rightarrow> phase \<Rightarrow> credit_cache \<Rightarrow> phase \<times> credit_cache" where
  "check_step debug reply clock (Arrived a) cache =
     (if \<not> is_lab_account a then (Decided a clock NotALabAccount, cache)
      else (case cached_within FRESH_FOR cache a clock of
              Some l \<Rightarrow> (Decided a clock (decide a (Some l)), cache) | None \<Rightarrow> (Missed a clock, cache)))"
| "check_step debug reply clock (Missed a now) cache =
     (if backing_off cache now then (Fallback a now, cache) else (Asking a now, cache))"
| "check_step debug reply clock (Asking a now) cache =
     (let fetched = fetch_account debug reply a
      in (case fetched of Inr l \<Rightarrow> Storing a now l | Inl e \<Rightarrow> Fallback a now, note_answer clock fetched cache))"
| "check_step debug reply clock (Storing a now l) cache =
     (Decided a now (decide a (Some l)), store_lookup a now l cache)"
| "check_step debug reply clock (Fallback a now) cache =
     (Decided a now (decide a (cached_within STALE_FOR cache a now)), cache)"
| "check_step debug reply clock (Decided a now d) cache = (Decided a now d, cache)"

text \<open>The Lab's side keeps the requests it got and the lookups it answered, each with the time at
  which the check that asked started.\<close>

record credit_world =
  cw_clock :: nat
  cw_cache :: credit_cache
  cw_checks :: "nat \<rightharpoonup> phase"
  cw_requests :: "(rstr \<times> nat) list"
  cw_answers :: "(rstr \<times> nat \<times> account_lookup) list"

definition world_start :: "nat \<Rightarrow> credit_world" where
  "world_start clock = \<lparr>cw_clock = clock, cw_cache = new_cache, cw_checks = Map.empty, cw_requests = [],
     cw_answers = []\<rparr>"

definition log_request :: "phase \<Rightarrow> credit_world \<Rightarrow> credit_world" where
  "log_request ph w =
     (case ph of
        Asking a now \<Rightarrow> w\<lparr>cw_requests := cw_requests w @ [(a, now)]\<rparr>
      | Storing a now l \<Rightarrow> w\<lparr>cw_answers := cw_answers w @ [(a, now, l)]\<rparr>
      | _ \<Rightarrow> w)"

definition advance_check ::
  "(rstr \<Rightarrow> rstr) \<Rightarrow> account_lookup http_reply \<Rightarrow> nat \<Rightarrow> phase \<Rightarrow> credit_world \<Rightarrow> credit_world" where
  "advance_check debug reply i ph w =
     (let (ph', cache') = check_step debug reply (cw_clock w) ph (cw_cache w)
      in log_request ph' (w\<lparr>cw_cache := cache', cw_checks := (cw_checks w)(i \<mapsto> ph')\<rparr>))"

inductive credit_step :: "credit_world \<Rightarrow> credit_world \<Rightarrow> bool" where
  tick: "credit_step w (w\<lparr>cw_clock := cw_clock w + d\<rparr>)"
| arrive: "cw_checks w i = None \<Longrightarrow> credit_step w (w\<lparr>cw_checks := (cw_checks w)(i \<mapsto> Arrived a)\<rparr>)"
| advance: "cw_checks w i = Some ph \<Longrightarrow> credit_step w (advance_check debug reply i ph w)"

inductive credit_reachable :: "credit_world \<Rightarrow> bool" where
  initially: "credit_reachable (world_start clock)"
| later: "credit_reachable w \<Longrightarrow> credit_step w w' \<Longrightarrow> credit_reachable w'"

inductive_cases credit_step_elim: "credit_step w w'"

section \<open>Decisions are justified\<close>

text \<open>What must have happened for a check of account \<open>a\<close>, started at \<open>now\<close>, to end with a decision.\<close>

definition justified :: "credit_world \<Rightarrow> rstr \<Rightarrow> nat \<Rightarrow> credit_decision \<Rightarrow> bool" where
  "justified w a now d =
     (let answered = (\<lambda>P. \<exists>t l. (a, t, l) \<in> set (cw_answers w) \<and> now - t < STALE_FOR \<and> P l)
      in (case d of
            Allowed \<Rightarrow> is_lab_account a \<and> answered can_spend
          | NoCredits m \<Rightarrow> is_lab_account a \<and> answered (\<lambda>l. \<not> can_spend l)
          | Unavailable m \<Rightarrow> is_lab_account a
          | NotALabAccount \<Rightarrow> \<not> is_lab_account a))"

fun phase_ok :: "credit_world \<Rightarrow> phase \<Rightarrow> bool" where
  "phase_ok w (Arrived a) = True"
| "phase_ok w (Missed a now) = is_lab_account a"
| "phase_ok w (Asking a now) = (is_lab_account a \<and> (a, now) \<in> set (cw_requests w))"
| "phase_ok w (Storing a now l) = (is_lab_account a \<and> (a, now, l) \<in> set (cw_answers w))"
| "phase_ok w (Fallback a now) = is_lab_account a"
| "phase_ok w (Decided a now d) = justified w a now d"

definition credit_inv :: "credit_world \<Rightarrow> bool" where
  "credit_inv w \<longleftrightarrow>
     (\<forall>a c. accounts (cw_cache w) a = Some c \<longrightarrow> (a, fetched_at c, cached_lookup c) \<in> set (cw_answers w))
     \<and> (\<forall>i ph. cw_checks w i = Some ph \<longrightarrow> phase_ok w ph)
     \<and> (\<forall>a t. (a, t) \<in> set (cw_requests w) \<longrightarrow> is_lab_account a)
     \<and> (\<forall>a t l. (a, t, l) \<in> set (cw_answers w) \<longrightarrow> (a, t) \<in> set (cw_requests w))"

lemma credit_invD:
  assumes "credit_inv w"
  shows "accounts (cw_cache w) a = Some c \<Longrightarrow> (a, fetched_at c, cached_lookup c) \<in> set (cw_answers w)"
    "cw_checks w i = Some ph \<Longrightarrow> phase_ok w ph"
    "(a, t) \<in> set (cw_requests w) \<Longrightarrow> is_lab_account a"
    "(a, t, l) \<in> set (cw_answers w) \<Longrightarrow> (a, t) \<in> set (cw_requests w)"
  using assms unfolding credit_inv_def by blast+

lemma justified_more_answers:
  "set (cw_answers w) \<subseteq> set (cw_answers w') \<Longrightarrow> justified w a now d \<Longrightarrow> justified w' a now d"
  by (cases d) (auto simp: justified_def Let_def)

lemma phase_ok_later:
  "set (cw_answers w) \<subseteq> set (cw_answers w') \<Longrightarrow> set (cw_requests w) \<subseteq> set (cw_requests w')
   \<Longrightarrow> phase_ok w ph \<Longrightarrow> phase_ok w' ph"
  by (cases ph) (auto intro: justified_more_answers)

lemma advance_grows:
  "set (cw_answers w) \<subseteq> set (cw_answers (advance_check debug reply i ph w))"
  "set (cw_requests w) \<subseteq> set (cw_requests (advance_check debug reply i ph w))"
  by (auto simp: advance_check_def log_request_def case_prod_beta Let_def split: phase.splits)

lemma cached_within_Some:
  "cached_within age cache a now = Some l \<longleftrightarrow>
     (\<exists>c. accounts cache a = Some c \<and> now - fetched_at c < age \<and> cached_lookup c = l)"
  by (auto simp: cached_within_def split: option.splits)

lemma decide_justified:
  assumes "is_lab_account a" "(a, t, l) \<in> set (cw_answers w)" "now - t < STALE_FOR"
  shows "justified w a now (decide a (Some l))"
  using assms by (auto simp: decide_def justified_def)

lemma decide_None_justified: "is_lab_account a \<Longrightarrow> justified w a now (decide a None)"
  by (simp add: decide_def justified_def)

lemma fresh_is_not_stale: "n < FRESH_FOR \<Longrightarrow> n < STALE_FOR"
  by (simp add: FRESH_FOR_def STALE_FOR_def secs_def)

lemma note_answer_accounts [simp]: "accounts (note_answer seen f cache) = accounts cache"
  by (simp add: note_answer_def)

lemma decide_cached_justified:
  assumes "credit_inv w" "is_lab_account a" "cached_within age (cw_cache w) a now = found" "age = FRESH_FOR \<or> age = STALE_FOR"
    and "age = FRESH_FOR \<Longrightarrow> found \<noteq> None"
  shows "justified w a now (decide a found)"
proof (cases found)
  case None
  then show ?thesis using assms(2) by (simp add: decide_None_justified)
next
  case (Some l)
  with assms(3) obtain c where c: "accounts (cw_cache w) a = Some c" "now - fetched_at c < age" "cached_lookup c = l"
    by (auto simp: cached_within_Some)
  with assms(1) have "(a, fetched_at c, l) \<in> set (cw_answers w)" by (auto simp: credit_inv_def)
  moreover have "now - fetched_at c < STALE_FOR" using c(2) assms(4) fresh_is_not_stale by auto
  ultimately show ?thesis using Some assms(2) by (simp add: decide_justified)
qed

text \<open>The phase a step leads to is in order in the world after it.\<close>

lemma check_step_ok:
  assumes inv: "credit_inv w" and ph: "phase_ok w ph"
    and step: "check_step debug reply (cw_clock w) ph (cw_cache w) = (ph', cache')"
    and w': "w' = advance_check debug reply i ph w"
  shows "phase_ok w' ph'"
proof -
  have new: "phase_ok w' ph'" if "phase_ok w ph'"
    unfolding w' by (rule phase_ok_later [OF advance_grows that])
  have w'': "w' = log_request ph' (w\<lparr>cw_cache := cache', cw_checks := (cw_checks w)(i \<mapsto> ph')\<rparr>)"
    by (simp add: w' advance_check_def step)
  show ?thesis
  proof (cases ph)
    case (Arrived a)
    show ?thesis
    proof (rule new, cases "is_lab_account a \<and> cached_within FRESH_FOR (cw_cache w) a (cw_clock w) \<noteq> None")
      case True
      then obtain l where l: "cached_within FRESH_FOR (cw_cache w) a (cw_clock w) = Some l" by blast
      with True step Arrived have "ph' = Decided a (cw_clock w) (decide a (Some l))" by simp
      with decide_cached_justified [OF inv _ l] True show "phase_ok w ph'" by simp
    next
      case False
      with step Arrived show "phase_ok w ph'" by (auto simp: justified_def split: if_splits)
    qed
  next
    case (Missed a now)
    with step ph show ?thesis unfolding w'' by (auto simp: log_request_def split: if_splits)
  next
    case (Asking a now)
    with step ph show ?thesis unfolding w''
      by (auto simp: log_request_def Let_def split: sum.splits)
  next
    case (Storing a now l)
    with ph have a: "is_lab_account a" "(a, now, l) \<in> set (cw_answers w)" by simp_all
    have "justified w a now (decide a (Some l))"
      using a by (rule decide_justified) (simp add: STALE_FOR_def secs_def)
    with step Storing show ?thesis by (intro new) auto
  next
    case (Fallback a now)
    with ph decide_cached_justified [OF inv, of a STALE_FOR now] step show ?thesis
      by (intro new) (auto simp: FRESH_FOR_def STALE_FOR_def secs_def)
  next
    case (Decided a now d)
    with step ph show ?thesis by (intro new) auto
  qed
qed

lemma check_step_accounts:
  assumes "check_step debug reply clock ph cache = (ph', cache')" "accounts cache' a = Some c"
  shows "accounts cache a = Some c \<or> ph = Storing a (fetched_at c) (cached_lookup c)"
  using assms by (cases ph) (auto simp: store_lookup_def Let_def split: if_splits option.splits)

lemma advance_requests:
  assumes "check_step debug reply (cw_clock w) ph (cw_cache w) = (ph', cache')" "phase_ok w ph"
    and "(a, t) \<in> set (cw_requests (advance_check debug reply i ph w))"
  shows "(a, t) \<in> set (cw_requests w) \<or> is_lab_account a"
  using assms by (cases ph) (auto simp: advance_check_def log_request_def Let_def split: if_splits option.splits sum.splits)

lemma advance_answers:
  assumes "check_step debug reply (cw_clock w) ph (cw_cache w) = (ph', cache')" "phase_ok w ph"
    and "(a, t, l) \<in> set (cw_answers (advance_check debug reply i ph w))"
  shows "(a, t, l) \<in> set (cw_answers w) \<or> (a, t) \<in> set (cw_requests w)"
  using assms by (cases ph) (auto simp: advance_check_def log_request_def Let_def split: if_splits option.splits sum.splits)

lemma advance_world:
  assumes "check_step debug reply (cw_clock w) ph (cw_cache w) = (ph', cache')"
  shows "cw_cache (advance_check debug reply i ph w) = cache'"
    "cw_checks (advance_check debug reply i ph w) = (cw_checks w)(i \<mapsto> ph')"
  using assms by (simp_all add: advance_check_def log_request_def split: phase.split)

lemma credit_inv_advance:
  assumes inv: "credit_inv w" and ph: "cw_checks w i = Some ph"
  shows "credit_inv (advance_check debug reply i ph w)"
proof -
  let ?w' = "advance_check debug reply i ph w"
  obtain ph' cache' where step: "check_step debug reply (cw_clock w) ph (cw_cache w) = (ph', cache')"
    by (cases "check_step debug reply (cw_clock w) ph (cw_cache w)")
  from inv ph have ok: "phase_ok w ph" by (auto simp: credit_inv_def)
  note world = advance_world [OF step, of i] and grows = advance_grows [of w debug reply i ph]
  show ?thesis unfolding credit_inv_def
  proof (intro conjI allI impI)
    fix a c assume "accounts (cw_cache ?w') a = Some c"
    then consider "accounts (cw_cache w) a = Some c" | "ph = Storing a (fetched_at c) (cached_lookup c)"
      unfolding world using check_step_accounts [OF step] by blast
    then have "(a, fetched_at c, cached_lookup c) \<in> set (cw_answers w)"
    proof cases
      case 1
      then show ?thesis by (rule credit_invD(1) [OF inv])
    next
      case 2
      with ok show ?thesis by simp
    qed
    then show "(a, fetched_at c, cached_lookup c) \<in> set (cw_answers ?w')" using grows(1) by blast
  next
    fix j q assume q: "cw_checks ?w' j = Some q"
    show "phase_ok ?w' q"
    proof (cases "j = i")
      case True
      with q have "q = ph'" unfolding world by simp
      then show ?thesis using check_step_ok [OF inv ok step refl] by simp
    next
      case False
      with q have "cw_checks w j = Some q" unfolding world by simp
      then show ?thesis by (rule phase_ok_later [OF grows credit_invD(2) [OF inv]])
    qed
  next
    fix a t assume "(a, t) \<in> set (cw_requests ?w')"
    then show "is_lab_account a" using advance_requests [OF step ok] credit_invD(3) [OF inv] by blast
  next
    fix a t l assume "(a, t, l) \<in> set (cw_answers ?w')"
    then show "(a, t) \<in> set (cw_requests ?w')"
      using advance_answers [OF step ok] credit_invD(4) [OF inv] grows(2) by blast
  qed
qed

lemma credit_inv_same_cache:
  assumes "credit_inv w" "cw_cache w' = cw_cache w" "cw_requests w' = cw_requests w" "cw_answers w' = cw_answers w"
    and "\<And>i ph. cw_checks w' i = Some ph \<Longrightarrow> cw_checks w i = Some ph \<or> (\<exists>a. ph = Arrived a)"
  shows "credit_inv w'"
proof -
  have "phase_ok w' ph" if "cw_checks w' i = Some ph" for i ph
    using assms(5) [OF that] phase_ok_later [of w w' ph] credit_invD(2) [OF assms(1), of i ph] assms(3,4) by auto
  then show ?thesis using assms(1-4) by (simp add: credit_inv_def)
qed

lemma credit_inv_step:
  assumes "credit_inv w" "credit_step w w'" shows "credit_inv w'"
  using assms(2)
proof (rule credit_step_elim)
  fix d assume "w' = w\<lparr>cw_clock := cw_clock w + d\<rparr>"
  then show ?thesis by (auto intro: credit_inv_same_cache [OF assms(1)])
next
  fix i a assume "w' = w\<lparr>cw_checks := (cw_checks w)(i \<mapsto> Arrived a)\<rparr>"
  then show ?thesis by (auto intro!: credit_inv_same_cache [OF assms(1)] split: if_splits)
next
  fix i ph debug reply assume "w' = advance_check debug reply i ph w" "cw_checks w i = Some ph"
  then show ?thesis by (simp add: credit_inv_advance [OF assms(1)])
qed

lemma credit_inv_reachable: "credit_reachable w \<Longrightarrow> credit_inv w"
proof (induction rule: credit_reachable.induct)
  case (initially clock)
  then show ?case by (simp add: credit_inv_def world_start_def new_cache_def)
qed (rule credit_inv_step)

text \<open>C16. However checks are interleaved, a check allows work for an account only if the Lab said that
  the account can spend, in answer to a request of a check that started less than five minutes
  earlier; a refusal for lack of credits is justified in the same way. Otherwise it fails closed.\<close>

theorem credit_fail_closed:
  assumes "credit_reachable w" "cw_checks w i = Some (Decided a now d)"
  shows "justified w a now d"
  using credit_invD(2) [OF credit_inv_reachable [OF assms(1)] assms(2)] by simp

text \<open>The Lab is asked about Lab accounts only, and every lookup it is quoted with answers one of
  these requests.\<close>

theorem lab_asked_for_accounts_only:
  assumes "credit_reachable w"
  shows "(\<forall>(a, t) \<in> set (cw_requests w). is_lab_account a)
    \<and> (\<lambda>(a, t, l). (a, t)) ` set (cw_answers w) \<subseteq> set (cw_requests w)"
  using credit_invD(3,4) [OF credit_inv_reachable [OF assms]] by auto

section \<open>A check alone\<close>

definition alone :: "(rstr \<Rightarrow> rstr) \<Rightarrow> account_lookup http_reply \<Rightarrow> nat \<Rightarrow> nat \<Rightarrow> phase \<times> credit_cache \<Rightarrow> phase \<times> credit_cache" where
  "alone debug reply now seen = (\<lambda>(ph, cache).
     check_step debug reply (case ph of Arrived _ \<Rightarrow> now | _ \<Rightarrow> seen) ph cache)"

text \<open>A check that no other disturbs computes what the function \<open>check\<close> does, in at most four steps:
  the interleaved model refines to the code read from top to bottom.\<close>

theorem check_alone:
  "(alone debug reply now seen ^^ 4) (Arrived a, cache) =
     (let (d, cache') = check debug reply now seen a cache in (Decided a now d, cache'))"
proof -
  have four: "(f ^^ 4) x = f (f (f (f x)))" for f :: "'x \<Rightarrow> 'x" and x
    by (simp add: numeral_eq_Suc)
  show ?thesis
    unfolding four
    by (auto simp: alone_def check_def lookup_account_def Let_def split: option.splits sum.splits)
qed

section \<open>How often the Lab is asked\<close>

text \<open>Checks one after the other: account, start, the Lab's reply if it is asked, and when that is
  there. Each request is listed with its account, start, end and whether it failed.\<close>

type_synonym check_run = "rstr \<times> nat \<times> account_lookup http_reply \<times> nat"

definition asks :: "credit_cache \<Rightarrow> rstr \<Rightarrow> nat \<Rightarrow> bool" where
  "asks cache a now \<longleftrightarrow>
     is_lab_account a \<and> cached_within FRESH_FOR cache a now = None \<and> \<not> backing_off cache now"

lemma asks_iff_step: "asks cache a now \<longleftrightarrow> (alone debug reply now seen ^^ 2) (Arrived a, cache) = (Asking a now, cache)"
  by (auto simp: numeral_2_eq_2 alone_def asks_def split: option.splits)

fun lab_requests :: "(rstr \<Rightarrow> rstr) \<Rightarrow> credit_cache \<Rightarrow> check_run list \<Rightarrow> (rstr \<times> nat \<times> nat \<times> bool) list" where
  "lab_requests debug cache [] = []"
| "lab_requests debug cache ((a, now, reply, seen) # runs) =
     (if asks cache a now then [(a, now, seen, isl (get_json reply))] else [])
     @ lab_requests debug (snd (check debug reply now seen a cache)) runs"

lemma check_cache:
  "snd (check debug reply now seen a cache) =
     (if asks cache a now
      then (case get_json reply of
              Inl e \<Rightarrow> cache\<lparr>last_failure := Some seen\<rparr>
            | Inr l \<Rightarrow> store_lookup a now l (cache\<lparr>last_failure := None\<rparr>))
      else cache)"
  by (auto simp: check_def lookup_account_def asks_def fetch_account_def note_answer_def Let_def
      split: option.splits sum.splits)

lemma lab_requests_after_failure:
  "last_failure cache = Some t \<Longrightarrow> lab_requests debug cache runs = (a, now, x) # rs \<Longrightarrow> t + FAILURE_BACKOFF \<le> now"
proof (induction runs arbitrary: cache)
  case (Cons r runs)
  obtain a' now' reply seen where r: "r = (a', now', reply, seen)" by (cases r)
  show ?case
  proof (cases "asks cache a' now'")
    case True
    with Cons.prems r show ?thesis by (auto simp: asks_def backing_off_def FAILURE_BACKOFF_def secs_def)
  next
    case False
    with Cons r show ?thesis by (auto simp: check_cache)
  qed
qed simp

lemma lab_requests_after_success:
  assumes "accounts cache a = Some c" "filter (\<lambda>r. fst r = a) (lab_requests debug cache runs) = (a', now, x) # rs"
  shows "fetched_at c + FRESH_FOR \<le> now"
  using assms
proof (induction runs arbitrary: cache)
  case (Cons r runs)
  obtain b t reply seen where r: "r = (b, t, reply, seen)" by (cases r)
  show ?case
  proof (cases "asks cache b t \<and> b = a")
    case True
    with Cons.prems r show ?thesis by (auto simp: asks_def cached_within_def FRESH_FOR_def secs_def split: if_splits)
  next
    case False
    then have "accounts (snd (check debug reply t seen b cache)) a = Some c"
      using Cons.prems(1) by (auto simp: check_cache store_lookup_def split: sum.split)
    with False Cons r show ?thesis by (auto split: if_splits)
  qed
qed simp

lemma successively_ConsI: "(\<And>y ys. xs = y # ys \<Longrightarrow> P x y) \<Longrightarrow> successively P xs \<Longrightarrow> successively P (x # xs)"
  by (cases xs) auto

text \<open>A Lab that does not answer is not asked again, for any account, in the ten seconds after a
  failure was seen.\<close>

theorem lab_backoff:
  "successively (\<lambda>(_, _, seen, failed) (_, start, _). if failed then seen + FAILURE_BACKOFF \<le> start else True)
     (lab_requests debug cache runs)"
proof (induction runs arbitrary: cache)
  case (Cons r runs)
  obtain a now reply seen where r: "r = (a, now, reply, seen)" by (cases r)
  let ?rest = "lab_requests debug (snd (check debug reply now seen a cache)) runs"
  have "seen + FAILURE_BACKOFF \<le> start"
    if "asks cache a now" "isl (get_json reply)" "?rest = (b, start, x) # rs" for b start x rs
    using that lab_requests_after_failure [of "snd (check debug reply now seen a cache)" seen debug runs]
    by (auto simp: check_cache isl_def)
  with Cons [of "snd (check debug reply now seen a cache)"] r show ?case
    by (auto intro!: successively_ConsI)
qed simp

text \<open>For an account the Lab answered for, it is not asked again in the thirty seconds after the
  check that asked had started.\<close>

theorem lab_asked_once_fresh:
  "successively (\<lambda>(_, start, _, failed) (_, start', _). if failed then True else start + FRESH_FOR \<le> start')
     (filter (\<lambda>r. fst r = a) (lab_requests debug cache runs))"
proof (induction runs arbitrary: cache)
  case (Cons r runs)
  obtain b now reply seen where r: "r = (b, now, reply, seen)" by (cases r)
  let ?cache = "snd (check debug reply now seen b cache)"
  let ?rest = "filter (\<lambda>r. fst r = a) (lab_requests debug ?cache runs)"
  have "now + FRESH_FOR \<le> start"
    if "asks cache b now" "\<not> isl (get_json reply)" "b = a" "?rest = (c, start, x) # rs" for c start x rs
  proof -
    from that(2) obtain l where "get_json reply = Inr l" by (cases "get_json reply") auto
    with that(1,3) have "accounts ?cache a = Some \<lparr>fetched_at = now, cached_lookup = l\<rparr>"
      by (simp add: check_cache store_lookup_def)
    from lab_requests_after_success [OF this that(4)] show ?thesis by simp
  qed
  with Cons [of ?cache] r show ?case by (auto intro!: successively_ConsI)
qed simp

section \<open>Witnesses\<close>

definition demo_account :: rstr where
  "demo_account = lit ''0a1b2c3d-0000-4000-8000-0123456789ab''"

definition demo_reply :: "account_lookup http_reply" where
  "demo_reply = HttpReply 200 (Inr \<lparr>active = True, al_account_id = None, al_tier = None,
     al_credits = Some \<lparr>balance = 5\<rparr>, cache_ttl = None\<rparr>)"

definition demo_step :: "nat \<Rightarrow> phase \<Rightarrow> credit_world \<Rightarrow> credit_world" where
  "demo_step i ph w = advance_check id demo_reply i ph w"

definition demo_world :: credit_world where
  "demo_world =
     demo_step 0 (Storing demo_account 7 (projr (get_json demo_reply)))
       (demo_step 0 (Asking demo_account 7) (demo_step 0 (Missed demo_account 7) (demo_step 0 (Arrived demo_account)
         ((world_start 7)\<lparr>cw_checks := [0 \<mapsto> Arrived demo_account]\<rparr>))))"

lemma demo_is_account: "is_lab_account demo_account"
  by code_simp

lemma demo_reachable:
  "credit_reachable w \<Longrightarrow> cw_checks w i = Some ph \<Longrightarrow> credit_reachable (demo_step i ph w)"
  unfolding demo_step_def by (rule credit_reachable.later [OF _ credit_step.advance])

lemma demo_world_spec:
  "credit_reachable demo_world" "cw_checks demo_world 0 = Some (Decided demo_account 7 Allowed)"
proof -
  let ?w0 = "(world_start 7)\<lparr>cw_checks := [0 \<mapsto> Arrived demo_account]\<rparr>"
  let ?w1 = "demo_step 0 (Arrived demo_account) ?w0"
  let ?w2 = "demo_step 0 (Missed demo_account 7) ?w1"
  let ?w3 = "demo_step 0 (Asking demo_account 7) ?w2"
  obtain l where l: "get_json demo_reply = Inr l" "can_spend l"
    by (simp add: get_json_def http_success_def demo_reply_def can_spend_def word_sless_alt)
  have steps: "cw_checks ?w1 0 = Some (Missed demo_account 7)" "cw_checks ?w2 0 = Some (Asking demo_account 7)"
    "cw_checks ?w3 0 = Some (Storing demo_account 7 l)"
    "cw_checks demo_world 0 = Some (Decided demo_account 7 Allowed)"
    using l
    by (simp_all add: demo_world_def Let_def demo_step_def advance_check_def log_request_def demo_is_account fetch_account_def
        cached_within_def backing_off_def world_start_def new_cache_def note_answer_def decide_def)
  have "credit_reachable ?w0"
    using credit_reachable.later [OF credit_reachable.initially credit_step.arrive [where i = 0]]
    by (simp add: world_start_def)
  then have "credit_reachable ?w1" by (rule demo_reachable) simp
  then have "credit_reachable ?w2" using steps(1) by (rule demo_reachable)
  then have "credit_reachable ?w3" using steps(2) by (rule demo_reachable)
  then have "credit_reachable (demo_step 0 (Storing demo_account 7 l) ?w3)" using steps(3) by (rule demo_reachable)
  then show "credit_reachable demo_world" by (simp add: demo_world_def l)
  show "cw_checks demo_world 0 = Some (Decided demo_account 7 Allowed)" by (rule steps(4))
qed

theorem credit_fail_closed_witness: "justified demo_world demo_account 7 Allowed"
  by (rule credit_fail_closed [OF demo_world_spec])

theorem lab_asked_for_accounts_only_witness:
  "(\<forall>(a, t) \<in> set (cw_requests demo_world). is_lab_account a)
    \<and> (\<lambda>(a, t, l). (a, t)) ` set (cw_answers demo_world) \<subseteq> set (cw_requests demo_world)"
  by (rule lab_asked_for_accounts_only [OF demo_world_spec(1)])

end
