(* ===== verification/Archive_Walk.thy ===== *)
theory Archive_Walk
  imports Utf8 Sdk_Types
begin

text \<open>
  \<open>crates/archive/src/lib.rs\<close>: an archive is turned into the files inside it, archives inside the
  archive included, within limits. The zip, tar and gzip readers are third-party code: a record of
  functions from bytes to entries and streams. A walk is a function on the state of the walker that
  returns a result or an error; the events handed to the sink are part of that state. How many
  layers may still be opened (\<open>max_depth\<close> less \<open>depth\<close>) is the number the recursion counts down.
  The lemmas are rules for \<open>walk_spec\<close>, a triple of an invariant, a walk and the errors it can end with.
\<close>

section \<open>Formats and limits\<close>

datatype format = Zip | Tar | Gzip

definition bytes_lit :: "string \<Rightarrow> byte list" where
  "bytes_lit s = map of_char s"

definition MIME_ZIP_ARCHIVE :: rstr where
  "MIME_ZIP_ARCHIVE = lit ''application/zip''"

definition MIME_TAR_ARCHIVE :: rstr where
  "MIME_TAR_ARCHIVE = lit ''application/x-tar''"

definition MIME_GZIP_ARCHIVE :: rstr where
  "MIME_GZIP_ARCHIVE = lit ''application/gzip''"

definition format_from_mime :: "rstr \<Rightarrow> format option" where
  "format_from_mime mime =
     (if mime = MIME_ZIP_ARCHIVE then Some Zip
      else if mime = MIME_TAR_ARCHIVE then Some Tar
      else if mime = MIME_GZIP_ARCHIVE then Some Gzip
      else None)"

definition bytes_start_with :: "byte list \<Rightarrow> byte list \<Rightarrow> bool" where
  "bytes_start_with data p \<longleftrightarrow> take (length p) data = p"

definition is_tar :: "byte list \<Rightarrow> bool" where
  "is_tar data \<longleftrightarrow> take 5 (drop 257 data) = bytes_lit ''ustar''"

definition sniff_format :: "byte list \<Rightarrow> format option" where
  "sniff_format data =
     (if bytes_start_with data [0x1F, 0x8B] then Some Gzip
      else if bytes_start_with data [0x50, 0x4B, 3, 4] \<or> bytes_start_with data [0x50, 0x4B, 5, 6] then Some Zip
      else if is_tar data then Some Tar
      else None)"

definition format_label :: "format \<Rightarrow> rstr" where
  "format_label f = (case f of Zip \<Rightarrow> lit ''zip'' | Tar \<Rightarrow> lit ''tar'' | Gzip \<Rightarrow> lit ''gzip'')"

record limits =
  max_files :: nat
  max_file_bytes :: u64
  max_total_bytes :: u64
  max_depth :: nat

definition default_limits :: limits where
  "default_limits = \<lparr>max_files = 10000, max_file_bytes = 512 * 1024 * 1024,
     max_total_bytes = 8 * 1024 * 1024 * 1024, max_depth = 3\<rparr>"

datatype event = File rstr "byte list" | Skipped rstr rstr

datatype archive_error =
    Corrupt format rstr
  | TooManyFiles nat
  | TooLarge u64
  | FileTooLarge u64
  | Stopped rstr

definition is_local :: "archive_error \<Rightarrow> bool" where
  "is_local e = (case e of Corrupt _ _ \<Rightarrow> True | FileTooLarge _ \<Rightarrow> True | _ \<Rightarrow> False)"

definition archive_error_str :: "archive_error \<Rightarrow> rstr" where
  "archive_error_str e =
     (case e of
        Corrupt f m \<Rightarrow> lit ''not a readable '' @ format_label f @ lit '' archive: '' @ m
      | TooManyFiles n \<Rightarrow> lit ''the archive holds more than '' @ show_nat n @ lit '' files''
      | TooLarge n \<Rightarrow> lit ''the archive expands to more than '' @ show_nat (unat n) @ lit '' bytes''
      | FileTooLarge n \<Rightarrow> lit ''the file expands to more than '' @ show_nat (unat n) @ lit '' bytes''
      | Stopped m \<Rightarrow> m)"

section \<open>Paths\<close>

text \<open>\<open>String::from_utf8_lossy\<close>: U+FFFD for every maximal part that is not UTF-8.\<close>

function from_utf8_lossy :: "nat list \<Rightarrow> rstr" where
  "from_utf8_lossy [] = []"
| "from_utf8_lossy (b # bs) =
     (case next_char b bs of
        Inr (c, rest) \<Rightarrow> c # from_utf8_lossy rest
      | Inl None \<Rightarrow> [0xFFFD]
      | Inl (Some n) \<Rightarrow> 0xFFFD # from_utf8_lossy (drop (n - 1) bs))"
  by pat_completeness auto
termination
  by (relation "measure length") (auto dest!: next_char_shorter)

text \<open>\<open>Path::components\<close> on Unix, where a path is a sequence of bytes.\<close>

datatype path_component = RootDir | CurDir | ParentDir | Normal "nat list"

definition component_of :: "nat list \<Rightarrow> path_component option" where
  "component_of s =
     (if s = [] \<or> s = [46] then None else if s = [46, 46] then Some ParentDir else Some (Normal s))"

definition path_components :: "nat list \<Rightarrow> path_component list" where
  "path_components p =
     (let segs = split_on 47 p
      in (if p \<noteq> [] \<and> hd p = 47 then [RootDir] else if hd segs = [46] then [CurDir] else [])
         @ List.map_filter component_of segs)"

fun join_slash :: "rstr list \<Rightarrow> rstr" where
  "join_slash [] = []"
| "join_slash [p] = p"
| "join_slash (p # q # ps) = p @ 47 # join_slash (q # ps)"

definition normal_name :: "path_component \<Rightarrow> rstr option" where
  "normal_name c = (case c of Normal s \<Rightarrow> Some (from_utf8_lossy s) | _ \<Rightarrow> None)"

definition join_components :: "nat list \<Rightarrow> rstr" where
  "join_components p = join_slash (List.map_filter normal_name (path_components p))"

fun safe_parts :: "path_component list \<Rightarrow> rstr list option" where
  "safe_parts [] = Some []"
| "safe_parts (Normal s # cs) = map_option (\<lambda>ps. from_utf8_lossy s # ps) (safe_parts cs)"
| "safe_parts (CurDir # cs) = safe_parts cs"
| "safe_parts (ParentDir # cs) = None"
| "safe_parts (RootDir # cs) = None"

definition safe_relative :: "nat list \<Rightarrow> rstr option" where
  "safe_relative p = map_option join_slash (safe_parts (path_components p))"

definition basename :: "rstr \<Rightarrow> rstr" where
  "basename p = rsplit_first (\<lambda>c. c = 47) p"

definition has_extension :: "rstr \<Rightarrow> rstr \<Rightarrow> bool" where
  "has_extension path ext =
     (case rsplit_once 46 (basename path) of
        Some (_, e) \<Rightarrow> to_ascii_lowercase e = to_ascii_lowercase ext | None \<Rightarrow> False)"

definition nested_format :: "byte list \<Rightarrow> rstr \<Rightarrow> format option" where
  "nested_format data path =
     (case sniff_format data of
        None \<Rightarrow> None
      | Some f \<Rightarrow> if f = Zip \<and> \<not> has_extension path (lit ''zip'') then None else Some f)"

definition gunzipped_name :: "rstr \<Rightarrow> rstr" where
  "gunzipped_name name =
     (let base = basename name; lower = to_ascii_lowercase base
      in if ends_with lower (lit ''.tgz'') then take (length base - 4) base @ lit ''.tar''
         else if ends_with lower (lit ''.gz'') \<and> 3 < utf8_len base then take (length base - 3) base
         else base)"

definition is_noise :: "rstr \<Rightarrow> bool" where
  "is_noise path \<longleftrightarrow>
     (let base = basename path
      in lit ''__MACOSX'' \<in> set (split_on 47 path) \<or> starts_with base (lit ''._'')
         \<or> base \<in> {lit ''.DS_Store'', lit ''Thumbs.db'', lit ''desktop.ini''})"

section \<open>Third-party readers\<close>

record zip_entry =
  ze_name :: rstr
  ze_enclosed :: "nat list option"
  ze_is_dir :: bool
  ze_is_symlink :: bool
  ze_size :: u64
  ze_open :: "rstr + stream"

datatype tar_kind = TarDir | TarSymlink | TarHardLink | TarFile | TarContiguous | TarOther

record tar_entry =
  te_kind :: tar_kind
  te_path_bytes :: "nat list"
  te_path :: "nat list option"
  te_size :: u64
  te_content :: stream

record readers =
  zip_entries :: "byte list \<Rightarrow> rstr + (rstr + zip_entry) list"
  tar_entries :: "byte list \<Rightarrow> rstr + (rstr + tar_entry) list"
  gunzip :: "byte list \<Rightarrow> stream"

section \<open>The walker\<close>

text \<open>\<open>wk_events\<close> are the events handed to the sink so far; the sink answers an event with \<open>Some m\<close> to
  stop the walk.\<close>

record walker =
  wk_files :: nat
  wk_skipped :: nat
  wk_bytes :: nat
  wk_events :: "event list"

definition new_walker :: walker where
  "new_walker = \<lparr>wk_files = 0, wk_skipped = 0, wk_bytes = 0, wk_events = []\<rparr>"

type_synonym sink = "event list \<Rightarrow> event \<Rightarrow> rstr option"
type_synonym 'a walk = "walker \<Rightarrow> (archive_error + 'a) \<times> walker"

definition walk_ok :: "'a \<Rightarrow> 'a walk" where
  "walk_ok x w = (Inr x, w)"

definition walk_err :: "archive_error \<Rightarrow> 'a walk" where
  "walk_err e w = (Inl e, w)"

definition walk_bind :: "'a walk \<Rightarrow> ('a \<Rightarrow> 'b walk) \<Rightarrow> 'b walk" where
  "walk_bind m f w = (case m w of (Inl e, w') \<Rightarrow> (Inl e, w') | (Inr x, w') \<Rightarrow> f x w')"

text \<open>The loops over entries stop at the first error.\<close>

fun for_each :: "('e \<Rightarrow> unit walk) \<Rightarrow> 'e list \<Rightarrow> unit walk" where
  "for_each step [] = walk_ok ()"
| "for_each step (e # es) = walk_bind (step e) (\<lambda>_. for_each step es)"

definition emit_event :: "sink \<Rightarrow> event \<Rightarrow> unit walk" where
  "emit_event sink e w =
     (case sink (wk_events w) e of None \<Rightarrow> Inr () | Some m \<Rightarrow> Inl (Stopped m), w\<lparr>wk_events := wk_events w @ [e]\<rparr>)"

definition skip :: "sink \<Rightarrow> rstr \<Rightarrow> rstr \<Rightarrow> unit walk" where
  "skip sink path reason w = emit_event sink (Skipped path reason) (w\<lparr>wk_skipped := wk_skipped w + 1\<rparr>)"

definition too_large :: "limits \<Rightarrow> rstr" where
  "too_large lm = lit ''larger than '' @ show_nat (unat (max_file_bytes lm)) @ lit '' bytes''"

definition unreadable :: "rstr \<Rightarrow> rstr" where
  "unreadable e = lit ''unreadable: '' @ e"

datatype read_result = ReadIo rstr | ReadFatal archive_error | ReadTooLarge | ReadData "byte list"

definition read_counted :: "limits \<Rightarrow> stream \<Rightarrow> walker \<Rightarrow> read_result \<times> walker" where
  "read_counted lm s w =
     (let left = unat (max_total_bytes lm) - wk_bytes w; cap = min (unat (max_file_bytes lm)) left
      in case read_at_most (min (cap + 1) (2 ^ 64 - 1)) s of
           Inl e \<Rightarrow> (ReadIo e, w)
         | Inr out \<Rightarrow>
             if cap < length out
             then (if left < length out then ReadFatal (TooLarge (max_total_bytes lm)) else ReadTooLarge, w)
             else (ReadData out, w\<lparr>wk_bytes := wk_bytes w + length out\<rparr>))"

text \<open>The operations of one layer take what to do with a file of it as an argument.\<close>

definition zip_step ::
  "limits \<Rightarrow> sink \<Rightarrow> (rstr \<Rightarrow> byte list \<Rightarrow> unit walk) \<Rightarrow> rstr \<Rightarrow> rstr + zip_entry \<Rightarrow> unit walk" where
  "zip_step lm sink on_file prefix entry =
     (case entry of
        Inl e \<Rightarrow> walk_err (Corrupt Zip e)
      | Inr z \<Rightarrow>
          if ze_is_dir z then walk_ok ()
          else (case Option.bind (ze_enclosed z) (\<lambda>p. if join_components p = [] then None else Some (join_components p)) of
             None \<Rightarrow> skip sink (prefix @ ze_name z) (lit ''unsafe path'')
           | Some rel \<Rightarrow>
               let path = prefix @ rel in
               if is_noise path then walk_ok ()
               else if ze_is_symlink z then skip sink path (lit ''symbolic link'')
               else if unat (max_file_bytes lm) < unat (ze_size z) then skip sink path (too_large lm)
               else (case ze_open z of
                  Inl e \<Rightarrow> skip sink path (unreadable e)
                | Inr stream \<Rightarrow>
                    (\<lambda>w. case read_counted lm stream w of
                        (ReadData data, w') \<Rightarrow> on_file path data w'
                      | (ReadTooLarge, w') \<Rightarrow> skip sink path (too_large lm) w'
                      | (ReadIo e, w') \<Rightarrow> skip sink path (unreadable e) w'
                      | (ReadFatal e, w') \<Rightarrow> walk_err e w'))))"

definition zip_layer ::
  "readers \<Rightarrow> limits \<Rightarrow> sink \<Rightarrow> (rstr \<Rightarrow> byte list \<Rightarrow> unit walk) \<Rightarrow> byte list \<Rightarrow> rstr \<Rightarrow> unit walk" where
  "zip_layer rd lm sink on_file data prefix =
     (case zip_entries rd data of
        Inl e \<Rightarrow> walk_err (Corrupt Zip e)
      | Inr entries \<Rightarrow> for_each (zip_step lm sink on_file prefix) entries)"

definition tar_step ::
  "limits \<Rightarrow> sink \<Rightarrow> (rstr \<Rightarrow> byte list \<Rightarrow> unit walk) \<Rightarrow> rstr \<Rightarrow> rstr + tar_entry \<Rightarrow> unit walk" where
  "tar_step lm sink on_file prefix entry =
     (case entry of
        Inl e \<Rightarrow> walk_err (Corrupt Tar e)
      | Inr t \<Rightarrow>
          if te_kind t = TarDir then walk_ok ()
          else (case Option.bind (Option.bind (te_path t) safe_relative) (\<lambda>p. if p = [] then None else Some p) of
             None \<Rightarrow> skip sink (prefix @ from_utf8_lossy (te_path_bytes t)) (lit ''unsafe path'')
           | Some rel \<Rightarrow>
               let path = prefix @ rel in
               if is_noise path then walk_ok ()
               else if te_kind t \<in> {TarSymlink, TarHardLink} then skip sink path (lit ''link'')
               else if te_kind t \<notin> {TarFile, TarContiguous} then walk_ok ()
               else if unat (max_file_bytes lm) < unat (te_size t) then skip sink path (too_large lm)
               else (case read_at_most (unat (sat_add (max_file_bytes lm) 1)) (te_content t) of
                  Inl e \<Rightarrow> walk_err (Corrupt Tar e)
                | Inr content \<Rightarrow>
                    if unat (max_file_bytes lm) < length content then skip sink path (too_large lm)
                    else on_file path content)))"

definition tar_layer ::
  "readers \<Rightarrow> limits \<Rightarrow> sink \<Rightarrow> (rstr \<Rightarrow> byte list \<Rightarrow> unit walk) \<Rightarrow> byte list \<Rightarrow> rstr \<Rightarrow> unit walk" where
  "tar_layer rd lm sink on_file data prefix =
     (case tar_entries rd data of
        Inl e \<Rightarrow> walk_err (Corrupt Tar e)
      | Inr entries \<Rightarrow> for_each (tar_step lm sink on_file prefix) entries)"

definition gzip_layer ::
  "readers \<Rightarrow> limits \<Rightarrow> sink \<Rightarrow> (rstr \<Rightarrow> byte list \<Rightarrow> unit walk) \<Rightarrow> byte list \<Rightarrow> rstr \<Rightarrow> rstr option \<Rightarrow> unit walk" where
  "gzip_layer rd lm sink on_file data prefix name w =
     (case read_counted lm (gunzip rd data) w of
        (ReadTooLarge, w') \<Rightarrow> walk_err (FileTooLarge (max_file_bytes lm)) w'
      | (ReadIo e, w') \<Rightarrow> walk_err (Corrupt Gzip e) w'
      | (ReadFatal e, w') \<Rightarrow> walk_err e w'
      | (ReadData inner, w') \<Rightarrow>
          if is_tar inner then tar_layer rd lm sink on_file inner prefix w'
          else on_file (prefix @ (case name of Some n \<Rightarrow> gunzipped_name n | None \<Rightarrow> lit ''file'')) inner w')"

definition archive_layer ::
  "readers \<Rightarrow> limits \<Rightarrow> sink \<Rightarrow> (rstr \<Rightarrow> byte list \<Rightarrow> unit walk) \<Rightarrow> byte list \<Rightarrow> format \<Rightarrow> rstr \<Rightarrow> rstr option
   \<Rightarrow> unit walk" where
  "archive_layer rd lm sink on_file data f prefix name =
     (case f of
        Zip \<Rightarrow> zip_layer rd lm sink on_file data prefix
      | Tar \<Rightarrow> tar_layer rd lm sink on_file data prefix
      | Gzip \<Rightarrow> gzip_layer rd lm sink on_file data prefix name)"

definition yield_file :: "limits \<Rightarrow> sink \<Rightarrow> rstr \<Rightarrow> byte list \<Rightarrow> unit walk" where
  "yield_file lm sink path data w =
     (if max_files lm \<le> wk_files w then walk_err (TooManyFiles (max_files lm)) w
      else emit_event sink (File path data) (w\<lparr>wk_files := wk_files w + 1\<rparr>))"

text \<open>The prefix of the entries of a nested archive, and its name.\<close>

definition nested_place :: "format \<Rightarrow> rstr \<Rightarrow> rstr \<times> rstr" where
  "nested_place f path =
     (if f = Gzip
      then (case rsplit_once 47 path of Some (dir, base) \<Rightarrow> (dir @ [47], base) | None \<Rightarrow> ([], path))
      else (path @ [47], basename path))"

text \<open>An error of a nested archive that concerns only that archive skips it.\<close>

definition or_skip_local :: "sink \<Rightarrow> rstr \<Rightarrow> unit walk \<Rightarrow> unit walk" where
  "or_skip_local sink path m w =
     (case m w of
        (Inl e, w') \<Rightarrow> if is_local e then skip sink path (archive_error_str e) w' else (Inl e, w')
      | (Inr u, w') \<Rightarrow> (Inr u, w'))"

text \<open>\<open>layers\<close> is \<open>max_depth\<close> less \<open>depth\<close>: how many archives may still be opened inside the one the file
  is in.\<close>

fun walk_file :: "readers \<Rightarrow> limits \<Rightarrow> sink \<Rightarrow> nat \<Rightarrow> rstr \<Rightarrow> byte list \<Rightarrow> unit walk" where
  "walk_file rd lm sink layers path data =
     (if data = [] then skip sink path (lit ''empty file'')
      else (case nested_format data path of
         None \<Rightarrow> yield_file lm sink path data
       | Some f \<Rightarrow>
           (case layers of
              0 \<Rightarrow> skip sink path (lit ''archive nested more than '' @ show_nat (max_depth lm) @ lit '' levels deep'')
            | Suc n \<Rightarrow>
                (let (prefix, name) = nested_place f path
                 in or_skip_local sink path
                      (archive_layer rd lm sink (walk_file rd lm sink n) data f prefix (Some name))))))"

definition walk_archive ::
  "readers \<Rightarrow> limits \<Rightarrow> sink \<Rightarrow> byte list \<Rightarrow> format \<Rightarrow> rstr option \<Rightarrow> unit walk" where
  "walk_archive rd lm sink data f name =
     archive_layer rd lm sink (walk_file rd lm sink (max_depth lm - 1)) data f [] name"

record summary =
  sum_files :: nat
  sum_skipped :: nat
  sum_bytes :: nat

definition walk ::
  "readers \<Rightarrow> limits \<Rightarrow> sink \<Rightarrow> byte list \<Rightarrow> format \<Rightarrow> rstr option \<Rightarrow> (archive_error + summary) \<times> event list" where
  "walk rd lm sink data f name =
     (case walk_archive rd lm sink data f name new_walker of
        (Inl e, w) \<Rightarrow> (Inl e, wk_events w)
      | (Inr _, w) \<Rightarrow> (Inr \<lparr>sum_files = wk_files w, sum_skipped = wk_skipped w, sum_bytes = wk_bytes w\<rparr>, wk_events w))"

section \<open>Labels of files\<close>

text \<open>A part of a path that names something in its folder.\<close>

definition normal_part :: "rstr \<Rightarrow> bool" where
  "normal_part c \<longleftrightarrow> c \<noteq> [] \<and> c \<noteq> [46] \<and> c \<noteq> [46, 46] \<and> 47 \<notin> set c"

definition join_dirs :: "rstr list \<Rightarrow> rstr" where
  "join_dirs cs = concat (map (\<lambda>c. c @ [47]) cs)"

lemma join_dirs_simps [simp]:
  "join_dirs [] = []" "join_dirs (c # cs) = c @ 47 # join_dirs cs"
  "join_dirs (cs @ ds) = join_dirs cs @ join_dirs ds"
  by (simp_all add: join_dirs_def)

lemma join_dirs_split_on: "join_dirs (split_on 47 a) = a @ [47]"
proof (induction a)
  case (Cons c a)
  obtain h t where "split_on 47 a = h # t" by (cases "split_on 47 a") auto
  with Cons show ?case by auto
qed simp

lemma split_on_place:
  "list_all normal_part cs \<Longrightarrow> 47 \<notin> set base \<Longrightarrow> split_on 47 (join_dirs cs @ base) = cs @ [base]"
  by (induction cs) (auto simp: normal_part_def split_on_append)

text \<open>Lossy decoding neither makes nor hides a separator or dots.\<close>

lemma next_char_ascii:
  assumes "next_char b bs = Inr (c, rest)" "c < 128" shows "b = c \<and> rest = bs"
  using assms by (auto simp: next_char_def second_ok_def is_cont_def split: if_splits list.splits)

lemma next_char_rest: "next_char b bs = Inr (c, rest) \<Longrightarrow> set rest \<subseteq> set bs"
  by (auto simp: next_char_def split: if_splits list.splits)

lemma from_utf8_lossy_Nil [simp]: "from_utf8_lossy bs = [] \<longleftrightarrow> bs = []"
  by (cases bs) (auto split: sum.split option.split)

lemma from_utf8_lossy_ascii: "\<forall>c \<in> set (from_utf8_lossy bs). c < 128 \<Longrightarrow> from_utf8_lossy bs = bs"
proof (induction bs rule: from_utf8_lossy.induct)
  case (2 b bs)
  show ?case
  proof (cases "next_char b bs")
    case (Inl e)
    with "2.prems" show ?thesis by (cases e) auto
  next
    case (Inr r)
    obtain c rest where r: "r = (c, rest)" by (cases r)
    with Inr "2.prems" have "c < 128" "\<forall>c \<in> set (from_utf8_lossy rest). c < 128" by auto
    with Inr r next_char_ascii [of b bs c rest] "2.IH"(2) [OF Inr r [symmetric]] show ?thesis by auto
  qed
qed simp

lemma from_utf8_lossy_slash: "47 \<in> set (from_utf8_lossy bs) \<Longrightarrow> 47 \<in> set bs"
proof (induction bs rule: from_utf8_lossy.induct)
  case (2 b bs)
  show ?case
  proof (cases "next_char b bs")
    case (Inl e)
    show ?thesis
    proof (cases e)
      case (Some n)
      with "2.prems" Inl "2.IH"(1) [OF Inl Some] show ?thesis by (auto dest: in_set_dropD)
    qed (use Inl "2.prems" in simp)
  next
    case (Inr r)
    obtain c rest where r: "r = (c, rest)" by (cases r)
    show ?thesis
    proof (cases "c = 47")
      case True
      with Inr r next_char_ascii [of b bs c rest] show ?thesis by simp
    next
      case False
      with Inr r "2.prems" "2.IH"(2) [OF Inr r [symmetric]] next_char_rest [of b bs c rest] show ?thesis by auto
    qed
  qed
qed simp

lemma normal_part_lossy: "normal_part s \<Longrightarrow> normal_part (from_utf8_lossy s)"
  using from_utf8_lossy_ascii [of s] from_utf8_lossy_slash [of s] by (auto simp: normal_part_def)

lemma path_components_normal: "Normal s \<in> set (path_components p) \<Longrightarrow> normal_part s"
  using split_on_parts [of s 47 p]
  by (auto simp: path_components_def Let_def map_filter_def component_of_def normal_part_def split: if_splits)

lemma join_slash_dirs: "ps \<noteq> [] \<Longrightarrow> join_slash ps = join_dirs (butlast ps) @ last ps"
  by (induction ps rule: join_slash.induct) auto

lemma safe_parts_normal:
  "safe_parts cs = Some ps \<Longrightarrow> (\<And>s. Normal s \<in> set cs \<Longrightarrow> normal_part s) \<Longrightarrow> list_all normal_part ps"
proof (induction cs arbitrary: ps rule: safe_parts.induct)
  case (2 s cs)
  then have "normal_part s" by simp
  then have "normal_part (from_utf8_lossy s)" by (rule normal_part_lossy)
  with 2 show ?case by auto
qed auto

text \<open>A relative path of an entry: folders and a name.\<close>

definition entry_path :: "rstr \<Rightarrow> bool" where
  "entry_path rel \<longleftrightarrow> (\<exists>cs base. rel = join_dirs cs @ base \<and> list_all normal_part cs \<and> normal_part base)"

lemma entry_path_join: "list_all normal_part ps \<Longrightarrow> join_slash ps \<noteq> [] \<Longrightarrow> entry_path (join_slash ps)"
  unfolding entry_path_def
  by (cases ps rule: rev_cases)
    (auto simp: join_slash_dirs list_all_append intro: exI [of _ "butlast ps"] exI [of _ "last ps"])

lemma entry_path_components: "join_components p \<noteq> [] \<Longrightarrow> entry_path (join_components p)"
  unfolding join_components_def
  by (rule entry_path_join)
    (auto simp: list_all_iff map_filter_def normal_name_def split: path_component.splits
      dest!: path_components_normal intro: normal_part_lossy)

lemma entry_path_safe: "safe_relative p = Some rel \<Longrightarrow> rel \<noteq> [] \<Longrightarrow> entry_path rel"
  unfolding safe_relative_def
  by (auto intro!: entry_path_join safe_parts_normal dest: path_components_normal)

text \<open>A prefix is made of folders; a label is a prefix and a name, whose form only archives opened as
  folders must have.\<close>

definition prefix_ok :: "rstr \<Rightarrow> bool" where
  "prefix_ok p \<longleftrightarrow> (\<exists>cs. p = join_dirs cs \<and> list_all normal_part cs)"

definition place :: "rstr list \<Rightarrow> rstr \<Rightarrow> rstr \<Rightarrow> bool" where
  "place cs base p \<longleftrightarrow> p = join_dirs cs @ base \<and> list_all normal_part cs \<and> 47 \<notin> set base"

definition file_pre :: "limits \<Rightarrow> rstr \<Rightarrow> byte list \<Rightarrow> bool" where
  "file_pre lm p data \<longleftrightarrow> length data \<le> unat (max_file_bytes lm)
     \<and> (\<exists>cs base. place cs base p \<and> (sniff_format data = Some Tar \<longrightarrow> normal_part base))"

lemma prefix_ok_Nil [simp]: "prefix_ok []"
  unfolding prefix_ok_def by (rule exI [of _ "[]"]) simp

lemma basename_place: "place cs base p \<Longrightarrow> basename p = base"
proof -
  assume p: "place cs base p"
  have "takeWhile (\<lambda>c. c \<noteq> 47) (rev base @ rev (join_dirs cs)) = rev base"
  proof (cases cs rule: rev_cases)
    case Nil
    with p show ?thesis by (auto simp: place_def takeWhile_eq_all_conv)
  next
    case (snoc ds d)
    with p show ?thesis by (auto simp: place_def takeWhile_append takeWhile_eq_all_conv)
  qed
  with p show ?thesis by (simp add: place_def basename_def rsplit_first_def)
qed

lemma prefix_ok_entry:
  assumes "prefix_ok pre" "entry_path rel"
  shows "\<exists>cs base. place cs base (pre @ rel) \<and> normal_part base"
proof -
  from assms obtain cs ds base where "pre = join_dirs cs" "rel = join_dirs ds @ base" "list_all normal_part (cs @ ds)"
    "normal_part base"
    by (auto simp: prefix_ok_def entry_path_def)
  then have "place (cs @ ds) base (pre @ rel)" by (auto simp: place_def normal_part_def)
  with \<open>normal_part base\<close> show ?thesis by blast
qed

lemma file_pre_entry:
  "prefix_ok pre \<Longrightarrow> entry_path rel \<Longrightarrow> length data \<le> unat (max_file_bytes lm) \<Longrightarrow> file_pre lm (pre @ rel) data"
  unfolding file_pre_def using prefix_ok_entry by blast

lemma zip_extension_normal:
  assumes "place cs base p" "has_extension p (lit ''zip'')" shows "normal_part base"
proof -
  from assms obtain a e where "base = a @ 46 # e" "to_ascii_lowercase e = to_ascii_lowercase (lit ''zip'')"
    by (auto simp: has_extension_def basename_place dest!: rsplit_once_Some(1) split: option.splits)
  moreover from this(2) have "length e = 3"
    by (metis length_to_ascii_lowercase length_lit length_Cons list.size(3) numeral_3_eq_3)
  ultimately have "4 \<le> length base" by simp
  with assms(1) show ?thesis by (auto simp: normal_part_def place_def)
qed

lemma nested_place_prefix:
  assumes "file_pre lm p data" "nested_format data p = Some f" shows "prefix_ok (fst (nested_place f p))"
proof -
  from assms(1) obtain cs base where pl: "place cs base p" "sniff_format data = Some Tar \<Longrightarrow> normal_part base"
    by (auto simp: file_pre_def)
  show ?thesis
  proof (cases "f = Gzip")
    case False
    with assms(2) pl have "normal_part base"
      by (cases f) (auto simp: nested_format_def split: option.splits if_splits intro: zip_extension_normal)
    with False pl(1) show ?thesis unfolding prefix_ok_def
      by (intro exI [of _ "cs @ [base]"]) (simp add: nested_place_def place_def)
  next
    case True
    show ?thesis
    proof (cases "rsplit_once 47 p")
      case None
      with True show ?thesis by (simp add: nested_place_def)
    next
      case (Some r)
      obtain a b where r: "r = (a, b)" by (cases r)
      from rsplit_once_Some [OF Some [unfolded r]] have p: "p = a @ 47 # b" "47 \<notin> set b" .
      have "cs @ [base] = split_on 47 a @ [b]"
        using pl(1) split_on_place [of cs base] split_on_snoc [OF p(2), of a] by (simp add: place_def flip: p(1))
      then have "list_all normal_part (split_on 47 a)" using pl(1) by (simp add: place_def)
      with True Some r show ?thesis unfolding prefix_ok_def nested_place_def
        by (intro exI [of _ "split_on 47 a"]) (simp add: join_dirs_split_on)
    qed
  qed
qed

lemma gunzipped_name_no_slash: "47 \<notin> set (gunzipped_name n)"
proof -
  have "47 \<notin> set (basename n)" by (auto simp: basename_def rsplit_first_def dest: set_takeWhileD)
  then show ?thesis by (auto simp: gunzipped_name_def Let_def lit_def dest: in_set_takeD)
qed

section \<open>Rules for walks\<close>

definition walk_spec :: "(walker \<Rightarrow> bool) \<Rightarrow> 'a walk \<Rightarrow> (archive_error \<Rightarrow> bool) \<Rightarrow> bool" where
  "walk_spec P m E \<longleftrightarrow> (\<forall>w. P w \<longrightarrow> P (snd (m w)) \<and> (\<forall>e. fst (m w) = Inl e \<longrightarrow> E e))"

named_theorems walk_rules \<open>rules that decompose a walk\<close>

lemma walk_spec_ok [walk_rules]: "walk_spec P (walk_ok x) E"
  by (simp add: walk_spec_def walk_ok_def)

lemma walk_spec_err [walk_rules]: "E e \<Longrightarrow> walk_spec P (walk_err e) E"
  by (simp add: walk_spec_def walk_err_def)

lemma walk_spec_bind [walk_rules]:
  assumes "walk_spec P m E" "\<And>x. walk_spec P (f x) E" shows "walk_spec P (walk_bind m f) E"
  unfolding walk_spec_def
proof (intro allI impI)
  fix w assume P: "P w"
  obtain r w' where m: "m w = (r, w')" by (cases "m w")
  with P assms(1) have "P w'" "\<And>e. r = Inl e \<Longrightarrow> E e" by (force simp: walk_spec_def)+
  with m assms(2) show "P (snd (walk_bind m f w)) \<and> (\<forall>e. fst (walk_bind m f w) = Inl e \<longrightarrow> E e)"
    by (cases r) (auto simp: walk_bind_def walk_spec_def)
qed

lemma walk_spec_for_each [walk_rules]:
  "(\<And>x. x \<in> set xs \<Longrightarrow> walk_spec P (step x) E) \<Longrightarrow> walk_spec P (for_each step xs) E"
  by (induction xs) (simp_all add: walk_spec_ok walk_spec_bind)

lemma walk_spec_weaken: "walk_spec P m E \<Longrightarrow> (\<And>e. E e \<Longrightarrow> E' e) \<Longrightarrow> walk_spec P m E'"
  by (auto simp: walk_spec_def)

lemma walk_spec_read:
  assumes "\<And>w. P w \<Longrightarrow> P (snd (read_counted lm s w))"
    and "\<And>d. length d \<le> unat (max_file_bytes lm) \<Longrightarrow> walk_spec P (k (ReadData d)) E"
    and "\<And>e. walk_spec P (k (ReadIo e)) E" "walk_spec P (k ReadTooLarge) E"
    and "walk_spec P (k (ReadFatal (TooLarge (max_total_bytes lm)))) E"
  shows "walk_spec P (\<lambda>w. case read_counted lm s w of (r, w') \<Rightarrow> k r w') E"
  unfolding walk_spec_def
proof (intro allI impI)
  fix w assume P: "P w"
  obtain r w' where r: "read_counted lm s w = (r, w')" by (cases "read_counted lm s w")
  with assms(1) [OF P] have P': "P w'" by simp
  from r have "(\<exists>d. r = ReadData d \<and> length d \<le> unat (max_file_bytes lm)) \<or> (\<exists>e. r = ReadIo e) \<or> r = ReadTooLarge
      \<or> r = ReadFatal (TooLarge (max_total_bytes lm))"
    by (auto simp: read_counted_def Let_def split: sum.splits if_splits)
  then have "walk_spec P (k r) E" using assms(2-5) by auto
  with P' r show "P (snd (case read_counted lm s w of (r, w') \<Rightarrow> k r w'))
      \<and> (\<forall>e. fst (case read_counted lm s w of (r, w') \<Rightarrow> k r w') = Inl e \<longrightarrow> E e)"
    by (simp add: walk_spec_def)
qed

section \<open>The invariant of a walk\<close>

fun is_file :: "event \<Rightarrow> bool" where
  "is_file (File p d) = True"
| "is_file (Skipped p r) = False"

definition label_ok :: "rstr \<Rightarrow> bool" where
  "label_ok p \<longleftrightarrow> list_all normal_part (butlast (split_on 47 p))"

fun event_ok :: "limits \<Rightarrow> event \<Rightarrow> bool" where
  "event_ok lm (File p d) \<longleftrightarrow> label_ok p \<and> d \<noteq> [] \<and> length d \<le> unat (max_file_bytes lm) \<and> nested_format d p = None"
| "event_ok lm (Skipped p r) \<longleftrightarrow> True"

definition walk_inv :: "limits \<Rightarrow> walker \<Rightarrow> bool" where
  "walk_inv lm w \<longleftrightarrow>
     wk_files w = length (filter is_file (wk_events w)) \<and> wk_files w \<le> max_files lm
     \<and> wk_skipped w = length (filter (\<lambda>e. \<not> is_file e) (wk_events w))
     \<and> wk_bytes w \<le> unat (max_total_bytes lm) \<and> list_all (event_ok lm) (wk_events w)"

lemma walk_inv_new: "walk_inv lm new_walker"
  by (simp add: walk_inv_def new_walker_def)

lemma walk_inv_read: "walk_inv lm w \<Longrightarrow> walk_inv lm (snd (read_counted lm s w))"
  by (auto simp: walk_inv_def read_counted_def Let_def split: sum.split)

text \<open>Errors that end the whole walk, and all that a layer can end with.\<close>

definition fatal :: "limits \<Rightarrow> archive_error \<Rightarrow> bool" where
  "fatal lm e \<longleftrightarrow> e \<in> {TooManyFiles (max_files lm), TooLarge (max_total_bytes lm)} \<union> range Stopped"

definition layer_error :: "limits \<Rightarrow> archive_error \<Rightarrow> bool" where
  "layer_error lm e \<longleftrightarrow> is_local e \<or> fatal lm e"

lemma is_local_simps [simp]:
  "is_local (Corrupt f m)" "is_local (FileTooLarge n)" "\<not> is_local (Stopped m)" "\<not> is_local (TooManyFiles k)"
  "\<not> is_local (TooLarge n)"
  by (simp_all add: is_local_def)

lemma fatal_simps [simp]:
  "fatal lm (Stopped m)" "fatal lm (TooManyFiles (max_files lm))" "fatal lm (TooLarge (max_total_bytes lm))"
  by (auto simp: fatal_def)

lemma layer_error_simps [simp]:
  "fatal lm e \<Longrightarrow> layer_error lm e" "is_local e \<Longrightarrow> layer_error lm e"
  by (auto simp: layer_error_def)

lemma layer_error_fatal: "layer_error lm e \<Longrightarrow> \<not> is_local e \<Longrightarrow> fatal lm e"
  by (auto simp: layer_error_def)

lemma skip_spec [walk_rules]: "(\<And>m. E (Stopped m)) \<Longrightarrow> walk_spec (walk_inv lm) (skip sink p r) E"
  by (auto simp: walk_spec_def skip_def emit_event_def walk_inv_def split: option.splits)

lemma yield_file_spec:
  assumes "label_ok p" "d \<noteq> []" "length d \<le> unat (max_file_bytes lm)" "nested_format d p = None"
  shows "walk_spec (walk_inv lm) (yield_file lm sink p d) (fatal lm)"
  using assms
  by (auto simp: walk_spec_def yield_file_def walk_err_def emit_event_def walk_inv_def split: option.splits)

lemma file_pre_label: "file_pre lm p d \<Longrightarrow> label_ok p"
  by (auto simp: file_pre_def label_ok_def place_def split_on_place)

lemma or_skip_local_spec:
  assumes "walk_spec (walk_inv lm) m (layer_error lm)"
  shows "walk_spec (walk_inv lm) (or_skip_local sink p m) (fatal lm)"
  unfolding walk_spec_def
proof (intro allI impI)
  fix w assume P: "walk_inv lm w"
  obtain r w' where m: "m w = (r, w')" by (cases "m w")
  with P assms have P': "walk_inv lm w'" "\<And>e. r = Inl e \<Longrightarrow> layer_error lm e" by (force simp: walk_spec_def)+
  have "walk_spec (walk_inv lm) (skip sink p s) (fatal lm)" for s by (rule skip_spec) simp
  with m P' show "walk_inv lm (snd (or_skip_local sink p m w)) \<and> (\<forall>e. fst (or_skip_local sink p m w) = Inl e \<longrightarrow> fatal lm e)"
    by (cases r) (auto simp: or_skip_local_def walk_spec_def layer_error_fatal)
qed

text \<open>An entry of a zip adds no error of its own to those of the handler.\<close>

lemma zip_entry_spec:
  assumes "\<And>p d. file_pre lm p d \<Longrightarrow> walk_spec (walk_inv lm) (on_file p d) E" "\<And>e. fatal lm e \<Longrightarrow> E e"
    and "prefix_ok prefix"
  shows "walk_spec (walk_inv lm) (zip_step lm sink on_file prefix (Inr z)) E"
  unfolding zip_step_def Let_def
  by (auto split: option.split intro!: walk_rules walk_spec_read walk_inv_read assms file_pre_entry
      entry_path_components simp: Option.bind_eq_Some_conv split: sum.split if_splits)

text \<open>What a layer relies on: whoever takes its files keeps the invariant of the walk.\<close>

locale file_handler =
  fixes lm :: limits and on_file :: "rstr \<Rightarrow> byte list \<Rightarrow> unit walk"
  assumes handles: "file_pre lm p d \<Longrightarrow> walk_spec (walk_inv lm) (on_file p d) (layer_error lm)"
begin

lemma zip_step_spec:
  "prefix_ok prefix \<Longrightarrow> walk_spec (walk_inv lm) (zip_step lm sink on_file prefix entry) (layer_error lm)"
  by (cases entry)
    (auto simp: zip_step_def [of _ _ _ _ "Inl _"] intro: walk_spec_err intro!: zip_entry_spec handles)

lemma tar_step_spec:
  assumes "prefix_ok prefix"
  shows "walk_spec (walk_inv lm) (tar_step lm sink on_file prefix entry) (layer_error lm)"
  unfolding tar_step_def Let_def
  by (auto split: sum.split option.split intro!: walk_rules handles file_pre_entry
      intro: entry_path_safe assms simp: Option.bind_eq_Some_conv split: if_splits)

lemma zip_layer_spec:
  "prefix_ok prefix \<Longrightarrow> walk_spec (walk_inv lm) (zip_layer rd lm sink on_file data prefix) (layer_error lm)"
  by (auto simp: zip_layer_def split: sum.split intro!: walk_rules zip_step_spec)

lemma tar_layer_spec:
  "prefix_ok prefix \<Longrightarrow> walk_spec (walk_inv lm) (tar_layer rd lm sink on_file data prefix) (layer_error lm)"
  by (auto simp: tar_layer_def split: sum.split intro!: walk_rules tar_step_spec)

lemma gzip_file_pre:
  assumes "prefix_ok prefix" "\<not> is_tar d" "length d \<le> unat (max_file_bytes lm)" "47 \<notin> set base"
  shows "file_pre lm (prefix @ base) d"
  using assms by (auto simp: file_pre_def prefix_ok_def place_def sniff_format_def split: if_splits)

lemma gzip_layer_spec:
  assumes "prefix_ok prefix"
  shows "walk_spec (walk_inv lm) (gzip_layer rd lm sink on_file data prefix name) (layer_error lm)"
proof -
  have "47 \<notin> set (case name of Some n \<Rightarrow> gunzipped_name n | None \<Rightarrow> lit ''file'')"
    by (auto simp: gunzipped_name_no_slash lit_def split: option.split)
  then have "walk_spec (walk_inv lm) (\<lambda>w. if is_tar d then tar_layer rd lm sink on_file d prefix w
      else on_file (prefix @ (case name of Some n \<Rightarrow> gunzipped_name n | None \<Rightarrow> lit ''file'')) d w) (layer_error lm)"
    if "length d \<le> unat (max_file_bytes lm)" for d
    using that assms by (cases "is_tar d") (simp_all add: tar_layer_spec handles gzip_file_pre)
  then show ?thesis unfolding gzip_layer_def
    by (intro walk_spec_read) (auto intro: walk_inv_read walk_rules split: if_splits)
qed

lemma archive_layer_spec:
  "prefix_ok prefix \<Longrightarrow> walk_spec (walk_inv lm) (archive_layer rd lm sink on_file data f prefix name) (layer_error lm)"
  unfolding archive_layer_def by (cases f) (simp_all add: zip_layer_spec tar_layer_spec gzip_layer_spec)

end

lemma walk_file_spec:
  "file_pre lm p d \<Longrightarrow> walk_spec (walk_inv lm) (walk_file rd lm sink n p d) (fatal lm)"
proof (induction n arbitrary: p d)
  case 0
  then show ?case
    by (auto split: option.split intro!: skip_spec yield_file_spec intro: file_pre_label) (simp add: file_pre_def)
next
  case (Suc n)
  then have handler: "file_handler lm (walk_file rd lm sink n)"
    by unfold_locales (rule walk_spec_weaken [OF Suc.IH], simp_all)
  have "walk_spec (walk_inv lm) (or_skip_local sink p
      (archive_layer rd lm sink (walk_file rd lm sink n) d f (fst (nested_place f p)) (Some (snd (nested_place f p))))) (fatal lm)"
    if "nested_format d p = Some f" for f
    using that Suc.prems by (intro or_skip_local_spec file_handler.archive_layer_spec [OF handler] nested_place_prefix)
  moreover have "walk_spec (walk_inv lm) (yield_file lm sink p d) (fatal lm)" if "d \<noteq> []" "nested_format d p = None"
    using that Suc.prems by (intro yield_file_spec file_pre_label) (simp_all add: file_pre_def)
  ultimately show ?case by (auto simp: case_prod_beta Let_def split: option.split intro!: skip_spec)
qed

text \<open>Every file the walk meets is handled so: the layers' contract holds for the code's own handler, at
  every depth.\<close>

interpretation walk_handler: file_handler lm "walk_file rd lm sink n"
  by unfold_locales (rule walk_spec_weaken [OF walk_file_spec], simp_all)

lemma walk_archive_inv: "walk_inv lm (snd (walk_archive rd lm sink data f name new_walker))"
  using walk_handler.archive_layer_spec [OF prefix_ok_Nil] walk_inv_new
  unfolding walk_archive_def walk_spec_def by blast

section \<open>Properties\<close>

text \<open>C15. Whatever the archive holds and whatever the readers do, a walk hands over at most
  \<open>max_files\<close> files, each non-empty, at most \<open>max_file_bytes\<close> long and not itself an archive to open;
  its summary counts them and the skipped entries, and counts at most \<open>max_total_bytes\<close> bytes.\<close>

theorem walk_within_limits:
  "(let (r, events) = walk rd lm sink data f name
    in length (filter is_file events) \<le> max_files lm
      \<and> list_all (\<lambda>e. case e of Skipped p reason \<Rightarrow> True
            | File p d \<Rightarrow> d \<noteq> [] \<and> length d \<le> unat (max_file_bytes lm) \<and> nested_format d p = None) events
      \<and> (case r of Inl e \<Rightarrow> True
         | Inr s \<Rightarrow> sum_files s = length (filter is_file events)
             \<and> sum_skipped s = length (filter (\<lambda>e. \<not> is_file e) events)
             \<and> sum_bytes s \<le> unat (max_total_bytes lm)))"
proof -
  obtain r w where w: "walk_archive rd lm sink data f name new_walker = (r, w)"
    by (cases "walk_archive rd lm sink data f name new_walker")
  with walk_archive_inv [of lm rd sink data f name] have inv: "walk_inv lm w" by simp
  then have "event_ok lm e" if "e \<in> set (wk_events w)" for e
    using that by (simp add: walk_inv_def list_all_iff)
  from this [of "File p d" for p d] inv w show ?thesis
    by (auto simp: walk_def walk_inv_def list_all_iff split: sum.split event.split)
qed

text \<open>Every folder in the label of a file the walk hands over is a plain name: no label is absolute
  and none climbs out of its place with \<open>..\<close> on the way.\<close>

theorem walk_labels_stay_inside:
  "list_all (\<lambda>e. case e of File p d \<Rightarrow> list_all normal_part (butlast (split_on 47 p)) | Skipped p r \<Rightarrow> True)
     (snd (walk rd lm sink data f name))"
proof -
  obtain r w where w: "walk_archive rd lm sink data f name new_walker = (r, w)"
    by (cases "walk_archive rd lm sink data f name new_walker")
  with walk_archive_inv [of lm rd sink data f name] have inv: "walk_inv lm w" by simp
  then have "event_ok lm e" if "e \<in> set (wk_events w)" for e
    using that by (simp add: walk_inv_def list_all_iff)
  with w show ?thesis
    by (fastforce simp: walk_def list_all_iff label_ok_def split: sum.split event.split)
qed

text \<open>What is found inside an archive never makes it unreadable: a zip whose entries can be listed
  is walked to its end, unless a limit on the whole walk is reached or the sink stops it, whatever
  the entries and the archives inside it hold.\<close>

theorem nested_failure_is_skipped:
  assumes "zip_entries rd data = Inr (map Inr entries)"
    and "fst (walk rd lm sink data Zip name) = Inl e"
  shows "e \<in> {TooManyFiles (max_files lm), TooLarge (max_total_bytes lm)} \<union> range Stopped"
proof -
  have "walk_spec (walk_inv lm) (walk_archive rd lm sink data Zip name) (fatal lm)"
    unfolding walk_archive_def archive_layer_def zip_layer_def using assms(1)
    by (auto intro!: walk_spec_for_each zip_entry_spec walk_file_spec simp del: walk_file.simps)
  moreover have "fst (walk_archive rd lm sink data Zip name new_walker) = Inl e"
    using assms(2) by (auto simp: walk_def split: prod.splits sum.splits)
  ultimately have "fatal lm e" using walk_inv_new [of lm] unfolding walk_spec_def by blast
  then show ?thesis by (simp add: fatal_def)
qed

section \<open>What the limits leave open\<close>

lemma plain_name [simp]: "join_components [97] = [97]" "\<not> is_noise [97]"
  by code_simp+

text \<open>The bytes of an entry that turns out longer than declared are thrown away uncounted: such
  entries, however many, cost nothing against \<open>max_total_bytes\<close>, although each is decompressed up to
  \<open>max_file_bytes\<close> and one more byte.\<close>

lemma oversized_entry_uncounted:
  assumes "unat (max_file_bytes lm) < unat (max_total_bytes lm)" "\<And>ev e. sink ev e = None"
    and "ze_enclosed z = Some [97]" "\<not> ze_is_dir z" "\<not> ze_is_symlink z" "ze_size z = 0"
    and "ze_open z = Inr \<lparr>sm_bytes = replicate (unat (max_file_bytes lm) + 1) 0, sm_error = None\<rparr>"
    and "wk_bytes w = 0"
  shows "\<exists>w'. for_each (zip_step lm sink on_file []) (replicate k (Inr z)) w = (Inr (), w') \<and> wk_bytes w' = 0
    \<and> wk_skipped w' = wk_skipped w + k"
  using assms(8)
proof (induction k arbitrary: w)
  case 0
  then show ?case by (simp add: walk_ok_def)
next
  case (Suc k)
  have "unat (max_file_bytes lm) < 2 ^ 64 - 1"
    using assms(1) unat_le_max [of "max_total_bytes lm"] by simp
  then have "fst (read_counted lm \<lparr>sm_bytes = replicate (unat (max_file_bytes lm) + 1) 0, sm_error = None\<rparr> w) = ReadTooLarge"
    "snd (read_counted lm \<lparr>sm_bytes = replicate (unat (max_file_bytes lm) + 1) 0, sm_error = None\<rparr> w) = w"
    using assms(1) Suc.prems by (auto simp: read_counted_def Let_def read_at_most_def min_def)
  then have r: "read_counted lm \<lparr>sm_bytes = replicate (unat (max_file_bytes lm) + 1) 0, sm_error = None\<rparr> w = (ReadTooLarge, w)"
    by (simp add: prod_eq_iff)
  obtain w1 where w1: "zip_step lm sink on_file [] (Inr z) w = (Inr (), w1)" "wk_bytes w1 = 0"
    "wk_skipped w1 = Suc (wk_skipped w)"
    using assms(2-7) Suc.prems r by (simp add: zip_step_def Let_def skip_def emit_event_def)
  with Suc.IH [of w1] show ?case by (auto simp: walk_bind_def)
qed

text \<open>The name a gzip stream gets is not checked as the names of entries are: \<open>...gz\<close> holds a file
  labelled \<open>..\<close>.\<close>

lemma gzip_name_unchecked: "gunzipped_name (lit ''...gz'') = lit ''..''"
  by code_simp

section \<open>Witnesses\<close>

definition demo_entry :: zip_entry where
  "demo_entry = \<lparr>ze_name = [97], ze_enclosed = Some [97], ze_is_dir = False, ze_is_symlink = False, ze_size = 1,
     ze_open = Inr \<lparr>sm_bytes = [1], sm_error = None\<rparr>\<rparr>"

definition demo_readers :: readers where
  "demo_readers = \<lparr>zip_entries = (\<lambda>_. Inr (map Inr [demo_entry])), tar_entries = (\<lambda>_. Inl []),
     gunzip = (\<lambda>_. \<lparr>sm_bytes = [], sm_error = None\<rparr>)\<rparr>"

definition demo_limits :: limits where
  "demo_limits = \<lparr>max_files = 0, max_file_bytes = 9, max_total_bytes = 9, max_depth = 1\<rparr>"

lemma demo_walk: "fst (walk demo_readers demo_limits (\<lambda>_ _. None) [] Zip None) = Inl (TooManyFiles 0)"
  by (simp add: walk_def walk_archive_def archive_layer_def zip_layer_def zip_step_def demo_readers_def demo_limits_def
      demo_entry_def walk_bind_def read_counted_def read_at_most_def new_walker_def yield_file_def walk_err_def Let_def
      nested_format_def sniff_format_def bytes_start_with_def is_tar_def bytes_lit_def)

theorem nested_failure_is_skipped_witness:
  "TooManyFiles 0 \<in> {TooManyFiles (max_files demo_limits), TooLarge (max_total_bytes demo_limits)} \<union> range Stopped"
  by (rule nested_failure_is_skipped [where entries = "[demo_entry]", OF _ demo_walk]) (simp add: demo_readers_def)

end
