(* ===== verification/Host_Policy.thy ===== *)
theory Host_Policy
  imports Rust_Prelude
begin

text \<open>
  \<open>crates/source/src/guard.rs\<close>, \<open>crates/source/src/host_policy.rs\<close> and
  \<open>crates/worker/src/fetch_guard.rs\<close>: which hosts may be talked to for a tenant. A parsed URL is
  what the accessors of the \<open>url\<close> crate return; parsing, name resolution and the printing of
  addresses are parameters. The lemmas: an address is public exactly when it lies in none of the
  listed networks, an accepted URL is one the policy names, and every policy is an instance of the
  interface \<open>url_check\<close>, which the fetching code relies on.
\<close>

unbundle bit_operations_syntax

section \<open>Errors and URLs\<close>

datatype source_error =
    SeKey rstr | SeSeal rstr | SePayload rstr | SeBlocked rstr | SeDns rstr | SeTemplate rstr
  | SeFetch rstr | SeRejected rstr | SeTooLarge rstr

fun source_error_str :: "source_error \<Rightarrow> rstr" where
  "source_error_str (SeKey m) = lit ''source secret key: '' @ m"
| "source_error_str (SeSeal m) = lit ''sealed value: '' @ m"
| "source_error_str (SePayload m) = lit ''sealed payload: '' @ m"
| "source_error_str (SeBlocked m) = lit ''blocked url: '' @ m"
| "source_error_str (SeDns m) = lit ''dns: '' @ m"
| "source_error_str (SeTemplate m) = lit ''url template: '' @ m"
| "source_error_str (SeFetch m) = lit ''fetch: '' @ m"
| "source_error_str (SeRejected m) = lit ''fetch rejected: '' @ m"
| "source_error_str (SeTooLarge m) = lit ''too large: '' @ m"

text \<open>A tuple origin is its scheme, host and port; an opaque origin equals only itself.\<close>

datatype origin = TupleOrigin rstr rstr nat | OpaqueOrigin nat

record url =
  url_text :: rstr
  url_scheme :: rstr
  url_username :: rstr
  url_host :: "rstr option"
  url_port :: "nat option"
  url_known_port :: "nat option"
  url_path :: rstr
  url_origin :: origin

section \<open>Addresses\<close>

datatype ip_addr = V4 "32 word" | V6 "128 word"

datatype address_class =
  Public | Loopback | Private | LinkLocal | Cgnat | UniqueLocal | Unspecified | Multicast

definition is_allowed :: "address_class \<Rightarrow> bool" where
  "is_allowed c \<longleftrightarrow> c = Public"

text \<open>The four octets of an address.\<close>

definition octet :: "nat \<Rightarrow> 32 word \<Rightarrow> nat" where
  "octet i ip = unat ip div 256 ^ (3 - i) mod 256"

definition classify_v4 :: "32 word \<Rightarrow> address_class" where
  "classify_v4 ip =
     (let a = octet 0 ip; b = octet 1 ip in
      if ip = 0 then Unspecified
      else if a = 127 then Loopback
      else if a = 169 \<and> b = 254 then LinkLocal
      else if a = 100 \<and> 64 \<le> b \<and> b < 128 then Cgnat
      else if a = 10 \<or> (a = 172 \<and> 16 \<le> b \<and> b \<le> 31) \<or> (a = 192 \<and> b = 168) then Private
      else if (224 \<le> a \<and> a \<le> 239) \<or> ip = 0xFFFFFFFF then Multicast
      else Public)"

text \<open>The first of the eight 16-bit segments.\<close>

definition first_segment :: "128 word \<Rightarrow> 16 word" where
  "first_segment ip = ucast (drop_bit 112 ip)"

definition classify_v6 :: "128 word \<Rightarrow> address_class" where
  "classify_v6 ip =
     (let first = first_segment ip in
      if ip = 0 then Unspecified
      else if ip = 1 then Loopback
      else if first AND 0xFFC0 = 0xFE80 then LinkLocal
      else if first AND 0xFE00 = 0xFC00 then UniqueLocal
      else if first AND 0xFF00 = 0xFF00 then Multicast
      else Public)"

text \<open>\<open>::ffff:a.b.c.d\<close>.\<close>

definition to_ipv4_mapped :: "128 word \<Rightarrow> 32 word option" where
  "to_ipv4_mapped ip = (if drop_bit 32 ip = 0xFFFF then Some (ucast ip) else None)"

definition classify :: "ip_addr \<Rightarrow> address_class" where
  "classify ip =
     (case ip of
        V4 v4 \<Rightarrow> classify_v4 v4
      | V6 v6 \<Rightarrow> (case to_ipv4_mapped v6 of Some v4 \<Rightarrow> classify_v4 v4 | None \<Rightarrow> classify_v6 v6))"

section \<open>The guard of public addresses\<close>

text \<open>What resolving a host may give: the resolver crashed, failed, or found addresses.\<close>

datatype dns_answer = DnsCrashed rstr | DnsFailed rstr | DnsFound "ip_addr list"

record net_env =
  ne_resolve :: "rstr \<Rightarrow> nat \<Rightarrow> dns_answer"
  ne_show_ip :: "ip_addr \<Rightarrow> rstr"
  ne_debug :: "rstr \<Rightarrow> rstr"

fun class_debug :: "address_class \<Rightarrow> rstr" where
  "class_debug Public = lit ''Public''"
| "class_debug Loopback = lit ''Loopback''"
| "class_debug Private = lit ''Private''"
| "class_debug LinkLocal = lit ''LinkLocal''"
| "class_debug Cgnat = lit ''Cgnat''"
| "class_debug UniqueLocal = lit ''UniqueLocal''"
| "class_debug Unspecified = lit ''Unspecified''"
| "class_debug Multicast = lit ''Multicast''"

definition check_scheme :: "net_env \<Rightarrow> url \<Rightarrow> source_error + unit" where
  "check_scheme ne u =
     (if url_scheme u = lit ''https'' then Inr ()
      else Inl (SeBlocked (lit ''scheme '' @ ne_debug ne (url_scheme u)
             @ lit '' is not allowed; sources must use https'')))"

definition check_addresses :: "net_env \<Rightarrow> url \<Rightarrow> ip_addr list \<Rightarrow> source_error + unit" where
  "check_addresses ne u ips =
     (if ips = [] then Inl (SeDns (url_text u @ lit '' resolved to no addresses''))
      else (case find (\<lambda>ip. \<not> is_allowed (classify ip)) ips of
              Some ip \<Rightarrow> Inl (SeBlocked (url_text u @ lit '' resolves to '' @ ne_show_ip ne ip @ lit '', which is ''
                   @ class_debug (classify ip) @ lit ''; only public addresses may be fetched''))
            | None \<Rightarrow> Inr ()))"

definition check_url :: "net_env \<Rightarrow> url \<Rightarrow> source_error + unit" where
  "check_url ne u =
     try_bind (check_scheme ne u) (\<lambda>_.
       (case url_host u of
          None \<Rightarrow> Inl (SeBlocked (lit ''url has no host''))
        | Some host \<Rightarrow>
            let port = (case url_known_port u of Some p \<Rightarrow> p | None \<Rightarrow> 443)
            in (case ne_resolve ne host port of
                  DnsCrashed e \<Rightarrow> Inl (SeDns (lit ''resolver task failed: '' @ e))
                | DnsFailed e \<Rightarrow> Inl (SeDns (lit ''could not resolve '' @ url_text u @ lit '': '' @ e))
                | DnsFound ips \<Rightarrow> check_addresses ne u ips)))"

section \<open>The host policy\<close>

record host_port =
  hp_host :: rstr
  hp_port :: "nat option"

datatype host_policy = PolicyPublic | PolicyAny | PolicyAllow "host_port list"

text \<open>One entry \<open>host[:port]\<close>; \<open>parse_url\<close> is \<open>Url::parse\<close>.\<close>

definition parse_entry :: "net_env \<Rightarrow> (rstr \<Rightarrow> rstr + url) \<Rightarrow> rstr \<Rightarrow> source_error + host_port" where
  "parse_entry ne parse_url entry =
     (let bad = (\<lambda>why. Inl (SeBlocked (lit ''invalid host policy entry '' @ ne_debug ne entry @ lit '': '' @ why
            @ lit ''; expected host[:port], comma-separated, or `public` / `any`'')))
      in if entry = [] then bad (lit ''empty entry'')
         else if str_contains entry (lit ''://'') \<or> 47 \<in> set entry \<or> 64 \<in> set entry
         then bad (lit ''give a bare host, not a url'')
         else (case parse_url (lit ''http://'' @ entry) of
                 Inl e \<Rightarrow> bad e
               | Inr u \<Rightarrow>
                   (case url_host u of
                      None \<Rightarrow> bad (lit ''no host'')
                    | Some h \<Rightarrow> if h = [] then bad (lit ''no host'')
                                else Inr \<lparr>hp_host = to_ascii_lowercase h, hp_port = url_port u\<rparr>)))"

fun parse_entries :: "net_env \<Rightarrow> (rstr \<Rightarrow> rstr + url) \<Rightarrow> rstr list \<Rightarrow> source_error + host_port list" where
  "parse_entries ne parse_url [] = Inr []"
| "parse_entries ne parse_url (e # es) =
     try_bind (parse_entry ne parse_url (trim e)) (\<lambda>h.
       try_bind (parse_entries ne parse_url es) (\<lambda>hs. Inr (h # hs)))"

definition parse_policy :: "net_env \<Rightarrow> (rstr \<Rightarrow> rstr + url) \<Rightarrow> rstr \<Rightarrow> source_error + host_policy" where
  "parse_policy ne parse_url raw =
     (let raw = trim raw; lower = to_ascii_lowercase raw
      in if lower = [] \<or> lower = lit ''public'' then Inr PolicyPublic
         else if lower = lit ''any'' then Inr PolicyAny
         else try_bind (parse_entries ne parse_url (split_on 44 raw)) (\<lambda>es. Inr (PolicyAllow es)))"

text \<open>\<open>value\<close> is the environment variable, \<open>None\<close> when it is not set.\<close>

definition policy_from_env_var ::
  "net_env \<Rightarrow> (rstr \<Rightarrow> rstr + url) \<Rightarrow> rstr \<Rightarrow> rstr option \<Rightarrow> source_error + host_policy" where
  "policy_from_env_var ne parse_url var value =
     (case value of
        None \<Rightarrow> Inr PolicyPublic
      | Some raw \<Rightarrow> (case parse_policy ne parse_url raw of
                       Inl e \<Rightarrow> Inl (SeBlocked (var @ lit '': '' @ source_error_str e)) | Inr p \<Rightarrow> Inr p))"

definition check_http_scheme :: "net_env \<Rightarrow> url \<Rightarrow> source_error + unit" where
  "check_http_scheme ne u =
     (if url_scheme u = lit ''http'' \<or> url_scheme u = lit ''https'' then Inr ()
      else Inl (SeBlocked (lit ''scheme '' @ ne_debug ne (url_scheme u)
             @ lit '' is not allowed; only http and https are'')))"

definition entry_allows :: "rstr \<Rightarrow> nat option \<Rightarrow> host_port \<Rightarrow> bool" where
  "entry_allows host port e \<longleftrightarrow>
     hp_host e = host \<and> (case hp_port e of None \<Rightarrow> True | Some p \<Rightarrow> Some p = port)"

definition host_port_str :: "host_port \<Rightarrow> rstr" where
  "host_port_str e = (case hp_port e of Some p \<Rightarrow> hp_host e @ lit '':'' @ show_nat p | None \<Rightarrow> hp_host e)"

definition check_host :: "net_env \<Rightarrow> host_policy \<Rightarrow> url \<Rightarrow> source_error + unit" where
  "check_host ne policy u =
     (case policy of
        PolicyPublic \<Rightarrow> check_url ne u
      | PolicyAny \<Rightarrow> check_http_scheme ne u
      | PolicyAllow entries \<Rightarrow>
          try_bind (check_http_scheme ne u) (\<lambda>_.
            (case url_host u of
               None \<Rightarrow> Inl (SeBlocked (lit ''url has no host''))
             | Some h \<Rightarrow>
                 if list_ex (entry_allows (to_ascii_lowercase h) (url_known_port u)) entries then Inr ()
                 else Inl (SeBlocked (url_text u @ lit '' is not an allowed host; allowed: ''
                        @ join_with (lit '', '') (map host_port_str entries))))))"

text \<open>The worker's check of URL references: the same policy, with its own message.\<close>

definition policy_check :: "net_env \<Rightarrow> (host_policy \<Rightarrow> rstr) \<Rightarrow> host_policy \<Rightarrow> url \<Rightarrow> rstr + unit" where
  "policy_check ne debug_policy policy u =
     (case check_host ne policy u of
        Inl e \<Rightarrow> Inl (source_error_str e @ lit '' (URL refs obey SOURCE_FETCH_HOSTS, currently ''
                   @ debug_policy policy @ lit '')'')
      | Inr _ \<Rightarrow> Inr ())"

section \<open>Public addresses\<close>

text \<open>A network is an address and the length of its prefix.\<close>

definition in_net :: "'a::len word \<Rightarrow> 'a word \<times> nat \<Rightarrow> bool" where
  "in_net ip = (\<lambda>(base, n). drop_bit (LENGTH('a) - n) ip = drop_bit (LENGTH('a) - n) base)"

definition special_v4 :: "(32 word \<times> nat) list" where
  "special_v4 = [(0, 32), (0x7F000000, 8), (0xA9FE0000, 16), (0x64400000, 10), (0x0A000000, 8),
     (0xAC100000, 12), (0xC0A80000, 16), (0xE0000000, 4), (0xFFFFFFFF, 32)]"

definition special_v6 :: "(128 word \<times> nat) list" where
  "special_v6 = [(0, 128), (1, 128), (push_bit 112 0xFE80, 10), (push_bit 112 0xFC00, 7), (push_bit 112 0xFF00, 8)]"

lemma in_net_unat: "in_net ip (base, n) \<longleftrightarrow> unat ip div 2 ^ (LENGTH('a) - n) = unat base div 2 ^ (LENGTH('a) - n)"
  for ip base :: "'a::len word"
  by (simp add: in_net_def word_unat_eq_iff unat_drop_bit_eq) (simp add: drop_bit_eq_div)

lemma octets_v4:
  fixes n :: nat
  assumes "n < 2 ^ 32"
  shows "n div 256 ^ 3 mod 256 = n div 2 ^ 24" "n div 256 ^ 2 mod 256 = n div 2 ^ 16 mod 256"
    "n div 2 ^ 24 = n div 2 ^ 16 div 256" "n div 2 ^ 22 = n div 2 ^ 16 div 64" "n div 2 ^ 20 = n div 2 ^ 16 div 16"
    "n div 2 ^ 28 = n div 2 ^ 16 div 4096" "n div 2 ^ 16 < 65536"
  using assms by (simp_all add: div_mult2_eq [symmetric])

text \<open>The networks, read off the first two octets.\<close>

lemma div_nat_iff: "0 < k \<Longrightarrow> x div k = q \<longleftrightarrow> k * q \<le> x \<and> x < k * Suc q" for k x q :: nat
  using dividend_less_times_div [of k x] by (auto intro: div_nat_eqI)

lemma in_row:
  fixes a b :: nat
  assumes "b < 256" "256 * a0 \<le> lo" "hi \<le> 256 * a0 + 256"
  shows "lo \<le> 256 * a + b \<and> 256 * a + b < hi \<longleftrightarrow> a = a0 \<and> lo \<le> 256 * a0 + b \<and> 256 * a0 + b < hi"
proof -
  have "a = a0" if "lo \<le> 256 * a + b" "256 * a + b < hi"
    using that assms by linarith
  then show ?thesis by auto
qed

lemma nets_of_octets:
  fixes a b :: nat
  assumes "b < 256"
  shows "(256 * a + b) div 256 = a" "(256 * a + b) div 64 = 401 \<longleftrightarrow> a = 100 \<and> 64 \<le> b \<and> b < 128"
    "(256 * a + b) div 16 = 2753 \<longleftrightarrow> a = 172 \<and> 16 \<le> b \<and> b \<le> 31"
    "(256 * a + b) div 4096 = 14 \<longleftrightarrow> 224 \<le> a \<and> a \<le> 239"
    "256 * a + b = 43518 \<longleftrightarrow> a = 169 \<and> b = 254" "256 * a + b = 49320 \<longleftrightarrow> a = 192 \<and> b = 168"
proof -
  show "(256 * a + b) div 256 = a" using assms by simp
  show "(256 * a + b) div 64 = 401 \<longleftrightarrow> a = 100 \<and> 64 \<le> b \<and> b < 128"
    using in_row [OF assms, of 100 25664 25728 a] by (auto simp: div_nat_iff)
  show "(256 * a + b) div 16 = 2753 \<longleftrightarrow> a = 172 \<and> 16 \<le> b \<and> b \<le> 31"
    using in_row [OF assms, of 172 44048 44064 a] by (auto simp: div_nat_iff)
  show "(256 * a + b) div 4096 = 14 \<longleftrightarrow> 224 \<le> a \<and> a \<le> 239"
    using assms by (auto simp: div_nat_iff)
  show "256 * a + b = 43518 \<longleftrightarrow> a = 169 \<and> b = 254"
    using in_row [OF assms, of 169 43518 43519 a] by auto
  show "256 * a + b = 49320 \<longleftrightarrow> a = 192 \<and> b = 168"
    using in_row [OF assms, of 192 49320 49321 a] by auto
qed

lemma in_net_v4:
  fixes ip :: "32 word"
  defines "a \<equiv> octet 0 ip" and "b \<equiv> octet 1 ip"
  shows "in_net ip (0, 32) \<longleftrightarrow> ip = 0" "in_net ip (0xFFFFFFFF, 32) \<longleftrightarrow> ip = 0xFFFFFFFF"
    "in_net ip (0x7F000000, 8) \<longleftrightarrow> a = 127" "in_net ip (0x0A000000, 8) \<longleftrightarrow> a = 10"
    "in_net ip (0xA9FE0000, 16) \<longleftrightarrow> a = 169 \<and> b = 254"
    "in_net ip (0x64400000, 10) \<longleftrightarrow> a = 100 \<and> 64 \<le> b \<and> b < 128"
    "in_net ip (0xAC100000, 12) \<longleftrightarrow> a = 172 \<and> 16 \<le> b \<and> b \<le> 31"
    "in_net ip (0xC0A80000, 16) \<longleftrightarrow> a = 192 \<and> b = 168"
    "in_net ip (0xE0000000, 4) \<longleftrightarrow> 224 \<le> a \<and> a \<le> 239"
proof -
  have n: "unat ip < 2 ^ 32" using unsigned_less [of ip] by simp
  note oct = octets_v4 [OF n]
  have ab: "a = unat ip div 2 ^ 16 div 256" "b = unat ip div 2 ^ 16 mod 256"
    using oct(1-3) by (simp_all add: a_def b_def octet_def)
  then have m: "unat ip div 2 ^ 16 = 256 * a + b" and b: "b < 256" by simp_all
  note nets = nets_of_octets [OF b, of a]
  show "in_net ip (0, 32) \<longleftrightarrow> ip = 0" "in_net ip (0xFFFFFFFF, 32) \<longleftrightarrow> ip = 0xFFFFFFFF"
    by (simp_all add: in_net_def)
  show "in_net ip (0x7F000000, 8) \<longleftrightarrow> a = 127" "in_net ip (0x0A000000, 8) \<longleftrightarrow> a = 10"
    using oct(3) ab by (simp_all add: in_net_unat)
  show "in_net ip (0xA9FE0000, 16) \<longleftrightarrow> a = 169 \<and> b = 254" "in_net ip (0xC0A80000, 16) \<longleftrightarrow> a = 192 \<and> b = 168"
    using m nets by (simp_all add: in_net_unat)
  show "in_net ip (0x64400000, 10) \<longleftrightarrow> a = 100 \<and> 64 \<le> b \<and> b < 128"
    using oct(4) m nets by (simp add: in_net_unat)
  show "in_net ip (0xAC100000, 12) \<longleftrightarrow> a = 172 \<and> 16 \<le> b \<and> b \<le> 31"
    using oct(5) m nets by (simp add: in_net_unat)
  show "in_net ip (0xE0000000, 4) \<longleftrightarrow> 224 \<le> a \<and> a \<le> 239"
    using oct(6) m nets by (simp add: in_net_unat)
qed

lemma classify_v4_public: "classify_v4 ip = Public \<longleftrightarrow> list_all (\<lambda>net. \<not> in_net ip net) special_v4"
  unfolding special_v4_def list.pred_inject in_net_v4 classify_v4_def Let_def
  by (simp split: if_split)

lemma and_high_eq: "x AND NOT (mask k) = y AND NOT (mask k) \<longleftrightarrow> unat x div 2 ^ k = unat y div 2 ^ k"
  for x y :: "'a::len word"
proof -
  have "x AND NOT (mask k) = y AND NOT (mask k) \<longleftrightarrow> drop_bit k x = drop_bit k y"
  proof
    assume h: "x AND NOT (mask k) = y AND NOT (mask k)"
    show "drop_bit k x = drop_bit k y"
    proof (rule bit_eqI)
      fix n
      from h have "bit (x AND NOT (mask k)) (k + n) = bit (y AND NOT (mask k)) (k + n)" by simp
      then show "bit (drop_bit k x) n = bit (drop_bit k y) n"
        by (auto simp: bit_drop_bit_eq bit_and_iff bit_not_iff bit_mask_iff dest: bit_imp_le_length)
    qed
  next
    assume h: "drop_bit k x = drop_bit k y"
    show "x AND NOT (mask k) = y AND NOT (mask k)"
    proof (rule bit_eqI)
      fix n
      from h have "bit (drop_bit k x) (n - k) = bit (drop_bit k y) (n - k)" by simp
      then show "bit (x AND NOT (mask k)) n = bit (y AND NOT (mask k)) n"
        by (auto simp: bit_drop_bit_eq bit_and_iff bit_not_iff bit_mask_iff)
    qed
  qed
  also have "\<dots> \<longleftrightarrow> unat x div 2 ^ k = unat y div 2 ^ k"
    by (simp add: word_unat_eq_iff unat_drop_bit_eq) (simp add: drop_bit_eq_div)
  finally show ?thesis .
qed

lemma unat_first_segment: "unat (first_segment ip) = unat ip div 2 ^ 112"
proof -
  have "unat ip div 2 ^ 112 < 2 ^ 16"
    using unsigned_less [of ip] by (simp add: div_less_iff_less_mult)
  then show ?thesis
    by (simp add: first_segment_def unsigned_ucast_eq unat_drop_bit_eq) (simp add: drop_bit_eq_div take_bit_eq_mod)
qed

lemma in_net_v6:
  "in_net ip (0, 128) \<longleftrightarrow> ip = 0" "in_net ip (1, 128) \<longleftrightarrow> ip = 1"
  "in_net ip (push_bit 112 0xFE80, 10) \<longleftrightarrow> first_segment ip AND 0xFFC0 = 0xFE80"
  "in_net ip (push_bit 112 0xFC00, 7) \<longleftrightarrow> first_segment ip AND 0xFE00 = 0xFC00"
  "in_net ip (push_bit 112 0xFF00, 8) \<longleftrightarrow> first_segment ip AND 0xFF00 = 0xFF00"
  for ip :: "128 word"
proof -
  have m: "(0xFFC0 :: 16 word) = NOT (mask 6)" "(0xFE00 :: 16 word) = NOT (mask 9)" "(0xFF00 :: 16 word) = NOT (mask 8)"
    by (simp_all add: mask_eq_exp_minus_1)
  show "in_net ip (0, 128) \<longleftrightarrow> ip = 0" "in_net ip (1, 128) \<longleftrightarrow> ip = 1"
    by (simp_all add: in_net_def)
  show "in_net ip (push_bit 112 0xFE80, 10) \<longleftrightarrow> first_segment ip AND 0xFFC0 = 0xFE80"
    using and_high_eq [of "first_segment ip" 6 "0xFE80", folded m, simplified]
    by (simp add: in_net_unat unat_first_segment div_mult2_eq [symmetric])
  show "in_net ip (push_bit 112 0xFC00, 7) \<longleftrightarrow> first_segment ip AND 0xFE00 = 0xFC00"
    using and_high_eq [of "first_segment ip" 9 "0xFC00", folded m, simplified]
    by (simp add: in_net_unat unat_first_segment div_mult2_eq [symmetric])
  show "in_net ip (push_bit 112 0xFF00, 8) \<longleftrightarrow> first_segment ip AND 0xFF00 = 0xFF00"
    using and_high_eq [of "first_segment ip" 8 "0xFF00", folded m, simplified]
    by (simp add: in_net_unat unat_first_segment div_mult2_eq [symmetric])
qed

lemma classify_v6_public: "classify_v6 ip = Public \<longleftrightarrow> list_all (\<lambda>net. \<not> in_net ip net) special_v6"
  unfolding special_v6_def list.pred_inject in_net_v6 classify_v6_def Let_def
  by (simp split: if_split)

text \<open>The reference: an address outside every listed network, an IPv4 address mapped into IPv6 taken
  as the IPv4 address it is.\<close>

definition outside_v4 :: "32 word \<Rightarrow> bool" where
  "outside_v4 ip = list_all (\<lambda>net. \<not> in_net ip net) special_v4"

definition outside :: "ip_addr \<Rightarrow> bool" where
  "outside ip =
     (case ip of
        V4 v4 \<Rightarrow> outside_v4 v4
      | V6 v6 \<Rightarrow> (case to_ipv4_mapped v6 of
                    Some v4 \<Rightarrow> outside_v4 v4 | None \<Rightarrow> list_all (\<lambda>net. \<not> in_net v6 net) special_v6))"

lemma classify_public: "is_allowed (classify ip) \<longleftrightarrow> outside ip"
  by (simp add: is_allowed_def classify_def outside_def outside_v4_def classify_v4_public classify_v6_public
      split: ip_addr.split option.split)

lemma check_addresses_ok: "check_addresses ne u ips = Inr () \<longleftrightarrow> ips \<noteq> [] \<and> list_all outside ips"
  by (auto simp: check_addresses_def find_None_iff list_all_iff classify_public split: option.split dest: find_SomeD)

lemma check_scheme_ok: "check_scheme ne u = Inr () \<longleftrightarrow> url_scheme u = lit ''https''"
  by (simp add: check_scheme_def)

lemma check_http_scheme_ok:
  "check_http_scheme ne u = Inr () \<longleftrightarrow> url_scheme u = lit ''http'' \<or> url_scheme u = lit ''https''"
  by (simp add: check_http_scheme_def)

lemmas check_ok = check_addresses_ok check_scheme_ok check_http_scheme_ok

text \<open>C19. The default policy accepts a URL exactly when it is \<open>https\<close>, its host resolves, and every address
  it resolves to lies outside the loopback, private, link-local, carrier-grade NAT, unique local,
  multicast and unspecified networks.\<close>

theorem public_policy_iff:
  "check_host ne PolicyPublic u = Inr () \<longleftrightarrow>
     url_scheme u = lit ''https''
     \<and> (\<exists>host ips. url_host u = Some host
          \<and> ne_resolve ne host (case url_known_port u of Some p \<Rightarrow> p | None \<Rightarrow> 443) = DnsFound ips
          \<and> ips \<noteq> [] \<and> list_all outside ips)"
  by (auto simp: check_host_def check_url_def try_bind_eq_Inr check_ok Let_def split: option.splits dns_answer.splits)

lemma allow_policy_iff:
  "check_host ne (PolicyAllow entries) u = Inr () \<longleftrightarrow>
     (url_scheme u = lit ''http'' \<or> url_scheme u = lit ''https'')
     \<and> (\<exists>host. url_host u = Some host
          \<and> list_ex (entry_allows (to_ascii_lowercase host) (url_known_port u)) entries)"
  by (auto simp: check_host_def try_bind_eq_Inr check_ok split: option.splits if_splits)

text \<open>Addresses that are not routable on the internet and still count as public: a metadata address
  behind a NAT64 prefix, the IPv4-compatible form of the loopback address, and the reserved
  \<open>240.0.0.0/4\<close>.\<close>

lemma public_not_routable:
  "classify (V6 0x0064FF9B0000000000000000A9FEA9FE) = Public"
  "classify (V6 0x0000000000000000000000007F000001) = Public"
  "classify (V4 0xF0000001) = Public"
  by (simp_all add: classify_def to_ipv4_mapped_def classify_v6_def classify_v4_def first_segment_def octet_def Let_def)

section \<open>The interface of a check\<close>

text \<open>The hops of a fetch, numbered. What the fetching code relies on: the \<open>n\<close>-th hop is checked against what the resolver says then,
  and an accepted URL is one to fetch by HTTP.\<close>

definition hops_from :: "nat \<Rightarrow> url list \<Rightarrow> (nat \<times> url) list" where
  "hops_from n us = zip [n..<n + length us] us"

lemma hops_from_simps [simp]: "hops_from n [] = []" "hops_from n (u # us) = (n, u) # hops_from (Suc n) us"
  using upt_conv_Cons [of n "Suc (n + length us)"] by (simp_all add: hops_from_def del: upt_Suc)

locale url_check =
  fixes allowed :: "nat \<Rightarrow> url \<Rightarrow> bool"
  assumes allowed_http: "allowed n u \<Longrightarrow> url_scheme u \<in> {lit ''http'', lit ''https''}"
begin

lemma hops_http:
  "list_all (\<lambda>(n, u). allowed n u) hops \<Longrightarrow> list_all (\<lambda>(n, u). url_scheme u \<in> {lit ''http'', lit ''https''}) hops"
  by (auto simp: list_all_iff dest!: bspec allowed_http)

end

lemma check_host_http:
  "check_host ne policy u = Inr () \<Longrightarrow> url_scheme u \<in> {lit ''http'', lit ''https''}"
  by (cases policy) (auto simp: public_policy_iff allow_policy_iff, simp add: check_host_def check_ok)

lemma policy_check_ok: "policy_check ne debug policy u = Inr () \<longleftrightarrow> check_host ne policy u = Inr ()"
  by (auto simp: policy_check_def split: sum.split)

interpretation source_policy: url_check "\<lambda>n u. check_host (ne n) policy u = Inr ()" for ne policy
  by unfold_locales (rule check_host_http)

end
