(* ===== verification/Blob_Store.thy ===== *)
theory Blob_Store
  imports Sdk_Types Host_Policy Http
begin

text \<open>
  \<open>crates/blob/src/lib.rs\<close>: the object store behind uploads, references and step outputs. An object
  is addressed by its key; the path of the \<open>object_store\<close> crate that a key is turned into, its
  requests and those of the HTTP clients are the environment, as are URL parsing and serde. The
  lemmas: a guarded fetch requests nothing that was not checked first, references to the store's own
  bucket or outside the configured ones are refused, a resolved input holds no reference, and what
  is read of a spilled output is what serde reads of the bytes it was stored as.
\<close>

section \<open>Errors, objects and keys\<close>

datatype blob_error =
    BlobNotFound rstr | BlobStore rstr | BlobHttp rstr | BlobUrl rstr | BlobSerde rstr
  | BlobUnsupported rstr | BlobBlocked rstr | BlobRejected rstr

fun blob_error_str :: "blob_error \<Rightarrow> rstr" where
  "blob_error_str (BlobNotFound m) = lit ''object not found: '' @ m"
| "blob_error_str (BlobStore m) = lit ''object store error: '' @ m"
| "blob_error_str (BlobHttp m) = lit ''http error: '' @ m"
| "blob_error_str (BlobUrl m) = lit ''invalid url: '' @ m"
| "blob_error_str (BlobSerde m) = lit ''serialization error: '' @ m"
| "blob_error_str (BlobUnsupported m) = lit ''unsupported: '' @ m"
| "blob_error_str (BlobBlocked m) = lit ''blocked url: '' @ m"
| "blob_error_str (BlobRejected m) = lit ''rejected url: '' @ m"

type_synonym blob_objects = "rstr \<rightharpoonup> byte list"

definition SPILLED_OUTPUT_MIME :: rstr where
  "SPILLED_OUTPUT_MIME = lit ''application/vnd.meili-ingest.output+json''"

definition DEFAULT_STORE_URL :: rstr where
  "DEFAULT_STORE_URL = lit ''file://./blobs''"

definition OCTET_STREAM :: rstr where
  "OCTET_STREAM = lit ''application/octet-stream''"

definition staged_key :: "uuid \<Rightarrow> rstr \<Rightarrow> rstr" where
  "staged_key job name = lit ''jobs/'' @ job @ lit ''/'' @ name"

definition last_segment :: "rstr \<Rightarrow> rstr option" where
  "last_segment path = find (\<lambda>s. s \<noteq> []) (rev (split_on 47 path))"

definition strip_mime_params :: "rstr \<Rightarrow> rstr option" where
  "strip_mime_params value =
     (let essence = to_ascii_lowercase (trim (split_first (\<lambda>c. c = 59) value))
      in if essence = [] then None else Some essence)"

text \<open>The answers of the object store to writing and to reading a key.\<close>

record store_env =
  se_put_error :: "rstr \<Rightarrow> blob_error option"
  se_get_error :: "rstr \<Rightarrow> blob_error option"

definition blob_put :: "'a store_env_scheme \<Rightarrow> rstr \<Rightarrow> byte list \<Rightarrow> blob_objects \<Rightarrow> (blob_error + unit) \<times> blob_objects" where
  "blob_put env key data objs =
     (case se_put_error env key of Some e \<Rightarrow> (Inl e, objs) | None \<Rightarrow> (Inr (), objs(key \<mapsto> data)))"

definition blob_get :: "'a store_env_scheme \<Rightarrow> rstr \<Rightarrow> blob_objects \<Rightarrow> blob_error + byte list" where
  "blob_get env key objs =
     (case se_get_error env key of Some e \<Rightarrow> Inl e
      | None \<Rightarrow> (case objs key of Some d \<Rightarrow> Inr d | None \<Rightarrow> Inl (BlobNotFound key)))"

definition blob_delete :: "'a store_env_scheme \<Rightarrow> rstr \<Rightarrow> blob_objects \<Rightarrow> (blob_error + unit) \<times> blob_objects" where
  "blob_delete env key objs =
     (case se_put_error env key of Some e \<Rightarrow> (Inl e, objs) | None \<Rightarrow> (Inr (), objs(key := None)))"

definition stage_upload ::
  "'a store_env_scheme \<Rightarrow> uuid \<Rightarrow> blob \<Rightarrow> nat \<Rightarrow> blob_objects \<Rightarrow> (blob_error + plugin_input) \<times> blob_objects" where
  "stage_upload env job b inline_max objs =
     (if length (blob_data b) \<le> inline_max then (Inr (InBytes b), objs)
      else
        let object_name = (case Option.bind (blob_filename b) last_segment of Some n \<Rightarrow> n | None \<Rightarrow> lit ''upload.bin'');
            key = staged_key job (lit ''input/'' @ object_name)
        in (case blob_put env key (blob_data b) objs of
              (Inl e, objs) \<Rightarrow> (Inl e, objs)
            | (Inr _, objs) \<Rightarrow> (Inr (InRef (RefStaged key (Some (blob_mime b)) (blob_filename b))), objs)))"

section \<open>Buckets and the policy of object references\<close>

definition OBJECT_REF_SCHEMES :: "rstr list" where
  "OBJECT_REF_SCHEMES = [lit ''s3'', lit ''s3a'', lit ''gs'', lit ''az'', lit ''adl'', lit ''azure'', lit ''abfs'', lit ''abfss'']"

datatype provider = S3 | Gcs | Azure

record bucket =
  bk_provider :: provider
  bk_name :: rstr

record object_ref_policy =
  op_ambient :: bool
  op_buckets :: "rstr list option"

definition default_policy :: object_ref_policy where
  "default_policy = \<lparr>op_ambient = False, op_buckets = None\<rparr>"

text \<open>\<open>debug\<close> is Rust's \<open>Debug\<close> of a string.\<close>

definition parse_ambient :: "(rstr \<Rightarrow> rstr) \<Rightarrow> rstr option \<Rightarrow> rstr + bool" where
  "parse_ambient debug ambient =
     (let v = (case ambient of Some a \<Rightarrow> trim a | None \<Rightarrow> [])
      in if v = [] \<or> v = lit ''0'' then Inr False
         else if v = lit ''1'' then Inr True
         else if to_ascii_lowercase v = lit ''false'' then Inr False
         else if to_ascii_lowercase v = lit ''true'' then Inr True
         else Inl (lit ''OBJECT_REF_AMBIENT_CREDENTIALS must be true or false, got '' @ debug v))"

definition parse_buckets :: "(rstr \<Rightarrow> rstr) \<Rightarrow> rstr option \<Rightarrow> rstr + rstr list option" where
  "parse_buckets debug buckets =
     (let l = (case buckets of Some b \<Rightarrow> trim b | None \<Rightarrow> [])
      in if l = [] then Inr None
         else
           let names = filter (\<lambda>s. s \<noteq> []) (map (\<lambda>s. to_ascii_lowercase (trim s)) (split_on 44 l))
           in (case find (\<lambda>n. 47 \<in> set n \<or> 58 \<in> set n \<or> 64 \<in> set n) names of
                 Some bad \<Rightarrow> Inl (lit ''OBJECT_REF_BUCKETS lists bucket names, not URIs: '' @ debug bad)
               | None \<Rightarrow> Inr (Some names)))"

definition parse_object_policy :: "(rstr \<Rightarrow> rstr) \<Rightarrow> rstr option \<Rightarrow> rstr option \<Rightarrow> rstr + object_ref_policy" where
  "parse_object_policy debug ambient buckets =
     try_bind (parse_ambient debug ambient) (\<lambda>a.
       try_bind (parse_buckets debug buckets) (\<lambda>b. Inr \<lparr>op_ambient = a, op_buckets = b\<rparr>))"

definition bucket_of :: "url \<Rightarrow> bucket option" where
  "bucket_of u =
     (let host = (case url_host u of Some h \<Rightarrow> if h = [] then None else Some h | None \<Rightarrow> None);
          azure = (\<lambda>name. \<lparr>bk_provider = Azure, bk_name = to_ascii_lowercase name\<rparr>)
      in if url_scheme u = lit ''s3'' \<or> url_scheme u = lit ''s3a''
         then map_option (\<lambda>h. \<lparr>bk_provider = S3, bk_name = to_ascii_lowercase h\<rparr>) host
         else if url_scheme u = lit ''gs''
         then map_option (\<lambda>h. \<lparr>bk_provider = Gcs, bk_name = to_ascii_lowercase h\<rparr>) host
         else if url_scheme u \<in> set [lit ''az'', lit ''adl'', lit ''azure'', lit ''abfs'', lit ''abfss'']
         then (if url_username u \<noteq> [] then Some (azure (url_username u)) else map_option azure host)
         else None)"

section \<open>The environment of the process\<close>

type_synonym process_env = "(rstr \<times> rstr) list"

definition aws_custom_endpoint :: "process_env \<Rightarrow> bool" where
  "aws_custom_endpoint vars = list_ex (\<lambda>(k, v).
     k \<in> set [lit ''AWS_ENDPOINT'', lit ''AWS_ENDPOINT_URL'', lit ''AWS_ENDPOINT_URL_S3''] \<and> trim v \<noteq> []) vars"

definition aws_region_set :: "process_env \<Rightarrow> bool" where
  "aws_region_set vars = list_ex (\<lambda>(k, v).
     k \<in> set [lit ''AWS_REGION'', lit ''AWS_DEFAULT_REGION''] \<and> trim v \<noteq> []) vars"

text \<open>How the store of a cloud URL is opened: signed or not, and in which region.\<close>

record store_config =
  sc_url :: url
  sc_anonymous :: bool
  sc_region :: "rstr option"

text \<open>A response, as far as the code reads it; header values that are not text count as absent.\<close>

record http_response =
  hr_status :: nat
  hr_location :: "rstr option"
  hr_content_type :: "rstr option"
  hr_body :: "rstr + byte list"

text \<open>\<open>be_send n u\<close> is the guard's client at hop \<open>n\<close>, \<open>be_get\<close> the caller's client,
  \<open>be_read_object\<close> opens a store and reads the object of its URL.\<close>

record blob_env = store_env +
  be_parse_url :: "rstr \<Rightarrow> rstr + url"
  be_join :: "url \<Rightarrow> rstr \<Rightarrow> rstr + url"
  be_send :: "nat \<Rightarrow> url \<Rightarrow> rstr + http_response"
  be_get :: "url \<Rightarrow> rstr + http_response"
  be_status :: "nat \<Rightarrow> rstr"
  be_debug :: "rstr \<Rightarrow> rstr"
  be_guess_mime :: "rstr \<Rightarrow> rstr option"
  be_process_env :: process_env
  be_resolve_region :: "rstr \<Rightarrow> rstr option"
  be_read_object :: "store_config \<Rightarrow> blob_error + rstr \<times> byte list"
  be_to_vec :: "plugin_output \<Rightarrow> rstr + byte list"
  be_from_slice :: "byte list \<Rightarrow> rstr + plugin_output"
  be_ser :: "jmap \<Rightarrow> nat"

section \<open>The store\<close>

text \<open>A guard: its check at the \<open>n\<close>-th hop and the number of redirects it follows.\<close>

record fetch_guard =
  fg_check :: "nat \<Rightarrow> url \<Rightarrow> rstr + unit"
  fg_max_redirects :: nat

definition new_fetch_guard :: "(nat \<Rightarrow> url \<Rightarrow> rstr + unit) \<Rightarrow> fetch_guard" where
  "new_fetch_guard check = \<lparr>fg_check = check, fg_max_redirects = 5\<rparr>"

record blob_store =
  bs_url :: rstr
  bs_guard :: "fetch_guard option"
  bs_object_refs :: object_ref_policy
  bs_own_bucket :: "bucket option"

definition memory_store :: blob_store where
  "memory_store = \<lparr>bs_url = lit ''memory://'', bs_guard = None, bs_object_refs = default_policy, bs_own_bucket = None\<rparr>"

definition with_fetch_guard :: "fetch_guard \<Rightarrow> blob_store \<Rightarrow> blob_store" where
  "with_fetch_guard g st = st\<lparr>bs_guard := Some g\<rparr>"

definition with_object_ref_policy :: "object_ref_policy \<Rightarrow> blob_store \<Rightarrow> blob_store" where
  "with_object_ref_policy p st = st\<lparr>bs_object_refs := p\<rparr>"

text \<open>\<open>open_dir\<close> creates and opens a directory, \<open>open_cloud\<close> builds a cloud store; the result is the
  error, if any.\<close>

definition store_from_cloud_url ::
  "'a blob_env_scheme \<Rightarrow> (store_config \<Rightarrow> rstr option) \<Rightarrow> rstr \<Rightarrow> rstr + blob_store" where
  "store_from_cloud_url env open_cloud u =
     (case be_parse_url env u of
        Inl e \<Rightarrow> Inl (lit ''invalid BLOB_STORE_URL '' @ be_debug env u @ lit '': '' @ e)
      | Inr parsed \<Rightarrow>
          (case open_cloud \<lparr>sc_url = parsed, sc_anonymous = False, sc_region = None\<rparr> of
             Some e \<Rightarrow> Inl e
           | None \<Rightarrow> Inr \<lparr>bs_url = u, bs_guard = None, bs_object_refs = default_policy,
                        bs_own_bucket = bucket_of parsed\<rparr>))"

definition store_from_url ::
  "'a blob_env_scheme \<Rightarrow> (rstr \<Rightarrow> rstr option) \<Rightarrow> (store_config \<Rightarrow> rstr option) \<Rightarrow> rstr \<Rightarrow> rstr + blob_store" where
  "store_from_url env open_dir open_cloud raw =
     (let u = trim raw in
      case strip_prefix u (lit ''memory://'') of
        Some _ \<Rightarrow> Inr (memory_store\<lparr>bs_url := u\<rparr>)
      | None \<Rightarrow>
     (case strip_prefix u (lit ''file://'') of
        Some rest \<Rightarrow>
          (case open_dir (if rest = [] then lit ''.'' else rest) of
             Some e \<Rightarrow> Inl e | None \<Rightarrow> Inr (memory_store\<lparr>bs_url := u\<rparr>))
      | None \<Rightarrow> store_from_cloud_url env open_cloud u))"

definition store_from_env ::
  "'a blob_env_scheme \<Rightarrow> (rstr \<Rightarrow> rstr option) \<Rightarrow> (store_config \<Rightarrow> rstr option) \<Rightarrow> rstr option \<Rightarrow> rstr + blob_store" where
  "store_from_env env open_dir open_cloud var =
     store_from_url env open_dir open_cloud (case var of Some u \<Rightarrow> u | None \<Rightarrow> DEFAULT_STORE_URL)"

section \<open>Fetching\<close>

text \<open>The loop of a guarded fetch, with the list of URLs it requests. \<open>start\<close> is the URL asked for,
  \<open>current\<close> the one of this hop.\<close>

function guarded_get ::
  "'a blob_env_scheme \<Rightarrow> fetch_guard \<Rightarrow> url \<Rightarrow> nat \<Rightarrow> url \<Rightarrow> (blob_error + http_response) \<times> url list" where
  "guarded_get env g start hops current =
     (case fg_check g hops current of
        Inl reason \<Rightarrow> (Inl (BlobBlocked reason), [])
      | Inr _ \<Rightarrow>
     (case be_send env hops current of
        Inl e \<Rightarrow> (Inl (BlobHttp (lit ''GET '' @ url_text current @ lit '': '' @ e)), [current])
      | Inr response \<Rightarrow>
          if \<not> is_redirection (hr_status response) then (Inr response, [current])
          else if fg_max_redirects g \<le> hops
          then (Inl (BlobHttp (lit ''GET '' @ url_text start @ lit '': more than '' @ show_nat (fg_max_redirects g)
                  @ lit '' redirects'')), [current])
          else (case hr_location response of
             None \<Rightarrow> (Inl (BlobHttp (lit ''GET '' @ url_text current @ lit '': '' @ be_status env (hr_status response)
                       @ lit '' without a Location header'')), [current])
           | Some location \<Rightarrow>
               (case be_join env current location of
                  Inl e \<Rightarrow> (Inl (BlobHttp (lit ''GET '' @ url_text current @ lit '': invalid redirect ''
                             @ be_debug env location @ lit '': '' @ e)), [current])
                | Inr next_url \<Rightarrow>
                    (let rest = guarded_get env g start (hops + 1) next_url in (fst rest, current # snd rest))))))"
  by pat_completeness auto
termination
  by (relation "measure (\<lambda>(env, g, start, hops, current). fg_max_redirects g - hops)") auto

declare guarded_get.simps [simp del]

definition check_object_ref :: "'a blob_env_scheme \<Rightarrow> rstr \<Rightarrow> blob_error + url" where
  "check_object_ref env uri =
     (case be_parse_url env uri of
        Inl e \<Rightarrow> Inl (BlobUrl (be_debug env uri @ lit '': '' @ e))
      | Inr parsed \<Rightarrow>
          if url_scheme parsed \<notin> set OBJECT_REF_SCHEMES
          then Inl (BlobBlocked (lit ''object ref scheme '' @ be_debug env (url_scheme parsed)
                  @ lit '' is not allowed in '' @ be_debug env uri @ lit '' (expected one of ''
                  @ join_with (lit '', '') OBJECT_REF_SCHEMES @ lit '')''))
          else if (case url_host parsed of None \<Rightarrow> True | Some h \<Rightarrow> h = [])
          then Inl (BlobBlocked (lit ''object ref '' @ be_debug env uri @ lit '' names no bucket''))
          else Inr parsed)"

definition authorize :: "'a blob_env_scheme \<Rightarrow> blob_store \<Rightarrow> rstr \<Rightarrow> blob_error + url \<times> bucket" where
  "authorize env st uri =
     try_bind (check_object_ref env uri) (\<lambda>parsed.
       (case bucket_of parsed of
          None \<Rightarrow> Inl (BlobBlocked (lit ''object ref '' @ be_debug env uri @ lit '' names no bucket''))
        | Some b \<Rightarrow>
            if bs_own_bucket st = Some b
            then Inl (BlobBlocked (lit ''object ref '' @ be_debug env uri @ lit (''names the blob store'' @ [CHR 0x27] @ ''s bucket'')))
            else if (case op_buckets (bs_object_refs st) of None \<Rightarrow> False | Some allowed \<Rightarrow> bk_name b \<notin> set allowed)
            then Inl (BlobBlocked (lit ''object ref '' @ be_debug env uri @ lit '' names bucket ''
                    @ be_debug env (bk_name b) @ lit '', not in OBJECT_REF_BUCKETS''))
            else Inr (parsed, b)))"

text \<open>The store a tenant's reference is read from.\<close>

definition tenant_store :: "'a blob_env_scheme \<Rightarrow> url \<Rightarrow> bucket \<Rightarrow> bool \<Rightarrow> store_config" where
  "tenant_store env u b ambient =
     \<lparr>sc_url = u, sc_anonymous = \<not> ambient,
      sc_region = (if bk_provider b = S3 \<and> \<not> aws_custom_endpoint (be_process_env env)
                   then be_resolve_region env (bk_name b) else None)\<rparr>"

definition name_or :: "rstr option \<Rightarrow> rstr \<Rightarrow> rstr option" where
  "name_or filename path = (case filename of Some f \<Rightarrow> Some f | None \<Rightarrow> last_segment path)"

definition mime_or :: "'a blob_env_scheme \<Rightarrow> rstr option \<Rightarrow> rstr option \<Rightarrow> rstr" where
  "mime_or env mime name =
     (case mime of Some m \<Rightarrow> m
      | None \<Rightarrow> (case Option.bind name (be_guess_mime env) of Some m \<Rightarrow> m | None \<Rightarrow> OCTET_STREAM))"

definition fetch_url ::
  "'a blob_env_scheme \<Rightarrow> blob_store \<Rightarrow> rstr \<Rightarrow> rstr option \<Rightarrow> rstr option \<Rightarrow> blob_error + blob" where
  "fetch_url env st u mime filename =
     (case be_parse_url env u of
        Inl e \<Rightarrow> Inl (BlobUrl (be_debug env u @ lit '': '' @ e))
      | Inr parsed \<Rightarrow>
          if url_scheme parsed \<noteq> lit ''http'' \<and> url_scheme parsed \<noteq> lit ''https''
          then Inl (BlobUnsupported (lit ''unsupported URL scheme '' @ be_debug env (url_scheme parsed)
                  @ lit '' in '' @ be_debug env u))
          else try_bind (case bs_guard st of
                   Some g \<Rightarrow> fst (guarded_get env g parsed 0 parsed)
                 | None \<Rightarrow> (case be_get env parsed of
                              Inl e \<Rightarrow> Inl (BlobHttp (lit ''GET '' @ u @ lit '': '' @ e)) | Inr r \<Rightarrow> Inr r))
            (\<lambda>response.
               let status = hr_status response;
                   message = lit ''GET '' @ u @ lit '': status '' @ be_status env status
               in if \<not> http_success status
                  then (if \<not> is_client_error status \<or> status = 408 \<or> status = 429
                        then Inl (BlobHttp message) else Inl (BlobRejected message))
                  else (case hr_body response of
                          Inl e \<Rightarrow> Inl (BlobHttp (lit ''GET '' @ u @ lit '': reading body: '' @ e))
                        | Inr data \<Rightarrow>
                            let name = name_or filename (url_path parsed);
                                header_mime = Option.bind (hr_content_type response) strip_mime_params
                            in Inr \<lparr>blob_data = data,
                                 blob_mime = mime_or env (case mime of Some m \<Rightarrow> Some m | None \<Rightarrow> header_mime) name,
                                 blob_filename = name\<rparr>)))"

definition fetch_object ::
  "'a blob_env_scheme \<Rightarrow> blob_store \<Rightarrow> rstr \<Rightarrow> rstr option \<Rightarrow> rstr option \<Rightarrow> blob_error + blob" where
  "fetch_object env st uri mime filename =
     try_bind (authorize env st uri) (\<lambda>(parsed, b).
       try_bind (be_read_object env (tenant_store env parsed b (op_ambient (bs_object_refs st)))) (\<lambda>(path, data).
         let name = name_or filename path
         in Inr \<lparr>blob_data = data, blob_mime = mime_or env mime name, blob_filename = name\<rparr>))"

definition fetch_staged ::
  "'a blob_env_scheme \<Rightarrow> blob_objects \<Rightarrow> rstr \<Rightarrow> rstr option \<Rightarrow> rstr option \<Rightarrow> blob_error + blob" where
  "fetch_staged env objs uri mime filename =
     try_bind (blob_get env uri objs) (\<lambda>data.
       let name = name_or filename uri
       in Inr \<lparr>blob_data = data, blob_mime = mime_or env mime name, blob_filename = name\<rparr>)"

fun fetch_ref :: "'a blob_env_scheme \<Rightarrow> blob_store \<Rightarrow> blob_objects \<Rightarrow> content_ref \<Rightarrow> blob_error + blob" where
  "fetch_ref env st objs (RefUrl u mime filename) = fetch_url env st u mime filename"
| "fetch_ref env st objs (RefS3 uri mime filename) = fetch_object env st uri mime filename"
| "fetch_ref env st objs (RefStaged uri mime filename) = fetch_staged env objs uri mime filename"

section \<open>Spilled outputs\<close>

definition spill_name :: "rstr \<Rightarrow> nat option \<Rightarrow> rstr" where
  "spill_name step branch =
     (case branch of Some b \<Rightarrow> step @ lit ''-'' @ show_nat b @ lit ''.json'' | None \<Rightarrow> step @ lit ''.json'')"

definition spill_output ::
  "'a blob_env_scheme \<Rightarrow> uuid \<Rightarrow> rstr \<Rightarrow> nat option \<Rightarrow> plugin_output \<Rightarrow> nat \<Rightarrow> blob_objects
   \<Rightarrow> (blob_error + plugin_output) \<times> blob_objects" where
  "spill_output env job step branch out threshold objs =
     (if out_approx_size (be_ser env) out \<le> threshold then (Inr out, objs)
      else
        let key = staged_key job (spill_name step branch)
        in (case be_to_vec env out of
              Inl e \<Rightarrow> (Inl (BlobSerde e), objs)
            | Inr bytes \<Rightarrow>
                (case blob_put env key bytes objs of
                   (Inl e, objs) \<Rightarrow> (Inl e, objs)
                 | (Inr _, objs) \<Rightarrow> (Inr (OutRef (RefStaged key (Some SPILLED_OUTPUT_MIME) None)), objs))))"

text \<open>A loop over outputs that ends at the first error; \<open>None\<close> is a step that does not return.\<close>

fun each :: "('a \<Rightarrow> ('e + 'b) option) \<Rightarrow> 'a list \<Rightarrow> ('e + 'b list) option" where
  "each f [] = Some (Inr [])"
| "each f (x # xs) =
     (case f x of
        None \<Rightarrow> None
      | Some (Inl e) \<Rightarrow> Some (Inl e)
      | Some (Inr y) \<Rightarrow>
          (case each f xs of None \<Rightarrow> None | Some (Inl e) \<Rightarrow> Some (Inl e) | Some (Inr ys) \<Rightarrow> Some (Inr (y # ys))))"

text \<open>The object of a spilled output.\<close>

definition spilled_uri :: "plugin_output \<Rightarrow> rstr option" where
  "spilled_uri out =
     (case out of OutRef (RefStaged uri (Some mime) _) \<Rightarrow> if mime = SPILLED_OUTPUT_MIME then Some uri else None
      | _ \<Rightarrow> None)"

text \<open>Hydration follows spilled outputs from object to object. The first argument is the depth it may
  reach; \<open>None\<close> is running out of it, which an object that contains a reference to itself would cause.\<close>

fun hydrate_output ::
  "nat \<Rightarrow> 'a blob_env_scheme \<Rightarrow> blob_objects \<Rightarrow> plugin_output \<Rightarrow> (blob_error + plugin_output) option" where
  "hydrate_output 0 env objs out = None"
| "hydrate_output (Suc n) env objs out =
     (case spilled_uri out of
        Some uri \<Rightarrow>
          (case blob_get env uri objs of
             Inl e \<Rightarrow> Some (Inl e)
           | Inr bytes \<Rightarrow>
               (case be_from_slice env bytes of
                  Inl e \<Rightarrow> Some (Inl (BlobSerde e))
                | Inr inner \<Rightarrow> hydrate_output n env objs inner))
      | None \<Rightarrow>
          (case out of
             OutMany outs \<Rightarrow> map_option (map_sum id OutMany) (each (hydrate_output n env objs) outs)
           | other \<Rightarrow> Some (Inr other)))"

fun resolve_output ::
  "nat \<Rightarrow> 'a blob_env_scheme \<Rightarrow> blob_store \<Rightarrow> blob_objects \<Rightarrow> plugin_output \<Rightarrow> (blob_error + plugin_output) option" where
  "resolve_output 0 env st objs out = None"
| "resolve_output (Suc n) env st objs out =
     (case hydrate_output (Suc n) env objs out of
        None \<Rightarrow> None
      | Some (Inl e) \<Rightarrow> Some (Inl e)
      | Some (Inr hydrated) \<Rightarrow>
          (case hydrated of
             OutRef r \<Rightarrow> Some (map_sum id OutBytes (fetch_ref env st objs r))
           | OutMany outs \<Rightarrow> map_option (map_sum id OutMany) (each (resolve_output n env st objs) outs)
           | other \<Rightarrow> Some (Inr other)))"

definition blob_resolve_input ::
  "nat \<Rightarrow> 'a blob_env_scheme \<Rightarrow> blob_store \<Rightarrow> blob_objects \<Rightarrow> plugin_input \<Rightarrow> (blob_error + plugin_input) option" where
  "blob_resolve_input n env st objs inp =
     (case inp of
        InRef r \<Rightarrow> map_option (map_sum id input_of_output) (resolve_output n env st objs (OutRef r))
      | InMany outs \<Rightarrow> map_option (map_sum id InMany) (each (resolve_output n env st objs) outs)
      | other \<Rightarrow> Some (Inr other))"

section \<open>Guarded fetches\<close>

text \<open>For any check that keeps the laws of the interface: what a guarded fetch requests was accepted
  at its hop, and there are few of them.\<close>

context url_check
begin

lemma guarded_get_allowed:
  assumes "\<And>n u. fg_check g n u = Inr () \<Longrightarrow> allowed n u"
  shows "list_all (\<lambda>(n, u). allowed n u) (hops_from hops (snd (guarded_get env g start hops current)))"
  using assms
proof (induction env g start hops current rule: guarded_get.induct)
  case (1 env g start hops current)
  show ?case
    by (subst guarded_get.simps)
      (use 1 in \<open>auto simp: Let_def split: sum.split option.split\<close>)
qed

end

lemma guarded_get_bounded:
  "hops \<le> fg_max_redirects g \<Longrightarrow>
     length (snd (guarded_get env g start hops current)) + hops \<le> Suc (fg_max_redirects g)"
proof (induction env g start hops current rule: guarded_get.induct)
  case (1 env g start hops current)
  show ?case
    by (subst guarded_get.simps)
      (use 1 in \<open>auto simp: Let_def split: sum.split option.split\<close>)
qed

text \<open>Whatever servers answer, the worker's guard requests no URL that the host policy did not accept at
  that hop, none that is not HTTP, and at most six.\<close>

theorem guarded_fetch_checked:
  "let us = snd (guarded_get env (new_fetch_guard (\<lambda>n. policy_check (ne n) debug policy)) u 0 u)
   in length us \<le> 6
      \<and> list_all (\<lambda>(n, v). check_host (ne n) policy v = Inr ()) (hops_from 0 us)
      \<and> list_all (\<lambda>v. url_scheme v \<in> {lit ''http'', lit ''https''}) us"
proof -
  let ?g = "new_fetch_guard (\<lambda>n. policy_check (ne n) debug policy)"
  let ?us = "snd (guarded_get env ?g u 0 u)"
  have allowed: "list_all (\<lambda>(n, v). check_host (ne n) policy v = Inr ()) (hops_from 0 ?us)"
    by (rule source_policy.guarded_get_allowed) (simp add: new_fetch_guard_def policy_check_ok)
  have "list_all (\<lambda>(n, v). url_scheme v \<in> {lit ''http'', lit ''https''}) (hops_from 0 ?us)"
    by (rule source_policy.hops_http [OF allowed])
  then have "list_all (\<lambda>v. url_scheme v \<in> {lit ''http'', lit ''https''}) (map snd (hops_from 0 ?us))"
    by (auto simp: list_all_iff)
  moreover have "map snd (hops_from 0 us) = us" for us :: "url list"
    by (simp add: hops_from_def)
  moreover have "length ?us \<le> 6"
    using guarded_get_bounded [of 0 ?g env u u] by (simp add: new_fetch_guard_def)
  ultimately show ?thesis using allowed by simp
qed

section \<open>Object references\<close>

lemma authorize_ok:
  "authorize env st uri = Inr (u, b) \<longleftrightarrow>
     be_parse_url env uri = Inr u \<and> url_scheme u \<in> set OBJECT_REF_SCHEMES
     \<and> (\<exists>h. url_host u = Some h \<and> h \<noteq> []) \<and> bucket_of u = Some b \<and> bs_own_bucket st \<noteq> Some b
     \<and> (case op_buckets (bs_object_refs st) of None \<Rightarrow> True | Some allowed \<Rightarrow> bk_name b \<in> set allowed)"
  by (auto simp: authorize_def check_object_ref_def try_bind_eq_Inr split: sum.split option.splits if_splits)

text \<open>An object reference is read only from a cloud bucket that is not the store's own and, where
  buckets are listed, is one of them; the request is unsigned unless the operator opted in.\<close>

theorem object_ref_confined:
  assumes "fetch_ref env st objs (RefS3 uri mime filename) = Inr b"
  shows "\<exists>u bk path. be_parse_url env uri = Inr u \<and> url_scheme u \<in> set OBJECT_REF_SCHEMES
    \<and> bucket_of u = Some bk \<and> bs_own_bucket st \<noteq> Some bk
    \<and> (case op_buckets (bs_object_refs st) of None \<Rightarrow> True | Some allowed \<Rightarrow> bk_name bk \<in> set allowed)
    \<and> be_read_object env (tenant_store env u bk (op_ambient (bs_object_refs st))) = Inr (path, blob_data b)
    \<and> (sc_anonymous (tenant_store env u bk (op_ambient (bs_object_refs st))) \<longleftrightarrow> \<not> op_ambient (bs_object_refs st))"
proof -
  from assms obtain u bk path data where "authorize env st uri = Inr (u, bk)"
    "be_read_object env (tenant_store env u bk (op_ambient (bs_object_refs st))) = Inr (path, data)" "blob_data b = data"
    by (auto simp: fetch_object_def try_bind_eq_Inr Let_def)
  then show ?thesis by (auto simp: authorize_ok tenant_store_def)
qed

text \<open>A tenant cannot read the blob store through a reference: whatever form of URL names the bucket the
  store was opened on, and whatever the policy, the reference is refused for good.\<close>

theorem own_bucket_refused:
  assumes "store_from_cloud_url env open_cloud store_url = Inr st0"
    and "be_parse_url env store_url = Inr su" "bucket_of su = Some b"
    and "be_parse_url env uri = Inr u" "bucket_of u = Some b"
    and "st = with_object_ref_policy policy (with_fetch_guard g st0)"
  shows "\<exists>m. fetch_ref env st objs (RefS3 uri mime filename) = Inl (BlobBlocked m)"
proof -
  from assms have "bs_own_bucket st = Some b"
    by (auto simp: store_from_cloud_url_def with_object_ref_policy_def with_fetch_guard_def split: option.splits)
  with assms(4,5) show ?thesis
    by (auto simp: fetch_object_def authorize_def check_object_ref_def)
qed

section \<open>Inputs of plugins\<close>

lemma each_Cons_Inr:
  "each f (x # xs) = Some (Inr ys) \<longleftrightarrow> (\<exists>y ys'. ys = y # ys' \<and> f x = Some (Inr y) \<and> each f xs = Some (Inr ys'))"
  by (auto split: option.split sum.split)

lemma each_Inr: "each f xs = Some (Inr ys) \<longleftrightarrow> list_all2 (\<lambda>x y. f x = Some (Inr y)) xs ys"
  by (induction xs arbitrary: ys) (auto simp: each_Cons_Inr list_all2_Cons1 simp del: each.simps(2))

lemma map_sum_Inr: "map_sum f g z = Inr y \<longleftrightarrow> (\<exists>x. z = Inr x \<and> y = g x)"
  by (cases z) auto

lemma each_all:
  assumes "each f xs = Some (Inr ys)" "\<And>x y. f x = Some (Inr y) \<Longrightarrow> P y"
  shows "list_all P ys"
  using assms unfolding each_Inr by (auto simp: list_all_length list_all2_conv_all_nth)

fun no_refs :: "plugin_output \<Rightarrow> bool" where
  "no_refs (OutRef _) \<longleftrightarrow> False"
| "no_refs (OutMany outs) \<longleftrightarrow> list_all no_refs outs"
| "no_refs _ \<longleftrightarrow> True"

definition no_refs_input :: "plugin_input \<Rightarrow> bool" where
  "no_refs_input inp = (case inp of InRef _ \<Rightarrow> False | InMany outs \<Rightarrow> list_all no_refs outs | _ \<Rightarrow> True)"

lemma resolve_output_no_refs: "resolve_output n env st objs out = Some (Inr out') \<Longrightarrow> no_refs out'"
proof (induction n arbitrary: out out')
  case (Suc n)
  from Suc.prems obtain h where h: "hydrate_output (Suc n) env objs out = Some (Inr h)"
    by (auto split: option.splits sum.splits)
  show ?case
  proof (cases h)
    case (OutMany outs)
    with Suc.prems h obtain outs' where "each (resolve_output n env st objs) outs = Some (Inr outs')" "out' = OutMany outs'"
      by (auto simp: map_sum_Inr)
    with each_all [OF _ Suc.IH] show ?thesis by simp
  qed (use Suc.prems h in \<open>auto simp: map_sum_def split: sum.splits\<close>)
qed simp

lemma no_refs_input_of: "no_refs out \<Longrightarrow> no_refs_input (input_of_output out)"
  by (cases out) (auto simp: no_refs_input_def)

lemma resolved_no_refs:
  assumes "blob_resolve_input n env st objs inp = Some (Inr inp')"
  shows "no_refs_input inp'"
proof (cases inp)
  case (InRef r)
  with assms obtain out where "resolve_output n env st objs (OutRef r) = Some (Inr out)" "inp' = input_of_output out"
    by (auto simp: blob_resolve_input_def map_sum_Inr)
  then show ?thesis by (simp add: resolve_output_no_refs no_refs_input_of)
next
  case (InMany outs)
  with assms obtain outs' where "each (resolve_output n env st objs) outs = Some (Inr outs')" "inp' = InMany outs'"
    by (auto simp: blob_resolve_input_def map_sum_Inr)
  then show ?thesis
    using each_all [OF _ resolve_output_no_refs] by (simp add: no_refs_input_def)
qed (use assms in \<open>auto simp: blob_resolve_input_def no_refs_input_def\<close>)

text \<open>C17. A plugin never sees a reference: a resolved input holds none, at any depth.\<close>

theorem resolved_input_has_no_refs:
  assumes "blob_resolve_input n env st objs inp = Some (Inr inp')"
  shows "no_refs_input inp'"
  using assms by (rule resolved_no_refs)

section \<open>Spilling and hydrating\<close>

fun no_spilled :: "plugin_output \<Rightarrow> bool" where
  "no_spilled (OutMany outs) \<longleftrightarrow> list_all no_spilled outs"
| "no_spilled out \<longleftrightarrow> spilled_uri out = None"

lemma hydrate_plain:
  assumes "no_spilled out" "size out < n"
  shows "hydrate_output n env objs out = Some (Inr out)"
  using assms
proof (induction n arbitrary: out)
  case (Suc n)
  show ?case
  proof (cases out)
    case (OutMany outs)
    have "hydrate_output n env objs x = Some (Inr x)" if "x \<in> set outs" for x
    proof (rule Suc.IH)
      show "no_spilled x" using that Suc.prems(1) OutMany by (auto simp: list_all_iff)
      show "size x < n" using size_list_estimation' [of x outs "size x" size] that Suc.prems(2) OutMany by simp
    qed
    then have "each (hydrate_output n env objs) outs = Some (Inr outs)"
      unfolding each_Inr by (simp add: list_all2_same)
    with OutMany show ?thesis by (simp add: spilled_uri_def)
  qed (use Suc.prems in \<open>auto split: option.split\<close>)
qed simp

lemma spill_output_cases:
  assumes "spill_output env job step branch out threshold objs = (Inr out', objs')"
  obtains (kept) "out_approx_size (be_ser env) out \<le> threshold" "out' = out" "objs' = objs"
  | (spilled) bytes where "\<not> out_approx_size (be_ser env) out \<le> threshold" "be_to_vec env out = Inr bytes"
      "objs' = objs(staged_key job (spill_name step branch) \<mapsto> bytes)"
      "out' = OutRef (RefStaged (staged_key job (spill_name step branch)) (Some SPILLED_OUTPUT_MIME) None)"
  using assms
  by (auto simp: spill_output_def blob_put_def Let_def split: if_splits sum.splits option.splits)

text \<open>Reading a spilled output is reading its object.\<close>

lemma hydrate_object:
  assumes "objs key = Some bytes" "se_get_error env key = None"
  shows "hydrate_output (Suc m) env objs (OutRef (RefStaged key (Some SPILLED_OUTPUT_MIME) None)) =
     (case be_from_slice env bytes of Inl e \<Rightarrow> Some (Inl (BlobSerde e)) | Inr x \<Rightarrow> hydrate_output m env objs x)"
  using assms by (simp add: spilled_uri_def blob_get_def)

lemma hydrate_spilled:
  assumes "objs key = Some bytes" "se_get_error env key = None" "be_from_slice env bytes = Inr out" "no_spilled out"
    and "size out + 1 < n"
  shows "hydrate_output n env objs (OutRef (RefStaged key (Some SPILLED_OUTPUT_MIME) None)) = Some (Inr out)"
proof -
  obtain m where "n = Suc m" "size out < m" using assms(5) by (cases n) auto
  with assms show ?thesis by (simp add: hydrate_object hydrate_plain del: hydrate_output.simps)
qed

text \<open>C18. A step output is handed on through the store by the bytes serde writes of it. One within the threshold is handed on as it
  is and nothing is written. Of a larger one the JSON is stored under the one object of its job, step and branch, no other object
  changes, and whoever reads the reference gets what serde reads from exactly these bytes: that value when it refers to no further
  spilled outputs, the error when they do not parse. It comes back as it was whenever serde reads its own JSON of it as it was.\<close>

theorem spill_roundtrip:
  assumes "spill_output env job step branch out threshold objs = (Inr out', objs')"
    and "se_get_error env (staged_key job (spill_name step branch)) = None"
  shows "if out_approx_size (be_ser env) out \<le> threshold
    then out' = out \<and> objs' = objs \<and> (\<forall>m. no_spilled out \<and> size out < m \<longrightarrow> hydrate_output m env objs' out' = Some (Inr out))
    else \<exists>bytes. be_to_vec env out = Inr bytes \<and> objs' = objs(staged_key job (spill_name step branch) \<mapsto> bytes)
      \<and> (\<forall>x m. be_from_slice env bytes = Inr x \<and> no_spilled x \<and> size x + 1 < m \<longrightarrow> hydrate_output m env objs' out' = Some (Inr x))
      \<and> (\<forall>e m. be_from_slice env bytes = Inl e \<longrightarrow> hydrate_output (Suc m) env objs' out' = Some (Inl (BlobSerde e)))"
  using assms(1)
proof (cases rule: spill_output_cases)
  case kept
  then show ?thesis by (simp add: hydrate_plain)
next
  case (spilled bytes)
  then have "objs' (staged_key job (spill_name step branch)) = Some bytes" by simp
  with spilled assms(2) show ?thesis
    by (auto simp: hydrate_object simp del: hydrate_output.simps intro!: hydrate_spilled)
qed

text \<open>The object of a branch and the object of a step can be the same: step \<open>a\<close>, branch 1, and a step
  called \<open>a-1\<close>, which validation accepts in one pipeline. The later output replaces the earlier one.\<close>

lemma spill_keys_collide: "spill_name (lit ''a'') (Some 1) = spill_name (lit ''a-1'') None"
  by (simp add: spill_name_def show_nat.simps lit_def)

text \<open>An object that holds a reference to itself is never hydrated.\<close>

lemma hydrate_self_loop:
  assumes "objs key = Some bytes" "se_get_error env key = None"
    and "be_from_slice env bytes = Inr (OutRef (RefStaged key (Some SPILLED_OUTPUT_MIME) None))"
  shows "hydrate_output n env objs (OutRef (RefStaged key (Some SPILLED_OUTPUT_MIME) None)) = None"
  by (induction n) (simp_all add: assms spilled_uri_def blob_get_def)

section \<open>Witnesses\<close>

definition demo_url :: "rstr \<Rightarrow> rstr \<Rightarrow> url" where
  "demo_url scheme host = \<lparr>url_text = scheme @ lit ''://'' @ host, url_scheme = scheme, url_username = [],
     url_host = Some host, url_port = None, url_known_port = None, url_path = lit ''/f.txt'',
     url_origin = TupleOrigin scheme host 0\<rparr>"

text \<open>Serialization that knows one output, and a cloud that serves one byte.\<close>

definition demo_blob_env :: "plugin_output \<Rightarrow> blob_env" where
  "demo_blob_env out = \<lparr>se_put_error = (\<lambda>_. None), se_get_error = (\<lambda>_. None),
     be_parse_url = (\<lambda>s. Inr (demo_url (lit ''s3'') s)), be_join = (\<lambda>_ _. Inl []), be_send = (\<lambda>_ _. Inl []),
     be_get = (\<lambda>_. Inl []), be_status = show_nat, be_debug = id, be_guess_mime = (\<lambda>_. None), be_process_env = [],
     be_resolve_region = (\<lambda>_. None), be_read_object = (\<lambda>_. Inr (lit ''f.txt'', [1])),
     be_to_vec = (\<lambda>x. if x = out then Inr [1] else Inl []), be_from_slice = (\<lambda>_. Inr out), be_ser = (\<lambda>_. 0)\<rparr>"

lemma demo_bucket: "h \<noteq> [] \<Longrightarrow> bucket_of (demo_url (lit ''s3'') h) = Some \<lparr>bk_provider = S3, bk_name = to_ascii_lowercase h\<rparr>"
  by (simp add: bucket_of_def demo_url_def)

lemma demo_fetch_object:
  "\<exists>b. fetch_ref (demo_blob_env OutEmpty) memory_store Map.empty (RefS3 (lit ''tenant'') None None) = Inr b"
proof -
  have "authorize (demo_blob_env OutEmpty) memory_store (lit ''tenant'')
      = Inr (demo_url (lit ''s3'') (lit ''tenant''), \<lparr>bk_provider = S3, bk_name = to_ascii_lowercase (lit ''tenant'')\<rparr>)"
    by (auto simp: authorize_ok demo_bucket memory_store_def default_policy_def)
      (simp_all add: demo_blob_env_def demo_url_def OBJECT_REF_SCHEMES_def)
  then show ?thesis by (simp add: fetch_object_def demo_blob_env_def Let_def)
qed

theorem object_ref_confined_witness:
  "\<exists>b u bk. fetch_ref (demo_blob_env OutEmpty) memory_store Map.empty (RefS3 (lit ''tenant'') None None) = Inr (b :: blob)
     \<and> bucket_of u = Some bk \<and> bs_own_bucket memory_store \<noteq> Some bk"
  using demo_fetch_object object_ref_confined by blast

theorem own_bucket_refused_witness:
  "\<exists>st m. fetch_ref (demo_blob_env OutEmpty) st Map.empty (RefS3 (lit ''BLOBS'') None None) = Inl (BlobBlocked m)"
proof -
  let ?env = "demo_blob_env OutEmpty"
  obtain st0 where "store_from_cloud_url ?env (\<lambda>_. None) (lit ''blobs'') = Inr st0"
    by (simp add: store_from_cloud_url_def demo_blob_env_def)
  moreover have "be_parse_url ?env (lit ''blobs'') = Inr (demo_url (lit ''s3'') (lit ''blobs''))"
    "be_parse_url ?env (lit ''BLOBS'') = Inr (demo_url (lit ''s3'') (lit ''BLOBS''))"
    by (simp_all add: demo_blob_env_def)
  moreover have "to_ascii_lowercase (lit ''BLOBS'') = to_ascii_lowercase (lit ''blobs'')" by code_simp
  then have "bucket_of (demo_url (lit ''s3'') (lit ''BLOBS'')) = bucket_of (demo_url (lit ''s3'') (lit ''blobs''))"
    by (simp add: demo_bucket)
  moreover obtain b where "bucket_of (demo_url (lit ''s3'') (lit ''blobs'')) = Some b" by (simp add: demo_bucket)
  ultimately show ?thesis
    using own_bucket_refused [of ?env "\<lambda>_. None" "lit ''blobs''" st0 _ b "lit ''BLOBS''"] by (metis (no_types))
qed

theorem resolved_input_has_no_refs_witness:
  "blob_resolve_input 3 (demo_blob_env OutEmpty) memory_store Map.empty (InMany [OutMany [OutEmpty]])
     = Some (Inr (InMany [OutMany [OutEmpty]])) \<and> no_refs_input (InMany [OutMany [OutEmpty]])"
proof
  show r: "blob_resolve_input 3 (demo_blob_env OutEmpty) memory_store Map.empty (InMany [OutMany [OutEmpty]])
     = Some (Inr (InMany [OutMany [OutEmpty]]))"
    by (simp add: blob_resolve_input_def numeral_3_eq_3 spilled_uri_def)
  show "no_refs_input (InMany [OutMany [OutEmpty]])" by (rule resolved_input_has_no_refs [OF r])
qed

definition demo_report :: index_report where
  "demo_report = \<lparr>rep_index = [], rep_document_count = 1, rep_task_uids = []\<rparr>"

text \<open>A small output and a large one, each through the store.\<close>

theorem spill_roundtrip_witness:
  "(\<exists>out' objs'. spill_output (demo_blob_env (OutIndexed demo_report)) [] (lit ''a'') None (OutIndexed demo_report) 100 Map.empty = (Inr out', objs')
     \<and> out' \<noteq> OutIndexed demo_report \<and> hydrate_output 50 (demo_blob_env (OutIndexed demo_report)) objs' out' = Some (Inr (OutIndexed demo_report)))
   \<and> hydrate_output 2 (demo_blob_env OutEmpty) Map.empty OutEmpty = Some (Inr OutEmpty)"
proof
  let ?env = "demo_blob_env (OutIndexed demo_report)"
  obtain out' objs' where s: "spill_output ?env [] (lit ''a'') None (OutIndexed demo_report) 100 Map.empty = (Inr out', objs')"
    and ne: "out' \<noteq> OutIndexed demo_report"
    by (simp add: spill_output_def demo_blob_env_def blob_put_def Let_def)
  have big: "\<not> out_approx_size (be_ser ?env) (OutIndexed demo_report) \<le> 100"
    using s ne by (auto simp: spill_output_def)
  have e: "be_from_slice ?env bytes = Inr (OutIndexed demo_report)" "se_get_error ?env key = None" for bytes key
    by (simp_all add: demo_blob_env_def)
  have "no_spilled (OutIndexed demo_report)" by (simp add: spilled_uri_def)
  then have "hydrate_output 50 ?env objs' out' = Some (Inr (OutIndexed demo_report))"
    using spill_roundtrip [OF s e(2)] big e(1) by auto
  with s ne show "\<exists>out' objs'. spill_output ?env [] (lit ''a'') None (OutIndexed demo_report) 100 Map.empty = (Inr out', objs')
     \<and> out' \<noteq> OutIndexed demo_report \<and> hydrate_output 50 ?env objs' out' = Some (Inr (OutIndexed demo_report))"
    by blast
  have "spill_output (demo_blob_env OutEmpty) [] (lit ''a'') None OutEmpty 100 Map.empty = (Inr OutEmpty, Map.empty)"
    "out_approx_size (be_ser (demo_blob_env OutEmpty)) OutEmpty \<le> 100" "se_get_error (demo_blob_env OutEmpty) key = None" for key
    by (simp_all add: spill_output_def demo_blob_env_def)
  from spill_roundtrip [OF this(1,3)] this(2) show "hydrate_output 2 (demo_blob_env OutEmpty) Map.empty OutEmpty = Some (Inr OutEmpty)"
    by (simp add: spilled_uri_def del: hydrate_output.simps)
qed

end
