(* ===== verification/Archive_Files.thy ===== *)
theory Archive_Files
  imports Archive_Walk Workflow Blob_Store "HOL-Library.Sublist"
begin

text \<open>
  \<open>crates/worker/src/archive_activity.rs\<close>: the activities of an archive job. \<open>expand\<close> stages every
  file of the archive in the blob store and writes a manifest; \<open>prepare\<close> turns a page of the manifest
  into jobs. The environment holds what other services answer: the blob store's failures, the
  control plane's answer to \<open>POST /internal/resolve\<close>, and the third-party functions for archives,
  types, JSON and UUIDs. The lemmas: nothing of a page is lost or run twice, no job starts without
  a destination or against a locked index, and a manifest names, for each file, an object with its content.
\<close>

section \<open>The environment\<close>

text \<open>What the activities use of the world around them.\<close>

record files_env = blob_env +
  fe_store :: blob_store
  fe_readers :: readers
  fe_limits :: limits
  fe_detect :: "byte list \<Rightarrow> rstr option \<Rightarrow> rstr"
  fe_uuid5 :: "uuid \<Rightarrow> rstr \<Rightarrow> uuid"
  fe_url_error :: "plugin_error option"
  fe_resolve :: "rstr \<Rightarrow> rstr \<Rightarrow> rstr option \<Rightarrow> route_match http_reply"
  fe_default_index :: rstr

section \<open>Expanding an archive\<close>

record manifest_entry =
  me_job_id :: uuid
  me_path :: rstr
  me_mime :: rstr
  me_input :: plugin_input

record expand_output =
  xo_manifest :: rstr
  xo_files :: nat
  xo_skipped :: nat
  xo_samples :: "archive_file_issue list"

definition file_job_id :: "files_env \<Rightarrow> uuid \<Rightarrow> nat \<Rightarrow> uuid" where
  "file_job_id env job n = fe_uuid5 env job (lit ''archive-file-'' @ show_nat n)"

definition manifest_key :: "uuid \<Rightarrow> rstr" where
  "manifest_key job = staged_key job (lit ''archive/manifest.json'')"

definition file_issue :: "rstr \<Rightarrow> rstr \<Rightarrow> uuid option \<Rightarrow> archive_file_issue" where
  "file_issue path reason job = \<lparr>issue_path = path, issue_reason = reason, issue_job_id = job\<rparr>"

definition from_archive_error :: "archive_error \<Rightarrow> plugin_error" where
  "from_archive_error e =
     (case e of Stopped m \<Rightarrow> ErrRetryable m | other \<Rightarrow> ErrNonRetryable (archive_error_str other))"

definition from_blob_error :: "rstr \<Rightarrow> blob_error \<Rightarrow> plugin_error" where
  "from_blob_error what e =
     (let m = what @ lit '': '' @ blob_error_str e
      in case e of BlobBlocked _ \<Rightarrow> ErrNonRetryable m | BlobRejected _ \<Rightarrow> ErrNonRetryable m | _ \<Rightarrow> ErrRetryable m)"

text \<open>The loop over the walker's events; \<open>sofar\<close> are the entries staged before.\<close>

record expansion =
  ex_entries :: "manifest_entry list"
  ex_skipped :: nat
  ex_samples :: "archive_file_issue list"
  ex_objects :: blob_objects

definition expansion_start :: "blob_objects \<Rightarrow> expansion" where
  "expansion_start objs = \<lparr>ex_entries = [], ex_skipped = 0, ex_samples = [], ex_objects = objs\<rparr>"

fun take_event :: "files_env \<Rightarrow> uuid \<Rightarrow> event \<Rightarrow> expansion \<Rightarrow> (plugin_error + unit) \<times> expansion" where
  "take_event env job (File path data) x =
     (let fid = file_job_id env job (length (ex_entries x));
          mime = fe_detect env data (Some path);
          b = \<lparr>blob_data = data, blob_mime = mime, blob_filename = Some path\<rparr>
      in case stage_upload env fid b 0 (ex_objects x) of
           (Inl e, objs) \<Rightarrow> (Inl (from_blob_error (lit ''staging a file of the archive'') e), x\<lparr>ex_objects := objs\<rparr>)
         | (Inr staged, objs) \<Rightarrow>
             (Inr (), x\<lparr>ex_entries := ex_entries x
                @ [\<lparr>me_job_id = fid, me_path = path, me_mime = mime, me_input = staged\<rparr>], ex_objects := objs\<rparr>))"
| "take_event env job (Skipped path reason) x =
     (Inr (), x\<lparr>ex_skipped := ex_skipped x + 1,
        ex_samples := (if length (ex_samples x) < ARCHIVE_ISSUES_KEPT
                       then ex_samples x @ [file_issue path reason None] else ex_samples x)\<rparr>)"

fun take_events :: "files_env \<Rightarrow> uuid \<Rightarrow> event list \<Rightarrow> expansion \<Rightarrow> (plugin_error + unit) \<times> expansion" where
  "take_events env job [] x = (Inr (), x)"
| "take_events env job (e # es) x =
     (case take_event env job e x of (Inl err, x) \<Rightarrow> (Inl err, x) | (Inr _, x) \<Rightarrow> take_events env job es x)"

definition archive_blob :: "files_env \<Rightarrow> blob_objects \<Rightarrow> plugin_input \<Rightarrow> plugin_error + blob" where
  "archive_blob env objs inp =
     (case inp of
        InRef r \<Rightarrow> (case fetch_ref env (fe_store env) objs r of
                     Inl e \<Rightarrow> Inl (from_blob_error (lit ''fetching the archive'') e) | Inr b \<Rightarrow> Inr b)
      | InBytes b \<Rightarrow> Inr b
      | other \<Rightarrow> Inl (ErrNonRetryable (lit ''an archive job needs a file, got ''
                       @ input_kind_debug (input_kind_of other) @ lit '' input'')))"

definition archive_format :: "blob \<Rightarrow> plugin_error + format" where
  "archive_format b =
     (case (case sniff_format (blob_data b) of Some f \<Rightarrow> Some f
            | None \<Rightarrow> format_from_mime (canonical_mime (blob_mime b))) of
        Some f \<Rightarrow> Inr f
      | None \<Rightarrow> Inl (ErrNonRetryable ((case blob_filename b of Some f \<Rightarrow> f | None \<Rightarrow> lit ''the upload'')
                  @ lit '' is not a zip, tar or gzip file'')))"

text \<open>\<open>to_vec\<close> serializes the manifest.\<close>

definition write_manifest ::
  "(manifest_entry list \<Rightarrow> rstr + byte list) \<Rightarrow> files_env \<Rightarrow> uuid \<Rightarrow> expansion
   \<Rightarrow> (plugin_error + expand_output) \<times> blob_objects" where
  "write_manifest to_vec env job x =
     (case to_vec (ex_entries x) of
        Inl e \<Rightarrow> (Inl (ErrNonRetryable (lit ''archive manifest: '' @ e)), ex_objects x)
      | Inr bytes \<Rightarrow>
     (case blob_put env (manifest_key job) bytes (ex_objects x) of
        (Inl e, objs) \<Rightarrow> (Inl (from_blob_error (lit ''writing the archive manifest'') e), objs)
      | (Inr _, objs) \<Rightarrow>
          (Inr \<lparr>xo_manifest = manifest_key job, xo_files = length (ex_entries x),
             xo_skipped = ex_skipped x, xo_samples = ex_samples x\<rparr>, objs)))"

text \<open>The walk runs beside the loop and only stops early when the loop has already failed, so its sink
  is one that never stops it.\<close>

definition expand ::
  "(manifest_entry list \<Rightarrow> rstr + byte list) \<Rightarrow> files_env \<Rightarrow> uuid \<Rightarrow> plugin_input \<Rightarrow> blob_objects
   \<Rightarrow> (plugin_error + expand_output) \<times> blob_objects" where
  "expand to_vec env job inp objs =
     (case try_bind (archive_blob env objs inp) (\<lambda>b. try_bind (archive_format b) (\<lambda>f. Inr (b, f))) of
        Inl e \<Rightarrow> (Inl e, objs)
      | Inr (b, f) \<Rightarrow>
          let (result, events) = walk (fe_readers env) (fe_limits env) (\<lambda>_ _. None) (blob_data b) f (blob_filename b)
          in (case take_events env job events (expansion_start objs) of
                (Inl e, x) \<Rightarrow> (Inl e, ex_objects x)
              | (Inr _, x) \<Rightarrow>
                  (case result of
                     Inl e \<Rightarrow> (Inl (from_archive_error e), ex_objects x)
                   | Inr _ \<Rightarrow> write_manifest to_vec env job x)))"

section \<open>Routing a page of the manifest\<close>

record forced_pipeline =
  fp_pipeline :: pipeline_definition
  fp_index_pattern :: "rstr option"

record prepare_input =
  pi_job_id :: uuid
  pi_manifest :: rstr
  pi_offset :: nat
  pi_limit :: nat
  pi_context :: meili_context
  pi_forced :: "forced_pipeline option"
  pi_locked_index :: "rstr option"

record child_job =
  cj_path :: rstr
  cj_input :: pipeline_workflow_input

record prepare_output =
  po_consumed :: nat
  po_jobs :: "child_job list"
  po_skipped :: "archive_file_issue list"
  po_failed :: "archive_file_issue list"

text \<open>The row of a file's job, posted to the control plane.\<close>

record file_job_row =
  fr_job_id :: uuid
  fr_workflow_id :: rstr
  fr_pipeline_uid :: rstr
  fr_tenant_id :: "rstr option"
  fr_index_name :: "rstr option"
  fr_status :: job_status
  fr_parent :: uuid

definition resolve_pipeline ::
  "files_env \<Rightarrow> rstr \<Rightarrow> rstr \<Rightarrow> rstr option \<Rightarrow> plugin_error + route_match option" where
  "resolve_pipeline env mime filename tenant =
     (case fe_url_error env of Some e \<Rightarrow> Inl e
      | None \<Rightarrow>
     (case fe_resolve env mime filename tenant of
        NoHttpReply e \<Rightarrow> Inl (ErrRetryable (lit ''control plane unreachable: '' @ e))
      | HttpReply status body \<Rightarrow>
          if status = 404 then Inr None
          else if \<not> http_success status
          then Inl (ErrRetryable (lit ''control plane returned '' @ be_status env status
                 @ lit '' resolving a pipeline for '' @ mime))
          else (case body of Inl e \<Rightarrow> Inl (ErrNonRetryable (lit ''resolve: unreadable response: '' @ e))
                | Inr m \<Rightarrow> Inr (Some m))))"

definition non_blank :: "rstr option \<Rightarrow> rstr option" where
  "non_blank s = (case s of None \<Rightarrow> None | Some s \<Rightarrow> let s = trim s in if s = [] then None else Some s)"

definition file_index ::
  "rstr option \<Rightarrow> pipeline_definition \<Rightarrow> rstr option \<Rightarrow> rstr option \<Rightarrow> rstr \<Rightarrow> rstr \<Rightarrow> rstr" where
  "file_index locked pipeline pattern request_index mime default_index =
     (case non_blank locked of Some i \<Rightarrow> i
      | None \<Rightarrow> (case fixed_index pipeline of Some i \<Rightarrow> i
      | None \<Rightarrow> (case non_blank pattern of Some i \<Rightarrow> i
      | None \<Rightarrow> (case non_blank request_index of Some i \<Rightarrow> i
      | None \<Rightarrow> (let d = mime_to_default_index mime in if d = lit ''documents'' then default_index else d)))))"

definition job_row :: "uuid \<Rightarrow> uuid \<Rightarrow> pipeline_definition \<Rightarrow> meili_context \<Rightarrow> file_job_row" where
  "job_row archive_job job pipeline context = \<lparr>fr_job_id = job, fr_workflow_id = workflow_id job,
     fr_pipeline_uid = pl_uid pipeline, fr_tenant_id = ctx_tenant_id context, fr_index_name = ctx_index context,
     fr_status = Queued, fr_parent = archive_job\<rparr>"

text \<open>What becomes of one file: an error of the activity, a skip, a failure, or a job.\<close>

datatype file_route = RouteSkip archive_file_issue | RouteFail archive_file_issue | RouteJob child_job

definition choose_pipeline :: "files_env \<Rightarrow> prepare_input \<Rightarrow> manifest_entry \<Rightarrow> plugin_error + route_match option" where
  "choose_pipeline env inp e =
     (case pi_forced inp of
        Some f \<Rightarrow> Inr (Some \<lparr>rm_pipeline = fp_pipeline f, rm_index_pattern = fp_index_pattern f\<rparr>)
      | None \<Rightarrow> resolve_pipeline env (me_mime e) (basename (me_path e)) (ctx_tenant_id (pi_context inp)))"

text \<open>An index step that names another index than the locked one.\<close>

definition other_index :: "prepare_input \<Rightarrow> pipeline_definition \<Rightarrow> (rstr \<times> rstr) option" where
  "other_index inp pipeline =
     Option.bind (pi_locked_index inp) (\<lambda>index.
       map_option (\<lambda>other. (index, other)) (find (\<lambda>named. named \<noteq> index) (step_indexes pipeline)))"

definition route_file :: "files_env \<Rightarrow> prepare_input \<Rightarrow> manifest_entry \<Rightarrow> plugin_error + file_route" where
  "route_file env inp e =
     (case choose_pipeline env inp e of
        Inl err \<Rightarrow> Inl err
      | Inr None \<Rightarrow> Inr (RouteSkip (file_issue (me_path e) (lit ''no pipeline handles '' @ me_mime e) None))
      | Inr (Some m) \<Rightarrow>
          let pipeline = rm_pipeline m;
              has_destination = ctx_host (pi_context inp) \<noteq> None \<and> ctx_api_key (pi_context inp) \<noteq> None
          in if \<not> pins_destination pipeline \<and> \<not> has_destination
             then Inr (RouteFail (file_issue (me_path e) (lit ''pipeline '' @ be_debug env (pl_uid pipeline)
                    @ lit '' needs a Meilisearch destination and the request named none'') None))
             else (case other_index inp pipeline of
                Some (index, other) \<Rightarrow>
                  Inr (RouteFail (file_issue (me_path e) (lit ''pipeline '' @ be_debug env (pl_uid pipeline)
                    @ lit '' writes to index '' @ be_debug env other @ lit '', not '' @ be_debug env index) None))
              | None \<Rightarrow>
                  Inr (RouteJob \<lparr>cj_path = me_path e,
                    cj_input = \<lparr>wi_job_id = me_job_id e, wi_pipeline = pipeline, wi_input = me_input e,
                      wi_context = (pi_context inp)\<lparr>ctx_index := Some (file_index (pi_locked_index inp) pipeline
                        (rm_index_pattern m) (ctx_index (pi_context inp)) (me_mime e) (fe_default_index env))\<rparr>\<rparr>\<rparr>)))"

definition add_route :: "file_route \<Rightarrow> prepare_output \<Rightarrow> prepare_output" where
  "add_route r out =
     (case r of
        RouteSkip i \<Rightarrow> out\<lparr>po_skipped := po_skipped out @ [i]\<rparr>
      | RouteFail i \<Rightarrow> out\<lparr>po_failed := po_failed out @ [i]\<rparr>
      | RouteJob j \<Rightarrow> out\<lparr>po_jobs := po_jobs out @ [j]\<rparr>)"

text \<open>Posting a row is best effort: without a control plane address nothing is sent, and a failure is
  only logged.\<close>

definition record_file_job ::
  "files_env \<Rightarrow> uuid \<Rightarrow> uuid \<Rightarrow> pipeline_definition \<Rightarrow> meili_context \<Rightarrow> file_job_row list \<Rightarrow> file_job_row list" where
  "record_file_job env archive_job job pipeline context rows =
     (case fe_url_error env of None \<Rightarrow> rows @ [job_row archive_job job pipeline context] | Some _ \<Rightarrow> rows)"

text \<open>The loop over the page, with the rows posted so far.\<close>

fun route_files ::
  "files_env \<Rightarrow> prepare_input \<Rightarrow> manifest_entry list \<Rightarrow> prepare_output \<Rightarrow> file_job_row list
   \<Rightarrow> (plugin_error + prepare_output) \<times> file_job_row list" where
  "route_files env inp [] out rows = (Inr out, rows)"
| "route_files env inp (e # es) out rows =
     (case route_file env inp e of
        Inl err \<Rightarrow> (Inl err, rows)
      | Inr r \<Rightarrow>
          route_files env inp es (add_route r out)
            (case r of RouteJob j \<Rightarrow> record_file_job env (pi_job_id inp) (wi_job_id (cj_input j))
                                (wi_pipeline (cj_input j)) (wi_context (cj_input j)) rows
             | _ \<Rightarrow> rows))"

definition manifest_page :: "nat \<Rightarrow> nat \<Rightarrow> 'a list \<Rightarrow> 'a list" where
  "manifest_page offset limit entries = take (max limit 1) (drop offset entries)"

text \<open>\<open>from_slice\<close> reads the manifest.\<close>

definition prepare ::
  "(byte list \<Rightarrow> rstr + manifest_entry list) \<Rightarrow> files_env \<Rightarrow> blob_objects \<Rightarrow> prepare_input
   \<Rightarrow> (plugin_error + prepare_output) \<times> file_job_row list" where
  "prepare from_slice env objs inp =
     (case blob_get env (pi_manifest inp) objs of
        Inl e \<Rightarrow> (Inl (from_blob_error (lit ''reading the archive manifest'') e), [])
      | Inr bytes \<Rightarrow>
     (case from_slice bytes of
        Inl e \<Rightarrow> (Inl (ErrNonRetryable (lit ''archive manifest: '' @ e)), [])
      | Inr entries \<Rightarrow>
          let page = manifest_page (pi_offset inp) (pi_limit inp) entries
          in route_files env inp page
               \<lparr>po_consumed = length page, po_jobs = [], po_skipped = [], po_failed = []\<rparr> []))"

section \<open>A page is accounted for\<close>

text \<open>A route says something about its own entry.\<close>

definition route_of :: "prepare_input \<Rightarrow> manifest_entry \<Rightarrow> file_route \<Rightarrow> bool" where
  "route_of inp e r \<longleftrightarrow>
     (case r of
        RouteSkip i \<Rightarrow> issue_path i = me_path e \<and> issue_job_id i = None
      | RouteFail i \<Rightarrow> issue_path i = me_path e \<and> issue_job_id i = None
      | RouteJob j \<Rightarrow> cj_path j = me_path e \<and> wi_job_id (cj_input j) = me_job_id e
          \<and> wi_input (cj_input j) = me_input e)"

lemma route_file_of: "route_file env inp e = Inr r \<Longrightarrow> route_of inp e r"
  by (auto simp: route_file_def route_of_def file_issue_def Let_def split: sum.splits option.splits if_splits)

definition routes_of :: "files_env \<Rightarrow> prepare_input \<Rightarrow> manifest_entry list \<Rightarrow> file_route list" where
  "routes_of env inp page = map (\<lambda>e. projr (route_file env inp e)) page"

definition jobs_in :: "file_route list \<Rightarrow> child_job list" where
  "jobs_in = List.map_filter (\<lambda>r. case r of RouteJob j \<Rightarrow> Some j | _ \<Rightarrow> None)"

definition skips_in :: "file_route list \<Rightarrow> archive_file_issue list" where
  "skips_in = List.map_filter (\<lambda>r. case r of RouteSkip i \<Rightarrow> Some i | _ \<Rightarrow> None)"

definition fails_in :: "file_route list \<Rightarrow> archive_file_issue list" where
  "fails_in = List.map_filter (\<lambda>r. case r of RouteFail i \<Rightarrow> Some i | _ \<Rightarrow> None)"

lemma route_lists_simps [simp]:
  "jobs_in [] = []" "skips_in [] = []" "fails_in [] = []"
  "jobs_in (r # rs) = (case r of RouteJob j \<Rightarrow> [j] | _ \<Rightarrow> []) @ jobs_in rs"
  "skips_in (r # rs) = (case r of RouteSkip i \<Rightarrow> [i] | _ \<Rightarrow> []) @ skips_in rs"
  "fails_in (r # rs) = (case r of RouteFail i \<Rightarrow> [i] | _ \<Rightarrow> []) @ fails_in rs"
  by (auto simp: jobs_in_def skips_in_def fails_in_def map_filter_simps split: file_route.split)

lemma length_route_lists: "length (jobs_in rs) + length (skips_in rs) + length (fails_in rs) = length rs"
  by (induction rs) (auto split: file_route.split)

lemma route_files_result:
  assumes "fst (route_files env inp page out rows) = Inr out'"
  shows "out' = out\<lparr>po_jobs := po_jobs out @ jobs_in (routes_of env inp page),
      po_skipped := po_skipped out @ skips_in (routes_of env inp page),
      po_failed := po_failed out @ fails_in (routes_of env inp page)\<rparr>
    \<and> (\<forall>e \<in> set page. route_file env inp e = Inr (projr (route_file env inp e)))"
  using assms
proof (induction page arbitrary: out rows)
  case (Cons e page)
  show ?case
  proof (cases "route_file env inp e")
    case (Inr r)
    with Cons.prems obtain rows' where "fst (route_files env inp page (add_route r out) rows') = Inr out'"
      by (auto split: file_route.splits)
    from Cons.IH [OF this] Inr show ?thesis by (cases r) (auto simp: routes_of_def add_route_def)
  qed (use Cons.prems in simp)
qed (simp add: routes_of_def)

text \<open>What a successful \<open>prepare\<close> did: every entry of its page was routed.\<close>

lemma prepare_result:
  assumes "fst (prepare from_slice env objs inp) = Inr out"
  obtains bytes entries rs where "blob_get env (pi_manifest inp) objs = Inr bytes" "from_slice bytes = Inr entries"
    "map (route_file env inp) (manifest_page (pi_offset inp) (pi_limit inp) entries) = map Inr rs"
    "out = \<lparr>po_consumed = length rs, po_jobs = jobs_in rs, po_skipped = skips_in rs, po_failed = fails_in rs\<rparr>"
proof -
  from assms obtain bytes entries where b: "blob_get env (pi_manifest inp) objs = Inr bytes" "from_slice bytes = Inr entries"
    by (auto simp: prepare_def split: sum.splits)
  let ?page = "manifest_page (pi_offset inp) (pi_limit inp) entries"
  from assms b have r: "fst (route_files env inp ?page
      \<lparr>po_consumed = length ?page, po_jobs = [], po_skipped = [], po_failed = []\<rparr> []) = Inr out"
    by (simp add: prepare_def Let_def)
  show thesis
  proof (rule that [OF b, of "routes_of env inp ?page"])
    show "map (route_file env inp) ?page = map Inr (routes_of env inp ?page)"
      using route_files_result [OF r] by (simp add: routes_of_def)
    show "out = \<lparr>po_consumed = length (routes_of env inp ?page), po_jobs = jobs_in (routes_of env inp ?page),
        po_skipped = skips_in (routes_of env inp ?page), po_failed = fails_in (routes_of env inp ?page)\<rparr>"
      using route_files_result [OF r] by (simp add: routes_of_def)
  qed
qed

lemma prepare_consumed:
  "fst (prepare from_slice env objs inp) = Inr out \<Longrightarrow>
     po_consumed out = length (po_jobs out) + length (po_skipped out) + length (po_failed out)"
  using length_route_lists by (elim prepare_result) simp

lemma in_jobs_in: "j \<in> set (jobs_in rs) \<longleftrightarrow> RouteJob j \<in> set rs"
  by (induction rs) (auto split: file_route.split)

lemma prepared_job:
  assumes "fst (prepare from_slice env objs inp) = Inr out" "j \<in> set (po_jobs out)"
  obtains bytes entries e where "blob_get env (pi_manifest inp) objs = Inr bytes" "from_slice bytes = Inr entries"
    "e \<in> set (manifest_page (pi_offset inp) (pi_limit inp) entries)" "route_file env inp e = Inr (RouteJob j)"
proof -
  obtain bytes entries rs where r: "blob_get env (pi_manifest inp) objs = Inr bytes" "from_slice bytes = Inr entries"
    "map (route_file env inp) (manifest_page (pi_offset inp) (pi_limit inp) entries) = map Inr rs" "po_jobs out = jobs_in rs"
    using assms(1) by (elim prepare_result) simp
  from r(4) assms(2) have "Inr (RouteJob j) \<in> set (map (route_file env inp) (manifest_page (pi_offset inp) (pi_limit inp) entries))"
    unfolding r(3) by (simp add: in_jobs_in image_iff)
  with that [OF r(1,2)] show thesis by auto
qed

section \<open>What is staged\<close>

definition file_key :: "files_env \<Rightarrow> uuid \<Rightarrow> nat \<Rightarrow> rstr \<Rightarrow> rstr" where
  "file_key env job n path = staged_key (file_job_id env job n)
     (lit ''input/'' @ (case last_segment path of Some s \<Rightarrow> s | None \<Rightarrow> lit ''upload.bin''))"

definition staged_entry :: "files_env \<Rightarrow> uuid \<Rightarrow> nat \<times> rstr \<times> byte list \<Rightarrow> manifest_entry" where
  "staged_entry env job = (\<lambda>(n, path, data).
     let mime = fe_detect env data (Some path)
     in \<lparr>me_job_id = file_job_id env job n, me_path = path, me_mime = mime,
         me_input = InRef (RefStaged (file_key env job n path) (Some mime) (Some path))\<rparr>)"

definition files_of :: "event list \<Rightarrow> (rstr \<times> byte list) list" where
  "files_of = List.map_filter (\<lambda>e. case e of File p d \<Rightarrow> Some (p, d) | Skipped _ _ \<Rightarrow> None)"

lemma files_of_simps [simp]:
  "files_of [] = []" "files_of (File p d # es) = (p, d) # files_of es" "files_of (Skipped p r # es) = files_of es"
  by (simp_all add: files_of_def map_filter_simps)

lemma in_files_of: "(p, d) \<in> set (files_of es) \<longleftrightarrow> File p d \<in> set es"
proof (induction es)
  case (Cons e es)
  then show ?case by (cases e) auto
qed simp

definition numbered :: "nat \<Rightarrow> 'a list \<Rightarrow> (nat \<times> 'a) list" where
  "numbered k xs = zip [k..<k + length xs] xs"

lemma numbered_simps [simp]:
  "numbered k [] = []" "numbered k (x # xs) = (k, x) # numbered (Suc k) xs"
  using upt_conv_Cons [of k "Suc (k + length xs)"] by (simp_all add: numbered_def del: upt_Suc)

lemma length_numbered [simp]: "length (numbered k xs) = length xs"
  by (simp add: numbered_def)

lemma nth_numbered [simp]: "n < length xs \<Longrightarrow> numbered k xs ! n = (k + n, xs ! n)"
  by (simp add: numbered_def)

definition put_file :: "files_env \<Rightarrow> uuid \<Rightarrow> nat \<times> rstr \<times> byte list \<Rightarrow> blob_objects \<Rightarrow> blob_objects" where
  "put_file env job = (\<lambda>(n, path, data) objs. objs(file_key env job n path \<mapsto> data))"

lemma take_events_staged:
  assumes "take_events env job es x = (Inr (), x')" "\<And>p d. File p d \<in> set es \<Longrightarrow> d \<noteq> []"
  shows "ex_entries x' = ex_entries x @ map (staged_entry env job) (numbered (length (ex_entries x)) (files_of es))
    \<and> ex_objects x' = fold (put_file env job) (numbered (length (ex_entries x)) (files_of es)) (ex_objects x)"
  using assms
proof (induction es arbitrary: x)
  case (Cons e es)
  obtain y where y: "take_event env job e x = (Inr (), y)" and rest: "take_events env job es y = (Inr (), x')"
    using Cons.prems(1) by (auto split: prod.splits sum.splits)
  note IH = Cons.IH [OF rest Cons.prems(2) [OF list.set_intros(2)]]
  show ?case
  proof (cases e)
    case (File p d)
    with Cons.prems(2) [of p d] have "d \<noteq> []" by simp
    with y File have "ex_entries y = ex_entries x @ [staged_entry env job (length (ex_entries x), p, d)]"
      "ex_objects y = put_file env job (length (ex_entries x), p, d) (ex_objects x)"
      by (auto simp: stage_upload_def blob_put_def staged_entry_def put_file_def file_key_def Let_def
          split: option.splits prod.splits sum.splits if_splits)
    with IH File show ?thesis by simp
  next
    case (Skipped p r)
    with y have "ex_entries y = ex_entries x" "ex_objects y = ex_objects x" by auto
    with IH Skipped show ?thesis by simp
  qed
qed simp

text \<open>UUIDs are strings of one length, and the version 5 UUIDs of the first \<open>count\<close> files differ.\<close>

definition uuids_ok :: "files_env \<Rightarrow> uuid \<Rightarrow> nat \<Rightarrow> bool" where
  "uuids_ok env job count \<longleftrightarrow> length job = 36 \<and> (\<forall>k < count. length (file_job_id env job k) = 36)
     \<and> distinct (map (file_job_id env job) [0..<count])"

lemma file_key_inject:
  assumes "uuids_ok env job count" "m < count" "n < count" "file_key env job m p = file_key env job n q"
  shows "m = n"
proof -
  have "file_job_id env job m = file_job_id env job n"
    using assms unfolding file_key_def staged_key_def by (simp add: uuids_ok_def)
  then show ?thesis
    using assms(1-3) by (simp add: uuids_ok_def distinct_map inj_on_def)
qed

lemma file_key_not_manifest: "uuids_ok env job count \<Longrightarrow> n < count \<Longrightarrow> file_key env job n p \<noteq> manifest_key job"
  unfolding file_key_def staged_key_def manifest_key_def
  by (auto simp: uuids_ok_def lit_def)

lemma put_file_simps [simp]:
  "put_file env job (n, f) objs (file_key env job n (fst f)) = Some (snd f)"
  "file_key env job n (fst f) \<noteq> key \<Longrightarrow> put_file env job (n, f) objs key = objs key"
  by (simp_all add: put_file_def case_prod_beta)

lemma fold_put_file_other:
  "(\<And>n. n < length fs \<Longrightarrow> file_key env job (k + n) (fst (fs ! n)) \<noteq> key) \<Longrightarrow> fold (put_file env job) (numbered k fs) objs key = objs key"
proof (induction fs arbitrary: k objs)
  case (Cons f fs)
  have "file_key env job (Suc k + n) (fst (fs ! n)) \<noteq> key" if "n < length fs" for n
    using Cons.prems [of "Suc n"] that by simp
  then show ?case
    using Cons.IH [of "Suc k"] Cons.prems [of 0] by simp
qed simp

lemma fold_put_file_lookup:
  assumes "uuids_ok env job (k + length fs)" "n < length fs"
  shows "fold (put_file env job) (numbered k fs) objs (file_key env job (k + n) (fst (fs ! n))) = Some (snd (fs ! n))"
  using assms
proof (induction fs arbitrary: k n objs)
  case (Cons f fs)
  show ?case
  proof (cases n)
    case 0
    have "file_key env job (Suc k + m) p \<noteq> file_key env job k (fst f)" if "m < length fs" for m p
      using that file_key_inject [OF Cons.prems(1), of "Suc k + m" k p] by auto
    then show ?thesis using 0 by (simp add: fold_put_file_other)
  next
    case (Suc m)
    with Cons.IH [of "Suc k" m] Cons.prems show ?thesis by simp
  qed
qed simp

text \<open>A successful expansion: the archive was walked to its end, and each of its files staged.\<close>

lemma expand_result:
  assumes "expand to_vec env job inp objs = (Inr out, objs')"
  obtains b f summary events bytes where
    "archive_blob env objs inp = Inr b" "archive_format b = Inr f"
    "walk (fe_readers env) (fe_limits env) (\<lambda>_ _. None) (blob_data b) f (blob_filename b) = (Inr summary, events)"
    "to_vec (map (staged_entry env job) (numbered 0 (files_of events))) = Inr bytes"
    "objs' = (fold (put_file env job) (numbered 0 (files_of events)) objs)(manifest_key job \<mapsto> bytes)"
    "xo_manifest out = manifest_key job" "xo_files out = length (files_of events)"
    "\<And>p d. File p d \<in> set events \<Longrightarrow> d \<noteq> []"
proof -
  from assms obtain b f where bf: "archive_blob env objs inp = Inr b" "archive_format b = Inr f"
    by (auto simp: expand_def try_bind_def split: sum.splits)
  moreover obtain result events where w:
    "walk (fe_readers env) (fe_limits env) (\<lambda>_ _. None) (blob_data b) f (blob_filename b) = (result, events)"
    by force
  moreover obtain r x where t: "take_events env job events (expansion_start objs) = (r, x)"
    by force
  ultimately have "(case r of Inl e \<Rightarrow> (Inl e, ex_objects x) | Inr _ \<Rightarrow> (case result of
      Inl e \<Rightarrow> (Inl (from_archive_error e), ex_objects x) | Inr _ \<Rightarrow> write_manifest to_vec env job x)) = (Inr out, objs')"
    using assms by (simp add: expand_def split: sum.splits)
  then obtain summary where ok: "r = Inr ()" "result = Inr summary" "write_manifest to_vec env job x = (Inr out, objs')"
    by (auto split: sum.splits)
  note w = w [unfolded ok] and t = t [unfolded ok]
  from ok(3) obtain bytes where v: "to_vec (ex_entries x) = Inr bytes"
    and o: "objs' = (ex_objects x)(manifest_key job \<mapsto> bytes)" "xo_manifest out = manifest_key job"
      "xo_files out = length (ex_entries x)"
    by (auto simp: write_manifest_def blob_put_def split: sum.splits option.splits)
  have nonempty: "d \<noteq> []" if "File p d \<in> set events" for p d
  proof -
    have "events = wk_events (snd (walk_archive (fe_readers env) (fe_limits env) (\<lambda>_ _. None) (blob_data b) f
        (blob_filename b) new_walker))"
      using w by (auto simp: walk_def split: prod.splits sum.splits)
    with walk_archive_inv that have "event_ok (fe_limits env) (File p d)"
      unfolding walk_inv_def list_all_iff by blast
    then show ?thesis by simp
  qed
  from take_events_staged [OF t nonempty]
  have "ex_entries x = map (staged_entry env job) (numbered 0 (files_of events))"
    "ex_objects x = fold (put_file env job) (numbered 0 (files_of events)) objs"
    by (simp_all add: expansion_start_def)
  with v o have "to_vec (map (staged_entry env job) (numbered 0 (files_of events))) = Inr bytes"
    "objs' = (fold (put_file env job) (numbered 0 (files_of events)) objs)(manifest_key job \<mapsto> bytes)"
    "xo_manifest out = manifest_key job" "xo_files out = length (files_of events)"
    by simp_all
  then show thesis by (rule that [OF bf w]) (rule nonempty)
qed

section \<open>Properties\<close>

text \<open>C14. Every file of an archive that was expanded is staged as it was found. With the archive that the input gives and the format
  found for it, the walk came to its end, and the object of the manifest is the JSON of one entry for each file of the walk, in order, as
  many as the result says. The entry of the \<open>n\<close>-th file has its path, the type detected of it, the job id of that number and a reference to an object that holds
  exactly the content the walk handed over, as long as the job ids of these files differ. No other object changed.\<close>

theorem expand_stages_files:
  assumes "expand to_vec env job inp objs = (Inr out, objs')" "uuids_ok env job (xo_files out)"
  shows "\<exists>b f summary events bytes entries.
     archive_blob env objs inp = Inr b \<and> archive_format b = Inr f
     \<and> walk (fe_readers env) (fe_limits env) (\<lambda>_ _. None) (blob_data b) f (blob_filename b) = (Inr summary, events)
     \<and> to_vec entries = Inr bytes \<and> objs' (xo_manifest out) = Some bytes
     \<and> length entries = xo_files out \<and> xo_files out = length (files_of events)
     \<and> (\<forall>n < xo_files out. \<exists>key. me_path (entries ! n) = fst (files_of events ! n) \<and> me_job_id (entries ! n) = file_job_id env job n
          \<and> me_mime (entries ! n) = fe_detect env (snd (files_of events ! n)) (Some (fst (files_of events ! n)))
          \<and> me_input (entries ! n) = InRef (RefStaged key (Some (me_mime (entries ! n))) (Some (fst (files_of events ! n))))
          \<and> objs' key = Some (snd (files_of events ! n)))
     \<and> (\<forall>key. objs' key \<noteq> objs key \<longrightarrow> key = xo_manifest out
          \<or> (\<exists>n < xo_files out. key = file_key env job n (fst (files_of events ! n))))"
proof -
  from assms(1) obtain b f summary events bytes where
    b: "archive_blob env objs inp = Inr b" "archive_format b = Inr f"
    and w: "walk (fe_readers env) (fe_limits env) (\<lambda>_ _. None) (blob_data b) f (blob_filename b) = (Inr summary, events)"
    and v: "to_vec (map (staged_entry env job) (numbered 0 (files_of events))) = Inr bytes"
    and o: "objs' = (fold (put_file env job) (numbered 0 (files_of events)) objs)(manifest_key job \<mapsto> bytes)"
      "xo_manifest out = manifest_key job" "xo_files out = length (files_of events)"
    by (rule expand_result)
  let ?entries = "map (staged_entry env job) (numbered 0 (files_of events))"
  have ids: "uuids_ok env job (0 + length (files_of events))"
    using assms(2) by (simp add: o(3))
  have "\<exists>key. me_path (?entries ! n) = fst (files_of events ! n) \<and> me_job_id (?entries ! n) = file_job_id env job n
      \<and> me_mime (?entries ! n) = fe_detect env (snd (files_of events ! n)) (Some (fst (files_of events ! n)))
      \<and> me_input (?entries ! n) = InRef (RefStaged key (Some (me_mime (?entries ! n))) (Some (fst (files_of events ! n))))
      \<and> objs' key = Some (snd (files_of events ! n))" if n: "n < xo_files out" for n
  proof -
    let ?f = "files_of events ! n"
    have "objs' (file_key env job n (fst ?f)) = Some (snd ?f)"
      using fold_put_file_lookup [OF ids, of n objs] n file_key_not_manifest [OF ids, of n] by (simp add: o)
    with n show ?thesis by (auto simp: staged_entry_def Let_def o(3) case_prod_beta)
  qed
  moreover have "key = xo_manifest out \<or> (\<exists>n < xo_files out. key = file_key env job n (fst (files_of events ! n)))"
    if "objs' key \<noteq> objs key" for key
    using fold_put_file_other [of "files_of events" env job 0 key objs] that by (auto simp: o split: if_splits)
  moreover have "objs' (xo_manifest out) = Some bytes" "length ?entries = xo_files out"
    by (simp_all add: o)
  ultimately show ?thesis using b w v o(3)
    by (intro exI [of _ b] exI [of _ f] exI [of _ summary] exI [of _ events] exI [of _ bytes] exI [of _ ?entries]) blast
qed

lemma prepare_page:
  assumes "fst (prepare from_slice env objs inp) = Inr out"
    and "blob_get env (pi_manifest inp) objs = Inr bytes" "from_slice bytes = Inr entries"
  shows "po_consumed out = min (max (pi_limit inp) 1) (length entries - pi_offset inp)
    \<and> po_consumed out = length (po_jobs out) + length (po_skipped out) + length (po_failed out)
    \<and> subseq (map (\<lambda>j. wi_job_id (cj_input j)) (po_jobs out))
        (map me_job_id (take (max (pi_limit inp) 1) (drop (pi_offset inp) entries)))"
proof -
  let ?page = "manifest_page (pi_offset inp) (pi_limit inp) entries"
  obtain rs where rs: "map (route_file env inp) ?page = map Inr rs" "po_consumed out = length rs" "po_jobs out = jobs_in rs"
    using assms(1) by (rule prepare_result) (use assms(2,3) in auto)
  have sub: "subseq (map (\<lambda>j. wi_job_id (cj_input j)) (jobs_in rs)) (map me_job_id es)"
    if "map (route_file env inp) es = map Inr rs" for es rs
    using that
  proof (induction es arbitrary: rs)
    case (Cons e es)
    then obtain r rs' where r: "rs = r # rs'" "route_file env inp e = Inr r" "map (route_file env inp) es = map Inr rs'"
      by (cases rs) auto
    with Cons.IH [of rs'] route_file_of [OF r(2)] show ?case
      by (cases r) (auto simp: route_of_def)
  qed simp
  have "length rs = length ?page" using rs(1) by (metis length_map)
  with rs(2) have "po_consumed out = min (max (pi_limit inp) 1) (length entries - pi_offset inp)"
    by (simp add: manifest_page_def min.commute)
  with sub [OF rs(1)] rs(3) prepare_consumed [OF assms(1)] show ?thesis by (simp add: manifest_page_def)
qed

text \<open>A page of the manifest is accounted for entry by entry: it covers as many entries as are left,
  at most \<open>limit\<close> and at least one, each becomes exactly one of a job, a skip and a failure, and the
  jobs have the ids and the order of their entries.\<close>

theorem prepare_accounts:
  assumes "fst (prepare from_slice env objs inp) = Inr out"
    and "blob_get env (pi_manifest inp) objs = Inr bytes" "from_slice bytes = Inr entries"
  shows "po_consumed out = min (max (pi_limit inp) 1) (length entries - pi_offset inp)
    \<and> po_consumed out = length (po_jobs out) + length (po_skipped out) + length (po_failed out)
    \<and> subseq (map (\<lambda>j. wi_job_id (cj_input j)) (po_jobs out))
        (map me_job_id (take (max (pi_limit inp) 1) (drop (pi_offset inp) entries)))"
  using assms by (rule prepare_page)

text \<open>No job of an archive starts without a place to write to: its pipeline pins one, or the request
  named host and key. Under a locked index every index step of its pipeline that names an index
  names that one, and the job writes there. The tenant context is the request's but for the index.\<close>

theorem archive_jobs_allowed:
  assumes "fst (prepare from_slice env objs inp) = Inr out" "j \<in> set (po_jobs out)"
  shows "(pins_destination (wi_pipeline (cj_input j))
        \<or> (ctx_host (wi_context (cj_input j)) \<noteq> None \<and> ctx_api_key (wi_context (cj_input j)) \<noteq> None))
    \<and> (case pi_locked_index inp of None \<Rightarrow> True
       | Some index \<Rightarrow> list_all (\<lambda>named. named = index) (step_indexes (wi_pipeline (cj_input j)))
           \<and> (if trim index = [] then True else ctx_index (wi_context (cj_input j)) = Some (trim index)))
    \<and> (wi_context (cj_input j))\<lparr>ctx_index := ctx_index (pi_context inp)\<rparr> = pi_context inp"
proof -
  obtain e where "route_file env inp e = Inr (RouteJob j)" using assms by (rule prepared_job)
  then obtain m where m: "choose_pipeline env inp e = Inr (Some m)" "wi_pipeline (cj_input j) = rm_pipeline m"
    and other: "other_index inp (rm_pipeline m) = None"
    and dest: "pins_destination (rm_pipeline m) \<or> ctx_host (pi_context inp) \<noteq> None \<and> ctx_api_key (pi_context inp) \<noteq> None"
    and ctx: "wi_context (cj_input j) = (pi_context inp)\<lparr>ctx_index := Some (file_index (pi_locked_index inp) (rm_pipeline m)
        (rm_index_pattern m) (ctx_index (pi_context inp)) (me_mime e) (fe_default_index env))\<rparr>"
    by (auto simp: route_file_def Let_def split: sum.splits option.splits if_splits)
  from other have "case pi_locked_index inp of None \<Rightarrow> True
      | Some index \<Rightarrow> list_all (\<lambda>named. named = index) (step_indexes (rm_pipeline m))"
    by (auto simp: other_index_def find_None_iff list_all_iff split: option.split)
  with m(2) dest ctx show ?thesis
    by (auto simp: file_index_def non_blank_def split: option.split)
qed

section \<open>Witnesses\<close>

definition demo_job :: uuid where
  "demo_job = replicate 36 48"

definition demo_env :: files_env where
  "demo_env = blob_env.extend (demo_blob_env OutEmpty) (files_env.fields memory_store demo_readers (demo_limits\<lparr>max_files := 5\<rparr>)
     (\<lambda>_ _. MIME_TEXT) (\<lambda>_ name. read_digits (drop 13 name) # replicate 35 48) None (\<lambda>_ _ _. NoHttpReply []) (lit ''docs''))"

lemma demo_env_fields [simp]:
  "se_put_error demo_env k = None" "se_get_error demo_env k = None" "fe_readers demo_env = demo_readers"
  "fe_limits demo_env = demo_limits\<lparr>max_files := 5\<rparr>"
  "fe_uuid5 demo_env job name = read_digits (drop 13 name) # replicate 35 48"
  by (simp_all add: demo_env_def demo_blob_env_def blob_env.defs files_env.defs)

definition demo_pipeline :: pipeline_definition where
  "demo_pipeline = \<lparr>pl_uid = lit ''p'', pl_name = lit ''p'', pl_description = None, pl_version = 1, pl_trigger = None,
     pl_steps = [], pl_builtin = False, pl_tenant_id = None\<rparr>"

definition demo_context :: meili_context where
  "demo_context = \<lparr>ctx_tenant_id = None, ctx_host = Some (lit ''h''), ctx_api_key = Some (lit ''k''), ctx_index = None,
     ctx_region = None\<rparr>"

definition demo_staged :: manifest_entry where
  "demo_staged = \<lparr>me_job_id = demo_job, me_path = [97], me_mime = MIME_TEXT, me_input = InEmpty\<rparr>"

definition demo_page :: prepare_input where
  "demo_page = \<lparr>pi_job_id = demo_job, pi_manifest = [], pi_offset = 0, pi_limit = 50, pi_context = demo_context,
     pi_forced = Some \<lparr>fp_pipeline = demo_pipeline, fp_index_pattern = None\<rparr>, pi_locked_index = Some (lit ''docs'')\<rparr>"

lemma trim_docs: "trim (lit ''docs'') = lit ''docs''"
  by (simp add: trim_def trim_start_def trim_end_def is_whitespace_def lit_def)

lemma demo_route: "\<exists>j. route_file demo_env demo_page demo_staged = Inr (RouteJob j)"
proof -
  have "step_indexes demo_pipeline = []"
    by (simp add: step_indexes_def indexer_steps_def demo_pipeline_def map_filter_simps)
  moreover have "choose_pipeline demo_env demo_page demo_staged = Inr (Some \<lparr>rm_pipeline = demo_pipeline, rm_index_pattern = None\<rparr>)"
    by (simp add: choose_pipeline_def demo_page_def)
  moreover have "ctx_host (pi_context demo_page) \<noteq> None" "ctx_api_key (pi_context demo_page) \<noteq> None"
    by (simp_all add: demo_page_def demo_context_def)
  ultimately show ?thesis by (simp add: route_file_def other_index_def bind_eq_None_conv split: option.split)
qed

lemma demo_prepare:
  "\<exists>out j. fst (prepare (\<lambda>_. Inr [demo_staged]) demo_env [[] \<mapsto> []] demo_page) = Inr out \<and> j \<in> set (po_jobs out)"
proof -
  obtain j where "route_file demo_env demo_page demo_staged = Inr (RouteJob j)" using demo_route by blast
  moreover have "blob_get demo_env (pi_manifest demo_page) [[] \<mapsto> []] = Inr []"
    by (simp add: blob_get_def demo_page_def)
  moreover have "manifest_page (pi_offset demo_page) (pi_limit demo_page) [demo_staged] = [demo_staged]"
    by (simp add: manifest_page_def demo_page_def)
  ultimately show ?thesis by (simp add: prepare_def add_route_def)
qed

theorem archive_jobs_allowed_witness:
  "\<exists>j :: child_job. list_all (\<lambda>named. named = lit ''docs'') (step_indexes (wi_pipeline (cj_input j)))
     \<and> ctx_index (wi_context (cj_input j)) = Some (lit ''docs'')"
proof -
  obtain out j where "fst (prepare (\<lambda>_. Inr [demo_staged]) demo_env [[] \<mapsto> []] demo_page) = Inr out" "j \<in> set (po_jobs out)"
    using demo_prepare by blast
  from archive_jobs_allowed [OF this] show ?thesis
    by (intro exI [of _ j]) (simp add: demo_page_def trim_docs)
qed

theorem prepare_accounts_witness:
  "\<exists>out :: prepare_output. po_consumed out = 1 \<and> po_consumed out = length (po_jobs out) + length (po_skipped out) + length (po_failed out)"
proof -
  obtain out j where o: "fst (prepare (\<lambda>_. Inr [demo_staged]) demo_env [[] \<mapsto> []] demo_page) = Inr out" "j \<in> set (po_jobs out)"
    using demo_prepare by blast
  have "blob_get demo_env (pi_manifest demo_page) [[] \<mapsto> []] = Inr []"
    by (simp add: blob_get_def demo_page_def)
  from prepare_accounts [OF o(1) this refl] show ?thesis by (auto simp: demo_page_def)
qed

text \<open>The manifest of the one archive, serialized.\<close>

definition demo_entries :: "manifest_entry list" where
  "demo_entries = [staged_entry demo_env demo_job (0, [97], [1])]"

definition demo_to_vec :: "manifest_entry list \<Rightarrow> rstr + byte list" where
  "demo_to_vec es = (if es = demo_entries then Inr [7] else Inl [])"

definition demo_archive :: plugin_input where
  "demo_archive = InBytes \<lparr>blob_data = [0x50, 0x4B, 3, 4], blob_mime = [], blob_filename = None\<rparr>"

lemma demo_walk_ok:
  "walk (fe_readers demo_env) (fe_limits demo_env) (\<lambda>_ _. None) [0x50, 0x4B, 3, 4] Zip None
     = (Inr \<lparr>sum_files = 1, sum_skipped = 0, sum_bytes = 1\<rparr>, [File [97] [1]])"
  by (simp add: walk_def walk_archive_def archive_layer_def zip_layer_def zip_step_def demo_readers_def
      demo_limits_def demo_entry_def walk_bind_def walk_ok_def read_counted_def read_at_most_def new_walker_def
      yield_file_def emit_event_def Let_def nested_format_def sniff_format_def bytes_start_with_def is_tar_def bytes_lit_def)

lemma demo_expand:
  "\<exists>out objs. expand demo_to_vec demo_env demo_job demo_archive Map.empty = (Inr out, objs)"
proof -
  have f: "archive_blob demo_env Map.empty demo_archive = Inr \<lparr>blob_data = [0x50, 0x4B, 3, 4], blob_mime = [], blob_filename = None\<rparr>"
    "archive_format \<lparr>blob_data = [0x50, 0x4B, 3, 4], blob_mime = [], blob_filename = None\<rparr> = Inr Zip"
    by (simp_all add: archive_blob_def demo_archive_def archive_format_def sniff_format_def bytes_start_with_def)
  obtain x where t: "take_events demo_env demo_job [File [97] [1]] (expansion_start Map.empty) = (Inr (), x)"
    by (simp add: stage_upload_def blob_put_def Let_def)
  then have "ex_entries x = demo_entries"
    using take_events_staged [OF t] by (auto simp: expansion_start_def demo_entries_def)
  then have "\<exists>out objs. write_manifest demo_to_vec demo_env demo_job x = (Inr out, objs)"
    by (simp add: write_manifest_def demo_to_vec_def blob_put_def)
  with f t show ?thesis by (simp add: expand_def demo_walk_ok [unfolded demo_env_fields])
qed

lemma demo_uuids: "uuids_ok demo_env demo_job n"
proof -
  have "file_job_id demo_env demo_job k = k # replicate 35 48" for k
    by (simp add: file_job_id_def lit_def)
  then show ?thesis by (simp add: uuids_ok_def demo_job_def distinct_map inj_on_def)
qed

theorem expand_stages_files_witness:
  "\<exists>out objs' bytes. expand demo_to_vec demo_env demo_job demo_archive Map.empty = (Inr out, objs')
     \<and> objs' (xo_manifest out) = Some bytes \<and> xo_files out = 1 \<and> (\<exists>key. objs' key = Some [1])"
proof -
  obtain out objs' where x: "expand demo_to_vec demo_env demo_job demo_archive Map.empty = (Inr out, objs')"
    using demo_expand by blast
  from expand_stages_files [OF x demo_uuids] obtain b f summary events bytes where
    e: "archive_blob demo_env Map.empty demo_archive = Inr b" "archive_format b = Inr f"
      "walk (fe_readers demo_env) (fe_limits demo_env) (\<lambda>_ _. None) (blob_data b) f (blob_filename b) = (Inr summary, events)"
      "objs' (xo_manifest out) = Some bytes" "xo_files out = length (files_of events)"
      "\<forall>n < xo_files out. \<exists>key. objs' key = Some (snd (files_of events ! n))"
    by blast
  have "b = \<lparr>blob_data = [0x50, 0x4B, 3, 4], blob_mime = [], blob_filename = None\<rparr>"
    using e(1) by (simp add: archive_blob_def demo_archive_def)
  moreover from this have "f = Zip"
    using e(2) by (simp add: archive_format_def sniff_format_def bytes_start_with_def)
  ultimately have "events = [File [97] [1]]"
    using e(3) demo_walk_ok by simp
  with e(4-6) x show ?thesis by auto
qed

end
