(* ===== verification/Archive_Workflow.thy ===== *)
theory Archive_Workflow
  imports Archive_Files
begin

text \<open>
  \<open>crates/worker/src/archive_workflow.rs\<close>: the workflow of an archive job. It expands the archive
  once, then runs its files in waves, and continues as new after some waves with its position and
  counts. As in the pipeline workflow the model is a function of what Temporal answers. A turn of the
  loop is named by the position it starts at (every turn moves on), so the cancel signal and the
  suggestion to continue as new are functions of the position. The lemmas: a job ends; continuing as
  new changes nothing but the number of runs; every file is counted once and started at most once.
\<close>

section \<open>Inputs, outputs and the environment\<close>

definition WAVE :: nat where
  "WAVE = 50"

definition WAVES_PER_RUN :: nat where
  "WAVES_PER_RUN = 10"

definition UNPACK_STEP :: rstr where
  "UNPACK_STEP = lit ''unpack''"

record archive_batching =
  ab_wave :: nat
  ab_waves_per_run :: nat

record archive_resume =
  re_manifest :: rstr
  re_total :: nat
  re_next :: nat
  re_progress :: workflow_progress

record archive_input =
  ai_job_id :: uuid
  ai_input :: plugin_input
  ai_context :: meili_context
  ai_forced :: "forced_pipeline option"
  ai_locked_index :: "rstr option"
  ai_resume :: "archive_resume option"
  ai_batching :: "archive_batching option"

record archive_output =
  ao_job_id :: uuid
  ao_status :: job_status
  ao_archive :: archive_progress
  ao_error :: "rstr option"

text \<open>How a child workflow ended: it did not start, failed, or returned with a status.\<close>

datatype child_end = ChildNotStarted rstr | ChildFailed "failure option" rstr | ChildEnded job_status

record archive_env =
  we_expand :: "activity_error + expand_output"
  we_prepare :: "prepare_input \<Rightarrow> activity_error + prepare_output"
  we_child :: "child_job \<Rightarrow> child_end"
  we_cancel :: "nat \<Rightarrow> bool"
  we_suggest :: "nat \<Rightarrow> bool"

datatype archive_call =
    ArchStarted uuid "rstr option"
  | ArchExpand uuid plugin_input
  | ArchPrepare prepare_input
  | ArchChild child_job
  | ArchFinished uuid job_status "rstr option"

record archive_state =
  as_progress :: workflow_progress
  as_calls :: "archive_call list"

definition archive_start :: archive_state where
  "archive_start = \<lparr>as_progress = initial_progress, as_calls = []\<rparr>"

definition call :: "archive_call \<Rightarrow> archive_state \<Rightarrow> archive_state" where
  "call c st = st\<lparr>as_calls := as_calls st @ [c]\<rparr>"

definition archive_of :: "archive_state \<Rightarrow> archive_progress" where
  "archive_of st = (case wp_archive (as_progress st) of Some a \<Rightarrow> a | None \<Rightarrow> no_archive_progress)"

definition on_archive :: "(archive_progress \<Rightarrow> archive_progress) \<Rightarrow> archive_state \<Rightarrow> archive_state" where
  "on_archive f st = st\<lparr>as_progress := (as_progress st)\<lparr>wp_archive := Some (f (archive_of st))\<rparr>\<rparr>"

definition describe_activity_error :: "activity_error \<Rightarrow> rstr" where
  "describe_activity_error e =
     (case e of ActCancelled f d \<Rightarrow> describe_activity_failure f d | ActFailed f d \<Rightarrow> describe_activity_failure f d)"

section \<open>The steps of a run\<close>

definition expand_archive :: "archive_env \<Rightarrow> archive_input \<Rightarrow> archive_state \<Rightarrow> (rstr + expand_output) \<times> archive_state" where
  "expand_archive env inp st =
     (let st = st\<lparr>as_progress := (as_progress st)\<lparr>wp_status := Running, wp_current_step := Some UNPACK_STEP,
                  wp_archive := Some no_archive_progress\<rparr>\<rparr>;
          st = call (ArchStarted (ai_job_id inp) (Some UNPACK_STEP)) st;
          st = call (ArchExpand (ai_job_id inp) (ai_input inp)) st
      in (case we_expand env of
            Inl e \<Rightarrow> (Inl (lit ''could not read the archive: '' @ describe_activity_error e), st)
          | Inr x \<Rightarrow>
              let st = st\<lparr>as_progress := (as_progress st)\<lparr>wp_total_steps := xo_files x\<rparr>\<rparr>
              in (Inr x, on_archive (\<lambda>a.
                    let a = fold archive_skip (xo_samples x) (a\<lparr>files_total := xo_files x\<rparr>)
                    in a\<lparr>files_skipped := files_skipped a + (xo_skipped x - length (xo_samples x))\<rparr>) st)))"

definition run_file :: "archive_env \<Rightarrow> child_job \<Rightarrow> archive_file_issue option" where
  "run_file env j =
     (let failure = (\<lambda>reason. Some (file_issue (cj_path j) reason (Some (wi_job_id (cj_input j)))))
      in case we_child env j of
           ChildNotStarted e \<Rightarrow> failure (lit ''did not start: '' @ e)
         | ChildFailed f display \<Rightarrow> failure (describe_activity_failure f display)
         | ChildEnded status \<Rightarrow>
             if status = Succeeded then None else failure (lit ''ended '' @ job_status_str status))"

definition settle_file :: "archive_file_issue option \<Rightarrow> archive_progress \<Rightarrow> archive_progress" where
  "settle_file r a = (case r of None \<Rightarrow> a\<lparr>files_succeeded := files_succeeded a + 1\<rparr> | Some i \<Rightarrow> archive_fail i a)"

definition page_of :: "archive_input \<Rightarrow> rstr \<Rightarrow> nat \<Rightarrow> nat \<Rightarrow> prepare_input" where
  "page_of inp manifest next_pos wave_size = \<lparr>pi_job_id = ai_job_id inp, pi_manifest = manifest, pi_offset = next_pos,
     pi_limit = wave_size, pi_context = ai_context inp, pi_forced = ai_forced inp,
     pi_locked_index = ai_locked_index inp\<rparr>"

text \<open>One wave: what is announced, the page that is routed, its files, and the counts. The results of the
  files are joined before they are counted.\<close>

definition count_page :: "prepare_output \<Rightarrow> archive_progress \<Rightarrow> archive_progress" where
  "count_page p a =
     (let a = fold archive_fail (po_failed p) (fold archive_skip (po_skipped p) a)
      in a\<lparr>files_started := files_started a + length (po_jobs p)\<rparr>)"

definition archive_wave ::
  "archive_env \<Rightarrow> archive_input \<Rightarrow> rstr \<Rightarrow> nat \<Rightarrow> nat \<Rightarrow> nat \<Rightarrow> archive_state \<Rightarrow> (rstr + nat) \<times> archive_state" where
  "archive_wave env inp manifest n_total wave_size next_pos st =
     (let last = min (next_pos + wave_size) n_total;
          st = st\<lparr>as_progress := (as_progress st)\<lparr>wp_current_step := Some (lit ''files '' @ show_nat (next_pos + 1)
                  @ lit ''-'' @ show_nat last @ lit '' of '' @ show_nat n_total)\<rparr>\<rparr>;
          st = call (ArchPrepare (page_of inp manifest next_pos wave_size)) st
      in case we_prepare env (page_of inp manifest next_pos wave_size) of
           Inl e \<Rightarrow> (Inl (lit ''routing files '' @ show_nat (next_pos + 1) @ lit ''-'' @ show_nat last
                       @ lit '' failed: '' @ describe_activity_error e), st)
         | Inr p \<Rightarrow>
             if po_consumed p = 0
             then (Inl (lit ''the archive manifest ended at file '' @ show_nat next_pos @ lit '' of '' @ show_nat n_total), st)
             else
               let st = on_archive (count_page p) st;
                   st = fold (\<lambda>j. call (ArchChild j)) (po_jobs p) st;
                   st = on_archive (fold settle_file (map (run_file env) (po_jobs p))) st;
                   next_pos = next_pos + po_consumed p
               in (Inr next_pos, st\<lparr>as_progress := (as_progress st)\<lparr>wp_completed_steps := next_pos\<rparr>\<rparr>))"

lemma archive_wave_moves: "archive_wave env inp m n w k st = (Inr k', st') \<Longrightarrow> k < k'"
  by (auto simp: archive_wave_def Let_def split: sum.splits if_splits)

section \<open>A run\<close>

text \<open>How the loop of a run ends; a run that continues as new ends with its position instead.\<close>

datatype loop_end = LoopDone | LoopCancelled | LoopFailed rstr

definition signal :: "bool \<Rightarrow> archive_state \<Rightarrow> archive_state" where
  "signal c st = st\<lparr>as_progress := (as_progress st)\<lparr>wp_cancel_requested := wp_cancel_requested (as_progress st) \<or> c\<rparr>\<rparr>"

function archive_loop ::
  "archive_env \<Rightarrow> archive_input \<Rightarrow> rstr \<Rightarrow> nat \<Rightarrow> nat \<Rightarrow> nat \<Rightarrow> nat \<Rightarrow> nat \<Rightarrow> archive_state
   \<Rightarrow> (loop_end + nat) \<times> archive_state" where
  "archive_loop env inp m n_total wave_size per_run waves next_pos st =
     (let st = signal (we_cancel env next_pos) st in
      if n_total \<le> next_pos
      then (Inl (if wp_cancel_requested (as_progress st) then LoopCancelled else LoopDone), st)
      else if wp_cancel_requested (as_progress st) then (Inl LoopCancelled, st)
      else if per_run \<le> waves \<or> (0 < waves \<and> we_suggest env next_pos) then (Inr next_pos, st)
      else (case archive_wave env inp m n_total wave_size next_pos st of
              (Inl msg, st) \<Rightarrow> (Inl (LoopFailed msg), st)
            | (Inr next_pos', st) \<Rightarrow> archive_loop env inp m n_total wave_size per_run (waves + 1) next_pos' st))"
  by pat_completeness auto
termination
  by (relation "measure (\<lambda>(env, inp, m, n, w, p, k, next_pos, st). n - next_pos)")
    (auto dest!: archive_wave_moves [OF sym] archive_wave_moves)

declare archive_loop.simps [simp del]

definition record_finished :: "uuid \<Rightarrow> job_status \<Rightarrow> rstr option \<Rightarrow> archive_state \<Rightarrow> archive_state" where
  "record_finished job status err = call (ArchFinished job status err)"

definition fail_archive :: "uuid \<Rightarrow> rstr \<Rightarrow> archive_state \<Rightarrow> (wf_error + 'a) \<times> archive_state" where
  "fail_archive job message st =
     (let st = st\<lparr>as_progress := (as_progress st)\<lparr>wp_status := Failed, wp_error := Some message\<rparr>\<rparr>
      in (Inl (WfFailure message), record_finished job Failed (Some message) st))"

definition cancel_archive :: "uuid \<Rightarrow> archive_state \<Rightarrow> (wf_error + 'a) \<times> archive_state" where
  "cancel_archive job st =
     (let st = st\<lparr>as_progress := (as_progress st)\<lparr>wp_status := Cancelled, wp_current_step := None\<rparr>\<rparr>
      in (Inl WfCancelled, record_finished job Cancelled None st))"

definition outcome_error :: "archive_progress \<Rightarrow> rstr option" where
  "outcome_error a =
     (if 0 < files_failed a then
        (let handled = files_succeeded a + files_failed a;
             first = (case arch_failed a of [] \<Rightarrow> [] | f # _ \<Rightarrow> lit ''; first: '' @ issue_path f @ lit '': '' @ issue_reason f)
         in Some (show_nat (files_failed a) @ lit '' of '' @ show_nat handled @ lit '' files failed'' @ first))
      else if files_succeeded a = 0 then
        Some (if files_skipped a = 0 then lit ''the archive holds no files''
              else lit (''none of the archive'' @ [CHR 0x27] @ ''s files could be ingested ('') @ show_nat (files_skipped a)
                   @ lit '' skipped; see progress.archive.skipped)'')
      else None)"

definition succeed_archive :: "uuid \<Rightarrow> archive_progress \<Rightarrow> archive_state \<Rightarrow> (wf_error + archive_output) \<times> archive_state" where
  "succeed_archive job a st =
     (let st = st\<lparr>as_progress := (as_progress st)\<lparr>wp_status := Succeeded, wp_current_step := None\<rparr>\<rparr>
      in (Inr \<lparr>ao_job_id = job, ao_status = Succeeded, ao_archive = a, ao_error = None\<rparr>,
          record_finished job Succeeded None st))"

definition finish_archive :: "archive_input \<Rightarrow> loop_end \<Rightarrow> archive_state \<Rightarrow> (wf_error + archive_output) \<times> archive_state" where
  "finish_archive inp e st =
     (case e of
        LoopCancelled \<Rightarrow> cancel_archive (ai_job_id inp) st
      | LoopFailed msg \<Rightarrow> fail_archive (ai_job_id inp) msg st
      | LoopDone \<Rightarrow>
          (case outcome_error (archive_of st) of
             Some message \<Rightarrow> fail_archive (ai_job_id inp) message st
           | None \<Rightarrow> succeed_archive (ai_job_id inp) (archive_of st) st))"

text \<open>Where a run ends: with a result, or continued as new with an input.\<close>

type_synonym run_end = "(wf_error + archive_output) + archive_input"

definition after_loop ::
  "archive_input \<Rightarrow> rstr \<Rightarrow> nat \<Rightarrow> (loop_end + nat) \<times> archive_state \<Rightarrow> run_end \<times> archive_state" where
  "after_loop inp m n_total = (\<lambda>(e, st).
     (case e of
        Inl e \<Rightarrow> (let (r, st) = finish_archive inp e st in (Inl r, st))
      | Inr next_pos \<Rightarrow>
          (Inr (inp\<lparr>ai_resume := Some \<lparr>re_manifest = m, re_total = n_total, re_next = next_pos,
                  re_progress = as_progress st\<rparr>\<rparr>), st)))"

definition batch_sizes :: "archive_input \<Rightarrow> nat \<times> nat" where
  "batch_sizes inp =
     (case ai_batching inp of None \<Rightarrow> (WAVE, WAVES_PER_RUN)
      | Some b \<Rightarrow> (max (ab_wave b) 1, max (ab_waves_per_run b) 1))"

definition archive_begin ::
  "archive_env \<Rightarrow> archive_input \<Rightarrow> archive_state \<Rightarrow> (rstr + rstr \<times> nat \<times> nat) \<times> archive_state" where
  "archive_begin env inp st =
     (case ai_resume inp of
        Some r \<Rightarrow> (Inr (re_manifest r, re_total r, re_next r), st\<lparr>as_progress := re_progress r\<rparr>)
      | None \<Rightarrow> (case expand_archive env inp st of
          (Inl message, st) \<Rightarrow> (Inl message, st)
        | (Inr x, st) \<Rightarrow> (Inr (xo_manifest x, xo_files x, 0), st)))"

definition archive_run :: "archive_env \<Rightarrow> archive_input \<Rightarrow> archive_state \<Rightarrow> run_end \<times> archive_state" where
  "archive_run env inp st =
     (case archive_begin env inp st of
        (Inl message, st) \<Rightarrow> (let (r, st) = fail_archive (ai_job_id inp) message st in (Inl r, st))
      | (Inr (m, n_total, next_pos), st) \<Rightarrow>
          (let (wave_size, per_run) = batch_sizes inp
           in after_loop inp m n_total (archive_loop env inp m n_total wave_size per_run 0 next_pos st)))"

text \<open>The job: runs until one does not continue as new. A new run starts with an empty progress; the
  list of calls goes on. The result \<open>None\<close> would be a job that continues for ever.\<close>

partial_function (option) archive_job ::
  "archive_env \<Rightarrow> archive_input \<Rightarrow> archive_call list \<Rightarrow> ((wf_error + archive_output) \<times> archive_state) option" where
  "archive_job env inp calls =
     (case archive_run env inp \<lparr>as_progress = initial_progress, as_calls = calls\<rparr> of
        (Inl r, st) \<Rightarrow> Some (r, st)
      | (Inr inp', st) \<Rightarrow> archive_job env inp' (as_calls st))"

section \<open>Continuing as new changes nothing\<close>

text \<open>The reference: the loop of a workflow whose history may grow without bound.\<close>

function plain_loop ::
  "archive_env \<Rightarrow> archive_input \<Rightarrow> rstr \<Rightarrow> nat \<Rightarrow> nat \<Rightarrow> nat \<Rightarrow> archive_state \<Rightarrow> loop_end \<times> archive_state" where
  "plain_loop env inp m n_total wave_size next_pos st =
     (let st = signal (we_cancel env next_pos) st in
      if n_total \<le> next_pos
      then (if wp_cancel_requested (as_progress st) then LoopCancelled else LoopDone, st)
      else if wp_cancel_requested (as_progress st) then (LoopCancelled, st)
      else (case archive_wave env inp m n_total wave_size next_pos st of
              (Inl msg, st) \<Rightarrow> (LoopFailed msg, st)
            | (Inr next_pos', st) \<Rightarrow> plain_loop env inp m n_total wave_size next_pos' st))"
  by pat_completeness auto
termination
  by (relation "measure (\<lambda>(env, inp, m, n, w, next_pos, st). n - next_pos)")
    (auto dest!: archive_wave_moves [OF sym] archive_wave_moves)

declare plain_loop.simps [simp del]

definition archive_plain ::
  "archive_env \<Rightarrow> archive_input \<Rightarrow> archive_call list \<Rightarrow> (wf_error + archive_output) \<times> archive_state" where
  "archive_plain env inp calls =
     (case archive_begin env inp \<lparr>as_progress = initial_progress, as_calls = calls\<rparr> of
        (Inl message, st) \<Rightarrow> fail_archive (ai_job_id inp) message st
      | (Inr (m, n_total, next_pos), st) \<Rightarrow>
          (let (e, st) = plain_loop env inp m n_total (fst (batch_sizes inp)) next_pos st in finish_archive inp e st))"

lemma signal_signal [simp]: "signal c (signal c st) = signal c st"
  by (simp add: signal_def)

lemma plain_loop_signal:
  "plain_loop env inp m n w k (signal (we_cancel env k) st) = plain_loop env inp m n w k st"
  by (simp add: plain_loop.simps [of _ _ _ _ _ k])

lemma archive_loop_plain:
  "archive_loop env inp m n w per_run waves k st = (r, st') \<Longrightarrow>
     (case r of
        Inl e \<Rightarrow> plain_loop env inp m n w k st = (e, st')
      | Inr k' \<Rightarrow> k \<le> k' \<and> k' < n \<and> (waves = 0 \<longrightarrow> 0 < per_run \<longrightarrow> k < k')
                  \<and> plain_loop env inp m n w k st = plain_loop env inp m n w k' st')"
proof (induction env inp m n w per_run waves k st arbitrary: r st' rule: archive_loop.induct)
  case (1 env inp m n w per_run waves k st)
  let ?st = "signal (we_cancel env k) st"
  note unroll = archive_loop.simps [of env inp m n w per_run waves k st] plain_loop.simps [of env inp m n w k st]
  consider "n \<le> k \<or> wp_cancel_requested (as_progress ?st)"
    | "\<not> n \<le> k" "\<not> wp_cancel_requested (as_progress ?st)" "per_run \<le> waves \<or> (0 < waves \<and> we_suggest env k)"
    | "\<not> n \<le> k" "\<not> wp_cancel_requested (as_progress ?st)" "\<not> (per_run \<le> waves \<or> (0 < waves \<and> we_suggest env k))"
    by blast
  then show ?case
  proof cases
    case 1
    with "1.prems" show ?thesis by (auto simp: unroll Let_def split: if_splits)
  next
    case 2
    with "1.prems" have "r = Inr k" "st' = ?st" by (auto simp: unroll(1) Let_def split: if_splits)
    with 2 show ?thesis by (auto simp: plain_loop_signal)
  next
    case 3
    show ?thesis
    proof (cases "archive_wave env inp m n w k ?st")
      case (Pair q st1)
      show ?thesis
      proof (cases q)
        case (Inl msg)
        with "1.prems" 3 Pair show ?thesis by (auto simp: unroll Let_def)
      next
        case (Inr k1)
        with "1.prems" 3 Pair have l: "archive_loop env inp m n w per_run (waves + 1) k1 st1 = (r, st')"
          by (auto simp: unroll(1) Let_def)
        have "plain_loop env inp m n w k st = plain_loop env inp m n w k1 st1"
          using 3 Pair Inr by (simp add: unroll(2) Let_def)
        moreover have "k < k1" using Pair Inr archive_wave_moves by blast
        ultimately show ?thesis using "1.IH" [OF refl 3 Pair [symmetric] Inr l] by (auto split: sum.splits)
      qed
    qed
  qed
qed

lemma resume_simps [simp]:
  "ai_job_id (inp\<lparr>ai_resume := r\<rparr>) = ai_job_id inp"
  "archive_wave env (inp\<lparr>ai_resume := r\<rparr>) = archive_wave env inp"
  "batch_sizes (inp\<lparr>ai_resume := r\<rparr>) = batch_sizes inp"
  "finish_archive (inp\<lparr>ai_resume := r\<rparr>) = finish_archive inp"
  by (simp_all add: archive_wave_def page_of_def batch_sizes_def finish_archive_def fun_eq_iff split: loop_end.split option.split)

lemma plain_loop_resume [simp]: "plain_loop env (inp\<lparr>ai_resume := r\<rparr>) m n w k st = plain_loop env inp m n w k st"
proof (induction env inp m n w k st rule: plain_loop.induct)
  case (1 env inp m n w k st)
  show ?case
  proof (cases "archive_wave env inp m n w k (signal (we_cancel env k) st)")
    case (Pair q st1)
    with "1.IH" [OF refl _ _ Pair [symmetric]] show ?thesis
      by (cases q) (auto simp: plain_loop.simps [of _ _ _ _ _ k] Let_def)
  qed
qed

lemma state_eta [simp]: "\<lparr>as_progress = as_progress st, as_calls = as_calls st\<rparr> = (st :: archive_state)"
  by simp

lemma batch_sizes_positive: "0 < fst (batch_sizes inp)" "0 < snd (batch_sizes inp)"
  by (auto simp: batch_sizes_def WAVE_def WAVES_PER_RUN_def split: option.split)

lemma archive_run_step:
  assumes "archive_begin env inp \<lparr>as_progress = initial_progress, as_calls = calls\<rparr> = (Inr (m, n, k), st)"
    and "plain_loop env inp m n (fst (batch_sizes inp)) k st = (e, st')"
    and IH: "\<And>k' st1. k < k' \<Longrightarrow> k' < n \<Longrightarrow> plain_loop env inp m n (fst (batch_sizes inp)) k' st1 = (e, st')
      \<Longrightarrow> archive_job env (inp\<lparr>ai_resume := Some \<lparr>re_manifest = m, re_total = n, re_next = k', re_progress = as_progress st1\<rparr>\<rparr>)
            (as_calls st1) = Some (finish_archive inp e st')"
  shows "archive_job env inp calls = Some (finish_archive inp e st')"
proof -
  obtain w per_run where b: "batch_sizes inp = (w, per_run)" by (cases "batch_sizes inp")
  then have pos: "0 < per_run" using batch_sizes_positive(2) [of inp] by simp
  obtain r st1 where l: "archive_loop env inp m n w per_run 0 k st = (r, st1)"
    by (cases "archive_loop env inp m n w per_run 0 k st")
  note p = archive_loop_plain [OF l]
  show ?thesis
  proof (cases r)
    case (Inl e1)
    with p assms(2) b have "e1 = e" "st1 = st'" by auto
    with Inl l b assms(1) show ?thesis
      by (subst archive_job.simps) (simp add: archive_run_def after_loop_def case_prod_beta)
  next
    case (Inr k')
    with p assms(2) b pos have "k < k'" "k' < n" "plain_loop env inp m n (fst (batch_sizes inp)) k' st1 = (e, st')"
      by auto
    from IH [OF this] Inr l b assms(1) show ?thesis
      by (subst archive_job.simps) (simp add: archive_run_def after_loop_def case_prod_beta)
  qed
qed

lemma archive_job_resumed:
  assumes "ai_resume inp = Some r"
    and "plain_loop env inp (re_manifest r) (re_total r) (fst (batch_sizes inp)) (re_next r)
           \<lparr>as_progress = re_progress r, as_calls = calls\<rparr> = (e, st')"
  shows "archive_job env inp calls = Some (finish_archive inp e st')"
  using assms
proof (induction "re_total r - re_next r" arbitrary: inp r calls rule: less_induct)
  case less
  show ?case
  proof (rule archive_run_step)
    show "archive_begin env inp \<lparr>as_progress = initial_progress, as_calls = calls\<rparr>
        = (Inr (re_manifest r, re_total r, re_next r), \<lparr>as_progress = re_progress r, as_calls = calls\<rparr>)"
      using less.prems(1) by (simp add: archive_begin_def)
    fix k' and st1 :: archive_state
    let ?r = "\<lparr>re_manifest = re_manifest r, re_total = re_total r, re_next = k', re_progress = as_progress st1\<rparr>"
    assume k: "re_next r < k'" "k' < re_total r"
      and p: "plain_loop env inp (re_manifest r) (re_total r) (fst (batch_sizes inp)) k' st1 = (e, st')"
    have "archive_job env (inp\<lparr>ai_resume := Some ?r\<rparr>) (as_calls st1) = Some (finish_archive (inp\<lparr>ai_resume := Some ?r\<rparr>) e st')"
      by (rule less.hyps [of ?r]) (use k p in simp_all)
    then show "archive_job env (inp\<lparr>ai_resume := Some ?r\<rparr>) (as_calls st1) = Some (finish_archive inp e st')" by simp
  qed (rule less.prems(2))
qed

lemma archive_job_plain: "archive_job env inp calls = Some (archive_plain env inp calls)"
proof (cases "archive_begin env inp \<lparr>as_progress = initial_progress, as_calls = calls\<rparr>")
  case (Pair b st)
  show ?thesis
  proof (cases b)
    case (Inl message)
    with Pair show ?thesis
      by (subst archive_job.simps) (simp add: archive_run_def archive_plain_def case_prod_beta)
  next
    case (Inr t)
    obtain m n k where t: "t = (m, n, k)" by (cases t)
    obtain e st' where p: "plain_loop env inp m n (fst (batch_sizes inp)) k st = (e, st')"
      by (cases "plain_loop env inp m n (fst (batch_sizes inp)) k st")
    have "archive_job env inp calls = Some (finish_archive inp e st')"
    proof (rule archive_run_step [OF Pair [unfolded Inr t] p])
      fix k' and st1 :: archive_state
      let ?r = "\<lparr>re_manifest = m, re_total = n, re_next = k', re_progress = as_progress st1\<rparr>"
      assume "plain_loop env inp m n (fst (batch_sizes inp)) k' st1 = (e, st')"
      then show "archive_job env (inp\<lparr>ai_resume := Some ?r\<rparr>) (as_calls st1) = Some (finish_archive inp e st')"
        using archive_job_resumed [of "inp\<lparr>ai_resume := Some ?r\<rparr>" ?r env "as_calls st1" e st'] by simp
    qed
    with Pair Inr t p show ?thesis by (simp add: archive_plain_def)
  qed
qed

section \<open>Every file is counted once\<close>

definition started_jobs :: "archive_call list \<Rightarrow> child_job list" where
  "started_jobs = List.map_filter (\<lambda>c. case c of ArchChild j \<Rightarrow> Some j | _ \<Rightarrow> None)"

definition job_ids :: "child_job list \<Rightarrow> uuid list" where
  "job_ids js = map (\<lambda>j. wi_job_id (cj_input j)) js"

lemma started_jobs_simps [simp]:
  "started_jobs [] = []" "started_jobs (cs @ ds) = started_jobs cs @ started_jobs ds"
  "started_jobs (c # cs) = (case c of ArchChild j \<Rightarrow> [j] | _ \<Rightarrow> []) @ started_jobs cs"
  by (simp_all add: started_jobs_def map_filter_def split: archive_call.split)

lemma job_ids_simps [simp]: "job_ids [] = []" "job_ids (js @ ks) = job_ids js @ job_ids ks" "length (job_ids js) = length js"
  by (simp_all add: job_ids_def)

lemma state_simps [simp]:
  "as_calls (call c st) = as_calls st @ [c]" "archive_of (call c st) = archive_of st"
  "as_calls (on_archive f st) = as_calls st" "archive_of (on_archive f st) = f (archive_of st)"
  "as_calls (signal b st) = as_calls st" "archive_of (signal b st) = archive_of st"
  by (simp_all add: call_def on_archive_def signal_def archive_of_def)

lemma archive_of_progress [simp]:
  "archive_of (st\<lparr>as_progress := (as_progress st)\<lparr>wp_current_step := x\<rparr>\<rparr>) = archive_of st"
  "archive_of (st\<lparr>as_progress := (as_progress st)\<lparr>wp_completed_steps := n\<rparr>\<rparr>) = archive_of st"
  "archive_of (st\<lparr>as_progress := (as_progress st)\<lparr>wp_total_steps := n\<rparr>\<rparr>) = archive_of st"
  "archive_of (st\<lparr>as_progress := p\<lparr>wp_archive := Some a\<rparr>\<rparr>) = a"
  by (simp_all add: archive_of_def)

lemma fold_call [simp]:
  "started_jobs (as_calls (fold (\<lambda>j. call (ArchChild j)) js st)) = started_jobs (as_calls st) @ js"
  "archive_of (fold (\<lambda>j. call (ArchChild j)) js st) = archive_of st"
  by (induction js arbitrary: st) simp_all

definition counted :: "archive_progress \<Rightarrow> nat" where
  "counted a = files_succeeded a + files_failed a + files_skipped a"

lemma counted_fold [simp]:
  "counted (fold archive_skip is a) = counted a + length is"
  "files_failed (fold archive_skip is a) = files_failed a"
  "files_succeeded (fold archive_skip is a) = files_succeeded a"
  "files_skipped (fold archive_skip is a) = files_skipped a + length is"
  by (induction "is" arbitrary: a) (simp_all add: counted_def)

lemma counted_fail [simp]:
  "counted (fold archive_fail is a) = counted a + length is"
  "files_failed (fold archive_fail is a) = files_failed a + length is"
  by (induction "is" arbitrary: a) (simp_all add: counted_def)

lemma counted_settle:
  "counted (fold settle_file rs a) = counted a + length rs"
  "files_failed (fold settle_file rs a) = files_failed a + length (filter (\<lambda>r. r \<noteq> None) rs)"
proof (induction rs arbitrary: a)
  case (Cons r rs)
  { case 1 show ?case using Cons(1) [of "settle_file r a"] by (cases r) (simp_all add: settle_file_def counted_def) }
  { case 2 show ?case using Cons(2) [of "settle_file r a"] by (cases r) (simp_all add: settle_file_def) }
qed simp_all

lemma counted_page: "counted (count_page p a) = counted a + length (po_skipped p) + length (po_failed p)"
proof -
  have "counted (a\<lparr>files_started := n\<rparr>) = counted a" for a n by (simp add: counted_def)
  then show ?thesis by (simp add: count_page_def Let_def)
qed

lemma expand_archive_ok:
  assumes "we_expand env = Inr x"
  shows "fst (expand_archive env inp st) = Inr x"
    "started_jobs (as_calls (snd (expand_archive env inp st))) = started_jobs (as_calls st)"
    "files_failed (archive_of (snd (expand_archive env inp st))) = 0"
    "counted (archive_of (snd (expand_archive env inp st))) = max (xo_skipped x) (length (xo_samples x))"
  by (simp_all add: expand_archive_def Let_def assms counted_def no_archive_progress_def)

text \<open>What the workflow relies on: a page of the manifest covers the entries after the offset, each of
  which becomes a job, a skip or a failure, and the jobs keep the order of their entries.\<close>

locale manifest_pages =
  fixes manifest :: rstr and ids :: "uuid list" and answer :: "prepare_input \<Rightarrow> activity_error + prepare_output"
  assumes page: "answer p = Inr out \<Longrightarrow> pi_manifest p = manifest \<Longrightarrow>
      po_consumed out = min (max (pi_limit p) 1) (length ids - pi_offset p)
      \<and> po_consumed out = length (po_jobs out) + length (po_skipped out) + length (po_failed out)
      \<and> subseq (job_ids (po_jobs out)) (take (max (pi_limit p) 1) (drop (pi_offset p) ids))"
begin

text \<open>Before the turn at position \<open>k\<close>: \<open>k\<close> files are counted on top of \<open>base\<close>, and the jobs started are
  among the first \<open>k\<close>, in order. While no file failed, every job started succeeded.\<close>

definition turn_ok :: "archive_env \<Rightarrow> nat \<Rightarrow> nat \<Rightarrow> archive_state \<Rightarrow> bool" where
  "turn_ok env base k st \<longleftrightarrow> k \<le> length ids \<and> counted (archive_of st) = base + k
     \<and> subseq (job_ids (started_jobs (as_calls st))) (take k ids)
     \<and> (files_failed (archive_of st) = 0 \<longrightarrow> (\<forall>j \<in> set (started_jobs (as_calls st)). run_file env j = None))"

lemma turn_ok_signal [simp]: "turn_ok env base k (signal c st) = turn_ok env base k st"
  by (simp add: turn_ok_def)

lemma page_wave_ok:
  assumes "archive_wave env inp manifest (length ids) w k st = (q, st')" "we_prepare env = answer" "turn_ok env base k st"
  shows "case q of Inl _ \<Rightarrow> turn_ok env base k st' | Inr k' \<Rightarrow> turn_ok env base k' st' \<and> k' \<le> k + max w 1"
proof (cases "answer (page_of inp manifest k w)")
  case (Inl e)
  with assms have "q = Inl (lit ''routing files '' @ show_nat (k + 1) @ lit ''-'' @ show_nat (min (k + w) (length ids))
      @ lit '' failed: '' @ describe_activity_error e)" "archive_of st' = archive_of st"
    "started_jobs (as_calls st') = started_jobs (as_calls st)"
    by (auto simp: archive_wave_def Let_def)
  with assms(3) show ?thesis by (simp add: turn_ok_def)
next
  case (Inr p)
  have k: "k \<le> length ids" using assms(3) by (simp add: turn_ok_def)
  from page [OF Inr] have c: "po_consumed p = min (max w 1) (length ids - k)"
    "po_consumed p = length (po_jobs p) + length (po_skipped p) + length (po_failed p)"
    "subseq (job_ids (po_jobs p)) (take (max w 1) (drop k ids))"
    by (simp_all add: page_of_def)
  show ?thesis
  proof (cases "po_consumed p = 0")
    case True
    with assms Inr have "q = Inl (lit ''the archive manifest ended at file '' @ show_nat k @ lit '' of '' @ show_nat (length ids))"
      "archive_of st' = archive_of st" "started_jobs (as_calls st') = started_jobs (as_calls st)"
      by (auto simp: archive_wave_def Let_def)
    with assms(3) show ?thesis by (simp add: turn_ok_def)
  next
    case False
    let ?results = "map (run_file env) (po_jobs p)"
    from False assms(1,2) Inr have q: "q = Inr (k + po_consumed p)"
      and a: "archive_of st' = fold settle_file ?results (count_page p (archive_of st))"
      and j: "started_jobs (as_calls st') = started_jobs (as_calls st) @ po_jobs p"
      by (auto simp: archive_wave_def Let_def)
    have "take (k + po_consumed p) ids = take k ids @ take (max w 1) (drop k ids)"
      unfolding c(1) by (auto simp: take_add min_def)
    then have "subseq (job_ids (started_jobs (as_calls st'))) (take (k + po_consumed p) ids)"
      using assms(3) c(3) by (simp add: j turn_ok_def list_emb_append_mono)
    moreover have "counted (archive_of st') = base + (k + po_consumed p)"
      using assms(3) c(2) by (simp add: a turn_ok_def counted_settle counted_page)
    moreover have "\<forall>j \<in> set (started_jobs (as_calls st')). run_file env j = None" if "files_failed (archive_of st') = 0"
    proof -
      from that have "files_failed (archive_of st) = 0" "length (filter (\<lambda>r. r \<noteq> None) ?results) = 0"
        unfolding a counted_settle by (simp_all add: count_page_def Let_def)
      then show ?thesis using assms(3) by (auto simp: j turn_ok_def filter_empty_conv)
    qed
    moreover have "k + po_consumed p \<le> length ids" using k c(1) by simp
    ultimately show ?thesis using q c(1) by (simp add: turn_ok_def)
  qed
qed

lemma plain_loop_ok:
  assumes "plain_loop env inp manifest (length ids) w k st = (e, st')" "we_prepare env = answer" "turn_ok env base k st"
  shows "\<exists>k'. turn_ok env base k' st' \<and> k \<le> k' \<and> (e = LoopDone \<longrightarrow> k' = length ids \<and> \<not> we_cancel env k') \<and> (we_cancel env k \<longrightarrow> k' = k)
    \<and> (\<forall>c. k \<le> c \<longrightarrow> (\<forall>i \<ge> c. we_cancel env i) \<longrightarrow> k' < c + max w 1)"
  using assms
proof (induction "length ids - k" arbitrary: k st rule: less_induct)
  case less
  let ?st = "signal (we_cancel env k) st"
  note unroll = plain_loop.simps [of env inp manifest "length ids" w k st]
  have here: ?case if "turn_ok env base k st'" "e = LoopDone \<Longrightarrow> k = length ids \<and> \<not> we_cancel env k"
    using that by (intro exI [of _ k]) auto
  show ?case
  proof (cases "length ids \<le> k \<or> wp_cancel_requested (as_progress ?st)")
    case True
    with less.prems have "st' = ?st" "e = LoopDone \<Longrightarrow> k = length ids \<and> \<not> we_cancel env k"
      by (auto simp: unroll Let_def turn_ok_def signal_def split: if_splits)
    with less.prems(3) show ?thesis by (intro here) auto
  next
    case False
    obtain q st1 where w: "archive_wave env inp manifest (length ids) w k ?st = (q, st1)"
      by (cases "archive_wave env inp manifest (length ids) w k ?st")
    from page_wave_ok [OF w less.prems(2)] less.prems(3)
    have ok: "case q of Inl _ \<Rightarrow> turn_ok env base k st1 | Inr k1 \<Rightarrow> turn_ok env base k1 st1 \<and> k1 \<le> k + max w 1"
      by simp
    show ?thesis
    proof (cases q)
      case (Inl msg)
      with False w less.prems(1) have "e = LoopFailed msg" "st' = st1" by (auto simp: unroll Let_def)
      with here ok Inl show ?thesis by simp
    next
      case (Inr k1)
      with False w less.prems(1) have l: "plain_loop env inp manifest (length ids) w k1 st1 = (e, st')"
        by (auto simp: unroll Let_def)
      have k: "k < k1" using w Inr archive_wave_moves by blast
      have cancel: "\<not> we_cancel env k" using False by (auto simp: signal_def)
      have m: "length ids - k1 < length ids - k" using k False by (intro diff_less_mono2) auto
      obtain k' where k': "turn_ok env base k' st'" "k1 \<le> k'" "e = LoopDone \<longrightarrow> k' = length ids \<and> \<not> we_cancel env k'" "we_cancel env k1 \<longrightarrow> k' = k1"
        "\<forall>c. k1 \<le> c \<longrightarrow> (\<forall>i \<ge> c. we_cancel env i) \<longrightarrow> k' < c + max w 1"
        using less.hyps [OF m l less.prems(2)] ok Inr by auto
      have "k' < c + max w 1" if c: "k \<le> c" "\<forall>i \<ge> c. we_cancel env i" for c
      proof (cases "k1 \<le> c")
        case True
        with k'(5) c(2) show ?thesis by blast
      next
        case False
        have "k \<noteq> c" using cancel c(2) by auto
        moreover have "k' = k1" using k'(4) c(2) False by simp
        ultimately show ?thesis using c(1) ok Inr by simp
      qed
      with k' k cancel show ?thesis by (intro exI [of _ k']) auto
    qed
  qed
qed

text \<open>A job from its beginning: where its loop ended, and what it returned.\<close>

lemma fresh_job_ok:
  assumes "ai_resume inp = None" "we_expand env = Inr x" "xo_manifest x = manifest" "xo_files x = length ids"
    and "we_prepare env = answer" "archive_job env inp [] = Some (r, st)"
  obtains k e st' where "turn_ok env (max (xo_skipped x) (length (xo_samples x))) k st'"
    "e = LoopDone \<Longrightarrow> k = length ids \<and> \<not> we_cancel env k"
    "\<And>c. (\<forall>i \<ge> c. we_cancel env i) \<Longrightarrow> k < c + fst (batch_sizes inp)"
    "(r, st) = finish_archive inp e st'"
proof -
  let ?w = "fst (batch_sizes inp)"
  define st0 where "st0 = snd (expand_archive env inp \<lparr>as_progress = initial_progress, as_calls = []\<rparr>)"
  note st0 = expand_archive_ok(2-4) [OF assms(2), of inp "\<lparr>as_progress = initial_progress, as_calls = []\<rparr>", folded st0_def]
  have b: "archive_begin env inp \<lparr>as_progress = initial_progress, as_calls = []\<rparr> = (Inr (manifest, length ids, 0), st0)"
    using assms(1,3,4) expand_archive_ok(1) [OF assms(2), of inp "\<lparr>as_progress = initial_progress, as_calls = []\<rparr>"]
    by (simp add: archive_begin_def st0_def case_prod_beta)
  obtain e st' where l: "plain_loop env inp manifest (length ids) ?w 0 st0 = (e, st')"
    by (cases "plain_loop env inp manifest (length ids) ?w 0 st0")
  have "turn_ok env (max (xo_skipped x) (length (xo_samples x))) 0 st0" using st0 by (simp add: turn_ok_def)
  from plain_loop_ok [OF l assms(5) this] obtain k where k: "turn_ok env (max (xo_skipped x) (length (xo_samples x))) k st'"
    "e = LoopDone \<longrightarrow> k = length ids \<and> \<not> we_cancel env k"
    "\<forall>c. (\<forall>i \<ge> c. we_cancel env i) \<longrightarrow> k < c + max ?w 1"
    by auto
  moreover have "max ?w 1 = ?w" using batch_sizes_positive(1) [of inp] by simp
  moreover have "(r, st) = finish_archive inp e st'"
    using assms(6) by (simp add: archive_job_plain archive_plain_def b l)
  ultimately show thesis using that by metis
qed

end

lemma finish_archive_jobs: "(r, st) = finish_archive inp e st' \<Longrightarrow> started_jobs (as_calls st) = started_jobs (as_calls st')"
  by (auto simp: finish_archive_def cancel_archive_def fail_archive_def succeed_archive_def record_finished_def call_def
      started_jobs_def map_filter_def Let_def split: loop_end.splits option.splits)

lemma finish_archive_success:
  "(Inr out, st) = finish_archive inp e st' \<Longrightarrow>
     e = LoopDone \<and> ao_archive out = archive_of st' \<and> files_failed (archive_of st') = 0 \<and> 0 < files_succeeded (archive_of st')"
  by (auto simp: finish_archive_def cancel_archive_def fail_archive_def succeed_archive_def outcome_error_def Let_def
      split: loop_end.splits option.splits if_splits)

lemma run_file_None: "run_file env j = None \<longleftrightarrow> we_child env j = ChildEnded Succeeded"
  by (auto simp: run_file_def Let_def split: child_end.split)

text \<open>The pages the workflow relies on are those of \<open>prepare\<close>. Temporal turns an error of the activity
  into one of its own.\<close>

definition prepare_answer ::
  "(byte list \<Rightarrow> rstr + manifest_entry list) \<Rightarrow> (plugin_error \<Rightarrow> activity_error) \<Rightarrow> files_env \<Rightarrow> blob_objects
   \<Rightarrow> prepare_input \<Rightarrow> activity_error + prepare_output" where
  "prepare_answer from_slice failed fenv objs p =
     (case fst (prepare from_slice fenv objs p) of Inl e \<Rightarrow> Inl (failed e) | Inr out \<Rightarrow> Inr out)"

definition manifest_ids :: "(byte list \<Rightarrow> rstr + manifest_entry list) \<Rightarrow> files_env \<Rightarrow> blob_objects \<Rightarrow> rstr \<Rightarrow> uuid list" where
  "manifest_ids from_slice fenv objs manifest =
     (case blob_get fenv manifest objs of Inl e \<Rightarrow> []
      | Inr bytes \<Rightarrow> (case from_slice bytes of Inl e \<Rightarrow> [] | Inr entries \<Rightarrow> map me_job_id entries))"

interpretation prepared: manifest_pages m "manifest_ids from_slice fenv objs m" "prepare_answer from_slice failed fenv objs"
proof unfold_locales
  fix p out
  assume a: "prepare_answer from_slice failed fenv objs p = Inr out" "pi_manifest p = m"
  then have r: "fst (prepare from_slice fenv objs p) = Inr out" by (auto simp: prepare_answer_def split: sum.splits)
  then obtain bytes entries where b: "blob_get fenv (pi_manifest p) objs = Inr bytes" "from_slice bytes = Inr entries"
    by (auto elim: prepare_result)
  then have ids: "manifest_ids from_slice fenv objs m = map me_job_id entries" using a(2) by (simp add: manifest_ids_def)
  from prepare_page [OF r b]
  show "po_consumed out = min (max (pi_limit p) 1) (length (manifest_ids from_slice fenv objs m) - pi_offset p)
      \<and> po_consumed out = length (po_jobs out) + length (po_skipped out) + length (po_failed out)
      \<and> subseq (job_ids (po_jobs out)) (take (max (pi_limit p) 1) (drop (pi_offset p) (manifest_ids from_slice fenv objs m)))"
    unfolding ids job_ids_def length_map drop_map take_map .
qed

section \<open>Properties\<close>

text \<open>C13. A job of an archive ends, however often it continues as new, and does what the workflow that
  never continues as new would do: neither the number of waves per run nor Temporal's suggestions
  change its calls, its progress or its result.\<close>

theorem archive_job_refines: "archive_job env inp calls = Some (archive_plain env inp calls)"
  by (rule archive_job_plain)

text \<open>C12. An archive job that succeeds has counted every file once: those of the manifest and the entries
  skipped while it was read are succeeded or skipped, none failed, at least one succeeded, and every
  job it started ended as succeeded. The pages are those \<open>prepare\<close> makes of the manifest.\<close>

theorem archive_success_counts:
  assumes "archive_job env inp [] = Some (Inr out, st)" "ai_resume inp = None" "we_expand env = Inr x"
    and "we_prepare env = prepare_answer from_slice failed fenv objs"
    and "xo_files x = length (manifest_ids from_slice fenv objs (xo_manifest x))"
    and "length (xo_samples x) \<le> xo_skipped x"
  shows "files_failed (ao_archive out) = 0 \<and> 0 < files_succeeded (ao_archive out)
    \<and> files_succeeded (ao_archive out) + files_skipped (ao_archive out) = xo_files x + xo_skipped x
    \<and> (\<forall>j \<in> set (started_jobs (as_calls st)). we_child env j = ChildEnded Succeeded)"
proof -
  let ?ids = "manifest_ids from_slice fenv objs (xo_manifest x)"
  obtain k e st' where ok: "prepared.turn_ok from_slice fenv objs (xo_manifest x) env (max (xo_skipped x) (length (xo_samples x))) k st'"
    and at_end: "e = LoopDone \<Longrightarrow> k = length ?ids \<and> \<not> we_cancel env k"
    and fin: "(Inr out, st) = finish_archive inp e st'"
    using prepared.fresh_job_ok [OF assms(2,3) refl assms(5,4,1)] by metis
  note s = finish_archive_success [OF fin] and j = finish_archive_jobs [OF fin]
  from s at_end have "k = xo_files x" using assms(5) by simp
  with ok s j assms(6) show ?thesis
    by (auto simp: prepared.turn_ok_def counted_def run_file_None)
qed

text \<open>However an archive job ends, it never starts a file twice, and only files of its manifest, in
  their order, across all its runs.\<close>

theorem archive_files_run_once:
  assumes "archive_job env inp [] = Some (r, st)" "ai_resume inp = None" "we_expand env = Inr x"
    and "we_prepare env = prepare_answer from_slice failed fenv objs"
    and "xo_files x = length (manifest_ids from_slice fenv objs (xo_manifest x))"
    and "distinct (manifest_ids from_slice fenv objs (xo_manifest x))"
  shows "distinct (job_ids (started_jobs (as_calls st)))
    \<and> subseq (job_ids (started_jobs (as_calls st))) (manifest_ids from_slice fenv objs (xo_manifest x))"
proof -
  let ?ids = "manifest_ids from_slice fenv objs (xo_manifest x)"
  obtain k e st' where ok: "prepared.turn_ok from_slice fenv objs (xo_manifest x) env (max (xo_skipped x) (length (xo_samples x))) k st'"
    and fin: "(r, st) = finish_archive inp e st'"
    using prepared.fresh_job_ok [OF assms(2,3) refl assms(5,4,1)] by metis
  have "subseq (job_ids (started_jobs (as_calls st'))) (take k ?ids)" using ok by (simp add: prepared.turn_ok_def)
  moreover have "subseq (take k ?ids) ?ids" by (rule prefix_imp_subseq) (rule take_is_prefix)
  ultimately have "subseq (job_ids (started_jobs (as_calls st'))) ?ids" by (rule subseq_order.trans)
  with assms(6) show ?thesis by (auto simp: finish_archive_jobs [OF fin] subseq_conv_nths)
qed

text \<open>After a cancel signal no further wave starts: if it has arrived by the turn at file \<open>c\<close>, no file
  from position \<open>c\<close> and one wave on is started, and the job does not succeed.\<close>

theorem archive_cancel_stops:
  assumes "archive_job env inp [] = Some (r, st)" "ai_resume inp = None" "we_expand env = Inr x"
    and "we_prepare env = prepare_answer from_slice failed fenv objs"
    and "xo_files x = length (manifest_ids from_slice fenv objs (xo_manifest x))"
    and "\<And>i. c \<le> i \<Longrightarrow> we_cancel env i" "c \<le> xo_files x"
  shows "subseq (job_ids (started_jobs (as_calls st)))
      (take (c + fst (batch_sizes inp) - 1) (manifest_ids from_slice fenv objs (xo_manifest x))) \<and> isl r"
proof -
  let ?ids = "manifest_ids from_slice fenv objs (xo_manifest x)"
  obtain k e st' where ok: "prepared.turn_ok from_slice fenv objs (xo_manifest x) env (max (xo_skipped x) (length (xo_samples x))) k st'"
    and at_end: "e = LoopDone \<Longrightarrow> k = length ?ids \<and> \<not> we_cancel env k"
    and le: "k < c + fst (batch_sizes inp)"
    and fin: "(r, st) = finish_archive inp e st'"
    using prepared.fresh_job_ok [OF assms(2,3) refl assms(5,4,1)] assms(6) by metis
  have "isl r"
  proof (rule ccontr)
    assume "\<not> isl r"
    then obtain out where "r = Inr out" by (cases r) auto
    with fin have "e = LoopDone" using finish_archive_success [of out st inp e st'] by simp
    with at_end assms(5,6,7) show False by auto
  qed
  moreover have "subseq (job_ids (started_jobs (as_calls st'))) (take (c + fst (batch_sizes inp) - 1) ?ids)"
  proof -
    have "take k ?ids = take k (take (c + fst (batch_sizes inp) - 1) ?ids)" using le by (simp add: min_def)
    moreover have "subseq (take k (take (c + fst (batch_sizes inp) - 1) ?ids)) (take (c + fst (batch_sizes inp) - 1) ?ids)"
      by (rule prefix_imp_subseq) (rule take_is_prefix)
    ultimately have "subseq (take k ?ids) (take (c + fst (batch_sizes inp) - 1) ?ids)" by simp
    moreover have "subseq (job_ids (started_jobs (as_calls st'))) (take k ?ids)" using ok by (simp add: prepared.turn_ok_def)
    ultimately show ?thesis by (metis subseq_order.trans)
  qed
  ultimately show ?thesis by (simp add: finish_archive_jobs [OF fin])
qed

section \<open>Witnesses\<close>

definition demo_expanded :: expand_output where
  "demo_expanded = \<lparr>xo_manifest = [], xo_files = 1, xo_skipped = 0, xo_samples = []\<rparr>"

definition demo_archive_input :: archive_input where
  "demo_archive_input = \<lparr>ai_job_id = demo_job, ai_input = demo_archive, ai_context = demo_context,
     ai_forced = Some \<lparr>fp_pipeline = demo_pipeline, fp_index_pattern = None\<rparr>, ai_locked_index = Some (lit ''docs''),
     ai_resume = None, ai_batching = None\<rparr>"

definition demo_slice :: "byte list \<Rightarrow> rstr + manifest_entry list" where
  "demo_slice = (\<lambda>_. Inr [demo_staged])"

definition demo_archive_env :: "bool \<Rightarrow> archive_env" where
  "demo_archive_env cancelled = \<lparr>we_expand = Inr demo_expanded,
     we_prepare = prepare_answer demo_slice (\<lambda>_. ActFailed None []) demo_env [[] \<mapsto> []],
     we_child = (\<lambda>_. ChildEnded Succeeded), we_cancel = (\<lambda>_. cancelled), we_suggest = (\<lambda>_. False)\<rparr>"

lemma demo_manifest_ids: "manifest_ids demo_slice demo_env [[] \<mapsto> []] [] = [demo_job]"
  by (simp add: manifest_ids_def blob_get_def demo_slice_def demo_staged_def)

lemma demo_env_simps:
  "we_expand (demo_archive_env b) = Inr demo_expanded"
  "we_prepare (demo_archive_env b) = prepare_answer demo_slice (\<lambda>_. ActFailed None []) demo_env [[] \<mapsto> []]"
  "we_cancel (demo_archive_env b) i = b" "we_child (demo_archive_env b) j = ChildEnded Succeeded"
  "xo_manifest demo_expanded = []" "xo_files demo_expanded = 1" "xo_skipped demo_expanded = 0" "xo_samples demo_expanded = []"
  "ai_resume demo_archive_input = None" "batch_sizes demo_archive_input = (50, 10)"
  "ai_job_id demo_archive_input = demo_job"
  by (simp_all add: demo_archive_env_def demo_expanded_def demo_archive_input_def batch_sizes_def WAVE_def WAVES_PER_RUN_def)

lemma demo_answer:
  "\<exists>j. prepare_answer demo_slice (\<lambda>_. ActFailed None []) demo_env [[] \<mapsto> []] (page_of demo_archive_input [] 0 50)
     = Inr \<lparr>po_consumed = 1, po_jobs = [j], po_skipped = [], po_failed = []\<rparr>"
proof -
  have p: "page_of demo_archive_input [] 0 50 = demo_page"
    by (simp add: page_of_def demo_archive_input_def demo_page_def)
  obtain j where "route_file demo_env demo_page demo_staged = Inr (RouteJob j)" using demo_route by blast
  moreover have "blob_get demo_env (pi_manifest demo_page) [[] \<mapsto> []] = Inr []"
    by (simp add: blob_get_def demo_page_def)
  moreover have "manifest_page (pi_offset demo_page) (pi_limit demo_page) [demo_staged] = [demo_staged]"
    by (simp add: manifest_page_def demo_page_def)
  ultimately show ?thesis by (simp add: p prepare_answer_def prepare_def demo_slice_def add_route_def)
qed

lemma demo_success: "\<exists>out st. archive_job (demo_archive_env False) demo_archive_input [] = Some (Inr out, st)"
proof -
  let ?env = "demo_archive_env False" and ?inp = demo_archive_input
  let ?st = "\<lparr>as_progress = initial_progress, as_calls = []\<rparr>"
  note x = expand_archive_ok [OF demo_env_simps(1), of False ?inp ?st]
  obtain st0 where st0: "expand_archive ?env ?inp ?st = (Inr demo_expanded, st0)" using x(1) by (metis prod.collapse)
  have "wp_cancel_requested (as_progress st0) = False" "counted (archive_of st0) = 0"
    using st0 x(4) by (auto simp: expand_archive_def demo_env_simps Let_def call_def on_archive_def initial_progress_def)
  moreover obtain j where j: "prepare_answer demo_slice (\<lambda>_. ActFailed None []) demo_env [[] \<mapsto> []] (page_of ?inp [] 0 50)
     = Inr \<lparr>po_consumed = 1, po_jobs = [j], po_skipped = [], po_failed = []\<rparr>"
    using demo_answer by blast
  moreover have "run_file ?env j = None" by (simp add: run_file_None demo_env_simps)
  ultimately have "\<exists>st1. archive_wave ?env ?inp [] 1 50 0 st0 = (Inr 1, st1) \<and> \<not> wp_cancel_requested (as_progress st1)
      \<and> files_failed (archive_of st1) = 0 \<and> 0 < files_succeeded (archive_of st1)"
    by (simp add: archive_wave_def demo_env_simps Let_def settle_file_def count_page_def counted_def)
      (simp add: on_archive_def call_def)
  then obtain st1 where st1: "archive_wave ?env ?inp [] 1 50 0 st0 = (Inr 1, st1)" "\<not> wp_cancel_requested (as_progress st1)"
    "files_failed (archive_of st1) = 0" "0 < files_succeeded (archive_of st1)"
    by blast
  have no_signal: "signal False st = st" for st by (simp add: signal_def)
  have "plain_loop ?env ?inp [] 1 50 0 st0 = (LoopDone, st1)"
    using st1(1,2) \<open>wp_cancel_requested (as_progress st0) = False\<close>
    by (simp add: plain_loop.simps [of _ _ _ _ _ 0] plain_loop.simps [of _ _ _ _ _ "Suc 0"] demo_env_simps no_signal)
  then show ?thesis using st0 st1(3,4)
    by (simp add: archive_job_plain archive_plain_def archive_begin_def demo_env_simps finish_archive_def outcome_error_def
        succeed_archive_def)
qed

theorem archive_success_counts_witness:
  "\<exists>out st. archive_job (demo_archive_env False) demo_archive_input [] = Some (Inr out, st)
     \<and> files_succeeded (ao_archive out) + files_skipped (ao_archive out) = 1"
proof -
  obtain out st where j: "archive_job (demo_archive_env False) demo_archive_input [] = Some (Inr out, st)"
    using demo_success by blast
  from archive_success_counts [OF j _ demo_env_simps(1,2)] j show ?thesis
    by (simp add: demo_env_simps demo_manifest_ids)
qed

theorem archive_files_run_once_witness:
  "\<exists>r st. archive_job (demo_archive_env False) demo_archive_input [] = Some (r, st)
     \<and> distinct (job_ids (started_jobs (as_calls st)))"
proof -
  obtain r st where j: "archive_job (demo_archive_env False) demo_archive_input [] = Some (r, st)"
    using demo_success by blast
  from archive_files_run_once [OF j _ demo_env_simps(1,2)] j show ?thesis
    by (simp add: demo_env_simps demo_manifest_ids)
qed

theorem archive_cancel_stops_witness:
  "\<exists>r st. archive_job (demo_archive_env True) demo_archive_input [] = Some (r, st) \<and> isl r"
proof -
  obtain r st where j: "archive_job (demo_archive_env True) demo_archive_input [] = Some (r, st)"
    by (metis archive_job_plain prod.collapse)
  from archive_cancel_stops [OF j _ demo_env_simps(1,2), of 0] j show ?thesis
    by (simp add: demo_env_simps demo_manifest_ids)
qed

end
