(* ===== verification/Source_Template.thy ===== *)
theory Source_Template
  imports Host_Policy
begin

text \<open>
  \<open>crates/source/src/template.rs\<close>: the URL of a source is rendered against the scheduled time of the
  run. Strings are split at bytes in the code; a split inside a character panics, which the model
  keeps. The \<open>chrono\<close> library is a parameter: which durations exist, adding one to a time (\<open>None\<close> is
  its panic on overflow), and formatting (\<open>None\<close> is the panic of \<open>to_string\<close> on a format string it
  does not know). The lemmas: a template is its literal parts with each token replaced by its value,
  and which templates panic instead of being refused.
\<close>

section \<open>Finding and splitting\<close>

text \<open>The parts before and after the first occurrence of a pattern: \<open>find\<close> and the two slices.\<close>

fun split_str :: "rstr \<Rightarrow> rstr \<Rightarrow> (rstr \<times> rstr) option" where
  "split_str p [] = (if p = [] then Some ([], []) else None)"
| "split_str p (c # s) =
     (if starts_with (c # s) p then Some ([], drop (length p) (c # s))
      else map_option (\<lambda>(a, b). (c # a, b)) (split_str p s))"

lemma split_str_Some: "split_str p s = Some (a, b) \<Longrightarrow> s = a @ p @ b"
proof (induction s arbitrary: a)
  case (Cons c s)
  then show ?case by (auto simp: starts_with_def split: if_splits) (metis append_take_drop_id)
qed (simp split: if_splits)

lemma split_str_length: "split_str p s = Some (a, b) \<Longrightarrow> length s = length a + length p + length b"
  by (auto dest: split_str_Some)

lemma split_str_at: "c \<notin> set a \<Longrightarrow> split_str (c # p) (a @ c # p @ b) = Some (a, b)"
  by (induction a) (auto simp: starts_with_def)

lemma split_str_none: "c \<notin> set s \<Longrightarrow> split_str (c # p) s = None"
  by (induction s) (auto simp: starts_with_def)

section \<open>Tokens\<close>

record chrono =
  ch_tz :: "rstr \<Rightarrow> nat option"
  ch_delta :: "nat \<Rightarrow> int \<Rightarrow> int option"
  ch_add :: "int \<Rightarrow> int \<Rightarrow> int option"
  ch_timestamp :: "int \<Rightarrow> int"
  ch_format :: "int \<Rightarrow> nat \<Rightarrow> rstr \<Rightarrow> rstr option"
  ch_debug :: "rstr \<Rightarrow> rstr"

definition show_int :: "int \<Rightarrow> rstr" where
  "show_int n = (if n < 0 then 45 # show_nat (nat (- n)) else show_nat (nat n))"

text \<open>\<open>str::parse::<i64>\<close>.\<close>

definition parse_i64 :: "rstr \<Rightarrow> int option" where
  "parse_i64 s =
     (let (neg, digits) = (case s of [] \<Rightarrow> (False, [])
             | c # rest \<Rightarrow> if c = 45 then (True, rest) else if c = 43 then (False, rest) else (False, s));
          n = int (read_digits digits) * (if neg then - 1 else 1)
      in if digits = [] \<or> \<not> list_all is_ascii_digit digits \<or> n < - (2 ^ 63) \<or> 2 ^ 63 \<le> n then None else Some n)"

text \<open>Offsets such as \<open>-1d\<close>, in seconds. The code splits after the first byte and before the last.\<close>

definition parse_offset :: "chrono \<Rightarrow> rstr \<Rightarrow> (source_error + int) panic_or" where
  "parse_offset ch raw =
     (let bad = Inl (SeTemplate (lit ''invalid offset '' @ ch_debug ch raw @ lit ''; expected e.g. -1d, +3h''))
      in if utf8_len raw < 3 then Value bad
         else
           let c = hd raw; rest = tl raw; unit = last rest in
           if 128 \<le> c then Panic
           else if c \<noteq> 45 \<and> c \<noteq> 43 then Value bad
           else if 128 \<le> unit then Panic
           else Value
             (case parse_i64 (butlast rest) of
                None \<Rightarrow> bad
              | Some n \<Rightarrow>
                  (case (if unit = 100 then ch_delta ch 86400 n else if unit = 104 then ch_delta ch 3600 n
                         else if unit = 109 then ch_delta ch 60 n else None) of
                     None \<Rightarrow> bad
                   | Some magnitude \<Rightarrow> Inr (magnitude * (if c = 45 then - 1 else 1)))))"

definition unknown_token :: "rstr \<Rightarrow> source_error" where
  "unknown_token token = SeTemplate (lit ''unknown token {{ '' @ token @ lit '' }}'')"

definition shift_and_format :: "chrono \<Rightarrow> int \<Rightarrow> nat \<Rightarrow> rstr \<Rightarrow> int \<Rightarrow> (source_error + rstr) panic_or" where
  "shift_and_format ch t tz fmt offset =
     (case ch_add ch t offset of
        None \<Rightarrow> Panic
      | Some shifted \<Rightarrow> (case ch_format ch shifted tz fmt of None \<Rightarrow> Panic | Some s \<Rightarrow> Value (Inr s)))"

definition expand_token :: "chrono \<Rightarrow> int \<Rightarrow> nat \<Rightarrow> rstr \<Rightarrow> (source_error + rstr) panic_or" where
  "expand_token ch t tz token =
     (if token = lit ''timestamp'' then Value (Inr (show_int (ch_timestamp ch t)))
      else (case split_once 58 token of
        None \<Rightarrow> Value (Inl (unknown_token token))
      | Some (head, fmt) \<Rightarrow>
          (case strip_prefix (trim head) (lit ''date'') of
             None \<Rightarrow> Value (Inl (unknown_token token))
           | Some raw \<Rightarrow>
               if raw = [] then shift_and_format ch t tz (trim fmt) 0
               else (case parse_offset ch raw of
                       Panic \<Rightarrow> Panic
                     | Value (Inl e) \<Rightarrow> Value (Inl e)
                     | Value (Inr offset) \<Rightarrow> shift_and_format ch t tz (trim fmt) offset))))"

section \<open>Rendering\<close>

function render_from :: "chrono \<Rightarrow> int \<Rightarrow> nat \<Rightarrow> rstr \<Rightarrow> rstr \<Rightarrow> (source_error + rstr) panic_or" where
  "render_from ch t tz out rest =
     (case split_str [123, 123] rest of
        None \<Rightarrow> Value (Inr (out @ rest))
      | Some (before, after) \<Rightarrow>
          (case split_str [125, 125] after of
             None \<Rightarrow> Value (Inl (SeTemplate (lit ''unterminated {{ token'')))
           | Some (token, rest) \<Rightarrow>
               (case expand_token ch t tz (trim token) of
                  Panic \<Rightarrow> Panic
                | Value (Inl e) \<Rightarrow> Value (Inl e)
                | Value (Inr v) \<Rightarrow> render_from ch t tz (out @ before @ v) rest)))"
  by pat_completeness auto
termination
  by (relation "measure (\<lambda>(ch, t, tz, out, rest). length rest)") (auto dest!: split_str_length)

declare render_from.simps [simp del]

definition render :: "chrono \<Rightarrow> rstr \<Rightarrow> int \<Rightarrow> rstr \<Rightarrow> (source_error + rstr) panic_or" where
  "render ch template scheduled_at timezone =
     (case ch_tz ch timezone of
        None \<Rightarrow> Value (Inl (SeTemplate (lit ''unknown timezone '' @ ch_debug ch timezone)))
      | Some tz \<Rightarrow> render_from ch scheduled_at tz [] template)"

section \<open>What rendering does\<close>

text \<open>A template as literals and tokens, and its value piece by piece.\<close>

fun template_of :: "(rstr \<times> rstr) list \<Rightarrow> rstr \<Rightarrow> rstr" where
  "template_of [] rest = rest"
| "template_of ((s, token) # ps) rest = s @ [123, 123] @ token @ [125, 125] @ template_of ps rest"

fun rendered :: "chrono \<Rightarrow> int \<Rightarrow> nat \<Rightarrow> rstr \<Rightarrow> (rstr \<times> rstr) list \<Rightarrow> rstr \<Rightarrow> (source_error + rstr) panic_or" where
  "rendered ch t tz out [] rest = Value (Inr (out @ rest))"
| "rendered ch t tz out ((s, token) # ps) rest =
     (case expand_token ch t tz (trim token) of
        Panic \<Rightarrow> Panic
      | Value (Inl e) \<Rightarrow> Value (Inl e)
      | Value (Inr v) \<Rightarrow> rendered ch t tz (out @ s @ v) ps rest)"

lemma render_template:
  assumes "list_all (\<lambda>(s, token). 123 \<notin> set s \<and> 125 \<notin> set token) ps" "123 \<notin> set rest"
    and "ch_tz ch timezone = Some tz"
  shows "render ch (template_of ps rest) t timezone = rendered ch t tz [] ps rest"
proof -
  have "render_from ch t tz out (template_of ps rest) = rendered ch t tz out ps rest" for out
    using assms(1)
  proof (induction ps arbitrary: out)
    case Nil
    then show ?case using assms(2) by (simp add: render_from.simps split_str_none)
  next
    case (Cons p ps)
    obtain s token where p: "p = (s, token)" by (cases p)
    with Cons.prems have "split_str [123, 123] (template_of (p # ps) rest) = Some (s, token @ [125, 125] @ template_of ps rest)"
      "split_str [125, 125] (token @ [125, 125] @ template_of ps rest) = Some (token, template_of ps rest)"
      using split_str_at [of 123 s "[123]"] split_str_at [of 125 token "[125]"] by simp_all
    with Cons p show ?case
      by (subst render_from.simps) (simp split: panic_or.split sum.split)
  qed
  with assms(3) show ?thesis by (simp add: render_def)
qed

text \<open>Rendering replaces every token by its value and keeps all the rest; the first token that is not
  known decides the error.\<close>

theorem render_pieces:
  assumes "list_all (\<lambda>(s, token). 123 \<notin> set s \<and> 125 \<notin> set token) ps" "123 \<notin> set rest"
    and "ch_tz ch timezone = Some tz"
  shows "render ch (template_of ps rest) t timezone = rendered ch t tz [] ps rest"
  using assms by (rule render_template)

text \<open>A calendar that knows one timezone, one day and one format.\<close>

definition demo_chrono :: chrono where
  "demo_chrono = \<lparr>ch_tz = (\<lambda>z. if z = lit ''UTC'' then Some 0 else None), ch_delta = (\<lambda>u n. Some (int u * n)),
     ch_add = (\<lambda>t d. Some (t + d)), ch_timestamp = id, ch_format = (\<lambda>_ _ f. Some f), ch_debug = id\<rparr>"

theorem render_pieces_witness:
  "render demo_chrono (template_of [(lit ''a/'', lit '' timestamp '')] (lit ''.csv'')) 7 (lit ''UTC'')
     = Value (Inr (lit ''a/7.csv''))"
proof -
  have "rendered demo_chrono 7 0 [] [(lit ''a/'', lit '' timestamp '')] (lit ''.csv'') = Value (Inr (lit ''a/7.csv''))"
    by code_simp
  moreover have "render demo_chrono (template_of [(lit ''a/'', lit '' timestamp '')] (lit ''.csv'')) 7 (lit ''UTC'')
      = rendered demo_chrono 7 0 [] [(lit ''a/'', lit '' timestamp '')] (lit ''.csv'')"
    by (rule render_pieces) (simp_all add: lit_def demo_chrono_def)
  ultimately show ?thesis by simp
qed

text \<open>An offset with a character outside ASCII at either end is not refused: it panics.\<close>

lemma render_panics:
  assumes "ch_tz ch timezone = Some tz"
  shows "render ch (lit ''{{ date-1'' @ [233] @ lit '':%Y }}'') t timezone = Panic"
    "render ch (lit ''{{ date'' @ [233] @ lit ''1:%Y }}'') t timezone = Panic"
proof -
  have tok: "trim (lit '' date-1'' @ [233] @ lit '':%Y '') = lit ''date-1'' @ [233] @ lit '':%Y''"
    "trim (lit '' date'' @ [233] @ lit ''1:%Y '') = lit ''date'' @ [233] @ lit ''1:%Y''"
    by (simp_all add: trim_def trim_start_def trim_end_def is_whitespace_def lit_def)
  have "expand_token ch t tz (lit ''date-1'' @ [233] @ lit '':%Y'') = Panic"
    "expand_token ch t tz (lit ''date'' @ [233] @ lit ''1:%Y'') = Panic"
    by (simp_all add: expand_token_def split_once_def lit_def strip_prefix_def starts_with_def parse_offset_def
        trim_def trim_start_def trim_end_def is_whitespace_def utf8_char_len_def Let_def)
  with tok assms render_template [of "[([], lit '' date-1'' @ [233] @ lit '':%Y '')]" "[]" ch timezone tz t]
    render_template [of "[([], lit '' date'' @ [233] @ lit ''1:%Y '')]" "[]" ch timezone tz t]
  show "render ch (lit ''{{ date-1'' @ [233] @ lit '':%Y }}'') t timezone = Panic"
    "render ch (lit ''{{ date'' @ [233] @ lit ''1:%Y }}'') t timezone = Panic"
    by (simp_all add: lit_def)
qed

end
