(* ===== verification/Source_Url.thy ===== *)
theory Source_Url
  imports Source_Template Http Utf8 "HOL-Library.Sublist"
begin

text \<open>
  \<open>crates/source/src/url.rs\<close>, with the types of \<open>connector.rs\<close> and \<open>model.rs\<close> it uses: fetching the
  one item of a URL source. The HTTP client, \<open>blake3\<close>, the gzip decoder and the JSON parser are the
  environment; the code follows redirects itself. The lemmas: every request was accepted by the host
  policy at its hop, credentials go to the source's own origin only, an item is never larger than
  the cap, and content that did not change is not ingested again.
\<close>

section \<open>Locations, credentials and state\<close>

record location =
  lo_url :: rstr
  lo_method :: "rstr option"
  lo_headers :: "(rstr \<times> rstr) list"

datatype fetch_auth = AuthBearer rstr | AuthBasic rstr rstr | AuthHeaders "(rstr \<times> rstr) list"

record incremental_state =
  is_etag :: "rstr option"
  is_last_modified :: "rstr option"
  is_hash :: "rstr option"

record resolved_item =
  ri_bytes :: "byte list"
  ri_mime :: rstr
  ri_filename :: "rstr option"

datatype resolution = Unchanged | Items "resolved_item list" incremental_state

record url_limits =
  ul_max_redirects :: nat
  ul_max_bytes :: u64

definition default_url_limits :: url_limits where
  "default_url_limits = \<lparr>ul_max_redirects = 5, ul_max_bytes = 512 * 1024 * 1024\<rparr>"

record resolve_runtime =
  rr_policy :: "host_policy option"
  rr_limits :: url_limits
  rr_scheduled_at :: int
  rr_timezone :: rstr

definition new_runtime :: "host_policy \<Rightarrow> int \<Rightarrow> rstr \<Rightarrow> resolve_runtime" where
  "new_runtime policy scheduled_at timezone = \<lparr>rr_policy = Some policy, rr_limits = default_url_limits,
     rr_scheduled_at = scheduled_at, rr_timezone = timezone\<rparr>"

text \<open>A request: its headers in order, and the credential attached to it, if any.\<close>

record source_request =
  sq_method :: rstr
  sq_url :: url
  sq_headers :: "(rstr \<times> rstr) list"
  sq_auth :: "fetch_auth option"

record source_response =
  sr_http_status :: nat
  sr_location :: "rstr option"
  sr_etag :: "rstr option"
  sr_last_modified :: "rstr option"
  sr_content_type :: "rstr option"
  sr_chunks :: "(rstr + byte list) list"

record source_env =
  sv_chrono :: chrono
  sv_net :: "nat \<Rightarrow> net_env"
  sv_parse_url :: "rstr \<Rightarrow> rstr + url"
  sv_join :: "url \<Rightarrow> rstr \<Rightarrow> rstr + url"
  sv_valid_method :: "rstr \<Rightarrow> bool"
  sv_send :: "nat \<Rightarrow> source_request \<Rightarrow> rstr + source_response"
  sv_status :: "nat \<Rightarrow> rstr"
  sv_debug :: "rstr \<Rightarrow> rstr"
  sv_hash :: "byte list \<Rightarrow> rstr"
  sv_gunzip :: "byte list \<Rightarrow> stream"
  sv_json_ok :: "rstr \<Rightarrow> bool"

section \<open>Requests and redirects\<close>

definition opt_header :: "rstr \<Rightarrow> rstr option \<Rightarrow> (rstr \<times> rstr) list" where
  "opt_header name v = (case v of Some x \<Rightarrow> [(name, x)] | None \<Rightarrow> [])"

definition mk_request ::
  "location \<Rightarrow> fetch_auth option \<Rightarrow> incremental_state \<Rightarrow> origin \<Rightarrow> rstr \<Rightarrow> url \<Rightarrow> source_request" where
  "mk_request loc auth state own_origin mth current =
     \<lparr>sq_method = mth, sq_url = current,
      sq_headers = lo_headers loc @ opt_header (lit ''if-none-match'') (is_etag state)
        @ opt_header (lit ''if-modified-since'') (is_last_modified state),
      sq_auth = (if url_origin current = own_origin then auth else None)\<rparr>"

definition next_method :: "nat \<Rightarrow> rstr \<Rightarrow> rstr" where
  "next_method status mth =
     (if status = 303 \<or> ((status = 301 \<or> status = 302) \<and> mth \<noteq> lit ''HEAD'') then lit ''GET'' else mth)"

text \<open>The loop over redirects, with the requests it sends. \<open>first\<close> is the URL of the source.\<close>

function follow ::
  "source_env \<Rightarrow> resolve_runtime \<Rightarrow> location \<Rightarrow> fetch_auth option \<Rightarrow> incremental_state \<Rightarrow> url \<Rightarrow> nat \<Rightarrow> rstr \<Rightarrow> url
   \<Rightarrow> (source_error + source_response) \<times> source_request list" where
  "follow env rt loc auth state first hops mth current =
     (case (case rr_policy rt of Some policy \<Rightarrow> check_host (sv_net env hops) policy current | None \<Rightarrow> Inr ()) of
        Inl e \<Rightarrow> (Inl e, [])
      | Inr _ \<Rightarrow>
     (let req = mk_request loc auth state (url_origin first) mth current in
      case sv_send env hops req of
        Inl e \<Rightarrow> (Inl (SeFetch (mth @ lit '' '' @ url_text current @ lit '': '' @ e)), [req])
      | Inr response \<Rightarrow>
          let status = sr_http_status response in
          if \<not> is_redirection status \<or> status = 304 then (Inr response, [req])
          else if ul_max_redirects (rr_limits rt) \<le> hops
          then (Inl (SeFetch (url_text first @ lit '': more than '' @ show_nat (ul_max_redirects (rr_limits rt))
                  @ lit '' redirects'')), [req])
          else (case sr_location response of
             None \<Rightarrow> (Inl (SeFetch (url_text current @ lit '': '' @ sv_status env status
                       @ lit '' without a Location header'')), [req])
           | Some target \<Rightarrow>
               (case sv_join env current target of
                  Inl e \<Rightarrow> (Inl (SeFetch (url_text current @ lit '': invalid redirect '' @ sv_debug env target
                             @ lit '': '' @ e)), [req])
                | Inr next_url \<Rightarrow>
                    (let rest = follow env rt loc auth state first (hops + 1) (next_method status mth) next_url
                     in (fst rest, req # snd rest))))))"
  by pat_completeness auto
termination
  by (relation "measure (\<lambda>(env, rt, loc, auth, state, first, hops, mth, current). ul_max_redirects (rr_limits rt) - hops)")
    auto

declare follow.simps [simp del]

section \<open>The body\<close>

fun read_body :: "url \<Rightarrow> u64 \<Rightarrow> (rstr + byte list) list \<Rightarrow> byte list \<Rightarrow> source_error + byte list" where
  "read_body parsed max_bytes [] body = Inr body"
| "read_body parsed max_bytes (Inl e # chunks) body =
     Inl (SeFetch (lit ''reading '' @ url_text parsed @ lit '': '' @ e))"
| "read_body parsed max_bytes (Inr chunk # chunks) body =
     (if unat max_bytes < length body + length chunk
      then Inl (SeTooLarge (lit ''GET '' @ url_text parsed @ lit '': body exceeds the ''
             @ show_nat (unat max_bytes) @ lit '' byte cap''))
      else read_body parsed max_bytes chunks (body @ chunk))"

definition maybe_gunzip ::
  "source_env \<Rightarrow> byte list \<Rightarrow> rstr option \<Rightarrow> u64 \<Rightarrow> source_error + byte list \<times> rstr option" where
  "maybe_gunzip env body filename max_bytes =
     (if length body < 2 \<or> body ! 0 \<noteq> 0x1F \<or> body ! 1 \<noteq> 0x8B then Inr (body, filename)
      else (case read_at_most (unat (sat_add max_bytes 1)) (sv_gunzip env body) of
              Inl e \<Rightarrow> Inl (SeFetch (lit ''gunzip: '' @ e))
            | Inr out \<Rightarrow>
                if unat max_bytes < length out
                then Inl (SeTooLarge (lit ''decompressed content exceeds the '' @ show_nat (unat max_bytes) @ lit '' byte cap''))
                else Inr (out, map_option (\<lambda>f. case strip_suffix f (lit ''.gz'') of Some s \<Rightarrow> s | None \<Rightarrow> f) filename)))"

definition source_last_segment :: "rstr \<Rightarrow> rstr option" where
  "source_last_segment path = find (\<lambda>s. s \<noteq> []) (rev (split_on 47 path))"

definition guess_mime_from_extension :: "rstr \<Rightarrow> rstr option" where
  "guess_mime_from_extension filename =
     Option.bind (rsplit_once 46 filename) (\<lambda>(_, e).
       let ext = to_ascii_lowercase e in
       map_of [(lit ''json'', lit ''application/json''), (lit ''ndjson'', lit ''application/x-ndjson''),
         (lit ''jsonl'', lit ''application/x-ndjson''), (lit ''csv'', lit ''text/csv''),
         (lit ''tsv'', lit ''text/tab-separated-values''), (lit ''xml'', lit ''application/xml''),
         (lit ''md'', lit ''text/markdown''), (lit ''html'', lit ''text/html''), (lit ''htm'', lit ''text/html''),
         (lit ''parquet'', lit ''application/vnd.apache.parquet''), (lit ''avro'', lit ''application/vnd.apache.avro''),
         (lit ''pdf'', lit ''application/pdf''), (lit ''txt'', lit ''text/plain'')] ext)"

definition sniff_ndjson :: "source_env \<Rightarrow> byte list \<Rightarrow> bool" where
  "sniff_ndjson env bytes =
     (case from_utf8 (map unat bytes) of
        Inl _ \<Rightarrow> False
      | Inr text \<Rightarrow>
          let lines = take 5 (filter (\<lambda>l. trim l \<noteq> []) (lines_from [] text))
          in list_all (\<lambda>l. sv_json_ok env (trim l)) lines \<and> 2 \<le> length lines)"

definition source_detect_mime :: "source_env \<Rightarrow> byte list \<Rightarrow> rstr option \<Rightarrow> rstr option" where
  "source_detect_mime env bytes filename =
     (let by_ext = Option.bind filename guess_mime_from_extension
      in if by_ext = Some (lit ''application/json'') \<and> sniff_ndjson env bytes
         then Some (lit ''application/x-ndjson'') else by_ext)"

definition header_mime :: "source_response \<Rightarrow> rstr option" where
  "header_mime response =
     Option.bind (sr_content_type response) (\<lambda>ct.
       let m = to_ascii_lowercase (trim (split_first (\<lambda>c. c = 59) ct))
       in if m \<noteq> [] \<and> m \<noteq> lit ''application/octet-stream'' then Some m else None)"

section \<open>Resolving\<close>

text \<open>What is made of the final response.\<close>

definition take_response ::
  "source_env \<Rightarrow> resolve_runtime \<Rightarrow> incremental_state \<Rightarrow> url \<Rightarrow> source_response \<Rightarrow> source_error + resolution" where
  "take_response env rt state parsed response =
     (let status = sr_http_status response; max_bytes = ul_max_bytes (rr_limits rt) in
      if status = 304 then Inr Unchanged
      else if \<not> http_success status
      then (let message = lit ''GET '' @ url_text parsed @ lit '': status '' @ sv_status env status
            in if \<not> is_client_error status \<or> status = 408 \<or> status = 429
               then Inl (SeFetch message) else Inl (SeRejected message))
      else
        try_bind (read_body parsed max_bytes (sr_chunks response) []) (\<lambda>body.
          let hash = sv_hash env body in
          if is_hash state = Some hash then Inr Unchanged
          else
            try_bind (maybe_gunzip env body (source_last_segment (url_path parsed)) max_bytes) (\<lambda>(bytes, filename).
              let mime = (case header_mime response of Some m \<Rightarrow> m
                          | None \<Rightarrow> (case source_detect_mime env bytes filename of Some m \<Rightarrow> m
                                    | None \<Rightarrow> lit ''application/octet-stream''))
              in Inr (Items [\<lparr>ri_bytes = bytes, ri_mime = mime, ri_filename = filename\<rparr>]
                   \<lparr>is_etag = sr_etag response, is_last_modified = sr_last_modified response, is_hash = Some hash\<rparr>))))"

definition source_resolve ::
  "source_env \<Rightarrow> resolve_runtime \<Rightarrow> location \<Rightarrow> fetch_auth option \<Rightarrow> incremental_state
   \<Rightarrow> (source_error + resolution) panic_or \<times> source_request list" where
  "source_resolve env rt loc auth state =
     (case render (sv_chrono env) (lo_url loc) (rr_scheduled_at rt) (rr_timezone rt) of
        Panic \<Rightarrow> (Panic, [])
      | Value (Inl e) \<Rightarrow> (Value (Inl e), [])
      | Value (Inr rendered_url) \<Rightarrow>
     (case sv_parse_url env rendered_url of
        Inl e \<Rightarrow> (Value (Inl (SeTemplate (sv_debug env rendered_url @ lit '' is not a url: '' @ e))), [])
      | Inr parsed \<Rightarrow>
          let verb = (case lo_method loc of Some m \<Rightarrow> m | None \<Rightarrow> lit ''GET'')
          in if \<not> sv_valid_method env verb
             then (Value (Inl (SeBlocked (lit ''invalid http method '' @ sv_debug env verb))), [])
             else (let (r, reqs) = follow env rt loc auth state parsed 0 verb parsed
                   in (Value (try_bind r (take_response env rt state parsed)), reqs))))"

section \<open>What is requested\<close>

definition request_hops :: "nat \<Rightarrow> source_request list \<Rightarrow> (nat \<times> url) list" where
  "request_hops n reqs = hops_from n (map sq_url reqs)"

lemma request_hops_simps [simp]:
  "request_hops n [] = []" "request_hops n (r # rs) = (n, sq_url r) # request_hops (Suc n) rs"
  by (simp_all add: request_hops_def)

lemma mk_request_simps [simp]:
  "sq_url (mk_request loc auth state orig mth current) = current"
  "sq_auth (mk_request loc auth state orig mth current) = (if url_origin current = orig then auth else None)"
  by (simp_all add: mk_request_def)

text \<open>A credential is attached to requests to the origin of the source only.\<close>

definition auth_confined :: "fetch_auth option \<Rightarrow> origin \<Rightarrow> source_request \<Rightarrow> bool" where
  "auth_confined auth orig r \<longleftrightarrow> sq_auth r = (if url_origin (sq_url r) = orig then auth else None)"

lemma auth_confined_request [simp]: "auth_confined auth orig (mk_request loc auth state orig mth current)"
  by (simp add: auth_confined_def)

lemma follow_auth:
  "list_all (auth_confined auth (url_origin first)) (snd (follow env rt loc auth state first hops mth current))"
proof (induction env rt loc auth state first hops mth current rule: follow.induct)
  case (1 env rt loc auth state first hops mth current)
  show ?case
    by (subst follow.simps) (use 1 in \<open>auto simp: Let_def split: sum.split option.split\<close>)
qed

lemma follow_bounded:
  "hops \<le> ul_max_redirects (rr_limits rt) \<Longrightarrow>
     length (snd (follow env rt loc auth state first hops mth current)) + hops \<le> Suc (ul_max_redirects (rr_limits rt))"
proof (induction env rt loc auth state first hops mth current rule: follow.induct)
  case (1 env rt loc auth state first hops mth current)
  show ?case
    by (subst follow.simps) (use 1 in \<open>auto simp: Let_def split: sum.split option.split\<close>)
qed

context url_check
begin

lemma follow_allowed:
  assumes "rr_policy rt = Some policy" "\<And>n u. check_host (sv_net env n) policy u = Inr () \<Longrightarrow> allowed n u"
  shows "list_all (\<lambda>(n, u). allowed n u) (request_hops hops (snd (follow env rt loc auth state first hops mth current)))"
  using assms
proof (induction env rt loc auth state first hops mth current rule: follow.induct)
  case (1 env rt loc auth state first hops mth current)
  show ?case
    by (subst follow.simps) (use 1 in \<open>auto simp: Let_def split: sum.split option.split\<close>)
qed

end

lemma source_requests:
  "snd (source_resolve env rt loc auth state) = [] \<or>
     (\<exists>parsed mth. snd (source_resolve env rt loc auth state) = snd (follow env rt loc auth state parsed 0 mth parsed))"
  by (auto simp: source_resolve_def case_prod_beta Let_def split: panic_or.split sum.split)

text \<open>C20. Whatever the servers answer, a source under a host policy sends at most one request more than
  its redirects, each to an HTTP URL that the policy accepted at that hop, and its credential goes to
  one origin only.\<close>

theorem source_fetch_confined:
  assumes "rr_policy rt = Some policy"
  shows "let reqs = snd (source_resolve env rt loc auth state)
    in length reqs \<le> Suc (ul_max_redirects (rr_limits rt))
       \<and> list_all (\<lambda>(n, u). check_host (sv_net env n) policy u = Inr ()) (request_hops 0 reqs)
       \<and> list_all (\<lambda>(n, u). url_scheme u \<in> {lit ''http'', lit ''https''}) (request_hops 0 reqs)
       \<and> (\<exists>orig. list_all (auth_confined auth orig) reqs)"
proof (cases "snd (source_resolve env rt loc auth state) = []")
  case False
  then obtain parsed mth where r: "snd (source_resolve env rt loc auth state) = snd (follow env rt loc auth state parsed 0 mth parsed)"
    using source_requests [of env rt loc auth state] by blast
  have allowed: "list_all (\<lambda>(n, u). check_host (sv_net env n) policy u = Inr ())
      (request_hops 0 (snd (follow env rt loc auth state parsed 0 mth parsed)))"
    by (rule source_policy.follow_allowed [OF assms]) simp
  from allowed source_policy.hops_http [OF allowed] show ?thesis
    using follow_auth [of auth parsed env rt loc state 0 mth parsed]
      follow_bounded [of 0 rt env loc auth state parsed mth parsed]
    unfolding r Let_def by auto
qed simp

section \<open>What is ingested\<close>

lemma read_body_length: "read_body parsed m chunks body = Inr b \<Longrightarrow> length body \<le> unat m \<Longrightarrow> length b \<le> unat m"
  by (induction parsed m chunks body rule: read_body.induct) (auto split: if_splits)

lemma maybe_gunzip_length:
  "maybe_gunzip env body filename m = Inr (bytes, f) \<Longrightarrow> length body \<le> unat m \<Longrightarrow> length bytes \<le> unat m"
  by (auto simp: maybe_gunzip_def split: if_splits sum.splits)

text \<open>A source that changed gives one item, within the cap before and after decompression, and the hash to
  recognise it by; a source whose body has the hash of the last run gives none.\<close>

theorem source_item_bounded:
  assumes "fst (source_resolve env rt loc auth state) = Value (Inr (Items items state'))"
  shows "\<exists>item body. items = [item] \<and> length (ri_bytes item) \<le> unat (ul_max_bytes (rr_limits rt))
    \<and> length body \<le> unat (ul_max_bytes (rr_limits rt))
    \<and> is_hash state' = Some (sv_hash env body) \<and> is_hash state \<noteq> is_hash state'"
proof -
  from assms obtain parsed response where "take_response env rt state parsed response = Inr (Items items state')"
    by (auto simp: source_resolve_def case_prod_beta Let_def try_bind_eq_Inr split: panic_or.splits sum.splits if_splits)
  then obtain body bytes filename where b: "read_body parsed (ul_max_bytes (rr_limits rt)) (sr_chunks response) [] = Inr body"
    "is_hash state \<noteq> Some (sv_hash env body)"
    "maybe_gunzip env body (source_last_segment (url_path parsed)) (ul_max_bytes (rr_limits rt)) = Inr (bytes, filename)"
    "\<exists>item :: resolved_item. items = [item] \<and> ri_bytes item = bytes" "is_hash state' = Some (sv_hash env body)"
    by (auto simp: take_response_def Let_def try_bind_eq_Inr split: if_splits)
  from read_body_length [OF b(1)] have "length body \<le> unat (ul_max_bytes (rr_limits rt))" by simp
  with maybe_gunzip_length [OF b(3)] b show ?thesis by auto
qed

section \<open>Witnesses\<close>

text \<open>A server that redirects once and then serves two bytes.\<close>

definition demo_page :: "rstr \<Rightarrow> url" where
  "demo_page path = \<lparr>url_text = path, url_scheme = lit ''http'', url_username = [], url_host = Some (lit ''h''),
     url_port = None, url_known_port = Some 80, url_path = path, url_origin = TupleOrigin (lit ''http'') (lit ''h'') 80\<rparr>"

definition demo_answer :: "nat \<Rightarrow> source_response" where
  "demo_answer n = (if n = 0
     then \<lparr>sr_http_status = 302, sr_location = Some (lit ''b''), sr_etag = None, sr_last_modified = None,
           sr_content_type = None, sr_chunks = []\<rparr>
     else \<lparr>sr_http_status = 200, sr_location = None, sr_etag = None, sr_last_modified = None,
           sr_content_type = None, sr_chunks = [Inr [1], Inr [2]]\<rparr>)"

definition demo_policy :: host_policy where
  "demo_policy = PolicyAllow [\<lparr>hp_host = lit ''h'', hp_port = None\<rparr>]"

definition demo_source_env :: source_env where
  "demo_source_env = \<lparr>sv_chrono = demo_chrono,
     sv_net = (\<lambda>_. \<lparr>ne_resolve = (\<lambda>_ _. DnsFound []), ne_show_ip = (\<lambda>_. []), ne_debug = id\<rparr>),
     sv_parse_url = (\<lambda>s. Inr (demo_page s)), sv_join = (\<lambda>_ s. Inr (demo_page s)), sv_valid_method = (\<lambda>_. True),
     sv_send = (\<lambda>n _. Inr (demo_answer n)), sv_status = show_nat, sv_debug = id, sv_hash = (\<lambda>_. lit ''h''),
     sv_gunzip = (\<lambda>b. \<lparr>sm_bytes = b, sm_error = None\<rparr>), sv_json_ok = (\<lambda>_. False)\<rparr>"

definition demo_runtime :: resolve_runtime where
  "demo_runtime = (new_runtime demo_policy 0 (lit ''UTC''))\<lparr>rr_limits := \<lparr>ul_max_redirects = 2, ul_max_bytes = 9\<rparr>\<rparr>"

definition no_state :: incremental_state where
  "no_state = \<lparr>is_etag = None, is_last_modified = None, is_hash = None\<rparr>"

definition demo_location :: location where
  "demo_location = \<lparr>lo_url = lit ''a'', lo_method = None, lo_headers = []\<rparr>"

theorem source_fetch_confined_witness:
  "list_all (\<lambda>(n, u). check_host (sv_net demo_source_env n) demo_policy u = Inr ())
     (request_hops 0 (snd (source_resolve demo_source_env demo_runtime demo_location None no_state)))
   \<and> length (snd (source_resolve demo_source_env demo_runtime demo_location None no_state)) = 2"
proof
  have "rr_policy demo_runtime = Some demo_policy" by (simp add: demo_runtime_def new_runtime_def)
  from source_fetch_confined [OF this, of demo_source_env demo_location None no_state]
  show "list_all (\<lambda>(n, u). check_host (sv_net demo_source_env n) demo_policy u = Inr ())
     (request_hops 0 (snd (source_resolve demo_source_env demo_runtime demo_location None no_state)))"
    by (simp add: Let_def)
  show "length (snd (source_resolve demo_source_env demo_runtime demo_location None no_state)) = 2"
    by code_simp
qed

lemma demo_resolved:
  "case fst (source_resolve demo_source_env demo_runtime demo_location None no_state) of
     Value (Inr (Items [item] st)) \<Rightarrow> ri_bytes item = [1, 2] \<and> is_hash st = Some (lit ''h'') | _ \<Rightarrow> False"
  by code_simp

theorem source_item_bounded_witness:
  "\<exists>item st. fst (source_resolve demo_source_env demo_runtime demo_location None no_state) = Value (Inr (Items [item] st))
     \<and> length (ri_bytes item) \<le> unat (ul_max_bytes (rr_limits demo_runtime))"
proof -
  obtain item st where "fst (source_resolve demo_source_env demo_runtime demo_location None no_state) = Value (Inr (Items [item] st))"
    using demo_resolved by (auto split: panic_or.splits sum.splits resolution.splits list.splits)
  with source_item_bounded [OF this] show ?thesis by auto
qed

end
