(* ===== verification/Plugin_Host.thy ===== *)
theory Plugin_Host
  imports Sdk_Types Lab_Credits Usage_Events
begin

text \<open>
  What a worker runs plugins with: \<open>crates/plugin-sdk/src/context.rs\<close> and \<open>ai.rs\<close> (the context of a
  step and the Gateway target), \<open>crates/plugin-sdk/src/error.rs\<close> (messages), the manifest of
  \<open>types.rs\<close> and \<open>crates/worker/src/registry.rs\<close>. A plugin is its manifest and what its \<open>execute\<close>
  returns for a context, an input and a configuration: the result, the units it recorded in order and
  whether it marked its target as rejected, the only ways it can change its context. The lemmas: names
  and manifests of a registry agree, and which plugins resolve.
\<close>

section \<open>Errors\<close>

fun plugin_error_str :: "plugin_error \<Rightarrow> rstr" where
  "plugin_error_str (ErrRetryable m) = lit ''retryable: '' @ m"
| "plugin_error_str (ErrNonRetryable m) = lit ''non-retryable: '' @ m"
| "plugin_error_str (ErrInvalidConfig m) = lit ''invalid config: '' @ m"
| "plugin_error_str (ErrInvalidInput m) = lit ''invalid input: '' @ m"
| "plugin_error_str ErrCancelled = lit ''cancelled''"
| "plugin_error_str (ErrIo m) = lit ''io: '' @ m"
| "plugin_error_str (ErrSerde m) = lit ''serde: '' @ m"
| "plugin_error_str (ErrOther m) = m"

section \<open>Gateway targets\<close>

record ai_target =
  at_base_url :: rstr
  at_api_key :: rstr
  at_key_id :: rstr
  at_default_model :: rstr
  at_vision_model :: rstr
  at_decision_model :: "rstr option"
  at_rejected :: bool

definition new_ai_target :: "rstr \<Rightarrow> rstr \<Rightarrow> rstr \<Rightarrow> rstr \<Rightarrow> rstr \<Rightarrow> rstr option \<Rightarrow> ai_target" where
  "new_ai_target base_url api_key key_id default_model vision_model decision_model =
     \<lparr>at_base_url = base_url, at_api_key = api_key, at_key_id = key_id, at_default_model = default_model,
      at_vision_model = vision_model, at_decision_model = decision_model, at_rejected = False\<rparr>"

definition mark_rejected :: "ai_target \<Rightarrow> ai_target" where
  "mark_rejected t = t\<lparr>at_rejected := True\<rparr>"

definition SNIPPET_CHARS :: nat where
  "SNIPPET_CHARS = 512"

text \<open>The Gateway's own failures, with the target afterwards.\<close>

definition gateway_failure :: "ai_target \<Rightarrow> nat \<Rightarrow> rstr \<Rightarrow> plugin_error option \<times> ai_target" where
  "gateway_failure target code body =
     (if code = 401
      then (Some (ErrRetryable (lit ''the Gateway refused the Lab key (HTTP '' @ show_nat code
              @ lit ''); retrying with a new key'')), mark_rejected target)
      else if code = 402
      then (Some (ErrNonRetryable (lit ''the team's Gateway budget is exhausted: add Lab credits (HTTP 402): ''
              @ truncate_chars body SNIPPET_CHARS)), target)
      else (None, target))"

section \<open>The context of a step\<close>

record plugin_context =
  px_job_id :: uuid
  px_step_id :: rstr
  px_attempt :: u32
  px_cancelled :: bool
  px_usage :: usage_units
  px_ai_target :: "ai_target option"

definition new_context :: "uuid \<Rightarrow> rstr \<Rightarrow> u32 \<Rightarrow> plugin_context" where
  "new_context job step attempt = \<lparr>px_job_id = job, px_step_id = step, px_attempt = attempt, px_cancelled = False,
     px_usage = no_usage, px_ai_target = None\<rparr>"

definition check_cancelled :: "plugin_context \<Rightarrow> plugin_error + unit" where
  "check_cancelled ctx = (if px_cancelled ctx then Inl ErrCancelled else Inr ())"

definition record_usage :: "usage_units \<Rightarrow> plugin_context \<Rightarrow> plugin_context" where
  "record_usage units ctx =
     (if usage_is_empty units then ctx else ctx\<lparr>px_usage := usage_merge (px_usage ctx) units\<rparr>)"

text \<open>The first target wins.\<close>

definition set_ai_target :: "ai_target \<Rightarrow> plugin_context \<Rightarrow> plugin_context" where
  "set_ai_target target ctx = (case px_ai_target ctx of None \<Rightarrow> ctx\<lparr>px_ai_target := Some target\<rparr> | Some _ \<Rightarrow> ctx)"

section \<open>Plugins\<close>

datatype plugin_kind = Builtin | Wasm | Grpc

record plugin_manifest =
  pm_name :: rstr
  pm_version :: rstr
  pm_description :: rstr
  pm_accepts :: "input_kind list"
  pm_produces :: output_kind
  pm_config_schema :: json
  pm_kind :: plugin_kind
  pm_content_types :: "rstr list"

definition new_manifest :: "rstr \<Rightarrow> rstr \<Rightarrow> plugin_manifest" where
  "new_manifest name version = \<lparr>pm_name = name, pm_version = version, pm_description = [], pm_accepts = [],
     pm_produces = OkDocuments, pm_config_schema = JObject [(lit ''type'', JString (lit ''object''))], pm_kind = Builtin,
     pm_content_types = []\<rparr>"

definition accepts_kind :: "plugin_manifest \<Rightarrow> input_kind \<Rightarrow> bool" where
  "accepts_kind m k \<longleftrightarrow> List.member (pm_accepts m) k"

record plugin =
  pl_manifest :: plugin_manifest
  pl_execute :: "plugin_context \<Rightarrow> plugin_input \<Rightarrow> json \<Rightarrow> (plugin_error + plugin_output) \<times> usage_units list \<times> bool"

text \<open>A plugin runs: what it recorded and marked is in the context afterwards.\<close>

definition execute_plugin ::
  "plugin \<Rightarrow> plugin_context \<Rightarrow> plugin_input \<Rightarrow> json \<Rightarrow> (plugin_error + plugin_output) \<times> plugin_context" where
  "execute_plugin p ctx inp config =
     (let (result, units, rejected) = pl_execute p ctx inp config; ctx = fold record_usage units ctx
      in (result, if rejected then ctx\<lparr>px_ai_target := map_option mark_rejected (px_ai_target ctx)\<rparr> else ctx))"

section \<open>The registry\<close>

record plugin_registry =
  rg_plugins :: "(rstr, plugin) btree"
  rg_unavailable :: "(rstr, rstr) btree"

definition empty_registry :: plugin_registry where
  "empty_registry = \<lparr>rg_plugins = [], rg_unavailable = []\<rparr>"

definition register :: "plugin \<Rightarrow> plugin_registry \<Rightarrow> plugin_registry" where
  "register p reg =
     (let name = pm_name (pl_manifest p)
      in reg\<lparr>rg_unavailable := bt_remove name (rg_unavailable reg), rg_plugins := bt_insert name p (rg_plugins reg)\<rparr>)"

definition mark_unavailable :: "rstr \<Rightarrow> rstr \<Rightarrow> plugin_registry \<Rightarrow> plugin_registry" where
  "mark_unavailable name reason reg = reg\<lparr>rg_unavailable := bt_insert name reason (rg_unavailable reg)\<rparr>"

definition LAB_AI_PLUGINS :: "rstr list" where
  "LAB_AI_PLUGINS = [lit ''llm_enricher'', lit ''image_captioner'', lit ''jev_enricher'']"

definition register_ai ::
  "rstr \<Rightarrow> plugin_error + plugin \<Rightarrow> plugin \<Rightarrow> bool \<Rightarrow> plugin_registry \<Rightarrow> plugin_registry" where
  "register_ai name built disabled lab_ai_gateway reg =
     (case built of
        Inr p \<Rightarrow> register p reg
      | Inl e \<Rightarrow> if lab_ai_gateway \<and> List.member LAB_AI_PLUGINS name then register disabled reg
                 else mark_unavailable name (plugin_error_str e) reg)"

text \<open>The AI plugins as their \<open>from_env\<close> built them, with their disabled forms.\<close>

record ai_plugins =
  ap_llm :: "(plugin_error + plugin) \<times> plugin"
  ap_jev :: "(plugin_error + plugin) \<times> plugin"
  ap_caption :: "(plugin_error + plugin) \<times> plugin"
  ap_whisper :: "plugin_error + plugin"

text \<open>\<open>base\<close> are the plugins that always exist, in the order they are registered.\<close>

definition builtin_from :: "plugin list \<Rightarrow> bool \<Rightarrow> ai_plugins \<Rightarrow> plugin_registry" where
  "builtin_from base lab_ai_gateway ai =
     (let reg = fold register base empty_registry;
          reg = register_ai (lit ''llm_enricher'') (fst (ap_llm ai)) (snd (ap_llm ai)) lab_ai_gateway reg;
          reg = register_ai (lit ''jev_enricher'') (fst (ap_jev ai)) (snd (ap_jev ai)) lab_ai_gateway reg;
          reg = register_ai (lit ''image_captioner'') (fst (ap_caption ai)) (snd (ap_caption ai)) lab_ai_gateway reg
      in case ap_whisper ai of
           Inr p \<Rightarrow> register p reg
         | Inl e \<Rightarrow> mark_unavailable (lit ''whisper_transcriber'') (plugin_error_str e) reg)"

text \<open>External plugins: the location of each and what loading it gave.\<close>

definition load_external :: "(rstr \<times> (rstr + plugin)) list \<Rightarrow> plugin_registry \<Rightarrow> plugin_registry" where
  "load_external loaded reg =
     fold (\<lambda>(loc, r) reg. case r of Inr p \<Rightarrow> register p reg | Inl e \<Rightarrow> mark_unavailable loc e reg) loaded reg"

definition registry_get :: "plugin_registry \<Rightarrow> rstr \<Rightarrow> plugin option" where
  "registry_get reg name = bt_get (rg_plugins reg) name"

definition registry_resolve :: "(rstr \<Rightarrow> rstr) \<Rightarrow> plugin_registry \<Rightarrow> rstr \<Rightarrow> plugin_error + plugin" where
  "registry_resolve debug reg name =
     (case registry_get reg name of
        Some p \<Rightarrow> Inr p
      | None \<Rightarrow>
          (case bt_get (rg_unavailable reg) name of
             Some reason \<Rightarrow> Inl (ErrNonRetryable (lit ''plugin '' @ debug name
                 @ lit '' is not available on this worker: '' @ reason))
           | None \<Rightarrow> Inl (ErrNonRetryable (lit ''plugin '' @ debug name
                 @ lit '' is not registered on this worker (task queue routing sends it here); deploy a worker that provides it (built-in, WASM or gRPC via EXTERNAL_PLUGINS)''))))"

definition registry_names :: "plugin_registry \<Rightarrow> rstr list" where
  "registry_names reg = map fst (rg_plugins reg)"

section \<open>Registered names\<close>

text \<open>The invariant: both maps are sorted, and a plugin is listed under the name of its manifest.\<close>

definition registry_inv :: "plugin_registry \<Rightarrow> bool" where
  "registry_inv reg \<longleftrightarrow> bt_inv (rg_plugins reg) \<and> bt_inv (rg_unavailable reg)
     \<and> (\<forall>name p. registry_get reg name = Some p \<longrightarrow> pm_name (pl_manifest p) = name)"

lemma bt_inv_remove: "bt_inv m \<Longrightarrow> bt_inv (bt_remove k m)"
  by (simp add: bt_inv_def bt_remove_def) (metis (mono_tags, lifting) sorted_wrt_map sorted_wrt_filter)

lemma registry_get_register:
  "registry_get (register p reg) name = (if name = pm_name (pl_manifest p) then Some p else registry_get reg name)"
  by (simp add: registry_get_def register_def Let_def bt_get_insert)

lemma registry_get_unavailable [simp]: "registry_get (mark_unavailable n r reg) name = registry_get reg name"
  by (simp add: registry_get_def mark_unavailable_def)

lemma registry_inv_empty: "registry_inv empty_registry"
  by (simp add: registry_inv_def empty_registry_def registry_get_def)

lemma registry_inv_register: "registry_inv reg \<Longrightarrow> registry_inv (register p reg)"
  unfolding registry_inv_def registry_get_register
  by (simp add: register_def Let_def bt_inv_insert bt_inv_remove)

lemma registry_inv_unavailable: "registry_inv reg \<Longrightarrow> registry_inv (mark_unavailable n r reg)"
  unfolding registry_inv_def registry_get_unavailable by (simp add: mark_unavailable_def bt_inv_insert)

lemma registry_inv_register_ai: "registry_inv reg \<Longrightarrow> registry_inv (register_ai n b d g reg)"
  by (simp add: register_ai_def registry_inv_register registry_inv_unavailable split: sum.split)

lemmas registry_inv_intros =
  registry_inv_empty registry_inv_register registry_inv_unavailable registry_inv_register_ai

lemma registry_inv_base: "registry_inv reg \<Longrightarrow> registry_inv (fold register base reg)"
  by (induction base arbitrary: reg) (simp_all add: registry_inv_register)

lemma registry_inv_external: "registry_inv reg \<Longrightarrow> registry_inv (load_external loaded reg)"
  unfolding load_external_def
  by (induction loaded arbitrary: reg) (auto simp: registry_inv_intros split: sum.split)

lemma registry_inv_builtin: "registry_inv (builtin_from base g ai)"
  unfolding builtin_from_def Let_def
  by (auto intro!: registry_inv_intros registry_inv_base split: sum.split)

text \<open>A worker never runs a plugin under another plugin's name: what resolves to a step's plugin says so
  in its own manifest, whatever was built in or loaded, and what does not resolve fails for good.\<close>

theorem resolved_plugin_named:
  "case registry_resolve debug (load_external loaded (builtin_from base g ai)) name of
     Inr p \<Rightarrow> pm_name (pl_manifest p) = name
   | Inl e \<Rightarrow> \<not> is_retryable e"
  using registry_inv_external [OF registry_inv_builtin, of loaded base g ai]
  by (auto simp: registry_resolve_def registry_inv_def split: option.split)

text \<open>With the Gateway on, the AI plugins that can use it are there even without their own key.\<close>

lemma registry_kept:
  "registry_get reg name \<noteq> None \<Longrightarrow> registry_get (register p reg) name \<noteq> None"
  "registry_get reg name \<noteq> None \<Longrightarrow> registry_get (register_ai n b d g reg) name \<noteq> None"
  by (auto simp: registry_get_register register_ai_def split: sum.split)

lemma register_ai_there:
  assumes "List.member LAB_AI_PLUGINS n" "\<And>p. b = Inr p \<Longrightarrow> pm_name (pl_manifest p) = n" "pm_name (pl_manifest d) = n"
  shows "registry_get (register_ai n b d True reg) n \<noteq> None"
  using assms by (auto simp: register_ai_def registry_get_register split: sum.split)

lemma lab_ai_plugins_there:
  assumes "\<And>p. fst (ap_llm ai) = Inr p \<Longrightarrow> pm_name (pl_manifest p) = lit ''llm_enricher''"
    and "\<And>p. fst (ap_jev ai) = Inr p \<Longrightarrow> pm_name (pl_manifest p) = lit ''jev_enricher''"
    and "\<And>p. fst (ap_caption ai) = Inr p \<Longrightarrow> pm_name (pl_manifest p) = lit ''image_captioner''"
    and "pm_name (pl_manifest (snd (ap_llm ai))) = lit ''llm_enricher''"
      "pm_name (pl_manifest (snd (ap_jev ai))) = lit ''jev_enricher''"
      "pm_name (pl_manifest (snd (ap_caption ai))) = lit ''image_captioner''"
    and "List.member LAB_AI_PLUGINS name"
  shows "registry_get (builtin_from base True ai) name \<noteq> None"
proof -
  have m: "List.member LAB_AI_PLUGINS (lit ''llm_enricher'')" "List.member LAB_AI_PLUGINS (lit ''jev_enricher'')"
    "List.member LAB_AI_PLUGINS (lit ''image_captioner'')"
    by (simp_all add: LAB_AI_PLUGINS_def)
  let ?r1 = "register_ai (lit ''llm_enricher'') (fst (ap_llm ai)) (snd (ap_llm ai)) True (fold register base empty_registry)"
  let ?r2 = "register_ai (lit ''jev_enricher'') (fst (ap_jev ai)) (snd (ap_jev ai)) True ?r1"
  let ?r3 = "register_ai (lit ''image_captioner'') (fst (ap_caption ai)) (snd (ap_caption ai)) True ?r2"
  have "registry_get ?r3 (lit ''llm_enricher'') \<noteq> None"
    by (intro registry_kept(2) register_ai_there m(1) assms)
  moreover have "registry_get ?r3 (lit ''jev_enricher'') \<noteq> None"
    by (rule registry_kept(2), rule register_ai_there) (use m assms in auto)
  moreover have "registry_get ?r3 (lit ''image_captioner'') \<noteq> None"
    by (rule register_ai_there) (use m assms in auto)
  moreover have "name = lit ''llm_enricher'' \<or> name = lit ''jev_enricher'' \<or> name = lit ''image_captioner''"
    using assms(7) by (auto simp: LAB_AI_PLUGINS_def)
  ultimately have "registry_get ?r3 name \<noteq> None" by auto
  then show ?thesis
    using registry_kept(1) [of ?r3 name] unfolding builtin_from_def Let_def
    by (cases "ap_whisper ai") (simp_all only: sum.case registry_get_unavailable simp_thms)
qed

end
