(* ===== verification/Source_Secret.thy ===== *)
theory Source_Secret
  imports Host_Policy
begin

text \<open>
  \<open>crates/source/src/secret.rs\<close>: the sealed values of a source. The cipher and base64 are
  parameters, the random nonce and the environment variable are arguments. The lemmas: what was
  sealed opens to the same value, what opens has the layout that sealing writes, and every other
  input is an error.
\<close>

section \<open>Keys\<close>

definition VERSION :: byte where
  "VERSION = 1"

definition NONCE_LEN :: nat where
  "NONCE_LEN = 12"

type_synonym secret_key = "byte list"

text \<open>The AEAD cipher: key, nonce and text; \<open>None\<close> is its error.\<close>

record aead =
  ae_encrypt :: "secret_key \<Rightarrow> byte list \<Rightarrow> byte list \<Rightarrow> byte list option"
  ae_decrypt :: "secret_key \<Rightarrow> byte list \<Rightarrow> byte list \<Rightarrow> byte list option"
  ae_base64 :: "rstr \<Rightarrow> rstr + byte list"

definition key_from_env :: "aead \<Rightarrow> rstr option \<Rightarrow> source_error + secret_key option" where
  "key_from_env ae var =
     (case var of
        None \<Rightarrow> Inr None
      | Some raw \<Rightarrow>
          if trim raw = [] then Inr None
          else (case ae_base64 ae (trim raw) of
                  Inl e \<Rightarrow> Inl (SeKey (lit ''not valid base64: '' @ e))
                | Inr decoded \<Rightarrow>
                    if length decoded = 32 then Inr (Some decoded)
                    else Inl (SeKey (lit ''expected 32 bytes, got '' @ show_nat (length decoded)))))"

section \<open>Sealing and opening\<close>

definition secret_seal :: "aead \<Rightarrow> byte list \<Rightarrow> secret_key \<Rightarrow> byte list \<Rightarrow> source_error + byte list" where
  "secret_seal ae nonce key plaintext =
     (case ae_encrypt ae key nonce plaintext of
        None \<Rightarrow> Inl (SeSeal (lit ''encryption failed''))
      | Some ciphertext \<Rightarrow> Inr (VERSION # nonce @ ciphertext))"

definition secret_open :: "aead \<Rightarrow> secret_key \<Rightarrow> byte list \<Rightarrow> source_error + byte list" where
  "secret_open ae key sealed =
     (if length sealed \<le> 1 + NONCE_LEN then Inl (SeSeal (lit ''sealed value is too short''))
      else if sealed ! 0 \<noteq> VERSION
      then Inl (SeSeal (lit ''unsupported sealed format version '' @ show_nat (unat (sealed ! 0))))
      else (case ae_decrypt ae key (take NONCE_LEN (drop 1 sealed)) (drop (1 + NONCE_LEN) sealed) of
              None \<Rightarrow> Inl (SeSeal (lit ''decryption failed: wrong key or tampered value''))
            | Some plaintext \<Rightarrow> Inr plaintext))"

definition seal_json :: "aead \<Rightarrow> ('a \<Rightarrow> rstr + byte list) \<Rightarrow> byte list \<Rightarrow> secret_key \<Rightarrow> 'a \<Rightarrow> source_error + byte list" where
  "seal_json ae to_vec nonce key x =
     (case to_vec x of Inl e \<Rightarrow> Inl (SePayload (lit ''serialize: '' @ e)) | Inr json \<Rightarrow> secret_seal ae nonce key json)"

definition open_json :: "aead \<Rightarrow> (byte list \<Rightarrow> rstr + 'a) \<Rightarrow> secret_key \<Rightarrow> byte list \<Rightarrow> source_error + 'a" where
  "open_json ae from_slice key sealed =
     try_bind (secret_open ae key sealed) (\<lambda>json.
       case from_slice json of Inl e \<Rightarrow> Inl (SePayload (lit ''deserialize: '' @ e)) | Inr x \<Rightarrow> Inr x)"

section \<open>Round trip and errors\<close>

text \<open>What opens was laid out as sealing does: version, nonce, then what the cipher accepts.\<close>

lemma secret_open_iff:
  "secret_open ae key sealed = Inr p \<longleftrightarrow>
     (\<exists>nonce c. sealed = VERSION # nonce @ c \<and> length nonce = NONCE_LEN \<and> c \<noteq> [] \<and> ae_decrypt ae key nonce c = Some p)"
  (is "?l \<longleftrightarrow> ?r")
proof
  assume l: ?l
  then obtain b rest where s: "sealed = b # rest" "NONCE_LEN < length rest" "b = VERSION"
    "ae_decrypt ae key (take NONCE_LEN rest) (drop NONCE_LEN rest) = Some p"
    by (cases sealed) (auto simp: secret_open_def split: if_splits option.splits)
  then have "rest = take NONCE_LEN rest @ drop NONCE_LEN rest" "drop NONCE_LEN rest \<noteq> []" "length (take NONCE_LEN rest) = NONCE_LEN"
    by auto
  with s show ?r by blast
qed (auto simp: secret_open_def)

text \<open>A value sealed under a key opens under it, for a cipher that decrypts what it encrypted and whose
  ciphertexts carry a tag.\<close>

theorem seal_open_roundtrip:
  assumes "\<And>k n p c. ae_encrypt ae k n p = Some c \<Longrightarrow> ae_decrypt ae k n c = Some p"
    and "\<And>k n p c. ae_encrypt ae k n p = Some c \<Longrightarrow> length c = length p + 16"
    and "\<And>json. to_vec x = Inr json \<Longrightarrow> from_slice json = Inr x"
    and "length nonce = NONCE_LEN" "seal_json ae to_vec nonce key x = Inr sealed"
  shows "open_json ae from_slice key sealed = Inr x \<and> 29 \<le> length sealed"
proof -
  from assms(5) obtain json c where j: "to_vec x = Inr json" "ae_encrypt ae key nonce json = Some c"
    "sealed = VERSION # nonce @ c"
    by (auto simp: seal_json_def secret_seal_def split: sum.splits option.splits)
  from assms(2) [OF j(2)] have "c \<noteq> []" "16 \<le> length c" by auto
  with j assms(4) have "secret_open ae key sealed = Inr json" "29 \<le> length sealed"
    using assms(1) [OF j(2)] by (auto simp: secret_open_def NONCE_LEN_def)
  with j assms(3) show ?thesis by (simp add: open_json_def try_bind_def)
qed

text \<open>A cipher for the witness: it changes nothing and appends sixteen zeros.\<close>

definition demo_aead :: aead where
  "demo_aead = \<lparr>ae_encrypt = (\<lambda>_ _ p. Some (p @ replicate 16 0)),
     ae_decrypt = (\<lambda>_ _ c. if drop (length c - 16) c = replicate 16 0 then Some (take (length c - 16) c) else None),
     ae_base64 = (\<lambda>_. Inl [])\<rparr>"

theorem seal_open_roundtrip_witness:
  "\<exists>sealed. seal_json demo_aead Inr (replicate 12 7) [] [1, 2] = Inr sealed
     \<and> open_json demo_aead Inr [] sealed = Inr [1, 2]"
proof -
  have s: "seal_json demo_aead Inr (replicate 12 7) [] [1, 2]
      = Inr (VERSION # replicate 12 7 @ [1, 2] @ replicate 16 0)"
    by (simp add: seal_json_def secret_seal_def demo_aead_def)
  have "open_json demo_aead Inr [] (VERSION # replicate 12 7 @ [1, 2] @ replicate 16 0) = Inr [1, 2]"
    by (rule seal_open_roundtrip [of demo_aead Inr _ Inr, THEN conjunct1, OF _ _ _ _ s])
      (auto simp: demo_aead_def NONCE_LEN_def)
  with s show ?thesis by blast
qed

end
