(* ===== verification/Connection.thy ===== *)
theory Connection
  imports Source_Secret Http Utf8 Sdk_Types
begin

text \<open>
  \<open>crates/worker/src/connection.rs\<close>: the Meilisearch connection of an index step is resolved inside
  the activity. Requests to the control plane are recorded; its answers, the cipher, name resolution
  and the \<open>url\<close> crate are parameters. The lemmas: what a resolved configuration holds, when a step
  is left alone, which failures are retried and that the opened key reaches no error.
\<close>

section \<open>The control plane\<close>

record control_plane =
  cp_base_url :: "rstr option"
  cp_token :: "rstr option"

text \<open>Where a request goes: a parsed URL with path segments pushed to it and query pairs, or a text.\<close>

datatype cp_target = Segments url "rstr list" "(rstr \<times> rstr) list" | Address rstr

record cp_request =
  cq_method :: rstr
  cq_target :: cp_target
  cq_bearer :: "rstr option"
  cq_body :: "json option"

definition authed :: "cp_request \<Rightarrow> rstr option \<Rightarrow> cp_request" where
  "authed req token = (case token of Some t \<Rightarrow> req\<lparr>cq_bearer := Some t\<rparr> | None \<Rightarrow> req)"

record connection_settings =
  cs_key :: "secret_key option"
  cs_policy :: host_policy

definition default_connections :: connection_settings where
  "default_connections = \<lparr>cs_key = None, cs_policy = PolicyPublic\<rparr>"

record connection_row =
  cr_host :: rstr
  cr_api_key :: "byte list"

record cp_env =
  ce_parse_url :: "rstr \<Rightarrow> rstr + url"
  ce_cannot_be_base :: "url \<Rightarrow> bool"
  ce_status :: "nat \<Rightarrow> rstr"
  ce_debug :: "rstr \<Rightarrow> rstr"
  ce_connection :: "cp_request \<Rightarrow> connection_row http_reply"
  ce_net :: net_env
  ce_aead :: aead

definition debug_option :: "(rstr \<Rightarrow> rstr) \<Rightarrow> rstr option \<Rightarrow> rstr" where
  "debug_option d v = (case v of None \<Rightarrow> lit ''None'' | Some s \<Rightarrow> lit ''Some('' @ d s @ lit '')'')"

text \<open>\<open>Url::parse\<close> of a route, then \<open>path_segments_mut\<close>, \<open>pop_if_empty\<close> and \<open>push\<close> of one segment.\<close>

definition internal_route :: "'a cp_env_scheme \<Rightarrow> rstr \<Rightarrow> plugin_error + url" where
  "internal_route env route =
     (case ce_parse_url env route of
        Inl e \<Rightarrow> Inl (ErrNonRetryable (lit ''control plane url: '' @ e))
      | Inr u \<Rightarrow> if ce_cannot_be_base env u then Inl (ErrNonRetryable (lit ''control plane url cannot be a base'')) else Inr u)"

section \<open>Fetching a connection\<close>

definition connection_fetch ::
  "'a cp_env_scheme \<Rightarrow> rstr \<Rightarrow> rstr option \<Rightarrow> rstr \<Rightarrow> rstr option \<Rightarrow> (plugin_error + connection_row) \<times> cp_request list" where
  "connection_fetch env base token name tenant =
     (case internal_route env (base @ lit ''/internal/connections/'') of
        Inl e \<Rightarrow> (Inl e, [])
      | Inr u \<Rightarrow>
          let query = (case tenant of
                None \<Rightarrow> [] | Some p \<Rightarrow> [(lit ''tenant_id'', p), (lit ''scope'', lit ''tenant'')]);
              req = authed \<lparr>cq_method = lit ''GET'', cq_target = Segments u [name] query, cq_bearer = None, cq_body = None\<rparr> token
          in ((case ce_connection env req of
                 NoHttpReply e \<Rightarrow> Inl (ErrRetryable (lit ''control plane unreachable: '' @ e))
               | HttpReply status body \<Rightarrow>
                   if status = 404
                   then Inl (ErrNonRetryable (lit ''connection '' @ ce_debug env name @ lit '' not found (tenant_id=''
                          @ debug_option (ce_debug env) tenant
                          @ lit ''); a tenant job may only use its own connections (global ones are templates), or it was deleted while this pipeline still names it''))
                   else if \<not> http_success status
                   then Inl (ErrRetryable (lit ''control plane returned '' @ ce_status env status
                          @ lit '' for connection '' @ ce_debug env name))
                   else (case body of
                           Inl e \<Rightarrow> Inl (ErrNonRetryable (lit ''connection '' @ ce_debug env name
                                      @ lit '': unreadable response: '' @ e))
                         | Inr row \<Rightarrow> Inr row)), [req]))"

section \<open>Resolving it\<close>

text \<open>What is made of a row: the opened key, then the host checked against the policy of the worker.\<close>

definition open_connection ::
  "'a cp_env_scheme \<Rightarrow> secret_key \<Rightarrow> host_policy \<Rightarrow> rstr \<Rightarrow> connection_row \<Rightarrow> plugin_error + rstr" where
  "open_connection env key policy name row =
     (let fail = (\<lambda>why. Inl (ErrNonRetryable (lit ''connection '' @ ce_debug env name @ lit '': '' @ why))) in
      case secret_open (ce_aead env) key (cr_api_key row) of
        Inl _ \<Rightarrow> fail (lit ''its key could not be decrypted (is SOURCE_SECRET_KEY the one it was saved with?)'')
      | Inr bytes \<Rightarrow>
     (case from_utf8 (map unat bytes) of
        Inl _ \<Rightarrow> fail (lit ''its decrypted key is not valid UTF-8'')
      | Inr api_key \<Rightarrow>
     (case ce_parse_url env (trim (cr_host row)) of
        Inl e \<Rightarrow> fail (lit ''its host '' @ ce_debug env (cr_host row) @ lit '' is not a URL: '' @ e)
      | Inr host \<Rightarrow>
     (case check_host (ce_net env) policy host of
        Inl (SeDns msg) \<Rightarrow> Inl (ErrRetryable (lit ''connection '' @ ce_debug env name @ lit '': '' @ msg))
      | Inl other \<Rightarrow> fail (source_error_str other)
      | Inr _ \<Rightarrow> Inr api_key))))"

definition with_destination :: "rstr \<Rightarrow> rstr \<Rightarrow> json \<Rightarrow> json" where
  "with_destination host api_key config =
     (case config of
        JObject obj \<Rightarrow> JObject (bt_insert (lit ''api_key'') (JString api_key) (bt_insert (lit ''host'') (JString host) obj))
      | other \<Rightarrow> other)"

definition resolve_connection ::
  "'a cp_env_scheme \<Rightarrow> control_plane \<Rightarrow> connection_settings \<Rightarrow> rstr \<Rightarrow> json \<Rightarrow> rstr option
   \<Rightarrow> (plugin_error + json) \<times> cp_request list" where
  "resolve_connection env cp settings plugin config tenant =
     (if plugin \<noteq> INDEXER_PLUGIN then (Inr config, [])
      else (case pinned_connection config of
        None \<Rightarrow> (Inr config, [])
      | Some name \<Rightarrow>
          let fail = (\<lambda>why. (Inl (ErrNonRetryable (lit ''connection '' @ ce_debug env name @ lit '': '' @ why)), []))
          in (case cs_key settings of
                None \<Rightarrow> fail (lit ''SOURCE_SECRET_KEY is not set on this worker'')
              | Some key \<Rightarrow>
             (case cp_base_url cp of
                None \<Rightarrow> fail (lit ''no control plane is configured on this worker'')
              | Some base \<Rightarrow>
                  (let (r, reqs) = connection_fetch env base (cp_token cp) name tenant
                   in (try_bind r (\<lambda>row. try_bind (open_connection env key (cs_policy settings) name row) (\<lambda>api_key.
                         Inr (with_destination (trim (cr_host row)) api_key config))), reqs))))))"
section \<open>Requests\<close>

lemma authed_simps [simp]:
  "cq_method (authed req token) = cq_method req" "cq_target (authed req token) = cq_target req"
  "cq_body (authed req token) = cq_body req"
  by (auto simp: authed_def split: option.split)

text \<open>A request for a connection of a tenant asks for a connection the tenant owns.\<close>

definition tenant_scoped :: "rstr \<Rightarrow> rstr option \<Rightarrow> cp_request \<Rightarrow> bool" where
  "tenant_scoped name tenant req \<longleftrightarrow> cq_method req = lit ''GET'' \<and>
     (case cq_target req of
        Segments u segments query \<Rightarrow> segments = [name]
          \<and> query = (case tenant of None \<Rightarrow> [] | Some t \<Rightarrow> [(lit ''tenant_id'', t), (lit ''scope'', lit ''tenant'')])
      | Address _ \<Rightarrow> False)"

lemma connection_fetch_requests:
  "list_all (tenant_scoped name tenant) (snd (connection_fetch env base token name tenant))"
  "length (snd (connection_fetch env base token name tenant)) \<le> 1"
  by (auto simp: connection_fetch_def tenant_scoped_def Let_def split: sum.split http_reply.split)

lemma resolve_connection_other:
  "plugin \<noteq> INDEXER_PLUGIN \<or> pinned_connection config = None \<Longrightarrow>
     resolve_connection env cp settings plugin config tenant = (Inr config, [])"
  by (auto simp: resolve_connection_def)

text \<open>The two ways a step with a connection goes on once the worker has a key and a control plane.\<close>

lemma resolve_connection_pinned:
  assumes "pinned_connection config = Some name" "cs_key settings = Some key" "cp_base_url cp = Some base"
  shows "resolve_connection env cp settings INDEXER_PLUGIN config tenant =
    (try_bind (fst (connection_fetch env base (cp_token cp) name tenant)) (\<lambda>row.
       try_bind (open_connection env key (cs_policy settings) name row) (\<lambda>api_key.
         Inr (with_destination (trim (cr_host row)) api_key config))),
     snd (connection_fetch env base (cp_token cp) name tenant))"
  using assms by (simp add: resolve_connection_def case_prod_beta)

text \<open>Without a key or a control plane nothing is asked and the step fails for good.\<close>

lemma resolve_connection_unset:
  assumes "pinned_connection config = Some name" "cs_key settings = None \<or> cp_base_url cp = None"
  shows "\<exists>m. resolve_connection env cp settings INDEXER_PLUGIN config tenant = (Inl (ErrNonRetryable m), [])"
  using assms by (auto simp: resolve_connection_def Let_def split: option.split)

lemma open_connection_ok:
  "open_connection env key policy name row = Inr api_key \<longleftrightarrow>
     (\<exists>bytes host. secret_open (ce_aead env) key (cr_api_key row) = Inr bytes \<and> from_utf8 (map unat bytes) = Inr api_key
        \<and> ce_parse_url env (trim (cr_host row)) = Inr host \<and> check_host (ce_net env) policy host = Inr ())"
  by (auto simp: open_connection_def Let_def split: sum.split source_error.split)

lemma open_connection_retryable:
  "open_connection env key policy name row = Inl e \<Longrightarrow> is_retryable e \<longleftrightarrow>
     (\<exists>bytes k host m. secret_open (ce_aead env) key (cr_api_key row) = Inr bytes \<and> from_utf8 (map unat bytes) = Inr k
        \<and> ce_parse_url env (trim (cr_host row)) = Inr host \<and> check_host (ce_net env) policy host = Inl (SeDns m))"
  by (auto simp: open_connection_def Let_def split: sum.splits source_error.splits)

text \<open>Two keys that open to text are told apart by no error.\<close>

lemma open_connection_error_hides_key:
  assumes "open_connection env key policy name row = Inl e" "cr_host row' = cr_host row"
    and "secret_open (ce_aead env) key (cr_api_key row) = Inr b" "from_utf8 (map unat b) = Inr k"
    and "secret_open (ce_aead env) key (cr_api_key row') = Inr b'" "from_utf8 (map unat b') = Inr k'"
  shows "open_connection env key policy name row' = Inl e"
  using assms by (auto simp: open_connection_def Let_def split: sum.splits source_error.splits)

lemma with_destination_get:
  "json_is_object config \<Longrightarrow> json_get (with_destination host api_key config) k =
     (if k = lit ''api_key'' then Some (JString api_key) else if k = lit ''host'' then Some (JString host) else json_get config k)"
  by (cases config) (simp_all add: with_destination_def bt_get_insert)

lemma pinned_object: "pinned_connection config = Some name \<Longrightarrow> json_is_object config"
  by (cases config) (simp_all add: pinned_connection_def)

section \<open>What a step gets\<close>

text \<open>An index step that names a connection runs only with the host and the opened key of the row that
  the control plane answered to its tenant, the host accepted by the policy of this worker; the rest of
  its configuration is unchanged.\<close>

theorem connection_resolved:
  assumes "pinned_connection config = Some name"
    and "resolve_connection env cp settings INDEXER_PLUGIN config tenant = (Inr config', reqs)"
  shows "\<exists>req status row key bytes api_key host. reqs = [req] \<and> tenant_scoped name tenant req
    \<and> ce_connection env req = HttpReply status (Inr row) \<and> cs_key settings = Some key
    \<and> secret_open (ce_aead env) key (cr_api_key row) = Inr bytes \<and> from_utf8 (map unat bytes) = Inr api_key
    \<and> ce_parse_url env (trim (cr_host row)) = Inr host \<and> check_host (ce_net env) (cs_policy settings) host = Inr ()
    \<and> json_get config' = (json_get config)(lit ''host'' \<mapsto> JString (trim (cr_host row)), lit ''api_key'' \<mapsto> JString api_key)"
proof -
  from assms obtain key base where k: "cs_key settings = Some key" "cp_base_url cp = Some base"
    by (auto simp: resolve_connection_def Let_def split: option.splits)
  note r = resolve_connection_pinned [OF assms(1) k, of env tenant]
  from assms(2) obtain row api_key where row: "fst (connection_fetch env base (cp_token cp) name tenant) = Inr row"
    "open_connection env key (cs_policy settings) name row = Inr api_key"
    "config' = with_destination (trim (cr_host row)) api_key config"
    "reqs = snd (connection_fetch env base (cp_token cp) name tenant)"
    unfolding r by (auto simp: try_bind_eq_Inr)
  from row(1) obtain req status where req: "snd (connection_fetch env base (cp_token cp) name tenant) = [req]"
    "ce_connection env req = HttpReply status (Inr row)"
    by (auto simp: connection_fetch_def Let_def split: sum.splits http_reply.splits if_splits)
  have "json_get config' = (json_get config)(lit ''host'' \<mapsto> JString (trim (cr_host row)), lit ''api_key'' \<mapsto> JString api_key)"
    using pinned_object [OF assms(1)] by (auto simp: row(3) with_destination_get)
  moreover have "tenant_scoped name tenant req"
    using connection_fetch_requests(1) [of name tenant env base "cp_token cp"] req(1) by simp
  ultimately show ?thesis
    using row(2,4) req k(1) unfolding open_connection_ok by fastforce
qed

text \<open>The failures that are retried are the passing ones: no reply, a status other than 404 that is no
  success, and a host that does not resolve.\<close>

theorem connection_failures:
  assumes "resolve_connection env cp settings plugin config tenant = (Inl e, reqs)"
  shows "is_retryable e \<longleftrightarrow> (\<exists>req. reqs = [req] \<and>
    (case ce_connection env req of
       NoHttpReply _ \<Rightarrow> True
     | HttpReply status (Inl _) \<Rightarrow> status \<noteq> 404 \<and> \<not> http_success status
     | HttpReply status (Inr row) \<Rightarrow> status \<noteq> 404 \<and> (\<not> http_success status
         \<or> (\<exists>key bytes k host m. cs_key settings = Some key \<and> secret_open (ce_aead env) key (cr_api_key row) = Inr bytes
              \<and> from_utf8 (map unat bytes) = Inr k \<and> ce_parse_url env (trim (cr_host row)) = Inr host
              \<and> check_host (ce_net env) (cs_policy settings) host = Inl (SeDns m)))))"
proof -
  from assms obtain name where n: "plugin = INDEXER_PLUGIN" "pinned_connection config = Some name"
    using resolve_connection_other [of plugin config env cp settings tenant] by fastforce
  show ?thesis
  proof (cases "cs_key settings = None \<or> cp_base_url cp = None")
    case True
    with resolve_connection_unset [OF n(2) True, of env tenant] assms n show ?thesis by auto
  next
    case False
    then obtain key base where k: "cs_key settings = Some key" "cp_base_url cp = Some base" by auto
    have r: "(Inl e, reqs) = (try_bind (fst (connection_fetch env base (cp_token cp) name tenant)) (\<lambda>row.
         try_bind (open_connection env key (cs_policy settings) name row) (\<lambda>api_key.
           Inr (with_destination (trim (cr_host row)) api_key config))),
       snd (connection_fetch env base (cp_token cp) name tenant))"
      using assms n resolve_connection_pinned [OF n(2) k, of env tenant] by simp
    show ?thesis
    proof (cases "fst (connection_fetch env base (cp_token cp) name tenant)")
      case (Inl e')
      with r k show ?thesis
        by (auto simp: connection_fetch_def internal_route_def Let_def split: sum.splits http_reply.splits if_splits)
    next
      case (Inr row)
      then obtain req status where "snd (connection_fetch env base (cp_token cp) name tenant) = [req]"
        "ce_connection env req = HttpReply status (Inr row)" "status \<noteq> 404" "http_success status"
        by (auto simp: connection_fetch_def Let_def split: sum.splits http_reply.splits if_splits)
      moreover from Inr r have "open_connection env key (cs_policy settings) name row = Inl e"
        by (auto simp: try_bind_def split: sum.splits)
      ultimately show ?thesis using r k open_connection_retryable by simp
    qed
  qed
qed

section \<open>Witnesses\<close>

definition demo_host_url :: "rstr \<Rightarrow> url" where
  "demo_host_url t = \<lparr>url_text = t, url_scheme = lit ''http'', url_username = [], url_host = Some t, url_port = None,
     url_known_port = Some 80, url_path = lit ''/'', url_origin = TupleOrigin (lit ''http'') t 80\<rparr>"

definition demo_cp_env :: "nat \<Rightarrow> cp_env" where
  "demo_cp_env status = \<lparr>ce_parse_url = (\<lambda>s. Inr (demo_host_url s)), ce_cannot_be_base = (\<lambda>_. False),
     ce_status = show_nat, ce_debug = id,
     ce_connection = (\<lambda>_. HttpReply status (Inr \<lparr>cr_host = lit '' m '',
        cr_api_key = VERSION # replicate 12 7 @ [107] @ replicate 16 0\<rparr>)),
     ce_net = \<lparr>ne_resolve = (\<lambda>_ _. DnsFound []), ne_show_ip = (\<lambda>_. []), ne_debug = id\<rparr>, ce_aead = demo_aead\<rparr>"

definition demo_cp :: control_plane where
  "demo_cp = \<lparr>cp_base_url = Some (lit ''c''), cp_token = None\<rparr>"

definition demo_settings :: connection_settings where
  "demo_settings = \<lparr>cs_key = Some [], cs_policy = PolicyAllow [\<lparr>hp_host = lit ''m'', hp_port = None\<rparr>]\<rparr>"

definition demo_config :: json where
  "demo_config = JObject [(lit ''connection'', JString (lit ''x''))]"

lemma demo_pinned: "pinned_connection demo_config = Some (lit ''x'')" by code_simp

lemma demo_fetch:
  "fst (connection_fetch (demo_cp_env status) base token name tenant) =
     (if status = 404 then Inl (ErrNonRetryable (lit ''connection '' @ name @ lit '' not found (tenant_id='' @ debug_option id tenant
          @ lit ''); a tenant job may only use its own connections (global ones are templates), or it was deleted while this pipeline still names it''))
      else if \<not> http_success status
      then Inl (ErrRetryable (lit ''control plane returned '' @ show_nat status @ lit '' for connection '' @ name))
      else Inr \<lparr>cr_host = lit '' m '', cr_api_key = VERSION # replicate 12 7 @ [107] @ replicate 16 0\<rparr>)"
  by (simp add: connection_fetch_def internal_route_def demo_cp_env_def Let_def)

lemma demo_open:
  "open_connection (demo_cp_env 200) [] (PolicyAllow [\<lparr>hp_host = lit ''m'', hp_port = None\<rparr>]) (lit ''x'')
     \<lparr>cr_host = lit '' m '', cr_api_key = VERSION # replicate 12 7 @ [107] @ replicate 16 0\<rparr> = Inr (lit ''k'')"
  by code_simp

lemma demo_indexer: "resolve_connection env demo_cp demo_settings INDEXER_PLUGIN demo_config None =
   (let (r, reqs) = connection_fetch env (lit ''c'') None (lit ''x'') None
    in (try_bind r (\<lambda>row. try_bind (open_connection env [] (PolicyAllow [\<lparr>hp_host = lit ''m'', hp_port = None\<rparr>]) (lit ''x'') row)
          (\<lambda>api_key. Inr (with_destination (trim (cr_host row)) api_key demo_config))), reqs))"
  by (simp add: resolve_connection_def demo_pinned demo_settings_def demo_cp_def)

lemma demo_connection:
  "\<exists>config'. fst (resolve_connection (demo_cp_env 200) demo_cp demo_settings INDEXER_PLUGIN demo_config None) = Inr config'"
  using demo_open by (simp add: demo_indexer demo_fetch http_success_def try_bind_def case_prod_beta Let_def)

theorem connection_resolved_witness:
  "\<exists>config' reqs. resolve_connection (demo_cp_env 200) demo_cp demo_settings INDEXER_PLUGIN demo_config None = (Inr config', reqs)
     \<and> json_get config' (lit ''host'') = Some (JString (lit ''m''))"
proof -
  obtain config' reqs where r: "resolve_connection (demo_cp_env 200) demo_cp demo_settings INDEXER_PLUGIN demo_config None = (Inr config', reqs)"
    using demo_connection by (metis prod.collapse)
  have "trim (lit '' m '') = lit ''m''" by code_simp
  with connection_resolved [OF demo_pinned r] r show ?thesis
    by (auto simp: demo_cp_env_def lit_def)
qed

lemma demo_connection_fails:
  "\<exists>e. fst (resolve_connection (demo_cp_env 503) demo_cp demo_settings INDEXER_PLUGIN demo_config None) = Inl e"
  by (simp add: demo_indexer demo_fetch http_success_def try_bind_def case_prod_beta Let_def)

theorem connection_failures_witness:
  "\<exists>e reqs. resolve_connection (demo_cp_env 503) demo_cp demo_settings INDEXER_PLUGIN demo_config None = (Inl e, reqs)
     \<and> (is_retryable e \<longleftrightarrow> length reqs = 1)"
proof -
  obtain e reqs where r: "resolve_connection (demo_cp_env 503) demo_cp demo_settings INDEXER_PLUGIN demo_config None = (Inl e, reqs)"
    using demo_connection_fails by (metis prod.collapse)
  have "length reqs \<le> 1 \<Longrightarrow> length reqs = 1 \<longleftrightarrow> (\<exists>req. reqs = [req])" by (cases reqs) auto
  with connection_failures [OF r] r show ?thesis
    by (auto simp: demo_cp_env_def http_success_def length_Suc_conv)
qed

end
