(* ===== verification/Ai_Target.thy ===== *)
theory Ai_Target
  imports Plugin_Host Connection
begin

text \<open>
  \<open>crates/worker/src/ai_target.rs\<close>: asking the control plane for the Gateway target of a Lab account.
  The lemmas: one request at most, which failures are final, and that an answer that cannot be used
  reaches no error.
\<close>

text \<open>An answer as the code reads it: the fields \<open>error\<close> and \<open>code\<close> of a failure when its body is JSON
  (each empty when absent), the target of a success when it can be read.\<close>

record ai_response =
  ar_status :: nat
  ar_error :: "(rstr \<times> rstr) option"
  ar_target :: "ai_target option option"

record ai_env = cp_env +
  ai_reply :: "cp_request \<Rightarrow> rstr + ai_response"

definition ERROR_CHARS :: nat where
  "ERROR_CHARS = 300"

definition ai_failure :: "'a ai_env_scheme \<Rightarrow> ai_response \<Rightarrow> plugin_error" where
  "ai_failure env resp =
     (let status = ar_status resp; (error, code) = (case ar_error resp of Some b \<Rightarrow> b | None \<Rightarrow> ([], []));
          detail = (if code = [] \<and> error = [] then []
             else lit '': '' @ truncate_chars error ERROR_CHARS @ lit '' ('' @ truncate_chars code 64 @ lit '')'')
      in if status = 404 \<and> code = lit ''no_gateway''
         then ErrNonRetryable (lit ''this team has no Gateway in the Lab'' @ detail)
         else if status = 403 \<and> code = lit ''token_required''
         then ErrNonRetryable (lit ''the control plane serves no Lab Gateway target without CONTROL_PLANE_TOKEN (HTTP 403)'' @ detail)
         else if status = 404
         then ErrRetryable (lit ''control plane answered 404 for the Lab Gateway target (is /internal/lab/ai deployed on every replica?)''
                @ detail)
         else ErrRetryable (lit ''control plane returned '' @ ce_status env status @ lit '' for the Lab Gateway target'' @ detail))"

text \<open>What is made of the answer.\<close>

definition read_target :: "'a ai_env_scheme \<Rightarrow> rstr + ai_response \<Rightarrow> plugin_error + ai_target option" where
  "read_target env reply =
     (case reply of
        Inl e \<Rightarrow> Inl (ErrRetryable (lit ''control plane unreachable for the Lab Gateway target: '' @ e))
      | Inr resp \<Rightarrow>
          if \<not> http_success (ar_status resp) then Inl (ai_failure env resp)
          else (case ar_target resp of
                  None \<Rightarrow> Inl (ErrRetryable (lit ''control plane sent an unreadable Lab Gateway target''))
                | Some target \<Rightarrow> Inr target))"

definition fetch_ai_target ::
  "'a ai_env_scheme \<Rightarrow> control_plane \<Rightarrow> rstr \<Rightarrow> rstr option \<Rightarrow> bool \<Rightarrow> (plugin_error + ai_target option) \<times> cp_request list" where
  "fetch_ai_target env cp tenant rejected refresh =
     (case cp_base_url cp of
        None \<Rightarrow> (Inl (ErrNonRetryable (lit ''LAB_AI_GATEWAY needs CONTROL_PLANE_URL: no control plane is configured on this worker'')), [])
      | Some base \<Rightarrow>
     (case internal_route env (base @ lit ''/internal/lab/ai/'') of
        Inl e \<Rightarrow> (Inl e, [])
      | Inr u \<Rightarrow>
          let query = (case rejected of Some k \<Rightarrow> [(lit ''rejected_key_id'', k)] | None \<Rightarrow> [])
                @ (if refresh then [(lit ''refresh'', lit ''true'')] else []);
              req = authed \<lparr>cq_method = lit ''GET'', cq_target = Segments u [tenant] query, cq_bearer = None, cq_body = None\<rparr>
                (cp_token cp)
          in (read_target env (ai_reply env req), [req])))"

section \<open>Requests and failures\<close>

text \<open>A request for the target of one account.\<close>

definition ai_request :: "rstr \<Rightarrow> cp_request \<Rightarrow> bool" where
  "ai_request tenant req \<longleftrightarrow> cq_method req = lit ''GET'' \<and>
     (case cq_target req of Segments u segments query \<Rightarrow> segments = [tenant] | Address _ \<Rightarrow> False)"

lemma fetch_ai_target_requests:
  "list_all (ai_request tenant) (snd (fetch_ai_target env cp tenant rejected refresh))"
  "length (snd (fetch_ai_target env cp tenant rejected refresh)) \<le> 1"
  by (auto simp: fetch_ai_target_def ai_request_def Let_def split: option.split sum.split)

lemma ai_failure_final:
  "\<not> is_retryable (ai_failure env resp) \<longleftrightarrow>
     (ar_status resp, map_option snd (ar_error resp)) \<in> {(404, Some (lit ''no_gateway'')), (403, Some (lit ''token_required''))}"
  by (auto simp: ai_failure_def Let_def lit_def split: option.splits prod.splits)

text \<open>Only a target that the control plane answered with success is served, and it is the answer.\<close>

lemma fetch_ai_target_ok:
  "fst (fetch_ai_target env cp tenant rejected refresh) = Inr target \<longleftrightarrow>
     (\<exists>req resp. snd (fetch_ai_target env cp tenant rejected refresh) = [req] \<and> ai_reply env req = Inr resp
        \<and> http_success (ar_status resp) \<and> ar_target resp = Some target)"
  by (auto simp: fetch_ai_target_def internal_route_def read_target_def Let_def split: option.split sum.split if_splits)

text \<open>A step waits for its Gateway target only where waiting can help: a team without a Gateway and a
  control plane without its token are final, and so is a worker without a control plane or with an
  unusable address for it; every other failure is retried.\<close>

theorem ai_target_failures:
  assumes "fetch_ai_target env cp tenant rejected refresh = (Inl e, reqs)"
  shows "is_retryable e \<longleftrightarrow> (\<exists>req. reqs = [req] \<and>
    (case ai_reply env req of
       Inl _ \<Rightarrow> True
     | Inr resp \<Rightarrow> (ar_status resp, map_option snd (ar_error resp))
         \<notin> {(404, Some (lit ''no_gateway'')), (403, Some (lit ''token_required''))}))"
proof (cases "reqs = []")
  case True
  with assms show ?thesis
    by (auto simp: fetch_ai_target_def internal_route_def Let_def split: option.splits sum.splits if_splits)
next
  case False
  with assms obtain req where r: "reqs = [req]" "read_target env (ai_reply env req) = Inl e"
    by (auto simp: fetch_ai_target_def Let_def split: option.splits sum.splits)
  show ?thesis
  proof (cases "ai_reply env req")
    case (Inr resp)
    then have "(ar_status resp, map_option snd (ar_error resp))
        \<notin> {(404, Some (lit ''no_gateway'')), (403, Some (lit ''token_required''))}" if "http_success (ar_status resp)"
      using that by (auto simp: http_success_def)
    with r Inr ai_failure_final [of env resp] show ?thesis
      by (auto simp: read_target_def split: if_splits option.splits)
  qed (use r in \<open>auto simp: read_target_def\<close>)
qed

text \<open>A refused key is reported: the Gateway's 401 marks the target and asks for a retry, its 402 is final,
  and every other status leaves both to the plugin.\<close>

lemma gateway_failure_cases:
  "gateway_failure t 401 body = (Some (ErrRetryable (lit ''the Gateway refused the Lab key (HTTP 401); retrying with a new key'')),
     mark_rejected t)"
  "\<exists>m. gateway_failure t 402 body = (Some (ErrNonRetryable m), t)"
  "code \<noteq> 401 \<Longrightarrow> code \<noteq> 402 \<Longrightarrow> gateway_failure t code body = (None, t)"
  by (simp_all add: gateway_failure_def lit_def show_nat.simps)

section \<open>Witness\<close>

definition demo_ai_env :: "nat \<Rightarrow> (rstr \<times> rstr) option \<Rightarrow> ai_target option option \<Rightarrow> ai_env" where
  "demo_ai_env status error target = cp_env.extend (demo_cp_env 200) \<lparr>ai_reply =
     (\<lambda>_. Inr \<lparr>ar_status = status, ar_error = error, ar_target = target\<rparr>)\<rparr>"

theorem ai_target_failures_witness:
  "\<exists>e reqs. fetch_ai_target (demo_ai_env 404 (Some ([], lit ''no_gateway'')) None) demo_cp (lit ''t'') None False = (Inl e, reqs)
     \<and> \<not> is_retryable e"
proof -
  let ?env = "demo_ai_env 404 (Some ([], lit ''no_gateway'')) None"
  obtain e reqs where r: "fetch_ai_target ?env demo_cp (lit ''t'') None False = (Inl e, reqs)"
    using fetch_ai_target_ok [of ?env demo_cp "lit ''t''" None False]
    by (cases "fetch_ai_target ?env demo_cp (lit ''t'') None False"; cases "fst (fetch_ai_target ?env demo_cp (lit ''t'') None False)")
      (auto simp: demo_ai_env_def cp_env.defs http_success_def)
  from ai_target_failures [OF r] r show ?thesis
    by (auto simp: demo_ai_env_def cp_env.defs)
qed

end
