(* ===== verification/Usage_Lab.thy ===== *)
theory Usage_Lab
  imports Usage_Events Lab_Credits
begin

text \<open>
  \<open>crates/usage/src/lab.rs\<close>: the Lab events of a finished job, one bill and one lifecycle event. The
  \<open>uuid\<close> crate (parsing, version 5 ids) and the RFC 3339 text of a time are parameters. The lemmas:
  which jobs have events, that the events agree with the analytics row of the job, and how their
  numbers are rounded and capped.
\<close>

section \<open>Events\<close>

record usage_data =
  ud_operation :: rstr
  ud_units :: "(rstr, u64) btree"
  ud_provider_cost :: u64
  ud_description :: rstr
  ud_job_id :: rstr

record job_completed_data =
  jc_job_id :: rstr
  jc_index_uid :: rstr
  jc_pages_crawled :: u64
  jc_documents_indexed :: u64
  jc_duration_secs :: u64

record job_failed_data =
  jf_job_id :: rstr
  jf_error_message :: rstr
  jf_pages_crawled :: u64

datatype lab_event_data = LabUsage usage_data | LabCompleted job_completed_data | LabFailed job_failed_data

record lab_event =
  le_id :: uuid
  le_kind :: rstr
  le_occurred_at :: rstr
  le_account_id :: rstr
  le_api_key_id :: "rstr option"
  le_product :: rstr
  le_data :: lab_event_data

datatype skip_reason = NoTenant | NotAUuid

fun skip_reason_str :: "skip_reason \<Rightarrow> rstr" where
  "skip_reason_str NoTenant = lit ''no_tenant''"
| "skip_reason_str NotAUuid = lit ''not_a_uuid''"

definition OPERATION :: rstr where
  "OPERATION = lit ''ingest''"

definition LAB_PRODUCT :: rstr where
  "LAB_PRODUCT = lit ''glutony''"

definition OCR_PLUGIN :: rstr where
  "OCR_PLUGIN = lit ''ocr''"

text \<open>\<open>lv_parse\<close> is \<open>Uuid::parse_str\<close> followed by the hyphenated form, \<open>lv_v5\<close> the id of a name in the
  namespace \<open>GLUTONY_LAB_NAMESPACE\<close>.\<close>

record lab_env =
  lv_parse :: "rstr \<Rightarrow> uuid option"
  lv_v5 :: "rstr \<Rightarrow> uuid"
  lv_rfc3339 :: "nanos \<Rightarrow> rstr"

definition lab_event_id :: "'a lab_env_scheme \<Rightarrow> uuid \<Rightarrow> uuid" where
  "lab_event_id env job = lv_v5 env (lit ''job:'' @ job @ lit '':usage'')"

definition lab_job_event_id :: "'a lab_env_scheme \<Rightarrow> uuid \<Rightarrow> uuid" where
  "lab_job_event_id env job = lv_v5 env (lit ''job:'' @ job @ lit '':lifecycle'')"

definition lab_account :: "'a lab_env_scheme \<Rightarrow> rstr \<Rightarrow> skip_reason + uuid" where
  "lab_account env tenant =
     (if tenant = [] then Inl NoTenant
      else (case lv_parse env tenant of
              Some a \<Rightarrow> if a = tenant then Inr a else Inl NotAUuid
            | None \<Rightarrow> Inl NotAUuid))"

section \<open>Units\<close>

definition lab_totals :: "job_usage_input \<Rightarrow> usage_units" where
  "lab_totals inp = fold (\<lambda>s totals. usage_merge totals (sr_usage s)) (ju_steps inp) no_usage"

definition unpriced_provider_calls :: "job_usage_input \<Rightarrow> u64" where
  "unpriced_provider_calls inp = unpriced_calls (lab_totals inp)"

definition documents_out :: "job_usage_input \<Rightarrow> u64" where
  "documents_out inp = (if ju_steps inp = [] then 0 else of_nat (sr_document_count (last (ju_steps inp))))"

definition ocr_pages :: "job_usage_input \<Rightarrow> u64" where
  "ocr_pages inp = fold (\<lambda>n acc. sat_add acc n)
     (map (\<lambda>s. if 0 < uu_pages (sr_usage s) then uu_pages (sr_usage s) else of_nat (sr_document_count s))
        (filter (\<lambda>s. sr_plugin s = OCR_PLUGIN) (ju_steps inp))) 0"

definition step_millis :: "job_usage_input \<Rightarrow> u64" where
  "step_millis inp = fold (\<lambda>s acc. sat_add acc (sr_duration_ms s)) (ju_steps inp) 0"

definition billed_audio :: "f64 \<Rightarrow> u64" where
  "billed_audio s = (if f64_is_finite s \<and> f64_is_positive s then f64_as_word (f64_ceil s) else 0)"

definition lab_units :: "job_usage_input \<Rightarrow> usage_units \<Rightarrow> (rstr, u64) btree" where
  "lab_units inp totals = bt_of_list
     [(lit ''documents'', documents_out inp), (lit ''bytes_in'', ju_input_bytes inp),
      (lit ''step_seconds'', of_nat (div_ceil_nat (unat (step_millis inp)) 1000)),
      (lit ''llm_tokens_in'', llm_input_tokens totals), (lit ''llm_tokens_out'', llm_output_tokens totals),
      (lit ''audio_seconds'', billed_audio (audio_seconds totals)), (lit ''ocr_pages'', ocr_pages inp),
      (lit ''pages'', uu_pages totals), (lit ''images'', uu_images totals),
      (lit ''llm_requests'', llm_requests totals), (lit ''external_requests'', external_requests totals),
      (lit ''unpriced_provider_calls'', unpriced_calls totals)]"

section \<open>The events of a job\<close>

definition envelope :: "'a lab_env_scheme \<Rightarrow> job_usage_input \<Rightarrow> uuid \<Rightarrow> rstr \<Rightarrow> lab_event_data \<Rightarrow> skip_reason + lab_event" where
  "envelope env inp i kind data =
     try_bind (lab_account env (ju_tenant_id inp)) (\<lambda>account.
       Inr \<lparr>le_id = i, le_kind = kind, le_occurred_at = lv_rfc3339 env (ju_finished_at inp), le_account_id = account,
            le_api_key_id = None, le_product = LAB_PRODUCT, le_data = data\<rparr>)"

definition lab_description :: "job_usage_input \<Rightarrow> bool \<Rightarrow> rstr" where
  "lab_description inp priced = lit ''Job '' @ ju_job_id inp @ lit '' ('' @ ju_pipeline_uid inp @ lit '', ''
     @ job_status_str (ju_status inp) @ lit '', '' @ show_nat (unat (documents_out inp)) @ lit '' documents''
     @ (if priced then [] else lit '', provider cost incomplete'') @ lit '')''"

definition lab_event_for_job :: "'a lab_env_scheme \<Rightarrow> job_usage_input \<Rightarrow> skip_reason + lab_event" where
  "lab_event_for_job env inp =
     (let totals = lab_totals inp; priced = unpriced_calls totals = 0
      in envelope env inp (lab_event_id env (ju_job_id inp)) (lit ''usage.recorded'')
           (LabUsage \<lparr>ud_operation = OPERATION, ud_units = lab_units inp totals,
              ud_provider_cost = min (cost_micro_usd totals) 0x7FFFFFFFFFFFFFFF,
              ud_description = lab_description inp priced, ud_job_id = ju_job_id inp\<rparr>))"

text \<open>\<open>num_seconds\<close> drops the fraction.\<close>

definition duration_secs :: "job_usage_input \<Rightarrow> u64" where
  "duration_secs inp =
     (let ns = ju_finished_at inp - ju_started_at inp;
          s = (if ns < 0 then - ((- ns) div 1000000000) else ns div 1000000000)
      in word_of_int (max s 0))"

definition lab_job_event_for_job :: "'a lab_env_scheme \<Rightarrow> job_usage_input \<Rightarrow> skip_reason + lab_event" where
  "lab_job_event_for_job env inp =
     (let (kind, data) =
        (if ju_status inp = Succeeded
         then (lit ''job.completed'', LabCompleted \<lparr>jc_job_id = ju_job_id inp, jc_index_uid = ju_pipeline_uid inp,
                 jc_pages_crawled = 0, jc_documents_indexed = documents_out inp, jc_duration_secs = duration_secs inp\<rparr>)
         else (lit ''job.failed'', LabFailed \<lparr>jf_job_id = ju_job_id inp,
                 jf_error_message = (case ju_error inp of
                    Some e \<Rightarrow> if trim e \<noteq> [] then e else job_status_str (ju_status inp)
                  | None \<Rightarrow> job_status_str (ju_status inp)),
                 jf_pages_crawled = 0\<rparr>))
      in envelope env inp (lab_job_event_id env (ju_job_id inp)) kind data)"

definition lab_events_for_job :: "'a lab_env_scheme \<Rightarrow> job_usage_input \<Rightarrow> skip_reason + lab_event list" where
  "lab_events_for_job env inp =
     try_bind (lab_event_for_job env inp) (\<lambda>u. try_bind (lab_job_event_for_job env inp) (\<lambda>l. Inr [u, l]))"

section \<open>JSON of an event\<close>

definition json_u64 :: "u64 \<Rightarrow> json" where
  "json_u64 n = JNumber (JInt (uint n))"

fun lab_data_json :: "lab_event_data \<Rightarrow> json" where
  "lab_data_json (LabUsage d) = json_obj [(lit ''operation'', JString (ud_operation d)),
     (lit ''units'', JObject (map (\<lambda>(k, v). (k, json_u64 v)) (ud_units d))),
     (lit ''provider_cost_micro_usd'', json_u64 (ud_provider_cost d)), (lit ''description'', JString (ud_description d)),
     (lit ''job_id'', JString (ud_job_id d))]"
| "lab_data_json (LabCompleted d) = json_obj [(lit ''job_id'', JString (jc_job_id d)), (lit ''index_uid'', JString (jc_index_uid d)),
     (lit ''pages_crawled'', json_u64 (jc_pages_crawled d)), (lit ''documents_indexed'', json_u64 (jc_documents_indexed d)),
     (lit ''duration_secs'', json_u64 (jc_duration_secs d))]"
| "lab_data_json (LabFailed d) = json_obj [(lit ''job_id'', JString (jf_job_id d)),
     (lit ''error_message'', JString (jf_error_message d)), (lit ''pages_crawled'', json_u64 (jf_pages_crawled d))]"

definition lab_event_json :: "lab_event \<Rightarrow> json" where
  "lab_event_json e = json_obj [(lit ''id'', JString (le_id e)), (lit ''type'', JString (le_kind e)),
     (lit ''occurred_at'', JString (le_occurred_at e)), (lit ''account_id'', JString (le_account_id e)),
     (lit ''api_key_id'', (case le_api_key_id e of Some k \<Rightarrow> JString k | None \<Rightarrow> JNull)),
     (lit ''product'', JString (le_product e)), (lit ''data'', lab_data_json (le_data e))]"

section \<open>Which jobs have events\<close>

lemma lab_events_for_job_iff:
  "lab_events_for_job env inp =
     (case lab_account env (ju_tenant_id inp) of
        Inl r \<Rightarrow> Inl r
      | Inr a \<Rightarrow> (case (lab_event_for_job env inp, lab_job_event_for_job env inp) of
                    (Inr u, Inr l) \<Rightarrow> Inr [u, l] | _ \<Rightarrow> Inl NoTenant))"
  by (auto simp: lab_events_for_job_def lab_event_for_job_def lab_job_event_for_job_def envelope_def try_bind_def Let_def
      split: sum.split)

lemma lab_event_simps:
  assumes "lab_account env (ju_tenant_id inp) = Inr a"
  shows "\<exists>u l. lab_events_for_job env inp = Inr [u, l] \<and> le_id u = lab_event_id env (ju_job_id inp)
    \<and> le_id l = lab_job_event_id env (ju_job_id inp) \<and> le_account_id u = a \<and> le_account_id l = a
    \<and> le_kind u = lit ''usage.recorded''
    \<and> le_kind l = (if ju_status inp = Succeeded then lit ''job.completed'' else lit ''job.failed'')
    \<and> le_data u = LabUsage \<lparr>ud_operation = OPERATION, ud_units = lab_units inp (lab_totals inp),
         ud_provider_cost = min (cost_micro_usd (lab_totals inp)) 0x7FFFFFFFFFFFFFFF,
         ud_description = lab_description inp (unpriced_calls (lab_totals inp) = 0), ud_job_id = ju_job_id inp\<rparr>"
  using assms
  by (auto simp: lab_events_for_job_def lab_event_for_job_def lab_job_event_for_job_def envelope_def try_bind_def Let_def)

lemma lab_account_iff:
  "lab_account env t = Inr a \<longleftrightarrow> t \<noteq> [] \<and> lv_parse env t = Some t \<and> a = t"
  by (auto simp: lab_account_def split: option.split)

text \<open>The two crates agree on who is billed: with a UUID parser that returns a text unchanged exactly when
  it is 36 characters of lower-case hexadecimal with its four hyphens, a finished job has events, one
  bill and one lifecycle event of its tenant, exactly when the tenant passes the check that asks the Lab
  for credit.\<close>

theorem lab_events_iff_account:
  assumes "\<And>t. lv_parse env t = Some t \<longleftrightarrow> is_lab_account t"
  shows "case lab_events_for_job env inp of
      Inl _ \<Rightarrow> \<not> is_lab_account (ju_tenant_id inp)
    | Inr es \<Rightarrow> is_lab_account (ju_tenant_id inp)
        \<and> map le_account_id es = [ju_tenant_id inp, ju_tenant_id inp]
        \<and> map le_id es = [lab_event_id env (ju_job_id inp), lab_job_event_id env (ju_job_id inp)]
        \<and> map le_kind es = [lit ''usage.recorded'',
             if ju_status inp = Succeeded then lit ''job.completed'' else lit ''job.failed'']"
proof (cases "lab_account env (ju_tenant_id inp)")
  case (Inl r)
  have "t \<noteq> []" if "is_lab_account t" for t using that by (auto simp: is_lab_account_def)
  with Inl have "\<not> is_lab_account (ju_tenant_id inp)"
    using lab_account_iff [of env "ju_tenant_id inp"] assms by auto
  with Inl show ?thesis by (simp add: lab_events_for_job_iff)
next
  case (Inr a)
  then have "is_lab_account (ju_tenant_id inp)" "a = ju_tenant_id inp" using assms by (simp_all add: lab_account_iff)
  with lab_event_simps [OF Inr] show ?thesis by auto
qed

text \<open>A parser of lower-case UUIDs and a name for every id.\<close>

definition demo_lab_env :: lab_env where
  "demo_lab_env = \<lparr>lv_parse = (\<lambda>t. if is_lab_account t then Some t else None), lv_v5 = id, lv_rfc3339 = (\<lambda>_. [])\<rparr>"

definition lab_usage :: job_usage_input where
  "lab_usage = (example_usage CHR ''a'')\<lparr>ju_tenant_id := lit ''0192f3c1-7c2e-7b1a-9f00-3c9d2e4a5b61''\<rparr>"

theorem lab_events_iff_account_witness:
  "\<exists>es. lab_events_for_job demo_lab_env lab_usage = Inr es
     \<and> map le_account_id es = [ju_tenant_id lab_usage, ju_tenant_id lab_usage]"
proof -
  have acc: "is_lab_account (ju_tenant_id lab_usage)" by code_simp
  have p: "lv_parse demo_lab_env t = Some t \<longleftrightarrow> is_lab_account t" for t by (simp add: demo_lab_env_def)
  from lab_events_iff_account [OF p, of lab_usage] acc show ?thesis by (auto split: sum.splits)
qed

section \<open>The numbers of a bill\<close>

lemma lab_totals_eq: "lab_totals inp = usage_totals (ju_steps inp)"
  by (simp add: lab_totals_def usage_totals_def)

lemma billed_audio_bounds:
  assumes "s = Fin q" "0 < q" "q \<le> of_nat (2 ^ 64 - 1)"
  shows "q \<le> of_nat (unat (billed_audio s)) \<and> of_nat (unat (billed_audio s)) < q + 1"
proof -
  have c: "0 < \<lceil>q\<rceil>" "\<lceil>q\<rceil> \<le> 2 ^ 64 - 1"
    using assms(2,3) by (simp_all add: ceiling_le_iff)
  then have "billed_audio s = word_of_int \<lceil>q\<rceil>"
    using assms(1,2) by (simp add: billed_audio_def clamp_to_word_def)
  moreover have "uint (word_of_int \<lceil>q\<rceil> :: u64) = \<lceil>q\<rceil>"
    using c by (simp add: uint_word_of_int_eq take_bit_int_eq_self)
  ultimately have "int (unat (billed_audio s)) = \<lceil>q\<rceil>" by (simp only: uint_nat [symmetric])
  then have "rat_of_nat (unat (billed_audio s)) = of_int \<lceil>q\<rceil>" by (metis of_int_of_nat_eq)
  then show ?thesis by (simp add: ceiling_correct le_of_int_ceiling) linarith
qed

lemma step_seconds_bounds:
  "unat (step_millis inp) \<le> unat (of_nat (div_ceil_nat (unat (step_millis inp)) 1000) :: u64) * 1000
   \<and> unat (of_nat (div_ceil_nat (unat (step_millis inp)) 1000) :: u64) * 1000 < unat (step_millis inp) + 1000"
proof -
  let ?c = "div_ceil_nat (unat (step_millis inp)) 1000"
  have b: "unat (step_millis inp) \<le> ?c * 1000" "?c * 1000 < unat (step_millis inp) + 1000"
    using div_ceil_nat_bounds [of 1000 "unat (step_millis inp)"] by simp_all
  have "unat (step_millis inp) < 2 ^ 64" using unsigned_less [of "step_millis inp"] by simp
  with b have "?c < 2 ^ 64" by simp
  then have "unat (of_nat ?c :: u64) = ?c" by (simp add: unat_of_nat take_bit_nat_eq_self)
  with b show ?thesis by simp
qed

text \<open>The unit of a bill by name.\<close>

definition unit_of :: "job_usage_input \<Rightarrow> string \<Rightarrow> u64" where
  "unit_of inp name = (case bt_get (lab_units inp (lab_totals inp)) (lit name) of Some n \<Rightarrow> n | None \<Rightarrow> 0)"

text \<open>The Lab bill and the analytics row of a job agree: documents, bytes, tokens, pages, images and
  requests are the row's; step time is the saturated sum of the steps rounded up to a second; the cost
  is the priced sum, and never negative as the signed number the Lab keeps.\<close>

theorem bill_agrees_with_row:
  "unit_of inp ''documents'' = ev_documents_out (job_event inp)
   \<and> unit_of inp ''bytes_in'' = ev_input_bytes (job_event inp)
   \<and> unit_of inp ''llm_tokens_in'' = ev_llm_input_tokens (job_event inp)
   \<and> unit_of inp ''llm_tokens_out'' = ev_llm_output_tokens (job_event inp)
   \<and> unit_of inp ''llm_requests'' = ev_llm_requests (job_event inp)
   \<and> unit_of inp ''pages'' = ev_pages (job_event inp)
   \<and> unit_of inp ''images'' = ev_images (job_event inp)
   \<and> unit_of inp ''external_requests'' = ev_external_requests (job_event inp)
   \<and> unit_of inp ''audio_seconds'' = billed_audio (ev_audio_seconds (job_event inp))
   \<and> unat (step_millis inp) \<le> unat (unit_of inp ''step_seconds'') * 1000
   \<and> unat (unit_of inp ''step_seconds'') * 1000 < unat (step_millis inp) + 1000
   \<and> 0 \<le> sint (min (cost_micro_usd (lab_totals inp)) 0x7FFFFFFFFFFFFFFF)"
proof -
  have u: "unit_of inp ''documents'' = documents_out inp" "unit_of inp ''bytes_in'' = ju_input_bytes inp"
    "unit_of inp ''llm_tokens_in'' = llm_input_tokens (lab_totals inp)"
    "unit_of inp ''llm_tokens_out'' = llm_output_tokens (lab_totals inp)"
    "unit_of inp ''llm_requests'' = llm_requests (lab_totals inp)"
    "unit_of inp ''pages'' = uu_pages (lab_totals inp)" "unit_of inp ''images'' = uu_images (lab_totals inp)"
    "unit_of inp ''external_requests'' = external_requests (lab_totals inp)"
    "unit_of inp ''audio_seconds'' = billed_audio (audio_seconds (lab_totals inp))"
    "unit_of inp ''step_seconds'' = of_nat (div_ceil_nat (unat (step_millis inp)) 1000)"
    by (simp_all add: unit_of_def lab_units_def bt_get_of_list lit_def)
  have e: "ev_documents_out (job_event inp) = documents_out inp" "ev_input_bytes (job_event inp) = ju_input_bytes inp"
    "ev_llm_input_tokens (job_event inp) = llm_input_tokens (lab_totals inp)"
    "ev_llm_output_tokens (job_event inp) = llm_output_tokens (lab_totals inp)"
    "ev_llm_requests (job_event inp) = llm_requests (lab_totals inp)"
    "ev_pages (job_event inp) = uu_pages (lab_totals inp)" "ev_images (job_event inp) = uu_images (lab_totals inp)"
    "ev_external_requests (job_event inp) = external_requests (lab_totals inp)"
    "ev_audio_seconds (job_event inp) = audio_seconds (lab_totals inp)"
    by (simp_all add: job_event_def apply_units_def documents_out_def lab_totals_eq)
  have "min (cost_micro_usd (lab_totals inp)) 0x7FFFFFFFFFFFFFFF \<le> (0x7FFFFFFFFFFFFFFF :: u64)" by simp
  then have "uint (min (cost_micro_usd (lab_totals inp)) 0x7FFFFFFFFFFFFFFF) < 2 ^ 63"
    by (simp add: word_le_def)
  then have "sint (min (cost_micro_usd (lab_totals inp)) 0x7FFFFFFFFFFFFFFF)
      = uint (min (cost_micro_usd (lab_totals inp)) 0x7FFFFFFFFFFFFFFF)"
    unfolding sint_uint by (intro signed_take_bit_int_eq_self) (simp_all add: order_trans [OF _ uint_ge_0])
  then have "0 \<le> sint (min (cost_micro_usd (lab_totals inp)) 0x7FFFFFFFFFFFFFFF)" by simp
  with step_seconds_bounds [of inp] show ?thesis unfolding u e by simp
qed

end
