(* ===== verification/Step_Activity.thy ===== *)
theory Step_Activity
  imports Ai_Target Blob_Store Usage_Lab Dag Workflow "HOL-Library.Sublist"
begin

text \<open>
  \<open>crates/worker/src/activity.rs\<close>: the activities of a step. \<open>run_step\<close> resolves the plugin, its
  input, its connection and its Gateway target, runs it and hands its output on; \<open>run_fan_out\<close> splits an
  output kept in the blob store; \<open>report_usage\<close> records a finished job. The answers of the control
  plane, of the analytics store and of the object store are the environment, the requests are
  recorded. The lemmas: what a plugin is given, what a step reports, that a fan-out through the store
  gives the branches the workflow would have made, and the order in which a job is reported.
\<close>

section \<open>The activities' state\<close>

record step_activities =
  sa_registry :: plugin_registry
  sa_blob :: blob_store
  sa_spill_threshold :: nat
  sa_usage :: "(usage_event list \<Rightarrow> usage_error + unit) option"
  sa_control_plane_url :: "rstr option"
  sa_control_plane_token :: "rstr option"
  sa_connections :: connection_settings
  sa_lab_events :: bool
  sa_lab_ai_gateway :: bool

definition new_activities :: "plugin_registry \<Rightarrow> blob_store \<Rightarrow> nat \<Rightarrow> step_activities" where
  "new_activities registry blob threshold = \<lparr>sa_registry = registry, sa_blob = blob, sa_spill_threshold = threshold,
     sa_usage = None, sa_control_plane_url = None, sa_control_plane_token = None,
     sa_connections = default_connections, sa_lab_events = False, sa_lab_ai_gateway = False\<rparr>"

definition with_control_plane :: "rstr option \<Rightarrow> step_activities \<Rightarrow> step_activities" where
  "with_control_plane url sa =
     sa\<lparr>sa_control_plane_url := map_option (\<lambda>u. rev (trim_start_matches (\<lambda>c. c = 47) (rev u))) url\<rparr>"

definition control_plane_of :: "step_activities \<Rightarrow> control_plane" where
  "control_plane_of sa = \<lparr>cp_base_url = sa_control_plane_url sa, cp_token = sa_control_plane_token sa\<rparr>"

text \<open>\<open>sx_status\<close> is the status the control plane answers to a \<open>PATCH\<close> or \<open>POST\<close>.\<close>

record step_env = ai_env +
  sx_blob :: blob_env
  sx_lab :: lab_env
  sx_status :: "cp_request \<Rightarrow> rstr + nat"
  sx_elapsed_ms :: u64

section \<open>Cancellation and errors of an activity\<close>

text \<open>When the work ends and with what, and when the cancellation arrives; \<open>None\<close> is never.\<close>

definition abandon_after_cancel ::
  "(nat \<times> (plugin_error + 'a)) option \<Rightarrow> nat option \<Rightarrow> nat \<Rightarrow> (plugin_error + 'a) option" where
  "abandon_after_cancel work cancelled grace =
     (case (work, cancelled) of
        (Some (t, r), None) \<Rightarrow> Some r
      | (Some (t, r), Some c) \<Rightarrow> Some (if t \<le> c + grace then r else Inl ErrCancelled)
      | (None, Some _) \<Rightarrow> Some (Inl ErrCancelled)
      | (None, None) \<Rightarrow> None)"

definition CANCEL_GRACE :: nat where
  "CANCEL_GRACE = 10"

datatype activity_failure = AfCancelled | AfRetry rstr | AfFinal rstr

definition to_activity_error :: "plugin_error \<Rightarrow> activity_failure" where
  "to_activity_error e =
     (if e = ErrCancelled then AfCancelled
      else if is_retryable e then AfRetry (plugin_error_str e) else AfFinal (plugin_error_str e))"

datatype usage_report_error = UrRetryable rstr | UrPermanent rstr

fun usage_activity_error :: "usage_report_error \<Rightarrow> activity_failure" where
  "usage_activity_error (UrRetryable m) = AfRetry m"
| "usage_activity_error (UrPermanent m) = AfFinal m"

section \<open>The Gateway target of a step\<close>

definition attach_ai_target ::
  "'a step_env_scheme \<Rightarrow> step_activities \<Rightarrow> plugin_context \<Rightarrow> rstr \<Rightarrow> rstr option
   \<Rightarrow> (plugin_error + bool) \<times> plugin_context \<times> cp_request list" where
  "attach_ai_target env sa ctx plugin tenant =
     (if \<not> sa_lab_ai_gateway sa \<or> \<not> List.member LAB_AI_PLUGINS plugin then (Inr False, ctx, [])
      else (case tenant of
        None \<Rightarrow> (Inr False, ctx, [])
      | Some t \<Rightarrow>
          if \<not> is_lab_account t then (Inr False, ctx, [])
          else (case fetch_ai_target env (control_plane_of sa) t None (1 < px_attempt ctx) of
                  (Inl e, reqs) \<Rightarrow> (Inl e, ctx, reqs)
                | (Inr (Some target), reqs) \<Rightarrow> (Inr True, set_ai_target target ctx, reqs)
                | (Inr None, reqs) \<Rightarrow> (Inr False, ctx, reqs))))"

text \<open>The requests of a report; its answer is only logged.\<close>

definition report_rejected_key ::
  "'a step_env_scheme \<Rightarrow> step_activities \<Rightarrow> plugin_context \<Rightarrow> rstr option \<Rightarrow> cp_request list" where
  "report_rejected_key env sa ctx tenant =
     (case (px_ai_target ctx, tenant) of
        (Some target, Some t) \<Rightarrow>
          if at_rejected target then snd (fetch_ai_target env (control_plane_of sa) t (Some (at_key_id target)) False) else []
      | _ \<Rightarrow> [])"

section \<open>Running a step\<close>

definition step_input_error :: "blob_error \<Rightarrow> plugin_error" where
  "step_input_error e =
     (case e of
        BlobBlocked _ \<Rightarrow> ErrNonRetryable (lit ''refusing to fetch the step input: '' @ blob_error_str e)
      | BlobRejected _ \<Rightarrow> ErrNonRetryable (lit ''failed to resolve step input: '' @ blob_error_str e)
      | _ \<Rightarrow> ErrRetryable (lit ''failed to resolve step input: '' @ blob_error_str e))"

definition check_input_kind :: "plugin_manifest \<Rightarrow> input_kind \<Rightarrow> plugin_error + unit" where
  "check_input_kind m k =
     (if pm_accepts m \<noteq> [] \<and> \<not> accepts_kind m k \<and> \<not> (accepts_kind m IkDocuments \<and> k = IkMany)
      then Inl (ErrInvalidInput (lit ''plugin '' @ pm_name m @ lit '' accepts [''
             @ join_with (lit '', '') (map input_kind_debug (pm_accepts m)) @ lit ''] but received '' @ input_kind_debug k))
      else Inr ())"

definition input_size_bytes :: "(jmap \<Rightarrow> nat) \<Rightarrow> plugin_input \<Rightarrow> u64" where
  "input_size_bytes ser inp = (case inp of InBytes b \<Rightarrow> of_nat (length (blob_data b)) | other \<Rightarrow> of_nat (in_approx_size ser other))"

text \<open>Everything before the plugin runs: the plugin, its input and configuration, whether a Gateway
  target was attached. The first argument is the depth to which references may nest; \<open>None\<close> is
  running out of it.\<close>

definition prepare_step ::
  "nat \<Rightarrow> 'a step_env_scheme \<Rightarrow> step_activities \<Rightarrow> plugin_context \<Rightarrow> step_activity_input \<Rightarrow> blob_objects
   \<Rightarrow> ((plugin_error + plugin \<times> plugin_input \<times> json \<times> bool) \<times> plugin_context \<times> cp_request list) option" where
  "prepare_step n env sa ctx inp objs =
     (case registry_resolve (ce_debug env) (sa_registry sa) (sai_plugin inp) of
        Inl e \<Rightarrow> Some (Inl e, ctx, [])
      | Inr plugin \<Rightarrow>
     (case blob_resolve_input n (sx_blob env) (sa_blob sa) objs (sai_input inp) of
        None \<Rightarrow> None
      | Some (Inl e) \<Rightarrow> Some (Inl (step_input_error e), ctx, [])
      | Some (Inr resolved) \<Rightarrow>
     (case check_input_kind (pl_manifest plugin) (input_kind_of resolved) of
        Inl e \<Rightarrow> Some (Inl e, ctx, [])
      | Inr _ \<Rightarrow>
     (case resolve_connection env (control_plane_of sa) (sa_connections sa) (sai_plugin inp) (sai_config inp)
             (sai_tenant_id inp) of
        (Inl e, reqs) \<Rightarrow> Some (Inl e, ctx, reqs)
      | (Inr config, reqs) \<Rightarrow>
     (case attach_ai_target env sa ctx (sai_plugin inp) (sai_tenant_id inp) of
        (Inl e, ctx, reqs') \<Rightarrow> Some (Inl e, ctx, reqs @ reqs')
      | (Inr lab, ctx, reqs') \<Rightarrow> Some (Inr (plugin, resolved, config, lab), ctx, reqs @ reqs'))))))"

definition billed_usage :: "bool \<Rightarrow> usage_units \<Rightarrow> usage_units" where
  "billed_usage lab u = (if lab then u\<lparr>cost_micro_usd := 0, unpriced_calls := 0\<rparr> else u)"

definition run_step_activity ::
  "nat \<Rightarrow> 'a step_env_scheme \<Rightarrow> step_activities \<Rightarrow> plugin_context \<Rightarrow> step_activity_input \<Rightarrow> blob_objects
   \<Rightarrow> ((plugin_error + step_activity_output) \<times> plugin_context \<times> blob_objects \<times> cp_request list) option" where
  "run_step_activity n env sa ctx inp objs =
     (case prepare_step n env sa ctx inp objs of
        None \<Rightarrow> None
      | Some (Inl e, ctx, reqs) \<Rightarrow> Some (Inl e, ctx, objs, reqs)
      | Some (Inr (plugin, resolved, config, lab), ctx, reqs) \<Rightarrow>
     (case execute_plugin plugin ctx resolved config of
        (Inl e, ctx) \<Rightarrow> Some (Inl e, ctx, objs, reqs @ report_rejected_key env sa ctx (sai_tenant_id inp))
      | (Inr output, ctx) \<Rightarrow>
     (case spill_output (sx_blob env) (sai_job_id inp) (sai_step_id inp) (sai_branch inp) output (sa_spill_threshold sa) objs of
        (Inl e, objs) \<Rightarrow> Some (Inl (ErrRetryable (lit ''failed to spill step output: '' @ blob_error_str e)), ctx, objs, reqs)
      | (Inr out, objs) \<Rightarrow> Some (Inr \<lparr>sao_step_id = sai_step_id inp, sao_output = out, sao_duration_ms = sx_elapsed_ms env,
             sao_usage = billed_usage lab (px_usage ctx),
             sao_input_bytes = input_size_bytes (be_ser (sx_blob env)) resolved,
             sao_documents_out = of_nat (out_document_count output)\<rparr>, ctx, objs, reqs))))"

text \<open>The activity around it: \<open>ends_at\<close> is when the step would end, \<open>cancelled\<close> when the activity is
  cancelled.\<close>

definition execute_step ::
  "(nat \<times> (plugin_error + step_activity_output)) option \<Rightarrow> nat option \<Rightarrow> (activity_failure + step_activity_output) option" where
  "execute_step work cancelled = map_option (map_sum to_activity_error id) (abandon_after_cancel work cancelled CANCEL_GRACE)"

section \<open>Fan-out through the store\<close>

fun output_of_input :: "plugin_input \<Rightarrow> plugin_output" where
  "output_of_input (InDocuments d) = OutDocuments d"
| "output_of_input (InBytes b) = OutBytes b"
| "output_of_input (InMany m) = OutMany m"
| "output_of_input (InRef r) = OutRef r"
| "output_of_input InEmpty = OutEmpty"

fun spill_branches ::
  "blob_env \<Rightarrow> uuid \<Rightarrow> rstr \<Rightarrow> nat \<Rightarrow> nat \<Rightarrow> plugin_input list \<Rightarrow> blob_objects \<Rightarrow> (plugin_error + plugin_input list) \<times> blob_objects" where
  "spill_branches env job step threshold i [] objs = (Inr [], objs)"
| "spill_branches env job step threshold i (b # bs) objs =
     (case spill_output env job (step @ lit ''-fanout'') (Some i) (output_of_input b) threshold objs of
        (Inl e, objs) \<Rightarrow> (Inl (ErrRetryable (lit ''failed to spill fan-out branch: '' @ blob_error_str e)), objs)
      | (Inr out, objs) \<Rightarrow>
          (let rest = spill_branches env job step threshold (i + 1) bs objs
           in (map_sum id (\<lambda>outs. input_of_output out # outs) (fst rest), snd rest)))"

definition run_fan_out ::
  "nat \<Rightarrow> blob_env \<Rightarrow> nat \<Rightarrow> fan_out_activity_input \<Rightarrow> blob_objects \<Rightarrow> ((plugin_error + plugin_input list) \<times> blob_objects) option" where
  "run_fan_out n env threshold inp objs =
     (case hydrate_output n env objs (fo_upstream inp) of
        None \<Rightarrow> None
      | Some (Inl e) \<Rightarrow> Some (Inl (ErrRetryable (lit ''failed to hydrate upstream output: '' @ blob_error_str e)), objs)
      | Some (Inr hydrated) \<Rightarrow>
          (case fan_out_branches (fo_path inp) hydrated (fo_max_branches inp) of
             NeedsActivity _ \<Rightarrow> Some (Inl (ErrNonRetryable (lit ''upstream output is still a reference after hydration'')), objs)
           | Branches bs \<Rightarrow> Some (spill_branches env (fo_job_id inp) (fo_step_id inp) threshold 0 bs objs)))"

section \<open>Reporting a job\<close>

definition patch_job ::
  "'a step_env_scheme \<Rightarrow> step_activities \<Rightarrow> uuid \<Rightarrow> job_status \<Rightarrow> rstr option \<Rightarrow> rstr option
   \<Rightarrow> (plugin_error + bool) \<times> cp_request list" where
  "patch_job env sa job status current_step error =
     (case sa_control_plane_url sa of
        None \<Rightarrow> (Inr False, [])
      | Some base \<Rightarrow>
          let body = json_obj ([(lit ''status'', JString (job_status_str status))]
                @ opt_field ''current_step'' JString current_step
                @ opt_field ''error'' (\<lambda>e. JString (take 1000 e)) error);
              req = authed \<lparr>cq_method = lit ''PATCH'', cq_target = Address (base @ lit ''/internal/jobs/'' @ job),
                      cq_bearer = None, cq_body = Some body\<rparr> (sa_control_plane_token sa)
          in ((case sx_status env req of
                 Inl e \<Rightarrow> Inl (ErrRetryable (lit ''control plane unreachable: '' @ e))
               | Inr status \<Rightarrow>
                   if status = 404 then Inr False
                   else if \<not> http_success status
                   then Inl (ErrRetryable (lit ''control plane rejected the job status update: '' @ ce_status env status))
                   else Inr True), [req]))"

definition post_lab_events ::
  "'a step_env_scheme \<Rightarrow> step_activities \<Rightarrow> job_usage_input \<Rightarrow> (usage_report_error + unit) \<times> cp_request list" where
  "post_lab_events env sa inp =
     (case lab_events_for_job (sx_lab env) inp of
        Inl _ \<Rightarrow> (Inr (), [])
      | Inr events \<Rightarrow>
     (case sa_control_plane_url sa of
        None \<Rightarrow> (Inl (UrPermanent (lit ''LAB_EVENTS_ENABLED needs CONTROL_PLANE_URL'')), [])
      | Some base \<Rightarrow>
          let req = authed \<lparr>cq_method = lit ''POST'', cq_target = Address (base @ lit ''/internal/lab-events''), cq_bearer = None,
                      cq_body = Some (json_obj [(lit ''events'', JArray (map lab_event_json events))])\<rparr>
                      (sa_control_plane_token sa)
          in ((case sx_status env req of
                 Inl e \<Rightarrow> Inl (UrRetryable (lit ''control plane unreachable: '' @ e))
               | Inr status \<Rightarrow>
                   if \<not> http_success status
                   then Inl (UrRetryable (lit ''control plane refused the lab events: '' @ ce_status env status))
                   else Inr ()), [req])))"

fun usage_error_str :: "(rstr \<Rightarrow> rstr) \<Rightarrow> usage_error \<Rightarrow> rstr" where
  "usage_error_str d (UeConfig m) = lit ''usage reporting is misconfigured: '' @ m"
| "usage_error_str d (UeTransport m) = lit ''usage transport failure talking to the usage store: '' @ m"
| "usage_error_str d (UeUpstream status body) = lit ''the usage store returned HTTP '' @ show_nat status @ lit '' (retryable): '' @ body"
| "usage_error_str d (UeAuth status) = lit ''the usage store rejected the credentials (HTTP '' @ show_nat status
     @ lit ''); check TINYBIRD_TOKEN and its scope on the data source, or the USAGE_CLICKHOUSE_USER grants''"
| "usage_error_str d (UeRejected status body) = lit ''the usage store rejected the request (HTTP '' @ show_nat status @ lit ''): '' @ body"
| "usage_error_str d (UeQuarantined count datasource) = lit ''Tinybird quarantined '' @ show_nat (unat count)
     @ lit '' row(s) written to data source '' @ d datasource
     @ lit '': the UsageEvent struct and the .datasource schema have drifted; inspect '' @ datasource @ lit ''_quarantine''"
| "usage_error_str d (UeEncode m) = lit ''cannot serialize usage events: '' @ m"

text \<open>What a report does to the outside, in order.\<close>

datatype report_call = ReportRequest cp_request | ReportRows "usage_event list"

definition report_usage ::
  "'a step_env_scheme \<Rightarrow> step_activities \<Rightarrow> job_usage_input \<Rightarrow> (usage_report_error + unit) \<times> report_call list" where
  "report_usage env sa inp =
     (case patch_job env sa (ju_job_id inp) (ju_status inp) None (ju_error inp) of
        (Inl e, reqs) \<Rightarrow> (Inl (UrRetryable (plugin_error_str e)), map ReportRequest reqs)
      | (Inr _, reqs) \<Rightarrow>
     (case (if sa_lab_events sa then post_lab_events env sa inp else (Inr (), [])) of
        (Inl e, reqs') \<Rightarrow> (Inl e, map ReportRequest (reqs @ reqs'))
      | (Inr _, reqs') \<Rightarrow>
          (case sa_usage sa of
             None \<Rightarrow> (Inr (), map ReportRequest (reqs @ reqs'))
           | Some client \<Rightarrow>
               let events = events_for_job inp
               in ((case client events of
                      Inr _ \<Rightarrow> Inr ()
                    | Inl e \<Rightarrow> Inl (if usage_error_retryable e
                                 then UrRetryable (lit ''usage store unavailable: '' @ usage_error_str (ce_debug env) e)
                                 else UrPermanent (lit ''usage rejected: '' @ usage_error_str (ce_debug env) e))),
                   map ReportRequest (reqs @ reqs') @ [ReportRows events]))))"

definition record_usage_activity ::
  "'a step_env_scheme \<Rightarrow> step_activities \<Rightarrow> job_usage_input \<Rightarrow> activity_failure + unit" where
  "record_usage_activity env sa inp = map_sum usage_activity_error id (fst (report_usage env sa inp))"

definition record_job_started ::
  "'a step_env_scheme \<Rightarrow> step_activities \<Rightarrow> uuid \<Rightarrow> rstr option \<Rightarrow> (activity_failure + unit) \<times> cp_request list" where
  "record_job_started env sa job current_step =
     (let (r, reqs) = patch_job env sa job Running current_step None
      in (map_sum to_activity_error (\<lambda>_. ()) r, reqs))"

section \<open>What a plugin is given\<close>

lemma attach_ai_target_cases:
  "attach_ai_target env sa ctx plugin tenant = (Inr lab, ctx', reqs) \<Longrightarrow>
     (if lab then \<exists>t target. sa_lab_ai_gateway sa \<and> List.member LAB_AI_PLUGINS plugin \<and> tenant = Some t \<and> is_lab_account t
        \<and> fst (fetch_ai_target env (control_plane_of sa) t None (1 < px_attempt ctx)) = Inr (Some target)
        \<and> ctx' = set_ai_target target ctx
      else ctx' = ctx)"
  by (auto simp: attach_ai_target_def split: if_splits option.splits prod.splits sum.splits)

text \<open>The requests of one attempt: at most one for a connection, then at most one for a target.\<close>

definition step_requests :: "step_activity_input \<Rightarrow> cp_request list \<Rightarrow> bool" where
  "step_requests inp reqs \<longleftrightarrow> (\<exists>rc ra. reqs = rc @ ra \<and> length rc \<le> 1
     \<and> (case pinned_connection (sai_config inp) of
          Some name \<Rightarrow> list_all (tenant_scoped name (sai_tenant_id inp)) rc | None \<Rightarrow> rc = [])
     \<and> (case sai_tenant_id inp of Some t \<Rightarrow> list_all (ai_request t) ra | None \<Rightarrow> ra = []))"

lemma resolve_connection_requests:
  "length (snd (resolve_connection env cp settings plugin config tenant)) \<le> 1"
  "case pinned_connection config of
     Some name \<Rightarrow> list_all (tenant_scoped name tenant) (snd (resolve_connection env cp settings plugin config tenant))
   | None \<Rightarrow> snd (resolve_connection env cp settings plugin config tenant) = []"
  using connection_fetch_requests
  by (auto simp: resolve_connection_def Let_def case_prod_beta split: option.split)

lemma fetch_ai_target_asks: "fetch_ai_target env cp t rejected refresh = (r, reqs) \<Longrightarrow> list_all (ai_request t) reqs"
  using fetch_ai_target_requests(1) by (metis snd_conv)

lemma attach_ai_target_requests:
  "case tenant of Some t \<Rightarrow> list_all (ai_request t) (snd (snd (attach_ai_target env sa ctx plugin tenant)))
   | None \<Rightarrow> snd (snd (attach_ai_target env sa ctx plugin tenant)) = []"
  by (auto simp: attach_ai_target_def dest: fetch_ai_target_asks split: option.split prod.split sum.split)

lemma prepare_step_ok:
  assumes "prepare_step n env sa ctx inp objs = Some (Inr (p, resolved, config, lab), ctx', reqs)"
  shows "registry_resolve (ce_debug env) (sa_registry sa) (sai_plugin inp) = Inr p"
    "blob_resolve_input n (sx_blob env) (sa_blob sa) objs (sai_input inp) = Some (Inr resolved)"
    "check_input_kind (pl_manifest p) (input_kind_of resolved) = Inr ()"
    "fst (resolve_connection env (control_plane_of sa) (sa_connections sa) (sai_plugin inp) (sai_config inp) (sai_tenant_id inp))
      = Inr config"
    "\<exists>reqs'. attach_ai_target env sa ctx (sai_plugin inp) (sai_tenant_id inp) = (Inr lab, ctx', reqs')"
  using assms by (auto simp: prepare_step_def split: sum.splits option.splits prod.splits)

lemma check_input_kind_iff:
  "check_input_kind m k = Inr () \<longleftrightarrow> pm_accepts m = [] \<or> k \<in> set (pm_accepts m) \<or> IkDocuments \<in> set (pm_accepts m) \<and> k = IkMany"
  by (auto simp: check_input_kind_def accepts_kind_def)

lemma prepare_step_requests:
  assumes "prepare_step n env sa ctx inp objs = Some (r, ctx', reqs)"
  shows "step_requests inp reqs"
proof -
  let ?c = "resolve_connection env (control_plane_of sa) (sa_connections sa) (sai_plugin inp) (sai_config inp) (sai_tenant_id inp)"
  let ?a = "attach_ai_target env sa ctx (sai_plugin inp) (sai_tenant_id inp)"
  from assms have "reqs = [] \<or> reqs = snd ?c \<or> reqs = snd ?c @ snd (snd ?a)"
    by (auto simp: prepare_step_def split: sum.splits option.splits prod.splits)
  then have "\<exists>rc ra. reqs = rc @ ra \<and> (rc = [] \<or> rc = snd ?c) \<and> (ra = [] \<or> ra = snd (snd ?a))"
    by (metis append_Nil append_Nil2)
  then obtain rc ra where "reqs = rc @ ra" "rc = [] \<or> rc = snd ?c" "ra = [] \<or> ra = snd (snd ?a)"
    by blast
  then show ?thesis
    using resolve_connection_requests [of env "control_plane_of sa" "sa_connections sa" "sai_plugin inp" "sai_config inp" "sai_tenant_id inp"]
      attach_ai_target_requests [where tenant = "sai_tenant_id inp" and env = env and sa = sa and ctx = ctx and plugin = "sai_plugin inp"]
    unfolding step_requests_def by (intro exI [of _ rc] exI [of _ ra]) (auto split: option.splits)
qed

lemma execute_plugin_result:
  "fst (execute_plugin p ctx inp config) = fst (pl_execute p ctx inp config)"
  by (simp add: execute_plugin_def case_prod_beta Let_def)

lemma fold_record_usage [simp]:
  "px_ai_target (fold record_usage units ctx) = px_ai_target ctx"
  by (induction units arbitrary: ctx) (simp_all add: record_usage_def)

lemma run_step_activity_ok:
  assumes "run_step_activity n env sa ctx inp objs = Some (Inr out, ctx', objs', reqs)"
  shows "\<exists>p resolved config lab ctx1 produced.
    prepare_step n env sa ctx inp objs = Some (Inr (p, resolved, config, lab), ctx1, reqs)
    \<and> execute_plugin p ctx1 resolved config = (Inr produced, ctx')
    \<and> spill_output (sx_blob env) (sai_job_id inp) (sai_step_id inp) (sai_branch inp) produced (sa_spill_threshold sa) objs
        = (Inr (sao_output out), objs')
    \<and> sao_step_id out = sai_step_id inp \<and> sao_usage out = billed_usage lab (px_usage ctx')
    \<and> sao_documents_out out = of_nat (out_document_count produced)"
  using assms by (auto simp: run_step_activity_def split: option.splits prod.splits sum.splits)

text \<open>C22. A Gateway key of a team reaches AI plugins of that team's own steps only, and what they spend through
  it is not charged again.\<close>

theorem gateway_key_confined:
  assumes "run_step_activity n env sa ctx inp objs = Some (Inr out, ctx', objs', reqs)"
    and "px_ai_target ctx = None"
  shows "px_ai_target ctx' = None
    \<or> (sa_lab_ai_gateway sa \<and> List.member LAB_AI_PLUGINS (sai_plugin inp)
       \<and> cost_micro_usd (sao_usage out) = 0 \<and> unpriced_calls (sao_usage out) = 0
       \<and> (\<exists>t target. sai_tenant_id inp = Some t \<and> is_lab_account t
            \<and> fst (fetch_ai_target env (control_plane_of sa) t None (1 < px_attempt ctx)) = Inr (Some target)
            \<and> map_option at_api_key (px_ai_target ctx') = Some (at_api_key target)))"
proof -
  from run_step_activity_ok [OF assms(1)] obtain p resolved config lab ctx1 produced where
    r: "prepare_step n env sa ctx inp objs = Some (Inr (p, resolved, config, lab), ctx1, reqs)"
      "execute_plugin p ctx1 resolved config = (Inr produced, ctx')" "sao_usage out = billed_usage lab (px_usage ctx')"
    by blast
  have t: "map_option at_api_key (px_ai_target ctx') = map_option at_api_key (px_ai_target ctx1)"
    using r(2) by (auto simp: execute_plugin_def Let_def mark_rejected_def map_option.compositionality comp_def
        split: prod.splits if_splits)
  obtain reqs' where "attach_ai_target env sa ctx (sai_plugin inp) (sai_tenant_id inp) = (Inr lab, ctx1, reqs')"
    using prepare_step_ok(5) [OF r(1)] by blast
  from attach_ai_target_cases [OF this] show ?thesis
  proof (cases lab)
    case True
    with attach_ai_target_cases [OF \<open>attach_ai_target _ _ _ _ _ = _\<close>] t r(3) assms(2) show ?thesis
      by (auto simp: billed_usage_def set_ai_target_def)
  next
    case False
    with attach_ai_target_cases [OF \<open>attach_ai_target _ _ _ _ _ = _\<close>] t assms(2) show ?thesis by auto
  qed
qed

section \<open>Outputs handed on\<close>

lemma hydrate_output_no_spilled: "hydrate_output n env objs out = Some (Inr out') \<Longrightarrow> no_spilled out'"
proof (induction n arbitrary: out out')
  case (Suc n)
  show ?case
  proof (cases "spilled_uri out")
    case (Some uri)
    with Suc show ?thesis by (auto split: sum.splits)
  next
    case None
    show ?thesis
    proof (cases out)
      case (OutMany outs)
      with None Suc.prems obtain outs' where "each (hydrate_output n env objs) outs = Some (Inr outs')" "out' = OutMany outs'"
        by (auto simp: map_sum_Inr)
      with each_all [OF _ Suc.IH] show ?thesis by simp
    qed (use None Suc.prems in auto)
  qed
qed simp

text \<open>C21. A step that succeeds ran the plugin of its name: on its input resolved, without references and of a kind the plugin takes, with
  its configuration once a connection it names was put in, and with the Gateway target it was given. It reports the number of
  documents the plugin returned. What the plugin returned is handed on as it is when it is within the threshold; otherwise the JSON
  of it is stored as the one object of this job, step and branch, and what the next step reads of the reference it gets is what serde
  reads from exactly these bytes.\<close>

theorem step_hands_on_output:
  assumes "run_step_activity n env sa ctx inp objs = Some (Inr out, ctx', objs', reqs)"
    and "se_get_error (sx_blob env) (staged_key (sai_job_id inp) (spill_name (sai_step_id inp) (sai_branch inp))) = None"
  shows "\<exists>p resolved config lab ctx1 reqs1 produced.
    registry_resolve (ce_debug env) (sa_registry sa) (sai_plugin inp) = Inr p
    \<and> blob_resolve_input n (sx_blob env) (sa_blob sa) objs (sai_input inp) = Some (Inr resolved)
    \<and> no_refs_input resolved \<and> (pm_accepts (pl_manifest p) = [] \<or> input_kind_of resolved \<in> set (pm_accepts (pl_manifest p))
      \<or> IkDocuments \<in> set (pm_accepts (pl_manifest p)) \<and> input_kind_of resolved = IkMany)
    \<and> fst (resolve_connection env (control_plane_of sa) (sa_connections sa) (sai_plugin inp) (sai_config inp) (sai_tenant_id inp)) = Inr config
    \<and> attach_ai_target env sa ctx (sai_plugin inp) (sai_tenant_id inp) = (Inr lab, ctx1, reqs1)
    \<and> execute_plugin p ctx1 resolved config = (Inr produced, ctx')
    \<and> sao_documents_out out = of_nat (out_document_count produced)
    \<and> (if out_approx_size (be_ser (sx_blob env)) produced \<le> sa_spill_threshold sa
       then sao_output out = produced \<and> objs' = objs
       else \<exists>bytes. be_to_vec (sx_blob env) produced = Inr bytes
         \<and> objs' = objs(staged_key (sai_job_id inp) (spill_name (sai_step_id inp) (sai_branch inp)) \<mapsto> bytes)
         \<and> (\<forall>m. hydrate_output (Suc m) (sx_blob env) objs' (sao_output out) =
              (case be_from_slice (sx_blob env) bytes of
                 Inl e \<Rightarrow> Some (Inl (BlobSerde e)) | Inr x \<Rightarrow> hydrate_output m (sx_blob env) objs' x)))"
proof -
  from run_step_activity_ok [OF assms(1)] obtain p resolved config lab ctx1 produced where
    r: "prepare_step n env sa ctx inp objs = Some (Inr (p, resolved, config, lab), ctx1, reqs)"
      "execute_plugin p ctx1 resolved config = (Inr produced, ctx')"
      "spill_output (sx_blob env) (sai_job_id inp) (sai_step_id inp) (sai_branch inp) produced (sa_spill_threshold sa) objs
        = (Inr (sao_output out), objs')"
      "sao_documents_out out = of_nat (out_document_count produced)"
    by blast
  obtain reqs1 where target: "attach_ai_target env sa ctx (sai_plugin inp) (sai_tenant_id inp) = (Inr lab, ctx1, reqs1)"
    using prepare_step_ok(5) [OF r(1)] by blast
  have resolved: "no_refs_input resolved"
    using prepare_step_ok(2) [OF r(1)] by (rule resolved_no_refs)
  have kind: "pm_accepts (pl_manifest p) = [] \<or> input_kind_of resolved \<in> set (pm_accepts (pl_manifest p))
      \<or> IkDocuments \<in> set (pm_accepts (pl_manifest p)) \<and> input_kind_of resolved = IkMany"
    using prepare_step_ok(3) [OF r(1)] by (simp add: check_input_kind_iff)
  from r(3) show ?thesis
  proof (cases rule: spill_output_cases)
    case kept
    with prepare_step_ok(1,2,4) [OF r(1)] kind target resolved r(2,4) show ?thesis by auto
  next
    case (spilled bytes)
    then have "objs' (staged_key (sai_job_id inp) (spill_name (sai_step_id inp) (sai_branch inp))) = Some bytes" by simp
    then have "hydrate_output (Suc m) (sx_blob env) objs' (sao_output out) =
        (case be_from_slice (sx_blob env) bytes of Inl e \<Rightarrow> Some (Inl (BlobSerde e)) | Inr x \<Rightarrow> hydrate_output m (sx_blob env) objs' x)" for m
      unfolding spilled(4) using assms(2) by (rule hydrate_object)
    with spilled prepare_step_ok(1,2,4) [OF r(1)] kind target resolved r(2,4) show ?thesis
      by (simp del: hydrate_output.simps)
  qed
qed

section \<open>A fan-out through the store\<close>

definition fan_out_key :: "uuid \<Rightarrow> rstr \<Rightarrow> nat \<Rightarrow> rstr" where
  "fan_out_key job step i = staged_key job (spill_name (step @ lit ''-fanout'') (Some i))"

lemma fan_out_key_inj: "fan_out_key job step i = fan_out_key job step j \<longleftrightarrow> i = j"
  by (simp add: fan_out_key_def staged_key_def spill_name_def)

lemma input_of_output_of_input [simp]: "input_of_output (output_of_input b) = b"
  by (cases b) simp_all

text \<open>Later branches leave the objects of earlier ones alone.\<close>

lemma spill_branches_below:
  "j < i \<Longrightarrow> snd (spill_branches env job step th i bs objs) (fan_out_key job step j) = objs (fan_out_key job step j)"
proof (induction bs arbitrary: i objs)
  case (Cons b bs)
  obtain r objs1 where r: "spill_output env job (step @ lit ''-fanout'') (Some i) (output_of_input b) th objs = (r, objs1)"
    by fastforce
  have "objs1 (fan_out_key job step j) = objs (fan_out_key job step j)"
    using r Cons.prems fan_out_key_inj [of job step j i]
    by (auto simp: spill_output_def blob_put_def Let_def fan_out_key_def split: if_splits sum.splits option.splits)
  with r Cons show ?case by (simp add: Let_def split: sum.split)
qed simp

lemma spill_branches_hydrate:
  assumes "spill_branches env job step th i bs objs = (Inr bs', objs')"
    and "\<And>x bytes. be_to_vec env x = Inr bytes \<Longrightarrow> be_from_slice env bytes = Inr x"
    and "\<And>key. se_get_error env key = None"
    and "list_all (\<lambda>b. no_spilled (output_of_input b) \<and> size (output_of_input b) + 1 < n) bs"
  shows "list_all2 (\<lambda>b b'. hydrate_output n env objs' (output_of_input b') = Some (Inr (output_of_input b))) bs bs'"
  using assms(1,4)
proof (induction bs arbitrary: i objs bs')
  case (Cons b bs)
  from Cons.prems(1) obtain out objs1 outs where
    out: "spill_output env job (step @ lit ''-fanout'') (Some i) (output_of_input b) th objs = (Inr out, objs1)"
    and rest: "spill_branches env job step th (i + 1) bs objs1 = (Inr outs, objs')" "bs' = input_of_output out # outs"
    by (auto simp: Let_def map_sum_Inr prod_eq_iff split: prod.splits sum.splits)
  have b: "no_spilled (output_of_input b)" "size (output_of_input b) + 1 < n" using Cons.prems(2) by auto
  have "hydrate_output n env objs' (output_of_input (input_of_output out)) = Some (Inr (output_of_input b))"
    using out
  proof (cases rule: spill_output_cases)
    case kept
    with b show ?thesis by (simp add: hydrate_plain)
  next
    case (spilled bytes)
    have "objs' (fan_out_key job step i) = objs1 (fan_out_key job step i)"
      using spill_branches_below [of i "i + 1" env job step th bs objs1] rest(1) by simp
    with spilled have "objs' (fan_out_key job step i) = Some bytes" by (simp add: fan_out_key_def)
    with spilled b assms(2) [OF spilled(2)] assms(3) show ?thesis
      by (simp add: hydrate_spilled fan_out_key_def)
  qed
  with Cons.IH [OF rest(1)] Cons.prems(2) rest(2) show ?case by simp
qed simp

lemma documents_no_spilled: "no_spilled (output_of_input (InDocuments d))"
  by (simp add: spilled_uri_def)

lemma output_of_input_of: "no_spilled out \<Longrightarrow> no_spilled (output_of_input (input_of_output out))"
  by (cases out) (simp_all add: spilled_uri_def)

lemma branches_no_spilled:
  assumes "fan_out_branches path h m = Branches bs" "no_spilled h"
  shows "list_all (\<lambda>b. no_spilled (output_of_input b)) bs"
  using assms
  by (auto simp: fan_out_branches_def Let_def list_all_iff group_documents_def output_of_input_of documents_no_spilled spilled_uri_def
      split: if_splits plugin_output.splits sum.splits)

text \<open>Splitting in the activity is splitting in the workflow: the branches it hands out are those that
  the workflow would have made from the hydrated output, in order, each read back unchanged from the
  store, although all of them are kept there side by side.\<close>

theorem fan_out_refines:
  assumes "run_fan_out n env threshold inp objs = Some (Inr bs', objs')"
    and "\<And>x bytes. be_to_vec env x = Inr bytes \<Longrightarrow> be_from_slice env bytes = Inr x"
    and "\<And>key. se_get_error env key = None"
  shows "\<exists>h bs. hydrate_output n env objs (fo_upstream inp) = Some (Inr h)
    \<and> fan_out_branches (fo_path inp) h (fo_max_branches inp) = Branches bs
    \<and> (\<forall>m. list_all (\<lambda>b. size (output_of_input b) + 1 < m) bs \<longrightarrow>
         list_all2 (\<lambda>b b'. hydrate_output m env objs' (output_of_input b') = Some (Inr (output_of_input b))) bs bs')"
proof -
  from assms(1) obtain h bs where h: "hydrate_output n env objs (fo_upstream inp) = Some (Inr h)"
    "fan_out_branches (fo_path inp) h (fo_max_branches inp) = Branches bs"
    "spill_branches env (fo_job_id inp) (fo_step_id inp) threshold 0 bs objs = (Inr bs', objs')"
    by (auto simp: run_fan_out_def split: option.splits sum.splits fan_out_result.splits)
  have "list_all (\<lambda>b. no_spilled (output_of_input b)) bs"
    using h(2) hydrate_output_no_spilled [OF h(1)] by (rule branches_no_spilled)
  with h assms(2,3) show ?thesis
    by (intro exI [of _ h] exI [of _ bs]) (auto simp: list_all_iff intro!: spill_branches_hydrate [OF h(3)])
qed

section \<open>Reporting in order\<close>

text \<open>The calls of a report that meets no failure: the status, the bill, the rows.\<close>

definition report_plan :: "'a step_env_scheme \<Rightarrow> step_activities \<Rightarrow> job_usage_input \<Rightarrow> report_call list" where
  "report_plan env sa inp =
     map ReportRequest (snd (patch_job env sa (ju_job_id inp) (ju_status inp) None (ju_error inp)))
     @ (if sa_lab_events sa then map ReportRequest (snd (post_lab_events env sa inp)) else [])
     @ (if sa_usage sa = None then [] else [ReportRows (events_for_job inp)])"

lemma report_plan_env: "fst (report_usage env sa inp) = Inr () \<Longrightarrow> snd (report_usage env sa inp) = report_plan env sa inp"
  by (auto simp: report_usage_def report_plan_def Let_def split: prod.splits sum.splits option.splits if_splits)

text \<open>A job is billed before its analytics: whatever fails, the calls of an attempt are a prefix of the
  plan, which has the status first, then the bill, then the rows; an attempt that reports success made
  all of them; and a job of a Lab account whose attempt got past the bill had its two events accepted.\<close>

theorem report_in_order:
  "prefix (snd (report_usage env sa inp)) (report_plan env sa inp)
   \<and> (fst (report_usage env sa inp) = Inr () \<longrightarrow> snd (report_usage env sa inp) = report_plan env sa inp)
   \<and> (sa_lab_events sa \<and> (\<exists>es. lab_events_for_job (sx_lab env) inp = Inr es)
        \<and> (fst (report_usage env sa inp) = Inr () \<or> ReportRows (events_for_job inp) \<in> set (snd (report_usage env sa inp)))
      \<longrightarrow> (\<exists>req status. ReportRequest req \<in> set (snd (report_usage env sa inp)) \<and> cq_method req = lit ''POST''
            \<and> sx_status env req = Inr status \<and> http_success status
            \<and> (\<exists>es. lab_events_for_job (sx_lab env) inp = Inr es
                  \<and> cq_body req = Some (json_obj [(lit ''events'', JArray (map lab_event_json es))]))))"
proof (intro conjI impI report_plan_env)
  show "prefix (snd (report_usage env sa inp)) (report_plan env sa inp)"
    by (auto simp: report_usage_def report_plan_def Let_def split: prod.splits sum.splits option.splits if_splits)
next
  assume a: "sa_lab_events sa \<and> (\<exists>es. lab_events_for_job (sx_lab env) inp = Inr es)
        \<and> (fst (report_usage env sa inp) = Inr () \<or> ReportRows (events_for_job inp) \<in> set (snd (report_usage env sa inp)))"
  then have "fst (post_lab_events env sa inp) = Inr ()"
    and sub: "ReportRequest ` set (snd (post_lab_events env sa inp)) \<subseteq> set (snd (report_usage env sa inp))"
    by (auto simp: report_usage_def Let_def split: prod.splits sum.splits option.splits if_splits)
  with a obtain req status es where "snd (post_lab_events env sa inp) = [req]" "cq_method req = lit ''POST''"
    "sx_status env req = Inr status" "http_success status" "lab_events_for_job (sx_lab env) inp = Inr es"
    "cq_body req = Some (json_obj [(lit ''events'', JArray (map lab_event_json es))])"
    by (auto simp: post_lab_events_def Let_def split: sum.splits option.splits if_splits)
  with sub show "\<exists>req status. ReportRequest req \<in> set (snd (report_usage env sa inp)) \<and> cq_method req = lit ''POST''
            \<and> sx_status env req = Inr status \<and> http_success status
            \<and> (\<exists>es. lab_events_for_job (sx_lab env) inp = Inr es
                  \<and> cq_body req = Some (json_obj [(lit ''events'', JArray (map lab_event_json es))]))"
    by auto
qed

section \<open>Witnesses\<close>

definition demo_target :: ai_target where
  "demo_target = new_ai_target [] (lit ''k'') (lit ''id'') [] [] None"

definition demo_plugin :: plugin where
  "demo_plugin = \<lparr>pl_manifest = new_manifest (lit ''llm_enricher'') [],
     pl_execute = (\<lambda>_ _ _. (Inr (OutIndexed demo_report), [], False))\<rparr>"

definition demo_step_env :: step_env where
  "demo_step_env = ai_env.extend (demo_ai_env 200 None (Some (Some demo_target)))
     \<lparr>sx_blob = demo_blob_env (OutIndexed demo_report), sx_lab = demo_lab_env, sx_status = (\<lambda>_. Inr 202), sx_elapsed_ms = 5\<rparr>"

definition demo_activities :: step_activities where
  "demo_activities = (new_activities (register demo_plugin empty_registry) memory_store 100)
     \<lparr>sa_control_plane_url := Some (lit ''c''), sa_lab_ai_gateway := True, sa_lab_events := True, sa_usage := Some (\<lambda>_. Inr ())\<rparr>"

definition demo_step_input :: step_activity_input where
  "demo_step_input = \<lparr>sai_job_id = lit ''j'', sai_step_id = lit ''s'', sai_plugin = lit ''llm_enricher'', sai_config = JNull,
     sai_input = InEmpty, sai_branch = None, sai_branch_total = None,
     sai_tenant_id = Some (lit ''0192f3c1-7c2e-7b1a-9f00-3c9d2e4a5b61'')\<rparr>"

definition demo_context :: plugin_context where
  "demo_context = new_context (lit ''j'') (lit ''s'') 1"

lemma demo_run:
  "case run_step_activity 1 demo_step_env demo_activities demo_context demo_step_input Map.empty of
     Some (Inr out, ctx', objs', reqs) \<Rightarrow> (case px_ai_target ctx' of Some _ \<Rightarrow> True | None \<Rightarrow> False)
   | _ \<Rightarrow> False"
  by code_simp

lemma demo_run_obtain:
  obtains out ctx' objs' reqs target where
    "run_step_activity 1 demo_step_env demo_activities demo_context demo_step_input Map.empty = Some (Inr out, ctx', objs', reqs)"
    "px_ai_target ctx' = Some target"
proof -
  obtain r ctx' objs' reqs where
    r: "run_step_activity 1 demo_step_env demo_activities demo_context demo_step_input Map.empty = Some (r, ctx', objs', reqs)"
    using demo_run by (cases "run_step_activity 1 demo_step_env demo_activities demo_context demo_step_input Map.empty") auto
  with demo_run obtain out target where "r = Inr out" "px_ai_target ctx' = Some target"
    by (cases r; cases "px_ai_target ctx'") auto
  with r that show thesis by blast
qed

theorem gateway_key_confined_witness:
  "\<exists>out ctx' objs' reqs.
     run_step_activity 1 demo_step_env demo_activities demo_context demo_step_input Map.empty = Some (Inr out, ctx', objs', reqs)
     \<and> cost_micro_usd (sao_usage out) = 0"
proof -
  obtain out ctx' objs' reqs target where
    r: "run_step_activity 1 demo_step_env demo_activities demo_context demo_step_input Map.empty = Some (Inr out, ctx', objs', reqs)"
      "px_ai_target ctx' = Some target"
    by (rule demo_run_obtain)
  have "px_ai_target demo_context = None" by (simp add: demo_context_def new_context_def)
  from gateway_key_confined [OF r(1) this] r show ?thesis by auto
qed

lemma demo_roundtrip:
  "be_to_vec (sx_blob demo_step_env) x = Inr bytes \<Longrightarrow> be_from_slice (sx_blob demo_step_env) bytes = Inr x"
  "se_get_error (sx_blob demo_step_env) key = None"
  by (auto simp: demo_step_env_def ai_env.defs demo_ai_env_def cp_env.defs demo_blob_env_def split: if_splits)

theorem step_hands_on_output_witness:
  "\<exists>out ctx' objs' reqs. run_step_activity 1 demo_step_env demo_activities demo_context demo_step_input Map.empty
       = Some (Inr out, ctx', objs', reqs)
     \<and> sao_documents_out out = 1
     \<and> hydrate_output 2 (sx_blob demo_step_env) objs' (sao_output out) = Some (Inr (OutIndexed demo_report))"
proof -
  obtain out ctx' objs' reqs target where
    r: "run_step_activity 1 demo_step_env demo_activities demo_context demo_step_input Map.empty = Some (Inr out, ctx', objs', reqs)"
      "px_ai_target ctx' = Some target"
    by (rule demo_run_obtain)
  from step_hands_on_output [OF r(1) demo_roundtrip(2)] obtain p resolved config ctx1 produced where
    p: "registry_resolve (ce_debug demo_step_env) (sa_registry demo_activities) (sai_plugin demo_step_input) = Inr p"
      "execute_plugin p ctx1 resolved config = (Inr produced, ctx')"
      "sao_documents_out out = of_nat (out_document_count produced)"
      "if out_approx_size (be_ser (sx_blob demo_step_env)) produced \<le> sa_spill_threshold demo_activities
       then sao_output out = produced \<and> objs' = Map.empty
       else \<exists>bytes. be_to_vec (sx_blob demo_step_env) produced = Inr bytes
         \<and> objs' = [staged_key (sai_job_id demo_step_input) (spill_name (sai_step_id demo_step_input) (sai_branch demo_step_input)) \<mapsto> bytes]
         \<and> (\<forall>m. hydrate_output (Suc m) (sx_blob demo_step_env) objs' (sao_output out) =
              (case be_from_slice (sx_blob demo_step_env) bytes of
                 Inl e \<Rightarrow> Some (Inl (BlobSerde e)) | Inr x \<Rightarrow> hydrate_output m (sx_blob demo_step_env) objs' x))"
    by blast
  have "p = demo_plugin"
    using p(1) by (simp add: registry_resolve_def registry_get_register demo_activities_def new_activities_def
        demo_step_input_def demo_plugin_def new_manifest_def)
  then have produced: "produced = OutIndexed demo_report"
    using p(2) execute_plugin_result [of p ctx1 resolved config] by (simp add: demo_plugin_def)
  have "be_from_slice (sx_blob demo_step_env) bytes = Inr (OutIndexed demo_report)" for bytes
    by (simp add: demo_step_env_def ai_env.defs demo_ai_env_def cp_env.defs demo_blob_env_def)
  moreover have "hydrate_output (Suc m) (sx_blob demo_step_env) objs (OutIndexed demo_report) = Some (Inr (OutIndexed demo_report))" for m objs
    by (simp add: spilled_uri_def)
  ultimately have "hydrate_output (Suc (Suc 0)) (sx_blob demo_step_env) objs' (sao_output out) = Some (Inr (OutIndexed demo_report))"
    using p(4) unfolding produced by (auto simp del: hydrate_output.simps split: if_splits)
  with p(3) r(1) show ?thesis by (simp add: produced demo_report_def numeral_2_eq_2 del: hydrate_output.simps)
qed

definition demo_fan_out :: fan_out_activity_input where
  "demo_fan_out = \<lparr>fo_job_id = lit ''j'', fo_step_id = lit ''s'', fo_upstream = OutMany [OutEmpty, OutMany []],
     fo_path = lit ''$.many'', fo_max_branches = 4\<rparr>"

theorem fan_out_refines_witness:
  "\<exists>bs' objs'. run_fan_out 3 (sx_blob demo_step_env) 100 demo_fan_out Map.empty = Some (Inr bs', objs')
     \<and> length bs' = 2"
proof -
  have "case run_fan_out 3 (sx_blob demo_step_env) 100 demo_fan_out Map.empty of
      Some (Inr bs', objs') \<Rightarrow> True | _ \<Rightarrow> False"
    by code_simp
  then obtain bs' objs' where r: "run_fan_out 3 (sx_blob demo_step_env) 100 demo_fan_out Map.empty = Some (Inr bs', objs')"
    by (auto split: option.splits sum.splits prod.splits)
  from fan_out_refines [OF r demo_roundtrip] obtain h bs where
    h: "hydrate_output 3 (sx_blob demo_step_env) Map.empty (fo_upstream demo_fan_out) = Some (Inr h)"
      "fan_out_branches (fo_path demo_fan_out) h (fo_max_branches demo_fan_out) = Branches bs"
      "list_all (\<lambda>b. size (output_of_input b) + 1 < 99) bs \<longrightarrow>
         list_all2 (\<lambda>b b'. hydrate_output 99 (sx_blob demo_step_env) objs' (output_of_input b') = Some (Inr (output_of_input b))) bs bs'"
    by blast
  from h(1) have "h = OutMany [OutEmpty, OutMany []]" by (simp add: demo_fan_out_def spilled_uri_def numeral_3_eq_3)
  with h(2) have "bs = [InEmpty, InMany []]" by (simp add: fan_out_branches_def demo_fan_out_def lit_def)
  with h(3) r show ?thesis by (auto dest: list_all2_lengthD)
qed

theorem report_in_order_witness:
  "\<exists>req. ReportRequest req \<in> set (snd (report_usage demo_step_env demo_activities lab_usage)) \<and> cq_method req = lit ''POST''"
proof -
  have "is_lab_account (ju_tenant_id lab_usage)" by code_simp
  then have "lab_account (sx_lab demo_step_env) (ju_tenant_id lab_usage) = Inr (ju_tenant_id lab_usage)"
    by (simp add: lab_account_iff demo_step_env_def ai_env.defs demo_ai_env_def cp_env.defs demo_lab_env_def is_lab_account_def)
      (auto simp: enumerated_def)
  then have "\<exists>es. lab_events_for_job (sx_lab demo_step_env) lab_usage = Inr es"
    using lab_event_simps by blast
  moreover have "fst (report_usage demo_step_env demo_activities lab_usage) = Inr ()"
    by (auto simp: report_usage_def patch_job_def post_lab_events_def demo_activities_def new_activities_def Let_def
        demo_step_env_def ai_env.defs demo_ai_env_def cp_env.defs http_success_def split: sum.split prod.split)
  moreover have "sa_lab_events demo_activities" by (simp add: demo_activities_def)
  ultimately show ?thesis
    using report_in_order [of demo_step_env demo_activities lab_usage] by blast
qed

end
