(* ===== verification/Lab_Outbox.thy ===== *)
theory Lab_Outbox
  imports Usage_Lab
begin

text \<open>
  \<open>crates/control-plane/src/lab_events.rs\<close> and \<open>lab_sender.rs\<close>: the outbox of Lab events and its
  delivery. The table is a list of rows by id; every query is a function of the table and the
  database's clock, in seconds. Parsing of UUIDs, the SQL file that converts events of old workers, the
  random factor of the backoff and the Lab's answers are parameters. Replicas share the table, and
  every query is one transaction: any interleaving of them is a list of queries. The lemmas: inserting
  again changes nothing, no event leaves the table before it is accepted or too old, a leased row
  is not claimed again, and what a delivery marks.
\<close>

section \<open>The table\<close>

record outbox_row =
  ob_body :: json
  ob_created :: rat
  ob_attempts :: nat
  ob_next :: rat
  ob_delivered :: "rat option"

type_synonym outbox = "(uuid \<times> outbox_row) list"

record pending_event =
  pe_id :: uuid
  pe_body :: json
  pe_attempts :: nat

record lab_event_stats =
  st_pending :: nat
  st_oldest_seconds :: int

text \<open>\<open>oe_parse\<close> is \<open>Uuid::parse_str\<close>, \<open>oe_convert\<close> the conversion of an event, \<open>None\<close> when it does not
  apply.\<close>

record outbox_env =
  oe_parse :: "rstr \<Rightarrow> uuid option"
  oe_convert :: "json \<Rightarrow> json option"

definition is_old_usage :: "json \<Rightarrow> bool" where
  "is_old_usage e \<longleftrightarrow> Option.bind (json_get e (lit ''type'')) json_as_str = Some (lit ''usage.recorded'')
     \<and> (case json_get e (lit ''data'') of Some (JObject d) \<Rightarrow> \<not> bt_contains_key d (lit ''operation'') | _ \<Rightarrow> False)"

definition needs_pre_v2_conversion :: "json list \<Rightarrow> bool" where
  "needs_pre_v2_conversion events = list_ex is_old_usage events"

text \<open>The conversion of the whole table: undelivered rows it applies to start anew.\<close>

definition convert_row :: "outbox_env \<Rightarrow> rat \<Rightarrow> outbox_row \<Rightarrow> outbox_row" where
  "convert_row env now r =
     (case (if ob_delivered r = None then oe_convert env (ob_body r) else None) of
        None \<Rightarrow> r
      | Some body \<Rightarrow> r\<lparr>ob_body := body, ob_attempts := 0, ob_next := now, ob_created := now\<rparr>)"

definition convert_pre_v2 :: "outbox_env \<Rightarrow> rat \<Rightarrow> outbox \<Rightarrow> outbox" where
  "convert_pre_v2 env now = map (map_prod id (convert_row env now))"

section \<open>Queries\<close>

definition event_id :: "outbox_env \<Rightarrow> json \<Rightarrow> uuid option" where
  "event_id env e = Option.bind (Option.bind (json_get e (lit ''id'')) json_as_str) (oe_parse env)"

fun event_ids :: "outbox_env \<Rightarrow> json list \<Rightarrow> rstr + uuid list" where
  "event_ids env [] = Inr []"
| "event_ids env (e # es) =
     (case event_id env e of
        None \<Rightarrow> Inl (lit ''every lab event needs a UUID \"id\"'')
      | Some i \<Rightarrow> try_bind (event_ids env es) (\<lambda>is. Inr (i # is)))"

definition new_row :: "rat \<Rightarrow> json \<Rightarrow> outbox_row" where
  "new_row now body = \<lparr>ob_body = body, ob_created = now, ob_attempts = 0, ob_next = now, ob_delivered = None\<rparr>"

definition insert_row :: "rat \<Rightarrow> uuid \<times> json \<Rightarrow> nat \<times> outbox \<Rightarrow> nat \<times> outbox" where
  "insert_row now e s =
     (if map_of (snd s) (fst e) \<noteq> None then s else (fst s + 1, snd s @ [(fst e, new_row now (snd e))]))"

definition insert_many :: "outbox_env \<Rightarrow> rat \<Rightarrow> json list \<Rightarrow> outbox \<Rightarrow> (rstr + nat) \<times> outbox" where
  "insert_many env now events box =
     (case event_ids env events of
        Inl e \<Rightarrow> (Inl e, box)
      | Inr is \<Rightarrow>
          let (inserted, box) = fold (insert_row now) (zip is events) (0, box)
          in (Inr inserted, if 0 < inserted \<and> needs_pre_v2_conversion events then convert_pre_v2 env now box else box))"

definition due :: "rat \<Rightarrow> outbox_row \<Rightarrow> bool" where
  "due now r \<longleftrightarrow> ob_delivered r = None \<and> ob_next r \<le> now"

definition update_rows :: "(uuid \<Rightarrow> outbox_row \<Rightarrow> bool) \<Rightarrow> (uuid \<Rightarrow> outbox_row \<Rightarrow> outbox_row) \<Rightarrow> outbox \<Rightarrow> outbox" where
  "update_rows P f = map (\<lambda>(i, r). (i, if P i r then f i r else r))"

definition pending_of :: "uuid \<times> outbox_row \<Rightarrow> pending_event" where
  "pending_of x = \<lparr>pe_id = fst x, pe_body = ob_body (snd x), pe_attempts = ob_attempts (snd x)\<rparr>"

definition claim_ids :: "rat \<Rightarrow> nat \<Rightarrow> outbox \<Rightarrow> uuid list" where
  "claim_ids now limit box = map fst (take limit (sort_key (\<lambda>x. ob_created (snd x)) (filter (\<lambda>x. due now (snd x)) box)))"

text \<open>The rows of \<open>ids\<close> that are not delivered, leased until \<open>now + lease\<close>.\<close>

definition lease_rows :: "rat \<Rightarrow> rat \<Rightarrow> uuid list \<Rightarrow> outbox \<Rightarrow> pending_event list \<times> outbox" where
  "lease_rows now lease ids box =
     (let mine = (\<lambda>i r. i \<in> set ids \<and> ob_delivered r = None)
      in (map pending_of (filter (\<lambda>(i, r). mine i r) box), update_rows mine (\<lambda>_ r. r\<lparr>ob_next := now + lease\<rparr>) box))"

definition claim_due :: "rat \<Rightarrow> nat \<Rightarrow> rat \<Rightarrow> outbox \<Rightarrow> pending_event list \<times> outbox" where
  "claim_due now limit lease box = lease_rows now lease (claim_ids now limit box) box"

definition convert_pre_v2_and_reload :: "outbox_env \<Rightarrow> rat \<Rightarrow> uuid list \<Rightarrow> rat \<Rightarrow> outbox \<Rightarrow> pending_event list \<times> outbox" where
  "convert_pre_v2_and_reload env now ids lease box = lease_rows now lease ids (convert_pre_v2 env now box)"

definition mark_delivered :: "rat \<Rightarrow> uuid list \<Rightarrow> outbox \<Rightarrow> outbox" where
  "mark_delivered now ids =
     update_rows (\<lambda>i r. i \<in> set ids \<and> ob_delivered r = None) (\<lambda>_ r. r\<lparr>ob_delivered := Some now\<rparr>)"

text \<open>The seconds to wait after a failure, before the random factor; \<open>random\<close> is between 0 and 1.\<close>

definition backoff_base :: "nat \<Rightarrow> nat" where
  "backoff_base attempts = min (2 ^ min (attempts + 1) 9) 300"

definition reschedule_row :: "rat \<Rightarrow> (uuid \<Rightarrow> rat) \<Rightarrow> uuid \<Rightarrow> outbox_row \<Rightarrow> outbox_row" where
  "reschedule_row now random i r =
     r\<lparr>ob_attempts := ob_attempts r + 1, ob_next := now + of_nat (backoff_base (ob_attempts r)) * (4 / 5 + random i * (2 / 5))\<rparr>"

definition reschedule :: "rat \<Rightarrow> (uuid \<Rightarrow> rat) \<Rightarrow> uuid list \<Rightarrow> outbox \<Rightarrow> outbox" where
  "reschedule now random ids = update_rows (\<lambda>i r. i \<in> set ids \<and> ob_delivered r = None) (reschedule_row now random)"

definition purge_delivered :: "rat \<Rightarrow> rat \<Rightarrow> outbox \<Rightarrow> outbox" where
  "purge_delivered now older = filter (\<lambda>(i, r). case ob_delivered r of Some t \<Rightarrow> \<not> t < now - older | None \<Rightarrow> True)"

definition stale :: "rat \<Rightarrow> rat \<Rightarrow> outbox_row \<Rightarrow> bool" where
  "stale now older r \<longleftrightarrow> ob_delivered r = None \<and> ob_created r < now - older"

definition drop_stale :: "rat \<Rightarrow> rat \<Rightarrow> outbox \<Rightarrow> uuid list \<times> outbox" where
  "drop_stale now older box =
     (map fst (filter (\<lambda>(i, r). stale now older r) box), filter (\<lambda>(i, r). \<not> stale now older r) box)"

text \<open>\<open>as i64\<close> drops the fraction.\<close>

definition outbox_stats :: "rat \<Rightarrow> outbox \<Rightarrow> lab_event_stats" where
  "outbox_stats now box =
     (let created = map (\<lambda>(i, r). ob_created r) (filter (\<lambda>(i, r). ob_delivered r = None) box)
      in \<lparr>st_pending = length created,
          st_oldest_seconds = (case created of [] \<Rightarrow> 0
             | _ \<Rightarrow> let age = now - fold min created (hd created) in if age < 0 then \<lceil>age\<rceil> else \<lfloor>age\<rfloor>)\<rparr>)"

text \<open>The route: the rows are stored, and the sender is woken when there are new ones.\<close>

definition ingest_lab_events :: "outbox_env \<Rightarrow> rat \<Rightarrow> json list \<Rightarrow> outbox \<Rightarrow> (rstr + nat) \<times> bool \<times> outbox" where
  "ingest_lab_events env now events box =
     (let (r, box) = insert_many env now events box
      in (r, case r of Inr n \<Rightarrow> 0 < n | Inl _ \<Rightarrow> False, box))"

section \<open>Delivery\<close>

definition BATCH_SIZE :: nat where "BATCH_SIZE = 500"
definition LEASE :: rat where "LEASE = 30"
definition MAX_ACK_BYTES :: nat where "MAX_ACK_BYTES = 1024 * 1024"
definition RETENTION :: rat where "RETENTION = 7 * 86400"
definition STALE_AFTER :: rat where "STALE_AFTER = 24 * 3600"

text \<open>The chunks of a body; \<open>None\<close> is a chunk that fails.\<close>

fun read_chunks :: "nat \<Rightarrow> byte list option list \<Rightarrow> byte list \<Rightarrow> byte list option" where
  "read_chunks cap [] buf = Some buf"
| "read_chunks cap (None # cs) buf = None"
| "read_chunks cap (Some c # cs) buf =
     (if cap < length buf + length c then None else read_chunks cap cs (buf @ c))"

definition read_capped :: "nat option \<Rightarrow> byte list option list \<Rightarrow> nat \<Rightarrow> byte list option" where
  "read_capped content_length chunks cap =
     (case content_length of
        Some n \<Rightarrow> if cap < n then None else read_chunks cap chunks []
      | None \<Rightarrow> read_chunks cap chunks [])"

datatype delivery = Idle | Sent nat nat | DeliveryFailed rstr nat

datatype lab_answer = LabTimeout | LabConnect | LabAnswer nat "nat option" "byte list option list"

text \<open>One attempt: the clock at the claim, at the reload and at the end, which queries fail, the
  serialized batch, the Lab and the accepted ids read from its body.\<close>

record sender_env = outbox_env +
  sn_claim_at :: rat
  sn_reload_at :: rat
  sn_end_at :: rat
  sn_claim_fails :: bool
  sn_reload_fails :: bool
  sn_mark_fails :: bool
  sn_reschedule_fails :: bool
  sn_random :: "uuid \<Rightarrow> rat"
  sn_to_vec :: "json list \<Rightarrow> rstr + byte list"
  sn_lab :: "byte list \<Rightarrow> lab_answer"
  sn_read_ack :: "byte list \<Rightarrow> uuid list option"

record lab_metrics =
  lm_delivered :: nat
  lm_failed :: "(rstr \<times> nat) list"
  lm_dropped :: nat

definition count_failed :: "rstr \<Rightarrow> nat \<Rightarrow> lab_metrics \<Rightarrow> lab_metrics" where
  "count_failed reason n m = m\<lparr>lm_failed := (reason, n) # lm_failed m\<rparr>"

definition try_reschedule :: "'a sender_env_scheme \<Rightarrow> uuid list \<Rightarrow> outbox \<Rightarrow> outbox" where
  "try_reschedule env ids box =
     (if sn_reschedule_fails env then box else reschedule (sn_end_at env) (sn_random env) ids box)"

definition fail_batch ::
  "'a sender_env_scheme \<Rightarrow> uuid list \<Rightarrow> rstr \<Rightarrow> outbox \<times> lab_metrics \<Rightarrow> delivery \<times> outbox \<times> lab_metrics" where
  "fail_batch env ids reason s =
     (DeliveryFailed reason (length ids), try_reschedule env ids (fst s), count_failed reason 1 (snd s))"

text \<open>What is made of the Lab's answer to a batch.\<close>

definition accepted_ids :: "'a sender_env_scheme \<Rightarrow> lab_answer \<Rightarrow> rstr + uuid list" where
  "accepted_ids env answer =
     (case answer of
        LabTimeout \<Rightarrow> Inl (lit ''timeout'')
      | LabConnect \<Rightarrow> Inl (lit ''connect'')
      | LabAnswer status content_length chunks \<Rightarrow>
          if status = 401 then Inl (lit ''auth'')
          else if status \<noteq> 200 then Inl (lit ''status'')
          else (case Option.bind (read_capped content_length chunks MAX_ACK_BYTES) (sn_read_ack env) of
                  None \<Rightarrow> Inl (lit ''malformed'') | Some ids \<Rightarrow> Inr ids))"

definition settle_batch ::
  "'a sender_env_scheme \<Rightarrow> uuid list \<Rightarrow> uuid list \<Rightarrow> outbox \<times> lab_metrics \<Rightarrow> delivery \<times> outbox \<times> lab_metrics" where
  "settle_batch env accepted ids s =
     (let settled = filter (\<lambda>i. i \<in> set accepted) ids; rest = filter (\<lambda>i. i \<notin> set accepted) ids;
          box = (if sn_mark_fails env then fst s else mark_delivered (sn_end_at env) settled (fst s));
          m = (snd s)\<lparr>lm_delivered := lm_delivered (snd s) + length settled\<rparr>
      in (Sent (length settled) (length rest),
          if rest = [] then box else try_reschedule env rest box,
          if rest = [] then m else count_failed (lit ''not_accepted'') (length rest) m))"

definition send_batch ::
  "'a sender_env_scheme \<Rightarrow> pending_event list \<Rightarrow> outbox \<times> lab_metrics \<Rightarrow> delivery \<times> outbox \<times> lab_metrics" where
  "send_batch env batch s =
     (let ids = map pe_id batch in
      case sn_to_vec env (map pe_body batch) of
        Inl _ \<Rightarrow> fail_batch env ids (lit ''malformed'') s
      | Inr body \<Rightarrow>
          (case accepted_ids env (sn_lab env body) of
             Inl reason \<Rightarrow> fail_batch env ids reason s
           | Inr accepted \<Rightarrow> settle_batch env accepted ids s))"

definition deliver_once :: "'a sender_env_scheme \<Rightarrow> outbox \<times> lab_metrics \<Rightarrow> delivery \<times> outbox \<times> lab_metrics" where
  "deliver_once env s =
     (if sn_claim_fails env then (DeliveryFailed (lit ''db'') 0, s)
      else
        let (batch, box) = claim_due (sn_claim_at env) BATCH_SIZE LEASE (fst s) in
        if batch = [] then (Idle, box, snd s)
        else if needs_pre_v2_conversion (map pe_body batch)
        then (if sn_reload_fails env then (DeliveryFailed (lit ''db'') (length batch), box, snd s)
              else
                let (batch, box) = convert_pre_v2_and_reload (outbox_env.truncate env) (sn_reload_at env) (map pe_id batch) LEASE box
                in if batch = [] then (Idle, box, snd s) else send_batch env batch (box, snd s))
        else send_batch env batch (box, snd s))"

text \<open>The loop while batches come back full: one environment per turn.\<close>

fun drain :: "'a sender_env_scheme list \<Rightarrow> outbox \<times> lab_metrics \<Rightarrow> outbox \<times> lab_metrics" where
  "drain [] s = s"
| "drain (env # envs) s =
     (let r = deliver_once env s
      in case fst r of
           Sent delivered pending \<Rightarrow> if delivered + pending = BATCH_SIZE then drain envs (snd r) else snd r
         | _ \<Rightarrow> snd r)"

text \<open>\<open>None\<close> in place of the clock is a query that fails.\<close>

definition maintain :: "rat option \<Rightarrow> rat option \<Rightarrow> outbox \<times> lab_metrics \<Rightarrow> outbox \<times> lab_metrics" where
  "maintain t1 t2 s =
     (let box = (case t1 of Some now \<Rightarrow> purge_delivered now RETENTION (fst s) | None \<Rightarrow> fst s)
      in case t2 of
           Some now \<Rightarrow> let (ids, box) = drop_stale now STALE_AFTER box
             in (box, (snd s)\<lparr>lm_dropped := lm_dropped (snd s) + length ids\<rparr>)
         | None \<Rightarrow> (box, snd s))"

section \<open>Lookups after a query\<close>

lemma ids_update_rows [simp]: "map fst (update_rows P f box) = map fst box"
  by (induction box) (auto simp: update_rows_def)

lemma map_of_update_rows [simp]:
  "map_of (update_rows P f box) i = map_option (\<lambda>r. if P i r then f i r else r) (map_of box i)"
  by (induction box) (auto simp: update_rows_def)

lemma ids_convert [simp]: "map fst (convert_pre_v2 env now box) = map fst box"
  by (induction box) (auto simp: convert_pre_v2_def)

lemma map_of_convert [simp]:
  "map_of (convert_pre_v2 env now box) i = map_option (convert_row env now) (map_of box i)"
  by (induction box) (auto simp: convert_pre_v2_def)

lemma delivered_convert [simp]: "ob_delivered (convert_row env now r) = ob_delivered r"
  by (simp add: convert_row_def split: option.splits)

lemma map_of_filter_distinct:
  "distinct (map fst box) \<Longrightarrow> map_of (filter P box) i = (case map_of box i of
     Some r \<Rightarrow> if P (i, r) then Some r else None | None \<Rightarrow> None)"
proof (induction box)
  case (Cons x box)
  then show ?case
    by (cases x) (auto simp: map_of_eq_None_iff split: option.splits dest: map_of_SomeD image_eqI[where f = fst])
qed simp

lemma distinct_filter_ids: "distinct (map fst box) \<Longrightarrow> distinct (map fst (filter P box))"
  by (induction box) (auto simp: image_iff)

lemma ids_lease_rows [simp]: "map fst (snd (lease_rows now lease ids box)) = map fst box"
  by (simp add: lease_rows_def Let_def)

lemma map_of_lease_rows [simp]:
  "map_of (snd (lease_rows now lease ids box)) i =
     map_option (\<lambda>r. if i \<in> set ids \<and> ob_delivered r = None then r\<lparr>ob_next := now + lease\<rparr> else r) (map_of box i)"
  by (simp add: lease_rows_def Let_def)

lemma event_ids_length: "event_ids env es = Inr is \<Longrightarrow> length is = length es"
  by (induction es arbitrary: "is") (auto simp: try_bind_def split: option.splits sum.splits)

subsection \<open>Inserts\<close>

lemma insert_row_old: "map_of box (fst e) = Some r \<Longrightarrow> insert_row now e (n, box) = (n, box)"
  and insert_row_new: "map_of box (fst e) = None
    \<Longrightarrow> insert_row now e (n, box) = (n + 1, box @ [(fst e, new_row now (snd e))])"
  by (simp_all add: insert_row_def)

lemma insert_row_keeps:
  "map_of box i = Some r \<Longrightarrow> map_of (snd (fold (insert_row now) es (n, box))) i = Some r"
proof (induction es arbitrary: n box)
  case (Cons e es)
  then show ?case
    by (cases "map_of box (fst e)") (simp_all add: insert_row_old insert_row_new)
qed simp

lemma map_of_fst_iff: "map_of box i = None \<longleftrightarrow> i \<notin> fst ` set box"
  by (rule map_of_eq_None_iff)

lemma insert_row_ids:
  "fst ` set (snd (fold (insert_row now) es (n, box))) = fst ` set box \<union> fst ` set es"
proof (induction es arbitrary: n box)
  case (Cons e es)
  show ?case
  proof (cases "map_of box (fst e)")
    case None
    then show ?thesis
      using Cons.IH[of "n + 1" "box @ [(fst e, new_row now (snd e))]"] by (simp add: insert_row_new)
  next
    case (Some r)
    then have "fst e \<in> fst ` set box"
      using map_of_fst_iff[of box "fst e"] by simp
    then show ?thesis
      using Cons.IH[of n box] Some by (auto simp: insert_row_old)
  qed
qed simp

lemma insert_row_distinct:
  "distinct (map fst box) \<Longrightarrow> distinct (map fst (snd (fold (insert_row now) es (n, box))))"
proof (induction es arbitrary: n box)
  case (Cons e es)
  then show ?case
    by (cases "map_of box (fst e)") (simp_all add: insert_row_old insert_row_new map_of_fst_iff)
qed simp

lemma insert_row_known:
  "\<forall>e\<in>set es. map_of box (fst e) \<noteq> None \<Longrightarrow> fold (insert_row now) es (n, box) = (n, box)"
  by (induction es) (auto simp: insert_row_old)

lemma insert_row_count: "fst (fold (insert_row now) es (n, box)) \<le> n + length es"
proof (induction es arbitrary: n box)
  case (Cons e es)
  show ?case
    using Cons.IH[of "n + 1" "box @ [(fst e, new_row now (snd e))]"] Cons.IH[of n box]
    by (cases "map_of box (fst e)") (simp_all add: insert_row_old insert_row_new)
qed simp

lemma insert_row_all:
  "fst (fold (insert_row now) es (n, box)) = n + length es \<Longrightarrow> e \<in> set es
   \<Longrightarrow> map_of (snd (fold (insert_row now) es (n, box))) (fst e) = Some (new_row now (snd e))"
proof (induction es arbitrary: n box)
  case (Cons x es)
  show ?case
  proof (cases "map_of box (fst x)")
    case (Some r)
    then show ?thesis
      using Cons.prems(1) insert_row_count[of now es n box] by (simp add: insert_row_old)
  next
    case None
    let ?box = "box @ [(fst x, new_row now (snd x))]"
    have "map_of ?box (fst x) = Some (new_row now (snd x))"
      using None by (simp add: map_add_def)
    then show ?thesis
      using Cons.IH[of "n + 1" ?box] Cons.prems insert_row_keeps[of ?box "fst x" _ now es "n + 1"]
      by (auto simp: insert_row_new None)
  qed
qed simp

section \<open>Interleavings of queries\<close>

text \<open>The queries any replica runs on the table, with the constants the sender runs them with.\<close>

datatype outbox_query =
  QInsert "json list"
| QClaim
| QReload "uuid list"
| QMark "uuid list"
| QReschedule "uuid \<Rightarrow> rat" "uuid list"
| QPurge
| QDropStale

fun apply_query :: "outbox_env \<Rightarrow> rat \<times> outbox_query \<Rightarrow> outbox \<Rightarrow> outbox" where
  "apply_query env (now, QInsert events) box = snd (insert_many env now events box)"
| "apply_query env (now, QClaim) box = snd (claim_due now BATCH_SIZE LEASE box)"
| "apply_query env (now, QReload ids) box = snd (convert_pre_v2_and_reload env now ids LEASE box)"
| "apply_query env (now, QMark ids) box = mark_delivered now ids box"
| "apply_query env (now, QReschedule random ids) box = reschedule now random ids box"
| "apply_query env (now, QPurge) box = purge_delivered now RETENTION box"
| "apply_query env (now, QDropStale) box = snd (drop_stale now STALE_AFTER box)"

definition run_queries :: "outbox_env \<Rightarrow> (rat \<times> outbox_query) list \<Rightarrow> outbox \<Rightarrow> outbox" where
  "run_queries env = fold (apply_query env)"

lemma run_queries_simps [simp]:
  "run_queries env [] box = box"
  "run_queries env (q # qs) box = run_queries env qs (apply_query env q box)"
  by (simp_all add: run_queries_def)

text \<open>An insert is refused, or is the fold followed by a conversion or by nothing.\<close>

lemma insert_many_cases:
  obtains (refused) e where "event_ids env events = Inl e" "insert_many env now events box = (Inl e, box)"
  | (stored) "is" n box1 where "event_ids env events = Inr is" "fold (insert_row now) (zip is events) (0, box) = (n, box1)"
      "insert_many env now events box =
         (Inr n, if 0 < n \<and> needs_pre_v2_conversion events then convert_pre_v2 env now box1 else box1)"
proof (cases "event_ids env events")
  case (Inr "is")
  then show ?thesis
    using stored by (cases "fold (insert_row now) (zip is events) (0, box)") (simp add: insert_many_def)
qed (use refused in \<open>simp add: insert_many_def\<close>)

lemma insert_many_distinct:
  assumes "distinct (map fst box)"
  shows "distinct (map fst (snd (insert_many env now events box)))"
proof (cases rule: insert_many_cases[of env events now box])
  case (stored "is" n box1)
  then show ?thesis
    using insert_row_distinct[OF assms, of now "zip is events" 0] by simp
qed (use assms in simp)

lemma apply_query_distinct:
  "distinct (map fst box) \<Longrightarrow> distinct (map fst (apply_query env q box))"
  by (cases "(env, q, box)" rule: apply_query.cases)
     (simp_all add: insert_many_distinct claim_due_def convert_pre_v2_and_reload_def mark_delivered_def reschedule_def
        purge_delivered_def drop_stale_def distinct_filter_ids)

lemma run_queries_distinct:
  "distinct (map fst box) \<Longrightarrow> distinct (map fst (run_queries env qs box))"
  by (induction qs arbitrary: box) (simp_all add: apply_query_distinct)

subsection \<open>Events stay for a day\<close>

definition fresh_row :: "rat \<Rightarrow> outbox_row \<Rightarrow> bool" where
  "fresh_row t r \<longleftrightarrow> t \<le> ob_created r \<and> (case ob_delivered r of Some d \<Rightarrow> t \<le> d | None \<Rightarrow> True)"

lemma fresh_convert: "fresh_row t r \<Longrightarrow> t \<le> now \<Longrightarrow> fresh_row t (convert_row env now r)"
  by (auto simp: fresh_row_def convert_row_def split: option.splits if_splits)

lemma insert_many_keeps_fresh:
  assumes "map_of box i = Some r" "fresh_row t r" "t \<le> now"
  shows "\<exists>r'. map_of (snd (insert_many env now events box)) i = Some r' \<and> fresh_row t r'"
proof (cases rule: insert_many_cases[of env events now box])
  case (stored "is" n box1)
  then show ?thesis
    using insert_row_keeps[OF assms(1), of now "zip is events" 0] assms(2,3) by (auto intro: fresh_convert)
qed (use assms in simp)

lemma apply_query_keeps_fresh:
  assumes "distinct (map fst box)" "map_of box i = Some r" "fresh_row t r" "t \<le> fst q" "fst q \<le> t + STALE_AFTER"
  shows "\<exists>r'. map_of (apply_query env q box) i = Some r' \<and> fresh_row t r'"
proof (cases "(env, q, box)" rule: apply_query.cases)
  case (1 env' now events box')
  then show ?thesis
    using insert_many_keeps_fresh[OF assms(2,3)] assms(4) by simp
next
  case (2 env' now box')
  then show ?thesis
    using assms by (auto simp: claim_due_def fresh_row_def)
next
  case (3 env' now ids box')
  then show ?thesis
    using assms fresh_convert[OF assms(3), of now env] by (auto simp: convert_pre_v2_and_reload_def fresh_row_def)
next
  case (4 env' now ids box')
  then show ?thesis
    using assms by (auto simp: mark_delivered_def fresh_row_def)
next
  case (5 env' now random ids box')
  then show ?thesis
    using assms by (auto simp: reschedule_def reschedule_row_def fresh_row_def)
next
  case (6 env' now box')
  then show ?thesis
    using assms
    by (auto simp: purge_delivered_def fresh_row_def map_of_filter_distinct RETENTION_def STALE_AFTER_def split: option.splits)
next
  case (7 env' now box')
  then show ?thesis
    using assms by (auto simp: drop_stale_def stale_def fresh_row_def map_of_filter_distinct)
qed

lemma run_queries_keep_fresh:
  assumes "distinct (map fst box)" "map_of box i = Some r" "fresh_row t r"
    "\<And>q. q \<in> set qs \<Longrightarrow> t \<le> fst q \<and> fst q \<le> t + STALE_AFTER"
  shows "\<exists>r'. map_of (run_queries env qs box) i = Some r' \<and> fresh_row t r'"
  using assms
proof (induction qs arbitrary: box r)
  case (Cons q qs)
  obtain r1 where "map_of (apply_query env q box) i = Some r1" "fresh_row t r1"
    using apply_query_keeps_fresh[OF Cons.prems(1-3), of q env] Cons.prems(4)[of q] by auto
  then show ?case
    using Cons.IH[OF apply_query_distinct[OF Cons.prems(1), of env q]] Cons.prems(4) by simp
qed auto

lemma insert_many_all_fresh:
  assumes ins: "insert_many env t events box = (Inr (length events), box1)" and ids: "event_ids env events = Inr is"
    and i: "i \<in> set is"
  shows "\<exists>r. map_of box1 i = Some r \<and> fresh_row t r"
proof (cases rule: insert_many_cases[of env events t box])
  case (stored is' n box2)
  have len: "length is = length events"
    using ids by (rule event_ids_length)
  then obtain e where e: "(i, e) \<in> set (zip is events)"
    using i by (metis in_set_impl_in_set_zip1)
  have "map_of box2 i = Some (new_row t e)"
    using insert_row_all[of t "zip is events" 0 box "(i, e)"] stored ins ids len e by auto
  then show ?thesis
    using stored ins fresh_convert[of t "new_row t e" t env] by (auto simp: fresh_row_def new_row_def)
qed (use ins in simp)

lemma insert_many_known:
  assumes "event_ids env events = Inr is" "\<forall>i\<in>set is. map_of box i \<noteq> None"
  shows "insert_many env t events box = (Inr 0, box)"
proof -
  have "fold (insert_row t) (zip is events) (0, box) = (0, box)"
    using assms(2) by (intro insert_row_known) (auto dest: set_zip_leftD)
  then show ?thesis
    using assms(1) by (simp add: insert_many_def)
qed

subsection \<open>Leases\<close>

text \<open>A row stands leased until \<open>T\<close> when it is delivered or not due before \<open>T\<close>, and no conversion
  applies to it.\<close>

definition leased_row :: "outbox_env \<Rightarrow> rat \<Rightarrow> outbox_row \<Rightarrow> bool" where
  "leased_row env T r \<longleftrightarrow> ob_delivered r \<noteq> None \<or> (T \<le> ob_next r \<and> oe_convert env (ob_body r) = None)"

definition leased :: "outbox_env \<Rightarrow> rat \<Rightarrow> uuid \<Rightarrow> outbox \<Rightarrow> bool" where
  "leased env T i box = (case map_of box i of Some r \<Rightarrow> leased_row env T r | None \<Rightarrow> True)"

text \<open>The queries that end a lease: a reschedule of the row, and an insert of its event once the row is gone.\<close>

fun ends_lease :: "outbox_env \<Rightarrow> uuid \<Rightarrow> outbox_query \<Rightarrow> bool" where
  "ends_lease env i (QInsert events) = (case event_ids env events of Inr is \<Rightarrow> i \<in> set is | Inl _ \<Rightarrow> False)"
| "ends_lease env i (QReschedule random ids) = (i \<in> set ids)"
| "ends_lease env i q = False"

lemma leased_convert: "leased_row env T r \<Longrightarrow> leased_row env T (convert_row env now r)"
  by (auto simp: leased_row_def convert_row_def split: option.splits)

lemma insert_row_absent:
  "map_of box i = None \<Longrightarrow> i \<notin> fst ` set es \<Longrightarrow> map_of (snd (fold (insert_row now) es (n, box))) i = None"
  using insert_row_ids[of now es n box] by (simp add: map_of_fst_iff)

lemma leased_insert_fold:
  assumes "leased env T i box" "i \<notin> fst ` set es"
  shows "leased env T i (snd (fold (insert_row now) es (n, box)))"
  using assms insert_row_keeps[of box i _ now es n] insert_row_absent[of box i es now n]
  by (cases "map_of box i") (auto simp: leased_def)

lemma leased_insert:
  assumes "leased env T i box" "\<not> ends_lease env i (QInsert events)"
  shows "leased env T i (snd (insert_many env now events box))"
proof (cases rule: insert_many_cases[of env events now box])
  case (stored "is" n box1)
  have "i \<notin> fst ` set (zip is events)"
    using assms(2) stored by (auto dest: set_zip_leftD)
  then have "leased env T i box1"
    using leased_insert_fold[OF assms(1), of "zip is events" now 0] stored by simp
  then show ?thesis
    using stored by (auto simp: leased_def leased_convert split: option.splits)
qed (use assms in simp)

lemma leased_filter: "distinct (map fst box) \<Longrightarrow> leased env T i box \<Longrightarrow> leased env T i (filter P box)"
  by (cases "map_of box i") (simp_all add: leased_def map_of_filter_distinct)

lemma leased_lease_rows:
  "leased env T i box \<Longrightarrow> T \<le> now + LEASE \<Longrightarrow> leased env T i (snd (lease_rows now LEASE ids box))"
  by (auto simp: leased_def leased_row_def split: option.splits)

lemma apply_query_keeps_lease:
  assumes "distinct (map fst box)" "leased env T i box" "\<not> ends_lease env i (snd q)" "T \<le> fst q + LEASE"
  shows "leased env T i (apply_query env q box)"
proof (cases "(env, q, box)" rule: apply_query.cases)
  case (1 env' now events box')
  then show ?thesis
    using leased_insert[OF assms(2)] assms(3) by simp
next
  case (2 env' now box')
  then show ?thesis
    using leased_lease_rows assms by (simp add: claim_due_def)
next
  case (3 env' now ids box')
  have "leased env T i (convert_pre_v2 env now box)"
    using assms(2) by (auto simp: leased_def leased_convert split: option.splits)
  then show ?thesis
    using 3 leased_lease_rows assms by (simp add: convert_pre_v2_and_reload_def)
next
  case (4 env' now ids box')
  then show ?thesis
    using assms(2) by (cases "map_of box i") (simp_all add: mark_delivered_def leased_def leased_row_def)
next
  case (5 env' now random ids box')
  then show ?thesis
    using assms(2,3) by (cases "map_of box i") (simp_all add: reschedule_def leased_def)
next
  case (6 env' now box')
  then show ?thesis
    using assms leased_filter by (simp add: purge_delivered_def)
next
  case (7 env' now box')
  then show ?thesis
    using assms leased_filter by (simp add: drop_stale_def)
qed

lemma run_queries_keep_lease:
  assumes "distinct (map fst box)" "leased env T i box"
    "\<And>q. q \<in> set qs \<Longrightarrow> \<not> ends_lease env i (snd q) \<and> T \<le> fst q + LEASE"
  shows "leased env T i (run_queries env qs box)"
  using assms
proof (induction qs arbitrary: box)
  case (Cons q qs)
  then show ?case
    using Cons.IH[OF apply_query_distinct[OF Cons.prems(1), of env q]] apply_query_keeps_lease[OF Cons.prems(1,2), of q]
    by simp
qed simp

lemma lease_rows_batch:
  "distinct (map fst box) \<Longrightarrow> e \<in> set (fst (lease_rows now lease ids box))
   \<Longrightarrow> \<exists>r. map_of box (pe_id e) = Some r \<and> ob_delivered r = None \<and> pe_id e \<in> set ids \<and> e = pending_of (pe_id e, r)"
  by (force simp: lease_rows_def Let_def pending_of_def)

lemma claim_ids_due:
  "i \<in> set (claim_ids now limit box) \<Longrightarrow> \<exists>r. (i, r) \<in> set box \<and> due now r"
  by (auto simp: claim_ids_def dest!: in_set_takeD)

lemma claim_due_batch:
  assumes "distinct (map fst box)" "e \<in> set (fst (claim_due now limit lease box))"
  shows "\<exists>r. map_of box (pe_id e) = Some r \<and> due now r \<and> e = pending_of (pe_id e, r) \<and> pe_id e \<in> set (claim_ids now limit box)"
proof -
  obtain r where r: "map_of box (pe_id e) = Some r" "pe_id e \<in> set (claim_ids now limit box)" "e = pending_of (pe_id e, r)"
    using lease_rows_batch[OF assms(1)] assms(2) by (force simp: claim_due_def)
  then obtain r' where "(pe_id e, r') \<in> set box" "due now r'"
    using claim_ids_due by blast
  then show ?thesis
    using r assms(1) by auto
qed

section \<open>What a delivery does to the table\<close>

definition same_delivery :: "outbox \<Rightarrow> outbox \<Rightarrow> bool" where
  "same_delivery box box' \<longleftrightarrow> map fst box' = map fst box
     \<and> (\<forall>i. map_option ob_delivered (map_of box' i) = map_option ob_delivered (map_of box i))"

lemma same_delivery_refl [simp]: "same_delivery box box"
  by (simp add: same_delivery_def)

lemma same_delivery_trans: "same_delivery a b \<Longrightarrow> same_delivery b c \<Longrightarrow> same_delivery a c"
  by (simp add: same_delivery_def)

lemma same_delivery_lookup:
  "same_delivery box box' \<Longrightarrow> map_of box i = Some r \<Longrightarrow> \<exists>r'. map_of box' i = Some r' \<and> ob_delivered r' = ob_delivered r"
  by (cases "map_of box' i") (auto simp: same_delivery_def dest!: spec[of _ i])

lemma same_delivery_queries [simp]:
  "same_delivery box (snd (lease_rows now lease ids box))"
  "same_delivery box (convert_pre_v2 env now box)"
  "same_delivery box (reschedule now random ids box)"
  by (auto simp: same_delivery_def reschedule_def reschedule_row_def option.map_comp option.map_id[simplified id_def]
      intro!: option.map_cong0)

lemma same_delivery_reload [simp]: "same_delivery box (snd (convert_pre_v2_and_reload env now ids lease box))"
  unfolding convert_pre_v2_and_reload_def by (rule same_delivery_trans[OF same_delivery_queries(2,1)])

lemma same_delivery_try_reschedule [simp]: "same_delivery box (try_reschedule env ids box)"
  by (simp add: try_reschedule_def)

lemma lease_rows_ids:
  "map pe_id (fst (lease_rows now lease ids box)) = map fst (filter (\<lambda>x. fst x \<in> set ids \<and> ob_delivered (snd x) = None) box)"
  by (simp add: lease_rows_def Let_def pending_of_def case_prod_unfold comp_def)

text \<open>The batch a delivery sends, and the table it is sent from: the claimed rows, converted and leased
  anew when one of them is of an old worker.\<close>

definition sent_batch :: "'a sender_env_scheme \<Rightarrow> outbox \<Rightarrow> pending_event list \<times> outbox" where
  "sent_batch env box =
     (let (batch, box) = claim_due (sn_claim_at env) BATCH_SIZE LEASE box
      in if needs_pre_v2_conversion (map pe_body batch)
         then convert_pre_v2_and_reload (outbox_env.truncate env) (sn_reload_at env) (map pe_id batch) LEASE box
         else (batch, box))"

lemma deliver_once_cases:
  obtains (unsent) d box' where "deliver_once env (box, m) = (d, box', m)" "same_delivery box box'" "\<And>k n. d \<noteq> Sent k n"
  | (sent) "deliver_once env (box, m) = send_batch env (fst (sent_batch env box)) (snd (sent_batch env box), m)"
proof -
  obtain batch box1 where c: "claim_due (sn_claim_at env) BATCH_SIZE LEASE box = (batch, box1)"
    by fastforce
  obtain batch2 box2 where r: "convert_pre_v2_and_reload (outbox_env.truncate env) (sn_reload_at env) (map pe_id batch) LEASE box1 = (batch2, box2)"
    by fastforce
  have s1: "same_delivery box box1"
    using same_delivery_queries(1) c unfolding claim_due_def by (metis snd_conv)
  have s2: "same_delivery box1 box2"
    using same_delivery_reload r by (metis snd_conv)
  consider "sn_claim_fails env" | "batch = []" | "needs_pre_v2_conversion (map pe_body batch)" "sn_reload_fails env"
    | "needs_pre_v2_conversion (map pe_body batch)" "batch2 = []"
    | "\<not> sn_claim_fails env" "batch \<noteq> []" "needs_pre_v2_conversion (map pe_body batch)" "\<not> sn_reload_fails env" "batch2 \<noteq> []"
    | "\<not> sn_claim_fails env" "batch \<noteq> []" "\<not> needs_pre_v2_conversion (map pe_body batch)"
    by blast
  then show ?thesis
  proof cases
    case 1
    then show ?thesis
      by (intro unsent[of "DeliveryFailed (lit ''db'') 0" box]) (simp_all add: deliver_once_def)
  next
    case 2
    then show ?thesis
      using s1 c unsent[of "fst (deliver_once env (box, m))" "fst (snd (deliver_once env (box, m)))"]
      by (cases "sn_claim_fails env") (simp_all add: deliver_once_def)
  next
    case 3
    then show ?thesis
      using s1 c unsent[of "fst (deliver_once env (box, m))" "fst (snd (deliver_once env (box, m)))"]
      by (cases "sn_claim_fails env") (simp_all add: deliver_once_def)
  next
    case 4
    then show ?thesis
      using s1 same_delivery_trans[OF s1 s2] c r
        unsent[of "fst (deliver_once env (box, m))" "fst (snd (deliver_once env (box, m)))"]
      by (cases "sn_claim_fails env"; cases "batch = []"; cases "sn_reload_fails env") (simp_all add: deliver_once_def)
  next
    case 5
    then show ?thesis
      using c r by (intro sent) (simp add: deliver_once_def sent_batch_def)
  next
    case 6
    then show ?thesis
      using c by (intro sent) (simp add: deliver_once_def sent_batch_def)
  qed
qed

lemma sent_batch_same: "same_delivery box (snd (sent_batch env box))"
  by (auto simp: sent_batch_def claim_due_def intro: same_delivery_trans[OF same_delivery_queries(1) same_delivery_reload]
      split: prod.splits dest!: arg_cong[of _ _ snd])

text \<open>What is sent of a row is its body, or the body its conversion gives.\<close>

lemma sent_batch_row:
  assumes "distinct (map fst box)" "e \<in> set (fst (sent_batch env box))"
  shows "\<exists>r. map_of box (pe_id e) = Some r \<and> ob_delivered r = None
    \<and> (pe_body e = ob_body r \<or> oe_convert (outbox_env.truncate env) (ob_body r) = Some (pe_body e))"
proof -
  obtain batch box1 where c: "claim_due (sn_claim_at env) BATCH_SIZE LEASE box = (batch, box1)"
    by fastforce
  have rows: "map_of box1 i = map_option (\<lambda>r. if i \<in> set (claim_ids (sn_claim_at env) BATCH_SIZE box) \<and> ob_delivered r = None
      then r\<lparr>ob_next := sn_claim_at env + LEASE\<rparr> else r) (map_of box i)" for i
    using c map_of_lease_rows unfolding claim_due_def by (metis snd_conv)
  have d1: "distinct (map fst box1)"
    using c assms(1) ids_lease_rows unfolding claim_due_def by (metis snd_conv)
  show ?thesis
  proof (cases "needs_pre_v2_conversion (map pe_body batch)")
    case False
    then show ?thesis
      using claim_due_batch[OF assms(1), of e "sn_claim_at env" BATCH_SIZE LEASE] assms(2) c
      by (auto simp: sent_batch_def due_def pending_of_def dest: arg_cong[of e _ pe_body])
  next
    case True
    let ?conv = "convert_pre_v2 (outbox_env.truncate env) (sn_reload_at env) box1"
    have d2: "distinct (map fst ?conv)"
      using d1 by simp
    have "e \<in> set (fst (lease_rows (sn_reload_at env) LEASE (map pe_id batch) ?conv))"
      using assms(2) True c by (simp add: sent_batch_def convert_pre_v2_and_reload_def)
    then obtain r where r: "map_of ?conv (pe_id e) = Some r" "ob_delivered r = None" "e = pending_of (pe_id e, r)"
      using lease_rows_batch[OF d2] by blast
    then obtain r0 where r0: "map_of box (pe_id e) = Some r0" "ob_delivered r0 = None"
      and "pe_body e = ob_body r0 \<or> oe_convert (outbox_env.truncate env) (ob_body r0) = Some (pe_body e)"
      by (cases "map_of box (pe_id e)")
         (auto simp: rows pending_of_def convert_row_def split: if_splits option.splits dest: arg_cong[of e _ pe_body])
    then show ?thesis
      by blast
  qed
qed

lemma delivered_fail_batch:
  "fail_batch env ids reason (box, m) = (d, box', m') \<Longrightarrow> same_delivery box box'"
  by (auto simp: fail_batch_def)

lemma delivered_settle_batch:
  assumes "settle_batch env accepted ids (box, m) = (d, box', m')" "map_of box i = Some r" "ob_delivered r = None"
    "map_of box' i = Some r'" "ob_delivered r' \<noteq> None"
  shows "i \<in> set ids \<and> i \<in> set accepted"
proof -
  let ?box1 = "if sn_mark_fails env then box else mark_delivered (sn_end_at env) (filter (\<lambda>i. i \<in> set accepted) ids) box"
  have "same_delivery ?box1 box'"
    using assms(1) by (auto simp: settle_batch_def Let_def)
  then show ?thesis
    using assms(2-5) same_delivery_lookup[of ?box1 box' i]
    by (auto simp: mark_delivered_def split: if_splits)
qed

lemma mark_delivered_keeps:
  "map_of box i = Some r \<Longrightarrow> \<exists>r'. map_of (mark_delivered now ids box) i = Some r'
     \<and> ob_delivered r' = (if i \<in> set ids \<and> ob_delivered r = None then Some now else ob_delivered r)"
  by (auto simp: mark_delivered_def)

section \<open>Draining\<close>

definition undelivered_ids :: "outbox \<Rightarrow> uuid list" where
  "undelivered_ids box = map fst (filter (\<lambda>x. ob_delivered (snd x) = None) box)"

lemma pending_gauge: "st_pending (outbox_stats now box) = length (undelivered_ids box)"
  by (simp add: outbox_stats_def undelivered_ids_def case_prod_unfold Let_def)

lemma undelivered_iff:
  "distinct (map fst box) \<Longrightarrow> i \<in> set (undelivered_ids box) \<longleftrightarrow> (\<exists>r. map_of box i = Some r \<and> ob_delivered r = None)"
  by (force simp: undelivered_ids_def)

lemma undelivered_distinct: "distinct (map fst box) \<Longrightarrow> distinct (undelivered_ids box)"
  unfolding undelivered_ids_def by (rule distinct_filter_ids)

lemma undelivered_subset: "set (undelivered_ids box) \<subseteq> fst ` set box"
  by (auto simp: undelivered_ids_def)

lemma undelivered_same:
  assumes "distinct (map fst box)" "same_delivery box box'"
  shows "set (undelivered_ids box') = set (undelivered_ids box)"
proof -
  have d: "distinct (map fst box')"
    using assms by (simp add: same_delivery_def)
  have "map_option ob_delivered (map_of box' i) = map_option ob_delivered (map_of box i)" for i
    using assms(2) by (simp add: same_delivery_def)
  then have "map_option ob_delivered (map_of box' i) = Some None \<longleftrightarrow> map_option ob_delivered (map_of box i) = Some None" for i
    by simp
  then show ?thesis
    by (auto simp: undelivered_iff[OF assms(1)] undelivered_iff[OF d] simp del: map_of_eq_Some_iff)
qed

text \<open>The rows a claim takes.\<close>

lemma claim_ids_set:
  assumes "distinct (map fst box)"
  shows "set (claim_ids now limit box) \<subseteq> set (undelivered_ids box)"
  using claim_ids_due[of _ now limit box] assms by (fastforce simp: undelivered_iff due_def)

lemma claim_ids_distinct: "distinct (map fst box) \<Longrightarrow> distinct (claim_ids now limit box)"
proof -
  assume "distinct (map fst box)"
  then have "distinct (map fst (filter (\<lambda>x. due now (snd x)) box))"
    by (rule distinct_filter_ids)
  then have "distinct (map fst (sort_key (\<lambda>x. ob_created (snd x)) (filter (\<lambda>x. due now (snd x)) box)))"
    by (simp add: distinct_map)
  then show ?thesis
    unfolding claim_ids_def take_map[symmetric] by (rule distinct_take)
qed

lemma claim_ids_short:
  assumes "length (claim_ids now limit box) < limit" "map_of box i = Some r" "due now r"
  shows "i \<in> set (claim_ids now limit box)"
proof -
  have "(i, r) \<in> set (sort_key (\<lambda>x. ob_created (snd x)) (filter (\<lambda>x. due now (snd x)) box))"
    using assms(2,3) by (simp add: map_of_SomeD)
  then show ?thesis
    using assms(1) unfolding claim_ids_def by (force simp: min_def split: if_splits)
qed

lemma claim_ids_length: "length (claim_ids now limit box) \<le> limit"
  by (simp add: claim_ids_def)

lemma lease_rows_taken:
  assumes "distinct (map fst box)" "set ids \<subseteq> set (undelivered_ids box)"
  shows "set (map pe_id (fst (lease_rows now lease ids box))) = set ids"
  using assms(2) by (auto simp: lease_rows_ids undelivered_ids_def)

lemma sent_batch_ids:
  assumes "distinct (map fst box)"
  shows "set (map pe_id (fst (sent_batch env box))) = set (claim_ids (sn_claim_at env) BATCH_SIZE box)
    \<and> length (fst (sent_batch env box)) = length (claim_ids (sn_claim_at env) BATCH_SIZE box)"
proof -
  let ?ids = "claim_ids (sn_claim_at env) BATCH_SIZE box"
  obtain batch box1 where c: "claim_due (sn_claim_at env) BATCH_SIZE LEASE box = (batch, box1)"
    by fastforce
  then have cl: "lease_rows (sn_claim_at env) LEASE ?ids box = (batch, box1)"
    by (simp add: claim_due_def)
  have ids1: "set (map pe_id batch) = set ?ids"
    using lease_rows_taken[OF assms claim_ids_set[OF assms]] cl by (metis fst_conv)
  let ?conv = "convert_pre_v2 (outbox_env.truncate env) (sn_reload_at env) box1"
  have s: "same_delivery box ?conv"
    using same_delivery_trans[OF same_delivery_queries(1) same_delivery_queries(2)] cl by (metis snd_conv)
  have dc: "distinct (map fst ?conv)"
    using s assms by (simp add: same_delivery_def)
  have "set (map pe_id batch) \<subseteq> set (undelivered_ids ?conv)"
    using undelivered_same[OF assms s] claim_ids_set[OF assms] ids1 by auto
  then have ids2: "set (map pe_id (fst (lease_rows (sn_reload_at env) LEASE (map pe_id batch) ?conv))) = set ?ids"
    using lease_rows_taken[OF dc] ids1 by metis
  have ids: "set (map pe_id (fst (sent_batch env box))) = set ?ids"
    using ids1 ids2 c by (simp add: sent_batch_def convert_pre_v2_and_reload_def)
  have "distinct (map pe_id (fst (sent_batch env box)))"
  proof (cases "needs_pre_v2_conversion (map pe_body batch)")
    case True
    then show ?thesis
      using distinct_filter_ids[OF dc] c
      by (simp add: sent_batch_def convert_pre_v2_and_reload_def lease_rows_ids del: distinct_map)
  next
    case False
    then show ?thesis
      using distinct_filter_ids[OF assms] lease_rows_ids[of "sn_claim_at env" LEASE ?ids box] c cl
      by (simp add: sent_batch_def)
  qed
  then have "length (map pe_id (fst (sent_batch env box))) = length ?ids"
    using ids claim_ids_distinct[OF assms] by (metis distinct_card)
  then show ?thesis
    using ids by simp
qed

text \<open>An attempt whose queries succeed and whose Lab accepts what it is sent: \<open>S\<close> are the events there are, by id; a batch of
  them is answered with at least the ids of that batch. \<open>events_in\<close>: the rows of the table are of \<open>S\<close>.\<close>

definition accepting :: "'a sender_env_scheme \<Rightarrow> (uuid \<times> json) set \<Rightarrow> bool" where
  "accepting env S \<longleftrightarrow> \<not> sn_claim_fails env \<and> \<not> sn_reload_fails env \<and> \<not> sn_mark_fails env
     \<and> (\<forall>batch. length batch \<le> BATCH_SIZE \<and> set batch \<subseteq> S \<longrightarrow>
          (\<exists>body content_length chunks ack ids. sn_to_vec env (map snd batch) = Inr body
             \<and> sn_lab env body = LabAnswer 200 content_length chunks \<and> read_capped content_length chunks MAX_ACK_BYTES = Some ack
             \<and> sn_read_ack env ack = Some ids \<and> fst ` set batch \<subseteq> set ids))"

definition converts_within :: "outbox_env \<Rightarrow> (uuid \<times> json) set \<Rightarrow> bool" where
  "converts_within env S \<longleftrightarrow> (\<forall>i e e'. (i, e) \<in> S \<and> oe_convert env e = Some e' \<longrightarrow> (i, e') \<in> S)"

definition events_in :: "(uuid \<times> json) set \<Rightarrow> outbox \<Rightarrow> bool" where
  "events_in S box \<longleftrightarrow> (\<forall>x \<in> set box. (fst x, ob_body (snd x)) \<in> S)"

lemma events_in_update: "events_in S box \<Longrightarrow> (\<And>i r. ob_body (f i r) = ob_body r) \<Longrightarrow> events_in S (update_rows P f box)"
  by (fastforce simp: events_in_def update_rows_def)

lemma events_in_lease: "events_in S box \<Longrightarrow> events_in S (snd (lease_rows now lease ids box))"
  by (simp add: lease_rows_def Let_def events_in_update)

lemma events_in_convert: "events_in S box \<Longrightarrow> converts_within env S \<Longrightarrow> events_in S (convert_pre_v2 env now box)"
  by (fastforce simp: events_in_def convert_pre_v2_def convert_row_def converts_within_def split: option.splits if_splits)

lemma events_in_sent:
  assumes "events_in S box" "converts_within (outbox_env.truncate env) S"
  shows "events_in S (snd (sent_batch env box))"
proof (cases "claim_due (sn_claim_at env) BATCH_SIZE LEASE box")
  case (Pair batch box1)
  then have "events_in S box1"
    using events_in_lease[OF assms(1)] unfolding claim_due_def by (metis snd_conv)
  then show ?thesis
    using Pair assms(2) by (simp add: sent_batch_def convert_pre_v2_and_reload_def events_in_lease events_in_convert)
qed

lemma sent_in:
  assumes "distinct (map fst box)" "events_in S box" "converts_within (outbox_env.truncate env) S" "e \<in> set (fst (sent_batch env box))"
  shows "(pe_id e, pe_body e) \<in> S"
proof -
  obtain r where "map_of box (pe_id e) = Some r"
    "pe_body e = ob_body r \<or> oe_convert (outbox_env.truncate env) (ob_body r) = Some (pe_body e)"
    using sent_batch_row[OF assms(1,4)] by blast
  then show ?thesis
    using assms(2,3) by (auto simp: events_in_def converts_within_def dest!: map_of_SomeD bspec)
qed

lemma accepting_send:
  assumes "accepting env S" "\<And>e. e \<in> set batch \<Longrightarrow> (pe_id e, pe_body e) \<in> S" "length batch \<le> BATCH_SIZE"
  shows "\<exists>m'. send_batch env batch (box, m)
    = (Sent (length batch) 0, mark_delivered (sn_end_at env) (map pe_id batch) box, m')"
proof -
  let ?sent = "map (\<lambda>e. (pe_id e, pe_body e)) batch"
  have "length ?sent \<le> BATCH_SIZE \<and> set ?sent \<subseteq> S"
    using assms(2,3) by auto
  then obtain body content_length chunks ack ids where
    "sn_to_vec env (map snd ?sent) = Inr body" "sn_lab env body = LabAnswer 200 content_length chunks"
    "read_capped content_length chunks MAX_ACK_BYTES = Some ack" "sn_read_ack env ack = Some ids" "fst ` set ?sent \<subseteq> set ids"
    using assms(1) unfolding accepting_def by blast
  then have b: "sn_to_vec env (map pe_body batch) = Inr body" "accepted_ids env (sn_lab env body) = Inr ids" "pe_id ` set batch \<subseteq> set ids"
    by (simp_all add: comp_def accepted_ids_def image_image)
  have "filter (\<lambda>i. i \<in> set ids) (map pe_id batch) = map pe_id batch"
    "filter (\<lambda>i. i \<notin> set ids) (map pe_id batch) = []"
    using b(3) by (auto simp: filter_id_conv filter_empty_conv simp del: filter_map)
  then show ?thesis
    using b(1,2) assms(1) by (simp add: send_batch_def settle_batch_def Let_def accepting_def del: filter_map)
qed

lemma deliver_once_sent:
  "\<not> sn_claim_fails env \<Longrightarrow> \<not> sn_reload_fails env \<Longrightarrow> deliver_once env (box, m) =
     (if fst (sent_batch env box) = [] then (Idle, snd (sent_batch env box), m)
      else send_batch env (fst (sent_batch env box)) (snd (sent_batch env box), m))"
  by (auto simp: deliver_once_def sent_batch_def needs_pre_v2_conversion_def split: prod.splits)

text \<open>The clock does not run backwards between the queries of a drain.\<close>

fun clocked :: "rat \<Rightarrow> 'a sender_env_scheme list \<Rightarrow> bool" where
  "clocked t [] = True"
| "clocked t (env # envs) \<longleftrightarrow> t \<le> sn_claim_at env \<and> sn_claim_at env \<le> sn_reload_at env \<and> clocked (sn_reload_at env) envs"

lemma sent_batch_other:
  assumes "i \<notin> set (claim_ids (sn_claim_at env) BATCH_SIZE box)" "distinct (map fst box)"
  shows "map_of (snd (sent_batch env box)) i = map_of box i
    \<or> map_of (snd (sent_batch env box)) i = map_option (convert_row (outbox_env.truncate env) (sn_reload_at env)) (map_of box i)"
proof -
  let ?ids = "claim_ids (sn_claim_at env) BATCH_SIZE box"
  obtain batch box1 where c: "lease_rows (sn_claim_at env) LEASE ?ids box = (batch, box1)"
    by fastforce
  have b1: "box1 = snd (lease_rows (sn_claim_at env) LEASE ?ids box)"
    and bt: "set (map pe_id batch) \<subseteq> set ?ids"
    using c lease_rows_ids[of "sn_claim_at env" LEASE ?ids box] by auto
  have "i \<notin> set (map pe_id batch)"
    using bt assms(1) by blast
  moreover have "map_of box1 i = map_of box i"
    using assms(1) by (cases "map_of box i") (simp_all add: b1)
  ultimately show ?thesis
    using c by (cases "map_of box i")
      (simp_all add: sent_batch_def claim_due_def convert_pre_v2_and_reload_def del: map_of_eq_Some_iff)
qed

lemma accepting_step:
  assumes d: "distinct (map fst box)" and acc: "accepting env S" "events_in S box" "converts_within (outbox_env.truncate env) S"
  defines "C \<equiv> claim_ids (sn_claim_at env) BATCH_SIZE box"
  obtains box' m' where "deliver_once env (box, m) = (if C = [] then Idle else Sent (length C) 0, box', m')"
    "map fst box' = map fst box" "events_in S box'"
    "\<And>i r. map_of box i = Some r \<Longrightarrow> (ob_delivered r \<noteq> None \<or> ob_next r \<le> t) \<Longrightarrow> t \<le> sn_claim_at env
      \<Longrightarrow> sn_claim_at env \<le> sn_reload_at env \<Longrightarrow> \<exists>r'. map_of box' i = Some r'
        \<and> (ob_delivered r' \<noteq> None \<or> (i \<notin> set C \<and> ob_delivered r = None \<and> ob_next r' \<le> sn_reload_at env))"
    "length (undelivered_ids box') + length C \<le> length (undelivered_ids box)"
proof -
  let ?batch = "fst (sent_batch env box)" and ?box = "snd (sent_batch env box)"
  let ?box' = "mark_delivered (sn_end_at env) (map pe_id ?batch) ?box"
  have ids: "set (map pe_id ?batch) = set C" "length ?batch = length C"
    using sent_batch_ids[OF d, of env] by (simp_all add: C_def)
  have same: "same_delivery box ?box"
    by (rule sent_batch_same)
  have fst': "map fst ?box' = map fst box"
    using same by (simp add: mark_delivered_def same_delivery_def)
  have row: "\<exists>r'. map_of ?box' i = Some r' \<and> ob_delivered r' = (if i \<in> set C \<and> ob_delivered r = None
      then Some (sn_end_at env) else ob_delivered r)" if "map_of box i = Some r" for i r
    using same_delivery_lookup[OF same that] mark_delivered_keeps ids(1) by metis
  have other: "map_of ?box' i = map_of ?box i" if "i \<notin> set C" for i
    using that ids(1) by (cases "map_of ?box i") (auto simp: mark_delivered_def simp del: map_of_eq_Some_iff)
  have keeps: "\<exists>r'. map_of ?box' i = Some r'
      \<and> (ob_delivered r' \<noteq> None \<or> (i \<notin> set C \<and> ob_delivered r = None \<and> ob_next r' \<le> sn_reload_at env))"
    if r: "map_of box i = Some r" "ob_delivered r \<noteq> None \<or> ob_next r \<le> t" "t \<le> sn_claim_at env"
      "sn_claim_at env \<le> sn_reload_at env" for i r
  proof (cases "i \<in> set C \<or> ob_delivered r \<noteq> None")
    case True
    then show ?thesis
      using row[OF r(1)] by (auto split: if_splits)
  next
    case False
    then have "map_of ?box' i = Some r \<or> map_of ?box' i = Some (convert_row (outbox_env.truncate env) (sn_reload_at env) r)"
      using other sent_batch_other[OF _ d, of i env] r(1) by (auto simp: C_def simp del: map_of_eq_Some_iff)
    then show ?thesis
      using False r by (auto simp: convert_row_def split: option.splits simp del: map_of_eq_Some_iff)
  qed
  have d': "distinct (map fst ?box')"
    using fst' d by simp
  have "set (undelivered_ids ?box') \<subseteq> set (undelivered_ids box) - set C"
  proof
    fix i
    assume "i \<in> set (undelivered_ids ?box')"
    then obtain r' where r': "map_of ?box' i = Some r'" "ob_delivered r' = None"
      using undelivered_iff[OF d'] by blast
    then obtain r where r: "map_of box i = Some r"
      using fst' by (metis map_of_eq_None_iff list.set_map not_None_eq option.distinct(1))
    show "i \<in> set (undelivered_ids box) - set C"
      using row[OF r] r r' undelivered_iff[OF d] by (auto split: if_splits)
  qed
  moreover have "set C \<subseteq> set (undelivered_ids box)" "distinct C"
    using claim_ids_set[OF d] claim_ids_distinct[OF d] by (simp_all add: C_def)
  ultimately have "card (set (undelivered_ids ?box')) + card (set C) \<le> card (set (undelivered_ids box))"
    by (metis card_Diff_subset card_mono finite_set finite_Diff le_diff_conv2 List.finite_set)
  then have count: "length (undelivered_ids ?box') + length C \<le> length (undelivered_ids box)"
    using undelivered_distinct[OF d] undelivered_distinct[OF d'] \<open>distinct C\<close> by (simp add: distinct_card)
  have none: "mark_delivered (sn_end_at env) [] b = b" for b
    by (induction b) (auto simp: mark_delivered_def update_rows_def)
  have "length ?batch \<le> BATCH_SIZE"
    using ids(2) by (simp add: C_def claim_ids_def)
  from accepting_send[OF acc(1) sent_in[OF d acc(2,3)] this] obtain m' where
    "send_batch env ?batch (?box, m) = (Sent (length ?batch) 0, ?box', m')"
    by blast
  moreover have "?batch = [] \<longleftrightarrow> C = []"
    using ids(2) by (metis length_0_conv)
  ultimately have "deliver_once env (box, m) = (if C = [] then Idle else Sent (length C) 0, ?box', if C = [] then m else m')"
    using ids(2) acc(1) none by (cases "C = []") (simp_all add: deliver_once_sent accepting_def)
  moreover have "events_in S ?box'"
    using events_in_sent[OF acc(2,3)] by (simp add: mark_delivered_def events_in_update)
  ultimately show thesis
    using that fst' keeps count by blast
qed

lemma drain_induct:
  assumes "distinct (map fst box)" "length (undelivered_ids box) < BATCH_SIZE * length envs"
    "\<And>env. env \<in> set envs \<Longrightarrow> accepting env S \<and> converts_within (outbox_env.truncate env) S" "events_in S box" "clocked t envs"
    "map_of box i = Some r" "ob_delivered r \<noteq> None \<or> ob_next r \<le> t"
  shows "\<exists>r'. map_of (fst (drain envs (box, m))) i = Some r' \<and> ob_delivered r' \<noteq> None"
  using assms
proof (induction envs arbitrary: box m t r)
  case (Cons env envs)
  let ?C = "claim_ids (sn_claim_at env) BATCH_SIZE box"
  have times: "t \<le> sn_claim_at env" "sn_claim_at env \<le> sn_reload_at env" "clocked (sn_reload_at env) envs"
    using Cons.prems(5) by simp_all
  obtain box' m' where step: "deliver_once env (box, m) = (if ?C = [] then Idle else Sent (length ?C) 0, box', m')"
    and fst': "map fst box' = map fst box" and ev: "events_in S box'"
    and row: "\<exists>r'. map_of box' i = Some r'
        \<and> (ob_delivered r' \<noteq> None \<or> (i \<notin> set ?C \<and> ob_delivered r = None \<and> ob_next r' \<le> sn_reload_at env))"
    and count: "length (undelivered_ids box') + length ?C \<le> length (undelivered_ids box)"
  proof -
    have acc: "accepting env S" "converts_within (outbox_env.truncate env) S"
      using Cons.prems(3)[of env] by simp_all
    show ?thesis
      by (rule accepting_step[OF Cons.prems(1) acc(1) Cons.prems(4) acc(2), of m]) (use that Cons.prems(6,7) times(1,2) in blast)
  qed
  show ?case
  proof (cases "length ?C = BATCH_SIZE")
    case True
    then have "drain (env # envs) (box, m) = drain envs (box', m')"
      using step by (auto simp: BATCH_SIZE_def)
    then show ?thesis
      using Cons.IH[of box' "sn_reload_at env" _ m'] Cons.prems(1-3) True count fst' ev row times(3) by auto
  next
    case False
    then have "length ?C < BATCH_SIZE"
      using claim_ids_length[of "sn_claim_at env" BATCH_SIZE box] by simp
    then have "ob_delivered r = None \<longrightarrow> i \<in> set ?C"
      using claim_ids_short[OF _ Cons.prems(6)] Cons.prems(7) times(1) by (auto simp: due_def)
    moreover have "fst (drain (env # envs) (box, m)) = box'"
      using step False by (simp add: Let_def)
    ultimately show ?thesis
      using row by auto
  qed
qed simp


section \<open>Properties\<close>

text \<open>The queries of a day keep an event that was stored; so its worker may post it again: no row is
  added and none changes, and it is billed once.\<close>

theorem retried_events_stored_once:
  assumes "distinct (map fst box)" "insert_many env t events box = (Inr (length events), box1)"
    "\<And>q. q \<in> set qs \<Longrightarrow> t \<le> fst q \<and> fst q \<le> t + STALE_AFTER"
  shows "insert_many env t' events (run_queries env qs box1) = (Inr 0, run_queries env qs box1)"
proof (cases rule: insert_many_cases[of env events t box])
  case (stored "is" n box2)
  have d: "distinct (map fst box1)"
    using insert_many_distinct[OF assms(1)] assms(2) by (metis snd_conv)
  have "map_of (run_queries env qs box1) i \<noteq> None" if "i \<in> set is" for i
  proof -
    have "\<exists>r. map_of box1 i = Some r \<and> fresh_row t r"
      using that by (rule insert_many_all_fresh[OF assms(2) stored(1)])
    then obtain r where "map_of box1 i = Some r" "fresh_row t r"
      by blast
    then show ?thesis
      using run_queries_keep_fresh[OF d, of i r t qs env] assms(3) by (metis option.distinct(1))
  qed
  then show ?thesis
    using insert_many_known[OF stored(1)] by blast
qed (use assms in simp)

text \<open>C25. A row a sender claimed is not given to another sender while its lease of 30 s lasts, whatever queries
  run between, unless the row is backed off, or was gone and is posted again. It holds for events no
  conversion applies to.\<close>

theorem lease_exclusive:
  assumes "distinct (map fst box)" "claim_due t BATCH_SIZE LEASE box = (batch, box1)" "e \<in> set batch"
    "oe_convert env (pe_body e) = None" "\<And>q. q \<in> set qs \<Longrightarrow> t \<le> fst q \<and> \<not> ends_lease env (pe_id e) (snd q)"
    "t' < t + LEASE"
  shows "pe_id e \<notin> pe_id ` set (fst (claim_due t' BATCH_SIZE LEASE (run_queries env qs box1)))"
proof
  let ?box = "run_queries env qs box1"
  assume "pe_id e \<in> pe_id ` set (fst (claim_due t' BATCH_SIZE LEASE ?box))"
  then obtain e' where e': "e' \<in> set (fst (claim_due t' BATCH_SIZE LEASE ?box))" "pe_id e' = pe_id e"
    by force
  have b1: "box1 = snd (lease_rows t LEASE (claim_ids t BATCH_SIZE box) box)"
    using assms(2) by (simp add: claim_due_def)
  have d1: "distinct (map fst box1)"
    using assms(1) by (simp add: b1)
  obtain r where r: "map_of box (pe_id e) = Some r" "ob_delivered r = None" "ob_body r = pe_body e"
    "pe_id e \<in> set (claim_ids t BATCH_SIZE box)"
    using claim_due_batch[OF assms(1), of e t BATCH_SIZE LEASE] assms(2,3)
    by (auto simp: due_def pending_of_def dest: arg_cong[of e _ pe_body])
  have "leased env (t + LEASE) (pe_id e) box1"
    using r assms(4) by (simp add: b1 leased_def leased_row_def)
  then have "leased env (t + LEASE) (pe_id e) ?box"
    using assms(5) by (intro run_queries_keep_lease[OF d1]) auto
  moreover obtain r' where "map_of ?box (pe_id e) = Some r'" "due t' r'"
    using claim_due_batch[OF run_queries_distinct[OF d1] e'(1)] e'(2) by auto
  ultimately show False
    using assms(6) by (auto simp: leased_def leased_row_def due_def)
qed

text \<open>C23. A delivery marks a row delivered only when the row was in the batch it sent, with its body or its
  converted body, and the Lab answered that batch with 200 and, within the limit, a body that lists its id as accepted.\<close>

theorem delivered_only_when_accepted:
  assumes "distinct (map fst box)" "map_of box i = Some r" "ob_delivered r = None"
    "deliver_once env (box, m) = (d, box', m')" "map_of box' i = Some r'" "ob_delivered r' \<noteq> None"
  shows "\<exists>(batch :: pending_event list) body content_length chunks ack ids e. sn_to_vec env (map pe_body batch) = Inr body
    \<and> sn_lab env body = LabAnswer 200 content_length chunks \<and> read_capped content_length chunks MAX_ACK_BYTES = Some ack
    \<and> sn_read_ack env ack = Some ids \<and> i \<in> set ids
    \<and> e \<in> set batch \<and> pe_id e = i
    \<and> (pe_body e = ob_body r \<or> oe_convert (outbox_env.truncate env) (ob_body r) = Some (pe_body e))"
proof (cases rule: deliver_once_cases[of env box m])
  case (unsent d1 box1)
  then show ?thesis
    using same_delivery_lookup[of box box1 i r] assms by auto
next
  case sent
  let ?batch = "fst (sent_batch env box)" and ?box = "snd (sent_batch env box)"
  obtain r1 where r1: "map_of ?box i = Some r1" "ob_delivered r1 = None"
    using same_delivery_lookup[OF sent_batch_same assms(2)] assms(3) by auto
  obtain body accepted where b: "sn_to_vec env (map pe_body ?batch) = Inr body"
    "accepted_ids env (sn_lab env body) = Inr accepted"
    "settle_batch env accepted (map pe_id ?batch) (?box, m) = (d, box', m')"
    using assms(4-6) sent r1 delivered_fail_batch same_delivery_lookup[of ?box box' i r1]
    by (fastforce simp: send_batch_def Let_def split: sum.splits)
  then obtain e where e: "e \<in> set ?batch" "pe_id e = i" "i \<in> set accepted"
    using delivered_settle_batch[OF b(3) r1 assms(5,6)] by auto
  moreover obtain content_length chunks ack where "sn_lab env body = LabAnswer 200 content_length chunks"
    "read_capped content_length chunks MAX_ACK_BYTES = Some ack" "sn_read_ack env ack = Some accepted"
    using b(2) by (auto simp: accepted_ids_def bind_eq_Some_conv split: lab_answer.splits if_splits option.splits)
  ultimately show ?thesis
    using b(1) sent_batch_row[OF assms(1) e(1)] assms(2)
    by - (intro exI[of _ ?batch] exI[of _ body] exI[of _ content_length] exI[of _ chunks] exI[of _ ack] exI[of _ accepted] exI[of _ e], auto)
qed

text \<open>A row that failed is due again after between 1.6 s and 6 min, however often it failed.\<close>

theorem backoff_bounds:
  assumes "0 \<le> random i" "random i \<le> 1"
  shows "now + 8 / 5 \<le> ob_next (reschedule_row now random i r) \<and> ob_next (reschedule_row now random i r) \<le> now + 360"
proof -
  let ?b = "backoff_base (ob_attempts r)" and ?f = "4 / 5 + random i * (2 / 5)"
  have "(2 :: nat) ^ 1 \<le> 2 ^ min (ob_attempts r + 1) 9"
    by (rule power_increasing) auto
  then have "2 \<le> ?b" "?b \<le> 300"
    by (auto simp: backoff_base_def)
  then have b: "(2 :: rat) \<le> of_nat ?b" "of_nat ?b \<le> (300 :: rat)"
    using of_nat_mono[of 2 ?b, where ?'a = rat] of_nat_mono[of ?b 300, where ?'a = rat] by simp_all
  have f: "4 / 5 \<le> ?f" "?f \<le> 6 / 5"
    using assms by linarith+
  have "2 * (4 / 5) \<le> of_nat ?b * ?f" "of_nat ?b * ?f \<le> 300 * (6 / 5)"
    using b f by (intro mult_mono; linarith)+
  then show ?thesis
    unfolding reschedule_row_def by simp
qed

text \<open>C24. When the Lab accepts what it is sent, answering every batch with at least its ids, and no query fails, draining leaves
  nothing that was due in the outbox, however many batches it takes: with turns for all that is pending, every due event is marked
  delivered. \<open>S\<close> holds the events of the table and what they are converted to.\<close>

theorem drain_delivers_all_due:
  assumes "distinct (map fst box)" "st_pending (outbox_stats t box) < BATCH_SIZE * length envs"
    "events_in S box" "\<And>env. env \<in> set envs \<Longrightarrow> accepting env S \<and> converts_within (outbox_env.truncate env) S" "clocked t envs"
    "map_of box i = Some r" "due t r"
  shows "\<exists>r'. map_of (fst (drain envs (box, m))) i = Some r' \<and> ob_delivered r' \<noteq> None"
  using assms by (intro drain_induct[where S = S]) (auto simp: pending_gauge due_def)

section \<open>Witnesses\<close>

text \<open>An old usage event, the same event converted, and a table that holds it.\<close>

definition demo_event :: "string \<Rightarrow> (rstr \<times> json) list \<Rightarrow> json" where
  "demo_event i d = JObject (bt_of_list [(lit ''id'', JString (lit i)), (lit ''type'', JString (lit ''usage.recorded'')),
     (lit ''data'', JObject (bt_of_list d))])"

definition demo_convert :: "json \<Rightarrow> json option" where
  "demo_convert e = (if is_old_usage e then
     (case e of JObject m \<Rightarrow>
        Some (JObject (bt_insert (lit ''data'') (JObject [(lit ''operation'', JString (lit ''ingest''))]) m))
      | _ \<Rightarrow> None) else None)"

definition demo_outbox_env :: outbox_env where
  "demo_outbox_env = \<lparr>oe_parse = (\<lambda>s. if s = [] then None else Some s), oe_convert = demo_convert\<rparr>"

definition demo_new_event :: json where
  "demo_new_event = demo_event ''a'' [(lit ''operation'', JString (lit ''ingest''))]"

definition demo_box :: "json \<Rightarrow> outbox" where
  "demo_box e = [(lit ''a'', new_row 0 e)]"

text \<open>A second event, and a Lab that is sent one byte for each event of a batch and accepts the ids of exactly these.\<close>

definition demo_other_event :: json where
  "demo_other_event = demo_event ''b'' [(lit ''operation'', JString (lit ''index''))]"

definition demo_bytes :: "json list \<Rightarrow> byte list" where
  "demo_bytes = map (\<lambda>e. if e = demo_new_event then 1 else 2)"

definition demo_ack :: "byte list \<Rightarrow> uuid list" where
  "demo_ack = map (\<lambda>c. if c = 1 then lit ''a'' else lit ''b'')"

definition demo_sender :: sender_env where
  "demo_sender = outbox_env.extend demo_outbox_env
     \<lparr>sn_claim_at = 1, sn_reload_at = 1, sn_end_at = 2, sn_claim_fails = False, sn_reload_fails = False,
      sn_mark_fails = False, sn_reschedule_fails = False, sn_random = (\<lambda>_. 0), sn_to_vec = (\<lambda>events. Inr (demo_bytes events)),
      sn_lab = (\<lambda>body. LabAnswer 200 None [Some body]), sn_read_ack = (\<lambda>ack. Some (demo_ack ack))\<rparr>"

definition demo_events :: "(uuid \<times> json) set" where
  "demo_events = {(lit ''a'', demo_new_event), (lit ''b'', demo_other_event)}"

lemma demo_events_differ: "demo_other_event \<noteq> demo_new_event"
  by code_simp

lemma demo_ack_all:
  assumes "set batch \<subseteq> demo_events"
  shows "fst ` set batch \<subseteq> set (demo_ack (demo_bytes (map snd batch)))"
proof
  fix i
  assume "i \<in> fst ` set batch"
  then obtain e where e: "(i, e) \<in> set batch" by auto
  with assms have "(e = demo_new_event \<and> i = lit ''a'') \<or> (e = demo_other_event \<and> i = lit ''b'')"
    by (auto simp: demo_events_def)
  with demo_events_differ have "i = (if (if e = demo_new_event then 1 else (2 :: byte)) = 1 then lit ''a'' else lit ''b'')"
    by auto
  with e show "i \<in> set (demo_ack (demo_bytes (map snd batch)))"
    unfolding demo_ack_def demo_bytes_def set_map image_image by (auto intro: rev_image_eqI)
qed

lemma demo_accepting: "accepting demo_sender demo_events"
  using demo_ack_all
  by (auto simp: accepting_def demo_sender_def outbox_env.defs read_capped_def MAX_ACK_BYTES_def BATCH_SIZE_def demo_bytes_def)

lemma demo_converts: "converts_within (outbox_env.truncate demo_sender) demo_events"
proof -
  have "demo_convert demo_new_event = None" "demo_convert demo_other_event = None"
    by code_simp+
  then show ?thesis
    by (auto simp: converts_within_def demo_events_def demo_sender_def demo_outbox_env_def outbox_env.defs)
qed

lemma demo_insert: "insert_many demo_outbox_env 0 [demo_new_event] [] = (Inr 1, demo_box demo_new_event)"
  by code_simp

lemma demo_claim:
  "claim_due 0 BATCH_SIZE LEASE (demo_box demo_new_event) =
     ([\<lparr>pe_id = lit ''a'', pe_body = demo_new_event, pe_attempts = 0\<rparr>],
      [(lit ''a'', (new_row 0 demo_new_event)\<lparr>ob_next := 30\<rparr>)])"
  by code_simp

theorem retried_events_stored_once_witness:
  "insert_many demo_outbox_env 200000 [demo_new_event]
     (run_queries demo_outbox_env [(1, QClaim), (2, QMark [lit ''a'']), (3600, QPurge), (3600, QDropStale)] (demo_box demo_new_event))
   = (Inr 0, run_queries demo_outbox_env [(1, QClaim), (2, QMark [lit ''a'']), (3600, QPurge), (3600, QDropStale)] (demo_box demo_new_event))"
  using demo_insert by (intro retried_events_stored_once[of "[]" demo_outbox_env 0]) (auto simp: STALE_AFTER_def)

theorem lease_exclusive_witness:
  "lit ''a'' \<notin> pe_id ` set (fst (claim_due 29 BATCH_SIZE LEASE
     (run_queries demo_outbox_env [(1, QClaim), (2, QPurge)] [(lit ''a'', (new_row 0 demo_new_event)\<lparr>ob_next := 30\<rparr>)])))"
proof -
  have "oe_convert demo_outbox_env demo_new_event = None"
    by code_simp
  moreover have "0 \<le> fst q \<and> \<not> ends_lease demo_outbox_env i (snd q)" if "q \<in> set [(1 :: rat, QClaim), (2, QPurge)]" for q i
    using that by auto
  ultimately show ?thesis
    using lease_exclusive[OF _ demo_claim, of "\<lparr>pe_id = lit ''a'', pe_body = demo_new_event, pe_attempts = 0\<rparr>"
        demo_outbox_env "[(1, QClaim), (2, QPurge)]" 29]
    by (simp add: demo_box_def LEASE_def)
qed

theorem delivered_only_when_accepted_witness:
  "\<exists>d box' m' r'. deliver_once demo_sender (demo_box demo_new_event, \<lparr>lm_delivered = 0, lm_failed = [], lm_dropped = 0\<rparr>) = (d, box', m')
     \<and> map_of box' (lit ''a'') = Some r' \<and> ob_delivered r' = Some 2
     \<and> (\<exists>(batch :: pending_event list) body content_length chunks ack ids e. sn_to_vec demo_sender (map pe_body batch) = Inr body
          \<and> sn_lab demo_sender body = LabAnswer 200 content_length chunks \<and> read_capped content_length chunks MAX_ACK_BYTES = Some ack
          \<and> sn_read_ack demo_sender ack = Some ids \<and> lit ''a'' \<in> set ids
          \<and> e \<in> set batch \<and> pe_id e = lit ''a''
          \<and> (pe_body e = ob_body (new_row 0 demo_new_event)
             \<or> oe_convert (outbox_env.truncate demo_sender) (ob_body (new_row 0 demo_new_event)) = Some (pe_body e)))"
proof -
  let ?m = "\<lparr>lm_delivered = 0, lm_failed = [], lm_dropped = 0\<rparr>"
  let ?e = "\<lparr>pe_id = lit ''a'', pe_body = demo_new_event, pe_attempts = 0\<rparr>"
  let ?r' = "(new_row 0 demo_new_event)\<lparr>ob_next := 31, ob_delivered := Some 2\<rparr>"
  have sent: "sent_batch demo_sender (demo_box demo_new_event) = ([?e], [(lit ''a'', (new_row 0 demo_new_event)\<lparr>ob_next := 31\<rparr>)])"
    by code_simp
  have marked: "mark_delivered (sn_end_at demo_sender) (map pe_id [?e]) [(lit ''a'', (new_row 0 demo_new_event)\<lparr>ob_next := 31\<rparr>)]
      = [(lit ''a'', ?r')]"
    by (simp add: mark_delivered_def update_rows_def new_row_def demo_sender_def outbox_env.defs)
  obtain m' where run: "deliver_once demo_sender (demo_box demo_new_event, ?m) = (Sent (length [?e]) 0, [(lit ''a'', ?r')], m')"
    using accepting_send[OF demo_accepting, of "[?e]" "[(lit ''a'', (new_row 0 demo_new_event)\<lparr>ob_next := 31\<rparr>)]" ?m]
      deliver_once_sent[of demo_sender "demo_box demo_new_event" ?m] demo_accepting
    unfolding sent marked by (auto simp: accepting_def demo_events_def BATCH_SIZE_def)
  have "\<exists>(batch :: pending_event list) body content_length chunks ack ids e. sn_to_vec demo_sender (map pe_body batch) = Inr body
      \<and> sn_lab demo_sender body = LabAnswer 200 content_length chunks \<and> read_capped content_length chunks MAX_ACK_BYTES = Some ack
      \<and> sn_read_ack demo_sender ack = Some ids \<and> lit ''a'' \<in> set ids
      \<and> e \<in> set batch \<and> pe_id e = lit ''a''
      \<and> (pe_body e = ob_body (new_row 0 demo_new_event)
         \<or> oe_convert (outbox_env.truncate demo_sender) (ob_body (new_row 0 demo_new_event)) = Some (pe_body e))"
    by (rule delivered_only_when_accepted[OF _ _ _ run, of _ _ ?r']) (simp_all add: demo_box_def new_row_def)
  moreover have "map_of [(lit ''a'', ?r')] (lit ''a'') = Some ?r'" "ob_delivered ?r' = Some 2"
    by (simp_all add: new_row_def)
  ultimately show ?thesis
    using run by blast
qed

theorem backoff_bounds_witness:
  "(0 :: rat) + 8 / 5 \<le> ob_next (reschedule_row 0 (\<lambda>_. 1) [] (new_row 0 demo_new_event))
   \<and> ob_next (reschedule_row 0 (\<lambda>_. 1) [] (new_row 0 demo_new_event)) \<le> 0 + 360"
  using backoff_bounds[of "\<lambda>_. 1" "[]" 0 "new_row 0 demo_new_event"] by simp

theorem drain_delivers_all_due_witness:
  "\<exists>r'. map_of (fst (drain [demo_sender] ([(lit ''a'', new_row 0 demo_new_event), (lit ''b'', new_row 0 demo_other_event)],
       \<lparr>lm_delivered = 0, lm_failed = [], lm_dropped = 0\<rparr>))) (lit ''b'') = Some r' \<and> ob_delivered r' \<noteq> None"
proof (rule drain_delivers_all_due[of _ 0 _ demo_events "lit ''b''" "new_row 0 demo_other_event"])
  show "accepting env demo_events \<and> converts_within (outbox_env.truncate env) demo_events" if "env \<in> set [demo_sender]" for env
    using that demo_accepting demo_converts by simp
  show "st_pending (outbox_stats 0 [(lit ''a'', new_row 0 demo_new_event), (lit ''b'', new_row 0 demo_other_event)])
      < BATCH_SIZE * length [demo_sender]"
    by (simp add: pending_gauge undelivered_ids_def BATCH_SIZE_def)
qed (simp_all add: demo_sender_def outbox_env.defs due_def new_row_def events_in_def demo_events_def lit_def)

text \<open>A claim of an old worker's row is not exclusive: another insert of such an event converts it, which
  makes it due again, before its sender has reloaded it. Two senders then hold the same row.\<close>

lemma converted_row_claimed_twice:
  "(let box0 = demo_box (demo_event ''a'' []);
        (batch_a, box1) = claim_due 0 BATCH_SIZE LEASE box0;
        box2 = snd (insert_many demo_outbox_env 1 [demo_event ''b'' []] box1);
        (batch_b, box3) = claim_due 2 BATCH_SIZE LEASE box2;
        (batch_a', box4) = convert_pre_v2_and_reload demo_outbox_env 3 (map pe_id batch_a) LEASE box3
    in map pe_id batch_b = [lit ''a'', lit ''b''] \<and> map pe_id batch_a' = [lit ''a''])"
  by code_simp

end
