(* ===== verification/Source_Run.thy ===== *)
theory Source_Run
  imports Source_Url Step_Activity Archive_Workflow
begin

text \<open>
  \<open>crates/worker/src/source_activity.rs\<close> and \<open>source_workflow.rs\<close>, with the source types of
  \<open>crates/source/src/model.rs\<close>: one scheduled run of a source. The activity loads the source, checks the
  credits of a Lab account, loads the pipeline, opens the credential, fetches, stages what it fetched
  and returns references; the workflow starts one pipeline per item and records the run. The
  control plane, the upstream, the object store and the ends of the child workflows are the environment;
  requests are recorded. The lemmas: what is checked before anything is fetched, what a job carries,
  when the incremental state is saved, and that unchanged content is not ingested again.
\<close>

section \<open>Sources\<close>

record source_definition =
  sd_id :: uuid
  sd_uid :: rstr
  sd_name :: rstr
  sd_description :: "rstr option"
  sd_tenant_id :: "rstr option"
  sd_pipeline_uid :: rstr
  sd_location :: location
  sd_cron :: rstr
  sd_timezone :: rstr
  sd_paused :: bool
  sd_index_name :: "rstr option"
  sd_schedule_id :: rstr
  sd_archived_at :: "rstr option"

definition redact :: "fetch_auth \<Rightarrow> json" where
  "redact auth =
     (case auth of
        AuthBearer _ \<Rightarrow> json_obj [(lit ''kind'', JString (lit ''bearer'')), (lit ''token'', JString (lit ''****''))]
      | AuthBasic username _ \<Rightarrow> json_obj [(lit ''kind'', JString (lit ''basic'')), (lit ''username'', JString username),
          (lit ''password'', JString (lit ''****''))]
      | AuthHeaders headers \<Rightarrow> json_obj [(lit ''kind'', JString (lit ''headers'')),
          (lit ''headers'', JObject (map (\<lambda>(k, _). (k, JString (lit ''****''))) headers))])"

definition schedule_id :: "uuid \<Rightarrow> rstr" where
  "schedule_id source = lit ''source-'' @ source"

definition workflow_id_prefix :: "uuid \<Rightarrow> rstr" where
  "workflow_id_prefix source = lit ''source-run-'' @ source"

datatype run_outcome = RunUnchanged | RunIngested | RunFailed

fun run_outcome_str :: "run_outcome \<Rightarrow> rstr" where
  "run_outcome_str RunUnchanged = lit ''unchanged''"
| "run_outcome_str RunIngested = lit ''ingested''"
| "run_outcome_str RunFailed = lit ''failed''"

definition parse_run_outcome :: "(rstr \<Rightarrow> rstr) \<Rightarrow> rstr \<Rightarrow> source_error + run_outcome" where
  "parse_run_outcome dbg s =
     (if s = lit ''unchanged'' then Inr RunUnchanged
      else if s = lit ''ingested'' then Inr RunIngested
      else if s = lit ''failed'' then Inr RunFailed
      else Inl (SePayload (lit ''unknown run outcome '' @ dbg s)))"

section \<open>The activities' state\<close>

record source_activities =
  sc_control_plane_url :: "rstr option"
  sc_control_plane_token :: "rstr option"
  sc_key :: "secret_key option"
  sc_fetch_policy :: host_policy
  sc_default_index :: rstr

definition new_source_activities :: "rstr option \<Rightarrow> source_activities" where
  "new_source_activities url =
     \<lparr>sc_control_plane_url = map_option (\<lambda>u. rev (trim_start_matches (\<lambda>c. c = 47) (rev u))) url,
      sc_control_plane_token = None, sc_key = None, sc_fetch_policy = PolicyPublic,
      sc_default_index = lit ''documents''\<rparr>"

definition with_control_plane_token :: "rstr option \<Rightarrow> source_activities \<Rightarrow> source_activities" where
  "with_control_plane_token token sa = sa\<lparr>sc_control_plane_token := token\<rparr>"

definition with_security :: "secret_key option \<Rightarrow> host_policy \<Rightarrow> source_activities \<Rightarrow> source_activities" where
  "with_security key policy sa = sa\<lparr>sc_key := key, sc_fetch_policy := policy\<rparr>"

definition with_default_index :: "rstr \<Rightarrow> source_activities \<Rightarrow> source_activities" where
  "with_default_index index sa = sa\<lparr>sc_default_index := index\<rparr>"

record source_row =
  sw_definition :: source_definition
  sw_fetch_auth :: "byte list option"
  sw_state :: incremental_state

record resolve_source_input =
  rs_source_id :: uuid
  rs_run_id :: uuid
  rs_scheduled_at :: int

datatype resolve_source_output = OutUnchanged | OutReady "pipeline_workflow_input list" incremental_state

record record_run_input =
  rr_run_id :: uuid
  rr_source_id :: uuid
  rr_started_at :: int
  rr_finished_at :: int
  rr_outcome :: run_outcome
  rr_items :: int
  rr_job_ids :: "uuid list"
  rr_error :: "rstr option"
  rr_state :: "incremental_state option"

text \<open>The environment: the control plane's answers, the text of times and of a write's status, serde for a
  credential, the upstream, the object store and the random job ids.\<close>

record run_env = cp_env +
  rv_source :: "cp_request \<Rightarrow> source_row http_reply"
  rv_pipeline :: "cp_request \<Rightarrow> pipeline_definition http_reply"
  rv_credits :: "cp_request \<Rightarrow> json http_reply"
  rv_write :: "cp_request \<Rightarrow> rstr + nat"
  rv_time :: "int \<Rightarrow> rstr"
  rv_now :: int
  rv_parse_auth :: "byte list \<Rightarrow> rstr + fetch_auth"
  rv_upstream :: source_env
  rv_store :: store_env
  rv_job_id :: "nat \<Rightarrow> uuid"

section \<open>Requests to the control plane\<close>

definition source_url :: "'a cp_env_scheme \<Rightarrow> source_activities \<Rightarrow> rstr list \<Rightarrow> (rstr \<times> rstr) list \<Rightarrow> plugin_error + cp_target" where
  "source_url env sa segments query =
     (case sc_control_plane_url sa of
        None \<Rightarrow> Inl (ErrNonRetryable (lit ''no control plane is configured on this worker''))
      | Some base \<Rightarrow> map_sum id (\<lambda>u. Segments u segments query) (internal_route env (base @ lit ''/'')))"

definition source_request_to :: "source_activities \<Rightarrow> string \<Rightarrow> cp_target \<Rightarrow> json option \<Rightarrow> cp_request" where
  "source_request_to sa verb target body =
     authed \<lparr>cq_method = lit verb, cq_target = target, cq_bearer = None, cq_body = body\<rparr> (sc_control_plane_token sa)"

definition from_source_error :: "source_error \<Rightarrow> plugin_error" where
  "from_source_error e =
     (case e of SeFetch m \<Rightarrow> ErrRetryable m | SeDns m \<Rightarrow> ErrRetryable m | other \<Rightarrow> ErrNonRetryable (source_error_str other))"

definition resolve_index :: "pipeline_definition \<Rightarrow> rstr option \<Rightarrow> rstr \<Rightarrow> rstr \<Rightarrow> rstr" where
  "resolve_index pipeline source_index mime default_index =
     (case non_blank (Option.bind (pl_trigger pipeline) index_pattern) of
        Some p \<Rightarrow> p
      | None \<Rightarrow>
     (case non_blank source_index of
        Some i \<Rightarrow> i
      | None \<Rightarrow> let d = mime_to_default_index mime in if d = lit ''documents'' then default_index else d))"

definition fetch_json ::
  "'a cp_env_scheme \<Rightarrow> source_activities \<Rightarrow> (cp_request \<Rightarrow> 'b http_reply) \<Rightarrow> plugin_error + cp_target \<Rightarrow> rstr
   \<Rightarrow> (plugin_error + 'b option) \<times> cp_request list" where
  "fetch_json env sa answer target what =
     (case target of
        Inl e \<Rightarrow> (Inl e, [])
      | Inr t \<Rightarrow>
          let req = source_request_to sa ''GET'' t None in
          ((case answer req of
              NoHttpReply e \<Rightarrow> Inl (ErrRetryable (lit ''control plane unreachable: '' @ e))
            | HttpReply status body \<Rightarrow>
                if status = 404 then Inr None
                else if \<not> http_success status
                then Inl (ErrRetryable (lit ''control plane returned '' @ ce_status env status @ lit '' for '' @ what))
                else (case body of Inl e \<Rightarrow> Inl (ErrNonRetryable (what @ lit '': unreadable response: '' @ e))
                      | Inr x \<Rightarrow> Inr (Some x))), [req]))"

definition send_json_unless_gone ::
  "'a run_env_scheme \<Rightarrow> source_activities \<Rightarrow> string \<Rightarrow> plugin_error + cp_target \<Rightarrow> json \<Rightarrow> rstr
   \<Rightarrow> (plugin_error + bool) \<times> cp_request list" where
  "send_json_unless_gone env sa verb target body what =
     (case target of
        Inl e \<Rightarrow> (Inl e, [])
      | Inr t \<Rightarrow>
          let req = source_request_to sa verb t (Some body) in
          ((case rv_write env req of
              Inl e \<Rightarrow> Inl (ErrRetryable (lit ''control plane unreachable: '' @ e))
            | Inr status \<Rightarrow>
                if status = 404 then Inr False
                else if http_success status then Inr True
                else Inl (ErrRetryable (lit ''control plane returned '' @ ce_status env status @ lit '' for '' @ what))), [req]))"

definition send_json ::
  "'a run_env_scheme \<Rightarrow> source_activities \<Rightarrow> string \<Rightarrow> plugin_error + cp_target \<Rightarrow> json \<Rightarrow> rstr
   \<Rightarrow> (plugin_error + unit) \<times> cp_request list" where
  "send_json env sa verb target body what =
     (let (r, reqs) = send_json_unless_gone env sa verb target body what
      in (try_bind r (\<lambda>ok. if ok then Inr ()
            else Inl (ErrRetryable (lit ''control plane returned 404 Not Found for '' @ what))), reqs))"

definition credit_refusal :: "rstr \<Rightarrow> rstr + json \<Rightarrow> rstr" where
  "credit_refusal account body =
     (case Option.bind (case body of Inl _ \<Rightarrow> None | Inr b \<Rightarrow> json_get b (lit ''error'')) json_as_str of
        Some d \<Rightarrow> if trim d = [] then lit ''account '' @ account @ lit '' has no Lab credits left; source run refused''
                  else lit ''source run refused: '' @ d
      | None \<Rightarrow> lit ''account '' @ account @ lit '' has no Lab credits left; source run refused'')"

definition check_credits :: "'a run_env_scheme \<Rightarrow> source_activities \<Rightarrow> rstr \<Rightarrow> (plugin_error + unit) \<times> cp_request list" where
  "check_credits env sa account =
     (case source_url env sa [lit ''internal'', lit ''lab'', lit ''credits'', account] [] of
        Inl e \<Rightarrow> (Inl e, [])
      | Inr t \<Rightarrow>
          let req = source_request_to sa ''GET'' t None in
          ((case rv_credits env req of
              NoHttpReply e \<Rightarrow> Inl (ErrRetryable (lit ''credit check for account '' @ account
                                   @ lit '': control plane unreachable: '' @ e))
            | HttpReply status body \<Rightarrow>
                if http_success status then Inr ()
                else if status = 402 then Inl (ErrNonRetryable (credit_refusal account body))
                else Inl (ErrRetryable (lit ''credit check for account '' @ account @ lit '': control plane returned ''
                       @ ce_status env status @ lit ''; the run does not start until the credits can be checked''))), [req]))"

section \<open>Resolving a run\<close>

text \<open>What a run is made of once it is loaded: definition, state, pipeline and opened credential.\<close>

type_synonym loaded_run = "source_definition \<times> incremental_state \<times> pipeline_definition \<times> fetch_auth option"

definition open_auth ::
  "'a run_env_scheme \<Rightarrow> source_activities \<Rightarrow> source_definition \<Rightarrow> byte list option \<Rightarrow> plugin_error + fetch_auth option" where
  "open_auth env sa d sealed =
     (case sealed of
        None \<Rightarrow> Inr None
      | Some bytes \<Rightarrow>
     (case sc_key sa of
        None \<Rightarrow> Inl (ErrNonRetryable (lit ''source '' @ ce_debug env (sd_uid d)
                  @ lit '' has a credential but SOURCE_SECRET_KEY is not set on this worker''))
      | Some key \<Rightarrow>
          (case open_json (ce_aead env) (rv_parse_auth env) key bytes of
             Inl _ \<Rightarrow> Inl (ErrNonRetryable (lit ''source '' @ ce_debug env (sd_uid d)
                       @ lit '': its credential could not be decrypted (is SOURCE_SECRET_KEY the one it was saved with?)''))
           | Inr a \<Rightarrow> Inr (Some a))))"

definition check_run_credits ::
  "'a run_env_scheme \<Rightarrow> source_activities \<Rightarrow> rstr option \<Rightarrow> (plugin_error + unit) \<times> cp_request list" where
  "check_run_credits env sa tenant =
     (case tenant of
        Some t \<Rightarrow> if is_lab_account t then check_credits env sa t else (Inr (), [])
      | None \<Rightarrow> (Inr (), []))"

definition load_pipeline ::
  "'a run_env_scheme \<Rightarrow> source_activities \<Rightarrow> source_definition \<Rightarrow> (plugin_error + pipeline_definition) \<times> cp_request list" where
  "load_pipeline env sa d =
     (let query = (case sd_tenant_id d of Some p \<Rightarrow> [(lit ''tenant_id'', p)] | None \<Rightarrow> []);
          (r, reqs) = fetch_json env sa (rv_pipeline env)
            (source_url env sa [lit ''pipelines'', sd_pipeline_uid d] query) (lit ''load pipeline'')
      in (try_bind r (\<lambda>found. case found of
            None \<Rightarrow> Inl (ErrNonRetryable (lit ''source '' @ ce_debug env (sd_uid d) @ lit '': its pipeline ''
                      @ ce_debug env (sd_pipeline_uid d) @ lit '' no longer exists''))
          | Some p \<Rightarrow>
              if \<not> pins_destination p
              then Inl (ErrNonRetryable (lit ''source '' @ ce_debug env (sd_uid d) @ lit '': pipeline ''
                     @ ce_debug env (sd_pipeline_uid d)
                     @ lit '' no longer names a Meilisearch connection on its meili_indexer step, and a scheduled run has no request to supply one''))
              else Inr p), reqs))"

definition load_run ::
  "'a run_env_scheme \<Rightarrow> source_activities \<Rightarrow> resolve_source_input \<Rightarrow> (plugin_error + loaded_run) \<times> cp_request list" where
  "load_run env sa inp =
     (let (r, reqs1) = fetch_json env sa (rv_source env)
            (source_url env sa [lit ''internal'', lit ''sources-by-id'', rs_source_id inp] []) (lit ''load source'')
      in case r of
           Inl e \<Rightarrow> (Inl e, reqs1)
         | Inr None \<Rightarrow> (Inl (ErrNonRetryable (lit ''source '' @ rs_source_id inp @ lit '' no longer exists or was archived'')), reqs1)
         | Inr (Some row) \<Rightarrow>
     (let d = sw_definition row; (c, reqs2) = check_run_credits env sa (sd_tenant_id d)
      in case c of
           Inl e \<Rightarrow> (Inl e, reqs1 @ reqs2)
         | Inr _ \<Rightarrow>
     (let (p, reqs3) = load_pipeline env sa d
      in (try_bind p (\<lambda>pipeline. try_bind (open_auth env sa d (sw_fetch_auth row)) (\<lambda>auth.
            Inr (d, sw_state row, pipeline, auth))), reqs1 @ reqs2 @ reqs3))))"

definition nullable :: "rstr option \<Rightarrow> json" where
  "nullable v = (case v of Some s \<Rightarrow> JString s | None \<Rightarrow> JNull)"

definition source_job_row :: "'a run_env_scheme \<Rightarrow> uuid \<Rightarrow> pipeline_definition \<Rightarrow> meili_context \<Rightarrow> uuid \<Rightarrow> json" where
  "source_job_row env job pipeline context source = json_obj
     [(lit ''job_id'', JString job), (lit ''workflow_id'', JString (workflow_id job)),
      (lit ''pipeline_uid'', JString (pl_uid pipeline)), (lit ''tenant_id'', nullable (ctx_tenant_id context)),
      (lit ''index_name'', nullable (ctx_index context)), (lit ''status'', JString (job_status_str Queued)),
      (lit ''started_at'', JString (rv_time env (rv_now env))), (lit ''updated_at'', JString (rv_time env (rv_now env))),
      (lit ''source_id'', JString source)]"

text \<open>Best effort: the answer is only logged.\<close>

definition record_job_row ::
  "'a run_env_scheme \<Rightarrow> source_activities \<Rightarrow> uuid \<Rightarrow> pipeline_definition \<Rightarrow> meili_context \<Rightarrow> uuid \<Rightarrow> cp_request list" where
  "record_job_row env sa job pipeline context source =
     snd (send_json env sa ''POST'' (source_url env sa [lit ''internal'', lit ''jobs''] [])
        (source_job_row env job pipeline context source) (lit ''create job''))"

text \<open>The loop over the items: always staged, so bytes never enter the history of the workflow.\<close>

definition item_context :: "source_activities \<Rightarrow> source_definition \<Rightarrow> pipeline_definition \<Rightarrow> resolved_item \<Rightarrow> meili_context" where
  "item_context sa d pipeline item = \<lparr>ctx_tenant_id = sd_tenant_id d, ctx_host = None, ctx_api_key = None,
     ctx_index = Some (resolve_index pipeline (sd_index_name d) (ri_mime item) (sc_default_index sa)), ctx_region = None\<rparr>"

fun stage_items ::
  "'a run_env_scheme \<Rightarrow> source_activities \<Rightarrow> uuid \<Rightarrow> source_definition \<Rightarrow> pipeline_definition \<Rightarrow> nat \<Rightarrow> resolved_item list
   \<Rightarrow> blob_objects \<Rightarrow> (plugin_error + pipeline_workflow_input list) \<times> blob_objects \<times> cp_request list" where
  "stage_items env sa source d pipeline i [] objs = (Inr [], objs, [])"
| "stage_items env sa source d pipeline i (item # items) objs =
     (let job = rv_job_id env i;
          b = \<lparr>blob_data = ri_bytes item, blob_mime = ri_mime item, blob_filename = ri_filename item\<rparr>
      in case stage_upload (rv_store env) job b 0 objs of
           (Inl e, objs) \<Rightarrow> (Inl (ErrRetryable (lit ''staging a fetched item: '' @ blob_error_str e)), objs, [])
         | (Inr staged, objs) \<Rightarrow>
             let context = item_context sa d pipeline item;
                 reqs = record_job_row env sa job pipeline context source;
                 (r, objs, reqs') = stage_items env sa source d pipeline (i + 1) items objs
             in (map_sum id (\<lambda>jobs. \<lparr>wi_job_id = job, wi_pipeline = pipeline, wi_input = staged, wi_context = context\<rparr> # jobs) r,
                 objs, reqs @ reqs'))"

text \<open>The result, the objects, the requests to the control plane and those to the upstream; \<open>Panic\<close> is a
  panic while the URL is rendered.\<close>

definition resolve_source ::
  "'a run_env_scheme \<Rightarrow> source_activities \<Rightarrow> resolve_source_input \<Rightarrow> blob_objects
   \<Rightarrow> (plugin_error + resolve_source_output) panic_or \<times> blob_objects \<times> cp_request list \<times> source_request list" where
  "resolve_source env sa inp objs =
     (case load_run env sa inp of
        (Inl e, reqs) \<Rightarrow> (Value (Inl e), objs, reqs, [])
      | (Inr (d, state, pipeline, auth), reqs) \<Rightarrow>
     (case source_resolve (rv_upstream env) (new_runtime (sc_fetch_policy sa) (rs_scheduled_at inp) (sd_timezone d))
             (sd_location d) auth state of
        (Panic, fetches) \<Rightarrow> (Panic, objs, reqs, fetches)
      | (Value (Inl e), fetches) \<Rightarrow> (Value (Inl (from_source_error e)), objs, reqs, fetches)
      | (Value (Inr Unchanged), fetches) \<Rightarrow> (Value (Inr OutUnchanged), objs, reqs, fetches)
      | (Value (Inr (Items items state)), fetches) \<Rightarrow>
          (let (r, objs, reqs') = stage_items env sa (rs_source_id inp) d pipeline 0 items objs
           in (Value (map_sum id (\<lambda>jobs. OutReady jobs state) r), objs, reqs @ reqs', fetches))))"

section \<open>Recording a run\<close>

definition run_json :: "'a run_env_scheme \<Rightarrow> record_run_input \<Rightarrow> json" where
  "run_json env r = json_obj
     [(lit ''run_id'', JString (rr_run_id r)), (lit ''source_id'', JString (rr_source_id r)),
      (lit ''started_at'', JString (rv_time env (rr_started_at r))), (lit ''finished_at'', JString (rv_time env (rr_finished_at r))),
      (lit ''outcome'', JString (run_outcome_str (rr_outcome r))), (lit ''items'', JNumber (JInt (rr_items r))),
      (lit ''job_ids'', JArray (map JString (rr_job_ids r))), (lit ''error'', nullable (rr_error r))]"

definition state_json :: "incremental_state \<Rightarrow> json" where
  "state_json s = json_obj (opt_field ''etag'' JString (is_etag s) @ opt_field ''last_modified'' JString (is_last_modified s)
     @ opt_field ''hash'' JString (is_hash s))"

definition record_run :: "'a run_env_scheme \<Rightarrow> source_activities \<Rightarrow> record_run_input \<Rightarrow> (plugin_error + unit) \<times> cp_request list" where
  "record_run env sa r =
     (let (recorded, reqs) = send_json_unless_gone env sa ''POST'' (source_url env sa [lit ''internal'', lit ''source-runs''] [])
            (run_json env r) (lit ''record run'')
      in case recorded of
           Inl e \<Rightarrow> (Inl e, reqs)
         | Inr False \<Rightarrow> (Inr (), reqs)
         | Inr True \<Rightarrow>
             (case rr_state r of
                None \<Rightarrow> (Inr (), reqs)
              | Some state \<Rightarrow>
                  (let (saved, reqs') = send_json_unless_gone env sa ''PUT''
                         (source_url env sa [lit ''internal'', lit ''sources-by-id'', rr_source_id r, lit ''state''] [])
                         (state_json state) (lit ''save state'')
                   in (map_sum id (\<lambda>_. ()) saved, reqs @ reqs'))))"

section \<open>The workflow\<close>

record source_run_input =
  si_source_id :: uuid
  si_tenant_id :: "rstr option"

record source_run_output =
  so_run_id :: uuid
  so_outcome :: run_outcome
  so_job_ids :: "uuid list"

text \<open>The random id as parsed, the workflow times at the start and at the end, the schedule's attribute, the
  results of the activities and the ends of the child workflows. The result of recording is only
  logged.\<close>

record source_run_env =
  ws_run_id :: "uuid option"
  ws_started :: int
  ws_finished :: int
  ws_scheduled :: "int option"
  ws_resolve :: "resolve_source_input \<Rightarrow> activity_error + resolve_source_output"
  ws_child :: "pipeline_workflow_input \<Rightarrow> child_end"

datatype run_call = RunResolve resolve_source_input | RunChild pipeline_workflow_input | RunRecord record_run_input

definition NIL_UUID :: uuid where
  "NIL_UUID = lit ''00000000-0000-0000-0000-000000000000''"

definition run_source_job :: "source_run_env \<Rightarrow> pipeline_workflow_input \<Rightarrow> rstr option" where
  "run_source_job env j =
     (case ws_child env j of
        ChildNotStarted e \<Rightarrow> Some (lit ''job '' @ wi_job_id j @ lit '' did not start: '' @ e)
      | ChildFailed f display \<Rightarrow> Some (lit ''job '' @ wi_job_id j @ lit '' failed: '' @ describe_activity_failure f display)
      | ChildEnded status \<Rightarrow>
          if status = Succeeded then None
          else Some (lit ''job '' @ wi_job_id j @ lit '' ended '' @ job_status_str status))"

fun summarize_failures :: "rstr list \<Rightarrow> nat \<Rightarrow> rstr" where
  "summarize_failures [] n = []"
| "summarize_failures (first # rest) n =
     (if rest = [] \<and> n = 1 then first
      else show_nat (length (first # rest)) @ lit '' of '' @ show_nat n @ lit '' jobs failed; first: '' @ first
        @ (if rest = [] then [] else lit '' (see the jobs for the others)''))"

definition finish_run :: "source_run_env \<Rightarrow> record_run_input \<Rightarrow> (wf_error + source_run_output) \<times> run_call list" where
  "finish_run env record =
     (let record = record\<lparr>rr_finished_at := ws_finished env\<rparr>
      in (case (rr_outcome record, rr_error record) of
            (RunFailed, Some m) \<Rightarrow> Inl (WfFailure m)
          | _ \<Rightarrow> Inr \<lparr>so_run_id = rr_run_id record, so_outcome = rr_outcome record, so_job_ids = rr_job_ids record\<rparr>,
          [RunRecord record]))"

definition begin_record :: "source_run_env \<Rightarrow> source_run_input \<Rightarrow> record_run_input" where
  "begin_record env inp =
     \<lparr>rr_run_id = (case ws_run_id env of Some i \<Rightarrow> i | None \<Rightarrow> NIL_UUID), rr_source_id = si_source_id inp,
      rr_started_at = ws_started env, rr_finished_at = ws_started env, rr_outcome = RunFailed, rr_items = 0,
      rr_job_ids = [], rr_error = None, rr_state = None\<rparr>"

definition settle_run ::
  "pipeline_workflow_input list \<Rightarrow> incremental_state \<Rightarrow> rstr list \<Rightarrow> record_run_input \<Rightarrow> record_run_input" where
  "settle_run jobs state failures record =
     (let succeeded = length jobs - length failures;
          record = record\<lparr>rr_job_ids := map wi_job_id jobs,
            rr_items := (if succeeded < 2 ^ 31 then int succeeded else 2 ^ 31 - 1)\<rparr>
      in if failures = [] then record\<lparr>rr_outcome := RunIngested, rr_state := Some state\<rparr>
         else record\<lparr>rr_error := Some (summarize_failures failures (length jobs))\<rparr>)"

definition run_source :: "source_run_env \<Rightarrow> source_run_input \<Rightarrow> (wf_error + source_run_output) \<times> run_call list" where
  "run_source env inp =
     (let record = begin_record env inp;
          resolve = \<lparr>rs_source_id = si_source_id inp, rs_run_id = rr_run_id record,
            rs_scheduled_at = (case ws_scheduled env of Some t \<Rightarrow> t | None \<Rightarrow> ws_started env)\<rparr>
      in case ws_resolve env resolve of
           Inl e \<Rightarrow> map_prod id (Cons (RunResolve resolve))
                       (finish_run env (record\<lparr>rr_error := Some (describe_activity_error e)\<rparr>))
         | Inr OutUnchanged \<Rightarrow> map_prod id (Cons (RunResolve resolve)) (finish_run env (record\<lparr>rr_outcome := RunUnchanged\<rparr>))
         | Inr (OutReady jobs state) \<Rightarrow>
             map_prod id (\<lambda>calls. RunResolve resolve # map RunChild jobs @ calls)
               (finish_run env (settle_run jobs state (List.map_filter (run_source_job env) jobs) record)))"

section \<open>What is checked before a fetch\<close>

definition credit_granted :: "'a run_env_scheme \<Rightarrow> source_activities \<Rightarrow> cp_request list \<Rightarrow> rstr \<Rightarrow> bool" where
  "credit_granted env sa reqs account \<longleftrightarrow> (\<exists>req\<in>set reqs. \<exists>status body. rv_credits env req = HttpReply status body \<and> http_success status
     \<and> (\<exists>u. cq_target req = Segments u [lit ''internal'', lit ''lab'', lit ''credits'', account] []))"

lemma check_credits_granted:
  "check_credits env sa account = (Inr (), reqs) \<Longrightarrow> credit_granted env sa reqs account"
  by (auto simp: check_credits_def credit_granted_def source_url_def source_request_to_def Let_def map_sum_Inr
      split: sum.splits option.splits http_reply.splits if_splits)

lemma credit_granted_mono: "credit_granted env sa reqs account \<Longrightarrow> set reqs \<subseteq> set reqs' \<Longrightarrow> credit_granted env sa reqs' account"
  by (auto simp: credit_granted_def)

lemma fetch_json_found:
  "fetch_json env sa answer target what = (Inr (Some x), reqs) \<Longrightarrow>
     \<exists>req status. reqs = [req] \<and> answer req = HttpReply status (Inr x) \<and> http_success status"
  by (auto simp: fetch_json_def Let_def split: sum.splits http_reply.splits if_splits)

lemma load_pipeline_pinned:
  "load_pipeline env sa d = (Inr p, reqs) \<Longrightarrow>
     pins_destination p \<and> (\<exists>req\<in>set reqs. \<exists>status. rv_pipeline env req = HttpReply status (Inr p))"
  by (auto simp: load_pipeline_def try_bind_def split: prod.splits sum.splits option.splits if_splits dest!: fetch_json_found)

lemma load_run_checked:
  assumes "load_run env sa inp = (Inr (d, state, p, auth), reqs)"
  shows "pins_destination p \<and> (\<exists>row req status. req \<in> set reqs \<and> rv_source env req = HttpReply status (Inr row)
      \<and> d = sw_definition row \<and> state = sw_state row \<and> open_auth env sa d (sw_fetch_auth row) = Inr auth)
    \<and> (\<forall>account. sd_tenant_id d = Some account \<and> is_lab_account account \<longrightarrow> credit_granted env sa reqs account)"
proof -
  obtain row reqs1 reqs2 reqs3 where r:
    "fetch_json env sa (rv_source env) (source_url env sa [lit ''internal'', lit ''sources-by-id'', rs_source_id inp] [])
       (lit ''load source'') = (Inr (Some row), reqs1)"
    "check_run_credits env sa (sd_tenant_id d) = (Inr (), reqs2)" "load_pipeline env sa d = (Inr p, reqs3)"
    "open_auth env sa d (sw_fetch_auth row) = Inr auth" "d = sw_definition row" "state = sw_state row"
    "reqs = reqs1 @ reqs2 @ reqs3"
    using assms by (auto simp: load_run_def try_bind_def Let_def split: prod.splits sum.splits option.splits)
  have "credit_granted env sa reqs account" if "sd_tenant_id d = Some account" "is_lab_account account" for account
  proof -
    have "check_credits env sa account = (Inr (), reqs2)"
      using r(2) that by (simp add: check_run_credits_def)
    then show ?thesis
      using check_credits_granted credit_granted_mono r(7) by (metis Un_upper1 Un_upper2 set_append subset_trans)
  qed
  then show ?thesis
    using load_pipeline_pinned[OF r(3)] fetch_json_found[OF r(1)] r(4-7) by fastforce
qed

lemma resolve_source_loaded:
  assumes "resolve_source env sa inp objs = (result, objs', reqs, fetches)" "objs' \<noteq> objs \<or> fetches \<noteq> []"
  obtains d state p auth reqs0 where "load_run env sa inp = (Inr (d, state, p, auth), reqs0)" "prefix reqs0 reqs"
    "fetches = snd (source_resolve (rv_upstream env) (new_runtime (sc_fetch_policy sa) (rs_scheduled_at inp) (sd_timezone d))
       (sd_location d) auth state)"
proof -
  obtain l reqs0 where l: "load_run env sa inp = (l, reqs0)"
    by fastforce
  show thesis
  proof (cases l)
    case (Inl e)
    then show thesis
      using assms l by (simp add: resolve_source_def)
  next
    case (Inr run)
    obtain d state p auth where run: "run = (d, state, p, auth)"
      by (metis prod.collapse)
    let ?r = "source_resolve (rv_upstream env) (new_runtime (sc_fetch_policy sa) (rs_scheduled_at inp) (sd_timezone d))
       (sd_location d) auth state"
    obtain fetched fetches' where f: "?r = (fetched, fetches')"
      by fastforce
    have "prefix reqs0 reqs \<and> fetches = fetches'"
      using assms(1) l Inr run f
      by (auto simp: resolve_source_def prefix_def Let_def split: panic_or.splits sum.splits resolution.splits prod.splits)
    then show thesis
      using that l Inr run f by simp
  qed
qed

lemma source_requests_checked:
  assumes "rr_policy rt = Some policy"
  shows "list_all (\<lambda>(n, u). check_host (sv_net env n) policy u = Inr ()) (request_hops 0 (snd (source_resolve env rt loc auth state)))"
proof (cases "snd (source_resolve env rt loc auth state) = []")
  case False
  then show ?thesis
    using source_requests[of env rt loc auth state] source_policy.follow_allowed[OF assms, of env] by auto
qed simp

text \<open>Nothing is fetched and nothing is staged before the source is loaded, a Lab account's credits are
  granted, its pipeline names its destinations and its credential is opened; every request to the
  upstream passed the worker's host policy.\<close>

theorem source_checked_before_fetch:
  assumes "resolve_source env sa inp objs = (result, objs', reqs, fetches)" "objs' \<noteq> objs \<or> fetches \<noteq> []"
  shows "\<exists>d state p auth reqs0. load_run env sa inp = (Inr (d, state, p, auth), reqs0) \<and> prefix reqs0 reqs \<and> pins_destination p
    \<and> (\<forall>account. sd_tenant_id d = Some account \<and> is_lab_account account \<longrightarrow> credit_granted env sa reqs0 account)
    \<and> list_all (\<lambda>(n, u). check_host (sv_net (rv_upstream env) n) (sc_fetch_policy sa) u = Inr ()) (request_hops 0 fetches)"
proof -
  obtain d state p auth reqs0 where l: "load_run env sa inp = (Inr (d, state, p, auth), reqs0)" "prefix reqs0 reqs"
    "fetches = snd (source_resolve (rv_upstream env) (new_runtime (sc_fetch_policy sa) (rs_scheduled_at inp) (sd_timezone d))
       (sd_location d) auth state)"
    by (rule resolve_source_loaded[OF assms])
  then show ?thesis
    using load_run_checked[OF l(1)] source_requests_checked[of "new_runtime (sc_fetch_policy sa) (rs_scheduled_at inp) (sd_timezone d)"]
    by (auto simp: new_runtime_def)
qed

section \<open>What a job carries\<close>

lemma stage_upload_keeps:
  "stage_upload env job b 0 objs = (Inr staged, objs') \<Longrightarrow>
     (case staged of InRef (RefStaged key _ _) \<Rightarrow> objs' key = Some (blob_data b)
      | InBytes b' \<Rightarrow> b' = b \<and> blob_data b = [] | _ \<Rightarrow> False)"
  by (auto simp: stage_upload_def blob_put_def Let_def split: if_splits option.splits)

lemma resolve_source_ready:
  assumes "resolve_source env sa inp objs = (Value (Inr (OutReady jobs state')), objs', reqs, fetches)"
  shows "\<exists>d state p auth reqs0 (item :: resolved_item) body job. load_run env sa inp = (Inr (d, state, p, auth), reqs0)
    \<and> is_hash state' = Some (sv_hash (rv_upstream env) body) \<and> is_hash state \<noteq> is_hash state'
    \<and> jobs = [job] \<and> wi_pipeline job = p \<and> wi_context job = item_context sa d p item
    \<and> (case wi_input job of InRef (RefStaged key _ _) \<Rightarrow> objs' key = Some (ri_bytes item)
       | InBytes b \<Rightarrow> blob_data b = [] \<and> ri_bytes item = [] | _ \<Rightarrow> False)"
proof -
  obtain d state p auth reqs0 where l: "load_run env sa inp = (Inr (d, state, p, auth), reqs0)"
    using assms by (auto simp: resolve_source_def split: prod.splits sum.splits)
  let ?rt = "new_runtime (sc_fetch_policy sa) (rs_scheduled_at inp) (sd_timezone d)"
  obtain items where i: "fst (source_resolve (rv_upstream env) ?rt (sd_location d) auth state) = Value (Inr (Items items state'))"
    "fst (stage_items env sa (rs_source_id inp) d p 0 items objs) = Inr jobs"
    "fst (snd (stage_items env sa (rs_source_id inp) d p 0 items objs)) = objs'"
    using assms l
    by (auto simp: resolve_source_def Let_def map_sum_Inr split: panic_or.splits sum.splits resolution.splits prod.splits)
  obtain item body where item: "items = [item]" "is_hash state' = Some (sv_hash (rv_upstream env) body)"
    "is_hash state \<noteq> is_hash state'"
    using source_item_bounded[OF i(1)] by blast
  obtain staged where s: "stage_upload (rv_store env) (rv_job_id env 0)
      \<lparr>blob_data = ri_bytes item, blob_mime = ri_mime item, blob_filename = ri_filename item\<rparr> 0 objs = (Inr staged, objs')"
    "jobs = [\<lparr>wi_job_id = rv_job_id env 0, wi_pipeline = p, wi_input = staged, wi_context = item_context sa d p item\<rparr>]"
    using i(2,3) unfolding item(1) by (auto simp: Let_def split: prod.splits sum.splits)
  then show ?thesis
    using l item stage_upload_keeps[OF s(1)] by (auto split: plugin_input.splits content_ref.splits)
qed

text \<open>Staging with no inline limit still keeps an empty item inline.\<close>

lemma empty_item_inline:
  "blob_data b = [] \<Longrightarrow> stage_upload env job b 0 objs = (Inr (InBytes b), objs)"
  by (simp add: stage_upload_def)

text \<open>A job of a run carries no bytes and no key: its input is a reference to a staged object that holds what was
  fetched, or is empty; its context has the tenant of the source and an index, no host and no API key;
  and its pipeline pins a connection on each of its index steps.\<close>

theorem source_job_carries_reference:
  assumes "resolve_source env sa inp objs = (Value (Inr (OutReady jobs state)), objs', reqs, fetches)"
  shows "\<exists>job (item :: resolved_item) d st auth reqs0. load_run env sa inp = (Inr (d, st, wi_pipeline job, auth), reqs0)
    \<and> jobs = [job] \<and> pins_destination (wi_pipeline job) \<and> ctx_host (wi_context job) = None
    \<and> ctx_api_key (wi_context job) = None \<and> ctx_tenant_id (wi_context job) = sd_tenant_id d
    \<and> ctx_index (wi_context job)
        = Some (resolve_index (wi_pipeline job) (sd_index_name d) (ri_mime item) (sc_default_index sa))
    \<and> (case wi_input job of InRef (RefStaged key _ _) \<Rightarrow> objs' key = Some (ri_bytes item)
       | InBytes b \<Rightarrow> blob_data b = [] \<and> ri_bytes item = [] | _ \<Rightarrow> False)"
proof -
  obtain d st p auth reqs0 item job where r: "load_run env sa inp = (Inr (d, st, p, auth), reqs0)" "jobs = [job]"
    "wi_pipeline job = p" "wi_context job = item_context sa d p item"
    "case wi_input job of InRef (RefStaged key _ _) \<Rightarrow> objs' key = Some (ri_bytes item)
       | InBytes b \<Rightarrow> blob_data b = [] \<and> ri_bytes item = [] | _ \<Rightarrow> False"
    using resolve_source_ready[OF assms] by blast
  then show ?thesis
    using load_run_checked[OF r(1)]
    by - (intro exI[of _ job] exI[of _ item] exI[of _ d] exI[of _ st] exI[of _ auth] exI[of _ reqs0],
      simp add: item_context_def)
qed

section \<open>What is recorded\<close>

lemma finish_run_simps:
  "finish_run env rec = (case (rr_outcome rec, rr_error rec) of
       (RunFailed, Some m) \<Rightarrow> (Inl (WfFailure m), [RunRecord (rec\<lparr>rr_finished_at := ws_finished env\<rparr>)])
     | _ \<Rightarrow> (Inr \<lparr>so_run_id = rr_run_id rec, so_outcome = rr_outcome rec, so_job_ids = rr_job_ids rec\<rparr>,
             [RunRecord (rec\<lparr>rr_finished_at := ws_finished env\<rparr>)]))"
  by (auto simp: finish_run_def Let_def split: run_outcome.splits option.splits)

lemma no_failures: "List.map_filter (run_source_job env) jobs = [] \<longleftrightarrow> list_all (\<lambda>j. ws_child env j = ChildEnded Succeeded) jobs"
  by (induction jobs) (auto simp: List.map_filter_def run_source_job_def split: child_end.splits if_splits)

definition run_resolve :: "source_run_env \<Rightarrow> source_run_input \<Rightarrow> resolve_source_input" where
  "run_resolve env inp = \<lparr>rs_source_id = si_source_id inp, rs_run_id = rr_run_id (begin_record env inp),
     rs_scheduled_at = (case ws_scheduled env of Some t \<Rightarrow> t | None \<Rightarrow> ws_started env)\<rparr>"

lemma run_source_ready:
  "ws_resolve env (run_resolve env inp) = Inr (OutReady jobs state) \<Longrightarrow> run_source env inp =
     map_prod id (\<lambda>calls. RunResolve (run_resolve env inp) # map RunChild jobs @ calls)
       (finish_run env (settle_run jobs state (List.map_filter (run_source_job env) jobs) (begin_record env inp)))"
  by (simp add: run_source_def run_resolve_def Let_def)

lemma run_source_record:
  "\<exists>calls rec. snd (run_source env inp) = calls @ [RunRecord rec] \<and> (\<nexists>x. RunRecord x \<in> set calls)
     \<and> (rr_state rec = None \<longleftrightarrow> rr_outcome rec \<noteq> RunIngested)
     \<and> (rr_outcome rec = RunIngested \<longleftrightarrow> (\<exists>jobs state. ws_resolve env (run_resolve env inp) = Inr (OutReady jobs state)
          \<and> list_all (\<lambda>j. ws_child env j = ChildEnded Succeeded) jobs \<and> rr_state rec = Some state
          \<and> rr_job_ids rec = map wi_job_id jobs))
     \<and> (rr_outcome rec = RunUnchanged \<longleftrightarrow> ws_resolve env (run_resolve env inp) = Inr OutUnchanged)
     \<and> (rr_outcome rec = RunFailed \<longleftrightarrow> (\<exists>m. fst (run_source env inp) = Inl (WfFailure m) \<and> rr_error rec = Some m))"
proof (cases "ws_resolve env (run_resolve env inp)")
  case (Inl e)
  then show ?thesis
    by (simp add: run_source_def run_resolve_def Let_def finish_run_simps begin_record_def)
next
  case (Inr out)
  show ?thesis
  proof (cases out)
    case OutUnchanged
    then show ?thesis
      using Inr by (simp add: run_source_def run_resolve_def Let_def finish_run_simps begin_record_def)
  next
    case (OutReady jobs state)
    let ?rec = "settle_run jobs state (List.map_filter (run_source_job env) jobs) (begin_record env inp)"
    have r: "run_source env inp = map_prod id (\<lambda>calls. RunResolve (run_resolve env inp) # map RunChild jobs @ calls) (finish_run env ?rec)"
      using Inr OutReady by (simp add: run_source_def run_resolve_def Let_def)
    show ?thesis
      using Inr OutReady no_failures[of env jobs]
      by (intro exI[of _ "RunResolve (run_resolve env inp) # map RunChild jobs"] exI[of _ "?rec\<lparr>rr_finished_at := ws_finished env\<rparr>"])
         (auto simp: r finish_run_simps settle_run_def begin_record_def Let_def)
  qed
qed

text \<open>A run is recorded exactly once, last. Its incremental state is saved if and only if the fetch gave jobs that
  all succeeded, and the workflow fails if and only if the run is recorded as failed.\<close>

theorem state_saved_iff_success:
  "\<exists>calls rec. snd (run_source env inp) = calls @ [RunRecord rec] \<and> (\<nexists>x. RunRecord x \<in> set calls)
     \<and> (rr_state rec = None \<longleftrightarrow> rr_outcome rec \<noteq> RunIngested)
     \<and> (rr_outcome rec = RunIngested \<longleftrightarrow> (\<exists>jobs state. ws_resolve env (run_resolve env inp) = Inr (OutReady jobs state)
          \<and> list_all (\<lambda>j. ws_child env j = ChildEnded Succeeded) jobs \<and> rr_state rec = Some state
          \<and> rr_job_ids rec = map wi_job_id jobs))
     \<and> (rr_outcome rec = RunUnchanged \<longleftrightarrow> ws_resolve env (run_resolve env inp) = Inr OutUnchanged)
     \<and> (rr_outcome rec = RunFailed \<longleftrightarrow> (\<exists>m. fst (run_source env inp) = Inl (WfFailure m) \<and> rr_error rec = Some m))"
  by (rule run_source_record)

section \<open>Ticks\<close>

text \<open>What the workflow sees of the activity: its result, its failure once the retries are spent, or its panic.\<close>

definition resolve_answer ::
  "(plugin_error \<Rightarrow> activity_error) \<Rightarrow> activity_error \<Rightarrow> 'a run_env_scheme \<Rightarrow> source_activities \<Rightarrow> blob_objects
   \<Rightarrow> resolve_source_input \<Rightarrow> activity_error + resolve_source_output" where
  "resolve_answer fail panicked env sa objs i =
     (case fst (resolve_source env sa i objs) of
        Panic \<Rightarrow> Inl panicked | Value (Inl e) \<Rightarrow> Inl (fail e) | Value (Inr r) \<Rightarrow> Inr r)"

text \<open>A run that saves a state ingested content whose hash is not the one the source was saved with, and all
  of its jobs succeeded: what was ingested is not ingested again until it changes, and what failed is
  tried again.\<close>

theorem saved_state_is_new:
  assumes "ws_resolve we = resolve_answer fail panicked env sa objs" "RunRecord rec \<in> set (snd (run_source we inp))"
    "rr_state rec = Some s"
  shows "\<exists>row req status body. rv_source env req = HttpReply status (Inr row)
    \<and> is_hash s = Some (sv_hash (rv_upstream env) body) \<and> is_hash (sw_state row) \<noteq> is_hash s
    \<and> list_all (\<lambda>c. case c of RunChild j \<Rightarrow> ws_child we j = ChildEnded Succeeded | _ \<Rightarrow> True) (snd (run_source we inp))"
proof -
  obtain jobs where j: "ws_resolve we (run_resolve we inp) = Inr (OutReady jobs s)"
    "list_all (\<lambda>j. ws_child we j = ChildEnded Succeeded) jobs"
  proof -
    obtain calls rec' where c: "snd (run_source we inp) = calls @ [RunRecord rec']" "\<nexists>x. RunRecord x \<in> set calls"
      "rr_state rec' = None \<longleftrightarrow> rr_outcome rec' \<noteq> RunIngested"
      "rr_outcome rec' = RunIngested \<longleftrightarrow> (\<exists>jobs state. ws_resolve we (run_resolve we inp) = Inr (OutReady jobs state)
          \<and> list_all (\<lambda>j. ws_child we j = ChildEnded Succeeded) jobs \<and> rr_state rec' = Some state
          \<and> rr_job_ids rec' = map wi_job_id jobs)"
      by (insert run_source_record[of we inp], elim exE conjE) assumption+
    then have "rec' = rec"
      using assms(2) by auto
    then show thesis
      using c(3,4) assms(3) that by auto
  qed
  then have "fst (resolve_source env sa (run_resolve we inp) objs) = Value (Inr (OutReady jobs s))"
    by (simp add: assms(1) resolve_answer_def split: panic_or.splits sum.splits)
  then obtain objs' reqs fetches where r: "resolve_source env sa (run_resolve we inp) objs = (Value (Inr (OutReady jobs s)), objs', reqs, fetches)"
    by (metis prod.collapse)
  obtain d state p auth reqs0 body where l: "load_run env sa (run_resolve we inp) = (Inr (d, state, p, auth), reqs0)"
    "is_hash s = Some (sv_hash (rv_upstream env) body)" "is_hash state \<noteq> is_hash s"
    using resolve_source_ready[OF r] by blast
  have "list_all (\<lambda>c. case c of RunChild j \<Rightarrow> ws_child we j = ChildEnded Succeeded | _ \<Rightarrow> True) (snd (run_source we inp))"
    using j by (simp add: run_source_def run_resolve_def Let_def finish_run_def list_all_iff)
  then show ?thesis
    using load_run_checked[OF l(1)] l(2,3) by blast
qed

section \<open>Witnesses\<close>

definition demo_source :: source_definition where
  "demo_source = \<lparr>sd_id = lit ''i'', sd_uid = lit ''u'', sd_name = lit ''n'', sd_description = None, sd_tenant_id = None,
     sd_pipeline_uid = lit ''p'', sd_location = demo_location, sd_cron = [], sd_timezone = lit ''UTC'', sd_paused = False,
     sd_index_name = Some (lit ''movies''), sd_schedule_id = lit ''s'', sd_archived_at = None\<rparr>"

definition demo_run_env :: run_env where
  "demo_run_env = cp_env.extend (demo_cp_env 200)
     \<lparr>rv_source = (\<lambda>_. HttpReply 200 (Inr \<lparr>sw_definition = demo_source, sw_fetch_auth = None, sw_state = no_state\<rparr>)),
      rv_pipeline = (\<lambda>_. HttpReply 200 (Inr pinned_example)), rv_credits = (\<lambda>_. NoHttpReply []), rv_write = (\<lambda>_. Inr 200),
      rv_time = (\<lambda>_. []), rv_now = 0, rv_parse_auth = (\<lambda>_. Inl []), rv_upstream = demo_source_env,
      rv_store = \<lparr>se_put_error = (\<lambda>_. None), se_get_error = (\<lambda>_. None)\<rparr>, rv_job_id = (\<lambda>_. lit ''j'')\<rparr>"

definition demo_source_acts :: source_activities where
  "demo_source_acts = with_security None demo_policy (new_source_activities (Some (lit ''c'')))"

definition demo_resolve :: resolve_source_input where
  "demo_resolve = \<lparr>rs_source_id = lit ''i'', rs_run_id = lit ''r'', rs_scheduled_at = 0\<rparr>"

lemma demo_run_env_fields [simp]:
  "rv_source demo_run_env = (\<lambda>_. HttpReply 200 (Inr \<lparr>sw_definition = demo_source, sw_fetch_auth = None, sw_state = no_state\<rparr>))"
  "rv_pipeline demo_run_env = (\<lambda>_. HttpReply 200 (Inr pinned_example))" "rv_upstream demo_run_env = demo_source_env"
  "rv_store demo_run_env = \<lparr>se_put_error = (\<lambda>_. None), se_get_error = (\<lambda>_. None)\<rparr>" "rv_job_id demo_run_env = (\<lambda>_. lit ''j'')"
  "ce_parse_url demo_run_env = (\<lambda>s. Inr (demo_host_url s))" "ce_cannot_be_base demo_run_env = (\<lambda>_. False)"
  by (simp_all add: demo_run_env_def demo_cp_env_def cp_env.defs)

lemma demo_source_acts_fields [simp]:
  "sc_control_plane_url demo_source_acts = Some (lit ''c'')" "sc_fetch_policy demo_source_acts = demo_policy"
  by (code_simp, simp add: demo_source_acts_def with_security_def)

lemma demo_load: "\<exists>reqs. load_run demo_run_env demo_source_acts i = (Inr (demo_source, no_state, pinned_example, None), reqs)"
proof -
  have "pins_destination pinned_example"
    by code_simp
  then show ?thesis
    by (simp add: load_run_def fetch_json_def source_url_def internal_route_def load_pipeline_def check_run_credits_def
        open_auth_def demo_source_def http_success_def Let_def try_bind_def)
qed

definition demo_run_time :: resolve_runtime where
  "demo_run_time = new_runtime demo_policy 0 (lit ''UTC'')"

lemma demo_follow:
  "fst (follow demo_source_env demo_run_time demo_location None no_state (Source_Url.demo_page (lit ''a'')) 0 (lit ''GET'') (Source_Url.demo_page (lit ''a'')))
     = Inr (demo_answer 1)"
  "snd (follow demo_source_env demo_run_time demo_location None no_state (Source_Url.demo_page (lit ''a'')) 0 (lit ''GET'') (Source_Url.demo_page (lit ''a''))) \<noteq> []"
  by (code_simp, code_simp)

lemma demo_render: "render demo_chrono (lit ''a'') 0 (lit ''UTC'') = Value (Inr (lit ''a''))"
  by code_simp

lemma demo_taken:
  "\<exists>item st. take_response demo_source_env demo_run_time no_state (Source_Url.demo_page (lit ''a'')) (demo_answer 1) = Inr (Items [item] st)"
  by (simp add: take_response_def demo_answer_def demo_run_time_def new_runtime_def default_url_limits_def http_success_def
      maybe_gunzip_def no_state_def try_bind_def Let_def)

lemma demo_fetched:
  "\<exists>item st fetches. source_resolve demo_source_env demo_run_time demo_location None no_state = (Value (Inr (Items [item] st)), fetches)
     \<and> fetches \<noteq> []"
proof -
  obtain fetches where f: "follow demo_source_env demo_run_time demo_location None no_state (Source_Url.demo_page (lit ''a'')) 0 (lit ''GET'')
      (Source_Url.demo_page (lit ''a'')) = (Inr (demo_answer 1), fetches)" "fetches \<noteq> []"
    using demo_follow by (metis prod.collapse)
  have "rr_scheduled_at demo_run_time = 0" "rr_timezone demo_run_time = lit ''UTC''" "sv_chrono demo_source_env = demo_chrono"
    "lo_url demo_location = lit ''a''" "lo_method demo_location = None" "sv_parse_url demo_source_env s = Inr (Source_Url.demo_page s)"
    "sv_valid_method demo_source_env m" for s m
    by (simp_all add: demo_run_time_def new_runtime_def demo_source_env_def demo_location_def)
  then show ?thesis
    using demo_taken f by (simp add: source_resolve_def demo_render Let_def try_bind_def)
qed

lemma demo_ready:
  "\<exists>jobs st objs reqs fetches. resolve_source demo_run_env demo_source_acts demo_resolve Map.empty
     = (Value (Inr (OutReady jobs st)), objs, reqs, fetches) \<and> fetches \<noteq> []"
proof -
  obtain reqs where l: "load_run demo_run_env demo_source_acts demo_resolve = (Inr (demo_source, no_state, pinned_example, None), reqs)"
    using demo_load by blast
  obtain item st fetches where f: "source_resolve demo_source_env demo_run_time demo_location None no_state
      = (Value (Inr (Items [item] st)), fetches)" "fetches \<noteq> []"
    using demo_fetched by blast
  have t: "new_runtime demo_policy (rs_scheduled_at demo_resolve) (sd_timezone demo_source) = demo_run_time"
    "sd_location demo_source = demo_location"
    by (simp_all add: demo_run_time_def demo_resolve_def demo_source_def)
  show ?thesis
    using l f t by (auto simp: resolve_source_def stage_upload_def blob_put_def Let_def)
qed

theorem source_checked_before_fetch_witness:
  "\<exists>d state p auth reqs0. load_run demo_run_env demo_source_acts demo_resolve = (Inr (d, state, p, auth), reqs0) \<and> pins_destination p"
proof -
  obtain jobs st objs reqs fetches where "resolve_source demo_run_env demo_source_acts demo_resolve Map.empty
     = (Value (Inr (OutReady jobs st)), objs, reqs, fetches)" "fetches \<noteq> []"
    using demo_ready by blast
  then show ?thesis
    using source_checked_before_fetch by blast
qed

theorem source_job_carries_reference_witness:
  "\<exists>jobs job st objs reqs fetches. resolve_source demo_run_env demo_source_acts demo_resolve Map.empty
     = (Value (Inr (OutReady jobs st)), objs, reqs, fetches) \<and> jobs = [job] \<and> ctx_api_key (wi_context job) = None"
  using demo_ready source_job_carries_reference[of demo_run_env demo_source_acts demo_resolve Map.empty] by metis

definition demo_source_run_env :: source_run_env where
  "demo_source_run_env = \<lparr>ws_run_id = Some (lit ''r''), ws_started = 0, ws_finished = 1, ws_scheduled = None,
     ws_resolve = resolve_answer (\<lambda>_. ActFailed None []) (ActFailed None []) demo_run_env demo_source_acts Map.empty,
     ws_child = (\<lambda>_. ChildEnded Succeeded)\<rparr>"

theorem saved_state_is_new_witness:
  "\<exists>rec s body. RunRecord rec \<in> set (snd (run_source demo_source_run_env \<lparr>si_source_id = lit ''i'', si_tenant_id = None\<rparr>))
     \<and> rr_state rec = Some s \<and> is_hash s = Some (sv_hash demo_source_env body) \<and> is_hash no_state \<noteq> is_hash s"
proof -
  let ?inp = "\<lparr>si_source_id = lit ''i'', si_tenant_id = None\<rparr> :: source_run_input"
  have i: "run_resolve demo_source_run_env ?inp = demo_resolve"
    by (simp add: run_resolve_def demo_source_run_env_def begin_record_def demo_resolve_def)
  obtain jobs st where j: "ws_resolve demo_source_run_env demo_resolve = Inr (OutReady jobs st)"
    using demo_ready by (auto simp: demo_source_run_env_def resolve_answer_def)
  let ?rec = "(settle_run jobs st [] (begin_record demo_source_run_env ?inp))\<lparr>rr_finished_at := ws_finished demo_source_run_env\<rparr>"
  have "List.map_filter (run_source_job demo_source_run_env) jobs = []"
    by (simp add: no_failures list_all_iff demo_source_run_env_def)
  then have rec: "RunRecord ?rec \<in> set (snd (run_source demo_source_run_env ?inp))" "rr_state ?rec = Some st"
    by (simp_all add: run_source_ready[OF j[folded i]] settle_run_def finish_run_def Let_def)
  have w: "ws_resolve demo_source_run_env
      = resolve_answer (\<lambda>_. ActFailed None []) (ActFailed None []) demo_run_env demo_source_acts Map.empty"
    by (simp add: demo_source_run_env_def)
  obtain body where "is_hash st = Some (sv_hash demo_source_env body)" "is_hash no_state \<noteq> is_hash st"
    using saved_state_is_new[OF w rec] by auto
  then show ?thesis
    using rec by blast
qed

end
