(* ===== verification/Lab_Client.thy ===== *)
theory Lab_Client
  imports Lab_Credits Host_Policy
begin

text \<open>
  The rest of \<open>crates/lab\<close>: the credentials of \<open>lib.rs\<close> with the headers and the signature they give, the
  Gateway targets of \<open>ai.rs\<close>, and the routes of the control plane over them
  (\<open>control-plane/src/lab_ai.rs\<close>, \<open>lab_credits.rs\<close>, \<open>error.rs\<close>). URL parsing, HMAC and the Lab's
  answers are parameters; the clock is in nanoseconds, as in \<open>Lab_Credits\<close>. A lookup of a target is
  modelled alone and as a step relation over a shared cache. The lemmas: which addresses of a
  Lab are accepted, that a signature covers exactly one timestamp and body, that a target is an
  answer the Lab gave for that account, recently, that the Lab is asked for its own accounts only, and what
  becomes of a rejected key.
\<close>

section \<open>Credentials\<close>

datatype lab_host = HostDomain rstr | HostV4 "32 word" | HostV6 "128 word"

record lab_url =
  lu_text :: rstr
  lu_scheme :: rstr
  lu_path :: rstr
  lu_query :: "rstr option"
  lu_fragment :: "rstr option"
  lu_username :: rstr
  lu_password :: "rstr option"
  lu_host :: "lab_host option"

definition v4_private :: "32 word \<Rightarrow> bool" where
  "v4_private ip \<longleftrightarrow> (let a = octet 0 ip; b = octet 1 ip in a = 10 \<or> (a = 172 \<and> 16 \<le> b \<and> b \<le> 31) \<or> (a = 192 \<and> b = 168))"

definition private_host :: "lab_host option \<Rightarrow> bool" where
  "private_host h =
     (case h of
        Some (HostDomain d) \<Rightarrow> d = lit ''localhost''
      | Some (HostV4 ip) \<Rightarrow> octet 0 ip = 127 \<or> v4_private ip
      | Some (HostV6 ip) \<Rightarrow> ip = 1 \<or> first_segment ip AND 0xFE00 = 0xFC00
      | None \<Rightarrow> False)"

definition trim_end_char :: "nat \<Rightarrow> rstr \<Rightarrow> rstr" where
  "trim_end_char c s = rev (trim_start_matches (\<lambda>x. x = c) (rev s))"

text \<open>\<open>parse\<close> is \<open>Url::parse\<close>, \<open>dbg\<close> the \<open>{:?}\<close> of a string.\<close>

definition validate_lab_url :: "(rstr \<Rightarrow> rstr + lab_url) \<Rightarrow> (rstr \<Rightarrow> rstr) \<Rightarrow> rstr \<Rightarrow> rstr + rstr" where
  "validate_lab_url parse dbg u =
     (case parse (trim u) of
        Inl e \<Rightarrow> Inl (lit ''LAB_URL is not a URL: '' @ e)
      | Inr p \<Rightarrow>
          if lu_path p \<noteq> lit ''/'' \<or> lu_query p \<noteq> None \<or> lu_fragment p \<noteq> None
          then Inl (lit ''LAB_URL must be the Lab's base URL (scheme, host and port only), without a path, query or fragment'')
          else if lu_username p \<noteq> [] \<or> lu_password p \<noteq> None then Inl (lit ''LAB_URL must not carry credentials'')
          else if lu_scheme p = lit ''https'' \<or> (lu_scheme p = lit ''http'' \<and> private_host (lu_host p))
          then Inr (trim_end_char 47 (lu_text p))
          else if lu_scheme p = lit ''http'' then Inl (lit ''LAB_URL must be https unless its host is loopback or private'')
          else Inl (lit ''LAB_URL has unsupported scheme '' @ dbg (lu_scheme p)))"

record lab_credentials =
  lc_url :: rstr
  lc_instance_id :: rstr
  lc_secret :: rstr

definition new_credentials ::
  "(rstr \<Rightarrow> rstr + lab_url) \<Rightarrow> (rstr \<Rightarrow> rstr) \<Rightarrow> rstr \<Rightarrow> rstr \<Rightarrow> rstr \<Rightarrow> rstr + lab_credentials" where
  "new_credentials parse dbg u i s =
     try_bind (validate_lab_url parse dbg u) (\<lambda>u.
       if trim i = [] then Inl (lit ''LAB_INSTANCE_ID is empty'')
       else if trim s = [] then Inl (lit ''LAB_INSTANCE_SECRET is empty'')
       else Inr \<lparr>lc_url = u, lc_instance_id = trim i, lc_secret = trim s\<rparr>)"

definition show_bool :: "bool \<Rightarrow> rstr" where
  "show_bool b = (if b then lit ''true'' else lit ''false'')"

definition credentials_from_values ::
  "(rstr \<Rightarrow> rstr + lab_url) \<Rightarrow> (rstr \<Rightarrow> rstr) \<Rightarrow> rstr option \<Rightarrow> rstr option \<Rightarrow> rstr option \<Rightarrow> rstr + lab_credentials option" where
  "credentials_from_values parse dbg u i s =
     (case (u, i, s) of
        (None, None, None) \<Rightarrow> Inr None
      | (Some u, Some i, Some s) \<Rightarrow> map_sum id Some (new_credentials parse dbg u i s)
      | _ \<Rightarrow> Inl (lit ''LAB_URL, LAB_INSTANCE_ID and LAB_INSTANCE_SECRET go together (set: LAB_URL='' @ show_bool (u \<noteq> None)
               @ lit '', LAB_INSTANCE_ID='' @ show_bool (i \<noteq> None) @ lit '', LAB_INSTANCE_SECRET='' @ show_bool (s \<noteq> None)
               @ lit '')''))"

definition credentials_from_env ::
  "(rstr \<Rightarrow> rstr + lab_url) \<Rightarrow> (rstr \<Rightarrow> rstr) \<Rightarrow> (rstr \<rightharpoonup> rstr) \<Rightarrow> rstr + lab_credentials option" where
  "credentials_from_env parse dbg vars =
     (let get = (\<lambda>n. case vars (lit n) of Some v \<Rightarrow> if trim v = [] then None else Some v | None \<Rightarrow> None)
      in credentials_from_values parse dbg (get ''LAB_URL'') (get ''LAB_INSTANCE_ID'') (get ''LAB_INSTANCE_SECRET''))"

definition endpoint :: "lab_credentials \<Rightarrow> rstr \<Rightarrow> rstr" where
  "endpoint creds path = lc_url creds @ path"

definition H_INSTANCE_ID :: rstr where "H_INSTANCE_ID = lit ''x-lab-instance-id''"
definition H_TIMESTAMP :: rstr where "H_TIMESTAMP = lit ''x-lab-timestamp''"
definition H_SIGNATURE :: rstr where "H_SIGNATURE = lit ''x-lab-signature''"

type_synonym headers = "(rstr \<times> rstr) list"

definition lab_authorize :: "lab_credentials \<Rightarrow> headers \<Rightarrow> headers" where
  "lab_authorize creds hs = hs @ [(lit ''authorization'', lit ''Bearer '' @ lc_secret creds), (H_INSTANCE_ID, lc_instance_id creds)]"

text \<open>What is signed: the timestamp, a dot and the body. \<open>hmac\<close> is the hexadecimal HMAC-SHA256.\<close>

definition signed_text :: "nat \<Rightarrow> nat list \<Rightarrow> nat list" where
  "signed_text timestamp body = utf8_bytes (show_nat timestamp) @ 46 # body"

definition signature :: "(nat list \<Rightarrow> nat list \<Rightarrow> rstr) \<Rightarrow> nat list \<Rightarrow> nat \<Rightarrow> nat list \<Rightarrow> rstr" where
  "signature hmac secret timestamp body = lit ''sha256='' @ hmac secret (signed_text timestamp body)"

definition sign_batch :: "(nat list \<Rightarrow> nat list \<Rightarrow> rstr) \<Rightarrow> lab_credentials \<Rightarrow> headers \<Rightarrow> nat \<Rightarrow> nat list \<Rightarrow> headers" where
  "sign_batch hmac creds hs timestamp body =
     hs @ [(H_INSTANCE_ID, lc_instance_id creds), (H_TIMESTAMP, show_nat timestamp),
           (H_SIGNATURE, signature hmac (utf8_bytes (lc_secret creds)) timestamp body)]"

text \<open>\<open>LabConfig::from_values\<close>: a legacy secret refuses to boot.\<close>

definition lab_config_from_values ::
  "(rstr \<Rightarrow> rstr + lab_url) \<Rightarrow> (rstr \<Rightarrow> rstr) \<Rightarrow> rstr option \<Rightarrow> rstr option \<Rightarrow> rstr option \<Rightarrow> rstr option
   \<Rightarrow> rstr + lab_credentials option" where
  "lab_config_from_values parse dbg u i s legacy =
     (if (case legacy of Some l \<Rightarrow> trim l \<noteq> [] | None \<Rightarrow> False)
      then Inl (lit ''LAB_EVENTS_SECRET is set, but glutony has no working legacy Lab route: the Lab only accepts glutony events signed with instance credentials. Remove LAB_EVENTS_SECRET and set LAB_INSTANCE_ID and LAB_INSTANCE_SECRET (mint them with `bin/rails lab:hosted_engine:create PRODUCT=glutony ...`)'')
      else credentials_from_values parse dbg u i s)"

record instance_info =
  ii_instance_id :: rstr
  ii_product :: rstr
  ii_region :: "rstr option"
  ii_lab_url :: "rstr option"

fun lab_error_str :: "(rstr \<Rightarrow> rstr) \<Rightarrow> lab_error \<Rightarrow> rstr" where
  "lab_error_str dbg (LabTransport e) = lit ''Lab unreachable: '' @ e"
| "lab_error_str dbg LabUnauthorized = lit ''the Lab rejected LAB_INSTANCE_ID / LAB_INSTANCE_SECRET (401)''"
| "lab_error_str dbg (LabStatus n) = lit ''the Lab answered '' @ show_nat n"
| "lab_error_str dbg (LabMalformed e) = lit ''the Lab answered with an unreadable body: '' @ e"
| "lab_error_str dbg (LabWrongProduct p) = lit ''LAB_INSTANCE_ID / LAB_INSTANCE_SECRET belong to a '' @ dbg p
     @ lit '' engine, not '' @ dbg PRODUCT @ lit ''; mint glutony credentials with `bin/rails lab:hosted_engine:create PRODUCT=glutony`''"

section \<open>Gateway targets\<close>

definition MAX_FRESH_FOR :: nat where
  "MAX_FRESH_FOR = secs 300"

record lab_ai_target =
  lt_base_url :: rstr
  lt_api_key :: rstr
  lt_key_id :: rstr
  lt_default_model :: rstr
  lt_vision_model :: rstr
  lt_decision_model :: "rstr option"
  lt_cache_ttl :: u64

text \<open>\<open>Debug\<close>, as the list of the fields it prints.\<close>

definition ai_target_debug :: "(rstr \<Rightarrow> rstr) \<Rightarrow> lab_ai_target \<Rightarrow> (rstr \<times> rstr) list" where
  "ai_target_debug dbg t =
     [(lit ''base_url'', dbg (lt_base_url t)), (lit ''api_key'', dbg (lit ''<redacted>'')), (lit ''key_id'', dbg (lt_key_id t)),
      (lit ''default_model'', dbg (lt_default_model t)), (lit ''vision_model'', dbg (lt_vision_model t)),
      (lit ''decision_model'', (case lt_decision_model t of None \<Rightarrow> lit ''None'' | Some m \<Rightarrow> lit ''Some('' @ dbg m @ lit '')'')),
      (lit ''cache_ttl'', show_nat (unat (lt_cache_ttl t)))]"

datatype ai_lookup = Target lab_ai_target | NotLabAccount | NoGateway | TargetUnavailable rstr

record cached_target =
  ca_fetched_at :: nat
  ca_target :: lab_ai_target

definition target_fresh :: "cached_target \<Rightarrow> nat \<Rightarrow> bool" where
  "target_fresh c now \<longleftrightarrow> now - ca_fetched_at c < min (secs (unat (lt_cache_ttl (ca_target c)))) MAX_FRESH_FOR"

type_synonym target_cache = "rstr \<rightharpoonup> cached_target"

text \<open>The body of a successful answer: it cannot be read, is not a target (what serde says of it is its kind,
  line and column), or is one.\<close>

datatype target_body = BodyUnread rstr | BodyRefused rstr nat nat | BodyTarget lab_ai_target

datatype target_reply = NoTargetReply rstr | TargetReply nat target_body

datatype fetched_target = FetchedTarget lab_ai_target | FetchedNotFound

record target_request =
  tq_url :: url
  tq_query :: "(rstr \<times> rstr) list"
  tq_headers :: headers

text \<open>\<open>Inl\<close> is a request that cannot be made.\<close>

definition target_request_of ::
  "(rstr \<Rightarrow> rstr + url) \<Rightarrow> lab_credentials \<Rightarrow> rstr \<Rightarrow> rstr option \<Rightarrow> lab_error + target_request" where
  "target_request_of parse creds account rejected =
     (case parse (endpoint creds (lit ''/internal/accounts/'' @ account @ lit ''/ai'')) of
        Inl e \<Rightarrow> Inl (LabMalformed (lit ''not a URL: '' @ e))
      | Inr u \<Rightarrow> Inr \<lparr>tq_url = u,
          tq_query = (case rejected of Some k \<Rightarrow> [(lit ''rejected_key_id'', k)] | None \<Rightarrow> []),
          tq_headers = lab_authorize creds []\<rparr>)"

definition read_reply :: "target_reply \<Rightarrow> lab_error + fetched_target" where
  "read_reply reply =
     (case reply of
        NoTargetReply e \<Rightarrow> Inl (LabTransport e)
      | TargetReply status body \<Rightarrow>
          if status = 401 then Inl LabUnauthorized
          else if status = 403 then Inl (LabMalformed (lit ''the Lab refused (403): these credentials are not a Pipelines engine's''))
          else if status = 404 then Inr FetchedNotFound
          else if \<not> http_success status then Inl (LabStatus status)
          else (case body of
                  BodyUnread e \<Rightarrow> Inl (LabTransport e)
                | BodyRefused kind line column \<Rightarrow> Inl (LabMalformed (kind @ lit '' at line '' @ show_nat line
                    @ lit '' column '' @ show_nat column))
                | BodyTarget t \<Rightarrow> Inr (FetchedTarget t)))"

definition fetch_target ::
  "(rstr \<Rightarrow> rstr + url) \<Rightarrow> lab_credentials \<Rightarrow> (target_request \<Rightarrow> target_reply) \<Rightarrow> rstr \<Rightarrow> rstr option
   \<Rightarrow> lab_error + fetched_target" where
  "fetch_target parse creds lab account rejected =
     try_bind (target_request_of parse creds account rejected) (\<lambda>req. read_reply (lab req))"

text \<open>What a cached target of an age may still be used for when the Lab does not answer.\<close>

definition stale_target :: "target_cache \<Rightarrow> rstr \<Rightarrow> nat \<Rightarrow> lab_error \<Rightarrow> (rstr \<Rightarrow> rstr) \<Rightarrow> ai_lookup" where
  "stale_target cache account now e dbg =
     (case cache account of
        Some c \<Rightarrow> if now - ca_fetched_at c < STALE_FOR then Target (ca_target c)
                  else TargetUnavailable (lit ''cannot get the Gateway target of account '' @ account @ lit '': '' @ lab_error_str dbg e)
      | None \<Rightarrow> TargetUnavailable (lit ''cannot get the Gateway target of account '' @ account @ lit '': '' @ lab_error_str dbg e))"

definition forget_rejected :: "rstr \<Rightarrow> rstr \<Rightarrow> target_cache \<Rightarrow> target_cache" where
  "forget_rejected account rejected cache =
     (case cache account of
        Some c \<Rightarrow> if lt_key_id (ca_target c) = rejected then cache(account := None) else cache
      | None \<Rightarrow> cache)"

definition settle_target ::
  "(rstr \<Rightarrow> rstr) \<Rightarrow> rstr \<Rightarrow> nat \<Rightarrow> lab_error + fetched_target \<Rightarrow> target_cache \<Rightarrow> ai_lookup \<times> target_cache" where
  "settle_target dbg account now fetched cache =
     (case fetched of
        Inr (FetchedTarget t) \<Rightarrow> (Target t, cache(account \<mapsto> \<lparr>ca_fetched_at = now, ca_target = t\<rparr>))
      | Inr FetchedNotFound \<Rightarrow> (NoGateway, cache(account := None))
      | Inl e \<Rightarrow> (stale_target cache account now e dbg, cache))"

text \<open>A lookup that runs alone; the second component tells whether the Lab was asked.\<close>

definition target_get ::
  "(rstr \<Rightarrow> rstr + url) \<Rightarrow> (rstr \<Rightarrow> rstr) \<Rightarrow> lab_credentials \<Rightarrow> (target_request \<Rightarrow> target_reply) \<Rightarrow> nat
   \<Rightarrow> rstr \<Rightarrow> rstr option \<Rightarrow> bool \<Rightarrow> target_cache \<Rightarrow> ai_lookup \<times> bool \<times> target_cache" where
  "target_get parse dbg creds lab now account rejected refresh cache =
     (if \<not> is_lab_account account then (NotLabAccount, False, cache)
      else
        let ask = (\<lambda>cache. let (r, cache) = settle_target dbg account now (fetch_target parse creds lab account rejected) cache
                           in (r, True, cache))
        in (case rejected of
              None \<Rightarrow>
                (case cache account of
                   Some c \<Rightarrow> if \<not> refresh \<and> target_fresh c now then (Target (ca_target c), False, cache) else ask cache
                 | None \<Rightarrow> ask cache)
            | Some k \<Rightarrow> ask (forget_rejected account k cache)))"

section \<open>Interleaved lookups\<close>

text \<open>Where a lookup stands between two accesses to the cache: it arrived; it found the rejected key and is to
  drop it; its request is on the way; its answer is to be stored; the account has no Gateway; it falls back
  to an old target; it ended. The time is the one it started at.\<close>

datatype target_phase =
    TpArrived rstr "rstr option" bool
  | TpForget rstr rstr nat
  | TpAsking rstr "rstr option" nat
  | TpStoring rstr nat lab_ai_target
  | TpGone rstr nat
  | TpFallback rstr nat lab_error
  | TpDone rstr nat ai_lookup

fun target_phase_step ::
  "(rstr \<Rightarrow> rstr + url) \<Rightarrow> (rstr \<Rightarrow> rstr) \<Rightarrow> lab_credentials \<Rightarrow> (target_request \<Rightarrow> target_reply) \<Rightarrow> nat
   \<Rightarrow> target_phase \<Rightarrow> target_cache \<Rightarrow> target_phase \<times> target_cache" where
  "target_phase_step parse dbg creds lab clock (TpArrived a rejected refresh) cache =
     (if \<not> is_lab_account a then (TpDone a clock NotLabAccount, cache)
      else (case rejected of
              None \<Rightarrow>
                (case cache a of
                   Some c \<Rightarrow> if \<not> refresh \<and> target_fresh c clock then (TpDone a clock (Target (ca_target c)), cache)
                             else (TpAsking a None clock, cache)
                 | None \<Rightarrow> (TpAsking a None clock, cache))
            | Some k \<Rightarrow>
                if (case cache a of Some c \<Rightarrow> lt_key_id (ca_target c) = k | None \<Rightarrow> False)
                then (TpForget a k clock, cache) else (TpAsking a (Some k) clock, cache)))"
| "target_phase_step parse dbg creds lab clock (TpForget a k now) cache = (TpAsking a (Some k) now, cache(a := None))"
| "target_phase_step parse dbg creds lab clock (TpAsking a rejected now) cache =
     (case fetch_target parse creds lab a rejected of
        Inr (FetchedTarget t) \<Rightarrow> (TpStoring a now t, cache)
      | Inr FetchedNotFound \<Rightarrow> (TpGone a now, cache)
      | Inl e \<Rightarrow> (TpFallback a now e, cache))"
| "target_phase_step parse dbg creds lab clock (TpStoring a now t) cache =
     (TpDone a now (Target t), cache(a \<mapsto> \<lparr>ca_fetched_at = now, ca_target = t\<rparr>))"
| "target_phase_step parse dbg creds lab clock (TpGone a now) cache = (TpDone a now NoGateway, cache(a := None))"
| "target_phase_step parse dbg creds lab clock (TpFallback a now e) cache =
     (TpDone a now (stale_target cache a now e dbg), cache)"
| "target_phase_step parse dbg creds lab clock (TpDone a now r) cache = (TpDone a now r, cache)"

text \<open>The wire keeps every request that was made, with the time its lookup started at and the reply.\<close>

record target_world =
  tw_clock :: nat
  tw_cache :: target_cache
  tw_lookups :: "nat \<rightharpoonup> target_phase"
  tw_asked :: "(target_request \<times> nat \<times> target_reply) list"

definition target_start :: "nat \<Rightarrow> target_world" where
  "target_start clock = \<lparr>tw_clock = clock, tw_cache = Map.empty, tw_lookups = Map.empty, tw_asked = []\<rparr>"

definition asks_of ::
  "(rstr \<Rightarrow> rstr + url) \<Rightarrow> lab_credentials \<Rightarrow> (target_request \<Rightarrow> target_reply) \<Rightarrow> target_phase \<Rightarrow> (target_request \<times> nat \<times> target_reply) list" where
  "asks_of parse creds lab ph =
     (case ph of
        TpAsking a rejected now \<Rightarrow>
          (case target_request_of parse creds a rejected of Inr req \<Rightarrow> [(req, now, lab req)] | Inl _ \<Rightarrow> [])
      | _ \<Rightarrow> [])"

definition advance_lookup ::
  "(rstr \<Rightarrow> rstr + url) \<Rightarrow> (rstr \<Rightarrow> rstr) \<Rightarrow> lab_credentials \<Rightarrow> (target_request \<Rightarrow> target_reply) \<Rightarrow> nat
   \<Rightarrow> target_phase \<Rightarrow> target_world \<Rightarrow> target_world" where
  "advance_lookup parse dbg creds lab i ph w =
     (let (ph', cache') = target_phase_step parse dbg creds lab (tw_clock w) ph (tw_cache w)
      in w\<lparr>tw_cache := cache', tw_lookups := (tw_lookups w)(i \<mapsto> ph'), tw_asked := tw_asked w @ asks_of parse creds lab ph\<rparr>)"

text \<open>The Lab may answer every request differently.\<close>

inductive target_step ::
  "(rstr \<Rightarrow> rstr + url) \<Rightarrow> (rstr \<Rightarrow> rstr) \<Rightarrow> lab_credentials \<Rightarrow> target_world \<Rightarrow> target_world \<Rightarrow> bool" for parse dbg creds where
  tw_tick: "target_step parse dbg creds w (w\<lparr>tw_clock := tw_clock w + d\<rparr>)"
| tw_arrive: "tw_lookups w i = None
    \<Longrightarrow> target_step parse dbg creds w (w\<lparr>tw_lookups := (tw_lookups w)(i \<mapsto> TpArrived a rejected refresh)\<rparr>)"
| tw_advance: "tw_lookups w i = Some ph \<Longrightarrow> target_step parse dbg creds w (advance_lookup parse dbg creds lab i ph w)"

inductive target_reachable ::
  "(rstr \<Rightarrow> rstr + url) \<Rightarrow> (rstr \<Rightarrow> rstr) \<Rightarrow> lab_credentials \<Rightarrow> target_world \<Rightarrow> bool" for parse dbg creds where
  tw_initially: "target_reachable parse dbg creds (target_start clock)"
| tw_later: "target_reachable parse dbg creds w \<Longrightarrow> target_step parse dbg creds w w' \<Longrightarrow> target_reachable parse dbg creds w'"

inductive_cases target_step_elim: "target_step parse dbg creds w w'"

section \<open>The routes of the control plane\<close>

datatype cp_error =
    CpBadJson rstr | CpBuiltin rstr | CpNotFound rstr | CpNoPipeline rstr | CpValidation rstr | CpUnknownPlugin rstr
  | CpUnauthorized | CpInsufficientCredits rstr | CpLabUnavailable rstr | CpNoGateway rstr | CpTokenRequired rstr
  | CpDb rstr | CpInternal rstr

fun cp_error_status :: "cp_error \<Rightarrow> nat" where
  "cp_error_status (CpBadJson _) = 400"
| "cp_error_status CpUnauthorized = 401"
| "cp_error_status (CpBuiltin _) = 403"
| "cp_error_status (CpTokenRequired _) = 403"
| "cp_error_status (CpInsufficientCredits _) = 402"
| "cp_error_status (CpLabUnavailable _) = 503"
| "cp_error_status (CpNotFound _) = 404"
| "cp_error_status (CpNoPipeline _) = 404"
| "cp_error_status (CpNoGateway _) = 404"
| "cp_error_status (CpValidation _) = 422"
| "cp_error_status (CpUnknownPlugin _) = 422"
| "cp_error_status (CpDb _) = 500"
| "cp_error_status (CpInternal _) = 500"

fun cp_error_code :: "cp_error \<Rightarrow> rstr" where
  "cp_error_code (CpBadJson _) = lit ''bad_json''"
| "cp_error_code CpUnauthorized = lit ''unauthorized''"
| "cp_error_code (CpBuiltin _) = lit ''builtin''"
| "cp_error_code (CpTokenRequired _) = lit ''token_required''"
| "cp_error_code (CpInsufficientCredits _) = lit ''insufficient_credits''"
| "cp_error_code (CpLabUnavailable _) = lit ''lab_unavailable''"
| "cp_error_code (CpNotFound _) = lit ''not_found''"
| "cp_error_code (CpNoPipeline _) = lit ''no_pipeline''"
| "cp_error_code (CpNoGateway _) = lit ''no_gateway''"
| "cp_error_code (CpValidation _) = lit ''validation''"
| "cp_error_code (CpUnknownPlugin _) = lit ''unknown_plugin''"
| "cp_error_code (CpDb _) = lit ''db''"
| "cp_error_code (CpInternal _) = lit ''internal''"

text \<open>\<open>None\<close> in place of a cache is a control plane without Lab credentials.\<close>

definition get_ai_target :: "rstr option \<Rightarrow> ai_lookup option \<Rightarrow> rstr \<Rightarrow> cp_error + lab_ai_target option" where
  "get_ai_target internal_token found account =
     (if internal_token = None
      then Inl (CpTokenRequired (lit ''the Lab Gateway target carries a team key and is only served with CONTROL_PLANE_TOKEN set''))
      else (case found of
              None \<Rightarrow> Inr None
            | Some (Target t) \<Rightarrow> Inr (Some t)
            | Some NotLabAccount \<Rightarrow> Inr None
            | Some NoGateway \<Rightarrow> Inl (CpNoGateway (lit ''account '' @ account @ lit '' has no Gateway''))
            | Some (TargetUnavailable m) \<Rightarrow> Inl (CpLabUnavailable m)))"

definition cp_check_credits :: "credit_decision option \<Rightarrow> cp_error + bool" where
  "cp_check_credits decision =
     (case decision of
        None \<Rightarrow> Inr False
      | Some Allowed \<Rightarrow> Inr True
      | Some NotALabAccount \<Rightarrow> Inr False
      | Some (NoCredits m) \<Rightarrow> Inl (CpInsufficientCredits m)
      | Some (Unavailable m) \<Rightarrow> Inl (CpLabUnavailable m))"

section \<open>Credentials that are accepted\<close>

lemma validate_lab_url_ok:
  "validate_lab_url parse dbg u = Inr v \<longleftrightarrow> (\<exists>p. parse (trim u) = Inr p \<and> lu_path p = lit ''/'' \<and> lu_query p = None
     \<and> lu_fragment p = None \<and> lu_username p = [] \<and> lu_password p = None
     \<and> (lu_scheme p = lit ''https'' \<or> (lu_scheme p = lit ''http'' \<and> private_host (lu_host p))) \<and> v = trim_end_char 47 (lu_text p))"
  by (auto simp: validate_lab_url_def split: sum.splits if_splits)

lemma map_sum_Some: "map_sum id Some x = Inr (Some c) \<longleftrightarrow> x = Inr c"
  by (cases x) auto

text \<open>Credentials read from the environment send the secret to a base URL that is https, or http to a loopback
  or private host, and that carries nothing else; id and secret are not blank.\<close>

theorem lab_credentials_confined:
  assumes "credentials_from_env parse dbg vars = Inr (Some c)"
  shows "\<exists>u p. vars (lit ''LAB_URL'') = Some u \<and> parse (trim u) = Inr p \<and> lc_url c = trim_end_char 47 (lu_text p)
    \<and> lu_path p = lit ''/'' \<and> lu_query p = None \<and> lu_fragment p = None \<and> lu_username p = [] \<and> lu_password p = None
    \<and> (lu_scheme p = lit ''https'' \<or> (lu_scheme p = lit ''http'' \<and> private_host (lu_host p)))
    \<and> lc_instance_id c \<noteq> [] \<and> lc_secret c \<noteq> []"
  using assms
  by (auto simp: credentials_from_env_def credentials_from_values_def map_sum_Some new_credentials_def try_bind_eq_Inr
        validate_lab_url_ok Let_def
      split: option.splits if_splits sum.splits)

section \<open>Signatures\<close>

lemma utf8_bytes_digits: "list_all is_ascii_digit s \<Longrightarrow> utf8_bytes s = s"
  by (induction s) (auto simp: encode_char_def is_ascii_digit_def)

text \<open>What is signed determines the timestamp and the body: a signature is good for one batch at one time only.\<close>

theorem signed_text_inject: "signed_text t b = signed_text t' b' \<longleftrightarrow> t = t' \<and> b = b'"
proof
  assume eq: "signed_text t b = signed_text t' b'"
  have u: "utf8_bytes (show_nat n) = show_nat n" and d: "46 \<notin> set (show_nat n)" for n
    using show_nat_digits[of n] by (auto simp: list_all_iff is_ascii_digit_def intro!: utf8_bytes_digits)
  have "takeWhile (\<lambda>c. c \<noteq> 46) (show_nat n @ 46 # x) = show_nat n" for n x
    using d[of n] by (subst takeWhile_append2) auto
  then have "show_nat t = show_nat t'"
    using eq unfolding signed_text_def u by metis
  then show "t = t' \<and> b = b'"
    using eq by (simp add: signed_text_def)
qed simp

section \<open>A lookup is an answer of the Lab\<close>

text \<open>To a lookup that started at \<open>s\<close>, the Lab replied \<open>f\<close> to a request made of it for account \<open>a\<close>.\<close>

definition answered ::
  "(rstr \<Rightarrow> rstr + url) \<Rightarrow> lab_credentials \<Rightarrow> target_world \<Rightarrow> rstr \<Rightarrow> nat \<Rightarrow> fetched_target \<Rightarrow> bool" where
  "answered parse creds w a s f \<longleftrightarrow>
     (\<exists>req reply rejected. (req, s, reply) \<in> set (tw_asked w) \<and> target_request_of parse creds a rejected = Inr req \<and> read_reply reply = Inr f)"

definition result_ok :: "(rstr \<Rightarrow> rstr + url) \<Rightarrow> lab_credentials \<Rightarrow> target_world \<Rightarrow> rstr \<Rightarrow> nat \<Rightarrow> ai_lookup \<Rightarrow> bool" where
  "result_ok parse creds w a now d =
     (case d of
        Target t \<Rightarrow> \<exists>s. answered parse creds w a s (FetchedTarget t) \<and> now - s < STALE_FOR
      | NoGateway \<Rightarrow> answered parse creds w a now FetchedNotFound
      | _ \<Rightarrow> True)"

fun target_phase_ok :: "(rstr \<Rightarrow> rstr + url) \<Rightarrow> lab_credentials \<Rightarrow> target_world \<Rightarrow> target_phase \<Rightarrow> bool" where
  "target_phase_ok parse creds w (TpForget a k now) = is_lab_account a"
| "target_phase_ok parse creds w (TpAsking a rejected now) = is_lab_account a"
| "target_phase_ok parse creds w (TpStoring a now t) = answered parse creds w a now (FetchedTarget t)"
| "target_phase_ok parse creds w (TpGone a now) = answered parse creds w a now FetchedNotFound"
| "target_phase_ok parse creds w (TpDone a now d) = result_ok parse creds w a now d"
| "target_phase_ok parse creds w _ = True"

text \<open>What is cached was answered; every lookup stands where it may; every request is for a Lab account.\<close>

definition cache_answered :: "(rstr \<Rightarrow> rstr + url) \<Rightarrow> lab_credentials \<Rightarrow> target_world \<Rightarrow> target_cache \<Rightarrow> bool" where
  "cache_answered parse creds w cache \<longleftrightarrow>
     (\<forall>a c. cache a = Some c \<longrightarrow> answered parse creds w a (ca_fetched_at c) (FetchedTarget (ca_target c)))"

definition for_lab_account :: "(rstr \<Rightarrow> rstr + url) \<Rightarrow> lab_credentials \<Rightarrow> target_request \<Rightarrow> bool" where
  "for_lab_account parse creds req \<longleftrightarrow> (\<exists>a rejected. is_lab_account a \<and> target_request_of parse creds a rejected = Inr req)"

definition target_inv :: "(rstr \<Rightarrow> rstr + url) \<Rightarrow> lab_credentials \<Rightarrow> target_world \<Rightarrow> bool" where
  "target_inv parse creds w \<longleftrightarrow> cache_answered parse creds w (tw_cache w)
     \<and> (\<forall>i ph. tw_lookups w i = Some ph \<longrightarrow> target_phase_ok parse creds w ph)
     \<and> (\<forall>x \<in> set (tw_asked w). for_lab_account parse creds (fst x))"

lemma answered_mono: "set (tw_asked w) \<subseteq> set (tw_asked w') \<Longrightarrow> answered parse creds w a s f \<Longrightarrow> answered parse creds w' a s f"
  by (auto simp: answered_def)

lemma result_ok_mono: "set (tw_asked w) \<subseteq> set (tw_asked w') \<Longrightarrow> result_ok parse creds w a now d \<Longrightarrow> result_ok parse creds w' a now d"
  by (cases d) (auto simp: result_ok_def intro: answered_mono)

lemma target_phase_ok_mono:
  "set (tw_asked w) \<subseteq> set (tw_asked w') \<Longrightarrow> target_phase_ok parse creds w ph \<Longrightarrow> target_phase_ok parse creds w' ph"
  by (cases ph) (auto intro: answered_mono result_ok_mono)

lemma cache_answered_mono:
  "set (tw_asked w) \<subseteq> set (tw_asked w') \<Longrightarrow> cache_answered parse creds w cache \<Longrightarrow> cache_answered parse creds w' cache"
  by (auto simp: cache_answered_def intro: answered_mono)

lemma fresh_not_stale: "target_fresh c now \<Longrightarrow> now - ca_fetched_at c < STALE_FOR"
  by (simp add: target_fresh_def MAX_FRESH_FOR_def STALE_FOR_def)

lemma cached_result_ok:
  "cache_answered parse creds w cache \<Longrightarrow> cache a = Some c \<Longrightarrow> now - ca_fetched_at c < STALE_FOR
     \<Longrightarrow> result_ok parse creds w a now (Target (ca_target c))"
  by (auto simp: cache_answered_def result_ok_def)

lemma stale_result_ok: "cache_answered parse creds w cache \<Longrightarrow> result_ok parse creds w a now (stale_target cache a now e dbg)"
  by (auto simp: stale_target_def cached_result_ok split: option.split) (simp_all add: result_ok_def)

lemma fetched_answered:
  "fetch_target parse creds lab a rejected = Inr f \<Longrightarrow> set (asks_of parse creds lab (TpAsking a rejected now)) \<subseteq> set (tw_asked w)
     \<Longrightarrow> answered parse creds w a now f"
  by (auto simp: fetch_target_def try_bind_eq_Inr asks_of_def) (metis answered_def)

text \<open>One step of a lookup, its request kept: what it leaves in the cache and where it stands are answers.\<close>

lemma target_phase_step_ok:
  assumes "target_phase_step parse dbg creds lab clock ph cache = (ph', cache')" "cache_answered parse creds w cache"
    "target_phase_ok parse creds w ph" "set (asks_of parse creds lab ph) \<subseteq> set (tw_asked w)"
  shows "target_phase_ok parse creds w ph' \<and> cache_answered parse creds w cache'"
proof (cases ph)
  case (TpArrived a rejected refresh)
  then show ?thesis
    using assms(1,2) cached_result_ok[OF assms(2) _ fresh_not_stale]
    by (auto simp: result_ok_def split: if_splits option.splits)
next
  case (TpAsking a rejected now)
  then show ?thesis
    using assms fetched_answered by (auto split: sum.splits fetched_target.splits)
next
  case (TpStoring a now t)
  then show ?thesis
    using assms(1-3) by (auto simp: result_ok_def cache_answered_def STALE_FOR_def secs_def intro!: exI[of _ now] split: if_splits)
next
  case (TpFallback a now e)
  then show ?thesis
    using assms(1,2) stale_result_ok by auto
qed (use assms(1-3) in \<open>auto simp: result_ok_def cache_answered_def split: if_splits\<close>)

lemma asks_for_lab_accounts: "target_phase_ok parse creds w ph \<Longrightarrow> x \<in> set (asks_of parse creds lab ph) \<Longrightarrow> for_lab_account parse creds (fst x)"
  by (cases ph) (auto simp: asks_of_def for_lab_account_def split: sum.splits dest!: sym[of "Inr _"], blast)

lemma target_inv_step: "target_step parse dbg creds w w' \<Longrightarrow> target_inv parse creds w \<Longrightarrow> target_inv parse creds w'"
proof (erule target_step_elim)
  fix d
  assume "target_inv parse creds w" "w' = w\<lparr>tw_clock := tw_clock w + d\<rparr>"
  then show "target_inv parse creds w'"
    using target_phase_ok_mono[of w w'] cache_answered_mono[of w w'] by (simp add: target_inv_def)
next
  fix i a rejected refresh
  assume "target_inv parse creds w" "w' = w\<lparr>tw_lookups := (tw_lookups w)(i \<mapsto> TpArrived a rejected refresh)\<rparr>"
  then show "target_inv parse creds w'"
    using target_phase_ok_mono[of w w'] cache_answered_mono[of w w'] by (auto simp: target_inv_def)
next
  fix i ph lab
  assume inv: "target_inv parse creds w" and w': "w' = advance_lookup parse dbg creds lab i ph w" and ph: "tw_lookups w i = Some ph"
  obtain ph' cache' where s: "target_phase_step parse dbg creds lab (tw_clock w) ph (tw_cache w) = (ph', cache')"
    by fastforce
  have w'': "tw_cache w' = cache'" "tw_lookups w' = (tw_lookups w)(i \<mapsto> ph')" "tw_asked w' = tw_asked w @ asks_of parse creds lab ph"
    using w' s by (simp_all add: advance_lookup_def)
  have sub: "set (tw_asked w) \<subseteq> set (tw_asked w')"
    by (simp add: w'')
  have ok: "target_phase_ok parse creds w ph"
    using inv ph by (simp add: target_inv_def)
  have "target_phase_ok parse creds w' ph' \<and> cache_answered parse creds w' cache'"
    using s inv cache_answered_mono[OF sub] target_phase_ok_mono[OF sub ok] unfolding target_inv_def
    by (intro target_phase_step_ok[OF s]) (auto simp: w'')
  then show "target_inv parse creds w'"
    using inv target_phase_ok_mono[OF sub] asks_for_lab_accounts[OF ok, of _ lab] by (auto simp: target_inv_def w'')
qed

lemma target_reachable_inv: "target_reachable parse dbg creds w \<Longrightarrow> target_inv parse creds w"
proof (induction rule: target_reachable.induct)
  case (tw_initially clock)
  show ?case
    by (simp add: target_inv_def target_start_def cache_answered_def)
qed (rule target_inv_step)

section \<open>Properties\<close>

text \<open>What a lookup does depends on the Lab only through its replies to the requests of the log: no other request is made.\<close>

lemma phase_step_asks_only:
  assumes "asks_of parse creds lab ph = asks_of parse creds lab' ph"
  shows "target_phase_step parse dbg creds lab clock ph cache = target_phase_step parse dbg creds lab' clock ph cache"
proof (cases ph)
  case (TpAsking a rejected now)
  then have "fetch_target parse creds lab a rejected = fetch_target parse creds lab' a rejected"
    using assms by (auto simp: asks_of_def fetch_target_def split: sum.splits)
  with TpAsking show ?thesis by simp
next
  case (TpArrived a rejected refresh)
  then show ?thesis by simp
qed simp_all

text \<open>C26. Whatever lookups share the cache, of whatever accounts, and however they interleave: a target that is served for an
  account stands in a reply of the Lab to a request made for that very account, by a lookup that started less than five minutes
  before; so no other team's key is handed out. An account is found without a Gateway only when the Lab said so to this lookup.
  Every request made of the Lab is for a Lab account, and a step of a lookup depends on the Lab only through the replies to the
  requests that are logged for it.\<close>

theorem target_of_own_account:
  assumes "target_reachable parse dbg creds w"
  shows "(\<forall>i a now t. tw_lookups w i = Some (TpDone a now (Target t)) \<longrightarrow>
        (\<exists>req s reply rejected. (req, s, reply) \<in> set (tw_asked w) \<and> target_request_of parse creds a rejected = Inr req
           \<and> read_reply reply = Inr (FetchedTarget t) \<and> now - s < STALE_FOR))
    \<and> (\<forall>i a now. tw_lookups w i = Some (TpDone a now NoGateway) \<longrightarrow>
        (\<exists>req reply rejected. (req, now, reply) \<in> set (tw_asked w) \<and> target_request_of parse creds a rejected = Inr req
           \<and> read_reply reply = Inr FetchedNotFound))
    \<and> (\<forall>(req, s, reply) \<in> set (tw_asked w). \<exists>a rejected. is_lab_account a \<and> target_request_of parse creds a rejected = Inr req)
    \<and> (\<forall>lab lab' clock ph cache. asks_of parse creds lab ph = asks_of parse creds lab' ph \<longrightarrow>
        target_phase_step parse dbg creds lab clock ph cache = target_phase_step parse dbg creds lab' clock ph cache)"
proof -
  have inv: "target_inv parse creds w"
    using assms by (rule target_reachable_inv)
  then have "result_ok parse creds w a now d" if "tw_lookups w i = Some (TpDone a now d)" for i a now d
    using that by (force simp: target_inv_def)
  moreover have "for_lab_account parse creds req" if "(req, s, reply) \<in> set (tw_asked w)" for req s reply
    using inv that by (force simp: target_inv_def)
  ultimately have "(\<forall>i a now t. tw_lookups w i = Some (TpDone a now (Target t)) \<longrightarrow>
        (\<exists>req s reply rejected. (req, s, reply) \<in> set (tw_asked w) \<and> target_request_of parse creds a rejected = Inr req
           \<and> read_reply reply = Inr (FetchedTarget t) \<and> now - s < STALE_FOR))
    \<and> (\<forall>i a now. tw_lookups w i = Some (TpDone a now NoGateway) \<longrightarrow>
        (\<exists>req reply rejected. (req, now, reply) \<in> set (tw_asked w) \<and> target_request_of parse creds a rejected = Inr req
           \<and> read_reply reply = Inr FetchedNotFound))
    \<and> (\<forall>(req, s, reply) \<in> set (tw_asked w). \<exists>a rejected. is_lab_account a \<and> target_request_of parse creds a rejected = Inr req)"
    by (fastforce simp: result_ok_def answered_def for_lab_account_def)
  then show ?thesis
    using phase_step_asks_only by blast
qed

text \<open>Alone, a lookup that reports a rejected key is never answered with that key out of the cache: with
  it only when the Lab itself gives it out again.\<close>

theorem rejected_key_not_reused:
  assumes "target_get parse dbg creds lab now a (Some k) refresh cache = (Target t, asked, cache')" "lt_key_id t = k"
  shows "fetch_target parse creds lab a (Some k) = Inr (FetchedTarget t)"
  using assms
  by (auto simp: target_get_def settle_target_def stale_target_def forget_rejected_def Let_def
      split: if_splits sum.splits fetched_target.splits option.splits prod.splits)

text \<open>The steps of a lookup that nothing interrupts.\<close>

fun run_target_lookup ::
  "nat \<Rightarrow> (rstr \<Rightarrow> rstr + url) \<Rightarrow> (rstr \<Rightarrow> rstr) \<Rightarrow> lab_credentials \<Rightarrow> (target_request \<Rightarrow> target_reply) \<Rightarrow> nat
   \<Rightarrow> target_phase \<times> target_cache \<Rightarrow> target_phase \<times> target_cache" where
  "run_target_lookup 0 parse dbg creds lab clock s = s"
| "run_target_lookup (Suc n) parse dbg creds lab clock s =
     run_target_lookup n parse dbg creds lab clock (target_phase_step parse dbg creds lab clock (fst s) (snd s))"

text \<open>Four steps are enough, and they do what the function does.\<close>

theorem target_steps_refine_get:
  "run_target_lookup 4 parse dbg creds lab now (TpArrived a rejected refresh, cache) =
     (case target_get parse dbg creds lab now a rejected refresh cache of (d, asked, cache') \<Rightarrow> (TpDone a now d, cache'))"
  by (auto simp: eval_nat_numeral target_get_def settle_target_def forget_rejected_def Let_def
      split: option.split sum.split fetched_target.split)

section \<open>Witnesses\<close>

definition demo_account :: rstr where
  "demo_account = lit ''0192f3c1-7c2e-7b1a-9f00-3c9d2e4a5b61''"

lemma demo_account_ok [simp]: "is_lab_account demo_account"
  by code_simp

definition demo_lab_target :: lab_ai_target where
  "demo_lab_target = \<lparr>lt_base_url = lit ''b'', lt_api_key = lit ''s'', lt_key_id = lit ''k'', lt_default_model = lit ''m'',
     lt_vision_model = lit ''v'', lt_decision_model = None, lt_cache_ttl = 60\<rparr>"

definition demo_creds :: lab_credentials where
  "demo_creds = \<lparr>lc_url = lit ''https://l'', lc_instance_id = lit ''i'', lc_secret = lit ''s''\<rparr>"

definition demo_parse :: "rstr \<Rightarrow> rstr + url" where
  "demo_parse s = Inr \<lparr>url_text = s, url_scheme = lit ''https'', url_username = [], url_host = None, url_port = None,
     url_known_port = None, url_path = [], url_origin = OpaqueOrigin 0\<rparr>"

definition demo_lab :: "target_request \<Rightarrow> target_reply" where
  "demo_lab = (\<lambda>_. TargetReply 200 (BodyTarget demo_lab_target))"

lemma demo_target_fetched: "fetch_target demo_parse demo_creds demo_lab a r = Inr (FetchedTarget demo_lab_target)"
  by (simp add: fetch_target_def target_request_of_def demo_parse_def demo_lab_def read_reply_def http_success_def try_bind_def)

text \<open>The world after a lookup arrived and made so many steps.\<close>

fun demo_target_world :: "nat \<Rightarrow> target_world" where
  "demo_target_world 0 = (target_start 0)\<lparr>tw_lookups := [0 \<mapsto> TpArrived demo_account None False]\<rparr>"
| "demo_target_world (Suc n) = advance_lookup demo_parse id demo_creds demo_lab 0
     (case tw_lookups (demo_target_world n) 0 of Some ph \<Rightarrow> ph | None \<Rightarrow> TpGone [] 0) (demo_target_world n)"

lemma advance_lookup_known: "tw_lookups (advance_lookup parse dbg creds lab i ph w) i \<noteq> None"
  by (simp add: advance_lookup_def case_prod_beta Let_def)

lemma demo_target_reachable: "target_reachable demo_parse id demo_creds (demo_target_world n) \<and> tw_lookups (demo_target_world n) 0 \<noteq> None"
proof (induction n)
  case 0
  have "target_step demo_parse id demo_creds (target_start 0) (demo_target_world 0)"
    using tw_arrive[of "target_start 0" 0 demo_parse id demo_creds demo_account None False] by (simp add: target_start_def)
  then have "target_reachable demo_parse id demo_creds (demo_target_world 0)"
    by (rule tw_later[OF tw_initially])
  then show ?case
    by (rule conjI) simp
next
  case (Suc n)
  then obtain ph where ph: "tw_lookups (demo_target_world n) 0 = Some ph"
    by blast
  have "demo_target_world (Suc n) = advance_lookup demo_parse id demo_creds demo_lab 0 ph (demo_target_world n)"
    by (simp add: ph)
  then show ?case
    using tw_later[OF _ tw_advance[OF ph]] Suc advance_lookup_known by metis
qed

lemma demo_target_done: "tw_lookups (demo_target_world 3) 0 = Some (TpDone demo_account 0 (Target demo_lab_target))"
  by (simp add: eval_nat_numeral target_start_def advance_lookup_def demo_target_fetched)

theorem target_of_own_account_witness:
  "\<exists>req s reply. (req, s, reply) \<in> set (tw_asked (demo_target_world 3)) \<and> read_reply reply = Inr (FetchedTarget demo_lab_target)
     \<and> target_request_of demo_parse demo_creds demo_account None = Inr req"
proof -
  have "target_reachable demo_parse id demo_creds (demo_target_world 3)"
    using demo_target_reachable by blast
  from target_of_own_account[OF this] demo_target_done obtain req s reply where
    a: "(req, s, reply) \<in> set (tw_asked (demo_target_world 3))" "read_reply reply = Inr (FetchedTarget demo_lab_target)"
    by blast
  have "tw_asked (demo_target_world 3) = asks_of demo_parse demo_creds demo_lab (TpAsking demo_account None 0)"
    by (simp add: eval_nat_numeral target_start_def advance_lookup_def demo_target_fetched asks_of_def)
  with a show ?thesis
    by (auto simp: asks_of_def split: sum.splits)
qed

theorem rejected_key_not_reused_witness:
  "fetch_target demo_parse demo_creds demo_lab demo_account (Some (lit ''k'')) = Inr (FetchedTarget demo_lab_target)"
proof -
  obtain asked cache' where "target_get demo_parse id demo_creds demo_lab 0 demo_account (Some (lit ''k'')) False Map.empty
      = (Target demo_lab_target, asked, cache')"
    by (simp add: target_get_def settle_target_def demo_target_fetched forget_rejected_def)
  then show ?thesis
    by (rule rejected_key_not_reused) (simp add: demo_lab_target_def)
qed

definition demo_lab_url :: "rstr \<Rightarrow> rstr + lab_url" where
  "demo_lab_url s = Inr \<lparr>lu_text = s, lu_scheme = lit ''https'', lu_path = lit ''/'', lu_query = None, lu_fragment = None,
     lu_username = [], lu_password = None, lu_host = Some (HostDomain (lit ''l''))\<rparr>"

theorem lab_credentials_confined_witness:
  "\<exists>c p. credentials_from_env demo_lab_url id (\<lambda>_. Some (lit ''x'')) = Inr (Some c) \<and> demo_lab_url (lit ''x'') = Inr p
     \<and> lc_url c = trim_end_char 47 (lu_text p) \<and> lc_secret c \<noteq> []"
proof -
  have "trim (lit ''x'') = lit ''x''"
    by code_simp
  then obtain c where c: "credentials_from_env demo_lab_url id (\<lambda>_. Some (lit ''x'')) = Inr (Some c)"
    by (simp add: credentials_from_env_def credentials_from_values_def new_credentials_def validate_lab_url_def demo_lab_url_def
        try_bind_def)
  then show ?thesis
    using lab_credentials_confined[OF c] \<open>trim (lit ''x'') = lit ''x''\<close> by auto
qed

text \<open>With other lookups about, a reported key can come back out of the cache: the lookup that reports it drops
  it, another one is given it by the Lab once more and stores it, and the first one, its request
  failed, falls back to it.\<close>

lemma rejected_key_race:
  "let down = (\<lambda>_. NoTargetReply []); cache0 = [demo_account \<mapsto> \<lparr>ca_fetched_at = 0, ca_target = demo_lab_target\<rparr>];
       step = (\<lambda>lab (ph, cache). target_phase_step demo_parse id demo_creds lab 0 ph cache);
       (a, cache1) = step down (step down (TpArrived demo_account (Some (lit ''k'')) False, cache0));
       (b, cache2) = step demo_lab (step demo_lab (step demo_lab (TpArrived demo_account None False, cache1)))
   in fst (step down (step down (a, cache2))) = TpDone demo_account 0 (Target demo_lab_target)
      \<and> lt_key_id demo_lab_target = lit ''k''"
proof -
  have "fetch_target demo_parse demo_creds (\<lambda>_. NoTargetReply []) x r = Inl (LabTransport [])" for x r
    by (simp add: fetch_target_def target_request_of_def demo_parse_def read_reply_def try_bind_def)
  then show ?thesis
    by (simp add: demo_target_fetched demo_lab_target_def stale_target_def STALE_FOR_def secs_def Let_def)
qed

end
