(* ===== verification/Indexer.thy ===== *)
theory Indexer
  imports Plugin_Host Archive_Files
begin

text \<open>
  \<open>crates/plugins/meili-indexer\<close>: the plugin that sends documents to Meilisearch. The SDK's client is the
  environment: what it answers to a request is a function of the requests made so far, and so is
  whether the step was cancelled. Also parameters: serde for the configuration, the length of a document's
  JSON, and \<open>{:?}\<close> of a string. An error code is its name. Byte counts are \<open>u64\<close> and wrap. The lemmas:
  batches are consecutive, within both limits and as long as they can be; what is sent is every
  document once, in order; the tasks reported are those the answers named; the primary key is sent only to an index that has none; waiting ends; which
  failures are retried.
\<close>

section \<open>Configuration\<close>

record indexer_config =
  ic_meili :: meili_context
  ic_connection :: "rstr option"
  ic_primary_key :: rstr
  ic_auto_create_index :: bool
  ic_batch_size :: nat
  ic_max_batch_bytes :: u64
  ic_wait_for_completion :: bool
  ic_task_timeout_secs :: "u64 option"

definition DEFAULT_MAX_BATCH_BYTES :: u64 where
  "DEFAULT_MAX_BATCH_BYTES = 50 * 1024 * 1024"

definition WAIT_SLICE :: nat where "WAIT_SLICE = 10"
definition DEFAULT_TASK_TIMEOUT :: nat where "DEFAULT_TASK_TIMEOUT = 120"

definition TASK_TIMEOUT_ENV :: rstr where
  "TASK_TIMEOUT_ENV = lit ''INDEXER_TASK_TIMEOUT_SECS''"

text \<open>\<open>str::parse::<u64>\<close>: digits after an optional plus sign.\<close>

definition parse_u64 :: "rstr \<Rightarrow> u64 option" where
  "parse_u64 s =
     (let digits = (case s of c # rest \<Rightarrow> if c = 43 then rest else s | [] \<Rightarrow> [])
      in if digits = [] \<or> \<not> list_all is_ascii_digit digits \<or> 2 ^ 64 \<le> read_digits digits then None
         else Some (of_nat (read_digits digits)))"

definition task_timeout :: "rstr option \<Rightarrow> u64 option \<Rightarrow> nat" where
  "task_timeout var configured =
     (case (case configured of Some s \<Rightarrow> Some s | None \<Rightarrow> Option.bind var (\<lambda>v. parse_u64 (trim v))) of
        Some s \<Rightarrow> if 0 < s then unat s else DEFAULT_TASK_TIMEOUT
      | None \<Rightarrow> DEFAULT_TASK_TIMEOUT)"

record indexer_parsed =
  xp_cfg :: indexer_config
  xp_index :: rstr
  xp_host :: rstr
  xp_api_key :: rstr

definition indexer_says :: "rstr \<Rightarrow> rstr" where
  "indexer_says message = INDEXER_PLUGIN @ lit '': '' @ message"

definition parse_indexer_config ::
  "(json \<Rightarrow> rstr + indexer_config) \<Rightarrow> (rstr \<Rightarrow> rstr) \<Rightarrow> json \<Rightarrow> plugin_error + indexer_parsed" where
  "parse_indexer_config from_value dbg config =
     (let bad = (\<lambda>m. Inl (ErrInvalidConfig (indexer_says m))) in
      if \<not> json_is_object config then bad (lit ''config must be a JSON object'')
      else (case from_value config of
              Inl e \<Rightarrow> bad e
            | Inr cfg \<Rightarrow>
           (case (non_blank (ctx_host (ic_meili cfg)), non_blank (ctx_api_key (ic_meili cfg))) of
              (Some host, Some api_key) \<Rightarrow>
                if ic_batch_size cfg = 0 then bad (lit ''`batch_size` must be at least 1'')
                else if ic_max_batch_bytes cfg = 0 then bad (lit ''`max_batch_bytes` must be at least 1'')
                else if trim (ic_primary_key cfg) = [] then bad (lit ''`primary_key` must not be empty'')
                else (case ctx_index (ic_meili cfg) of
                        Some i \<Rightarrow> if trim i = [] then bad (lit ''no target index resolved. Set `index` in the step config, the X-Meili-Index header, the `?index=` query or MEILI_INDEX on the gateway (SPEC '' @ [167] @ lit ''3.4)'')
                                  else Inr \<lparr>xp_cfg = cfg, xp_index = i, xp_host = host, xp_api_key = api_key\<rparr>
                      | None \<Rightarrow> bad (lit ''no target index resolved. Set `index` in the step config, the X-Meili-Index header, the `?index=` query or MEILI_INDEX on the gateway (SPEC '' @ [167] @ lit ''3.4)''))
            | _ \<Rightarrow> (case ic_connection cfg of
                 Some name \<Rightarrow> bad (lit ''connection '' @ dbg name @ lit '' was not resolved into a host and API key before this step ran'')
               | None \<Rightarrow> bad (lit ''config has no `host`/`api_key`. Name a Meilisearch `connection` on this step, or send the tenant context (MeiliContext) with the request; this plugin never reads MEILI_URL/MEILI_API_KEY from the environment (SPEC '' @ [167] @ lit ''7.4)'')))))"

section \<open>Batches\<close>

record oversized_doc =
  od_index :: nat
  od_bytes :: u64

text \<open>The loop: position, start of the open batch, its bytes. A batch is a start and an end.\<close>

fun plan_loop ::
  "nat \<Rightarrow> u64 \<Rightarrow> u64 list \<Rightarrow> nat \<Rightarrow> nat \<Rightarrow> u64 \<Rightarrow> (nat \<times> nat) list \<Rightarrow> oversized_doc + (nat \<times> nat) list" where
  "plan_loop max_docs max_bytes [] i start bytes batches = Inr (if start < i then batches @ [(start, i)] else batches)"
| "plan_loop max_docs max_bytes (sz # sizes) i start bytes batches =
     (if max_bytes < 2 + sz then Inl \<lparr>od_index = i, od_bytes = sz\<rparr>
      else
        let in_batch = i - start; comma = (if 0 < in_batch then 1 else 0)
        in if 0 < in_batch \<and> (max_docs \<le> in_batch \<or> max_bytes < bytes + comma + sz)
           then plan_loop max_docs max_bytes sizes (i + 1) i (2 + sz) (batches @ [(start, i)])
           else plan_loop max_docs max_bytes sizes (i + 1) start (bytes + comma + sz) batches)"

definition plan_batches :: "u64 list \<Rightarrow> nat \<Rightarrow> u64 \<Rightarrow> oversized_doc + (nat \<times> nat) list" where
  "plan_batches sizes max_docs max_bytes = plan_loop max_docs max_bytes sizes 0 0 2 []"

section \<open>Errors of the SDK\<close>

datatype meili_error_type = TypeAuth | TypeInternal | TypeOther

datatype meili_error =
    MeiliApi rstr rstr meili_error_type
  | MeiliComm nat "rstr option"
  | MeiliHttp rstr
  | MeiliTimeout
  | MeiliInvalidRequest
  | MeiliParse rstr
  | MeiliOther rstr

definition is_index_not_found :: "meili_error \<Rightarrow> bool" where
  "is_index_not_found e =
     (case e of MeiliApi code _ _ \<Rightarrow> code = lit ''IndexNotFound'' | MeiliComm status _ \<Rightarrow> status = 404 | _ \<Rightarrow> False)"

definition map_meili_error :: "meili_error \<Rightarrow> rstr \<Rightarrow> plugin_error" where
  "map_meili_error e what =
     (let says = (\<lambda>m. indexer_says (what @ lit '': '' @ m)) in
      case e of
        MeiliApi code message type \<Rightarrow>
          let m = says (lit ''Meilisearch returned ['' @ code @ lit ''] '' @ message)
          in (case type of
                TypeAuth \<Rightarrow> ErrNonRetryable (m @ lit '' (check the API key injected by the gateway)'')
              | TypeInternal \<Rightarrow> ErrRetryable m
              | TypeOther \<Rightarrow> ErrNonRetryable m)
      | MeiliComm status message \<Rightarrow>
          let m = says (lit ''unexpected HTTP '' @ show_nat status @ lit '' from Meilisearch (''
                    @ (case message of Some b \<Rightarrow> b | None \<Rightarrow> lit ''no body'') @ lit '')'')
          in if status = 401 \<or> status = 403 then ErrNonRetryable (m @ lit ''; authentication failed'')
             else if status \<in> {408, 425, 429} \<or> (500 \<le> status \<and> status \<le> 599) then ErrRetryable m
             else ErrNonRetryable m
      | MeiliHttp e \<Rightarrow> ErrRetryable (says (lit ''network error talking to Meilisearch: '' @ e))
      | MeiliTimeout \<Rightarrow> ErrRetryable (says (lit ''timed out waiting for Meilisearch''))
      | MeiliInvalidRequest \<Rightarrow> ErrInvalidConfig (says (lit ''the api_key cannot be sent as an HTTP header (invalid characters)''))
      | MeiliParse e \<Rightarrow> ErrNonRetryable (says (lit ''unexpected response body from Meilisearch: '' @ e))
      | MeiliOther e \<Rightarrow> ErrNonRetryable (says e))"

text \<open>A failed task: its error's code and message.\<close>

type_synonym task_error = "rstr \<times> rstr"

definition task_failed :: "u32 \<Rightarrow> rstr \<Rightarrow> task_error \<Rightarrow> plugin_error" where
  "task_failed uid what e = ErrNonRetryable (indexer_says (lit ''Meilisearch task '' @ show_nat (unat uid) @ lit '' ('' @ what
     @ lit '') failed: ['' @ fst e @ lit ''] '' @ snd e))"

section \<open>Requests\<close>

datatype meili_call =
    GetIndex rstr
  | CreateIndex rstr rstr
  | AddDocuments rstr "json list" "rstr option"
  | WaitTask u32

datatype task_end = TaskSucceeded | TaskFailed task_error | TaskPending

record indexer_env =
  ix_from_value :: "json \<Rightarrow> rstr + indexer_config"
  ix_debug :: "rstr \<Rightarrow> rstr"
  ix_timeout_var :: "rstr option"
  ix_new_client :: "rstr \<Rightarrow> rstr \<Rightarrow> meili_error option"
  ix_get :: "meili_call list \<Rightarrow> meili_error + rstr option"
  ix_create :: "meili_call list \<Rightarrow> meili_error + u32"
  ix_add :: "meili_call list \<Rightarrow> meili_error + u32"
  ix_wait :: "meili_call list \<Rightarrow> meili_error + task_end"
  ix_cancelled :: "meili_call list \<Rightarrow> bool"
  ix_size :: "json \<Rightarrow> u64"

text \<open>Polling in slices until the task ends or the timeout is used up.\<close>

function wait_for_task ::
  "indexer_env \<Rightarrow> u32 \<Rightarrow> rstr \<Rightarrow> nat \<Rightarrow> nat \<Rightarrow> meili_call list \<Rightarrow> (plugin_error + task_error option) \<times> meili_call list" where
  "wait_for_task env uid what timeout waited calls =
     (if ix_cancelled env calls then (Inl ErrCancelled, calls)
      else
        let calls = calls @ [WaitTask uid]; next_wait = waited + WAIT_SLICE;
            go_on = (if timeout \<le> next_wait
              then (Inl (ErrRetryable (indexer_says (lit ''task '' @ show_nat (unat uid) @ lit '' ('' @ what @ lit '') did not finish within ''
                     @ show_nat timeout @ lit ''s; Meilisearch may be busy with other tasks (raise task_timeout_secs or ''
                     @ TASK_TIMEOUT_ENV @ lit '')''))), calls)
              else wait_for_task env uid what timeout next_wait calls)
        in (case ix_wait env calls of
              Inr TaskSucceeded \<Rightarrow> (Inr None, calls)
            | Inr (TaskFailed e) \<Rightarrow> (Inr (Some e), calls)
            | Inr TaskPending \<Rightarrow> go_on
            | Inl e \<Rightarrow> if e = MeiliTimeout then go_on
                       else (Inl (map_meili_error e (lit ''polling task '' @ show_nat (unat uid) @ lit '' ('' @ what @ lit '')'')), calls)))"
  by pat_completeness auto
termination
  by (relation "measure (\<lambda>(env, uid, what, timeout, waited, calls). timeout - waited)") (auto simp: WAIT_SLICE_def)

declare wait_for_task.simps [simp del]

datatype index_state = IndexMissing | IndexCreating u32 | IndexExisting "rstr option"

definition addition_primary_key :: "index_state \<Rightarrow> rstr \<Rightarrow> rstr option" where
  "addition_primary_key st configured = (case st of IndexExisting (Some _) \<Rightarrow> None | _ \<Rightarrow> Some configured)"

definition index_creation :: "index_state \<Rightarrow> u32 option" where
  "index_creation st = (case st of IndexCreating t \<Rightarrow> Some t | _ \<Rightarrow> None)"

definition ensure_index ::
  "indexer_env \<Rightarrow> rstr \<Rightarrow> rstr \<Rightarrow> bool \<Rightarrow> meili_call list \<Rightarrow> (plugin_error + index_state) \<times> meili_call list" where
  "ensure_index env uid primary_key create calls =
     (let calls = calls @ [GetIndex uid] in
      case ix_get env calls of
        Inr key \<Rightarrow> (Inr (IndexExisting key), calls)
      | Inl e \<Rightarrow>
          if is_index_not_found e \<and> \<not> create then (Inr IndexMissing, calls)
          else if is_index_not_found e
          then (let calls = calls @ [CreateIndex uid primary_key]
                in (case ix_create env calls of
                      Inr t \<Rightarrow> Inr (IndexCreating t)
                    | Inl e \<Rightarrow> Inl (map_meili_error e (lit ''creating index '' @ ix_debug env uid)), calls))
          else (Inl (map_meili_error e (lit ''fetching index '' @ ix_debug env uid)), calls))"

definition check_creation ::
  "indexer_env \<Rightarrow> u32 \<Rightarrow> nat \<Rightarrow> meili_call list \<Rightarrow> (plugin_error + unit) \<times> meili_call list" where
  "check_creation env task timeout calls =
     (let (r, calls) = wait_for_task env task (lit ''index creation'') timeout 0 calls
      in (try_bind r (\<lambda>e. case e of
            None \<Rightarrow> Inr ()
          | Some err \<Rightarrow> if fst err = lit ''IndexAlreadyExists'' then Inr () else Inl (task_failed task (lit ''index creation'') err)), calls))"

section \<open>Running\<close>

definition doc_slice :: "'a list \<Rightarrow> nat \<times> nat \<Rightarrow> 'a list" where
  "doc_slice xs r = take (snd r - fst r) (drop (fst r) xs)"

text \<open>The loop over the batches, with the number of the next one.\<close>

fun send_batches ::
  "indexer_env \<Rightarrow> rstr \<Rightarrow> json list \<Rightarrow> rstr option \<Rightarrow> nat \<Rightarrow> (nat \<times> nat) list \<Rightarrow> meili_call list
   \<Rightarrow> (plugin_error + u32 list) \<times> meili_call list" where
  "send_batches env index payloads key n [] calls = (Inr [], calls)"
| "send_batches env index payloads key n (r # rs) calls =
     (if ix_cancelled env calls then (Inl ErrCancelled, calls)
      else
        let calls = calls @ [AddDocuments index (doc_slice payloads r) key]
        in (case ix_add env calls of
              Inl e \<Rightarrow> (Inl (map_meili_error e (lit ''adding documents (batch '' @ show_nat n @ lit '')'')), calls)
            | Inr t \<Rightarrow> (let (ts, calls) = send_batches env index payloads key (n + 1) rs calls in (map_sum id (Cons t) ts, calls))))"

fun wait_for_additions ::
  "indexer_env \<Rightarrow> nat \<Rightarrow> u32 list \<Rightarrow> meili_call list \<Rightarrow> (plugin_error + unit) \<times> meili_call list" where
  "wait_for_additions env timeout [] calls = (Inr (), calls)"
| "wait_for_additions env timeout (t # ts) calls =
     (case wait_for_task env t (lit ''document addition'') timeout 0 calls of
        (Inl e, calls) \<Rightarrow> (Inl e, calls)
      | (Inr (Some err), calls) \<Rightarrow> (Inl (task_failed t (lit ''document addition'') err), calls)
      | (Inr None, calls) \<Rightarrow> wait_for_additions env timeout ts calls)"

definition check_created ::
  "indexer_env \<Rightarrow> index_state \<Rightarrow> nat \<Rightarrow> meili_call list \<Rightarrow> (plugin_error + unit) \<times> meili_call list" where
  "check_created env st timeout calls =
     (case index_creation st of Some task \<Rightarrow> check_creation env task timeout calls | None \<Rightarrow> (Inr (), calls))"

definition oversized_error :: "indexer_env \<Rightarrow> document list \<Rightarrow> u64 \<Rightarrow> oversized_doc \<Rightarrow> plugin_error" where
  "oversized_error env docs max_bytes od = ErrNonRetryable (indexer_says (lit ''document ''
     @ ix_debug env (doc_id (docs ! od_index od)) @ lit '' is '' @ show_nat (unat (od_bytes od))
     @ lit '' bytes serialized, over `max_batch_bytes` ('' @ show_nat (unat max_bytes)
     @ lit ''); it cannot be sent in any batch. Raise `max_batch_bytes` or chunk the document upstream''))"

text \<open>Sending documents to an index that was looked up, and waiting for them.\<close>

definition index_documents ::
  "indexer_env \<Rightarrow> indexer_parsed \<Rightarrow> nat \<Rightarrow> index_state \<Rightarrow> document list \<Rightarrow> meili_call list
   \<Rightarrow> (plugin_error + plugin_output) \<times> meili_call list" where
  "index_documents env p timeout st docs calls =
     (let cfg = xp_cfg p; payloads = map to_index_json docs;
          report = (\<lambda>ts. OutIndexed \<lparr>rep_index = xp_index p, rep_document_count = length docs, rep_task_uids = ts\<rparr>)
      in case plan_batches (map (ix_size env) payloads) (ic_batch_size cfg) (ic_max_batch_bytes cfg) of
           Inl od \<Rightarrow> (Inl (oversized_error env docs (ic_max_batch_bytes cfg) od), calls)
         | Inr batches \<Rightarrow>
        (case send_batches env (xp_index p) payloads (addition_primary_key st (ic_primary_key cfg)) 1 batches calls of
           (Inl e, calls) \<Rightarrow> (Inl e, calls)
         | (Inr ts, calls) \<Rightarrow>
             if \<not> ic_wait_for_completion cfg then (Inr (report ts), calls)
             else (case wait_for_additions env timeout ts calls of
                     (Inl e, calls) \<Rightarrow> (Inl e, calls)
                   | (Inr _, calls) \<Rightarrow>
                       (let (r, calls) = check_created env st timeout calls in (map_sum id (\<lambda>_. report ts) r, calls)))))"

definition indexer_execute ::
  "indexer_env \<Rightarrow> plugin_input \<Rightarrow> json \<Rightarrow> (plugin_error + plugin_output) \<times> meili_call list" where
  "indexer_execute env inp config =
     (case try_bind (parse_indexer_config (ix_from_value env) (ix_debug env) config)
             (\<lambda>p. map_sum id (Pair p) (in_into_documents inp)) of
        Inl e \<Rightarrow> (Inl e, [])
      | Inr (p, docs) \<Rightarrow>
     (case ix_new_client env (rev (trim_start_matches (\<lambda>c. c = 47) (rev (xp_host p)))) (xp_api_key p) of
        Some e \<Rightarrow> (Inl (map_meili_error e (lit ''building the Meilisearch client'')), [])
      | None \<Rightarrow>
          let cfg = xp_cfg p; timeout = task_timeout (ix_timeout_var env) (ic_task_timeout_secs cfg)
          in (case ensure_index env (xp_index p) (ic_primary_key cfg) (ic_auto_create_index cfg) [] of
                (Inl e, calls) \<Rightarrow> (Inl e, calls)
              | (Inr st, calls) \<Rightarrow>
                  if docs = []
                  then (let (r, calls) = (if ic_wait_for_completion cfg then check_created env st timeout calls else (Inr (), calls))
                        in (map_sum id (\<lambda>_. OutIndexed \<lparr>rep_index = xp_index p, rep_document_count = 0, rep_task_uids = []\<rparr>) r, calls))
                  else index_documents env p timeout st docs calls)))"

section \<open>Batches are within their limits\<close>

text \<open>The bytes of a request with the documents from \<open>a\<close> up to \<open>b\<close>: brackets, documents and commas.\<close>

definition batch_bytes :: "u64 list \<Rightarrow> nat \<Rightarrow> nat \<Rightarrow> nat" where
  "batch_bytes sizes a b = 2 + sum_list (map unat (doc_slice sizes (a, b))) + (b - a - 1)"

definition batch_ok :: "u64 list \<Rightarrow> nat \<Rightarrow> u64 \<Rightarrow> nat \<times> nat \<Rightarrow> bool" where
  "batch_ok sizes max_docs max_bytes = (\<lambda>(a, b). a < b \<and> b - a \<le> max_docs \<and> batch_bytes sizes a b \<le> unat max_bytes)"

text \<open>A batch that is not the last is cut where the next document would break a limit.\<close>

definition batch_full :: "u64 list \<Rightarrow> nat \<Rightarrow> u64 \<Rightarrow> nat \<times> nat \<Rightarrow> bool" where
  "batch_full sizes max_docs max_bytes = (\<lambda>(a, b). b = length sizes \<or> b - a = max_docs \<or> unat max_bytes < batch_bytes sizes a (b + 1))"

definition batch_range :: "nat \<times> nat \<Rightarrow> nat list" where
  "batch_range r = [fst r..<snd r]"

definition plan_ok :: "u64 list \<Rightarrow> nat \<Rightarrow> u64 \<Rightarrow> nat \<Rightarrow> (nat \<times> nat) list \<Rightarrow> bool" where
  "plan_ok sizes max_docs max_bytes n batches \<longleftrightarrow> concat (map batch_range batches) = [0..<n]
     \<and> list_all (batch_ok sizes max_docs max_bytes) batches \<and> list_all (batch_full sizes max_docs max_bytes) batches"

lemma unat_add_exact: "unat a + unat b < 2 ^ 64 \<Longrightarrow> unat (a + b) = unat a + unat (b :: u64)"
  by (subst unat_add_lem[symmetric]) simp

lemma doc_slice_snoc: "a \<le> b \<Longrightarrow> b < length xs \<Longrightarrow> doc_slice xs (a, Suc b) = doc_slice xs (a, b) @ [xs ! b]"
  by (simp add: doc_slice_def Suc_diff_le take_Suc_conv_app_nth)

lemma batch_bytes_snoc:
  "a < b \<Longrightarrow> b < length xs \<Longrightarrow> batch_bytes xs a (Suc b) = batch_bytes xs a b + 1 + unat (xs ! b)"
  by (simp add: batch_bytes_def doc_slice_snoc Suc_diff_le)

lemma batch_bytes_single: "b < length xs \<Longrightarrow> batch_bytes xs b (Suc b) = 2 + unat (xs ! b)"
  by (simp add: batch_bytes_def doc_slice_def take_Suc_conv_app_nth)

lemma batch_bytes_bound: "b \<le> length xs \<Longrightarrow> batch_bytes xs a b \<le> 2 + sum_list (map unat xs) + length xs"
proof -
  assume b: "b \<le> length xs"
  have split: "sum_list (map unat ys) = sum_list (map unat (take n ys)) + sum_list (map unat (drop n ys))" for n and ys :: "u64 list"
    by (metis append_take_drop_id map_append sum_list.append)
  have "sum_list (map unat (doc_slice xs (a, b))) \<le> sum_list (map unat xs)"
    using split[of xs a] split[of "drop a xs" "b - a"] by (simp only: doc_slice_def fst_conv snd_conv)
  then show ?thesis
    using b by (simp add: batch_bytes_def)
qed

definition oversized_ok :: "u64 list \<Rightarrow> u64 \<Rightarrow> oversized_doc \<Rightarrow> bool" where
  "oversized_ok sizes max_bytes d \<longleftrightarrow> od_index d < length sizes \<and> od_bytes d = sizes ! od_index d
     \<and> unat max_bytes < 2 + unat (od_bytes d) \<and> list_all (\<lambda>sz. 2 + unat sz \<le> unat max_bytes) (take (od_index d) sizes)"

lemma plan_ok_snoc:
  assumes "plan_ok sizes max_docs max_bytes start batches" "batch_ok sizes max_docs max_bytes (start, i)"
    "batch_full sizes max_docs max_bytes (start, i)"
  shows "plan_ok sizes max_docs max_bytes i (batches @ [(start, i)])"
proof -
  have "start < i"
    using assms(2) by (simp add: batch_ok_def)
  then have "[0..<start] @ [start..<i] = [0..<i]"
    using upt_add_eq_append[of 0 start "i - start"] by simp
  then show ?thesis
    using assms by (simp add: plan_ok_def batch_range_def)
qed

text \<open>The state of the loop before document \<open>i\<close>: only the first has an open batch with no document.\<close>

definition plan_inv :: "u64 list \<Rightarrow> nat \<Rightarrow> u64 \<Rightarrow> nat \<Rightarrow> nat \<Rightarrow> u64 \<Rightarrow> (nat \<times> nat) list \<Rightarrow> bool" where
  "plan_inv sizes max_docs max_bytes i start bytes batches \<longleftrightarrow> plan_ok sizes max_docs max_bytes start batches
     \<and> list_all (\<lambda>sz. 2 + unat sz \<le> unat max_bytes) (take i sizes)
     \<and> (start = i \<and> i = 0 \<and> bytes = 2 \<or> batch_ok sizes max_docs max_bytes (start, i) \<and> unat bytes = batch_bytes sizes start i)"

lemma plan_inv_start: "plan_inv sizes max_docs max_bytes 0 0 2 []"
  by (simp add: plan_inv_def plan_ok_def)

lemma plan_inv_end:
  assumes "plan_inv sizes max_docs max_bytes (length sizes) start bytes batches"
  shows "plan_ok sizes max_docs max_bytes (length sizes) (if start < length sizes then batches @ [(start, length sizes)] else batches)"
proof (cases "start < length sizes")
  case True
  then have "batch_ok sizes max_docs max_bytes (start, length sizes)"
    using assms by (auto simp: plan_inv_def)
  then show ?thesis
    using assms True plan_ok_snoc by (simp add: plan_inv_def batch_full_def)
next
  case False
  then show ?thesis
    using assms by (auto simp: plan_inv_def batch_ok_def)
qed

text \<open>Totals that stay below \<open>2 ^ 64\<close>.\<close>

abbreviation sizes_fit :: "u64 list \<Rightarrow> bool" where
  "sizes_fit sizes \<equiv> sum_list (map unat sizes) + length sizes + 2 < 2 ^ 64"

lemma batch_bytes_fit: "sizes_fit sizes \<Longrightarrow> i < length sizes \<Longrightarrow> batch_bytes sizes a (Suc i) < 2 ^ 64"
  using batch_bytes_bound[of "Suc i" sizes a] by linarith

lemma first_bytes: "sizes_fit sizes \<Longrightarrow> i < length sizes \<Longrightarrow> unat (2 + sizes ! i) = batch_bytes sizes i (Suc i)"
proof -
  assume a: "sizes_fit sizes" "i < length sizes"
  have "unat (2 :: u64) = 2" by simp
  then show ?thesis
    using batch_bytes_fit[OF a, of i] batch_bytes_single[OF a(2)] unat_add_exact[of 2 "sizes ! i"] by simp
qed

lemma next_bytes:
  assumes fit: "sizes_fit sizes" and i: "i < length sizes" and inv: "plan_inv sizes max_docs max_bytes i start bytes batches"
  shows "unat (bytes + (if 0 < i - start then 1 else 0) + sizes ! i) = batch_bytes sizes start (Suc i)"
proof (cases "start < i")
  case True
  then have b: "unat bytes = batch_bytes sizes start i"
    using inv by (auto simp: plan_inv_def)
  have e: "batch_bytes sizes start (Suc i) = unat bytes + 1 + unat (sizes ! i)"
    using batch_bytes_snoc[OF True i] b by simp
  have one: "unat (bytes + 1) = unat bytes + 1"
    using e batch_bytes_fit[OF fit i, of start] unat_add_exact[of bytes 1] by simp
  have "unat (bytes + 1 + sizes ! i) = unat (bytes + 1) + unat (sizes ! i)"
    using e one batch_bytes_fit[OF fit i, of start] by (intro unat_add_exact) simp
  then show ?thesis
    using e one True by simp
next
  case False
  then have "start = i" "bytes = 2"
    using inv by (auto simp: plan_inv_def batch_ok_def)
  then show ?thesis
    using first_bytes[OF fit i] by simp
qed

lemma plan_inv_cut:
  assumes fit: "sizes_fit sizes" and i: "i < length sizes" and inv: "plan_inv sizes max_docs max_bytes i start bytes batches"
    and "0 < max_docs" "\<not> max_bytes < 2 + sizes ! i" "0 < i - start"
    and full: "max_docs \<le> i - start \<or> max_bytes < bytes + (if 0 < i - start then 1 else 0) + sizes ! i"
  shows "plan_inv sizes max_docs max_bytes (Suc i) i (2 + sizes ! i) (batches @ [(start, i)])"
proof -
  have ok: "batch_ok sizes max_docs max_bytes (start, i)" "plan_ok sizes max_docs max_bytes start batches"
    using inv assms(6) by (auto simp: plan_inv_def)
  have "batch_full sizes max_docs max_bytes (start, i)"
    using full ok(1) next_bytes[OF fit i inv] by (auto simp: batch_full_def batch_ok_def word_less_nat_alt)
  then have "plan_ok sizes max_docs max_bytes i (batches @ [(start, i)])"
    using plan_ok_snoc ok by blast
  moreover have "batch_bytes sizes i (Suc i) \<le> unat max_bytes" "2 + unat (sizes ! i) \<le> unat max_bytes"
    using assms(5) first_bytes[OF fit i] batch_bytes_single[OF i] by (simp_all add: word_less_nat_alt)
  ultimately show ?thesis
    using inv first_bytes[OF fit i] \<open>0 < max_docs\<close> i by (simp add: plan_inv_def batch_ok_def take_Suc_conv_app_nth)
qed

lemma plan_inv_extend:
  assumes fit: "sizes_fit sizes" and i: "i < length sizes" and inv: "plan_inv sizes max_docs max_bytes i start bytes batches"
    and "0 < max_docs" "\<not> max_bytes < 2 + sizes ! i"
    and room: "\<not> (0 < i - start \<and> (max_docs \<le> i - start \<or> max_bytes < bytes + (if 0 < i - start then 1 else 0) + sizes ! i))"
  shows "plan_inv sizes max_docs max_bytes (Suc i) start (bytes + (if 0 < i - start then 1 else 0) + sizes ! i) batches"
proof -
  have first: "batch_bytes sizes i (Suc i) \<le> unat max_bytes" "2 + unat (sizes ! i) \<le> unat max_bytes"
    using assms(5) first_bytes[OF fit i] batch_bytes_single[OF i] by (simp_all add: word_less_nat_alt)
  have "batch_ok sizes max_docs max_bytes (start, Suc i)"
  proof (cases "start < i")
    case True
    then show ?thesis
      using room next_bytes[OF fit i inv] by (auto simp: batch_ok_def word_less_nat_alt)
  next
    case False
    then have "start = i"
      using inv by (auto simp: plan_inv_def batch_ok_def)
    then show ?thesis
      using first(1) \<open>0 < max_docs\<close> by (simp add: batch_ok_def)
  qed
  then show ?thesis
    using inv next_bytes[OF fit i inv] first(2) i by (simp add: plan_inv_def take_Suc_conv_app_nth)
qed

lemma plan_inv_oversized:
  assumes "sizes_fit sizes" "i < length sizes" "plan_inv sizes max_docs max_bytes i start bytes batches" "max_bytes < 2 + sizes ! i"
  shows "oversized_ok sizes max_bytes \<lparr>od_index = i, od_bytes = sizes ! i\<rparr>"
  using assms(2-4) first_bytes[OF assms(1,2)] batch_bytes_single[OF assms(2)]
  by (simp add: oversized_ok_def plan_inv_def word_less_nat_alt)

lemma plan_loop_ok:
  assumes "0 < max_docs" "sizes_fit sizes" "i \<le> length sizes" "plan_inv sizes max_docs max_bytes i start bytes batches"
  shows "case plan_loop max_docs max_bytes (drop i sizes) i start bytes batches of
      Inr bs \<Rightarrow> plan_ok sizes max_docs max_bytes (length sizes) bs | Inl d \<Rightarrow> oversized_ok sizes max_bytes d"
  using assms(3,4)
proof (induction "length sizes - i" arbitrary: i start bytes batches)
  case 0
  then have "i = length sizes"
    by simp
  then show ?case
    using plan_inv_end[of sizes max_docs max_bytes start bytes batches] 0 by simp
next
  case (Suc k)
  let ?bytes = "bytes + (if 0 < i - start then 1 else 0) + sizes ! i"
  have i: "i < length sizes" and d: "drop i sizes = sizes ! i # drop (Suc i) sizes"
    using Suc.hyps(2) by (simp_all add: Cons_nth_drop_Suc)
  note ih = Suc.hyps(1)[of "Suc i"]
  consider "max_bytes < 2 + sizes ! i"
    | "\<not> max_bytes < 2 + sizes ! i" "0 < i - start" "max_docs \<le> i - start \<or> max_bytes < ?bytes"
    | "\<not> max_bytes < 2 + sizes ! i" "\<not> (0 < i - start \<and> (max_docs \<le> i - start \<or> max_bytes < ?bytes))"
    by argo
  then show ?case
  proof cases
    case 1
    then show ?thesis
      using plan_inv_oversized[OF assms(2) i Suc.prems(2)] by (simp only: d plan_loop.simps if_True sum.case)
  next
    case 2
    then have "plan_loop max_docs max_bytes (drop i sizes) i start bytes batches
        = plan_loop max_docs max_bytes (drop (Suc i) sizes) (Suc i) i (2 + sizes ! i) (batches @ [(start, i)])"
      by (simp only: d plan_loop.simps Let_def if_False if_True simp_thms Suc_eq_plus1)
    then show ?thesis
      using ih plan_inv_cut[OF assms(2) i Suc.prems(2) assms(1) 2] Suc.hyps(2) i by simp
  next
    case 3
    then have "plan_loop max_docs max_bytes (drop i sizes) i start bytes batches
        = plan_loop max_docs max_bytes (drop (Suc i) sizes) (Suc i) start ?bytes batches"
      by (simp only: d plan_loop.simps Let_def if_False simp_thms Suc_eq_plus1)
    then show ?thesis
      using ih plan_inv_extend[OF assms(2) i Suc.prems(2) assms(1) 3] Suc.hyps(2) i by simp
  qed
qed


text \<open>C28. \<open>plan_batches\<close>, where no sum overflows: the batches put every document in exactly one request, in
  order; none is empty, over \<open>batch_size\<close> documents or over \<open>max_batch_bytes\<close> with its brackets and commas;
  each but the last is as long as it can be. It fails exactly at the first document that fits in no request
  of its own.\<close>

theorem plan_batches_correct:
  assumes "0 < max_docs" "sum_list (map unat sizes) + length sizes + 2 < 2 ^ 64"
  shows "case plan_batches sizes max_docs max_bytes of
      Inr batches \<Rightarrow> plan_ok sizes max_docs max_bytes (length sizes) batches
    | Inl d \<Rightarrow> oversized_ok sizes max_bytes d"
  using plan_loop_ok[OF assms, of 0 max_bytes 0 2 "[]"] plan_inv_start by (simp add: plan_batches_def)

theorem plan_batches_correct_witness:
  "plan_batches [10, 10, 10] 1000 23 = Inr [(0, 2), (2, 3)] \<and> plan_ok [10, 10, 10] 1000 23 (length [10, 10, 10 :: u64]) [(0, 2), (2, 3)]"
proof -
  have "plan_batches [10, 10, 10] 1000 23 = Inr [(0, 2), (2, 3)]"
    by code_simp
  then show ?thesis
    using plan_batches_correct[of 1000 "[10, 10, 10]" 23] by simp
qed

section \<open>What is sent\<close>

fun documents_of :: "meili_call \<Rightarrow> json list" where
  "documents_of (AddDocuments _ ds _) = ds"
| "documents_of _ = []"

definition sent :: "meili_call list \<Rightarrow> json list" where
  "sent calls = concat (map documents_of calls)"

text \<open>The index documents are sent to, and the primary key sent with them.\<close>

fun keys_of :: "meili_call \<Rightarrow> (rstr \<times> rstr option) list" where
  "keys_of (AddDocuments index _ key) = [(index, key)]"
| "keys_of _ = []"

definition keys_sent :: "meili_call list \<Rightarrow> (rstr \<times> rstr option) list" where
  "keys_sent calls = concat (map keys_of calls)"

lemma sent_simps [simp]:
  "sent [] = []" "sent (c # calls) = documents_of c @ sent calls" "sent (cs @ calls) = sent cs @ sent calls"
  "sent (replicate n (WaitTask t)) = []"
  by (simp_all add: sent_def)

lemma keys_sent_simps [simp]:
  "keys_sent [] = []" "keys_sent (c # calls) = keys_of c @ keys_sent calls" "keys_sent (cs @ calls) = keys_sent cs @ keys_sent calls"
  "keys_sent (replicate n (WaitTask t)) = []"
  by (simp_all add: keys_sent_def)

text \<open>The answers to the requests with documents among \<open>calls\<close>, made after the calls \<open>before\<close>.\<close>

fun addition_replies :: "indexer_env \<Rightarrow> meili_call list \<Rightarrow> meili_call list \<Rightarrow> (meili_error + u32) list" where
  "addition_replies env before [] = []"
| "addition_replies env before (c # calls) =
     (case c of AddDocuments _ _ _ \<Rightarrow> [ix_add env (before @ [c])] | _ \<Rightarrow> []) @ addition_replies env (before @ [c]) calls"

lemma addition_replies_append [simp]:
  "addition_replies env before (cs @ ds) = addition_replies env before cs @ addition_replies env (before @ cs) ds"
  by (induction cs arbitrary: before) simp_all

text \<open>A task is done when its last poll says so.\<close>

definition task_done :: "indexer_env \<Rightarrow> meili_call list \<Rightarrow> u32 \<Rightarrow> bool" where
  "task_done env calls t \<longleftrightarrow> (\<exists>cs ds. calls = cs @ WaitTask t # ds \<and> ix_wait env (cs @ [WaitTask t]) = Inr TaskSucceeded)"

lemma task_done_append: "task_done env cs t \<Longrightarrow> task_done env (cs @ ds) t"
  by (fastforce simp: task_done_def)

text \<open>What waiting for a task can do: poll it, at most once every ten seconds of the timeout.\<close>

definition polls_max :: "nat \<Rightarrow> nat" where
  "polls_max timeout = Suc ((timeout - 1) div WAIT_SLICE)"

lemma wait_step:
  assumes "wait_for_task env uid what timeout waited calls = (r, calls')"
  shows "(calls' = calls \<and> r = Inl ErrCancelled)
    \<or> (calls' = calls @ [WaitTask uid] \<and> (r = Inr None \<longrightarrow> ix_wait env calls' = Inr TaskSucceeded))
    \<or> (waited + WAIT_SLICE < timeout \<and> wait_for_task env uid what timeout (waited + WAIT_SLICE) (calls @ [WaitTask uid]) = (r, calls'))"
  using assms
  by (subst (asm) wait_for_task.simps) (auto simp: Let_def split: if_splits sum.splits task_end.splits)

lemma wait_for_task_result:
  assumes "wait_for_task env uid what timeout waited calls = (r, calls')" "waited < timeout"
  shows "\<exists>n \<le> polls_max (timeout - waited). calls' = calls @ replicate n (WaitTask uid)
     \<and> (r = Inr None \<longrightarrow> task_done env calls' uid)"
  using assms
proof (induction "timeout - waited" arbitrary: waited calls rule: less_induct)
  case less
  from wait_step[OF less.prems(1)] consider "calls' = calls" "r = Inl ErrCancelled"
    | "calls' = calls @ [WaitTask uid]" "r = Inr None \<longrightarrow> ix_wait env calls' = Inr TaskSucceeded"
    | "waited + WAIT_SLICE < timeout" "wait_for_task env uid what timeout (waited + WAIT_SLICE) (calls @ [WaitTask uid]) = (r, calls')"
    by blast
  then show ?case
  proof cases
    case 1
    then show ?thesis
      by (intro exI[of _ 0]) simp
  next
    case 2
    then show ?thesis
      by (intro exI[of _ 1]) (auto simp: polls_max_def task_done_def)
  next
    case 3
    have "timeout - (waited + WAIT_SLICE) < timeout - waited"
      using 3(1) by (simp add: WAIT_SLICE_def)
    from less.hyps[OF this 3(2,1)] obtain n where n: "n \<le> polls_max (timeout - (waited + WAIT_SLICE))"
      "calls' = (calls @ [WaitTask uid]) @ replicate n (WaitTask uid)" "r = Inr None \<longrightarrow> task_done env calls' uid"
      by blast
    have "Suc n \<le> polls_max (timeout - waited)"
      using n(1) 3(1) by (simp add: polls_max_def WAIT_SLICE_def)
    then show ?thesis
      using n(2,3) by (intro exI[of _ "Suc n"]) simp
  qed
qed

text \<open>Calls that send no document.\<close>

definition quiet :: "meili_call list \<Rightarrow> bool" where
  "quiet cs \<longleftrightarrow> sent cs = [] \<and> keys_sent cs = []"

lemma quiet_simps [simp]:
  "quiet []" "quiet (cs @ ds) \<longleftrightarrow> quiet cs \<and> quiet ds" "quiet (replicate n (WaitTask t))"
  by (auto simp: quiet_def)

lemma quiet_replies: "quiet cs \<Longrightarrow> addition_replies env before cs = []"
proof (induction cs arbitrary: before)
  case (Cons c cs)
  then show ?case
    by (cases c) (simp_all add: quiet_def)
qed simp

lemma wait_quiet:
  assumes "wait_for_task env uid what timeout 0 calls = (r, calls')" "0 < timeout"
  shows "\<exists>cs. calls' = calls @ cs \<and> quiet cs \<and> (r = Inr None \<longrightarrow> task_done env calls' uid)"
  using wait_for_task_result[OF assms] quiet_simps(3) by blast

lemma wait_for_additions_result:
  assumes "wait_for_additions env timeout ts calls = (r, calls')" "0 < timeout"
  shows "\<exists>cs. calls' = calls @ cs \<and> quiet cs \<and> (r = Inr () \<longrightarrow> list_all (task_done env calls') ts)"
  using assms
proof (induction ts arbitrary: calls)
  case Nil
  then show ?case
    by simp
next
  case (Cons t ts)
  obtain q mid where w: "wait_for_task env t (lit ''document addition'') timeout 0 calls = (q, mid)"
    by fastforce
  from wait_quiet[OF w Cons.prems(2)] obtain cs where cs: "mid = calls @ cs" "quiet cs" "q = Inr None \<longrightarrow> task_done env mid t"
    by blast
  show ?case
  proof (cases "q = Inr None")
    case True
    then have "wait_for_additions env timeout ts mid = (r, calls')"
      using Cons.prems(1) w by simp
    from Cons.IH[OF this Cons.prems(2)] obtain ds where "calls' = mid @ ds" "quiet ds" "r = Inr () \<longrightarrow> list_all (task_done env calls') ts"
      by blast
    then show ?thesis
      using cs True task_done_append[of env mid t ds] by (intro exI[of _ "cs @ ds"]) simp
  next
    case False
    then have "calls' = mid" "r \<noteq> Inr ()"
      using Cons.prems(1) w by (auto split: sum.splits option.splits)
    then show ?thesis
      using cs by blast
  qed
qed

lemma check_created_quiet:
  assumes "check_created env st timeout calls = (r, calls')" "0 < timeout"
  shows "\<exists>cs. calls' = calls @ cs \<and> quiet cs"
proof (cases "index_creation st")
  case None
  then show ?thesis
    using assms by (auto simp: check_created_def)
next
  case (Some t)
  obtain q where "wait_for_task env t (lit ''index creation'') timeout 0 calls = (q, calls')"
    using assms(1) Some by (auto simp: check_created_def check_creation_def split: prod.splits)
  from wait_quiet[OF this assms(2)] show ?thesis
    by blast
qed

lemma ensure_index_result:
  assumes "ensure_index env uid pk create [] = (Inr st, calls)"
  shows "quiet calls \<and> addition_primary_key st pk = (case ix_get env [GetIndex uid] of Inr (Some _) \<Rightarrow> None | _ \<Rightarrow> Some pk)"
  using assms
  by (auto simp: ensure_index_def addition_primary_key_def quiet_def Let_def split: sum.splits if_splits option.splits)

lemma send_batches_result:
  assumes "send_batches env index payloads key n bs calls = (Inr ts, calls')"
  shows "calls' = calls @ map (\<lambda>r. AddDocuments index (doc_slice payloads r) key) bs \<and> length ts = length bs
    \<and> addition_replies env calls (map (\<lambda>r. AddDocuments index (doc_slice payloads r) key) bs) = map Inr ts"
  using assms
proof (induction env index payloads key n bs calls arbitrary: ts rule: send_batches.induct)
  case (2 env index payloads key n r rs calls)
  then show ?case
    by (auto simp: Let_def split: if_splits sum.splits prod.splits simp: map_sum_Inr)
qed simp

lemma doc_slice_nth: "b \<le> length xs \<Longrightarrow> doc_slice xs (a, b) = map (nth xs) [a..<b]"
  by (rule nth_equalityI) (auto simp: doc_slice_def)

lemma plan_sends_all:
  assumes "plan_ok sizes max_docs max_bytes (length xs) bs"
  shows "concat (map (doc_slice xs) bs) = xs"
proof -
  have inside: "snd r \<le> length xs" if "r \<in> set bs" for r
  proof -
    have "fst r < snd r"
      using assms that by (auto simp: plan_ok_def list_all_iff batch_ok_def)
    then have "snd r - 1 \<in> set (concat (map batch_range bs))"
      using that by (auto simp: batch_range_def intro!: bexI[of _ r])
    then have "snd r - 1 \<in> set [0..<length xs]"
      using assms by (simp only: plan_ok_def)
    then show ?thesis
      using \<open>fst r < snd r\<close> by simp
  qed
  have "map (doc_slice xs) bs = map (map (nth xs)) (map batch_range bs)"
    using inside by (auto simp: batch_range_def doc_slice_nth)
  then have "concat (map (doc_slice xs) bs) = map (nth xs) (concat (map batch_range bs))"
    by (simp only: map_concat)
  then show ?thesis
    using assms by (simp add: plan_ok_def map_nth)
qed

lemma sent_batches [simp]:
  "sent (map (\<lambda>r. AddDocuments index (doc_slice xs r) key) bs) = concat (map (doc_slice xs) bs)"
  "keys_sent (map (\<lambda>r. AddDocuments index (doc_slice xs r) key) bs) = replicate (length bs) (index, key)"
  by (induction bs) (simp_all add: sent_def keys_sent_def)

lemma task_timeout_positive: "0 < task_timeout var configured"
  by (auto simp: task_timeout_def DEFAULT_TASK_TIMEOUT_def word_gt_0 unat_gt_0 split: option.splits)

lemma parsed_batch_size: "parse_indexer_config from_value dbg config = Inr p \<Longrightarrow> 0 < ic_batch_size (xp_cfg p)"
  by (auto simp: parse_indexer_config_def Let_def split: if_splits sum.splits option.splits)

text \<open>Every document went to the index of the configuration, once and in order; the tasks reported are those the answers to these
  requests named, in order; when the step waits, each of them was polled to success.\<close>

definition indexed_well ::
  "indexer_env \<Rightarrow> indexer_parsed \<Rightarrow> rstr option \<Rightarrow> document list \<Rightarrow> meili_call list \<Rightarrow> plugin_output \<Rightarrow> bool" where
  "indexed_well env p key docs calls out \<longleftrightarrow> (\<exists>ts. out = OutIndexed \<lparr>rep_index = xp_index p, rep_document_count = length docs, rep_task_uids = ts\<rparr>
     \<and> sent calls = map to_index_json docs \<and> keys_sent calls = replicate (length ts) (xp_index p, key)
     \<and> addition_replies env [] calls = map Inr ts
     \<and> (ic_wait_for_completion (xp_cfg p) \<longrightarrow> list_all (task_done env calls) ts))"

lemma index_documents_result:
  assumes run: "index_documents env p timeout st docs calls = (Inr out, calls')" and q: "quiet calls" and t: "0 < timeout"
    and b: "0 < ic_batch_size (xp_cfg p)" and fit: "sizes_fit (map (ix_size env \<circ> to_index_json) docs)"
  shows "indexed_well env p (addition_primary_key st (ic_primary_key (xp_cfg p))) docs calls' out"
proof -
  let ?key = "addition_primary_key st (ic_primary_key (xp_cfg p))" and ?sizes = "map (ix_size env \<circ> to_index_json) docs"
  obtain bs where bs: "plan_batches ?sizes (ic_batch_size (xp_cfg p)) (ic_max_batch_bytes (xp_cfg p)) = Inr bs"
    using run by (auto simp: index_documents_def Let_def split: sum.splits)
  have plan: "plan_ok ?sizes (ic_batch_size (xp_cfg p)) (ic_max_batch_bytes (xp_cfg p)) (length (map to_index_json docs)) bs"
    using plan_loop_ok[OF b fit, of 0 "ic_max_batch_bytes (xp_cfg p)" 0 2 "[]"] plan_inv_start bs by (simp add: plan_batches_def)
  obtain ts mid where send: "send_batches env (xp_index p) (map to_index_json docs) ?key 1 bs calls = (Inr ts, mid)"
    using run bs by (auto simp: index_documents_def Let_def split: sum.splits prod.splits)
  note sent = send_batches_result[OF send] plan_sends_all[OF plan]
  show ?thesis
  proof (cases "ic_wait_for_completion (xp_cfg p)")
    case False
    then show ?thesis
      using run bs send sent q quiet_replies[OF q] by (auto simp: index_documents_def Let_def indexed_well_def quiet_def)
  next
    case True
    obtain r late where wait: "wait_for_additions env timeout ts mid = (r, late)"
      by fastforce
    have r: "r = Inr ()"
      using run bs send wait True by (auto simp: index_documents_def Let_def split: sum.splits)
    obtain r' where created: "check_created env st timeout late = (r', calls')"
      "out = OutIndexed \<lparr>rep_index = xp_index p, rep_document_count = length docs, rep_task_uids = ts\<rparr>"
      using run bs send wait True r by (auto simp: index_documents_def Let_def map_sum_Inr split: sum.splits prod.splits)
    from wait_for_additions_result[OF wait t] obtain cs where cs: "late = mid @ cs" "quiet cs" "list_all (task_done env late) ts"
      using r by blast
    from check_created_quiet[OF created(1) t] obtain ds where ds: "calls' = late @ ds" "quiet ds"
      by blast
    have "list_all (task_done env calls') ts"
      using cs(3) ds(1) task_done_append by (simp add: list_all_iff)
    then show ?thesis
      using created(2) sent q cs(1,2) ds quiet_replies[OF q] quiet_replies[OF cs(2)] quiet_replies[OF ds(2)]
      by (simp add: indexed_well_def quiet_def)
  qed
qed

text \<open>C27. A successful run of the indexer: every document was sent exactly once, in order, whatever the batches, and to the index of the
  configuration; the report counts all of them and names, for every request with documents and in order, the task that the answer to it
  named; the requests carry the primary key exactly when the index was found without one (or not found); and, when the step waits,
  every task of the report was polled to success. It holds when the documents together serialize to fewer than \<open>2\<^sup>6\<^sup>4\<close> bytes.\<close>

theorem indexer_reports_what_it_sent:
  assumes "parse_indexer_config (ix_from_value env) (ix_debug env) config = Inr p" "in_into_documents inp = Inr docs"
    "sum_list (map unat (map (ix_size env \<circ> to_index_json) docs)) + length docs + 2 < 2 ^ 64"
    "indexer_execute env inp config = (Inr out, calls)"
  shows "indexed_well env p (case ix_get env [GetIndex (xp_index p)] of Inr (Some _) \<Rightarrow> None | _ \<Rightarrow> Some (ic_primary_key (xp_cfg p)))
    docs calls out"
proof -
  let ?timeout = "task_timeout (ix_timeout_var env) (ic_task_timeout_secs (xp_cfg p))"
  obtain st cs where e: "ensure_index env (xp_index p) (ic_primary_key (xp_cfg p)) (ic_auto_create_index (xp_cfg p)) [] = (Inr st, cs)"
    using assms(1,2,4) by (auto simp: indexer_execute_def Let_def split: option.splits sum.splits prod.splits)
  note st = ensure_index_result[OF e]
  show ?thesis
  proof (cases "docs = []")
    case False
    then have "index_documents env p ?timeout st docs cs = (Inr out, calls)"
      using assms(1,2,4) e by (auto simp: indexer_execute_def Let_def split: option.splits)
    from index_documents_result[OF this _ task_timeout_positive parsed_batch_size[OF assms(1)]] show ?thesis
      using assms(3) st by simp
  next
    case True
    obtain r where r: "(if ic_wait_for_completion (xp_cfg p) then check_created env st ?timeout cs else (Inr (), cs)) = (r, calls)"
      "out = OutIndexed \<lparr>rep_index = xp_index p, rep_document_count = 0, rep_task_uids = []\<rparr>"
      using assms(1,2,4) e True by (auto simp: indexer_execute_def Let_def map_sum_Inr split: option.splits prod.splits if_splits)
    then have "quiet calls"
    proof (cases "ic_wait_for_completion (xp_cfg p)")
      case True
      then have "check_created env st ?timeout cs = (r, calls)"
        using r(1) by simp
      then obtain ds where "calls = cs @ ds" "quiet ds"
        using check_created_quiet task_timeout_positive by blast
      then show ?thesis
        using st by simp
    qed (use r(1) st in simp)
    then show ?thesis
      using r(2) True quiet_replies by (simp add: indexed_well_def quiet_def)
  qed
qed

section \<open>An example run\<close>

text \<open>The index has to be created; two documents go in two requests; the first task takes two polls.\<close>

definition demo_indexer_config :: indexer_config where
  "demo_indexer_config = \<lparr>ic_meili = \<lparr>ctx_tenant_id = None, ctx_host = Some (lit ''http://m/''), ctx_api_key = Some (lit ''k''),
       ctx_index = Some (lit ''i''), ctx_region = None\<rparr>,
     ic_connection = None, ic_primary_key = lit ''id'', ic_auto_create_index = True, ic_batch_size = 1, ic_max_batch_bytes = 1000,
     ic_wait_for_completion = True, ic_task_timeout_secs = Some 15\<rparr>"

definition demo_indexer_env :: indexer_env where
  "demo_indexer_env = \<lparr>ix_from_value = (\<lambda>_. Inr demo_indexer_config), ix_debug = id, ix_timeout_var = None,
     ix_new_client = (\<lambda>_ _. None), ix_get = (\<lambda>_. Inl (MeiliComm 404 None)), ix_create = (\<lambda>_. Inr 7),
     ix_add = (\<lambda>calls. Inr (of_nat (length calls))), ix_wait = (\<lambda>calls. Inr (if length calls = 5 then TaskPending else TaskSucceeded)),
     ix_cancelled = (\<lambda>_. False), ix_size = (\<lambda>_. 60)\<rparr>"

definition demo_indexed :: "document list" where
  "demo_indexed = [example_document, example_document\<lparr>doc_id := lit ''a2''\<rparr>]"

definition demo_indexer_calls :: "meili_call list" where
  "demo_indexer_calls = [GetIndex (lit ''i''), CreateIndex (lit ''i'') (lit ''id''),
     AddDocuments (lit ''i'') [to_index_json example_document] (Some (lit ''id'')),
     AddDocuments (lit ''i'') [to_index_json (example_document\<lparr>doc_id := lit ''a2''\<rparr>)] (Some (lit ''id'')),
     WaitTask 3, WaitTask 3, WaitTask 4, WaitTask 7]"

lemma demo_indexer_env_fields [simp]:
  "ix_from_value demo_indexer_env j = Inr demo_indexer_config" "ix_debug demo_indexer_env = id"
  "ix_timeout_var demo_indexer_env = None" "ix_new_client demo_indexer_env u k = None"
  "ix_get demo_indexer_env calls = Inl (MeiliComm 404 None)" "ix_create demo_indexer_env calls = Inr 7"
  "ix_add demo_indexer_env calls = Inr (of_nat (length calls))"
  "ix_wait demo_indexer_env calls = Inr (if length calls = 5 then TaskPending else TaskSucceeded)"
  "ix_cancelled demo_indexer_env calls = False" "ix_size demo_indexer_env j = 60"
  by (simp_all add: demo_indexer_env_def)

lemma demo_indexer_config_fields [simp]:
  "ic_primary_key demo_indexer_config = lit ''id''" "ic_auto_create_index demo_indexer_config"
  "ic_batch_size demo_indexer_config = 1" "ic_max_batch_bytes demo_indexer_config = 1000"
  "ic_wait_for_completion demo_indexer_config" "ic_task_timeout_secs demo_indexer_config = Some 15"
  "ctx_host (ic_meili demo_indexer_config) = Some (lit ''http://m/'')" "ctx_api_key (ic_meili demo_indexer_config) = Some (lit ''k'')"
  "ctx_index (ic_meili demo_indexer_config) = Some (lit ''i'')"
  by (simp_all add: demo_indexer_config_def)

lemma demo_trims:
  "trim (lit ''http://m/'') = lit ''http://m/''" "trim (lit ''k'') = lit ''k''" "trim (lit ''i'') = lit ''i''"
  "trim (lit ''id'') = lit ''id''"
  by (simp_all add: trim_def trim_start_def trim_end_def is_whitespace_def lit_def)

lemma demo_parsed:
  "parse_indexer_config (ix_from_value demo_indexer_env) (ix_debug demo_indexer_env) (JObject [])
     = Inr \<lparr>xp_cfg = demo_indexer_config, xp_index = lit ''i'', xp_host = lit ''http://m/'', xp_api_key = lit ''k''\<rparr>"
  by (simp add: parse_indexer_config_def non_blank_def demo_trims)

lemma demo_wait:
  "wait_for_task demo_indexer_env t what 15 0 calls
     = (Inr None, calls @ (if length calls = 4 then [WaitTask t, WaitTask t] else [WaitTask t]))"
  by (simp add: wait_for_task.simps[of demo_indexer_env] WAIT_SLICE_def Let_def)

lemma demo_ensured:
  "ensure_index demo_indexer_env (lit ''i'') (lit ''id'') True []
     = (Inr (IndexCreating 7), [GetIndex (lit ''i''), CreateIndex (lit ''i'') (lit ''id'')])"
  by (simp add: ensure_index_def is_index_not_found_def)

lemma demo_executed:
  "indexer_execute demo_indexer_env (InDocuments demo_indexed) (JObject [])
     = (Inr (OutIndexed \<lparr>rep_index = lit ''i'', rep_document_count = 2, rep_task_uids = [3, 4]\<rparr>), demo_indexer_calls)"
proof -
  have plan: "plan_batches [60, 60] 1 1000 = Inr [(0, 1), (1, 2)]"
    by code_simp
  then have plan': "plan_batches [60, 60] (Suc 0) 1000 = Inr [(0, Suc 0), (Suc 0, Suc (Suc 0))]"
    by (simp add: numeral_2_eq_2)
  have timeout: "task_timeout None (Some 15) = 15"
    by (simp add: task_timeout_def word_gt_0)
  have "index_documents demo_indexer_env
      \<lparr>xp_cfg = demo_indexer_config, xp_index = lit ''i'', xp_host = lit ''http://m/'', xp_api_key = lit ''k''\<rparr>
      15 (IndexCreating 7) demo_indexed [GetIndex (lit ''i''), CreateIndex (lit ''i'') (lit ''id'')]
    = (Inr (OutIndexed \<lparr>rep_index = lit ''i'', rep_document_count = 2, rep_task_uids = [3, 4]\<rparr>), demo_indexer_calls)"
    by (simp add: index_documents_def demo_indexed_def plan' doc_slice_def addition_primary_key_def check_created_def
        check_creation_def index_creation_def demo_wait demo_indexer_calls_def)
  then show ?thesis
    unfolding indexer_execute_def demo_parsed
    by (simp add: timeout demo_ensured demo_indexed_def)
qed

theorem indexer_reports_what_it_sent_witness:
  "indexed_well demo_indexer_env \<lparr>xp_cfg = demo_indexer_config, xp_index = lit ''i'', xp_host = lit ''http://m/'', xp_api_key = lit ''k''\<rparr>
     (Some (lit ''id'')) demo_indexed demo_indexer_calls (OutIndexed \<lparr>rep_index = lit ''i'', rep_document_count = 2, rep_task_uids = [3, 4]\<rparr>)
   \<and> addition_replies demo_indexer_env [] demo_indexer_calls = [Inr 3, Inr 4]"
  using indexer_reports_what_it_sent[OF demo_parsed _ _ demo_executed]
  by (simp add: demo_indexed_def) (simp add: demo_indexer_calls_def)

text \<open>A document that cannot be serialized is given the size \<open>usize::MAX\<close> to be reported as oversized;
  with the brackets added that size wraps to one and the document passes.\<close>

lemma unserializable_size_wraps: "plan_batches [18446744073709551615] 1000 100 = Inr [(0, 1)]"
  by code_simp

end
