(* ===== verification/Gateway_Auth.thy ===== *)
theory Gateway_Auth
  imports Router Sdk_Types Archive_Files
begin

text \<open>
  \<open>crates/gateway\<close>, who is asking and for whom: the configuration and the checks of boot (\<open>state.rs\<close>), the
  errors (\<open>error.rs\<close>), the context of a request (\<open>context.rs\<close>), the callers of management routes
  (\<open>auth.rs\<close>) and tenant ids (\<open>plugin-sdk/src/tenant.rs\<close>). Headers are the pairs of a \<open>HeaderMap\<close>, names in
  lower case, in their order; the text of a value is \<open>None\<close> when \<open>to_str\<close> refuses it. The lemmas: edge headers
  count only with the edge's secret; a tenant never gets the deployment's own destination; a management
  route answers only a configured token.
\<close>

section \<open>Errors\<close>

datatype gateway_error =
    GwMissingContext rstr | GwBadRequest rstr | GwInvalidTenant rstr | GwUnauthorized rstr | GwForbidden rstr
  | GwPaymentRequired rstr | GwLabUnavailable rstr | GwNotFound rstr | GwAlreadyFinished rstr | GwTooLarge rstr
  | GwUnsupported rstr | GwInvalid rstr | GwUnprocessable rstr | GwNotImplemented rstr | GwUpstream rstr | GwInternal rstr

fun gateway_error_status :: "gateway_error \<Rightarrow> nat" where
  "gateway_error_status (GwMissingContext _) = 400"
| "gateway_error_status (GwBadRequest _) = 400"
| "gateway_error_status (GwInvalidTenant _) = 400"
| "gateway_error_status (GwUnauthorized _) = 401"
| "gateway_error_status (GwForbidden _) = 403"
| "gateway_error_status (GwPaymentRequired _) = 402"
| "gateway_error_status (GwLabUnavailable _) = 503"
| "gateway_error_status (GwNotFound _) = 404"
| "gateway_error_status (GwAlreadyFinished _) = 409"
| "gateway_error_status (GwTooLarge _) = 413"
| "gateway_error_status (GwUnsupported _) = 415"
| "gateway_error_status (GwInvalid _) = 422"
| "gateway_error_status (GwUnprocessable _) = 422"
| "gateway_error_status (GwNotImplemented _) = 501"
| "gateway_error_status (GwUpstream _) = 502"
| "gateway_error_status (GwInternal _) = 500"

fun gateway_error_code :: "gateway_error \<Rightarrow> rstr" where
  "gateway_error_code (GwMissingContext _) = lit ''missing_context''"
| "gateway_error_code (GwBadRequest _) = lit ''bad_request''"
| "gateway_error_code (GwInvalidTenant _) = lit ''invalid_tenant''"
| "gateway_error_code (GwUnauthorized _) = lit ''unauthorized''"
| "gateway_error_code (GwForbidden _) = lit ''forbidden''"
| "gateway_error_code (GwPaymentRequired _) = lit ''insufficient_credits''"
| "gateway_error_code (GwLabUnavailable _) = lit ''lab_unavailable''"
| "gateway_error_code (GwNotFound _) = lit ''not_found''"
| "gateway_error_code (GwAlreadyFinished _) = lit ''already_finished''"
| "gateway_error_code (GwTooLarge _) = lit ''payload_too_large''"
| "gateway_error_code (GwUnsupported _) = lit ''unsupported_media_type''"
| "gateway_error_code (GwInvalid _) = lit ''invalid_pipeline''"
| "gateway_error_code (GwUnprocessable _) = lit ''validation''"
| "gateway_error_code (GwNotImplemented _) = lit ''not_configured''"
| "gateway_error_code (GwUpstream _) = lit ''upstream_error''"
| "gateway_error_code (GwInternal _) = lit ''internal_error''"

text \<open>Its message, with \<open>{:?}\<close> of a string as a parameter.\<close>

fun gateway_error_str :: "(rstr \<Rightarrow> rstr) \<Rightarrow> gateway_error \<Rightarrow> rstr" where
  "gateway_error_str dbg (GwMissingContext m) = lit ''missing Meilisearch context: '' @ m"
| "gateway_error_str dbg (GwInvalidTenant m) = lit ''invalid tenant id: '' @ m"
| "gateway_error_str dbg (GwUnsupported m) = lit ''no pipeline matches content type '' @ dbg m"
| "gateway_error_str dbg (GwInvalid m) = lit ''invalid pipeline: '' @ m"
| "gateway_error_str dbg (GwUpstream m) = lit ''upstream error: '' @ m"
| "gateway_error_str dbg (GwInternal m) = lit ''internal error: '' @ m"
| "gateway_error_str dbg (GwBadRequest m) = m"
| "gateway_error_str dbg (GwUnauthorized m) = m"
| "gateway_error_str dbg (GwForbidden m) = m"
| "gateway_error_str dbg (GwPaymentRequired m) = m"
| "gateway_error_str dbg (GwLabUnavailable m) = m"
| "gateway_error_str dbg (GwNotFound m) = m"
| "gateway_error_str dbg (GwAlreadyFinished m) = m"
| "gateway_error_str dbg (GwTooLarge m) = m"
| "gateway_error_str dbg (GwUnprocessable m) = m"
| "gateway_error_str dbg (GwNotImplemented m) = m"

record error_body =
  eb_error :: rstr
  eb_code :: rstr

definition error_body_of :: "(rstr \<Rightarrow> rstr) \<Rightarrow> gateway_error \<Rightarrow> error_body" where
  "error_body_of dbg e = \<lparr>eb_error = gateway_error_str dbg e, eb_code = gateway_error_code e\<rparr>"

section \<open>Tenant ids\<close>

definition MAX_TENANT_ID_LEN :: nat where "MAX_TENANT_ID_LEN = 128"

definition tenant_char :: "rchar \<Rightarrow> bool" where
  "tenant_char c \<longleftrightarrow> is_ascii_alphanumeric c \<or> c = 46 \<or> c = 95 \<or> c = 58 \<or> c = 45"

definition validate_tenant_id :: "(rchar \<Rightarrow> rstr) \<Rightarrow> rstr \<Rightarrow> rstr + unit" where
  "validate_tenant_id dbg_char tenant =
     (if tenant = [] \<or> MAX_TENANT_ID_LEN < utf8_len tenant
      then Inl (lit ''tenant id must be 1 to '' @ show_nat MAX_TENANT_ID_LEN @ lit '' characters'')
      else (case find (\<lambda>c. \<not> tenant_char c) tenant of
              Some c \<Rightarrow> Inl (lit ''tenant id contains '' @ dbg_char c @ lit ''; allowed characters are A-Z a-z 0-9 . _ : -'')
            | None \<Rightarrow> Inr ()))"

datatype row_scope = ScopeTenant | ScopeGlobal | ScopeBuiltin

definition row_scope_of :: "bool \<Rightarrow> rstr option \<Rightarrow> row_scope" where
  "row_scope_of builtin tenant = (if builtin then ScopeBuiltin else case tenant of Some _ \<Rightarrow> ScopeTenant | None \<Rightarrow> ScopeGlobal)"

section \<open>Configuration\<close>

record gateway_config =
  gc_bind :: rstr
  gc_temporal_url :: rstr
  gc_temporal_namespace :: rstr
  gc_control_plane_url :: rstr
  gc_control_plane_token :: "rstr option"
  gc_meili_url :: "rstr option"
  gc_meili_api_key :: "rstr option"
  gc_default_index :: rstr
  gc_max_upload_mb :: u64
  gc_envoy_trusted_header :: "rstr option"
  gc_blob_store_url :: rstr
  gc_inline_max_bytes :: u64
  gc_cors_allow_origins :: "rstr list"
  gc_write_preflight :: bool
  gc_lab_service_token :: "rstr option"
  gc_admin_api_key :: "rstr option"

definition default_gateway_config :: gateway_config where
  "default_gateway_config = \<lparr>gc_bind = lit ''0.0.0.0:8080'', gc_temporal_url = lit ''http://temporal-frontend:7233'',
     gc_temporal_namespace = lit ''default'', gc_control_plane_url = lit ''http://meili-control-plane:9000'',
     gc_control_plane_token = None, gc_meili_url = None, gc_meili_api_key = None, gc_default_index = lit ''documents'',
     gc_max_upload_mb = 500, gc_envoy_trusted_header = None, gc_blob_store_url = lit ''file://./blobs'',
     gc_inline_max_bytes = 1048576, gc_cors_allow_origins = [], gc_write_preflight = False,
     gc_lab_service_token = None, gc_admin_api_key = None\<rparr>"

text \<open>The process environment, without values that are not Unicode.\<close>

type_synonym env_vars = "rstr \<rightharpoonup> rstr"

definition env_opt :: "env_vars \<Rightarrow> string \<Rightarrow> rstr option" where
  "env_opt vars name = non_blank (vars (lit name))"

definition env_or :: "env_vars \<Rightarrow> string \<Rightarrow> rstr \<Rightarrow> rstr" where
  "env_or vars name fallback = (case env_opt vars name of Some v \<Rightarrow> v | None \<Rightarrow> fallback)"

definition split_list :: "rstr \<Rightarrow> rstr list" where
  "split_list value = filter (\<lambda>s. s \<noteq> []) (map trim (split_on 44 value))"

text \<open>\<open>parse\<close> is \<open>FromStr\<close> of the type, with the text of its error.\<close>

definition env_parse :: "(rstr \<Rightarrow> rstr) \<Rightarrow> env_vars \<Rightarrow> (rstr \<Rightarrow> rstr + 'a) \<Rightarrow> string \<Rightarrow> 'a \<Rightarrow> rstr + 'a" where
  "env_parse dbg vars parse name fallback =
     (case env_opt vars name of
        None \<Rightarrow> Inr fallback
      | Some v \<Rightarrow> (case parse v of
          Inr x \<Rightarrow> Inr x
        | Inl e \<Rightarrow> Inl (lit ''invalid '' @ lit name @ lit ''='' @ dbg v @ lit '': '' @ e)))"

definition config_from_env ::
  "(rstr \<Rightarrow> rstr) \<Rightarrow> (rstr \<Rightarrow> rstr + u64) \<Rightarrow> (rstr \<Rightarrow> rstr + bool) \<Rightarrow> env_vars \<Rightarrow> rstr + gateway_config" where
  "config_from_env dbg parse_usize parse_bool vars =
     (let d = default_gateway_config in
      try_bind (env_parse dbg vars parse_usize ''MAX_UPLOAD_MB'' (gc_max_upload_mb d)) (\<lambda>max_upload.
      try_bind (env_parse dbg vars parse_usize ''INLINE_MAX_BYTES'' (gc_inline_max_bytes d)) (\<lambda>inline_max.
      try_bind (env_parse dbg vars parse_bool ''WRITE_PREFLIGHT'' (gc_write_preflight d)) (\<lambda>preflight.
        Inr \<lparr>gc_bind = env_or vars ''BIND'' (gc_bind d), gc_temporal_url = env_or vars ''TEMPORAL_URL'' (gc_temporal_url d),
          gc_temporal_namespace = env_or vars ''TEMPORAL_NAMESPACE'' (gc_temporal_namespace d),
          gc_control_plane_url = env_or vars ''CONTROL_PLANE_URL'' (gc_control_plane_url d),
          gc_control_plane_token = env_opt vars ''CONTROL_PLANE_TOKEN'', gc_meili_url = env_opt vars ''MEILI_URL'',
          gc_meili_api_key = env_opt vars ''MEILI_API_KEY'',
          gc_default_index = env_or vars ''DEFAULT_INDEX'' (gc_default_index d), gc_max_upload_mb = max_upload,
          gc_envoy_trusted_header = env_opt vars ''ENVOY_TRUSTED_HEADER'',
          gc_blob_store_url = env_or vars ''BLOB_STORE_URL'' (gc_blob_store_url d), gc_inline_max_bytes = inline_max,
          gc_cors_allow_origins = (case env_opt vars ''CORS_ALLOW_ORIGINS'' of Some v \<Rightarrow> split_list v | None \<Rightarrow> []),
          gc_write_preflight = preflight, gc_lab_service_token = env_opt vars ''LAB_SERVICE_TOKEN'',
          gc_admin_api_key = env_opt vars ''ADMIN_API_KEY''\<rparr>))))"

definition PLACEHOLDER :: rstr where "PLACEHOLDER = lit ''CHANGE_ME''"

definition is_placeholder :: "rstr \<Rightarrow> bool" where
  "is_placeholder value \<longleftrightarrow> trim value = PLACEHOLDER"

fun refuse_placeholders :: "(string \<times> rstr option) list \<Rightarrow> rstr + unit" where
  "refuse_placeholders [] = Inr ()"
| "refuse_placeholders ((name, value) # rest) =
     (if (case value of Some v \<Rightarrow> is_placeholder v | None \<Rightarrow> False)
      then Inl (lit name @ lit '' is the example placeholder CHANGE_ME; set a real secret (openssl rand -hex 32) or leave it unset'')
      else refuse_placeholders rest)"

text \<open>\<open>lab\<close>: whether Lab credentials are configured.\<close>

definition validate_config :: "gateway_config \<Rightarrow> bool \<Rightarrow> rstr + unit" where
  "validate_config cfg lab =
     try_bind (refuse_placeholders [(''CONTROL_PLANE_TOKEN'', gc_control_plane_token cfg),
         (''ADMIN_API_KEY'', gc_admin_api_key cfg), (''ENVOY_TRUSTED_HEADER'', gc_envoy_trusted_header cfg)])
       (\<lambda>_. if lab \<and> gc_envoy_trusted_header cfg = None
             then Inl (lit ''LAB_INSTANCE_ID / LAB_INSTANCE_SECRET are set but ENVOY_TRUSTED_HEADER is not: without the edge secret any client could bill any Lab account with X-Meili-Tenant-Id; set both'')
             else if gc_lab_service_token cfg \<noteq> None \<and> gc_envoy_trusted_header cfg = None
             then Inl (lit ''LAB_SERVICE_TOKEN is set but ENVOY_TRUSTED_HEADER is not: without the edge secret any client could claim a tenant with X-Meili-Tenant-Id; set both'')
             else Inr ())"

definition max_upload_bytes :: "gateway_config \<Rightarrow> u64" where
  "max_upload_bytes cfg = sat_mul (gc_max_upload_mb cfg) (1024 * 1024)"

section \<open>Headers\<close>

type_synonym header_map = "(rstr \<times> rstr option) list"

definition H_HOST :: rstr where "H_HOST = lit ''x-meili-host''"
definition H_API_KEY :: rstr where "H_API_KEY = lit ''x-meili-api-key''"
definition H_TENANT_ID :: rstr where "H_TENANT_ID = lit ''x-meili-tenant-id''"
definition H_PROJECT_ID :: rstr where "H_PROJECT_ID = lit ''x-meili-project-id''"
definition H_INDEX :: rstr where "H_INDEX = lit ''x-meili-index''"
definition H_REGION :: rstr where "H_REGION = lit ''x-meili-region''"
definition H_ENVOY_SECRET :: rstr where "H_ENVOY_SECRET = lit ''x-meili-envoy-secret''"
definition H_GLUTONY_TENANT_ID :: rstr where "H_GLUTONY_TENANT_ID = lit ''x-glutony-tenant-id''"

lemmas header_names = H_HOST_def H_API_KEY_def H_TENANT_ID_def H_PROJECT_ID_def H_INDEX_def H_REGION_def
  H_ENVOY_SECRET_def H_GLUTONY_TENANT_ID_def

definition header :: "header_map \<Rightarrow> rstr \<Rightarrow> rstr option" where
  "header headers name = non_blank (Option.bind (map_of headers name) id)"

definition envoy_headers_trusted :: "header_map \<Rightarrow> gateway_config \<Rightarrow> bool" where
  "envoy_headers_trusted headers cfg =
     (case gc_envoy_trusted_header cfg of None \<Rightarrow> True | Some secret \<Rightarrow> header headers H_ENVOY_SECRET = Some secret)"

definition trusted_header :: "header_map \<Rightarrow> gateway_config \<Rightarrow> rstr \<Rightarrow> rstr option" where
  "trusted_header headers cfg name = (if envoy_headers_trusted headers cfg then header headers name else None)"

definition resolve_tenant_id ::
  "(rchar \<Rightarrow> rstr) \<Rightarrow> header_map \<Rightarrow> gateway_config \<Rightarrow> gateway_error + rstr option" where
  "resolve_tenant_id dbg_char headers cfg =
     (case or_else (trusted_header headers cfg H_TENANT_ID) (trusted_header headers cfg H_PROJECT_ID) of
        None \<Rightarrow> Inr None
      | Some tenant \<Rightarrow> try_bind (map_sum GwInvalidTenant id (validate_tenant_id dbg_char tenant)) (\<lambda>_. Inr (Some tenant)))"

definition bearer_token :: "header_map \<Rightarrow> rstr option" where
  "bearer_token headers =
     Option.bind (header headers (lit ''authorization'')) (\<lambda>raw.
     Option.bind (split_once 32 raw) (\<lambda>(scheme, token).
       if to_ascii_lowercase scheme \<noteq> lit ''bearer'' then None else non_blank (Some token)))"

section \<open>The context of a request\<close>

definition resolve_request_context ::
  "(rchar \<Rightarrow> rstr) \<Rightarrow> header_map \<Rightarrow> rstr option \<Rightarrow> gateway_config \<Rightarrow> gateway_error + meili_context" where
  "resolve_request_context dbg_char headers query_index cfg =
     (let envoy = (\<lambda>name. if envoy_headers_trusted headers cfg then header headers name else None)
      in try_bind (resolve_tenant_id dbg_char headers cfg) (\<lambda>tenant.
        let index = or_else (non_blank query_index) (envoy H_INDEX);
            api_key = or_else (envoy H_API_KEY) (bearer_token headers);
            host = (if tenant = None then or_else (envoy H_HOST) (gc_meili_url cfg) else envoy H_HOST);
            api_key = (if tenant = None then or_else api_key (gc_meili_api_key cfg) else api_key)
        in Inr \<lparr>ctx_tenant_id = tenant, ctx_host = host, ctx_api_key = api_key, ctx_index = index,
             ctx_region = envoy H_REGION\<rparr>))"

definition require_destination :: "meili_context \<Rightarrow> gateway_error + unit" where
  "require_destination c =
     (case (ctx_host c, ctx_api_key c) of
        (Some _, Some _) \<Rightarrow> Inr ()
      | (None, _) \<Rightarrow> Inl (GwMissingContext (lit ''no Meilisearch host: send X-Meili-Host (via Envoy), set MEILI_URL, or name a Meilisearch connection on the pipeline'' @ [39]
             @ lit ''s meili_indexer step''))
      | (Some _, None) \<Rightarrow> Inl (GwMissingContext (lit ''no Meilisearch API key: send X-Meili-Api-Key (via Envoy), Authorization: Bearer <key>, set MEILI_API_KEY, or name a Meilisearch connection on the pipeline'' @ [39]
             @ lit ''s meili_indexer step'')))"

definition resolve_context ::
  "(rchar \<Rightarrow> rstr) \<Rightarrow> header_map \<Rightarrow> rstr option \<Rightarrow> gateway_config \<Rightarrow> gateway_error + meili_context" where
  "resolve_context dbg_char headers query_index cfg =
     try_bind (resolve_request_context dbg_char headers query_index cfg) (\<lambda>c.
       try_bind (require_destination c) (\<lambda>_. Inr c))"

definition resolve_target_index :: "meili_context \<Rightarrow> rstr option \<Rightarrow> rstr \<Rightarrow> rstr \<Rightarrow> rstr \<times> meili_context" where
  "resolve_target_index c pattern mime default_index =
     (let resolved = (case (non_blank pattern, non_blank (ctx_index c)) of
            (Some p, _) \<Rightarrow> p
          | (None, Some existing) \<Rightarrow> existing
          | (None, None) \<Rightarrow> let d = mime_to_default_index mime in if d = lit ''documents'' then default_index else d)
      in (resolved, c\<lparr>ctx_index := Some resolved\<rparr>))"

section \<open>Management\<close>

datatype principal = PrincipalLab | PrincipalAdmin | PrincipalOpen

record scope =
  sc_principal :: principal
  sc_tenant_id :: "rstr option"

definition management_auth_enabled :: "gateway_config \<Rightarrow> bool" where
  "management_auth_enabled cfg \<longleftrightarrow> gc_lab_service_token cfg \<noteq> None \<or> gc_admin_api_key cfg \<noteq> None"

definition token_matches :: "rstr option \<Rightarrow> rstr \<Rightarrow> bool" where
  "token_matches expected got = (case expected of Some e \<Rightarrow> e = got | None \<Rightarrow> False)"

definition management_principal :: "gateway_config \<Rightarrow> rstr \<Rightarrow> principal option" where
  "management_principal cfg token =
     (if token_matches (gc_lab_service_token cfg) token then Some PrincipalLab
      else if token_matches (gc_admin_api_key cfg) token then Some PrincipalAdmin else None)"

definition gateway_authorize :: "(rchar \<Rightarrow> rstr) \<Rightarrow> header_map \<Rightarrow> gateway_config \<Rightarrow> gateway_error + scope" where
  "gateway_authorize dbg_char headers cfg =
     (if \<not> management_auth_enabled cfg
      then try_bind (resolve_tenant_id dbg_char headers cfg) (\<lambda>tenant. Inr \<lparr>sc_principal = PrincipalOpen, sc_tenant_id = tenant\<rparr>)
      else
     (case Option.bind (bearer_token headers) (management_principal cfg) of
        None \<Rightarrow> Inl (GwUnauthorized (lit ''missing or invalid management token''))
      | Some who \<Rightarrow>
     (case header headers H_GLUTONY_TENANT_ID of
        Some t \<Rightarrow> try_bind (map_sum GwInvalidTenant id (validate_tenant_id dbg_char t))
                    (\<lambda>_. Inr \<lparr>sc_principal = who, sc_tenant_id = Some t\<rparr>)
      | None \<Rightarrow> if who = PrincipalLab
                then Inl (GwInvalidTenant (H_GLUTONY_TENANT_ID @ lit '' is required with the Lab service token''))
                else Inr \<lparr>sc_principal = who, sc_tenant_id = None\<rparr>)))"

definition authorize_job_read :: "(rchar \<Rightarrow> rstr) \<Rightarrow> header_map \<Rightarrow> gateway_config \<Rightarrow> gateway_error + rstr option" where
  "authorize_job_read dbg_char headers cfg =
     (if \<not> management_auth_enabled cfg then resolve_tenant_id dbg_char headers cfg
      else if (case bearer_token headers of Some token \<Rightarrow> management_principal cfg token \<noteq> None | None \<Rightarrow> False)
      then try_bind (gateway_authorize dbg_char headers cfg) (\<lambda>s. Inr (sc_tenant_id s))
      else try_bind (resolve_tenant_id dbg_char headers cfg) (\<lambda>t. case t of
             Some tenant \<Rightarrow> Inr (Some tenant)
           | None \<Rightarrow> Inl (GwUnauthorized (lit ''missing or invalid management token, and no trusted edge tenant''))))"

section \<open>Edge headers\<close>

lemma refuse_placeholders_Inr:
  "refuse_placeholders xs = Inr () \<longleftrightarrow> (\<forall>(n, v) \<in> set xs. \<forall>s. v = Some s \<longrightarrow> \<not> is_placeholder s)"
  by (induction xs rule: refuse_placeholders.induct) (auto split: option.splits)

lemma validated_edge:
  assumes "validate_config cfg lab = Inr ()" "lab \<or> gc_lab_service_token cfg \<noteq> None"
  shows "\<exists>s. gc_envoy_trusted_header cfg = Some s \<and> \<not> is_placeholder s"
proof -
  have "refuse_placeholders [(''CONTROL_PLANE_TOKEN'', gc_control_plane_token cfg),
      (''ADMIN_API_KEY'', gc_admin_api_key cfg), (''ENVOY_TRUSTED_HEADER'', gc_envoy_trusted_header cfg)] = Inr ()"
    and "gc_envoy_trusted_header cfg \<noteq> None"
    using assms by (auto simp: validate_config_def try_bind_eq_Inr split: if_splits)
  then show ?thesis
    unfolding refuse_placeholders_Inr by auto
qed

lemma resolve_tenant_id_Some:
  assumes "resolve_tenant_id dc headers cfg = Inr (Some tenant)"
  shows "envoy_headers_trusted headers cfg \<and> validate_tenant_id dc tenant = Inr ()
    \<and> (header headers H_TENANT_ID = Some tenant \<or> header headers H_TENANT_ID = None \<and> header headers H_PROJECT_ID = Some tenant)"
  using assms
  by (auto simp: resolve_tenant_id_def or_else_def trusted_header_def try_bind_eq_Inr map_sum_Inr split: option.splits if_splits)

text \<open>A gateway that reports to the Lab, or that the Lab manages, takes the tenant of an ingest request only
  from a request that carries the edge's secret: with a configuration that passed the checks of boot, a
  request without it has no tenant. That secret is not the published placeholder, and the tenant id is well
  formed.\<close>

theorem edge_secret_guards_tenant:
  assumes "validate_config cfg lab = Inr ()" "lab \<or> gc_lab_service_token cfg \<noteq> None"
    "resolve_tenant_id dc headers cfg = Inr (Some tenant)"
  shows "\<exists>secret. gc_envoy_trusted_header cfg = Some secret \<and> header headers H_ENVOY_SECRET = Some secret
    \<and> \<not> is_placeholder secret \<and> validate_tenant_id dc tenant = Inr ()"
  using validated_edge[OF assms(1,2)] resolve_tenant_id_Some[OF assms(3)] by (auto simp: envoy_headers_trusted_def)

definition demo_edge_config :: gateway_config where
  "demo_edge_config = default_gateway_config\<lparr>gc_envoy_trusted_header := Some (lit ''s3cret''), gc_meili_url := Some (lit ''http://own''),
     gc_meili_api_key := Some (lit ''ownkey''), gc_lab_service_token := Some (lit ''lab''), gc_admin_api_key := Some (lit ''admin'')\<rparr>"

definition demo_edge_headers :: header_map where
  "demo_edge_headers = [(H_ENVOY_SECRET, Some (lit ''s3cret'')), (H_TENANT_ID, Some (lit ''acme'')),
     (H_HOST, Some (lit ''http://h'')), (lit ''authorization'', Some (lit ''Bearer lab'')), (H_GLUTONY_TENANT_ID, Some (lit ''acme''))]"

lemma demo_edge_validated: "validate_config demo_edge_config True = Inr ()"
  by (simp add: validate_config_def demo_edge_config_def default_gateway_config_def is_placeholder_def PLACEHOLDER_def
      trim_def trim_start_def trim_end_def is_whitespace_def lit_def)

lemma demo_edge_tenant: "resolve_tenant_id (\<lambda>c. [c]) demo_edge_headers demo_edge_config = Inr (Some (lit ''acme''))"
  by (simp add: resolve_tenant_id_def demo_edge_headers_def demo_edge_config_def default_gateway_config_def header_names
      trusted_header_def envoy_headers_trusted_def header_def non_blank_def or_else_def validate_tenant_id_def
      MAX_TENANT_ID_LEN_def tenant_char_def is_ascii_alphanumeric_def utf8_char_len_def
      trim_def trim_start_def trim_end_def) (simp add: lit_def is_whitespace_def utf8_char_len_def)

theorem edge_secret_guards_tenant_witness:
  "\<exists>secret. gc_envoy_trusted_header demo_edge_config = Some secret \<and> header demo_edge_headers H_ENVOY_SECRET = Some secret
    \<and> \<not> is_placeholder secret \<and> validate_tenant_id (\<lambda>c. [c]) (lit ''acme'') = Inr ()"
  using edge_secret_guards_tenant[OF demo_edge_validated _ demo_edge_tenant] by simp

section \<open>The context is the tenant's own\<close>

lemma map_of_filter_fst: "P k \<Longrightarrow> map_of (filter (\<lambda>p. P (fst p)) xs) k = map_of xs k"
  by (induction xs) auto

lemma map_of_filter_out: "\<not> P k \<Longrightarrow> map_of (filter (\<lambda>p. P (fst p)) xs) k = None"
  by (induction xs) auto

definition without_edge_headers :: "header_map \<Rightarrow> header_map" where
  "without_edge_headers = filter (\<lambda>p. \<not> starts_with (fst p) (lit ''x-meili-''))"

lemma bearer_without_edge: "bearer_token (without_edge_headers headers) = bearer_token headers"
proof -
  have "\<not> starts_with (lit ''authorization'') (lit ''x-meili-'')"
    by (simp add: starts_with_def lit_def)
  then have "header (without_edge_headers headers) (lit ''authorization'') = header headers (lit ''authorization'')"
    by (simp add: header_def without_edge_headers_def map_of_filter_fst[where P = "\<lambda>n. \<not> starts_with n (lit ''x-meili-'')"])
  then show ?thesis
    by (simp add: bearer_token_def)
qed

lemma secret_without_edge: "header (without_edge_headers headers) H_ENVOY_SECRET = None"
proof -
  have "starts_with H_ENVOY_SECRET (lit ''x-meili-'')"
    by (simp add: starts_with_def lit_def H_ENVOY_SECRET_def)
  then show ?thesis
    by (simp add: header_def without_edge_headers_def map_of_filter_out[where P = "\<lambda>n. \<not> starts_with n (lit ''x-meili-'')"] non_blank_def)
qed

lemma untrusted_context:
  assumes "\<not> envoy_headers_trusted headers cfg"
  shows "resolve_request_context dc headers q cfg = Inr \<lparr>ctx_tenant_id = None, ctx_host = gc_meili_url cfg,
    ctx_api_key = or_else (bearer_token headers) (gc_meili_api_key cfg), ctx_index = non_blank q, ctx_region = None\<rparr>"
  using assms
  by (auto simp: resolve_request_context_def resolve_tenant_id_def trusted_header_def or_else_def Let_def split: option.splits)

lemma untrusted_without_edge:
  "\<not> envoy_headers_trusted headers cfg \<Longrightarrow> \<not> envoy_headers_trusted (without_edge_headers headers) cfg"
  by (auto simp: envoy_headers_trusted_def secret_without_edge split: option.splits)

lemma trusted_unchanged [simp]:
  "envoy_headers_trusted headers (cfg\<lparr>gc_meili_url := u, gc_meili_api_key := k\<rparr>) = envoy_headers_trusted headers cfg"
  by (simp add: envoy_headers_trusted_def)

lemma tenant_unchanged [simp]:
  "resolve_tenant_id dc headers (cfg\<lparr>gc_meili_url := u, gc_meili_api_key := k\<rparr>) = resolve_tenant_id dc headers cfg"
  by (simp add: resolve_tenant_id_def trusted_header_def)

text \<open>C29. Whose destination a request gets. A request with a tenant never falls back to the deployment's own
  Meilisearch: its context does not depend on \<open>MEILI_URL\<close> or \<open>MEILI_API_KEY\<close>. A request without the edge's
  secret, where one is configured, is answered as if it had sent no \<open>X-Meili-*\<close> header at all, and has no
  tenant.\<close>

theorem request_context_isolated:
  assumes "resolve_request_context dc headers q cfg = Inr c"
  shows "(ctx_tenant_id c \<noteq> None \<longrightarrow>
      (\<forall>u k. resolve_request_context dc headers q (cfg\<lparr>gc_meili_url := u, gc_meili_api_key := k\<rparr>) = Inr c))
    \<and> (\<not> envoy_headers_trusted headers cfg \<longrightarrow>
      ctx_tenant_id c = None \<and> resolve_request_context dc (without_edge_headers headers) q cfg = Inr c)"
proof (intro conjI impI allI)
  fix u k
  assume "ctx_tenant_id c \<noteq> None"
  then obtain t where t: "resolve_tenant_id dc headers cfg = Inr (Some t)"
    using assms by (auto simp: resolve_request_context_def try_bind_eq_Inr Let_def)
  then show "resolve_request_context dc headers q (cfg\<lparr>gc_meili_url := u, gc_meili_api_key := k\<rparr>) = Inr c"
    using assms by (simp add: resolve_request_context_def)
next
  assume u: "\<not> envoy_headers_trusted headers cfg"
  show "ctx_tenant_id c = None"
    using assms untrusted_context[OF u] by auto
  show "resolve_request_context dc (without_edge_headers headers) q cfg = Inr c"
    using assms untrusted_context[OF u] untrusted_context[OF untrusted_without_edge[OF u]] by (simp add: bearer_without_edge)
qed

lemma demo_edge_context:
  "resolve_request_context (\<lambda>c. [c]) demo_edge_headers None demo_edge_config = Inr \<lparr>ctx_tenant_id = Some (lit ''acme''),
     ctx_host = Some (lit ''http://h''), ctx_api_key = bearer_token demo_edge_headers, ctx_index = None, ctx_region = None\<rparr>"
  unfolding resolve_request_context_def demo_edge_tenant
  by (simp add: demo_edge_headers_def demo_edge_config_def default_gateway_config_def header_names
      envoy_headers_trusted_def header_def non_blank_def or_else_def trim_def trim_start_def trim_end_def)
    (simp add: lit_def is_whitespace_def)

theorem request_context_isolated_witness:
  "resolve_request_context (\<lambda>c. [c]) demo_edge_headers None (demo_edge_config\<lparr>gc_meili_url := None, gc_meili_api_key := None\<rparr>)
     = Inr \<lparr>ctx_tenant_id = Some (lit ''acme''), ctx_host = Some (lit ''http://h''),
         ctx_api_key = bearer_token demo_edge_headers, ctx_index = None, ctx_region = None\<rparr>"
  using request_context_isolated[OF demo_edge_context] by simp

section \<open>Management\<close>

lemma management_principal_Some:
  "management_principal cfg token = Some who \<longleftrightarrow>
     (who = PrincipalLab \<and> gc_lab_service_token cfg = Some token
      \<or> who = PrincipalAdmin \<and> gc_lab_service_token cfg \<noteq> Some token \<and> gc_admin_api_key cfg = Some token)"
  by (auto simp: management_principal_def token_matches_def split: option.splits)

definition caller_known :: "gateway_config \<Rightarrow> header_map \<Rightarrow> scope \<Rightarrow> bool" where
  "caller_known cfg headers s \<longleftrightarrow>
     (case bearer_token headers of None \<Rightarrow> False
      | Some token \<Rightarrow> (case sc_principal s of
            PrincipalLab \<Rightarrow> gc_lab_service_token cfg = Some token \<and> sc_tenant_id s \<noteq> None
          | PrincipalAdmin \<Rightarrow> gc_admin_api_key cfg = Some token
          | PrincipalOpen \<Rightarrow> False))
     \<and> sc_tenant_id s = header headers H_GLUTONY_TENANT_ID"

lemma authorized_caller:
  assumes "management_auth_enabled cfg" "gateway_authorize dc headers cfg = Inr s"
  shows "caller_known cfg headers s"
  using assms
  by (auto simp: gateway_authorize_def caller_known_def management_principal_Some try_bind_eq_Inr map_sum_Inr bind_eq_Some_conv
      split: option.splits if_splits)

text \<open>C30. With a management secret configured, a management request is answered only for a caller that presents
  it, the Lab's token only together with a tenant, and for the tenant named in the management header, never one of the
  edge. The same holds of reading a job, where the tenant may instead come from the trusted edge; all jobs
  are readable to an administrator only.\<close>

theorem management_needs_token:
  assumes "management_auth_enabled cfg"
  shows "(\<forall>s. gateway_authorize dc headers cfg = Inr s \<longrightarrow> caller_known cfg headers s)
    \<and> (\<forall>t. authorize_job_read dc headers cfg = Inr t \<longrightarrow>
        caller_known cfg headers \<lparr>sc_principal = PrincipalAdmin, sc_tenant_id = t\<rparr>
        \<or> (\<exists>tenant. t = Some tenant \<and> (caller_known cfg headers \<lparr>sc_principal = PrincipalLab, sc_tenant_id = t\<rparr>
            \<or> envoy_headers_trusted headers cfg \<and> validate_tenant_id dc tenant = Inr ()
              \<and> (header headers H_TENANT_ID = Some tenant \<or> header headers H_PROJECT_ID = Some tenant))))"
proof (intro conjI allI impI)
  fix s
  assume "gateway_authorize dc headers cfg = Inr s"
  then show "caller_known cfg headers s"
    using authorized_caller assms by blast
next
  fix t
  assume read: "authorize_job_read dc headers cfg = Inr t"
  let ?admin = "caller_known cfg headers \<lparr>sc_principal = PrincipalAdmin, sc_tenant_id = t\<rparr>"
  let ?lab = "caller_known cfg headers \<lparr>sc_principal = PrincipalLab, sc_tenant_id = t\<rparr>"
  from read consider (manage) s where "gateway_authorize dc headers cfg = Inr s" "t = sc_tenant_id s"
    | (edge) tenant where "resolve_tenant_id dc headers cfg = Inr (Some tenant)" "t = Some tenant"
    using assms by (auto simp: authorize_job_read_def try_bind_eq_Inr split: if_splits option.splits)
  then show "?admin \<or> (\<exists>tenant. t = Some tenant \<and> (?lab \<or> envoy_headers_trusted headers cfg \<and> validate_tenant_id dc tenant = Inr ()
      \<and> (header headers H_TENANT_ID = Some tenant \<or> header headers H_PROJECT_ID = Some tenant)))"
  proof cases
    case manage
    then show ?thesis
      using authorized_caller[OF assms manage(1)]
      by (cases "sc_principal s") (auto simp: caller_known_def split: option.splits)
  next
    case edge
    then show ?thesis
      using resolve_tenant_id_Some[OF edge(1)] by blast
  qed
qed

lemma demo_bearer: "bearer_token demo_edge_headers = Some (lit ''lab'')"
  by (simp add: bearer_token_def demo_edge_headers_def header_names header_def non_blank_def trim_def trim_start_def trim_end_def)
    (simp add: lit_def is_whitespace_def split_once_def to_ascii_lowercase_def ascii_lower_char_def non_blank_def trim_def
      trim_start_def trim_end_def)

lemma demo_management:
  "management_auth_enabled demo_edge_config" "management_principal demo_edge_config (lit ''lab'') = Some PrincipalLab"
  by (simp_all add: management_auth_enabled_def management_principal_def token_matches_def demo_edge_config_def)

lemma demo_managed: "gateway_authorize (\<lambda>c. [c]) demo_edge_headers demo_edge_config
    = Inr \<lparr>sc_principal = PrincipalLab, sc_tenant_id = Some (lit ''acme'')\<rparr>"
proof -
  have tenant: "header demo_edge_headers H_GLUTONY_TENANT_ID = Some (lit ''acme'')"
    by (simp add: demo_edge_headers_def header_names header_def non_blank_def trim_def trim_start_def trim_end_def)
      (simp add: lit_def is_whitespace_def)
  have "validate_tenant_id (\<lambda>c. [c]) (lit ''acme'') = Inr ()"
    using resolve_tenant_id_Some[OF demo_edge_tenant] by simp
  then show ?thesis
    by (simp add: gateway_authorize_def demo_bearer demo_management tenant)
qed

theorem management_needs_token_witness:
  "caller_known demo_edge_config demo_edge_headers \<lparr>sc_principal = PrincipalLab, sc_tenant_id = Some (lit ''acme'')\<rparr>"
  using management_needs_token[of demo_edge_config "\<lambda>c. [c]" demo_edge_headers] demo_management(1) demo_managed by blast

end
