(* ===== verification/Gateway_Extract.thy ===== *)
theory Gateway_Extract
  imports Gateway_Auth Plugin_Host
begin

text \<open>
  \<open>crates/gateway/src/extract.rs\<close> and \<open>handlers/mod.rs\<close>: what a request asks to ingest. Parameters: the
  tables and sniffers of MIME detection, serde_json, the display of JSON numbers and values, random ids and
  what axum makes of the body (its parts, its rejections). The lemmas: what the index gets of a document of the
  body, field by field; what a body that is refused is answered.
\<close>

datatype ingest_payload =
    PayFile blob
  | PayUrl rstr "rstr option"
  | PayS3 rstr "rstr option"
  | PayDocuments "document list"
  | PayBatch "ingest_payload list"

text \<open>Id \<open>n\<close> of item \<open>i\<close> is \<open>xe_uuid i n\<close>.\<close>

record extract_env =
  xe_infer :: "nat list \<Rightarrow> rstr option"
  xe_guess_ext :: "rstr \<Rightarrow> rstr option"
  xe_json_valid :: "nat list \<Rightarrow> bool"
  xe_guess_path :: "rstr \<Rightarrow> rstr option"
  xe_from_slice :: "byte list \<Rightarrow> rstr + json"
  xe_from_str :: "rstr \<Rightarrow> rstr + json"
  xe_show_number :: "jnumber \<Rightarrow> rstr"
  xe_show_json :: "json \<Rightarrow> rstr"
  xe_uuid :: "nat \<Rightarrow> nat \<Rightarrow> rstr"
  xe_debug :: "rstr \<Rightarrow> rstr"

section \<open>Names and types\<close>

fun after_authority_marker :: "rstr \<Rightarrow> rstr option" where
  "after_authority_marker [] = None"
| "after_authority_marker (c # s) =
     (if starts_with (c # s) (lit ''://'') then Some (drop 3 (c # s)) else after_authority_marker s)"

definition basename_of :: "rstr \<Rightarrow> rstr option" where
  "basename_of location =
     (let no_query = split_first (\<lambda>c. c = 63 \<or> c = 35) location;
          rest = (case after_authority_marker no_query of Some r \<Rightarrow> r | None \<Rightarrow> no_query);
          trimmed = rev (dropWhile (\<lambda>c. c = 47) (rev rest))
      in Option.bind (rsplit_once 47 trimmed) (\<lambda>(_, name). non_blank (Some name)))"

fun payload_filename :: "ingest_payload \<Rightarrow> rstr option" where
  "payload_filename (PayFile b) = blob_filename b"
| "payload_filename (PayUrl url filename) = or_else filename (basename_of url)"
| "payload_filename (PayS3 uri filename) = or_else filename (basename_of uri)"
| "payload_filename (PayDocuments _) = None"
| "payload_filename (PayBatch _) = None"

fun payload_mime :: "extract_env \<Rightarrow> ingest_payload \<Rightarrow> rstr option" where
  "payload_mime env (PayFile b) = Some (blob_mime b)"
| "payload_mime env (PayDocuments _) = Some (lit ''application/json'')"
| "payload_mime env (PayBatch _) = None"
| "payload_mime env p =
     Some (case Option.bind (payload_filename p) (xe_guess_path env) of Some m \<Rightarrow> m | None \<Rightarrow> lit ''application/octet-stream'')"

record extracted =
  ex_payload :: ingest_payload
  ex_index :: "rstr option"
  ex_pipeline :: "rstr option"

definition is_multipart :: "rstr option \<Rightarrow> bool" where
  "is_multipart content_type =
     (case content_type of None \<Rightarrow> False
      | Some ct \<Rightarrow> starts_with (to_ascii_lowercase (trim ct)) (lit ''multipart/form-data''))"

definition is_json :: "rstr option \<Rightarrow> bool" where
  "is_json content_type =
     (case content_type of None \<Rightarrow> False
      | Some ct \<Rightarrow> (let essence = to_ascii_lowercase (trim (split_first (\<lambda>c. c = 59) ct))
                   in essence = lit ''application/json'' \<or> ends_with essence (lit ''+json'')))"

definition file_payload :: "extract_env \<Rightarrow> byte list \<Rightarrow> rstr option \<Rightarrow> rstr option \<Rightarrow> ingest_payload" where
  "file_payload env data filename content_type_hint =
     (let filename = non_blank filename;
          hint = non_blank (map_option (split_first (\<lambda>c. c = 59)) content_type_hint);
          mime = detect_mime (xe_infer env) (xe_guess_ext env) (xe_json_valid env) (map unat data) filename hint
      in PayFile \<lparr>blob_data = data, blob_mime = mime, blob_filename = filename\<rparr>)"

section \<open>JSON bodies\<close>

definition str_field :: "jmap \<Rightarrow> rstr \<Rightarrow> rstr option" where
  "str_field obj key = non_blank (Option.bind (bt_get obj key) json_as_str)"

fun find_content :: "rstr list \<Rightarrow> jmap \<Rightarrow> rstr option \<times> jmap" where
  "find_content [] obj = (None, obj)"
| "find_content (key # keys) obj =
     (case bt_get obj key of Some (JString s) \<Rightarrow> (Some s, bt_remove key obj) | _ \<Rightarrow> find_content keys obj)"

definition CONTENT_KEYS :: "rstr list" where
  "CONTENT_KEYS = [lit ''content'', lit ''text'', lit ''body'']"

definition document_from_json :: "extract_env \<Rightarrow> rstr \<Rightarrow> json \<Rightarrow> gateway_error + document" where
  "document_from_json env fresh v =
     (case v of
        JObject obj \<Rightarrow>
          let id_value = bt_get obj (lit ''id''); obj = bt_remove (lit ''id'') obj
          in try_bind
              (case id_value of
                 Some (JString s) \<Rightarrow>
                   if trim s \<noteq> [] then Inr (sanitize_id fresh (trim s))
                   else Inl (GwBadRequest (lit ''`id` must be a string or number, got '' @ xe_show_json env (JString s)))
               | Some (JNumber n) \<Rightarrow> Inr (xe_show_number env n)
               | Some JNull \<Rightarrow> Inr fresh
               | None \<Rightarrow> Inr fresh
               | Some other \<Rightarrow> Inl (GwBadRequest (lit ''`id` must be a string or number, got '' @ xe_show_json env other)))
              (\<lambda>doc_id.
                 let title = (case bt_get obj (lit ''title'') of
                       Some (JString s) \<Rightarrow> Some s | Some JNull \<Rightarrow> None | None \<Rightarrow> None
                     | Some other \<Rightarrow> Some (xe_show_json env other));
                     obj = bt_remove (lit ''title'') obj;
                     (content, obj) = find_content CONTENT_KEYS obj
                 in Inr \<lparr>doc_id = doc_id, doc_title = title,
                      doc_content = (case content of Some s \<Rightarrow> s
                        | None \<Rightarrow> join_with [32] (List.map_filter json_as_str (map snd obj))),
                      doc_fields = obj, doc_meta = default_meta\<rparr>)
      | _ \<Rightarrow> Inl (GwBadRequest (lit ''each document must be a JSON object'')))"

fun documents_loop :: "extract_env \<Rightarrow> nat \<Rightarrow> nat \<Rightarrow> json list \<Rightarrow> gateway_error + document list" where
  "documents_loop env item i [] = Inr []"
| "documents_loop env item i (v # vs) =
     try_bind (map_sum (\<lambda>e. GwBadRequest (lit ''documents['' @ show_nat i @ lit '']: '' @ gateway_error_str (xe_debug env) e)) id
          (document_from_json env (xe_uuid env item i) v)) (\<lambda>d.
       try_bind (documents_loop env item (i + 1) vs) (\<lambda>ds. Inr (d # ds)))"

definition documents_from_json :: "extract_env \<Rightarrow> nat \<Rightarrow> json \<Rightarrow> gateway_error + document list" where
  "documents_from_json env item v =
     try_bind (case v of JArray a \<Rightarrow> Inr a | JObject _ \<Rightarrow> Inr [v]
               | _ \<Rightarrow> Inl (GwBadRequest (lit ''`documents` must be an array of objects''))) (\<lambda>items.
       if items = [] then Inl (GwBadRequest (lit ''`documents` must not be empty''))
       else documents_loop env item 0 items)"

definition single_from_object :: "extract_env \<Rightarrow> nat \<Rightarrow> json \<Rightarrow> gateway_error + ingest_payload" where
  "single_from_object env item v =
     (case v of
        JObject obj \<Rightarrow>
          let filename = str_field obj (lit ''filename'') in
          (case str_field obj (lit ''url'') of Some url \<Rightarrow> Inr (PayUrl url filename)
           | None \<Rightarrow>
          (case str_field obj (lit ''s3'') of Some uri \<Rightarrow> Inr (PayS3 uri filename)
           | None \<Rightarrow>
          (case bt_get obj (lit ''documents'') of Some docs \<Rightarrow> map_sum id PayDocuments (documents_from_json env item docs)
           | None \<Rightarrow> Inl (GwBadRequest (lit ''JSON body must contain `url`, `s3`, `documents` or `items`'')))))
      | _ \<Rightarrow> Inl (GwBadRequest (lit ''expected a JSON object'')))"

fun batch_loop :: "extract_env \<Rightarrow> nat \<Rightarrow> json list \<Rightarrow> gateway_error + ingest_payload list" where
  "batch_loop env i [] = Inr []"
| "batch_loop env i (v # vs) =
     (if \<not> json_is_object v then Inl (GwBadRequest (lit ''items['' @ show_nat i @ lit ''] must be an object''))
      else try_bind (map_sum (\<lambda>e. GwBadRequest (lit ''items['' @ show_nat i @ lit '']: '' @ gateway_error_str (xe_debug env) e)) id
             (single_from_object env i v)) (\<lambda>p.
           try_bind (batch_loop env (i + 1) vs) (\<lambda>ps. Inr (p # ps))))"

definition payload_from_json :: "extract_env \<Rightarrow> json \<Rightarrow> gateway_error + extracted" where
  "payload_from_json env v =
     (case v of
        JArray _ \<Rightarrow> try_bind (documents_from_json env 0 v) (\<lambda>docs.
          Inr \<lparr>ex_payload = PayDocuments docs, ex_index = None, ex_pipeline = None\<rparr>)
      | JObject obj \<Rightarrow>
          try_bind (case bt_get obj (lit ''items'') of
              Some (JArray items) \<Rightarrow> map_sum id PayBatch (batch_loop env 0 items)
            | Some _ \<Rightarrow> Inl (GwBadRequest (lit ''`items` must be an array''))
            | None \<Rightarrow> single_from_object env 0 v) (\<lambda>payload.
            Inr \<lparr>ex_payload = payload, ex_index = str_field obj (lit ''index''), ex_pipeline = str_field obj (lit ''pipeline'')\<rparr>)
      | _ \<Rightarrow> Inl (GwBadRequest (lit ''JSON body must be an object or an array of documents'')))"

section \<open>Forms and raw bodies\<close>

text \<open>A rejection of axum: its status and text. A part of a form, with what reading it as bytes and as text
  gives; the parts end with a rejection or without.\<close>

type_synonym rejection = "nat \<times> rstr"

record form_part =
  mp_name :: "rstr option"
  mp_file_name :: "rstr option"
  mp_content_type :: "rstr option"
  mp_bytes :: "rejection + byte list"
  mp_text :: "rejection + rstr"

definition multipart_error :: "rejection \<Rightarrow> gateway_error" where
  "multipart_error e =
     (if fst e = 413 then GwTooLarge (lit ''multipart upload exceeds the configured size limit'')
      else GwBadRequest (lit ''invalid multipart body: '' @ snd e))"

record form_fields =
  ff_file :: "(byte list \<times> rstr option \<times> rstr option) option"
  ff_url :: "rstr option"
  ff_s3 :: "rstr option"
  ff_documents :: "rstr option"
  ff_index :: "rstr option"
  ff_pipeline :: "rstr option"
  ff_filename :: "rstr option"

definition no_fields :: form_fields where
  "no_fields = \<lparr>ff_file = None, ff_url = None, ff_s3 = None, ff_documents = None, ff_index = None, ff_pipeline = None,
     ff_filename = None\<rparr>"

definition take_part :: "form_part \<Rightarrow> form_fields \<Rightarrow> gateway_error + form_fields" where
  "take_part part f =
     (let name = (case mp_name part of Some n \<Rightarrow> n | None \<Rightarrow> []);
          txt = (\<lambda>set. map_sum multipart_error (\<lambda>t. set (non_blank (Some t))) (mp_text part));
          bytes = (\<lambda>set. map_sum multipart_error set (mp_bytes part))
      in if name = lit ''file'' then bytes (\<lambda>d. f\<lparr>ff_file := Some (d, mp_file_name part, mp_content_type part)\<rparr>)
         else if name = lit ''url'' then txt (\<lambda>t. f\<lparr>ff_url := t\<rparr>)
         else if name = lit ''s3'' then txt (\<lambda>t. f\<lparr>ff_s3 := t\<rparr>)
         else if name = lit ''documents'' then txt (\<lambda>t. f\<lparr>ff_documents := t\<rparr>)
         else if name = lit ''index'' then txt (\<lambda>t. f\<lparr>ff_index := t\<rparr>)
         else if name = lit ''pipeline'' then txt (\<lambda>t. f\<lparr>ff_pipeline := t\<rparr>)
         else if name = lit ''filename'' then txt (\<lambda>t. f\<lparr>ff_filename := t\<rparr>)
         else bytes (\<lambda>_. f))"

fun take_parts :: "(rejection + form_part) list \<Rightarrow> form_fields \<Rightarrow> gateway_error + form_fields" where
  "take_parts [] f = Inr f"
| "take_parts (Inl e # _) f = Inl (multipart_error e)"
| "take_parts (Inr p # ps) f = try_bind (take_part p f) (take_parts ps)"

definition form_payload :: "extract_env \<Rightarrow> form_fields \<Rightarrow> gateway_error + ingest_payload" where
  "form_payload env f =
     (case ff_file f of
        Some (data, filename, ct) \<Rightarrow> Inr (file_payload env data (or_else (ff_filename f) filename) ct)
      | None \<Rightarrow>
     (case ff_url f of Some url \<Rightarrow> Inr (PayUrl url (ff_filename f))
      | None \<Rightarrow>
     (case ff_s3 f of Some uri \<Rightarrow> Inr (PayS3 uri (ff_filename f))
      | None \<Rightarrow>
     (case ff_documents f of
        Some t \<Rightarrow> (case xe_from_str env t of
            Inl e \<Rightarrow> Inl (GwBadRequest (lit ''`documents` field is not valid JSON: '' @ e))
          | Inr v \<Rightarrow> map_sum id PayDocuments (documents_from_json env 0 v))
      | None \<Rightarrow> Inl (GwBadRequest (lit ''multipart form must contain a `file`, `url`, `s3` or `documents` field''))))))"

definition extract_multipart :: "extract_env \<Rightarrow> (rejection + form_part) list \<Rightarrow> gateway_error + extracted" where
  "extract_multipart env parts =
     try_bind (take_parts parts no_fields) (\<lambda>f.
       try_bind (form_payload env f) (\<lambda>payload.
         Inr \<lparr>ex_payload = payload, ex_index = ff_index f, ex_pipeline = ff_pipeline f\<rparr>))"

definition extract_payload ::
  "extract_env \<Rightarrow> rstr option \<Rightarrow> byte list \<Rightarrow> (rejection + form_part) list option \<Rightarrow> rstr option \<Rightarrow> gateway_error + extracted" where
  "extract_payload env content_type body multipart filename_hint =
     (case multipart of
        Some parts \<Rightarrow> extract_multipart env parts
      | None \<Rightarrow>
          if is_json content_type
          then if body = [] then Inl (GwBadRequest (lit ''empty JSON body''))
               else (case xe_from_slice env body of
                       Inl e \<Rightarrow> Inl (GwBadRequest (lit ''invalid JSON: '' @ e))
                     | Inr v \<Rightarrow> payload_from_json env v)
          else if body = []
          then Inl (GwBadRequest (lit ''empty body: upload a file (multipart `file` field or raw body) or send a JSON body with `url`, `s3` or `documents`''))
          else Inr \<lparr>ex_payload = file_payload env body filename_hint content_type, ex_index = None, ex_pipeline = None\<rparr>)"

section \<open>The request\<close>

type_synonym query_params = "rstr \<rightharpoonup> rstr"

definition query_param :: "query_params \<Rightarrow> string \<Rightarrow> rstr option" where
  "query_param query name = non_blank (query (lit name))"

definition trim_quotes :: "rstr \<Rightarrow> rstr" where
  "trim_quotes s = rev (dropWhile (\<lambda>c. c = 34) (rev (dropWhile (\<lambda>c. c = 34) s)))"

definition disposition_part :: "rstr \<Rightarrow> rstr option" where
  "disposition_part part =
     Option.bind (split_once 61 (trim part)) (\<lambda>(key, value).
       if to_ascii_lowercase (trim key) \<noteq> lit ''filename'' then None else non_blank (Some (trim_quotes (trim value))))"

fun find_map :: "('a \<Rightarrow> 'b option) \<Rightarrow> 'a list \<Rightarrow> 'b option" where
  "find_map f [] = None"
| "find_map f (x # xs) = or_else (f x) (find_map f xs)"

definition content_disposition_filename :: "header_map \<Rightarrow> rstr option" where
  "content_disposition_filename headers =
     Option.bind (Option.bind (map_of headers (lit ''content-disposition'')) id) (\<lambda>raw. find_map disposition_part (split_on 59 raw))"

text \<open>The request as axum reads it: as a form and as bytes.\<close>

record request_body =
  rb_form :: "rejection + (rejection + form_part) list"
  rb_bytes :: "rejection + byte list"

definition read_payload :: "extract_env \<Rightarrow> header_map \<Rightarrow> query_params \<Rightarrow> request_body \<Rightarrow> gateway_error + extracted" where
  "read_payload env headers query req =
     (let content_type = Option.bind (map_of headers (lit ''content-type'')) id;
          hint = or_else (query_param query ''filename'') (content_disposition_filename headers)
      in if is_multipart content_type
         then (case rb_form req of
                 Inl e \<Rightarrow> Inl (if fst e = 413 then GwTooLarge (lit ''upload exceeds the configured size limit'')
                              else GwBadRequest (lit ''invalid multipart request: '' @ snd e))
               | Inr parts \<Rightarrow> extract_payload env content_type [] (Some parts) hint)
         else (case rb_bytes req of
                 Inl e \<Rightarrow> Inl (if fst e = 413 then GwTooLarge (lit ''request body exceeds the configured size limit'')
                              else GwBadRequest (lit ''cannot read request body: '' @ snd e))
               | Inr body \<Rightarrow> extract_payload env content_type body None hint))"

section \<open>Inline documents\<close>

lemma find_content_result:
  assumes "find_content keys obj = (found, obj')"
  shows "case found of None \<Rightarrow> obj' = obj \<and> (\<forall>k \<in> set keys. \<forall>s. bt_get obj k \<noteq> Some (JString s))
    | Some s \<Rightarrow> (\<exists>k \<in> set keys. bt_get obj k = Some (JString s) \<and> obj' = bt_remove k obj)"
  using assms
proof (induction keys)
  case (Cons k keys)
  show ?case
  proof (cases "\<exists>s. bt_get obj k = Some (JString s)")
    case True
    then show ?thesis
      using Cons.prems by auto
  next
    case False
    then have "find_content keys obj = (found, obj')"
      using Cons.prems by (auto split: option.splits json.splits)
    then show ?thesis
      using Cons.IH False by (cases found) auto
  qed
qed simp

text \<open>What a document of the body becomes.\<close>

definition document_keeps :: "jmap \<Rightarrow> document \<Rightarrow> bool" where
  "document_keeps obj d \<longleftrightarrow> bt_inv (doc_fields d)
     \<and> (\<exists>used. set used \<subseteq> set CONTENT_KEYS \<and> length used \<le> 1
          \<and> (\<forall>k. bt_get (doc_fields d) k = (if k \<in> set (lit ''id'' # lit ''title'' # used) then None else bt_get obj k))
          \<and> (\<forall>k \<in> set used. bt_get obj k = Some (JString (doc_content d))))
     \<and> (case bt_get obj (lit ''title'') of Some (JString t) \<Rightarrow> doc_title d = Some t | None \<Rightarrow> doc_title d = None | _ \<Rightarrow> True)"

lemma content_keys_distinct: "lit ''id'' \<notin> set CONTENT_KEYS" "lit ''title'' \<notin> set CONTENT_KEYS"
  by (auto simp: CONTENT_KEYS_def)

lemma document_from_json_keeps:
  assumes inv: "bt_inv obj" and d: "document_from_json env fresh (JObject obj) = Inr d"
  shows "document_keeps obj d"
proof -
  let ?rest = "bt_remove (lit ''title'') (bt_remove (lit ''id'') obj)"
  obtain found fields where f: "find_content CONTENT_KEYS ?rest = (found, fields)"
    by fastforce
  have get: "bt_get ?rest k = (if k = lit ''id'' \<or> k = lit ''title'' then None else bt_get obj k)" for k
    by (simp add: bt_get_remove)
  have flds: "doc_fields d = fields" and cont: "\<forall>s. found = Some s \<longrightarrow> doc_content d = s"
    and title: "doc_title d = (case bt_get (bt_remove (lit ''id'') obj) (lit ''title'') of
        Some (JString s) \<Rightarrow> Some s | Some JNull \<Rightarrow> None | None \<Rightarrow> None | Some other \<Rightarrow> Some (xe_show_json env other))"
    using d f by (auto simp: document_from_json_def Let_def try_bind_eq_Inr)
  have t: "case bt_get obj (lit ''title'') of Some (JString t) \<Rightarrow> doc_title d = Some t | None \<Rightarrow> doc_title d = None | _ \<Rightarrow> True"
    using title by (auto simp: bt_get_remove split: option.splits json.splits)
  show ?thesis
  proof (cases found)
    case None
    then have "fields = ?rest"
      using find_content_result[OF f] by simp
    then show ?thesis
      using t inv flds by (auto simp: document_keeps_def get bt_inv_remove intro!: exI[of _ "[]"])
  next
    case (Some s)
    then obtain k where k: "k \<in> set CONTENT_KEYS" "bt_get ?rest k = Some (JString s)" "fields = bt_remove k ?rest"
      using find_content_result[OF f] by auto
    then have "bt_get obj k = Some (JString (doc_content d))"
      using cont Some by (simp add: get split: if_splits)
    then show ?thesis
      using t inv flds k by (auto simp: document_keeps_def get bt_get_remove bt_inv_remove intro!: exI[of _ "[k]"])
  qed
qed

lemma content_first:
  assumes "document_from_json env fresh (JObject obj) = Inr d" "bt_get obj (lit ''content'') = Some (JString s)"
  shows "doc_content d = s"
  using assms by (auto simp: document_from_json_def Let_def try_bind_eq_Inr CONTENT_KEYS_def bt_get_remove)

lemma document_id_valid:
  assumes "document_from_json env fresh (JObject obj) = Inr d" "uuid_string fresh" "\<forall>n. bt_get obj (lit ''id'') \<noteq> Some (JNumber n)"
  shows "valid_document_id (doc_id d)"
proof -
  have "valid_document_id fresh"
    using assms(2) uuid_string_id_chars utf8_len_id_chars by (auto simp: valid_document_id_def uuid_string_def)
  then show ?thesis
    using assms by (auto simp: document_from_json_def Let_def try_bind_eq_Inr sanitize_id_valid_if
        split: option.splits json.splits if_splits prod.splits)
qed

lemma inline_document_parts:
  assumes "document_from_json env fresh (JObject obj) = Inr d"
  obtains found where
    "find_content CONTENT_KEYS (bt_remove (lit ''title'') (bt_remove (lit ''id'') obj)) = (found, doc_fields d)"
    "doc_content d = (case found of Some s \<Rightarrow> s
       | None \<Rightarrow> join_with [32] (List.map_filter json_as_str (map snd (doc_fields d))))"
proof -
  obtain found fields where
    f: "find_content CONTENT_KEYS (bt_remove (lit ''title'') (bt_remove (lit ''id'') obj)) = (found, fields)"
    by fastforce
  have "doc_fields d = fields"
    and "doc_content d = (case found of Some s \<Rightarrow> s | None \<Rightarrow> join_with [32] (List.map_filter json_as_str (map snd fields)))"
    using assms f by (auto simp: document_from_json_def Let_def try_bind_eq_Inr)
  then show thesis
    by (intro that[of found]) (simp_all add: f split: option.split)
qed

text \<open>Which of the three text fields becomes the content, and what is left of the fields.\<close>

definition string_field :: "jmap \<Rightarrow> rstr \<Rightarrow> bool" where
  "string_field obj k \<longleftrightarrow> (\<exists>s. bt_get obj k = Some (JString s))"

lemma find_content_first:
  assumes "k \<in> set keys" "bt_get obj k = Some (JString s)" "\<forall>j \<in> set (takeWhile (\<lambda>j. j \<noteq> k) keys). \<not> string_field obj j"
  shows "find_content keys obj = (Some s, bt_remove k obj)"
  using assms
proof (induction keys)
  case (Cons j keys)
  then show ?case
    by (cases "j = k") (auto simp: string_field_def split: option.splits json.splits)
qed simp

lemma find_content_none: "\<forall>j \<in> set keys. \<not> string_field obj j \<Longrightarrow> find_content keys obj = (None, obj)"
  by (induction keys) (auto simp: string_field_def split: option.splits json.splits)

lemma inline_document_content:
  assumes "document_from_json env fresh (JObject obj) = Inr d" "k \<in> set CONTENT_KEYS" "bt_get obj k = Some (JString s)"
    "\<forall>j \<in> set (takeWhile (\<lambda>j. j \<noteq> k) CONTENT_KEYS). \<not> string_field obj j"
  shows "doc_content d = s"
    and "bt_get (doc_fields d) j = (if j \<in> {lit ''id'', lit ''title'', k} then None else bt_get obj j)"
proof -
  let ?rest = "bt_remove (lit ''title'') (bt_remove (lit ''id'') obj)"
  have k: "k \<noteq> lit ''id''" "k \<noteq> lit ''title''"
    using assms(2) content_keys_distinct by auto
  have "find_content CONTENT_KEYS ?rest = (Some s, bt_remove k ?rest)"
    using assms k by (intro find_content_first) (auto simp: string_field_def bt_get_remove)
  moreover obtain found where "find_content CONTENT_KEYS ?rest = (found, doc_fields d)"
      "doc_content d = (case found of Some s \<Rightarrow> s | None \<Rightarrow> join_with [32] (List.map_filter json_as_str (map snd (doc_fields d))))"
    by (rule inline_document_parts[OF assms(1)])
  ultimately have d: "doc_content d = s \<and> doc_fields d = bt_remove k ?rest"
    by simp
  show "doc_content d = s"
    using d by simp
  show "bt_get (doc_fields d) j = (if j \<in> {lit ''id'', lit ''title'', k} then None else bt_get obj j)"
    using d by (simp add: bt_get_remove)
qed

lemma inline_document_no_text:
  assumes "document_from_json env fresh (JObject obj) = Inr d" "\<forall>k \<in> set CONTENT_KEYS. \<not> string_field obj k"
  shows "doc_fields d = filter (\<lambda>(k, _). k \<noteq> lit ''id'' \<and> k \<noteq> lit ''title'') obj"
    and "doc_content d = join_with [32] (List.map_filter json_as_str (map snd (doc_fields d)))"
proof -
  let ?rest = "bt_remove (lit ''title'') (bt_remove (lit ''id'') obj)"
  have "find_content CONTENT_KEYS ?rest = (None, ?rest)"
    using assms(2) by (intro find_content_none) (auto simp: string_field_def bt_get_remove)
  moreover obtain found where "find_content CONTENT_KEYS ?rest = (found, doc_fields d)"
      "doc_content d = (case found of Some s \<Rightarrow> s | None \<Rightarrow> join_with [32] (List.map_filter json_as_str (map snd (doc_fields d))))"
    by (rule inline_document_parts[OF assms(1)])
  ultimately have d: "doc_fields d = ?rest \<and> doc_content d = join_with [32] (List.map_filter json_as_str (map snd ?rest))"
    by simp
  show "doc_fields d = filter (\<lambda>(k, _). k \<noteq> lit ''id'' \<and> k \<noteq> lit ''title'') obj"
    using d by (auto simp: bt_remove_def intro!: filter_cong)
  show "doc_content d = join_with [32] (List.map_filter json_as_str (map snd (doc_fields d)))"
    using d by simp
qed

lemma document_keeps_other:
  assumes "document_keeps obj d" "k \<notin> {lit ''id'', lit ''title''} \<union> set CONTENT_KEYS"
  shows "bt_get (doc_fields d) k = bt_get obj k"
  using assms by (auto simp: document_keeps_def)

abbreviation sent_field :: "document \<Rightarrow> rstr \<Rightarrow> json option" where
  "sent_field d k \<equiv> json_get (to_index_json d) k"

lemma inline_sent_text:
  assumes "bt_inv obj" "document_from_json env fresh (JObject obj) = Inr d" "k \<in> set CONTENT_KEYS"
    "bt_get obj k = Some (JString s)" "\<forall>j \<in> set (takeWhile (\<lambda>j. j \<noteq> k) CONTENT_KEYS). \<not> string_field obj j"
  shows "sent_field d (lit ''content'') = Some (JString s)"
    and "j \<in> {lit ''text'', lit ''body''} \<Longrightarrow> sent_field d j = (if j = k then None else bt_get obj j)"
proof -
  have get: "sent_field d j = indexed_value d j" for j
    using document_from_json_keeps[OF assms(1,2)] to_index_json_get by (simp add: document_keeps_def)
  show "sent_field d (lit ''content'') = Some (JString s)"
    using inline_document_content(1)[OF assms(2-5)] by (simp add: get indexed_value_def)
  show "sent_field d j = (if j = k then None else bt_get obj j)" if "j \<in> {lit ''text'', lit ''body''}"
    using that inline_document_content(2)[OF assms(2-5), of j] by (auto simp: get indexed_value_def split: option.splits)
qed

lemma inline_sent_no_text:
  assumes "bt_inv obj" "document_from_json env fresh (JObject obj) = Inr d" "\<forall>k \<in> set CONTENT_KEYS. \<not> string_field obj k"
  shows "sent_field d (lit ''content'') = Some (JString (join_with [32]
      (List.map_filter json_as_str (map snd (filter (\<lambda>(k, _). k \<noteq> lit ''id'' \<and> k \<noteq> lit ''title'') obj)))))"
    and "j \<in> {lit ''text'', lit ''body''} \<Longrightarrow> sent_field d j = bt_get obj j"
proof -
  have keeps: "document_keeps obj d"
    using document_from_json_keeps[OF assms(1,2)] .
  have get: "sent_field d j = indexed_value d j" for j
    using keeps to_index_json_get by (simp add: document_keeps_def)
  show "sent_field d (lit ''content'') = Some (JString (join_with [32]
      (List.map_filter json_as_str (map snd (filter (\<lambda>(k, _). k \<noteq> lit ''id'' \<and> k \<noteq> lit ''title'') obj)))))"
    using inline_document_no_text[OF assms(2,3)] by (simp add: get indexed_value_def)
  show "sent_field d j = bt_get obj j" if "j \<in> {lit ''text'', lit ''body''}"
  proof -
    obtain used where u: "set used \<subseteq> set CONTENT_KEYS"
        "\<forall>k. bt_get (doc_fields d) k = (if k \<in> set (lit ''id'' # lit ''title'' # used) then None else bt_get obj k)"
        "\<forall>k \<in> set used. bt_get obj k = Some (JString (doc_content d))"
      using keeps by (auto simp: document_keeps_def)
    then have "used = []"
      using assms(3) by (cases used) (auto simp: string_field_def)
    then have "bt_get (doc_fields d) j = bt_get obj j"
      using u that by auto
    then show ?thesis
      using that by (auto simp: get indexed_value_def split: option.splits)
  qed
qed

lemma inline_sent_title:
  assumes "bt_inv obj" "document_from_json env fresh (JObject obj) = Inr d"
  shows "sent_field d (lit ''title'') = (case bt_get obj (lit ''title'') of
      None \<Rightarrow> None | Some JNull \<Rightarrow> None | Some (JString t) \<Rightarrow> Some (JString t) | Some v \<Rightarrow> Some (JString (xe_show_json env v)))"
proof -
  have keeps: "document_keeps obj d"
    using document_from_json_keeps[OF assms] .
  then have "sent_field d (lit ''title'') = map_option JString (doc_title d)"
    using to_index_json_get[of d "lit ''title''"] by (auto simp: document_keeps_def indexed_value_def)
  moreover obtain found fields where
    f: "find_content CONTENT_KEYS (bt_remove (lit ''title'') (bt_remove (lit ''id'') obj)) = (found, fields)"
    by fastforce
  have "doc_title d = (case bt_get (bt_remove (lit ''id'') obj) (lit ''title'') of
        Some (JString s) \<Rightarrow> Some s | Some JNull \<Rightarrow> None | None \<Rightarrow> None | Some other \<Rightarrow> Some (xe_show_json env other))"
    using assms(2) f by (auto simp: document_from_json_def Let_def try_bind_eq_Inr)
  ultimately show ?thesis
    by (simp add: bt_get_remove split: option.split json.split)
qed

lemma inline_sent_id:
  assumes "bt_inv obj" "document_from_json env fresh (JObject obj) = Inr d"
  shows "sent_field d (lit ''id'') = Some (JString (case bt_get obj (lit ''id'') of
      Some (JString s) \<Rightarrow> sanitize_id fresh (trim s) | Some (JNumber n) \<Rightarrow> xe_show_number env n | _ \<Rightarrow> fresh))"
proof -
  have "sent_field d (lit ''id'') = Some (JString (doc_id d))"
    using document_from_json_keeps[OF assms] to_index_json_get[of d "lit ''id''"]
    by (simp add: document_keeps_def indexed_value_def)
  moreover obtain found fields where
    f: "find_content CONTENT_KEYS (bt_remove (lit ''title'') (bt_remove (lit ''id'') obj)) = (found, fields)"
    by fastforce
  have "doc_id d = (case bt_get obj (lit ''id'') of
      Some (JString s) \<Rightarrow> sanitize_id fresh (trim s) | Some (JNumber n) \<Rightarrow> xe_show_number env n | _ \<Rightarrow> fresh)"
    using assms(2) f
    by (auto simp: document_from_json_def Let_def try_bind_eq_Inr split: option.splits json.splits if_split_asm)
  ultimately show ?thesis
    by simp
qed

text \<open>C31. What the index gets of an object of a request body, field by field. Every field other than the
  id, the title, the metadata and the three text fields is sent under its name with its value. The first of
  the fields content, text and body that is a string is sent as the content and not under its own name, the
  others of the three stay under theirs (but for a content that is not a string, which is replaced); when none
  is a string, the strings of the other fields joined by spaces are the content. A title that is a string is
  sent as it came, any other value as its JSON text, null not at all. The id is the string it came with,
  trimmed and sanitized, the number as it is written, or a fresh one; unless it was a number, Meilisearch
  takes it.\<close>

theorem inline_document_kept:
  assumes "bt_inv obj" "document_from_json env fresh (JObject obj) = Inr d" "uuid_string fresh"
  shows "(\<forall>k. k \<notin> {lit ''id'', lit ''title'', lit ''_meta'', lit ''content'', lit ''text'', lit ''body''} \<longrightarrow>
        sent_field d k = bt_get obj k)
    \<and> (\<forall>s. bt_get obj (lit ''content'') = Some (JString s) \<longrightarrow>
        sent_field d (lit ''content'') = Some (JString s) \<and> sent_field d (lit ''text'') = bt_get obj (lit ''text'')
        \<and> sent_field d (lit ''body'') = bt_get obj (lit ''body''))
    \<and> (\<forall>s. \<not> string_field obj (lit ''content'') \<and> bt_get obj (lit ''text'') = Some (JString s) \<longrightarrow>
        sent_field d (lit ''content'') = Some (JString s) \<and> sent_field d (lit ''text'') = None
        \<and> sent_field d (lit ''body'') = bt_get obj (lit ''body''))
    \<and> (\<forall>s. \<not> string_field obj (lit ''content'') \<and> \<not> string_field obj (lit ''text'')
          \<and> bt_get obj (lit ''body'') = Some (JString s) \<longrightarrow>
        sent_field d (lit ''content'') = Some (JString s) \<and> sent_field d (lit ''text'') = bt_get obj (lit ''text'')
        \<and> sent_field d (lit ''body'') = None)
    \<and> (\<not> string_field obj (lit ''content'') \<and> \<not> string_field obj (lit ''text'') \<and> \<not> string_field obj (lit ''body'') \<longrightarrow>
        sent_field d (lit ''content'') = Some (JString (join_with [32]
          (List.map_filter json_as_str (map snd (filter (\<lambda>(k, _). k \<noteq> lit ''id'' \<and> k \<noteq> lit ''title'') obj)))))
        \<and> sent_field d (lit ''text'') = bt_get obj (lit ''text'') \<and> sent_field d (lit ''body'') = bt_get obj (lit ''body''))
    \<and> sent_field d (lit ''title'') = (case bt_get obj (lit ''title'') of
        None \<Rightarrow> None | Some JNull \<Rightarrow> None | Some (JString t) \<Rightarrow> Some (JString t) | Some v \<Rightarrow> Some (JString (xe_show_json env v)))
    \<and> sent_field d (lit ''id'') = Some (JString (case bt_get obj (lit ''id'') of
        Some (JString s) \<Rightarrow> sanitize_id fresh (trim s) | Some (JNumber n) \<Rightarrow> xe_show_number env n | _ \<Rightarrow> fresh))
    \<and> ((\<forall>n. bt_get obj (lit ''id'') \<noteq> Some (JNumber n)) \<longrightarrow>
        (\<exists>i. sent_field d (lit ''id'') = Some (JString i) \<and> valid_document_id i))"
proof (intro conjI)
  have keeps: "document_keeps obj d"
    using document_from_json_keeps[OF assms(1,2)] .
  have get: "sent_field d k = indexed_value d k" for k
    using keeps to_index_json_get by (simp add: document_keeps_def)
  show "\<forall>k. k \<notin> {lit ''id'', lit ''title'', lit ''_meta'', lit ''content'', lit ''text'', lit ''body''} \<longrightarrow>
      sent_field d k = bt_get obj k"
    using document_keeps_other[OF keeps] by (simp add: get indexed_value_def CONTENT_KEYS_def split: option.splits)
  show "(\<forall>n. bt_get obj (lit ''id'') \<noteq> Some (JNumber n)) \<longrightarrow>
      (\<exists>i. sent_field d (lit ''id'') = Some (JString i) \<and> valid_document_id i)"
    using document_id_valid[OF assms(2,3)] by (simp add: get indexed_value_def)
next
  show "\<forall>s. bt_get obj (lit ''content'') = Some (JString s) \<longrightarrow>
      sent_field d (lit ''content'') = Some (JString s) \<and> sent_field d (lit ''text'') = bt_get obj (lit ''text'')
      \<and> sent_field d (lit ''body'') = bt_get obj (lit ''body'')"
    using inline_sent_text[OF assms(1,2), of "lit ''content''"] by (simp add: CONTENT_KEYS_def)
  show "\<forall>s. \<not> string_field obj (lit ''content'') \<and> bt_get obj (lit ''text'') = Some (JString s) \<longrightarrow>
      sent_field d (lit ''content'') = Some (JString s) \<and> sent_field d (lit ''text'') = None
      \<and> sent_field d (lit ''body'') = bt_get obj (lit ''body'')"
    using inline_sent_text[OF assms(1,2), of "lit ''text''"] by (simp add: CONTENT_KEYS_def)
  show "\<forall>s. \<not> string_field obj (lit ''content'') \<and> \<not> string_field obj (lit ''text'')
        \<and> bt_get obj (lit ''body'') = Some (JString s) \<longrightarrow>
      sent_field d (lit ''content'') = Some (JString s) \<and> sent_field d (lit ''text'') = bt_get obj (lit ''text'')
      \<and> sent_field d (lit ''body'') = None"
    using inline_sent_text[OF assms(1,2), of "lit ''body''"] by (simp add: CONTENT_KEYS_def)
  show "\<not> string_field obj (lit ''content'') \<and> \<not> string_field obj (lit ''text'') \<and> \<not> string_field obj (lit ''body'') \<longrightarrow>
      sent_field d (lit ''content'') = Some (JString (join_with [32]
        (List.map_filter json_as_str (map snd (filter (\<lambda>(k, _). k \<noteq> lit ''id'' \<and> k \<noteq> lit ''title'') obj)))))
      \<and> sent_field d (lit ''text'') = bt_get obj (lit ''text'') \<and> sent_field d (lit ''body'') = bt_get obj (lit ''body'')"
    using inline_sent_no_text[OF assms(1,2)] by (simp add: CONTENT_KEYS_def)
qed (fact inline_sent_title[OF assms(1,2)] inline_sent_id[OF assms(1,2)])+

definition demo_extract_env :: extract_env where
  "demo_extract_env = \<lparr>xe_infer = (\<lambda>_. None), xe_guess_ext = (\<lambda>_. None), xe_json_valid = (\<lambda>_. False), xe_guess_path = (\<lambda>_. None),
     xe_from_slice = (\<lambda>_. Inl []), xe_from_str = (\<lambda>_. Inl []), xe_show_number = (\<lambda>_. lit ''1.5''), xe_show_json = (\<lambda>_. []),
     xe_uuid = (\<lambda>i n. example_uuid), xe_debug = id\<rparr>"

definition demo_inline :: jmap where
  "demo_inline = [(lit ''id'', JString (lit ''a b'')), (lit ''lang'', JString (lit ''fr'')), (lit ''text'', JString (lit ''hello''))]"

lemma demo_inline_document:
  "document_from_json demo_extract_env example_uuid (JObject demo_inline) = Inr \<lparr>doc_id = lit ''a_b'', doc_title = None,
     doc_content = lit ''hello'', doc_fields = [(lit ''lang'', JString (lit ''fr''))], doc_meta = default_meta\<rparr>"
proof -
  have t: "trim (lit ''a b'') = lit ''a b''"
    by (simp add: trim_def trim_start_def trim_end_def is_whitespace_def lit_def)
  have "sanitize_id example_uuid (lit ''a b'') = lit ''a_b''"
    by (simp add: sanitize_id_def id_char_def is_ascii_alphanumeric_def is_ascii_digit_def utf8_char_len_def lit_def)
  then show ?thesis
    by (simp add: document_from_json_def demo_inline_def bt_get_def bt_remove_def CONTENT_KEYS_def t)
qed

theorem inline_document_kept_witness:
  "\<exists>d. document_from_json demo_extract_env example_uuid (JObject demo_inline) = Inr d
     \<and> sent_field d (lit ''lang'') = Some (JString (lit ''fr'')) \<and> sent_field d (lit ''content'') = Some (JString (lit ''hello''))
     \<and> sent_field d (lit ''text'') = None \<and> sent_field d (lit ''title'') = None
     \<and> (\<exists>i. sent_field d (lit ''id'') = Some (JString i) \<and> valid_document_id i)"
proof -
  let ?d = "\<lparr>doc_id = lit ''a_b'', doc_title = None, doc_content = lit ''hello'',
    doc_fields = [(lit ''lang'', JString (lit ''fr''))], doc_meta = default_meta\<rparr>"
  have inv: "bt_inv demo_inline"
    by (simp add: bt_inv_def demo_inline_def lit_def)
  have uuid: "uuid_string example_uuid"
    by code_simp
  have "sent_field ?d (lit ''lang'') = Some (JString (lit ''fr''))
      \<and> sent_field ?d (lit ''content'') = Some (JString (lit ''hello''))
      \<and> sent_field ?d (lit ''text'') = None \<and> sent_field ?d (lit ''title'') = None"
    using inline_document_kept[OF inv demo_inline_document uuid] by (simp add: demo_inline_def bt_get_def string_field_def)
  moreover have "\<exists>i. sent_field ?d (lit ''id'') = Some (JString i) \<and> valid_document_id i"
    using inline_document_kept[OF inv demo_inline_document uuid]
    by (elim conjE) (erule mp, simp add: demo_inline_def bt_get_def)
  ultimately show ?thesis
    using demo_inline_document by blast
qed

text \<open>A text that is not a string is replaced by the strings of the other fields, and is not indexed; a number
  as an id is passed on as it is written.\<close>

lemma other_content_lost:
  assumes "document_from_json env fresh (JObject [(lit ''content'', JNumber n)]) = Inr d"
  shows "json_get (to_index_json d) (lit ''content'') = Some (JString [])"
proof -
  have "bt_inv [(lit ''content'', JNumber n)]"
    by (simp add: bt_inv_def)
  then have "bt_inv (doc_fields d)"
    using document_from_json_keeps[OF _ assms] by (simp add: document_keeps_def)
  moreover have "doc_content d = []"
    using assms by (auto simp: document_from_json_def bt_get_def bt_remove_def CONTENT_KEYS_def map_filter_simps)
  ultimately show ?thesis
    using to_index_json_get by (simp add: indexed_value_def)
qed

lemma number_id_not_sanitized:
  "document_from_json demo_extract_env example_uuid (JObject [(lit ''id'', JNumber n)]) = Inr d \<Longrightarrow> \<not> valid_document_id (doc_id d)"
  by (auto simp: document_from_json_def bt_get_def bt_remove_def CONTENT_KEYS_def demo_extract_env_def valid_document_id_def
      id_char_def is_ascii_alphanumeric_def is_ascii_digit_def lit_def)

section \<open>Refused bodies\<close>

definition refused_well :: "gateway_error + 'a \<Rightarrow> bool" where
  "refused_well r \<longleftrightarrow> (case r of Inr _ \<Rightarrow> True | Inl e \<Rightarrow> gateway_error_status e \<in> {400, 413})"

lemma refused_well_simps [simp]:
  "refused_well (Inr x)" "refused_well (Inl (GwBadRequest m))" "refused_well (Inl (GwTooLarge m))"
  "refused_well (Inl (multipart_error e))"
  by (simp_all add: refused_well_def multipart_error_def)

lemma refused_bind: "refused_well r \<Longrightarrow> (\<And>x. r = Inr x \<Longrightarrow> refused_well (f x)) \<Longrightarrow> refused_well (try_bind r f)"
  by (cases r) (auto simp: refused_well_def)

lemma refused_map: "refused_well r \<Longrightarrow> refused_well (map_sum id f r)"
  by (cases r) (auto simp: refused_well_def)

lemma refused_bad: "refused_well (map_sum (\<lambda>e. GwBadRequest (m e)) f r)"
  by (cases r) auto

lemma refused_multipart: "refused_well (map_sum multipart_error f r)"
  by (cases r) auto

lemmas refused_intros = refused_bind refused_map refused_bad refused_multipart

lemma refused_documents_loop: "refused_well (documents_loop env item i vs)"
  by (induction vs arbitrary: i) (auto intro!: refused_intros simp del: map_sum.simps)

lemma refused_documents: "refused_well (documents_from_json env item v)"
  unfolding documents_from_json_def
  by (rule refused_bind) (auto intro: refused_documents_loop split: json.split)

lemma refused_single: "refused_well (single_from_object env item v)"
  unfolding single_from_object_def Let_def
  by (auto intro!: refused_map refused_documents split: json.split option.split simp del: map_sum.simps)

lemma refused_batch: "refused_well (batch_loop env i vs)"
  by (induction vs arbitrary: i) (auto intro!: refused_intros simp del: map_sum.simps)

lemma refused_payload: "refused_well (payload_from_json env v)"
  unfolding payload_from_json_def
  by (auto intro!: refused_bind refused_map refused_documents refused_single refused_batch simp del: map_sum.simps
      split: option.split json.split)

lemma refused_part: "refused_well (take_part p f)"
  unfolding take_part_def Let_def by (simp add: refused_multipart del: map_sum.simps)

lemma refused_parts: "refused_well (take_parts ps f)"
  by (induction ps f rule: take_parts.induct) (auto intro!: refused_bind refused_part)

lemma refused_form: "refused_well (form_payload env f)"
  unfolding form_payload_def
  by (auto intro!: refused_map refused_documents split: option.split sum.split simp del: map_sum.simps)

lemma refused_multipart_form: "refused_well (extract_multipart env parts)"
  unfolding extract_multipart_def by (auto intro!: refused_bind refused_parts refused_form)

lemma refused_extract: "refused_well (extract_payload env ct body mp hint)"
  unfolding extract_payload_def
  by (auto intro: refused_multipart_form refused_payload split: option.split sum.split if_split)

lemma refused_read: "refused_well (read_payload env headers query req)"
  unfolding read_payload_def Let_def
  by (auto intro: refused_extract split: sum.split if_split)

text \<open>A body that is not accepted is answered as the caller's fault, too large or malformed, whatever it holds.\<close>

theorem refused_body_is_client_error:
  "case read_payload env headers query req of Inr _ \<Rightarrow> True | Inl e \<Rightarrow> gateway_error_status e \<in> {400, 413}"
  using refused_read[of env headers query req] by (simp add: refused_well_def)

end
