(* ===== verification/Gateway_Submit.thy ===== *)
theory Gateway_Submit
  imports Gateway_Extract Archive_Workflow Connection
begin

text \<open>
  \<open>crates/gateway/src/handlers/ingest.rs\<close> and \<open>pipeline.rs\<close>: from a request to a started job, with the write
  preflight (\<open>preflight.rs\<close>), the credit check (\<open>lab.rs\<close>), the client of the control plane and the start of
  workflows (\<open>state.rs\<close>). The state is what the gateway asked of others, the objects it staged and its cache of
  credits; every answer is a function of what was asked before. Parameters: the control plane, Meilisearch,
  the Lab, Temporal, the clock, random ids, and those of the modules it calls. The lemmas: what a request asks
  for is in the name of its tenant; a job starts once, last, after every check; under an index's path it
  writes to that index only.
\<close>

section \<open>The world of the gateway\<close>

record resolve_request =
  rr_mime :: rstr
  rr_filename :: "rstr option"
  rr_tenant_id :: "rstr option"
  rr_pipeline :: "rstr option"

record job_record =
  jr_job_id :: uuid
  jr_workflow_id :: rstr
  jr_pipeline_uid :: rstr
  jr_tenant_id :: "rstr option"
  jr_index_name :: "rstr option"
  jr_status :: job_status
  jr_current_step :: "rstr option"
  jr_error :: "rstr option"
  jr_started_at :: int
  jr_updated_at :: int

datatype gateway_call =
    AskResolve resolve_request
  | AskPipeline rstr "rstr option"
  | ProbeAdd cp_target rstr
  | ProbeGet cp_target rstr
  | CheckCredits rstr
  | StartJob pipeline_workflow_input
  | StartArchive archive_input
  | CreateJob job_record

record gateway_world =
  gw_calls :: "gateway_call list"
  gw_objects :: blob_objects
  gw_credits :: credit_cache

definition asked :: "gateway_call \<Rightarrow> gateway_world \<Rightarrow> gateway_world" where
  "asked c w = w\<lparr>gw_calls := gw_calls w @ [c]\<rparr>"

text \<open>An answer of the control plane: none, or a status, the fields of an error body with its text, and the body read
  as expected.\<close>

record upstream_error =
  ue_error :: "rstr option"
  ue_message :: "rstr option"
  ue_text :: rstr

datatype 'a cp_reply = CpNoReply rstr | CpReply nat upstream_error "rstr + 'a"

datatype probe_reply = ProbeNoReply rstr | ProbeReply nat "rstr option"

text \<open>\<open>ge_lab\<close>: whether there is a Lab, and whether it confirmed the credentials.\<close>

record gateway_env =
  ge_config :: gateway_config
  ge_extract :: extract_env
  ge_blob :: blob_env
  ge_store :: blob_store
  ge_net :: net_env
  ge_policy :: host_policy
  ge_dbg_char :: "rchar \<Rightarrow> rstr"
  ge_lab :: "bool option"
  ge_cannot_be_base :: "url \<Rightarrow> bool"
  ge_resolve :: "gateway_call list \<Rightarrow> route_match cp_reply"
  ge_pipeline :: "gateway_call list \<Rightarrow> pipeline_definition cp_reply"
  ge_create :: "gateway_call list \<Rightarrow> unit cp_reply"
  ge_probe :: "gateway_call list \<Rightarrow> probe_reply"
  ge_account :: "gateway_call list \<Rightarrow> account_lookup http_reply"
  ge_clock :: "gateway_call list \<Rightarrow> nat"
  ge_answered :: "gateway_call list \<Rightarrow> nat"
  ge_uuid :: "gateway_call list \<Rightarrow> uuid"
  ge_start :: "gateway_call list \<Rightarrow> rstr + rstr"
  ge_utc :: "gateway_call list \<Rightarrow> int"

abbreviation gdebug :: "gateway_env \<Rightarrow> rstr \<Rightarrow> rstr" where
  "gdebug env \<equiv> xe_debug (ge_extract env)"

section \<open>The control plane\<close>

definition error_from :: "gateway_env \<Rightarrow> string \<Rightarrow> nat \<Rightarrow> upstream_error \<Rightarrow> gateway_error" where
  "error_from env what status body =
     (let msg = (case or_else (ue_error body) (ue_message body) of
            Some m \<Rightarrow> if m \<noteq> [] then m else trim (ue_text body) | None \<Rightarrow> trim (ue_text body));
          msg = (if msg = [] then lit what @ lit '' failed with status '' @ be_status (ge_blob env) status else msg)
      in if status = 404 then GwNotFound msg
         else if status = 403 then GwForbidden msg
         else if status = 400 then GwBadRequest msg
         else if status = 422 then GwInvalid msg
         else if status = 413 then GwTooLarge msg
         else GwUpstream (lit ''control plane '' @ lit what @ lit '': '' @ be_status (ge_blob env) status @ lit '': '' @ msg))"

definition gateway_send_json :: "gateway_env \<Rightarrow> string \<Rightarrow> 'a cp_reply \<Rightarrow> gateway_error + 'a" where
  "gateway_send_json env what reply =
     (case reply of
        CpNoReply e \<Rightarrow> Inl (GwUpstream (lit ''control plane request failed: '' @ e))
      | CpReply status err body \<Rightarrow>
          if \<not> http_success status then Inl (error_from env what status err)
          else (case body of
                  Inl e \<Rightarrow> Inl (GwUpstream (lit ''control plane '' @ lit what @ lit '': invalid response: '' @ e))
                | Inr x \<Rightarrow> Inr x))"

definition send_empty :: "gateway_env \<Rightarrow> string \<Rightarrow> unit cp_reply \<Rightarrow> gateway_error + unit" where
  "send_empty env what reply =
     (case reply of
        CpNoReply e \<Rightarrow> Inl (GwUpstream (lit ''control plane request failed: '' @ e))
      | CpReply status err _ \<Rightarrow> if \<not> http_success status then Inl (error_from env what status err) else Inr ())"

definition control_resolve ::
  "gateway_env \<Rightarrow> resolve_request \<Rightarrow> gateway_world \<Rightarrow> (gateway_error + route_match) \<times> gateway_world" where
  "control_resolve env req w =
     (let w = asked (AskResolve req) w in (gateway_send_json env ''resolve'' (ge_resolve env (gw_calls w)), w))"

definition control_pipeline ::
  "gateway_env \<Rightarrow> rstr \<Rightarrow> rstr option \<Rightarrow> gateway_world \<Rightarrow> (gateway_error + pipeline_definition) \<times> gateway_world" where
  "control_pipeline env uid tenant w =
     (let w = asked (AskPipeline uid tenant) w in (gateway_send_json env ''get pipeline'' (ge_pipeline env (gw_calls w)), w))"

section \<open>Write preflight\<close>

definition index_address :: "gateway_env \<Rightarrow> rstr \<Rightarrow> rstr \<Rightarrow> rstr list \<Rightarrow> gateway_error + cp_target" where
  "index_address env host index route =
     (case be_parse_url (ge_blob env) host of
        Inl e \<Rightarrow> Inl (GwBadRequest (lit ''invalid Meilisearch host '' @ gdebug env host @ lit '': '' @ e))
      | Inr u \<Rightarrow> if ge_cannot_be_base env u then Inl (GwBadRequest (lit ''invalid Meilisearch host '' @ gdebug env host))
                 else Inr (Segments u (lit ''indexes'' # index # route) []))"

definition is_refusal :: "nat \<Rightarrow> bool" where
  "is_refusal status \<longleftrightarrow> status = 401 \<or> status = 403"

definition refusal :: "gateway_env \<Rightarrow> nat \<Rightarrow> rstr option \<Rightarrow> rstr \<Rightarrow> gateway_error" where
  "refusal env status message what =
     (let m = lit ''the API key cannot '' @ what @ lit '': '' @ (case message of Some m \<Rightarrow> m
            | None \<Rightarrow> lit ''Meilisearch answered '' @ be_status (ge_blob env) status)
      in if status = 401 then GwUnauthorized m else GwForbidden m)"

definition check_write ::
  "gateway_env \<Rightarrow> rstr \<Rightarrow> rstr \<Rightarrow> rstr \<Rightarrow> gateway_world \<Rightarrow> (gateway_error + unit) \<times> gateway_world" where
  "check_write env host key index w =
     (case index_address env host index [lit ''documents''] of
        Inl e \<Rightarrow> (Inl e, w)
      | Inr add \<Rightarrow>
     (let w = asked (ProbeAdd add key) w in
      case ge_probe env (gw_calls w) of
        ProbeNoReply e \<Rightarrow> (Inr (), w)
      | ProbeReply status message \<Rightarrow>
          if is_refusal status then (Inl (refusal env status message (lit ''add documents to index '' @ gdebug env index)), w)
          else
         (case index_address env host index [] of
            Inl e \<Rightarrow> (Inl e, w)
          | Inr target \<Rightarrow>
         (let w = asked (ProbeGet target key) w in
          case ge_probe env (gw_calls w) of
            ProbeNoReply e \<Rightarrow> (Inr (), w)
          | ProbeReply status message \<Rightarrow>
              if is_refusal status
              then (Inl (refusal env status message (lit ''read index '' @ gdebug env index @ lit '' (indexes.get)'')), w)
              else (Inr (), w)))))"

section \<open>Credits\<close>

definition gateway_check_credits :: "gateway_env \<Rightarrow> rstr \<Rightarrow> gateway_world \<Rightarrow> (gateway_error + unit) \<times> gateway_world" where
  "gateway_check_credits env account w =
     (if \<not> is_lab_account account then (Inr (), w)
      else if ge_lab env \<noteq> Some True
      then (Inl (GwLabUnavailable (lit (''the Lab has not confirmed this deployment'' @ [CHR 0x27] @ ''s credentials yet; retry shortly''))), w)
      else
        let w = asked (CheckCredits account) w;
            (decision, cache) = check (gdebug env) (ge_account env (gw_calls w)) (ge_clock env (gw_calls w))
              (ge_answered env (gw_calls w)) account (gw_credits w);
            w = w\<lparr>gw_credits := cache\<rparr>
        in (case decision of
              Allowed \<Rightarrow> Inr ()
            | NotALabAccount \<Rightarrow> Inr ()
            | NoCredits m \<Rightarrow> Inl (GwPaymentRequired m)
            | Unavailable m \<Rightarrow> Inl (GwLabUnavailable m), w))"

definition check_tenant_credits :: "gateway_env \<Rightarrow> rstr option \<Rightarrow> gateway_world \<Rightarrow> (gateway_error + unit) \<times> gateway_world" where
  "check_tenant_credits env tenant w =
     (case (ge_lab env, tenant) of (Some _, Some account) \<Rightarrow> gateway_check_credits env account w | _ \<Rightarrow> (Inr (), w))"

section \<open>Staging and starting\<close>

definition stage_blob :: "gateway_env \<Rightarrow> uuid \<Rightarrow> blob \<Rightarrow> nat \<Rightarrow> gateway_world \<Rightarrow> (gateway_error + plugin_input) \<times> gateway_world" where
  "stage_blob env job b inline_max w =
     (let (r, objs) = stage_upload (ge_blob env) job b inline_max (gw_objects w)
      in (map_sum (\<lambda>e. GwInternal (lit ''blob store: '' @ blob_error_str e)) id r, w\<lparr>gw_objects := objs\<rparr>))"

definition start_workflow :: "gateway_env \<Rightarrow> gateway_call \<Rightarrow> gateway_world \<Rightarrow> (gateway_error + rstr) \<times> gateway_world" where
  "start_workflow env c w =
     (let w = asked c w
      in (map_sum (\<lambda>e. GwUpstream (lit ''cannot start workflow: '' @ e)) id (ge_start env (gw_calls w)), w))"

definition create_job :: "gateway_env \<Rightarrow> job_record \<Rightarrow> gateway_world \<Rightarrow> (gateway_error + unit) \<times> gateway_world" where
  "create_job env rec w =
     (let w = asked (CreateJob rec) w in (send_empty env ''create job'' (ge_create env (gw_calls w)), w))"

definition job_record_of ::
  "gateway_env \<Rightarrow> uuid \<Rightarrow> rstr \<Rightarrow> rstr \<Rightarrow> rstr option \<Rightarrow> rstr option \<Rightarrow> gateway_world \<Rightarrow> job_record" where
  "job_record_of env job started pipeline tenant index w =
     \<lparr>jr_job_id = job, jr_workflow_id = started, jr_pipeline_uid = pipeline, jr_tenant_id = tenant, jr_index_name = index,
      jr_status = Queued, jr_current_step = None, jr_error = None,
      jr_started_at = ge_utc env (gw_calls w), jr_updated_at = ge_utc env (gw_calls w)\<rparr>"

section \<open>Submitting\<close>

record ingest_response =
  ir_job_id :: uuid
  ir_pipeline_used :: rstr
  ir_target_index :: rstr
  ir_status :: rstr

datatype batch_entry = BatchJob ingest_response | BatchError error_body

datatype pipeline_selection = SelectAuto "rstr option" | SelectExplicit pipeline_definition

definition context_for ::
  "gateway_env \<Rightarrow> header_map \<Rightarrow> query_params \<Rightarrow> extracted \<Rightarrow> gateway_error + meili_context" where
  "context_for env headers query ex =
     resolve_request_context (ge_dbg_char env) headers (or_else (query_param query ''index'') (ex_index ex)) (ge_config env)"

definition path_index :: "gateway_env \<Rightarrow> rstr \<Rightarrow> gateway_error + rstr" where
  "path_index env uid =
     (if uid \<noteq> [] \<and> utf8_len uid \<le> 400 \<and> list_all (\<lambda>c. is_ascii_alphanumeric c \<or> c = 45 \<or> c = 95) uid then Inr uid
      else Inl (GwBadRequest (lit ''invalid index uid '' @ gdebug env uid
             @ lit '': only alphanumeric characters, `-` and `_` are allowed, up to 400 bytes'')))"

definition takes_archive_whole :: "pipeline_definition \<Rightarrow> rstr \<Rightarrow> bool" where
  "takes_archive_whole p mime =
     (case pl_trigger p of None \<Rightarrow> False
      | Some t \<Rightarrow> list_ex (\<lambda>ct. to_ascii_lowercase (canonical_mime (trim ct)) = to_ascii_lowercase mime) (content_types t))"

datatype archive_plan = PlanWhole | PlanExpand "forced_pipeline option"

definition plan_for :: "pipeline_definition \<Rightarrow> rstr option \<Rightarrow> rstr \<Rightarrow> archive_plan" where
  "plan_for p pattern mime =
     (if takes_archive_whole p mime then PlanWhole
      else PlanExpand (Some \<lparr>fp_pipeline = p, fp_index_pattern = pattern\<rparr>))"

definition plan_archive ::
  "gateway_env \<Rightarrow> rstr \<Rightarrow> rstr option \<Rightarrow> meili_context \<Rightarrow> pipeline_selection \<Rightarrow> gateway_world
   \<Rightarrow> (gateway_error + archive_plan) \<times> gateway_world" where
  "plan_archive env mime filename c selection w =
     (let req = (\<lambda>uid. \<lparr>rr_mime = mime, rr_filename = filename, rr_tenant_id = ctx_tenant_id c, rr_pipeline = uid\<rparr>) in
      case selection of
        SelectAuto None \<Rightarrow>
          (case control_resolve env (req None) w of
             (Inr r, w) \<Rightarrow> (Inr (if takes_archive_whole (rm_pipeline r) mime then PlanWhole else PlanExpand None), w)
           | (Inl (GwNotFound _), w) \<Rightarrow> (Inr (PlanExpand None), w)
           | (Inl e, w) \<Rightarrow> (Inl e, w))
      | SelectAuto (Some uid) \<Rightarrow>
          and_then (control_resolve env (req (Some uid)) w) (\<lambda>r w. (Inr (plan_for (rm_pipeline r) (rm_index_pattern r) mime), w))
      | SelectExplicit p \<Rightarrow> (Inr (plan_for p (Option.bind (pl_trigger p) index_pattern) mime), w))"

definition ARCHIVE_ANY_INDEX :: rstr where "ARCHIVE_ANY_INDEX = lit ''*''"
definition ARCHIVE_JOB_PIPELINE :: rstr where "ARCHIVE_JOB_PIPELINE = lit ''archive''"

definition archive_target_index :: "rstr option \<Rightarrow> forced_pipeline option \<Rightarrow> rstr option \<Rightarrow> rstr option" where
  "archive_target_index locked forced request_index =
     (case non_blank locked of Some i \<Rightarrow> Some i
      | None \<Rightarrow> Option.bind forced (\<lambda>f.
          or_else (or_else (fixed_index (fp_pipeline f)) (non_blank (fp_index_pattern f))) (non_blank request_index)))"

definition refuse_other_index :: "gateway_env \<Rightarrow> pipeline_definition \<Rightarrow> rstr option \<Rightarrow> gateway_error + unit" where
  "refuse_other_index env p locked =
     (case Option.bind locked (\<lambda>i. map_option (Pair i) (find (\<lambda>named. named \<noteq> i) (step_indexes p))) of
        Some (i, other) \<Rightarrow> Inl (GwUnprocessable (lit ''pipeline '' @ gdebug env (pl_uid p) @ lit '' writes to index ''
            @ gdebug env other @ lit '', not '' @ gdebug env i @ lit ''; send it to /ingest/pipeline/'' @ pl_uid p @ lit '' instead''))
      | None \<Rightarrow> Inr ())"

definition require_pipeline_destination :: "pipeline_definition \<Rightarrow> meili_context \<Rightarrow> gateway_error + unit" where
  "require_pipeline_destination p c = (if pins_destination p then Inr () else require_destination c)"

definition preflight ::
  "gateway_env \<Rightarrow> bool \<Rightarrow> meili_context \<Rightarrow> rstr option \<Rightarrow> gateway_world \<Rightarrow> (gateway_error + unit) \<times> gateway_world" where
  "preflight env pinned c index w =
     (if \<not> gc_write_preflight (ge_config env) \<or> pinned then (Inr (), w)
      else (case (index, ctx_host c, ctx_api_key c) of
              (Some i, Some host, Some key) \<Rightarrow> check_write env host key i w
            | _ \<Rightarrow> (Inr (), w)))"

text \<open>The rest of a submission once its input is known: start, record (a failure is only logged), answer.\<close>

definition launch ::
  "gateway_env \<Rightarrow> gateway_call \<Rightarrow> uuid \<Rightarrow> rstr \<Rightarrow> meili_context \<Rightarrow> rstr option \<Rightarrow> rstr \<Rightarrow> gateway_world
   \<Rightarrow> (gateway_error + ingest_response) \<times> gateway_world" where
  "launch env start job pipeline c index shown_index w =
     and_then (start_workflow env start w) (\<lambda>started w.
       (Inr \<lparr>ir_job_id = job, ir_pipeline_used = pipeline, ir_target_index = shown_index, ir_status = lit ''queued''\<rparr>,
        snd (create_job env (job_record_of env job started pipeline (ctx_tenant_id c) index w) w)))"

definition archive_source ::
  "gateway_env \<Rightarrow> uuid \<Rightarrow> rstr \<Rightarrow> ingest_payload \<Rightarrow> gateway_world \<Rightarrow> (gateway_error + plugin_input) \<times> gateway_world" where
  "archive_source env job mime payload w =
     (case payload of
        PayFile b \<Rightarrow> stage_blob env job b 0 w
      | PayUrl url filename \<Rightarrow> (Inr (InRef (RefUrl url (Some mime) filename)), w)
      | PayS3 uri filename \<Rightarrow> (Inr (InRef (RefS3 uri (Some mime) filename)), w)
      | _ \<Rightarrow> (Inl (GwBadRequest (lit ''only a file, a URL or an object reference can be an archive'')), w))"

definition check_forced :: "gateway_env \<Rightarrow> forced_pipeline option \<Rightarrow> meili_context \<Rightarrow> rstr option \<Rightarrow> gateway_error + unit" where
  "check_forced env forced c locked =
     (case forced of None \<Rightarrow> Inr ()
      | Some f \<Rightarrow> try_bind (require_pipeline_destination (fp_pipeline f) c) (\<lambda>_. refuse_other_index env (fp_pipeline f) locked))"

definition submit_archive ::
  "gateway_env \<Rightarrow> ingest_payload \<Rightarrow> meili_context \<Rightarrow> forced_pipeline option \<Rightarrow> rstr option \<Rightarrow> rstr \<Rightarrow> gateway_world
   \<Rightarrow> (gateway_error + ingest_response) \<times> gateway_world" where
  "submit_archive env payload c forced locked mime w =
     (let target = archive_target_index locked forced (ctx_index c);
          pinned = (case forced of Some f \<Rightarrow> pins_destination (fp_pipeline f) | None \<Rightarrow> False)
      in and_then (check_forced env forced c locked, w) (\<lambda>_ w.
         and_then (preflight env pinned c target w) (\<lambda>_ w.
         and_then (check_tenant_credits env (ctx_tenant_id c) w) (\<lambda>_ w.
           let job = ge_uuid env (gw_calls w) in
           and_then (archive_source env job mime payload w) (\<lambda>input w.
             launch env (StartArchive \<lparr>ai_job_id = job, ai_input = input, ai_context = c, ai_forced = forced,
                 ai_locked_index = locked, ai_resume = None, ai_batching = None\<rparr>) job ARCHIVE_JOB_PIPELINE c target
               (case target of Some i \<Rightarrow> i | None \<Rightarrow> ARCHIVE_ANY_INDEX) w)))))"

definition known_type :: "rstr \<Rightarrow> rstr option" where
  "known_type mime = (if mime = lit ''application/octet-stream'' then None else Some mime)"

definition job_source ::
  "gateway_env \<Rightarrow> uuid \<Rightarrow> rstr \<Rightarrow> ingest_payload \<Rightarrow> gateway_world \<Rightarrow> (gateway_error + plugin_input) \<times> gateway_world" where
  "job_source env job mime payload w =
     (case payload of
        PayFile b \<Rightarrow> stage_blob env job b (unat (gc_inline_max_bytes (ge_config env))) w
      | PayUrl url filename \<Rightarrow> (Inr (InRef (RefUrl url (known_type mime) filename)), w)
      | PayS3 uri filename \<Rightarrow> (Inr (InRef (RefS3 uri (known_type mime) filename)), w)
      | PayDocuments docs \<Rightarrow> (Inr (InDocuments docs), w)
      | PayBatch _ \<Rightarrow> (Inl (GwBadRequest (lit ''nested batches are not supported'')), w))"

text \<open>A URL or object reference that the worker would refuse is refused at once.\<close>

definition check_reference :: "gateway_env \<Rightarrow> ingest_payload \<Rightarrow> gateway_error + unit" where
  "check_reference env payload =
     (case payload of
        PayUrl url _ \<Rightarrow>
          (case be_parse_url (ge_blob env) url of
             Inl e \<Rightarrow> Inl (GwBadRequest (lit ''invalid url '' @ gdebug env url @ lit '': '' @ e))
           | Inr u \<Rightarrow> (case check_host (ge_net env) (ge_policy env) u of
                 Inl (SeBlocked m) \<Rightarrow> Inl (GwUnprocessable (source_error_str (SeBlocked m) @ lit '' (URL refs obey SOURCE_FETCH_HOSTS)''))
               | _ \<Rightarrow> Inr ()))
      | PayS3 uri _ \<Rightarrow>
          (case authorize (ge_blob env) (ge_store env) uri of
             Inr _ \<Rightarrow> Inr ()
           | Inl (BlobBlocked m) \<Rightarrow> Inl (GwUnprocessable (blob_error_str (BlobBlocked m)))
           | Inl e \<Rightarrow> Inl (GwBadRequest (blob_error_str e)))
      | _ \<Rightarrow> Inr ())"

definition choose_pipeline_for ::
  "gateway_env \<Rightarrow> rstr \<Rightarrow> rstr option \<Rightarrow> meili_context \<Rightarrow> pipeline_selection \<Rightarrow> gateway_world
   \<Rightarrow> (gateway_error + route_match) \<times> gateway_world" where
  "choose_pipeline_for env mime filename c selection w =
     (case selection of
        SelectAuto explicit \<Rightarrow>
          (case control_resolve env \<lparr>rr_mime = mime, rr_filename = filename, rr_tenant_id = ctx_tenant_id c, rr_pipeline = explicit\<rparr> w of
             (Inl (GwNotFound msg), w) \<Rightarrow>
               (Inl (case explicit of Some _ \<Rightarrow> GwNotFound msg | None \<Rightarrow> GwUnsupported mime), w)
           | r \<Rightarrow> r)
      | SelectExplicit p \<Rightarrow> (Inr \<lparr>rm_pipeline = p, rm_index_pattern = Option.bind (pl_trigger p) index_pattern\<rparr>, w))"

definition target_index ::
  "rstr option \<Rightarrow> pipeline_definition \<Rightarrow> rstr option \<Rightarrow> rstr \<Rightarrow> rstr \<Rightarrow> meili_context \<Rightarrow> rstr \<times> meili_context" where
  "target_index locked p pattern mime default_index c =
     (case (locked, fixed_index p) of
        (Some i, _) \<Rightarrow> (i, c\<lparr>ctx_index := Some i\<rparr>)
      | (None, Some i) \<Rightarrow> (i, c\<lparr>ctx_index := Some i\<rparr>)
      | (None, None) \<Rightarrow> resolve_target_index c pattern mime default_index)"

definition submit_pipeline ::
  "gateway_env \<Rightarrow> ingest_payload \<Rightarrow> meili_context \<Rightarrow> rstr option \<Rightarrow> rstr \<Rightarrow> route_match \<Rightarrow> gateway_world
   \<Rightarrow> (gateway_error + ingest_response) \<times> gateway_world" where
  "submit_pipeline env payload c locked mime r w =
     (let p = rm_pipeline r in
      and_then (try_bind (require_pipeline_destination p c) (\<lambda>_. refuse_other_index env p locked), w) (\<lambda>_ w.
        let (index, c) = target_index locked p (rm_index_pattern r) mime (gc_default_index (ge_config env)) c in
        and_then (preflight env (pins_destination p) c (Some index) w) (\<lambda>_ w.
        and_then (check_tenant_credits env (ctx_tenant_id c) w) (\<lambda>_ w.
          let job = ge_uuid env (gw_calls w) in
          and_then (job_source env job mime payload w) (\<lambda>input w.
            launch env (StartJob \<lparr>wi_job_id = job, wi_pipeline = p, wi_input = input, wi_context = c\<rparr>) job (pl_uid p) c
              (Some index) index w)))))"

definition submit_one ::
  "gateway_env \<Rightarrow> ingest_payload \<Rightarrow> meili_context \<Rightarrow> pipeline_selection \<Rightarrow> rstr option \<Rightarrow> gateway_world
   \<Rightarrow> (gateway_error + ingest_response) \<times> gateway_world" where
  "submit_one env payload c selection locked w =
     (case payload_mime (ge_extract env) payload of
        None \<Rightarrow> (Inl (GwBadRequest (lit ''nested batches are not supported'')), w)
      | Some mime \<Rightarrow>
          let filename = payload_filename payload in
          and_then (check_reference env payload, w) (\<lambda>_ w.
          and_then (if is_archive mime then plan_archive env mime filename c selection w else (Inr PlanWhole, w)) (\<lambda>plan w.
            case plan of
              PlanExpand forced \<Rightarrow> submit_archive env payload c forced locked mime w
            | PlanWhole \<Rightarrow> and_then (choose_pipeline_for env mime filename c selection w)
                             (\<lambda>r w. submit_pipeline env payload c locked mime r w))))"

fun submit_batch ::
  "gateway_env \<Rightarrow> ingest_payload list \<Rightarrow> meili_context \<Rightarrow> pipeline_selection \<Rightarrow> rstr option \<Rightarrow> gateway_world
   \<Rightarrow> batch_entry list \<times> gateway_world" where
  "submit_batch env [] c selection locked w = ([], w)"
| "submit_batch env (item # items) c selection locked w =
     (let (r, w) = submit_one env item c selection locked w;
          entry = (case r of Inr resp \<Rightarrow> BatchJob resp | Inl e \<Rightarrow> BatchError (error_body_of (gdebug env) e));
          (entries, w) = submit_batch env items c selection locked w
      in (entry # entries, w))"

section \<open>Handlers\<close>

definition ingest ::
  "gateway_env \<Rightarrow> header_map \<Rightarrow> query_params \<Rightarrow> request_body \<Rightarrow> rstr option \<Rightarrow> gateway_world
   \<Rightarrow> (gateway_error + ingest_response) \<times> gateway_world" where
  "ingest env headers query req locked w =
     (case try_bind (read_payload (ge_extract env) headers query req) (\<lambda>ex.
            map_sum id (Pair ex) (context_for env headers query ex)) of
        Inl e \<Rightarrow> (Inl e, w)
      | Inr (ex, c) \<Rightarrow>
          (case ex_payload ex of
             PayBatch _ \<Rightarrow> (Inl (GwBadRequest (lit ''`items` batches must be sent to POST /ingest/batch'')), w)
           | p \<Rightarrow> submit_one env p c (SelectAuto (or_else (query_param query ''pipeline'') (ex_pipeline ex))) locked w))"

definition ingest_into_index ::
  "gateway_env \<Rightarrow> rstr \<Rightarrow> header_map \<Rightarrow> query_params \<Rightarrow> request_body \<Rightarrow> gateway_world
   \<Rightarrow> (gateway_error + ingest_response) \<times> gateway_world" where
  "ingest_into_index env uid headers query req w =
     and_then (path_index env uid, w) (\<lambda>i. ingest env headers query req (Some i))"

definition payload_items :: "ingest_payload \<Rightarrow> ingest_payload list" where
  "payload_items p = (case p of PayBatch items \<Rightarrow> items | single \<Rightarrow> [single])"

definition ingest_batch ::
  "gateway_env \<Rightarrow> header_map \<Rightarrow> query_params \<Rightarrow> request_body \<Rightarrow> rstr option \<Rightarrow> gateway_world
   \<Rightarrow> (gateway_error + batch_entry list) \<times> gateway_world" where
  "ingest_batch env headers query req locked w =
     (case try_bind (read_payload (ge_extract env) headers query req) (\<lambda>ex.
            map_sum id (Pair ex) (context_for env headers query ex)) of
        Inl e \<Rightarrow> (Inl e, w)
      | Inr (ex, c) \<Rightarrow>
          let items = payload_items (ex_payload ex) in
          if items = [] then (Inl (GwBadRequest (lit ''`items` must not be empty'')), w)
          else (let (entries, w) = submit_batch env items c (SelectAuto (or_else (query_param query ''pipeline'') (ex_pipeline ex))) locked w
                in (Inr entries, w)))"

definition ingest_batch_into_index ::
  "gateway_env \<Rightarrow> rstr \<Rightarrow> header_map \<Rightarrow> query_params \<Rightarrow> request_body \<Rightarrow> gateway_world
   \<Rightarrow> (gateway_error + batch_entry list) \<times> gateway_world" where
  "ingest_batch_into_index env uid headers query req w =
     and_then (path_index env uid, w) (\<lambda>i. ingest_batch env headers query req (Some i))"

text \<open>The route that names its pipeline; a single response or those of a batch.\<close>

definition ingest_with_pipeline ::
  "gateway_env \<Rightarrow> rstr \<Rightarrow> header_map \<Rightarrow> query_params \<Rightarrow> request_body \<Rightarrow> rstr option \<Rightarrow> gateway_world
   \<Rightarrow> (gateway_error + ingest_response + batch_entry list) \<times> gateway_world" where
  "ingest_with_pipeline env name headers query req locked w =
     and_then (resolve_request_context (ge_dbg_char env) headers (query_param query ''index'') (ge_config env), w) (\<lambda>pre w.
     and_then (control_pipeline env name (ctx_tenant_id pre) w) (\<lambda>p w.
     and_then (try_bind (read_payload (ge_extract env) headers query req) (\<lambda>ex.
            map_sum id (Pair ex) (context_for env headers query ex)), w) (\<lambda>(ex, c) w.
       (case ex_payload ex of
          PayBatch items \<Rightarrow>
            if items = [] then (Inl (GwBadRequest (lit ''`items` must not be empty'')), w)
            else (let (entries, w) = submit_batch env items c (SelectExplicit p) locked w in (Inr (Inr entries), w))
        | single \<Rightarrow> (let (r, w) = submit_one env single c (SelectExplicit p) locked w in (map_sum id Inl r, w))))))"

definition ingest_into_index_with_pipeline ::
  "gateway_env \<Rightarrow> rstr \<Rightarrow> rstr \<Rightarrow> header_map \<Rightarrow> query_params \<Rightarrow> request_body \<Rightarrow> gateway_world
   \<Rightarrow> (gateway_error + ingest_response + batch_entry list) \<times> gateway_world" where
  "ingest_into_index_with_pipeline env uid name headers query req w =
     and_then (path_index env uid, w) (\<lambda>i. ingest_with_pipeline env name headers query req (Some i))"

end
