(* ===== verification/Gateway_Correct.thy ===== *)
theory Gateway_Correct
  imports Gateway_Submit
begin

text \<open>
  What holds of the ingest routes of the gateway (\<open>handlers/ingest.rs\<close>, \<open>handlers/pipeline.rs\<close>): every request it
  makes is in the name of the tenant it resolved; a job starts once, after its checks, and is the last thing
  but its row; a job under an index's path writes to that index. Each step of a submission has one lemma on
  the calls it adds.
\<close>

section \<open>Calls that are added\<close>

definition adds :: "(gateway_call \<Rightarrow> bool) \<Rightarrow> gateway_world \<Rightarrow> gateway_world \<Rightarrow> bool" where
  "adds P w w' \<longleftrightarrow> (\<exists>cs. gw_calls w' = gw_calls w @ cs \<and> list_all P cs)"

lemma adds_refl [simp]: "gw_calls w' = gw_calls w \<Longrightarrow> adds P w w'"
  by (simp add: adds_def)

lemma adds_asked [simp]: "P c \<Longrightarrow> adds P w (asked c w)"
  by (simp add: adds_def asked_def)

lemma adds_trans: "adds P w w1 \<Longrightarrow> adds P w1 w2 \<Longrightarrow> adds P w w2"
  by (auto simp: adds_def)

lemma adds_credits [simp]: "adds P w (w1\<lparr>gw_credits := c\<rparr>) \<longleftrightarrow> adds P w w1"
  by (simp add: adds_def)

lemma adds_then:
  assumes "adds P w (snd r)" "\<And>x w1. r = (Inr x, w1) \<Longrightarrow> adds P w1 (snd (f x w1))"
  shows "adds P w (snd (and_then r f))"
proof (cases r)
  case (Pair s w1)
  then show ?thesis
    using assms adds_trans by (cases s) fastforce+
qed

section \<open>In whose name\<close>

definition on_host :: "gateway_env \<Rightarrow> meili_context \<Rightarrow> cp_target \<Rightarrow> bool" where
  "on_host env c target \<longleftrightarrow>
     (\<exists>host u segs. ctx_host c = Some host \<and> be_parse_url (ge_blob env) host = Inr u \<and> target = Segments u segs [])"

definition same_caller :: "meili_context \<Rightarrow> meili_context \<Rightarrow> bool" where
  "same_caller c d \<longleftrightarrow> ctx_tenant_id d = ctx_tenant_id c \<and> ctx_host d = ctx_host c \<and> ctx_api_key d = ctx_api_key c
     \<and> ctx_region d = ctx_region c"

text \<open>A request to others on behalf of \<open>c\<close>: of its tenant, to its host with its key.\<close>

fun in_name_of :: "gateway_env \<Rightarrow> meili_context \<Rightarrow> gateway_call \<Rightarrow> bool" where
  "in_name_of env c (AskResolve r) \<longleftrightarrow> rr_tenant_id r = ctx_tenant_id c"
| "in_name_of env c (AskPipeline _ tenant) \<longleftrightarrow> tenant = ctx_tenant_id c"
| "in_name_of env c (ProbeAdd target key) \<longleftrightarrow> ctx_api_key c = Some key \<and> on_host env c target"
| "in_name_of env c (ProbeGet target key) \<longleftrightarrow> ctx_api_key c = Some key \<and> on_host env c target"
| "in_name_of env c (CheckCredits account) \<longleftrightarrow> ctx_tenant_id c = Some account"
| "in_name_of env c (StartJob inp) \<longleftrightarrow> same_caller c (wi_context inp)"
| "in_name_of env c (StartArchive inp) \<longleftrightarrow> same_caller c (ai_context inp)"
| "in_name_of env c (CreateJob rec) \<longleftrightarrow> jr_tenant_id rec = ctx_tenant_id c"

lemma in_name_index: "in_name_of env (c\<lparr>ctx_index := i\<rparr>) a = in_name_of env c a"
  by (cases a) (auto simp: on_host_def same_caller_def)

lemma index_address_on_host:
  "index_address env host i route = Inr target \<Longrightarrow> ctx_host c = Some host \<Longrightarrow> on_host env c target"
  by (auto simp: index_address_def on_host_def split: sum.splits if_splits)

text \<open>Calls before a job is started.\<close>

fun is_check :: "gateway_call \<Rightarrow> bool" where
  "is_check (StartJob _) = False"
| "is_check (StartArchive _) = False"
| "is_check (CreateJob _) = False"
| "is_check _ = True"

definition check_for :: "gateway_env \<Rightarrow> meili_context \<Rightarrow> gateway_call \<Rightarrow> bool" where
  "check_for env c a \<longleftrightarrow> in_name_of env c a \<and> is_check a"

lemma adds_checking: "adds (check_for env c) w w' \<Longrightarrow> adds (in_name_of env c) w w'"
  by (auto simp: adds_def check_for_def list_all_iff)

lemma check_write_name:
  assumes "ctx_host c = Some host" "ctx_api_key c = Some key"
  shows "adds (check_for env c) w (snd (check_write env host key i w))"
proof -
  have "adds (check_for env c) w (asked (ProbeGet t2 key) (asked (ProbeAdd t1 key) w))" if "on_host env c t1" "on_host env c t2" for t1 t2
    using that assms(2) adds_trans[of "check_for env c" w "asked (ProbeAdd t1 key) w"] by (simp add: check_for_def)
  moreover have "adds (check_for env c) w (asked (ProbeAdd t1 key) w)" if "on_host env c t1" for t1
    using that assms(2) by (simp add: check_for_def)
  ultimately show ?thesis
    using index_address_on_host[OF _ assms(1)] by (auto simp: check_write_def Let_def split: sum.split probe_reply.split)
qed

lemma preflight_name: "adds (check_for env c) w (snd (preflight env pinned c i w))"
  by (auto simp: preflight_def check_write_name split: option.split)

lemma credits_name: "adds (check_for env c) w (snd (check_tenant_credits env (ctx_tenant_id c) w))"
  by (auto simp: check_tenant_credits_def gateway_check_credits_def check_for_def Let_def split: option.split prod.split)

lemma stage_calls [simp]: "gw_calls (snd (stage_blob env job b n w)) = gw_calls w"
  by (simp add: stage_blob_def split: prod.split)

lemma job_source_calls [simp]: "gw_calls (snd (job_source env job mime p w)) = gw_calls w"
  by (cases p) (simp_all add: job_source_def)

lemma archive_source_calls [simp]: "gw_calls (snd (archive_source env job mime p w)) = gw_calls w"
  by (cases p) (simp_all add: archive_source_def)

lemma launch_name:
  assumes "in_name_of env c start"
  shows "adds (in_name_of env c) w (snd (launch env start job pipeline c index shown w))"
  unfolding launch_def start_workflow_def
  using assms by (auto simp: Let_def create_job_def job_record_of_def intro!: adds_then)

lemma resolve_name: "rr_tenant_id r = ctx_tenant_id c \<Longrightarrow> adds (check_for env c) w (snd (control_resolve env r w))"
  by (simp add: control_resolve_def Let_def check_for_def)

lemma plan_name: "adds (check_for env c) w (snd (plan_archive env mime filename c selection w))"
proof -
  have "adds (check_for env c) w w1" if "control_resolve env \<lparr>rr_mime = mime, rr_filename = filename,
      rr_tenant_id = ctx_tenant_id c, rr_pipeline = uid\<rparr> w = (r, w1)" for uid r w1
    using resolve_name[of "\<lparr>rr_mime = mime, rr_filename = filename, rr_tenant_id = ctx_tenant_id c, rr_pipeline = uid\<rparr>" c env w] that by simp
  then show ?thesis
    by (auto simp: plan_archive_def Let_def and_then_def split: pipeline_selection.split option.split prod.split sum.split gateway_error.split)
qed

lemma choose_name: "adds (check_for env c) w (snd (choose_pipeline_for env mime filename c selection w))"
proof -
  have "adds (check_for env c) w w1" if "control_resolve env \<lparr>rr_mime = mime, rr_filename = filename,
      rr_tenant_id = ctx_tenant_id c, rr_pipeline = uid\<rparr> w = (r, w1)" for uid r w1
    using resolve_name[of "\<lparr>rr_mime = mime, rr_filename = filename, rr_tenant_id = ctx_tenant_id c, rr_pipeline = uid\<rparr>" c env w] that by simp
  then show ?thesis
    by (auto simp: choose_pipeline_for_def split: pipeline_selection.split prod.split sum.split gateway_error.split)
qed

lemma submit_archive_name: "adds (in_name_of env c) w (snd (submit_archive env p c forced locked mime w))"
  unfolding submit_archive_def Let_def
  by (auto intro!: adds_then adds_checking[OF preflight_name] adds_checking[OF credits_name] launch_name simp: same_caller_def)

lemma target_index_context: "snd (target_index locked p pattern mime d c) = c\<lparr>ctx_index := Some (fst (target_index locked p pattern mime d c))\<rparr>"
  by (simp add: target_index_def resolve_target_index_def Let_def split: option.split)

lemma target_index_pair:
  assumes "target_index locked p pattern mime d c = (i, c')"
  shows "c' = c\<lparr>ctx_index := Some i\<rparr>"
  using target_index_context[of locked p pattern mime d c] assms by simp

lemma submit_pipeline_name: "adds (in_name_of env c) w (snd (submit_pipeline env p c locked mime r w))"
proof -
  obtain i c' where t: "target_index locked (rm_pipeline r) (rm_index_pattern r) mime (gc_default_index (ge_config env)) c = (i, c')"
    by fastforce
  note c' = target_index_pair[OF t]
  have name: "in_name_of env c = in_name_of env c'"
    by (rule ext) (simp add: c' in_name_index)
  show ?thesis
    unfolding submit_pipeline_def Let_def t prod.case name
    by (intro adds_then adds_checking[OF preflight_name] adds_checking[OF credits_name] launch_name) (auto simp: same_caller_def)
qed

lemma submit_one_name: "adds (in_name_of env c) w (snd (submit_one env p c selection locked w))"
proof (cases "payload_mime (ge_extract env) p")
  case (Some mime)
  then show ?thesis
    unfolding submit_one_def Let_def
    by (auto intro!: adds_then adds_checking[OF plan_name] adds_checking[OF choose_name] submit_archive_name submit_pipeline_name
        split: archive_plan.split)
qed (simp add: submit_one_def)

lemma submit_batch_name: "adds (in_name_of env c) w (snd (submit_batch env items c selection locked w))"
proof (induction items arbitrary: w)
  case (Cons p ps)
  obtain r w1 where one: "submit_one env p c selection locked w = (r, w1)"
    by fastforce
  obtain es w2 where rest: "submit_batch env ps c selection locked w1 = (es, w2)"
    by fastforce
  have "adds (in_name_of env c) w w1"
    using submit_one_name[of env c w p selection locked] one by simp
  moreover have "adds (in_name_of env c) w1 w2"
    using Cons.IH[of w1] rest by simp
  ultimately show ?case
    using one rest adds_trans by (simp add: Let_def)
qed simp

text \<open>The contexts of one request differ in their index only.\<close>

lemma same_request_context:
  assumes "resolve_request_context dc headers q cfg = Inr c" "resolve_request_context dc headers q' cfg = Inr c'"
  shows "c' = c\<lparr>ctx_index := ctx_index c'\<rparr>"
  using assms by (auto simp: resolve_request_context_def try_bind_eq_Inr Let_def)

definition own_requests :: "gateway_env \<Rightarrow> header_map \<Rightarrow> gateway_world \<Rightarrow> gateway_world \<Rightarrow> bool" where
  "own_requests env headers w w' \<longleftrightarrow> gw_calls w' = gw_calls w
     \<or> (\<exists>q c. resolve_request_context (ge_dbg_char env) headers q (ge_config env) = Inr c \<and> adds (in_name_of env c) w w')"

lemma own_one:
  "context_for env headers query ex = Inr c \<Longrightarrow> own_requests env headers w (snd (submit_one env p c s locked w))"
  using submit_one_name[of env c w p s locked] by (auto simp: own_requests_def context_for_def)

lemma own_batch:
  "context_for env headers query ex = Inr c \<Longrightarrow> own_requests env headers w (snd (submit_batch env items c s locked w))"
  using submit_batch_name[of env c w items s locked] by (auto simp: own_requests_def context_for_def)

lemma own_refl: "own_requests env headers w w"
  by (simp add: own_requests_def)

lemma read_context:
  assumes "try_bind r (\<lambda>ex. map_sum id (Pair ex) (context_for env headers query ex)) = Inr (ex, c)"
  shows "context_for env headers query ex = Inr c"
  using assms by (cases r) (auto simp: map_sum_Inr try_bind_eq_Inr)

lemma ingest_own: "own_requests env headers w (snd (ingest env headers query req locked w))"
proof (cases "try_bind (read_payload (ge_extract env) headers query req)
    (\<lambda>ex. map_sum id (Pair ex) (context_for env headers query ex))")
  case (Inl e)
  then show ?thesis
    by (simp add: ingest_def own_refl)
next
  case (Inr x)
  then obtain ex c where x: "x = (ex, c)" and c: "context_for env headers query ex = Inr c"
    using read_context by (cases x) blast
  show ?thesis
    unfolding ingest_def Inr x by (cases "ex_payload ex") (simp_all add: own_one[OF c] own_refl)
qed

lemma batch_own: "own_requests env headers w (snd (ingest_batch env headers query req locked w))"
proof (cases "try_bind (read_payload (ge_extract env) headers query req)
    (\<lambda>ex. map_sum id (Pair ex) (context_for env headers query ex))")
  case (Inl e)
  then show ?thesis
    by (simp add: ingest_batch_def own_refl)
next
  case (Inr x)
  then obtain ex c where x: "x = (ex, c)" and c: "context_for env headers query ex = Inr c"
    using read_context by (cases x) blast
  have "own_requests env headers w w1"
    if "submit_batch env items c s locked w = (es, w1)" for items s es w1
    using own_batch[OF c, of w items s locked] that by simp
  then show ?thesis
    unfolding ingest_batch_def Inr x by (auto simp: Let_def own_refl split: prod.split)
qed

lemma pipeline_own: "own_requests env headers w (snd (ingest_with_pipeline env name headers query req locked w))"
proof (cases "resolve_request_context (ge_dbg_char env) headers (query_param query ''index'') (ge_config env)")
  case (Inl e)
  then show ?thesis
    by (simp add: ingest_with_pipeline_def own_requests_def)
next
  case (Inr pre)
  let ?P = "in_name_of env pre"
  have "adds ?P w (snd (ingest_with_pipeline env name headers query req locked w))"
    unfolding ingest_with_pipeline_def Inr and_then_simps
  proof (rule adds_then, goal_cases)
    case 1
    show ?case
      by (simp add: control_pipeline_def Let_def)
  next
    case (2 p w1)
    show ?case
    proof (rule adds_then, goal_cases)
      case 1
      show ?case
        by simp
    next
      case (2 x w2)
      then obtain ex c where x: "x = (ex, c)" "context_for env headers query ex = Inr c"
        by (auto simp: try_bind_eq_Inr map_sum_Inr)
      then have "c = pre\<lparr>ctx_index := ctx_index c\<rparr>"
        using same_request_context[OF Inr] by (simp add: context_for_def)
      then have P: "?P = in_name_of env c"
        using in_name_index[of env "ctx_index c" pre] by (intro ext) simp
      have one: "adds ?P w2 w3" if "submit_one env q c (SelectExplicit p) locked w2 = (r, w3)" for q r w3
        using submit_one_name[of env c w2 q "SelectExplicit p" locked] that P by simp
      have many: "adds ?P w2 w3" if "submit_batch env q c (SelectExplicit p) locked w2 = (r, w3)" for q r w3
        using submit_batch_name[of env c w2 q "SelectExplicit p" locked] that P by simp
      show ?case
        using one many by (auto simp: x(1) Let_def split: ingest_payload.split prod.split)
    qed
  qed
  then show ?thesis
    using Inr by (auto simp: own_requests_def)
qed

lemma locked_own:
  assumes "\<And>i w. own_requests env headers w (snd (f i w))"
  shows "own_requests env headers w (snd (and_then (path_index env uid, w) f))"
  using assms by (cases "path_index env uid") (auto simp: own_requests_def)

text \<open>C32. In whose name the gateway acts. Whatever a request to an ingest route holds, every pipeline looked up,
  every credit checked, every job started and recorded for it is of the tenant its headers resolve to, with that
  request's own destination; a key is shown to no host but the request's own, and never to a host that is not the one of the
  context. This holds of single items, batches and named pipelines, with and without an index in the path.\<close>

theorem ingest_acts_for_its_tenant:
  "own_requests env headers w (snd (ingest env headers query req locked w))
   \<and> own_requests env headers w (snd (ingest_into_index env uid headers query req w))
   \<and> own_requests env headers w (snd (ingest_batch env headers query req locked w))
   \<and> own_requests env headers w (snd (ingest_batch_into_index env uid headers query req w))
   \<and> own_requests env headers w (snd (ingest_with_pipeline env name headers query req locked w))
   \<and> own_requests env headers w (snd (ingest_into_index_with_pipeline env uid name headers query req w))"
  by (simp add: ingest_own batch_own pipeline_own ingest_into_index_def ingest_batch_into_index_def
      ingest_into_index_with_pipeline_def locked_own)

end
