(* ===== verification/Gateway_Start.thy ===== *)
theory Gateway_Start
  imports Gateway_Correct
begin

text \<open>
  The order of what the gateway does for one item of an ingest request, and what a job under an index's path
  writes to: a job starts once, last, with the credits of its account granted just before; what it indexes
  goes to the index of the path.
\<close>

section \<open>Order of a submission\<close>

text \<open>Only checks were made, and nothing was learnt of credits.\<close>

definition quiet :: "gateway_world \<Rightarrow> gateway_world \<Rightarrow> bool" where
  "quiet w w' \<longleftrightarrow> adds is_check w w' \<and> gw_credits w' = gw_credits w"

lemma quiet_refl [simp]: "quiet w w"
  by (simp add: quiet_def)

lemma credits_asked [simp]: "gw_credits (asked a w) = gw_credits w"
  by (simp add: asked_def)

lemma quietI: "adds (check_for env c) w w' \<Longrightarrow> gw_credits w' = gw_credits w \<Longrightarrow> quiet w w'"
  by (auto simp: quiet_def adds_def check_for_def list_all_iff)

lemma credits_control [simp]: "gw_credits (snd (control_resolve env r w)) = gw_credits w"
  by (simp add: control_resolve_def Let_def)

lemma credits_control_pair: "control_resolve env r w = (x, w1) \<Longrightarrow> gw_credits w1 = gw_credits w"
  using credits_control[of env r w] by simp

lemma credits_preflight [simp]: "gw_credits (snd (preflight env pinned c i w)) = gw_credits w"
  by (auto simp: preflight_def check_write_def Let_def split: option.split sum.split probe_reply.split)

lemma credits_plan [simp]: "gw_credits (snd (plan_archive env mime filename c selection w)) = gw_credits w"
  by (auto simp: plan_archive_def Let_def and_then_def dest!: credits_control_pair
      split: pipeline_selection.split option.split prod.split sum.split gateway_error.split)

lemma credits_choose [simp]: "gw_credits (snd (choose_pipeline_for env mime filename c selection w)) = gw_credits w"
  by (auto simp: choose_pipeline_for_def dest!: credits_control_pair
      split: pipeline_selection.split prod.split sum.split gateway_error.split)

lemma preflight_quiet: "quiet w (snd (preflight env pinned c i w))"
  using quietI[OF preflight_name] by simp

lemma plan_quiet: "quiet w (snd (plan_archive env mime filename c selection w))"
  using quietI[OF plan_name] by simp

lemma choose_quiet: "quiet w (snd (choose_pipeline_for env mime filename c selection w))"
  using quietI[OF choose_name] by simp

lemmas quiet_intros = preflight_quiet plan_quiet choose_quiet quiet_refl

fun started_job :: "gateway_call \<Rightarrow> uuid option" where
  "started_job (StartJob inp) = Some (wi_job_id inp)"
| "started_job (StartArchive inp) = Some (ai_job_id inp)"
| "started_job _ = None"

text \<open>The credits of the account were granted by the last of these calls, for the cache as it was before them.\<close>

definition granted :: "gateway_env \<Rightarrow> meili_context \<Rightarrow> gateway_world \<Rightarrow> gateway_call list \<Rightarrow> bool" where
  "granted env c w pre \<longleftrightarrow>
     (\<forall>account. ctx_tenant_id c = Some account \<and> is_lab_account account \<and> ge_lab env \<noteq> None \<longrightarrow>
        ge_lab env = Some True \<and> pre \<noteq> [] \<and> last pre = CheckCredits account
        \<and> fst (check (gdebug env) (ge_account env (gw_calls w @ pre)) (ge_clock env (gw_calls w @ pre))
             (ge_answered env (gw_calls w @ pre)) account (gw_credits w)) = Allowed)"

definition submitted :: "gateway_env \<Rightarrow> meili_context \<Rightarrow> gateway_world \<Rightarrow> gateway_error + ingest_response \<Rightarrow> gateway_world \<Rightarrow> bool" where
  "submitted env c w r w' \<longleftrightarrow> (\<exists>pre. list_all is_check pre \<and>
     (case r of
        Inr resp \<Rightarrow> granted env c w pre \<and> (\<exists>start rec. gw_calls w' = gw_calls w @ pre @ [start, CreateJob rec]
          \<and> started_job start = Some (ir_job_id resp) \<and> jr_job_id rec = ir_job_id resp
          \<and> jr_tenant_id rec = ctx_tenant_id c \<and> jr_status rec = Queued)
      | Inl e \<Rightarrow> gw_calls w' = gw_calls w @ pre
          \<or> granted env c w pre \<and> (\<exists>start job m. gw_calls w' = gw_calls w @ pre @ [start] \<and> started_job start = Some job
              \<and> ge_start env (gw_calls w') = Inl m)))"

lemma submitted_refused: "adds is_check w w' \<Longrightarrow> submitted env c w (Inl e) w'"
  by (auto simp: submitted_def adds_def)

lemma granted_after:
  assumes "gw_calls w1 = gw_calls w @ cs" "gw_credits w1 = gw_credits w" "granted env c w1 pre"
  shows "granted env c w (cs @ pre)"
  using assms by (auto simp: granted_def)

lemma submitted_after:
  assumes "quiet w w1" "submitted env c w1 r w'"
  shows "submitted env c w r w'"
proof -
  obtain cs where cs: "gw_calls w1 = gw_calls w @ cs" "list_all is_check cs" "gw_credits w1 = gw_credits w"
    using assms(1) by (auto simp: quiet_def adds_def)
  obtain pre where pre: "list_all is_check pre"
    and shape: "case r of
        Inr resp \<Rightarrow> granted env c w1 pre \<and> (\<exists>start rec. gw_calls w' = gw_calls w1 @ pre @ [start, CreateJob rec]
          \<and> started_job start = Some (ir_job_id resp) \<and> jr_job_id rec = ir_job_id resp
          \<and> jr_tenant_id rec = ctx_tenant_id c \<and> jr_status rec = Queued)
      | Inl e \<Rightarrow> gw_calls w' = gw_calls w1 @ pre
          \<or> granted env c w1 pre \<and> (\<exists>start job m. gw_calls w' = gw_calls w1 @ pre @ [start] \<and> started_job start = Some job
              \<and> ge_start env (gw_calls w') = Inl m)"
    using assms(2) by (auto simp: submitted_def)
  show ?thesis
    unfolding submitted_def
    using cs pre shape granted_after[OF cs(1,3), of env c pre] by (intro exI[of _ "cs @ pre"]) (auto split: sum.splits)
qed

lemma submitted_then:
  assumes "quiet w (snd r)"
    and "\<And>x w1. r = (Inr x, w1) \<Longrightarrow> submitted env c w1 (fst (f x w1)) (snd (f x w1))"
  shows "submitted env c w (fst (and_then r f)) (snd (and_then r f))"
proof (cases r)
  case (Pair s w1)
  then show ?thesis
    using assms submitted_after[of w w1] submitted_refused[of w w1] by (cases s) (auto simp: quiet_def)
qed

text \<open>From the credit check on nothing is asked but to start and record the job.\<close>

lemma credits_granted:
  assumes "check_tenant_credits env (ctx_tenant_id c) w = (Inr (), w1)"
  shows "\<exists>pre. gw_calls w1 = gw_calls w @ pre \<and> list_all is_check pre \<and> granted env c w pre"
proof (cases "case ctx_tenant_id c of Some account \<Rightarrow> is_lab_account account \<and> ge_lab env \<noteq> None | None \<Rightarrow> False")
  case False
  then have "gw_calls w1 = gw_calls w"
    using assms by (auto simp: check_tenant_credits_def gateway_check_credits_def split: option.splits)
  then show ?thesis
    using False by (auto simp: granted_def)
next
  case True
  then obtain account where a: "ctx_tenant_id c = Some account" "is_lab_account account" "ge_lab env \<noteq> None"
    by (auto split: option.splits)
  let ?calls = "gw_calls w @ [CheckCredits account]"
  let ?r = "check (gdebug env) (ge_account env ?calls) (ge_clock env ?calls) (ge_answered env ?calls) account (gw_credits w)"
  have lab: "ge_lab env = Some True" and calls: "gw_calls w1 = ?calls" and "fst ?r = Allowed \<or> fst ?r = NotALabAccount"
    using assms a by (auto simp: check_tenant_credits_def gateway_check_credits_def Let_def asked_def
        split: if_splits prod.splits credit_decision.splits)
  moreover have "fst ?r \<noteq> NotALabAccount"
    using a(2) by (auto simp: check_def decide_def split: prod.split option.split)
  ultimately show ?thesis
    using a by (intro exI[of _ "[CheckCredits account]"]) (auto simp: granted_def)
qed

lemma launch_shape:
  assumes "launch env start job pipeline c index shown w = (r, w')"
  shows "case r of
      Inr resp \<Rightarrow> ir_job_id resp = job \<and> (\<exists>rec. gw_calls w' = gw_calls w @ [start, CreateJob rec]
          \<and> jr_job_id rec = job \<and> jr_tenant_id rec = ctx_tenant_id c \<and> jr_status rec = Queued)
    | Inl e \<Rightarrow> gw_calls w' = gw_calls w @ [start] \<and> (\<exists>m. ge_start env (gw_calls w') = Inl m)"
  using assms
  by (cases "ge_start env (gw_calls w @ [start])")
    (auto simp: launch_def start_workflow_def create_job_def job_record_of_def asked_def Let_def)

lemma paid_launch:
  assumes "\<And>job input. started_job (start job input) = Some job"
    and "\<And>job w. gw_calls (snd (source job w)) = gw_calls w"
  shows "submitted env c w
    (fst (and_then (check_tenant_credits env (ctx_tenant_id c) w) (\<lambda>_ w. let job = ge_uuid env (gw_calls w) in
      and_then (source job w) (\<lambda>input w. launch env (start job input) job pipeline c index shown w))))
    (snd (and_then (check_tenant_credits env (ctx_tenant_id c) w) (\<lambda>_ w. let job = ge_uuid env (gw_calls w) in
      and_then (source job w) (\<lambda>input w. launch env (start job input) job pipeline c index shown w))))"
proof (cases "check_tenant_credits env (ctx_tenant_id c) w")
  case (Pair s w1)
  show ?thesis
  proof (cases s)
    case (Inl e)
    have "adds is_check w w1"
      using credits_name[of env c w] Pair by (auto simp: adds_def check_for_def list_all_iff)
    then show ?thesis
      using Pair Inl by (simp add: submitted_refused)
  next
    case (Inr u)
    obtain pre where pre: "gw_calls w1 = gw_calls w @ pre" "list_all is_check pre" "granted env c w pre"
      using credits_granted[of env c w w1] Pair Inr by auto
    let ?job = "ge_uuid env (gw_calls w1)"
    obtain x w2 where x: "source ?job w1 = (x, w2)"
      by fastforce
    have w2: "gw_calls w2 = gw_calls w @ pre"
      using assms(2)[of ?job w1] x pre(1) by simp
    show ?thesis
    proof (cases x)
      case (Inl e)
      then show ?thesis
        using Pair Inr x w2 pre by (auto simp: submitted_def Let_def)
    next
      fix input
      assume i: "x = Inr input"
      obtain r w' where r: "launch env (start ?job input) ?job pipeline c index shown w2 = (r, w')"
        by fastforce
      show ?thesis
        using Pair Inr x i r pre w2 launch_shape[OF r] assms(1)[of ?job input]
        by (auto simp: submitted_def Let_def split: sum.splits intro!: exI[of _ pre])
    qed
  qed
qed

lemma submit_archive_order:
  "submitted env c w (fst (submit_archive env p c forced locked mime w)) (snd (submit_archive env p c forced locked mime w))"
  unfolding submit_archive_def Let_def[of "archive_target_index _ _ _"] Let_def[of "case_option _ _ _"]
  by (intro submitted_then paid_launch quiet_intros) (simp_all)

lemma submit_pipeline_order:
  "submitted env c w (fst (submit_pipeline env p c locked mime r w)) (snd (submit_pipeline env p c locked mime r w))"
proof -
  obtain i c' where t: "target_index locked (rm_pipeline r) (rm_index_pattern r) mime (gc_default_index (ge_config env)) c = (i, c')"
    by fastforce
  have same: "submitted env c = submitted env c'"
    using target_index_pair[OF t] by (intro ext) (simp add: submitted_def granted_def cong: sum.case_cong)
  show ?thesis
    unfolding submit_pipeline_def Let_def[of "rm_pipeline r"] t same Let_def[of "(i, c')"] prod.case
    by (intro submitted_then paid_launch quiet_intros) (simp_all)
qed

lemma submit_one_order:
  "submitted env c w (fst (submit_one env p c selection locked w)) (snd (submit_one env p c selection locked w))"
proof (cases "payload_mime (ge_extract env) p")
  case (Some mime)
  then show ?thesis
    unfolding submit_one_def Let_def[of "payload_filename p"]
    by (auto intro!: submitted_then quiet_intros submit_archive_order submit_pipeline_order split: archive_plan.split)
qed (simp add: submit_one_def submitted_refused)

text \<open>C33. When a job starts. One item of a request starts at most one job, after every check on it: for a tenant
  with a Lab account, on a deployment with a Lab, the last call before the start asked for the credits of
  that very account, and they allow it. An item that is accepted has its job started and recorded, under the id it is answered
  with, and nothing is asked afterwards; one that is refused started none, or Temporal refused the start.\<close>

theorem job_starts_last:
  "submitted env c w (fst (submit_one env p c selection locked w)) (snd (submit_one env p c selection locked w))"
  by (rule submit_one_order)

section \<open>The index of the path\<close>

lemma dropWhile_none: "\<forall>x \<in> set xs. \<not> P x \<Longrightarrow> dropWhile P xs = xs"
  by (cases xs) auto

lemma trim_no_whitespace: "list_all (\<lambda>c. \<not> is_whitespace c) s \<Longrightarrow> trim s = s"
  by (simp add: trim_def trim_start_def trim_end_def list_all_iff dropWhile_none)

lemma path_index_trimmed:
  assumes "path_index env uid = Inr i"
  shows "i = uid \<and> i \<noteq> [] \<and> trim i = i"
proof -
  have "\<not> is_whitespace x" if "is_ascii_alphanumeric x \<or> x = 45 \<or> x = 95" for x
    using that by (auto simp: is_ascii_alphanumeric_def is_ascii_digit_def is_whitespace_def)
  then show ?thesis
    using assms by (auto simp: path_index_def list_all_iff intro!: trim_no_whitespace split: if_splits)
qed

lemma refuse_other_Inr:
  "refuse_other_index env p (Some i) = Inr () \<Longrightarrow> set (step_indexes p) \<subseteq> {i}"
  by (auto simp: refuse_other_index_def find_None_iff split: option.splits)

text \<open>What the index step of a job is configured with, once the workflow merged the context in.\<close>

lemma index_step_config:
  assumes "s \<in> set (pl_steps (wi_pipeline inp))" "step_plugin s = INDEXER_PLUGIN"
    "set (step_indexes (wi_pipeline inp)) \<subseteq> {i}" "ctx_index (wi_context inp) = Some i" "trim i = i"
  shows "\<exists>v. json_get (step_config_of s inp) (lit ''index'') = Some v \<and> (\<forall>name. json_as_str v = Some name \<longrightarrow> trim name = [] \<or> trim name = i)"
proof -
  have got: "json_get (step_config_of s inp) (lit ''index'')
      = (case json_get (step_config s) (lit ''index'') of Some x \<Rightarrow> Some x | None \<Rightarrow> Some (JString i))"
    using assms(2,4) by (simp add: step_config_of_def inject_meili_context_get context_fields_get destination_key_def)
  show ?thesis
  proof (cases "json_get (step_config s) (lit ''index'')")
    case None
    then show ?thesis
      using got assms(5) by simp
  next
    case (Some v)
    have "trim name = [] \<or> trim name = i" if "json_as_str v = Some name" for name
    proof (rule disjCI)
      assume "trim name \<noteq> i"
      have "step_index_name s = (if trim name = [] then None else Some (trim name))"
        using that Some by (simp add: step_index_name_def Let_def)
      moreover have "s \<in> set (indexer_steps (wi_pipeline inp))"
        using assms(1,2) by (simp add: indexer_steps_def)
      ultimately have "trim name \<noteq> [] \<Longrightarrow> trim name \<in> set (step_indexes (wi_pipeline inp))"
        by (force simp: step_indexes_def set_map_filter)
      then show "trim name = []"
        using assms(3) \<open>trim name \<noteq> i\<close> by auto
    qed
    then show ?thesis
      using got Some by simp
  qed
qed

text \<open>A job that writes to \<open>i\<close> only.\<close>

fun writes_only :: "rstr \<Rightarrow> gateway_call \<Rightarrow> bool" where
  "writes_only i (StartJob inp) \<longleftrightarrow> ctx_index (wi_context inp) = Some i \<and> set (step_indexes (wi_pipeline inp)) \<subseteq> {i}"
| "writes_only i (StartArchive inp) \<longleftrightarrow> ai_locked_index inp = Some i
     \<and> (\<forall>f. ai_forced inp = Some f \<longrightarrow> set (step_indexes (fp_pipeline f)) \<subseteq> {i})"
| "writes_only i _ \<longleftrightarrow> True"

lemma launch_adds: "writes_only i start \<Longrightarrow> adds (writes_only i) w (snd (launch env start job pipeline c index shown w))"
  unfolding launch_def start_workflow_def
  by (auto simp: Let_def create_job_def intro!: adds_then)

lemma checks_write_nothing: "is_check a \<Longrightarrow> writes_only i a"
  by (cases a) auto

lemma quiet_writes_nothing: "quiet w w' \<Longrightarrow> adds (writes_only i) w w'"
  by (auto simp: quiet_def adds_def list_all_iff intro: checks_write_nothing)

lemma credits_write_nothing: "adds (writes_only i) w (snd (check_tenant_credits env (ctx_tenant_id (c :: meili_context)) w))"
  using credits_name[of env c w] by (auto simp: adds_def check_for_def list_all_iff intro: checks_write_nothing)

lemmas write_intros = launch_adds credits_write_nothing quiet_intros[THEN quiet_writes_nothing]

lemma archive_locked:
  "adds (writes_only i) w (snd (submit_archive env p c forced (Some i) mime w))"
  unfolding submit_archive_def Let_def
  by (auto intro!: adds_then write_intros dest!: refuse_other_Inr
      simp: check_forced_def try_bind_eq_Inr split: option.splits)

lemma pipeline_locked:
  "adds (writes_only i) w (snd (submit_pipeline env p c (Some i) mime r w))"
  unfolding submit_pipeline_def Let_def target_index_def
  by (auto intro!: adds_then write_intros dest!: refuse_other_Inr simp: try_bind_eq_Inr)

lemma one_locked:
  "adds (writes_only i) w (snd (submit_one env p c selection (Some i) w))"
proof (cases "payload_mime (ge_extract env) p")
  case (Some mime)
  then show ?thesis
    unfolding submit_one_def Let_def
    by (auto intro!: adds_then write_intros archive_locked pipeline_locked split: archive_plan.split)
qed (simp add: submit_one_def)

lemma batch_locked: "adds (writes_only i) w (snd (submit_batch env items c selection (Some i) w))"
proof (induction items arbitrary: w)
  case (Cons p ps)
  obtain r w1 where one: "submit_one env p c selection (Some i) w = (r, w1)"
    by fastforce
  obtain es w2 where rest: "submit_batch env ps c selection (Some i) w1 = (es, w2)"
    by fastforce
  have "adds (writes_only i) w w1" "adds (writes_only i) w1 w2"
    using one_locked[of i w env p c selection] one Cons.IH[of w1] rest by simp_all
  then show ?case
    using one rest adds_trans by (simp add: Let_def)
qed simp

text \<open>A job whose index steps name \<open>i\<close> once they are configured, or an archive whose files get such jobs.\<close>

fun goes_to :: "rstr \<Rightarrow> gateway_call \<Rightarrow> bool" where
  "goes_to i (StartJob inp) \<longleftrightarrow> (\<forall>s \<in> set (pl_steps (wi_pipeline inp)). step_plugin s = INDEXER_PLUGIN \<longrightarrow>
     (\<exists>v. json_get (step_config_of s inp) (lit ''index'') = Some v
        \<and> (\<forall>name. json_as_str v = Some name \<longrightarrow> trim name = [] \<or> trim name = i)))"
| "goes_to i (StartArchive inp) \<longleftrightarrow> ai_locked_index inp = Some i
     \<and> (\<forall>f. ai_forced inp = Some f \<longrightarrow> set (step_indexes (fp_pipeline f)) \<subseteq> {i})"
| "goes_to i _ \<longleftrightarrow> True"

lemma writes_only_goes_to: "writes_only i a \<Longrightarrow> trim i = i \<Longrightarrow> goes_to i a"
  by (cases a) (auto intro!: index_step_config)

lemma ingest_locked: "adds (writes_only i) w (snd (ingest env headers query req (Some i) w))"
  by (auto simp: ingest_def one_locked split: sum.split ingest_payload.split)

lemma ingest_batch_locked: "adds (writes_only i) w (snd (ingest_batch env headers query req (Some i) w))"
proof -
  have "adds (writes_only i) w w1" if "submit_batch env items c s (Some i) w = (es, w1)" for items c s es w1
    using batch_locked[of i w env items c s] that by simp
  then show ?thesis
    by (auto simp: ingest_batch_def Let_def split: sum.split prod.split)
qed

lemma named_locked: "adds (writes_only i) w (snd (ingest_with_pipeline env name headers query req (Some i) w))"
proof -
  have one: "adds (writes_only i) v v1" if "submit_one env q c s (Some i) v = (r, v1)" for q c s r v v1
    using one_locked[of i v env q c s] that by simp
  have many: "adds (writes_only i) v v1" if "submit_batch env items c s (Some i) v = (es, v1)" for items c s es v v1
    using batch_locked[of i v env items c s] that by simp
  show ?thesis
    unfolding ingest_with_pipeline_def control_pipeline_def Let_def
    using one many by (intro adds_then) (auto split: prod.splits ingest_payload.split)
qed

lemma under_path:
  assumes "\<And>w. adds (writes_only uid) w (snd (f uid w))"
  shows "adds (goes_to uid) w (snd (and_then (path_index env uid, w) f))"
proof (cases "path_index env uid")
  case (Inr i)
  have "goes_to uid a" if "writes_only uid a" for a
    using path_index_trimmed[OF Inr] by (auto intro: writes_only_goes_to[OF that])
  then show ?thesis
    using Inr path_index_trimmed[OF Inr] assms[of w] by (auto simp: adds_def list_all_iff)
qed simp

text \<open>C34. Where a job under an index's path writes. Whatever the request, the pipeline it names and the one that is
  routed to, a job started by a route under \<open>/indexes/{uid}\<close> has no index step that, configured by the workflow,
  names another index, and an archive carries the index to its files, whose named pipeline names no other.\<close>

theorem path_index_only:
  "adds (goes_to uid) w (snd (ingest_into_index env uid headers query req w))
   \<and> adds (goes_to uid) w (snd (ingest_batch_into_index env uid headers query req w))
   \<and> adds (goes_to uid) w (snd (ingest_into_index_with_pipeline env uid name headers query req w))"
  by (simp add: ingest_into_index_def ingest_batch_into_index_def ingest_into_index_with_pipeline_def
      under_path ingest_locked ingest_batch_locked named_locked)

text \<open>The index reported and preflighted for a job is the one the file of an archive would get: the two parts of the
  program that choose an index agree.\<close>

lemma gateway_index_agrees:
  assumes "\<And>i. locked = Some i \<Longrightarrow> i \<noteq> [] \<and> trim i = i"
  shows "fst (target_index locked p pattern mime d c) = file_index locked p pattern (ctx_index c) mime d"
  using assms by (cases locked) (auto simp: target_index_def file_index_def resolve_target_index_def Let_def
      non_blank_def split: option.split)

end
