(* ===== verification/Control_Pipelines.thy ===== *)
theory Control_Pipelines
  imports Archive_Files Plugin_Host Lab_Client Workflow
begin

text \<open>
  The pipelines of the control plane: \<open>crates/control-plane/src/pipelines.rs\<close> (the table and its routes),
  \<open>resolver.rs\<close> (the cache in front of it and \<open>POST /internal/resolve\<close>), \<open>builtin_pipelines.rs\<close> and the scope
  and token rules of \<open>lib.rs\<close>. A table is the list of its rows; a query is a function on the database that
  may fail, with or without its effect. Parameters: failures, the clock, the collation of the database,
  the JSON schema crate and the text of a debugged string. A definition is stored as it is: its JSON is serde's.
\<close>

section \<open>Names\<close>

definition IN_REPO_PLUGINS :: "rstr list" where
  "IN_REPO_PLUGINS = map lit [''pdf_extractor'', ''docx_extractor'', ''xlsx_extractor'', ''html_extractor'', ''markdown_extractor'',
     ''csv_parser'', ''json_flattener'', ''msgpack_parser'', ''avro_parser'', ''parquet_parser'', ''chunker'', ''document_script'',
     ''meili_indexer'', ''llm_enricher'', ''jev_enricher'', ''image_captioner'', ''pptx_extractor'', ''whisper_transcriber'',
     ''video_audio_extractor'']"

definition EXTERNAL_PLUGINS :: "rstr list" where
  "EXTERNAL_PLUGINS = map lit [''s3_downloader'', ''ocr'']"

definition builtin_plugin_names :: "rstr list" where
  "builtin_plugin_names = map lit [''pdf_extractor'', ''docx_extractor'', ''xlsx_extractor'', ''html_extractor'', ''markdown_extractor'',
     ''csv_parser'', ''json_flattener'', ''msgpack_parser'', ''avro_parser'', ''parquet_parser'', ''chunker'', ''document_script'',
     ''meili_indexer'', ''llm_enricher'', ''jev_enricher'', ''image_captioner'', ''pptx_extractor'', ''whisper_transcriber'',
     ''video_audio_extractor'', ''s3_downloader'', ''ocr'']"

lemma builtin_plugin_names_split: "builtin_plugin_names = IN_REPO_PLUGINS @ EXTERNAL_PLUGINS"
  by (simp add: builtin_plugin_names_def IN_REPO_PLUGINS_def EXTERNAL_PLUGINS_def)

definition is_known_plugin :: "rstr \<Rightarrow> bool" where
  "is_known_plugin name = List.member builtin_plugin_names name"

definition is_in_repo_plugin :: "rstr \<Rightarrow> bool" where
  "is_in_repo_plugin name = List.member IN_REPO_PLUGINS name"

definition BUILTIN_PREFIX :: rstr where "BUILTIN_PREFIX = lit ''builtin.''"

definition is_builtin_uid :: "rstr \<Rightarrow> bool" where
  "is_builtin_uid uid = starts_with uid BUILTIN_PREFIX"

section \<open>Scope and token\<close>

definition tenant_scope :: "rstr option \<Rightarrow> rstr option \<Rightarrow> rstr option" where
  "tenant_scope explicit project_header =
     (case non_blank explicit of Some t \<Rightarrow> Some t | None \<Rightarrow> non_blank project_header)"

definition control_plane_token_policy :: "rstr option \<Rightarrow> bool \<Rightarrow> rstr + rstr option" where
  "control_plane_token_policy token disabled =
     (case non_blank token of
        Some t \<Rightarrow> if t = lit ''CHANGE_ME''
                  then Inl (lit ''CONTROL_PLANE_TOKEN is the example placeholder CHANGE_ME; set a real token (openssl rand -hex 32) on the control plane, the gateway and the workers'')
                  else Inr (Some t)
      | None \<Rightarrow> if disabled then Inr None
                else Inl (lit ''CONTROL_PLANE_TOKEN is not set: the gateway and workers authenticate to /internal/* with it. Set it (openssl rand -hex 32) on all three services, or set CONTROL_PLANE_TOKEN_DISABLED=true in dev''))"

text \<open>\<open>None\<close>: the request passes. The argument is the configured token, the path and the header.\<close>

definition require_internal_token :: "rstr option \<Rightarrow> rstr \<Rightarrow> rstr option \<Rightarrow> cp_error option" where
  "require_internal_token internal_token path authorization =
     (case internal_token of None \<Rightarrow> None
      | Some expected \<Rightarrow>
          if \<not> starts_with path (lit ''/internal/'') then None
          else (case map_option trim (Option.bind authorization (\<lambda>v.
                     case strip_prefix v (lit ''Bearer '') of Some t \<Rightarrow> Some t | None \<Rightarrow> strip_prefix v (lit ''bearer ''))) of
                  Some t \<Rightarrow> if t = expected then None else Some CpUnauthorized
                | None \<Rightarrow> Some CpUnauthorized))"

section \<open>The database\<close>

record pipeline_row =
  pr_uid :: rstr
  pr_version :: int
  pr_definition :: pipeline_definition
  pr_tenant_id :: "rstr option"

record source_entry =
  se_id :: uuid
  se_pipeline_uid :: rstr
  se_tenant_id :: "rstr option"
  se_archived_at :: "nat option"
  se_paused :: bool
  se_updated_at :: nat

record connection_entry =
  ne_uid :: rstr
  ne_tenant_id :: "rstr option"

record cp_db =
  db_pipelines :: "pipeline_row list"
  db_sources :: "source_entry list"
  db_connections :: "connection_entry list"
  db_plugins :: "plugin_manifest list"

record cp_world =
  cw_db :: cp_db
  cw_cache :: "(nat \<times> pipeline_definition list) option"
  cw_queries :: nat

text \<open>\<open>qe_down\<close>: the error of the n-th query, if it fails, and whether it took effect nevertheless.
  \<open>qe_schema\<close> compiles a schema into the function that lists the errors of a value, with their paths.\<close>

record cp_db_env =
  qe_debug :: "rstr \<Rightarrow> rstr"
  qe_down :: "nat \<Rightarrow> (bool \<times> rstr) option"
  qe_text_le :: "rstr \<Rightarrow> rstr \<Rightarrow> bool"
  qe_schema :: "json \<Rightarrow> rstr + (json \<Rightarrow> (rstr \<times> rstr) list)"
  qe_clock :: "nat \<Rightarrow> nat"

definition opt_debug :: "cp_db_env \<Rightarrow> rstr option \<Rightarrow> rstr" where
  "opt_debug env x = (case x of None \<Rightarrow> lit ''None'' | Some s \<Rightarrow> lit ''Some('' @ qe_debug env s @ lit '')'')"

text \<open>A statement fails by itself or yields a value and the data after it; \<open>down\<close> is the failure of the connection.\<close>

definition attempt :: "(bool \<times> rstr) option \<Rightarrow> rstr + 'a \<times> 'db \<Rightarrow> 'db \<Rightarrow> (cp_error + 'a) \<times> 'db" where
  "attempt down outcome db =
     (case (down, outcome) of
        (Some (False, e), _) \<Rightarrow> (Inl (CpDb e), db)
      | (Some (True, e), Inr (_, db')) \<Rightarrow> (Inl (CpDb e), db')
      | (_, Inl e) \<Rightarrow> (Inl (CpDb e), db)
      | (None, Inr (x, db')) \<Rightarrow> (Inr x, db'))"

lemma attempt_Inr: "attempt down outcome db = (Inr x, db') \<longleftrightarrow> down = None \<and> outcome = Inr (x, db')"
  by (auto simp: attempt_def split: option.splits prod.splits sum.splits bool.splits)

lemma attempt_db: "attempt down outcome db = (r, db') \<Longrightarrow> db' = db \<or> (\<exists>x. outcome = Inr (x, db'))"
  by (auto simp: attempt_def split: option.splits prod.splits sum.splits bool.splits)

definition query :: "cp_db_env \<Rightarrow> (cp_db \<Rightarrow> rstr + 'a \<times> cp_db) \<Rightarrow> cp_world \<Rightarrow> (cp_error + 'a) \<times> cp_world" where
  "query env f w =
     (let (r, db) = attempt (qe_down env (cw_queries w)) (f (cw_db w)) (cw_db w)
      in (r, w\<lparr>cw_queries := cw_queries w + 1, cw_db := db\<rparr>))"

definition select :: "(cp_db \<Rightarrow> 'a) \<Rightarrow> cp_db \<Rightarrow> rstr + 'a \<times> cp_db" where
  "select f db = Inr (f db, db)"

fun insert_by :: "('a \<Rightarrow> 'a \<Rightarrow> bool) \<Rightarrow> 'a \<Rightarrow> 'a list \<Rightarrow> 'a list" where
  "insert_by le x [] = [x]"
| "insert_by le x (y # ys) = (if le x y then x # y # ys else y # insert_by le x ys)"

definition order_by :: "('a \<Rightarrow> 'a \<Rightarrow> bool) \<Rightarrow> 'a list \<Rightarrow> 'a list" where
  "order_by le xs = foldr (insert_by le) xs []"

text \<open>\<open>tenant_id IS NULL\<close> first, then the text keys in turn.\<close>

definition scope_first :: "('a \<Rightarrow> rstr option) \<Rightarrow> ('a \<Rightarrow> 'a \<Rightarrow> bool) \<Rightarrow> 'a \<Rightarrow> 'a \<Rightarrow> bool" where
  "scope_first tenant le x y = (if (tenant x = None) = (tenant y = None) then le x y else tenant y = None)"

definition by_scope :: "rstr option \<Rightarrow> rstr" where
  "by_scope tenant = (case tenant of Some t \<Rightarrow> t | None \<Rightarrow> [])"

section \<open>The pipelines table\<close>

definition into_definition :: "pipeline_row \<Rightarrow> pipeline_definition" where
  "into_definition r = (pr_definition r)\<lparr>pl_uid := pr_uid r, pl_version := (if 0 \<le> pr_version r then of_int (pr_version r) else 1),
     pl_tenant_id := pr_tenant_id r, pl_builtin := False\<rparr>"

definition visible_row :: "rstr option \<Rightarrow> rstr option \<Rightarrow> bool" where
  "visible_row row_tenant tenant \<longleftrightarrow> row_tenant = None \<or> tenant \<noteq> None \<and> row_tenant = tenant"

definition repo_list :: "cp_db_env \<Rightarrow> rstr option \<Rightarrow> cp_world \<Rightarrow> (cp_error + pipeline_definition list) \<times> cp_world" where
  "repo_list env tenant = query env (select (\<lambda>db. map into_definition
     (order_by (scope_first pr_tenant_id (\<lambda>x y. qe_text_le env (pr_uid x) (pr_uid y)))
       (filter (\<lambda>r. visible_row (pr_tenant_id r) tenant) (db_pipelines db)))))"

definition repo_list_all :: "cp_db_env \<Rightarrow> cp_world \<Rightarrow> (cp_error + pipeline_definition list) \<times> cp_world" where
  "repo_list_all env = query env (select (\<lambda>db. map into_definition
     (order_by (scope_first pr_tenant_id (\<lambda>x y.
         if pr_tenant_id x = pr_tenant_id y then qe_text_le env (pr_uid x) (pr_uid y)
         else qe_text_le env (by_scope (pr_tenant_id x)) (by_scope (pr_tenant_id y)))) (db_pipelines db))))"

text \<open>\<open>ORDER BY (tenant_id IS NULL) LIMIT 1\<close>: the tenant's row before the global one.\<close>

definition scoped_row :: "('a \<Rightarrow> rstr option) \<Rightarrow> rstr option \<Rightarrow> 'a list \<Rightarrow> 'a option" where
  "scoped_row row_tenant tenant rows =
     (case find (\<lambda>r. tenant \<noteq> None \<and> row_tenant r = tenant) rows of
        Some r \<Rightarrow> Some r
      | None \<Rightarrow> find (\<lambda>r. row_tenant r = None) rows)"

definition repo_get :: "cp_db_env \<Rightarrow> rstr \<Rightarrow> rstr option \<Rightarrow> cp_world \<Rightarrow> (cp_error + pipeline_definition option) \<times> cp_world" where
  "repo_get env uid tenant = query env (select (\<lambda>db.
     map_option into_definition (scoped_row pr_tenant_id tenant (filter (\<lambda>r. pr_uid r = uid) (db_pipelines db)))))"

definition same_key :: "rstr \<Rightarrow> rstr option \<Rightarrow> pipeline_row \<Rightarrow> bool" where
  "same_key uid tenant r \<longleftrightarrow> pr_uid r = uid \<and> by_scope (pr_tenant_id r) = by_scope tenant"

text \<open>The version column is a 32-bit integer: counting past its end is an error of the database.\<close>

definition I32_MAX :: int where "I32_MAX = 2147483647"

definition insert_pipeline_row :: "pipeline_definition \<Rightarrow> cp_db \<Rightarrow> rstr + pipeline_definition \<times> cp_db" where
  "insert_pipeline_row def db =
     (let requested = uint (max (pl_version def) 1) in
      case find (same_key (pl_uid def) (pl_tenant_id def)) (db_pipelines db) of
        None \<Rightarrow>
          let row = \<lparr>pr_uid = pl_uid def, pr_version = (if requested \<le> I32_MAX then requested else 1), pr_definition = def,
                pr_tenant_id = pl_tenant_id def\<rparr>
          in Inr (into_definition row, db\<lparr>db_pipelines := db_pipelines db @ [row]\<rparr>)
      | Some r \<Rightarrow>
          if pr_version r = I32_MAX then Inl (lit ''integer out of range'')
          else let row = r\<lparr>pr_version := pr_version r + 1, pr_definition := def\<rparr>
               in Inr (into_definition row, db\<lparr>db_pipelines := map (\<lambda>x. if same_key (pl_uid def) (pl_tenant_id def) x then row else x)
                    (db_pipelines db)\<rparr>))"

definition repo_upsert :: "cp_db_env \<Rightarrow> pipeline_definition \<Rightarrow> cp_world \<Rightarrow> (cp_error + pipeline_definition) \<times> cp_world" where
  "repo_upsert env def = query env (insert_pipeline_row def)"

definition repo_delete :: "cp_db_env \<Rightarrow> rstr \<Rightarrow> rstr option \<Rightarrow> cp_world \<Rightarrow> (cp_error + bool) \<times> cp_world" where
  "repo_delete env uid tenant = query env (\<lambda>db. Inr (list_ex (same_key uid tenant) (db_pipelines db),
     db\<lparr>db_pipelines := filter (\<lambda>r. \<not> same_key uid tenant r) (db_pipelines db)\<rparr>))"

definition feeds :: "rstr \<Rightarrow> rstr option \<Rightarrow> source_entry \<Rightarrow> bool" where
  "feeds uid tenant s \<longleftrightarrow> se_pipeline_uid s = uid \<and> by_scope (se_tenant_id s) = by_scope tenant \<and> se_archived_at s = None"

definition archive_source_row :: "nat \<Rightarrow> source_entry \<Rightarrow> source_entry" where
  "archive_source_row now s = s\<lparr>se_archived_at := Some now, se_paused := True, se_updated_at := now\<rparr>"

text \<open>One transaction: nothing to delete rolls the archiving back.\<close>

definition delete_rows :: "nat \<Rightarrow> rstr \<Rightarrow> rstr option \<Rightarrow> cp_db \<Rightarrow> rstr + (bool \<times> uuid list) \<times> cp_db" where
  "delete_rows now uid tenant db =
     (let archived = filter (feeds uid tenant) (db_sources db) in
      if \<not> list_ex (same_key uid tenant) (db_pipelines db) then Inr ((False, []), db)
      else Inr ((True, map se_id archived),
             db\<lparr>db_sources := map (\<lambda>s. if feeds uid tenant s then archive_source_row now s else s) (db_sources db),
                db_pipelines := filter (\<lambda>r. \<not> same_key uid tenant r) (db_pipelines db)\<rparr>))"

definition delete_cascading ::
  "cp_db_env \<Rightarrow> rstr \<Rightarrow> rstr option \<Rightarrow> cp_world \<Rightarrow> (cp_error + bool \<times> uuid list) \<times> cp_world" where
  "delete_cascading env uid tenant w = query env (delete_rows (qe_clock env (cw_queries w)) uid tenant) w"

section \<open>Checks of a definition\<close>

fun unknown_from :: "rstr list \<Rightarrow> step_definition list \<Rightarrow> rstr list \<Rightarrow> rstr list" where
  "unknown_from registered [] out = out"
| "unknown_from registered (s # ss) out =
     (if is_known_plugin (step_plugin s) \<or> List.member registered (step_plugin s) \<or> List.member out (step_plugin s)
      then unknown_from registered ss out
      else unknown_from registered ss (out @ [step_plugin s]))"

definition unknown_plugins :: "pipeline_definition \<Rightarrow> rstr list \<Rightarrow> rstr list" where
  "unknown_plugins def registered = unknown_from registered (pl_steps def) []"

definition prepare_definition :: "cp_db_env \<Rightarrow> pipeline_definition \<Rightarrow> (cp_error + pipeline_definition) panic_or" where
  "prepare_definition env def =
     (if is_builtin_uid (pl_uid def)
      then Value (Inl (CpBuiltin (lit ''pipeline uid '' @ qe_debug env (pl_uid def)
             @ lit '' is reserved: built-in pipelines cannot be created or overwritten'')))
      else (let def = normalize def in
            case validate def of
              Panic \<Rightarrow> Panic
            | Value (Inl e) \<Rightarrow> Value (Inl (CpValidation (pipeline_error_str (qe_debug env) e)))
            | Value (Inr _) \<Rightarrow> Value (Inr (def\<lparr>pl_builtin := False\<rparr>))))"

definition step_config_errors :: "cp_db_env \<Rightarrow> plugin_manifest list \<Rightarrow> step_definition \<Rightarrow> rstr list" where
  "step_config_errors env manifests s =
     (case find (\<lambda>m. pm_name m = step_plugin s) manifests of
        None \<Rightarrow> []
      | Some m \<Rightarrow>
     (case qe_schema env (pm_config_schema m) of
        Inl _ \<Rightarrow> []
      | Inr errors \<Rightarrow>
          map (\<lambda>(path, e). lit ''step '' @ qe_debug env (step_id s) @ lit '' ('' @ step_plugin s @ lit ''): invalid config''
                 @ (if path = [] then [] else lit '' at '' @ path) @ lit '': '' @ e) (errors (step_config s))))"

definition config_errors :: "cp_db_env \<Rightarrow> pipeline_definition \<Rightarrow> plugin_manifest list \<Rightarrow> rstr list" where
  "config_errors env def manifests = concat (map (step_config_errors env manifests) (pl_steps def))"

definition unknown_plugin_error :: "cp_db_env \<Rightarrow> rstr list \<Rightarrow> cp_error" where
  "unknown_plugin_error env names =
     CpUnknownPlugin (lit ''unknown plugin '' @ join_with (lit '', '') (map (qe_debug env) names)
       @ lit '': not built in and not registered by any worker'')"

definition registered_manifests :: "cp_db_env \<Rightarrow> cp_world \<Rightarrow> (cp_error + plugin_manifest list) \<times> cp_world" where
  "registered_manifests env = query env (select (\<lambda>db. order_by (\<lambda>x y. qe_text_le env (pm_name x) (pm_name y)) (db_plugins db)))"

text \<open>\<open>get\<close> and \<open>get_owned\<close> of the connections, as far as they are looked up here.\<close>

definition connection_get :: "cp_db_env \<Rightarrow> rstr \<Rightarrow> rstr option \<Rightarrow> cp_world \<Rightarrow> (cp_error + connection_entry option) \<times> cp_world" where
  "connection_get env uid tenant = query env (select (\<lambda>db.
     scoped_row ne_tenant_id tenant (filter (\<lambda>r. ne_uid r = uid) (db_connections db))))"

definition get_owned :: "cp_db_env \<Rightarrow> rstr \<Rightarrow> rstr \<Rightarrow> cp_world \<Rightarrow> (cp_error + connection_entry option) \<times> cp_world" where
  "get_owned env uid tenant = query env (select (\<lambda>db.
     find (\<lambda>r. ne_uid r = uid \<and> ne_tenant_id r = Some tenant) (db_connections db)))"

fun missing_connections ::
  "cp_db_env \<Rightarrow> rstr option \<Rightarrow> step_definition list \<Rightarrow> cp_world \<Rightarrow> (cp_error + rstr list) \<times> cp_world" where
  "missing_connections env tenant [] w = (Inr [], w)"
| "missing_connections env tenant (s # ss) w =
     (case pinned_connection (step_config s) of
        None \<Rightarrow> missing_connections env tenant ss w
      | Some uid \<Rightarrow>
          and_then (case tenant of Some t \<Rightarrow> get_owned env uid t w | None \<Rightarrow> connection_get env uid None w) (\<lambda>found w.
          and_then (missing_connections env tenant ss w) (\<lambda>rest w.
            (Inr (if found = None
                  then (lit ''step '' @ qe_debug env (step_id s) @ lit '' ('' @ step_plugin s @ lit ''): connection '' @ qe_debug env uid
                    @ lit '' does not exist for this tenant (a tenant pipeline may only name its own connections; global ones are templates)'') # rest
                  else rest), w))))"

definition check_against_registry :: "cp_db_env \<Rightarrow> pipeline_definition \<Rightarrow> cp_world \<Rightarrow> (cp_error + unit) \<times> cp_world" where
  "check_against_registry env def w =
     and_then (registered_manifests env w) (\<lambda>manifests w.
       let unknown = unknown_plugins def (map pm_name manifests) in
       if unknown \<noteq> [] then (Inl (unknown_plugin_error env unknown), w)
       else and_then (missing_connections env (pl_tenant_id def) (indexer_steps def) w) (\<lambda>missing w.
         let errors = config_errors env def manifests @ missing in
         (if errors = [] then Inr () else Inl (CpValidation (join_with (lit ''; '') errors)), w)))"

section \<open>The routes\<close>

definition find_builtin :: "cp_db_env \<Rightarrow> rstr \<Rightarrow> cp_error + pipeline_definition" where
  "find_builtin env uid =
     (case find (\<lambda>p. pl_uid p = uid) builtin_pipelines of
        Some p \<Rightarrow> Inr p
      | None \<Rightarrow> Inl (CpNotFound (lit ''pipeline '' @ qe_debug env uid @ lit '' not found'')))"

definition list_pipelines ::
  "cp_db_env \<Rightarrow> rstr option \<Rightarrow> rstr option \<Rightarrow> cp_world \<Rightarrow> (cp_error + pipeline_definition list) \<times> cp_world" where
  "list_pipelines env tenant_query project_header w =
     and_then (repo_list env (tenant_scope tenant_query project_header) w) (\<lambda>ps w. (Inr (ps @ builtin_pipelines), w))"

definition cache_invalidate :: "cp_world \<Rightarrow> cp_world" where
  "cache_invalidate w = w\<lparr>cw_cache := None\<rparr>"

definition validate_pipeline ::
  "cp_db_env \<Rightarrow> rstr option \<Rightarrow> pipeline_definition \<Rightarrow> cp_world
   \<Rightarrow> ((cp_error + rstr list \<times> pipeline_definition) \<times> cp_world) panic_or" where
  "validate_pipeline env project_header def w =
     (case prepare_definition env def of
        Panic \<Rightarrow> Panic
      | Value (Inl e) \<Rightarrow> Value (Inl e, w)
      | Value (Inr def) \<Rightarrow>
          let def = def\<lparr>pl_tenant_id := tenant_scope (pl_tenant_id def) project_header\<rparr> in
          (case check_against_registry env def w of
             (Inl e, w) \<Rightarrow> Value (Inl e, w)
           | (Inr _, w) \<Rightarrow>
          (case validate def of
             Panic \<Rightarrow> Panic
           | Value (Inl e) \<Rightarrow> Value (Inl (CpValidation (pipeline_error_str (qe_debug env) e)), w)
           | Value (Inr order) \<Rightarrow> Value (Inr (order, def), w))))"

definition create_pipeline ::
  "cp_db_env \<Rightarrow> rstr option \<Rightarrow> pipeline_definition \<Rightarrow> cp_world \<Rightarrow> ((cp_error + pipeline_definition) \<times> cp_world) panic_or" where
  "create_pipeline env project_header def w =
     (case prepare_definition env def of
        Panic \<Rightarrow> Panic
      | Value (Inl e) \<Rightarrow> Value (Inl e, w)
      | Value (Inr def) \<Rightarrow>
          let def = def\<lparr>pl_tenant_id := tenant_scope (pl_tenant_id def) project_header\<rparr> in
          Value (and_then (check_against_registry env def w) (\<lambda>_ w.
                 and_then (repo_upsert env def w) (\<lambda>stored w. (Inr stored, cache_invalidate w)))))"

definition get_pipeline ::
  "cp_db_env \<Rightarrow> rstr \<Rightarrow> rstr option \<Rightarrow> rstr option \<Rightarrow> cp_world \<Rightarrow> (cp_error + pipeline_definition) \<times> cp_world" where
  "get_pipeline env uid tenant_query project_header w =
     (if is_builtin_uid uid then (find_builtin env uid, w)
      else and_then (repo_get env uid (tenant_scope tenant_query project_header) w) (\<lambda>found w.
             (case found of Some def \<Rightarrow> Inr def | None \<Rightarrow> find_builtin env uid, w)))"

definition delete_pipeline ::
  "cp_db_env \<Rightarrow> rstr \<Rightarrow> rstr option \<Rightarrow> rstr option \<Rightarrow> cp_world \<Rightarrow> (cp_error + uuid list) \<times> cp_world" where
  "delete_pipeline env uid tenant_query project_header w =
     (if is_builtin_uid uid
      then (Inl (CpBuiltin (lit ''pipeline '' @ qe_debug env uid @ lit '' is built in and cannot be deleted'')), w)
      else let tenant = tenant_scope tenant_query project_header in
           and_then (delete_cascading env uid tenant w) (\<lambda>(deleted, archived) w.
             if deleted then (Inr archived, cache_invalidate w)
             else (Inl (CpNotFound (lit ''pipeline '' @ qe_debug env uid @ lit '' not found (tenant_id='' @ opt_debug env tenant @ lit '')'')), w)))"

section \<open>The resolver\<close>

definition DEFAULT_CACHE_TTL :: nat where "DEFAULT_CACHE_TTL = 5000"

definition cache_is_fresh :: "nat \<Rightarrow> nat \<Rightarrow> cp_world \<Rightarrow> bool" where
  "cache_is_fresh ttl now w = (case cw_cache w of Some (loaded, _) \<Rightarrow> now - loaded < ttl | None \<Rightarrow> False)"

definition cache_set :: "nat \<Rightarrow> pipeline_definition list \<Rightarrow> cp_world \<Rightarrow> cp_world" where
  "cache_set now ps w = w\<lparr>cw_cache := Some (now, ps)\<rparr>"

definition get_or_load :: "cp_db_env \<Rightarrow> nat \<Rightarrow> nat \<Rightarrow> cp_world \<Rightarrow> (cp_error + pipeline_definition list) \<times> cp_world" where
  "get_or_load env ttl now w =
     (case cw_cache w of
        Some (loaded, ps) \<Rightarrow>
          if now - loaded < ttl then (Inr ps, w)
          else and_then (repo_list_all env w) (\<lambda>ps w. (Inr ps, cache_set (qe_clock env (cw_queries w)) ps w))
      | None \<Rightarrow> and_then (repo_list_all env w) (\<lambda>ps w. (Inr ps, cache_set (qe_clock env (cw_queries w)) ps w)))"

record cp_resolve_request =
  cq_mime :: rstr
  cq_filename :: "rstr option"
  cq_tenant_id :: "rstr option"
  cq_pipeline :: "rstr option"

definition scope_pipelines :: "pipeline_definition list \<Rightarrow> rstr option \<Rightarrow> pipeline_definition list" where
  "scope_pipelines all tenant =
     filter (\<lambda>p. case (pl_tenant_id p, tenant) of (None, _) \<Rightarrow> True | (Some pid, Some req) \<Rightarrow> pid = req | (Some _, None) \<Rightarrow> False) all"

definition resolve_with :: "cp_db_env \<Rightarrow> pipeline_definition list \<Rightarrow> cp_resolve_request \<Rightarrow> cp_error + route_match" where
  "resolve_with env candidates req =
     map_sum id (\<lambda>p. \<lparr>rm_pipeline = p, rm_index_pattern = Option.bind (pl_trigger p) index_pattern\<rparr>)
       (case cq_pipeline req of
          Some uid \<Rightarrow> (case by_uid candidates uid (cq_tenant_id req) of
              Some p \<Rightarrow> Inr p
            | None \<Rightarrow> Inl (CpNotFound (lit ''pipeline '' @ qe_debug env uid @ lit '' not found (tenant_id='' @ opt_debug env (cq_tenant_id req) @ lit '')'')))
        | None \<Rightarrow> (case resolve candidates \<lparr>rq_mime = cq_mime req, rq_filename = cq_filename req, rq_tenant_id = cq_tenant_id req\<rparr> of
              Some m \<Rightarrow> Inr (rm_pipeline m)
            | None \<Rightarrow> Inl (CpNoPipeline (lit ''no pipeline matches mime '' @ qe_debug env (cq_mime req)
                @ (case cq_filename req of Some f \<Rightarrow> lit '' (filename '' @ qe_debug env f @ lit '')'' | None \<Rightarrow> [])))))"

definition resolve_route :: "cp_db_env \<Rightarrow> nat \<Rightarrow> cp_resolve_request \<Rightarrow> cp_world \<Rightarrow> (cp_error + route_match) \<times> cp_world" where
  "resolve_route env now req w =
     (if (case cq_pipeline req of Some uid \<Rightarrow> is_builtin_uid uid | None \<Rightarrow> False)
      then (resolve_with env builtin_pipelines req, w)
      else and_then (get_or_load env DEFAULT_CACHE_TTL now w) (\<lambda>user w.
             (resolve_with env (scope_pipelines user (cq_tenant_id req) @ builtin_pipelines) req, w)))"

section \<open>Queries\<close>

lemma query_Inr:
  "query env f w = (Inr x, w') \<longleftrightarrow>
     qe_down env (cw_queries w) = None \<and> (\<exists>db. f (cw_db w) = Inr (x, db) \<and> w' = w\<lparr>cw_queries := cw_queries w + 1, cw_db := db\<rparr>)"
  by (auto simp: query_def attempt_def split: option.splits prod.splits sum.splits bool.splits)

lemma query_db: "query env f w = (r, w') \<Longrightarrow> cw_db w' = cw_db w \<or> (\<exists>x. f (cw_db w) = Inr (x, cw_db w'))"
  by (auto simp: query_def split: prod.splits dest: attempt_db)

lemma query_cache [simp]: "cw_cache (snd (query env f w)) = cw_cache w"
  by (simp add: query_def split: prod.split)

lemma select_run: "qe_down env (cw_queries w) = None \<Longrightarrow> query env (select f) w = (Inr (f (cw_db w)), w\<lparr>cw_queries := cw_queries w + 1\<rparr>)"
  by (simp add: query_def attempt_def select_def)

lemma set_insert_by [simp]: "set (insert_by le x xs) = insert x (set xs)"
  by (induction xs) auto

lemma set_order_by [simp]: "set (order_by le xs) = set xs"
  by (induction xs) (auto simp: order_by_def)

text \<open>Reading changes nothing but the count of queries.\<close>

definition same_data :: "cp_world \<Rightarrow> cp_world \<Rightarrow> bool" where
  "same_data w w' \<longleftrightarrow> cw_db w' = cw_db w \<and> cw_cache w' = cw_cache w"

lemma select_same [simp]: "same_data w (snd (query env (select f) w))"
  by (auto simp: query_def select_def same_data_def split: prod.split dest: attempt_db)

lemma same_data_refl [simp]: "same_data w w"
  by (simp add: same_data_def)

lemma same_then:
  assumes "same_data w (snd r)" "\<And>x w1. r = (Inr x, w1) \<Longrightarrow> same_data w1 (snd (f x w1))"
  shows "same_data w (snd (and_then r f))"
proof (cases r)
  case (Pair s w1)
  then show ?thesis
    using assms by (cases s) (fastforce simp: same_data_def)+
qed

lemma missing_same: "same_data w (snd (missing_connections env tenant ss w))"
proof (induction ss arbitrary: w tenant)
  case (Cons s ss)
  show ?case
    by (cases "pinned_connection (step_config s)")
      (auto intro!: same_then Cons.IH simp: get_owned_def connection_get_def split: option.split)
qed simp

lemma registry_same: "same_data w (snd (check_against_registry env def w))"
  unfolding check_against_registry_def Let_def
  by (auto intro!: same_then missing_same simp: registered_manifests_def)

section \<open>Rows and keys\<close>

definition row_key :: "pipeline_row \<Rightarrow> rstr \<times> rstr option" where
  "row_key r = (pr_uid r, pr_tenant_id r)"

definition table_ok :: "cp_db \<Rightarrow> bool" where
  "table_ok db \<longleftrightarrow> distinct (map row_key (db_pipelines db))
     \<and> (\<forall>r \<in> set (db_pipelines db). pr_tenant_id r \<noteq> Some [] \<and> \<not> is_builtin_uid (pr_uid r) \<and> pr_uid r = pl_uid (pr_definition r))"

lemma by_scope_eq: "x \<noteq> Some [] \<Longrightarrow> y \<noteq> Some [] \<Longrightarrow> by_scope x = by_scope y \<longleftrightarrow> x = y"
  by (auto simp: by_scope_def split: option.splits)

lemma same_key_iff:
  "table_ok db \<Longrightarrow> tenant \<noteq> Some [] \<Longrightarrow> r \<in> set (db_pipelines db) \<Longrightarrow> same_key uid tenant r \<longleftrightarrow> row_key r = (uid, tenant)"
  using by_scope_eq by (auto simp: same_key_def row_key_def table_ok_def)

lemma tenant_scope_not_empty [simp]: "tenant_scope x y \<noteq> Some []"
  by (auto simp: tenant_scope_def non_blank_def Let_def split: option.splits if_splits)

lemma row_unique:
  "table_ok db \<Longrightarrow> r \<in> set (db_pipelines db) \<Longrightarrow> r' \<in> set (db_pipelines db) \<Longrightarrow> row_key r = row_key r' \<Longrightarrow> r = r'"
  by (auto simp: table_ok_def distinct_map dest: inj_onD)

lemma find_in: "find P xs = Some x \<Longrightarrow> x \<in> set xs \<and> P x"
  by (induction xs) (auto split: if_splits)

lemma scoped_row_own:
  assumes "table_ok db" "r \<in> set (db_pipelines db)"
  shows "scoped_row pr_tenant_id (pr_tenant_id r) (filter (\<lambda>x. pr_uid x = pr_uid r) (db_pipelines db)) = Some r"
proof -
  let ?rows = "filter (\<lambda>x. pr_uid x = pr_uid r) (db_pipelines db)"
  have only: "x = r" if "x \<in> set ?rows" "pr_tenant_id x = pr_tenant_id r" for x
    using row_unique[OF assms(1), of x r] that assms(2) by (simp add: row_key_def)
  have found: "find (\<lambda>x. pr_tenant_id x = pr_tenant_id r) ?rows = Some r"
  proof (cases "find (\<lambda>x. pr_tenant_id x = pr_tenant_id r) ?rows")
    case None
    then show ?thesis
      using assms(2) by (auto simp: find_None_iff)
  next
    case (Some x)
    then have "x \<in> set ?rows" "pr_tenant_id x = pr_tenant_id r"
      using find_in[OF Some] by auto
    then show ?thesis
      using Some only by simp
  qed
  show ?thesis
  proof (cases "pr_tenant_id r")
    case None
    then show ?thesis
      using found by (simp add: scoped_row_def find_None_iff[THEN iffD2] split: option.split)
  next
    case (Some t)
    then show ?thesis
      using found by (simp add: scoped_row_def)
  qed
qed

text \<open>What an upsert leaves behind.\<close>

lemma insert_pipeline_row_stores:
  assumes ok: "table_ok db" and ins: "insert_pipeline_row def db = Inr (stored, db')"
    and def: "pl_tenant_id def \<noteq> Some []" "\<not> is_builtin_uid (pl_uid def)"
  shows "\<exists>r \<in> set (db_pipelines db'). row_key r = (pl_uid def, pl_tenant_id def) \<and> pr_definition r = def \<and> stored = into_definition r
    \<and> table_ok db' \<and> db_sources db' = db_sources db
    \<and> (\<forall>x. \<not> same_key (pl_uid def) (pl_tenant_id def) x \<longrightarrow> (x \<in> set (db_pipelines db') \<longleftrightarrow> x \<in> set (db_pipelines db)))
    \<and> (\<forall>x \<in> set (db_pipelines db). row_key x = (pl_uid def, pl_tenant_id def) \<longrightarrow> pr_version r = pr_version x + 1)"
proof (cases "find (same_key (pl_uid def) (pl_tenant_id def)) (db_pipelines db)")
  case None
  then have new: "row_key x \<noteq> (pl_uid def, pl_tenant_id def)" if "x \<in> set (db_pipelines db)" for x
    using same_key_iff[OF ok def(1) that] that by (auto simp: find_None_iff)
  obtain row where row: "db' = db\<lparr>db_pipelines := db_pipelines db @ [row]\<rparr>" "stored = into_definition row"
      "row_key row = (pl_uid def, pl_tenant_id def)" "pr_definition row = def"
    using ins None by (auto simp: insert_pipeline_row_def Let_def row_key_def)
  have "same_key (pl_uid def) (pl_tenant_id def) row"
    using row(3) by (simp add: same_key_def row_key_def)
  moreover have "row_key row \<notin> row_key ` set (db_pipelines db)"
    using new row(3) by force
  then have "table_ok db'"
    using ok row def by (auto simp: table_ok_def row_key_def)
  ultimately show ?thesis
    using row new by (intro bexI[of _ row]) auto
next
  case (Some r)
  then have r: "r \<in> set (db_pipelines db)" "same_key (pl_uid def) (pl_tenant_id def) r"
    using find_in[OF Some] by auto
  then have key: "row_key r = (pl_uid def, pl_tenant_id def)"
    using same_key_iff[OF ok def(1)] by blast
  let ?row = "r\<lparr>pr_version := pr_version r + 1, pr_definition := def\<rparr>"
  let ?f = "\<lambda>x. if same_key (pl_uid def) (pl_tenant_id def) x then ?row else x"
  have row: "db' = db\<lparr>db_pipelines := map ?f (db_pipelines db)\<rparr>" "stored = into_definition ?row"
    using ins Some by (auto simp: insert_pipeline_row_def Let_def split: if_splits)
  have same: "same_key (pl_uid def) (pl_tenant_id def) ?row"
    using r(2) by (simp add: same_key_def)
  have keys: "map row_key (map ?f (db_pipelines db)) = map row_key (db_pipelines db)"
    using same_key_iff[OF ok def(1)] key by (auto simp: row_key_def)
  then have "table_ok db'"
    using ok row(1) key def r by (auto simp: table_ok_def row_key_def simp del: map_map)
  moreover have "?row \<in> set (db_pipelines db')"
    using r row(1) by force
  moreover have "\<forall>x \<in> set (db_pipelines db). row_key x = (pl_uid def, pl_tenant_id def) \<longrightarrow> pr_version ?row = pr_version x + 1"
    using row_unique[OF ok r(1)] key by auto
  moreover have "\<forall>x. \<not> same_key (pl_uid def) (pl_tenant_id def) x \<longrightarrow> (x \<in> set (db_pipelines db') \<longleftrightarrow> x \<in> set (db_pipelines db))"
    using row(1) same by auto
  ultimately show ?thesis
    using row key by (intro bexI[of _ ?row]) (auto simp: row_key_def)
qed

lemma create_pipeline_Inr:
  assumes "create_pipeline env h def w = Value (Inr stored, w')"
  shows "\<exists>d w1 db'. prepare_definition env def = Value (Inr d)
    \<and> insert_pipeline_row (d\<lparr>pl_tenant_id := tenant_scope (pl_tenant_id d) h\<rparr>) (cw_db w) = Inr (stored, db')
    \<and> cw_db w' = db' \<and> cw_cache w' = None"
proof -
  obtain d where d: "prepare_definition env def = Value (Inr d)"
    using assms by (auto simp: create_pipeline_def split: panic_or.splits sum.splits)
  let ?d = "d\<lparr>pl_tenant_id := tenant_scope (pl_tenant_id d) h\<rparr>"
  obtain u w1 w2 where c: "check_against_registry env ?d w = (Inr u, w1)" and q: "repo_upsert env ?d w1 = (Inr stored, w2)"
    and w': "w' = cache_invalidate w2"
    using assms d by (auto simp: create_pipeline_def and_then_Inr Let_def)
  have "cw_db w1 = cw_db w"
    using registry_same[of w env ?d] c by (simp add: same_data_def)
  then show ?thesis
    using d q w' by (auto simp: repo_upsert_def query_Inr cache_invalidate_def)
qed

lemma prepared:
  assumes "prepare_definition env def = Value (Inr d)"
  shows "d = (normalize def)\<lparr>pl_builtin := False\<rparr> \<and> \<not> is_builtin_uid (pl_uid def) \<and> well_formed (normalize def)"
  using assms validate_accepts[of "normalize def"]
  by (auto simp: prepare_definition_def Let_def split: if_splits panic_or.splits sum.splits)

section \<open>A stored pipeline is found\<close>

lemma builtin_pipeline_tier: "tier (builtin_pipeline a b c d e) = 2"
  by (simp add: builtin_pipeline_def normalize_def tier_def)

lemma builtin_tier: "p \<in> set builtin_pipelines \<Longrightarrow> tier p = 2"
  by (auto simp: builtin_pipelines_def builtin_pipeline_tier)

lemma into_definition_simps [simp]:
  "pl_uid (into_definition r) = pr_uid r" "pl_tenant_id (into_definition r) = pr_tenant_id r"
  "pl_builtin (into_definition r) = False" "pl_steps (into_definition r) = pl_steps (pr_definition r)"
  by (simp_all add: into_definition_def)

lemma scope_pipelines_visible: "scope_pipelines ps tenant = filter (\<lambda>p. visible_to p tenant) ps"
proof -
  have "(case (pl_tenant_id p, tenant) of (None, _) \<Rightarrow> True | (Some pid, Some req) \<Rightarrow> pid = req | (Some _, None) \<Rightarrow> False)
      = visible_to p tenant" for p
    by (cases "pl_tenant_id p"; cases tenant) (simp_all add: visible_to_def)
  then show ?thesis
    by (simp add: scope_pipelines_def)
qed

lemma in_scope_pipelines: "p \<in> set (scope_pipelines ps tenant) \<longleftrightarrow> p \<in> set ps \<and> visible_to p tenant"
  by (auto simp: scope_pipelines_visible)

lemma by_uid_own:
  assumes ok: "table_ok db" and r: "r \<in> set (db_pipelines db)" and ps: "set ps = into_definition ` set (db_pipelines db)"
  shows "by_uid (scope_pipelines ps (pr_tenant_id r) @ builtin_pipelines) (pr_uid r) (pr_tenant_id r) = Some (into_definition r)"
proof -
  let ?all = "filter (\<lambda>p. pl_uid p = pr_uid r \<and> visible_to p (pr_tenant_id r)) (scope_pipelines ps (pr_tenant_id r) @ builtin_pipelines)"
  have mem: "into_definition r \<in> set ?all"
    using r ps by (auto simp: in_scope_pipelines visible_to_def split: option.split)
  then obtain p where p: "min_by_key tier ?all = Some p"
    by (metis empty_iff list.set(1) min_by_key_None not_Some_eq)
  have le: "tier p \<le> tier (into_definition r)"
    using min_by_key_le[OF p mem] .
  also have "\<dots> < 2"
    by (simp add: tier_def)
  finally have "p \<notin> set builtin_pipelines"
    using builtin_tier by force
  then obtain x where x: "x \<in> set (db_pipelines db)" "p = into_definition x" "pr_uid x = pr_uid r" "visible_to p (pr_tenant_id r)"
    using min_by_key_in[OF p] ps by (auto simp: in_scope_pipelines)
  then have "pr_tenant_id x = pr_tenant_id r"
    using le by (auto simp: tier_def visible_to_def split: option.splits if_splits)
  then have "x = r"
    using row_unique[OF ok x(1) r] x(3) by (simp add: row_key_def)
  then show ?thesis
    using p x(2) by (simp add: by_uid_alt)
qed

text \<open>C35. A pipeline that was accepted is the one that runs. After a create that succeeded, with a database that
  answers, both reading the pipeline in its scope and resolving its uid there give exactly what the create returned, whatever
  was cached before: the normalized steps of the body, a well-formed and acyclic pipeline under no reserved name, a version
  one above the one it replaces. No row of another name or scope changed, and names stay unique in each scope.\<close>

theorem created_pipeline_found:
  assumes create: "create_pipeline env h def w = Value (Inr stored, w')" and ok: "table_ok (cw_db w)"
    and up: "\<forall>n \<ge> cw_queries w'. qe_down env n = None" and scope: "tenant_scope tq ph = pl_tenant_id stored"
  shows "fst (get_pipeline env (pl_uid def) tq ph w') = Inr stored
    \<and> (\<exists>m. fst (resolve_route env now \<lparr>cq_mime = mime, cq_filename = filename, cq_tenant_id = pl_tenant_id stored,
          cq_pipeline = Some (pl_uid def)\<rparr> w') = Inr m \<and> rm_pipeline m = stored)
    \<and> pl_tenant_id stored = tenant_scope (pl_tenant_id def) h
    \<and> pl_steps stored = pl_steps (normalize def) \<and> well_formed (normalize def)
    \<and> (\<forall>r \<in> set (db_pipelines (cw_db w)). row_key r = (pl_uid def, pl_tenant_id stored) \<longrightarrow>
        pl_version stored = (if 0 \<le> pr_version r + 1 then of_int (pr_version r + 1) else 1))
    \<and> (\<forall>r. \<not> same_key (pl_uid def) (pl_tenant_id stored) r \<longrightarrow>
        (r \<in> set (db_pipelines (cw_db w')) \<longleftrightarrow> r \<in> set (db_pipelines (cw_db w))))
    \<and> table_ok (cw_db w')"
proof -
  obtain d where d: "prepare_definition env def = Value (Inr d)"
    and ins: "insert_pipeline_row (d\<lparr>pl_tenant_id := tenant_scope (pl_tenant_id d) h\<rparr>) (cw_db w) = Inr (stored, cw_db w')"
    and cache: "cw_cache w' = None"
    using create_pipeline_Inr[OF create] by auto
  let ?d = "d\<lparr>pl_tenant_id := tenant_scope (pl_tenant_id d) h\<rparr>"
  have p: "d = (normalize def)\<lparr>pl_builtin := False\<rparr>" "\<not> is_builtin_uid (pl_uid def)" "well_formed (normalize def)"
    using prepared[OF d] by auto
  have uid: "pl_uid d = pl_uid def" "pl_tenant_id d = pl_tenant_id def"
    by (simp_all add: p(1) normalize_def)
  obtain r where r: "r \<in> set (db_pipelines (cw_db w'))" "row_key r = (pl_uid ?d, pl_tenant_id ?d)" "pr_definition r = ?d"
      "stored = into_definition r" "table_ok (cw_db w')"
      "\<forall>x. \<not> same_key (pl_uid ?d) (pl_tenant_id ?d) x \<longrightarrow>
        (x \<in> set (db_pipelines (cw_db w')) \<longleftrightarrow> x \<in> set (db_pipelines (cw_db w)))"
      "\<forall>x \<in> set (db_pipelines (cw_db w)). row_key x = (pl_uid ?d, pl_tenant_id ?d) \<longrightarrow> pr_version r = pr_version x + 1"
    using insert_pipeline_row_stores[OF ok ins] p(2) uid by auto
  have keys: "pr_uid r = pl_uid def" "pr_tenant_id r = tenant_scope (pl_tenant_id def) h"
    using r(2) uid by (simp_all add: row_key_def)
  have now_up: "qe_down env (cw_queries w') = None"
    using up by simp
  have "fst (get_pipeline env (pl_uid def) tq ph w') = Inr stored"
    using scoped_row_own[OF r(5,1)] keys scope r(4) p(2)
    by (simp add: get_pipeline_def repo_get_def select_run[OF now_up])
  moreover have "\<exists>m. fst (resolve_route env now \<lparr>cq_mime = mime, cq_filename = filename, cq_tenant_id = pl_tenant_id stored,
      cq_pipeline = Some (pl_uid def)\<rparr> w') = Inr m \<and> rm_pipeline m = stored"
  proof -
    obtain ps w1 where load: "get_or_load env DEFAULT_CACHE_TTL now w' = (Inr ps, w1)"
      and ps: "set ps = into_definition ` set (db_pipelines (cw_db w'))"
      by (simp add: get_or_load_def cache repo_list_all_def select_run[OF now_up])
    have "by_uid (scope_pipelines ps (pl_tenant_id stored) @ builtin_pipelines) (pl_uid def) (pl_tenant_id stored) = Some stored"
      using by_uid_own[OF r(5,1) ps] keys r(4) by simp
    then show ?thesis
      using p(2) by (simp add: resolve_route_def load resolve_with_def)
  qed
  moreover have "pl_steps stored = pl_steps (normalize def)" "pl_tenant_id stored = tenant_scope (pl_tenant_id def) h"
    using r(3,4) keys p(1) by simp_all
  moreover have "pl_version stored = (if 0 \<le> pr_version x + 1 then of_int (pr_version x + 1) else 1)"
    if "x \<in> set (db_pipelines (cw_db w))" "row_key x = (pl_uid def, pl_tenant_id stored)" for x
    using that r(4,7) uid keys by (auto simp: into_definition_def)
  ultimately show ?thesis
    using r(4,5,6) p(3) uid keys by auto
qed

section \<open>Deleting\<close>

lemma delete_rows_cases:
  assumes "delete_rows now uid tenant db = Inr ((deleted, ids), db')"
  shows "deleted = list_ex (same_key uid tenant) (db_pipelines db)
    \<and> (if deleted then db' = db\<lparr>db_sources := map (\<lambda>s. if feeds uid tenant s then archive_source_row now s else s) (db_sources db),
          db_pipelines := filter (\<lambda>r. \<not> same_key uid tenant r) (db_pipelines db)\<rparr>
        \<and> ids = map se_id (filter (feeds uid tenant) (db_sources db))
       else db' = db \<and> ids = [])"
  using assms by (auto simp: delete_rows_def Let_def split: if_splits)

text \<open>The row is gone and its sources are archived and paused.\<close>

definition deleted_with_sources :: "rstr \<Rightarrow> rstr option \<Rightarrow> cp_db \<Rightarrow> cp_db \<Rightarrow> bool" where
  "deleted_with_sources uid tenant db db' \<longleftrightarrow> list_ex (same_key uid tenant) (db_pipelines db)
     \<and> db_pipelines db' = filter (\<lambda>x. \<not> same_key uid tenant x) (db_pipelines db)
     \<and> (\<exists>now. db_sources db' = map (\<lambda>s. if feeds uid tenant s then archive_source_row now s else s) (db_sources db))
     \<and> \<not> list_ex (feeds uid tenant) (db_sources db')"

lemma delete_rows_deletes:
  assumes "delete_rows now uid tenant db = Inr ((True, ids), db')"
  shows "deleted_with_sources uid tenant db db' \<and> ids = map se_id (filter (feeds uid tenant) (db_sources db))"
proof -
  let ?archive = "map (\<lambda>s. if feeds uid tenant s then archive_source_row now s else s) (db_sources db)"
  have "\<not> feeds uid tenant (if feeds uid tenant s then archive_source_row now s else s)" for s
    by (simp add: feeds_def archive_source_row_def)
  then have "\<not> list_ex (feeds uid tenant) (map (\<lambda>s. if feeds uid tenant s then archive_source_row now s else s) ss)" for ss
    by (induction ss) simp_all
  note none_left = this[of "db_sources db"]
  have sel: "db_pipelines (db\<lparr>db_sources := x, db_pipelines := y\<rparr>) = y" "db_sources (db\<lparr>db_sources := x, db_pipelines := y\<rparr>) = x" for x y
    by simp_all
  have exists: "list_ex (same_key uid tenant) (db_pipelines db)"
    and db': "db' = db\<lparr>db_sources := ?archive, db_pipelines := filter (\<lambda>x. \<not> same_key uid tenant x) (db_pipelines db)\<rparr>"
    and ids: "ids = map se_id (filter (feeds uid tenant) (db_sources db))"
    using delete_rows_cases[OF assms] by (simp_all only: if_True)
  show ?thesis
    unfolding deleted_with_sources_def db'
    by (intro conjI exI[of _ now]) (simp_all only: sel exists ids none_left not_False_eq_True)
qed

text \<open>Deleting a pipeline and archiving its sources are one. Whatever fails, either the database is unchanged, or the
  row of exactly that uid and scope is gone and every source of the scope that fed it is archived and paused, others as they
  were. A success means the second, and answers the ids of those sources; a pipeline that is not there, or is built in, changes
  nothing.\<close>

theorem delete_is_atomic:
  assumes "delete_pipeline env uid tq ph w = (r, w')"
  shows "(cw_db w' = cw_db w \<or> \<not> is_builtin_uid uid \<and> deleted_with_sources uid (tenant_scope tq ph) (cw_db w) (cw_db w'))
    \<and> (case r of Inr ids \<Rightarrow> deleted_with_sources uid (tenant_scope tq ph) (cw_db w) (cw_db w')
          \<and> ids = map se_id (filter (feeds uid (tenant_scope tq ph)) (db_sources (cw_db w))) \<and> cw_cache w' = None
        | Inl _ \<Rightarrow> True)"
proof (cases "is_builtin_uid uid")
  case True
  then show ?thesis
    using assms by (auto simp: delete_pipeline_def)
next
  case False
  let ?tenant = "tenant_scope tq ph"
  let ?rows = "delete_rows (qe_clock env (cw_queries w)) uid ?tenant"
  obtain q w1 where q: "query env ?rows w = (q, w1)"
    by fastforce
  have del: "delete_pipeline env uid tq ph w = and_then (q, w1) (\<lambda>(deleted, archived) w.
      if deleted then (Inr archived, cache_invalidate w)
      else (Inl (CpNotFound (lit ''pipeline '' @ qe_debug env uid @ lit '' not found (tenant_id='' @ opt_debug env ?tenant @ lit '')'')), w))"
    using False q by (simp add: delete_pipeline_def delete_cascading_def Let_def)
  have db: "cw_db w' = cw_db w1"
    using assms unfolding del by (cases q) (auto simp: cache_invalidate_def split: if_splits)
  have moved: "cw_db w1 = cw_db w \<or> deleted_with_sources uid ?tenant (cw_db w) (cw_db w1)"
  proof (cases "cw_db w1 = cw_db w")
    case False
    then obtain x where x: "?rows (cw_db w) = Inr (x, cw_db w1)"
      using query_db[OF q] by blast
    obtain deleted ids where "x = (deleted, ids)"
      by fastforce
    then show ?thesis
      using delete_rows_cases[of "qe_clock env (cw_queries w)" uid ?tenant "cw_db w" deleted ids "cw_db w1"] x False
        delete_rows_deletes[of "qe_clock env (cw_queries w)" uid ?tenant "cw_db w" ids "cw_db w1"]
      by (cases deleted) simp_all
  qed simp
  show ?thesis
  proof (cases r)
    case (Inl e)
    then show ?thesis
      using moved db False by simp
  next
    case (Inr ids)
    then have "q = Inr (True, ids)" "cw_cache w' = None"
      using assms unfolding del by (cases q; auto simp: cache_invalidate_def split: if_splits)+
    then have "?rows (cw_db w) = Inr ((True, ids), cw_db w1)" "cw_cache w' = None"
      using q by (auto simp: query_Inr)
    then show ?thesis
      using delete_rows_deletes moved db False Inr by auto
  qed
qed

section \<open>Resolving\<close>

text \<open>What a tenant can be routed to. Whatever the cache holds, a pipeline resolved for a request is built in,
  global or of the tenant that asks; under an explicit uid it has that uid, and otherwise its trigger takes the file. The
  answer is the one the router gives on the whole list: the scope applied before changes nothing.\<close>

theorem resolve_in_scope:
  assumes "resolve_route env now req w = (Inr m, w')"
  shows "visible_to (rm_pipeline m) (cq_tenant_id req)
    \<and> rm_index_pattern m = Option.bind (pl_trigger (rm_pipeline m)) index_pattern
    \<and> (case cq_pipeline req of Some uid \<Rightarrow> pl_uid (rm_pipeline m) = uid
        | None \<Rightarrow> trigger_matches (rm_pipeline m) (cq_mime req) (cq_filename req))
    \<and> (\<exists>ps. (ps = [] \<or> (\<exists>w1. get_or_load env DEFAULT_CACHE_TTL now w = (Inr ps, w1))) \<and> resolve_with env (ps @ builtin_pipelines) req = Inr m)"
proof -
  obtain ps where ps: "ps = [] \<or> (\<exists>w1. get_or_load env DEFAULT_CACHE_TTL now w = (Inr ps, w1))"
    and m: "resolve_with env (scope_pipelines ps (cq_tenant_id req) @ builtin_pipelines) req = Inr m"
  proof (cases "case cq_pipeline req of Some uid \<Rightarrow> is_builtin_uid uid | None \<Rightarrow> False")
    case True
    then show ?thesis
      using assms that[of "[]"] by (simp add: resolve_route_def scope_pipelines_def)
  next
    case False
    then obtain user w1 where "get_or_load env DEFAULT_CACHE_TTL now w = (Inr user, w1)"
        "resolve_with env (scope_pipelines user (cq_tenant_id req) @ builtin_pipelines) req = Inr m"
      using assms by (auto simp: resolve_route_def and_then_Inr)
    then show ?thesis
      using that by blast
  qed
  have uid_f: "filter (\<lambda>p. pl_uid p = u \<and> visible_to p t) (scope_pipelines ps t @ builtin_pipelines)
      = filter (\<lambda>p. pl_uid p = u \<and> visible_to p t) (ps @ builtin_pipelines)" for u t
    by (auto simp: scope_pipelines_visible intro!: filter_cong)
  have match_f: "filter (matching r) (scope_pipelines ps (rq_tenant_id r) @ builtin_pipelines)
      = filter (matching r) (ps @ builtin_pipelines)" for r
    by (auto simp: scope_pipelines_visible matching_def intro!: filter_cong)
  have same: "resolve_with env (ps @ builtin_pipelines) req = Inr m"
    using m unfolding resolve_with_def by_uid_alt uid_f resolve_alt
      match_f[of "\<lparr>rq_mime = cq_mime req, rq_filename = cq_filename req, rq_tenant_id = cq_tenant_id req\<rparr>",
        unfolded route_request.select_convs] .
  moreover have "visible_to (rm_pipeline m) (cq_tenant_id req) \<and> rm_index_pattern m = Option.bind (pl_trigger (rm_pipeline m)) index_pattern
    \<and> (case cq_pipeline req of Some uid \<Rightarrow> pl_uid (rm_pipeline m) = uid
        | None \<Rightarrow> trigger_matches (rm_pipeline m) (cq_mime req) (cq_filename req))"
  proof (cases "cq_pipeline req")
    case None
    then show ?thesis
      using same by (auto simp: resolve_with_def resolve_alt matched_def matching_def map_sum_Inr dest!: min_by_key_in
          split: option.splits)
  next
    case (Some uid)
    then show ?thesis
      using same by (auto simp: resolve_with_def by_uid_alt map_sum_Inr dest!: min_by_key_in split: option.splits)
  qed
  ultimately show ?thesis
    using ps by blast
qed

section \<open>Witnesses\<close>

definition demo_def :: pipeline_definition where
  "demo_def = \<lparr>pl_uid = lit ''a'', pl_name = lit ''a'', pl_description = None, pl_version = 1, pl_trigger = None,
     pl_steps = [new_step (lit ''s'') (lit ''chunker'')], pl_builtin = False, pl_tenant_id = Some (lit ''t'')\<rparr>"

definition demo_cp_env :: cp_db_env where
  "demo_cp_env = \<lparr>qe_debug = id, qe_down = (\<lambda>_. None), qe_text_le = (\<lambda>_ _. True), qe_schema = (\<lambda>_. Inl []), qe_clock = id\<rparr>"

definition demo_pipeline_row :: pipeline_row where
  "demo_pipeline_row = \<lparr>pr_uid = lit ''a'', pr_version = 1, pr_definition = demo_def, pr_tenant_id = Some (lit ''t'')\<rparr>"

definition demo_source :: source_entry where
  "demo_source = \<lparr>se_id = lit ''i'', se_pipeline_uid = lit ''a'', se_tenant_id = Some (lit ''t''), se_archived_at = None,
     se_paused = False, se_updated_at = 0\<rparr>"

definition demo_cp_world :: cp_world where
  "demo_cp_world = \<lparr>cw_db = \<lparr>db_pipelines = [demo_pipeline_row], db_sources = [demo_source], db_connections = [], db_plugins = []\<rparr>,
     cw_cache = None, cw_queries = 0\<rparr>"

lemma demo_uid: "\<not> is_builtin_uid (lit ''a'')"
  by (simp add: is_builtin_uid_def BUILTIN_PREFIX_def starts_with_def lit_def)

lemma demo_table: "table_ok (cw_db demo_cp_world)"
  using demo_uid by (simp add: table_ok_def demo_cp_world_def demo_pipeline_row_def demo_def_def)

lemma demo_scope: "tenant_scope (Some (lit ''t'')) h = Some (lit ''t'')"
  by (simp add: tenant_scope_def non_blank_def trim_def trim_start_def trim_end_def) (simp add: lit_def is_whitespace_def)

lemma demo_prepared: "prepare_definition demo_cp_env demo_def = Value (Inr (normalize demo_def))"
proof -
  have "linear demo_def"
    by (simp add: linear_def demo_def_def new_step_def step_ids_def uid_char_def is_ascii_alphanumeric_def lit_def)
  then have "validate (normalize demo_def) = Value (Inr (step_ids demo_def))"
    by (rule linear_pipeline_accepted)
  then show ?thesis
    using demo_uid by (simp add: prepare_definition_def demo_def_def normalize_def)
qed

lemma demo_known: "is_known_plugin (lit ''chunker'')"
  by (simp add: is_known_plugin_def builtin_plugin_names_def)

lemma demo_steps: "pl_steps (normalize demo_def) = [new_step (lit ''s'') (lit ''chunker'')]"
  by (simp add: normalize_def normalize_steps_def demo_def_def)

lemma demo_registry: "fst (check_against_registry demo_cp_env (normalize demo_def) demo_cp_world) = Inr ()"
proof -
  have "indexer_steps (normalize demo_def) = []"
    unfolding indexer_steps_def demo_steps by (simp add: new_step_def INDEXER_PLUGIN_def)
  moreover have "registered_manifests demo_cp_env demo_cp_world = (Inr [], demo_cp_world\<lparr>cw_queries := 1\<rparr>)"
    by (simp add: registered_manifests_def query_def attempt_def select_def demo_cp_env_def demo_cp_world_def order_by_def)
  ultimately show ?thesis
    using demo_known unfolding check_against_registry_def unknown_plugins_def config_errors_def demo_steps
    by (simp add: step_config_errors_def new_step_def)
qed

lemma demo_created: "\<exists>stored w'. create_pipeline demo_cp_env None demo_def demo_cp_world = Value (Inr stored, w')
    \<and> pl_tenant_id stored = Some (lit ''t'')"
proof -
  obtain w1 where w1: "check_against_registry demo_cp_env (normalize demo_def) demo_cp_world = (Inr (), w1)"
    using demo_registry by (cases "check_against_registry demo_cp_env (normalize demo_def) demo_cp_world") auto
  then have db: "cw_db w1 = cw_db demo_cp_world"
    using registry_same[of demo_cp_world demo_cp_env "normalize demo_def"] by (simp add: same_data_def)
  have key: "same_key (lit ''a'') (Some (lit ''t'')) demo_pipeline_row"
    by (simp add: same_key_def demo_pipeline_row_def)
  have "(normalize demo_def)\<lparr>pl_tenant_id := tenant_scope (pl_tenant_id (normalize demo_def)) None\<rparr> = normalize demo_def"
    using demo_scope by (simp add: normalize_def demo_def_def)
  moreover have "\<exists>stored w2. repo_upsert demo_cp_env (normalize demo_def) w1 = (Inr stored, w2) \<and> pl_tenant_id stored = Some (lit ''t'')"
  proof -
    have "\<exists>stored db'. insert_pipeline_row (normalize demo_def) (cw_db w1) = Inr (stored, db') \<and> pl_tenant_id stored = Some (lit ''t'')"
      using key unfolding db by (simp add: insert_pipeline_row_def demo_cp_world_def normalize_def demo_def_def I32_MAX_def Let_def)
        (simp add: demo_pipeline_row_def)
    then show ?thesis
      by (auto simp: repo_upsert_def query_def attempt_def demo_cp_env_def)
  qed
  ultimately show ?thesis
    using w1 by (auto simp: create_pipeline_def demo_prepared Let_def)
qed

theorem created_pipeline_found_witness:
  "\<exists>stored w'. create_pipeline demo_cp_env None demo_def demo_cp_world = Value (Inr stored, w')
     \<and> fst (get_pipeline demo_cp_env (lit ''a'') (Some (lit ''t'')) None w') = Inr stored"
proof -
  obtain stored w' where c: "create_pipeline demo_cp_env None demo_def demo_cp_world = Value (Inr stored, w')"
      "pl_tenant_id stored = Some (lit ''t'')"
    using demo_created by blast
  have up: "\<forall>n \<ge> cw_queries w'. qe_down demo_cp_env n = None"
    by (simp add: demo_cp_env_def)
  have "tenant_scope (Some (lit ''t'')) None = pl_tenant_id stored"
    using demo_scope c(2) by simp
  note found = created_pipeline_found[OF c(1) demo_table up this]
  have "pl_uid demo_def = lit ''a''"
    by (simp add: demo_def_def)
  then show ?thesis
    using conjunct1[OF found] c(1) by auto
qed

lemma demo_deleted: "fst (delete_pipeline demo_cp_env (lit ''a'') (Some (lit ''t'')) None demo_cp_world) = Inr [lit ''i'']"
  using demo_uid demo_scope
  by (simp add: delete_pipeline_def delete_cascading_def query_def attempt_def delete_rows_def demo_cp_env_def demo_cp_world_def
      demo_pipeline_row_def demo_source_def feeds_def same_key_def by_scope_def)

theorem delete_is_atomic_witness:
  "\<not> list_ex (feeds (lit ''a'') (Some (lit ''t''))) (db_sources (cw_db (snd (delete_pipeline demo_cp_env (lit ''a'')
      (Some (lit ''t'')) None demo_cp_world))))"
  using delete_is_atomic[of demo_cp_env "lit ''a''" "Some (lit ''t'')" None demo_cp_world "Inr [lit ''i'']"] demo_deleted
  by (cases "delete_pipeline demo_cp_env (lit ''a'') (Some (lit ''t'')) None demo_cp_world")
    (auto simp: demo_scope deleted_with_sources_def)

definition demo_resolve :: cp_resolve_request where
  "demo_resolve = \<lparr>cq_mime = [], cq_filename = None, cq_tenant_id = Some (lit ''t''), cq_pipeline = Some (lit ''a'')\<rparr>"

lemma demo_cp_resolved: "\<exists>m w'. resolve_route demo_cp_env 0 demo_resolve demo_cp_world = (Inr m, w')"
proof -
  have up: "qe_down demo_cp_env (cw_queries demo_cp_world) = None"
    by (simp add: demo_cp_env_def)
  have cache: "cw_cache demo_cp_world = None"
    by (simp add: demo_cp_world_def)
  obtain ps w1 where load: "get_or_load demo_cp_env DEFAULT_CACHE_TTL 0 demo_cp_world = (Inr ps, w1)"
    and ps: "set ps = into_definition ` set (db_pipelines (cw_db demo_cp_world))"
    by (simp add: get_or_load_def cache repo_list_all_def select_run[OF up])
  have row: "demo_pipeline_row \<in> set (db_pipelines (cw_db demo_cp_world))"
    by (simp add: demo_cp_world_def)
  have keys: "pr_uid demo_pipeline_row = lit ''a''" "pr_tenant_id demo_pipeline_row = Some (lit ''t'')"
    by (simp_all add: demo_pipeline_row_def)
  show ?thesis
    using by_uid_own[OF demo_table row ps] demo_uid unfolding keys
    by (simp add: resolve_route_def demo_resolve_def load resolve_with_def)
qed

theorem resolve_in_scope_witness:
  "\<exists>m w'. resolve_route demo_cp_env 0 demo_resolve demo_cp_world = (Inr m, w') \<and> pl_uid (rm_pipeline m) = lit ''a''"
proof -
  obtain m w' where m: "resolve_route demo_cp_env 0 demo_resolve demo_cp_world = (Inr m, w')"
    using demo_cp_resolved by blast
  then show ?thesis
    using resolve_in_scope[OF m] by (auto simp: demo_resolve_def)
qed

section \<open>Where it does less than it says\<close>

text \<open>Deleting a global pipeline leaves the sources of tenants that feed it as they are.\<close>

lemma global_delete_keeps_tenant_sources:
  assumes "delete_rows now uid None db = Inr ((True, ids), db')" "s \<in> set (db_sources db)"
    "se_pipeline_uid s = uid" "se_tenant_id s = Some t" "t \<noteq> []"
  shows "s \<in> set (db_sources db')"
proof -
  have "\<not> feeds uid None s"
    using assms(4,5) by (simp add: feeds_def by_scope_def)
  moreover have "db_sources db' = map (\<lambda>s. if feeds uid None s then archive_source_row now s else s) (db_sources db)"
    using delete_rows_cases[OF assms(1)] by simp
  ultimately show ?thesis
    using assms(2) by force
qed

text \<open>A global pipeline that pins a global connection passes the check, but a job of a tenant looks for a row of its own.\<close>

lemma global_connection_passes_check:
  assumes "pinned_connection (step_config s) = Some uid" "qe_down env (cw_queries w) = None"
    "db_connections (cw_db w) = [\<lparr>ne_uid = uid, ne_tenant_id = None\<rparr>]"
  shows "fst (missing_connections env None [s] w) = Inr [] \<and> fst (get_owned env uid t w) = Inr None"
  using assms by (simp add: connection_get_def get_owned_def select_run scoped_row_def)

text \<open>A load that was on its way when a pipeline was stored puts the list without it into the cache after
  the invalidation: the next reads do not see the pipeline until the list is too old.\<close>

lemma load_outlives_invalidate:
  assumes "repo_list_all env w = (Inr ps, w1)" "create_pipeline env h def w1 = Value (Inr stored, w2)"
    and "\<forall>r \<in> set (db_pipelines (cw_db w)). pr_uid r \<noteq> pl_uid stored"
  shows "cw_cache w2 = None \<and> stored \<notin> set ps
    \<and> (\<forall>later. later - now < DEFAULT_CACHE_TTL \<longrightarrow> get_or_load env DEFAULT_CACHE_TTL later (cache_set now ps w2) = (Inr ps, cache_set now ps w2))"
proof -
  have "set ps = into_definition ` set (db_pipelines (cw_db w))"
    using assms(1) by (auto simp: repo_list_all_def query_Inr select_def)
  then have "stored \<notin> set ps"
    using assms(3) by auto
  then show ?thesis
    using create_pipeline_Inr[OF assms(2)] by (auto simp: get_or_load_def cache_set_def)
qed

end
