(* ===== verification/Control_Jobs.thy ===== *)
theory Control_Jobs
  imports Control_Pipelines Gateway_Submit "HOL-Library.Multiset"
begin

text \<open>
  The jobs table of the control plane (\<open>crates/control-plane/src/jobs.rs\<close>): rows with a status as text, inserting,
  updating, reading and listing them. The order in which Postgres finds rows of equal time is a parameter
  (\<open>scan\<close>). The lemmas: a row reads back as it was written, one job's writes leave the others alone, pages of a list that
  does not change hold every job of the filter once.
\<close>

section \<open>Rows\<close>

record job_entry =
  je_job_id :: uuid
  je_workflow_id :: rstr
  je_pipeline_uid :: rstr
  je_tenant_id :: "rstr option"
  je_index_name :: "rstr option"
  je_status :: rstr
  je_current_step :: "rstr option"
  je_error :: "rstr option"
  je_started_at :: int
  je_updated_at :: int
  je_source_id :: "uuid option"
  je_parent_job_id :: "uuid option"

record cp_job_record = job_record +
  jr_source_id :: "uuid option"
  jr_parent_job_id :: "uuid option"

record job_update =
  ju_status :: "job_status option"
  ju_current_step :: "rstr option"
  ju_error :: "rstr option"
  ju_index_name :: "rstr option"

definition parse_status :: "rstr \<Rightarrow> job_status option" where
  "parse_status s =
     (if s = lit ''queued'' then Some Queued
      else if s = lit ''running'' then Some Running
      else if s = lit ''succeeded'' then Some Succeeded
      else if s = lit ''failed'' then Some Failed
      else if s = lit ''cancelled'' then Some job_status.Cancelled
      else None)"

lemma parse_status_str [simp]: "parse_status (job_status_str s) = Some s"
  by (cases s) (simp_all add: parse_status_def)

definition job_from_row :: "(rstr \<Rightarrow> rstr) \<Rightarrow> job_entry \<Rightarrow> cp_error + cp_job_record" where
  "job_from_row dbg r =
     (case parse_status (je_status r) of
        None \<Rightarrow> Inl (CpInternal (lit ''job '' @ je_job_id r @ lit '' has unknown status '' @ dbg (je_status r)))
      | Some status \<Rightarrow> Inr \<lparr>jr_job_id = je_job_id r, jr_workflow_id = je_workflow_id r, jr_pipeline_uid = je_pipeline_uid r,
          jr_tenant_id = je_tenant_id r, jr_index_name = je_index_name r, jr_status = status, jr_current_step = je_current_step r,
          jr_error = je_error r, jr_started_at = je_started_at r, jr_updated_at = je_updated_at r,
          jr_source_id = je_source_id r, jr_parent_job_id = je_parent_job_id r\<rparr>)"

definition row_of_job :: "cp_job_record \<Rightarrow> job_entry" where
  "row_of_job j = \<lparr>je_job_id = jr_job_id j, je_workflow_id = jr_workflow_id j, je_pipeline_uid = jr_pipeline_uid j,
     je_tenant_id = jr_tenant_id j, je_index_name = jr_index_name j, je_status = job_status_str (jr_status j),
     je_current_step = jr_current_step j, je_error = jr_error j, je_started_at = jr_started_at j, je_updated_at = jr_updated_at j,
     je_source_id = jr_source_id j, je_parent_job_id = jr_parent_job_id j\<rparr>"

lemma job_from_row_of_job: "job_from_row dbg (row_of_job j) = Inr j"
  by (cases j) (simp add: job_from_row_def row_of_job_def)

definition coalesce :: "'a option \<Rightarrow> 'a option \<Rightarrow> 'a option" where
  "coalesce x y = (case x of Some _ \<Rightarrow> x | None \<Rightarrow> y)"

section \<open>Statements\<close>

record jobs_world =
  jw_jobs :: "job_entry list"
  jw_queries :: nat

record jobs_db_env =
  jq_debug :: "rstr \<Rightarrow> rstr"
  jq_down :: "nat \<Rightarrow> (bool \<times> rstr) option"
  jq_scan :: "nat \<Rightarrow> job_entry list \<Rightarrow> job_entry list"
  jq_now :: "nat \<Rightarrow> int"

definition jobs_query ::
  "jobs_db_env \<Rightarrow> (job_entry list \<Rightarrow> 'a \<times> job_entry list) \<Rightarrow> jobs_world \<Rightarrow> (cp_error + 'a) \<times> jobs_world" where
  "jobs_query env f w =
     (let (r, jobs) = attempt (jq_down env (jw_queries w)) (Inr (f (jw_jobs w))) (jw_jobs w)
      in (r, w\<lparr>jw_queries := jw_queries w + 1, jw_jobs := jobs\<rparr>))"

definition upsert_job_row :: "int \<Rightarrow> job_entry \<Rightarrow> job_entry list \<Rightarrow> job_entry \<times> job_entry list" where
  "upsert_job_row now row jobs =
     (case find (\<lambda>r. je_job_id r = je_job_id row) jobs of
        None \<Rightarrow> (row, jobs @ [row])
      | Some old \<Rightarrow>
          let new = row\<lparr>je_updated_at := now, je_source_id := coalesce (je_source_id row) (je_source_id old),
                je_parent_job_id := coalesce (je_parent_job_id row) (je_parent_job_id old)\<rparr>
          in (new, map (\<lambda>r. if je_job_id r = je_job_id row then new else r) jobs))"

definition insert_job :: "jobs_db_env \<Rightarrow> cp_job_record \<Rightarrow> jobs_world \<Rightarrow> (cp_error + cp_job_record) \<times> jobs_world" where
  "insert_job env job w =
     and_then (jobs_query env (upsert_job_row (jq_now env (jw_queries w)) (row_of_job job)) w)
       (\<lambda>row w. (job_from_row (jq_debug env) row, w))"

definition updated_row :: "int \<Rightarrow> job_update \<Rightarrow> job_entry \<Rightarrow> job_entry" where
  "updated_row now u r = r\<lparr>je_status := (case ju_status u of Some s \<Rightarrow> job_status_str s | None \<Rightarrow> je_status r),
     je_current_step := (if ju_status u = Some Succeeded then None else coalesce (ju_current_step u) (je_current_step r)),
     je_error := coalesce (ju_error u) (je_error r), je_index_name := coalesce (ju_index_name u) (je_index_name r),
     je_updated_at := now\<rparr>"

definition update_job_rows :: "int \<Rightarrow> uuid \<Rightarrow> job_update \<Rightarrow> job_entry list \<Rightarrow> job_entry option \<times> job_entry list" where
  "update_job_rows now job u jobs =
     (map_option (updated_row now u) (find (\<lambda>r. je_job_id r = job) jobs),
      map (\<lambda>r. if je_job_id r = job then updated_row now u r else r) jobs)"

definition transpose_row :: "(rstr \<Rightarrow> rstr) \<Rightarrow> job_entry option \<Rightarrow> cp_error + cp_job_record option" where
  "transpose_row dbg row = (case row of None \<Rightarrow> Inr None | Some r \<Rightarrow> map_sum id Some (job_from_row dbg r))"

definition update_job_row ::
  "jobs_db_env \<Rightarrow> uuid \<Rightarrow> job_update \<Rightarrow> jobs_world \<Rightarrow> (cp_error + cp_job_record option) \<times> jobs_world" where
  "update_job_row env job u w =
     and_then (jobs_query env (update_job_rows (jq_now env (jw_queries w)) job u) w) (\<lambda>row w. (transpose_row (jq_debug env) row, w))"

definition fetch_job :: "jobs_db_env \<Rightarrow> uuid \<Rightarrow> jobs_world \<Rightarrow> (cp_error + cp_job_record option) \<times> jobs_world" where
  "fetch_job env job w =
     and_then (jobs_query env (\<lambda>jobs. (find (\<lambda>r. je_job_id r = job) jobs, jobs)) w) (\<lambda>row w. (transpose_row (jq_debug env) row, w))"

section \<open>Routes\<close>

definition job_or_404 :: "uuid \<Rightarrow> cp_job_record option \<Rightarrow> jobs_world \<Rightarrow> (cp_error + cp_job_record) \<times> jobs_world" where
  "job_or_404 job found w =
     (case found of Some j \<Rightarrow> Inr j | None \<Rightarrow> Inl (CpNotFound (lit ''job '' @ job @ lit '' not found'')), w)"

definition cp_create_job :: "jobs_db_env \<Rightarrow> cp_job_record \<Rightarrow> jobs_world \<Rightarrow> (cp_error + cp_job_record) \<times> jobs_world" where
  "cp_create_job env job w = insert_job env job w"

definition cp_update_job :: "jobs_db_env \<Rightarrow> uuid \<Rightarrow> job_update \<Rightarrow> jobs_world \<Rightarrow> (cp_error + cp_job_record) \<times> jobs_world" where
  "cp_update_job env job u w = and_then (update_job_row env job u w) (job_or_404 job)"

definition cp_get_job :: "jobs_db_env \<Rightarrow> uuid \<Rightarrow> jobs_world \<Rightarrow> (cp_error + cp_job_record) \<times> jobs_world" where
  "cp_get_job env job w = and_then (fetch_job env job w) (job_or_404 job)"

record job_list_query =
  lq_tenant_id :: "rstr option"
  lq_status :: "rstr option"
  lq_pipeline_uid :: "rstr option"
  lq_parent_job_id :: "uuid option"
  lq_limit :: "int option"
  lq_offset :: "int option"

record job_list =
  jl_jobs :: "cp_job_record list"
  jl_limit :: int
  jl_offset :: int
  jl_total :: nat

definition listed :: "rstr option \<Rightarrow> job_list_query \<Rightarrow> job_entry \<Rightarrow> bool" where
  "listed tenant q r \<longleftrightarrow> (tenant = None \<or> je_tenant_id r = tenant) \<and> (lq_status q = None \<or> Some (je_status r) = lq_status q)
     \<and> (lq_pipeline_uid q = None \<or> Some (je_pipeline_uid r) = lq_pipeline_uid q)
     \<and> (lq_parent_job_id q = None \<or> je_parent_job_id r = lq_parent_job_id q)"

definition newest_first :: "job_entry list \<Rightarrow> job_entry list" where
  "newest_first = order_by (\<lambda>x y. je_started_at y \<le> je_started_at x)"

fun all_jobs :: "(rstr \<Rightarrow> rstr) \<Rightarrow> job_entry list \<Rightarrow> cp_error + cp_job_record list" where
  "all_jobs dbg [] = Inr []"
| "all_jobs dbg (r # rs) = try_bind (job_from_row dbg r) (\<lambda>j. try_bind (all_jobs dbg rs) (\<lambda>js. Inr (j # js)))"

definition page_limit :: "job_list_query \<Rightarrow> int" where
  "page_limit q = max 1 (min 200 (case lq_limit q of Some l \<Rightarrow> l | None \<Rightarrow> 50))"

definition page_offset :: "job_list_query \<Rightarrow> int" where
  "page_offset q = max 0 (case lq_offset q of Some l \<Rightarrow> l | None \<Rightarrow> 0)"

definition cp_list_jobs ::
  "jobs_db_env \<Rightarrow> job_list_query \<Rightarrow> rstr option \<Rightarrow> jobs_world \<Rightarrow> (cp_error + job_list) \<times> jobs_world" where
  "cp_list_jobs env q project_header w =
     (let tenant = tenant_scope (lq_tenant_id q) project_header; limit = page_limit q; offset = page_offset q in
      and_then (jobs_query env (\<lambda>jobs. (take (nat limit) (drop (nat offset)
             (newest_first (filter (listed tenant q) (jq_scan env (jw_queries w) jobs)))), jobs)) w) (\<lambda>rows w.
      and_then (all_jobs (jq_debug env) rows, w) (\<lambda>js w.
      and_then (jobs_query env (\<lambda>jobs. (length (filter (listed tenant q) jobs), jobs)) w) (\<lambda>n w.
        (Inr \<lparr>jl_jobs = js, jl_limit = limit, jl_offset = offset, jl_total = n\<rparr>, w)))))"

section \<open>A job reads back as it was written\<close>

definition jobs_ok :: "job_entry list \<Rightarrow> bool" where
  "jobs_ok jobs \<longleftrightarrow> distinct (map je_job_id jobs) \<and> (\<forall>r \<in> set jobs. parse_status (je_status r) \<noteq> None)"

lemma jobs_query_Inr:
  "jobs_query env f w = (Inr x, w') \<longleftrightarrow> jq_down env (jw_queries w) = None
     \<and> (\<exists>jobs. f (jw_jobs w) = (x, jobs) \<and> w' = w\<lparr>jw_queries := jw_queries w + 1, jw_jobs := jobs\<rparr>)"
  by (auto simp: jobs_query_def attempt_def split: option.splits prod.splits bool.splits)

lemma parse_status_text: "parse_status s = Some status \<Longrightarrow> s = job_status_str status"
  by (auto simp: parse_status_def split: if_splits)

lemma row_of_job_from_row: "job_from_row dbg r = Inr j \<Longrightarrow> row_of_job j = r"
  by (cases r) (auto simp: job_from_row_def row_of_job_def dest!: parse_status_text split: option.splits)

lemma job_from_row_ok: "parse_status (je_status r) \<noteq> None \<Longrightarrow> \<exists>j. job_from_row dbg r = Inr j"
  by (auto simp: job_from_row_def)

lemma find_job: "distinct (map je_job_id jobs) \<Longrightarrow> r \<in> set jobs \<Longrightarrow> find (\<lambda>x. je_job_id x = je_job_id r) jobs = Some r"
  by (induction jobs) (auto simp: rev_image_eqI)

text \<open>What an insert leaves: the row under its id, the others as they were.\<close>

lemma upsert_job_row_stores:
  assumes "jobs_ok jobs" "parse_status (je_status row) \<noteq> None" "upsert_job_row now row jobs = (new, jobs')"
  shows "jobs_ok jobs' \<and> find (\<lambda>r. je_job_id r = je_job_id row) jobs' = Some new
    \<and> filter (\<lambda>r. je_job_id r \<noteq> je_job_id row) jobs' = filter (\<lambda>r. je_job_id r \<noteq> je_job_id row) jobs
    \<and> (\<exists>tm src parent. new = row\<lparr>je_updated_at := tm, je_source_id := src, je_parent_job_id := parent\<rparr>)"
proof (cases "find (\<lambda>r. je_job_id r = je_job_id row) jobs")
  case None
  then have fresh: "je_job_id row \<notin> je_job_id ` set jobs"
    by (auto simp: find_None_iff)
  have new: "new = row" "jobs' = jobs @ [row]"
    using assms(3) None by (auto simp: upsert_job_row_def)
  have "find P (jobs @ [row]) = (if P row then Some row else None)" if "find P jobs = None" for P
    using that by (induction jobs) (auto split: if_splits)
  then have "find (\<lambda>r. je_job_id r = je_job_id row) jobs' = Some new"
    using None new by simp
  moreover have "jobs_ok jobs'"
    using assms(1,2) fresh new by (auto simp: jobs_ok_def)
  moreover have "\<exists>tm src parent. new = row\<lparr>je_updated_at := tm, je_source_id := src, je_parent_job_id := parent\<rparr>"
    using new by (intro exI[of _ "je_updated_at row"] exI[of _ "je_source_id row"] exI[of _ "je_parent_job_id row"]) simp
  ultimately show ?thesis
    using new by auto
next
  case (Some old)
  let ?f = "\<lambda>r. if je_job_id r = je_job_id row then new else r"
  have new: "new = row\<lparr>je_updated_at := now, je_source_id := coalesce (je_source_id row) (je_source_id old),
      je_parent_job_id := coalesce (je_parent_job_id row) (je_parent_job_id old)\<rparr>" and jobs': "jobs' = map ?f jobs"
    using assms(3) Some by (auto simp: upsert_job_row_def Let_def)
  have id: "je_job_id new = je_job_id row" "je_status new = je_status row"
    by (simp_all add: new)
  have keys: "map je_job_id jobs' = map je_job_id jobs"
    using id(1) by (simp add: jobs')
  have "old \<in> set jobs \<and> je_job_id old = je_job_id row"
    using find_in[OF Some] by simp
  then have mem: "new \<in> set jobs'"
    by (force simp: jobs')
  have "parse_status (je_status r) \<noteq> None" if "r \<in> set jobs'" for r
    using that assms(1,2) id(2) by (auto simp: jobs_ok_def jobs')
  then have ok: "jobs_ok jobs'"
    using assms(1) unfolding jobs_ok_def keys by simp
  moreover have "find (\<lambda>r. je_job_id r = je_job_id row) jobs' = Some new"
    using find_job[of jobs' new] ok mem id(1) by (simp add: jobs_ok_def)
  moreover have "filter (\<lambda>r. je_job_id r \<noteq> je_job_id row) (map ?f xs) = filter (\<lambda>r. je_job_id r \<noteq> je_job_id row) xs" for xs
    using id(1) by (induction xs) auto
  ultimately show ?thesis
    using new jobs' by blast
qed

text \<open>A job that was recorded reads back as recorded: under its id, with every field of the request but the time of the
  write and the links to its source and archive, which a repeated insert keeps. No other job changed, and ids stay unique.\<close>

theorem recorded_job_reads_back:
  assumes "cp_create_job env job w = (Inr stored, w')" "jobs_ok (jw_jobs w)" "jq_down env (jw_queries w') = None"
  shows "fst (cp_get_job env (jr_job_id job) w') = Inr stored
    \<and> (\<exists>tm src parent. stored = job\<lparr>jr_updated_at := tm, jr_source_id := src, jr_parent_job_id := parent\<rparr>)
    \<and> filter (\<lambda>r. je_job_id r \<noteq> jr_job_id job) (jw_jobs w') = filter (\<lambda>r. je_job_id r \<noteq> jr_job_id job) (jw_jobs w)
    \<and> jobs_ok (jw_jobs w')"
proof -
  let ?row = "row_of_job job"
  have id: "je_job_id ?row = jr_job_id job" and parsed: "parse_status (je_status ?row) \<noteq> None"
    by (simp_all add: row_of_job_def)
  obtain new jobs' where up: "upsert_job_row (jq_now env (jw_queries w)) ?row (jw_jobs w) = (new, jobs')"
    and st: "job_from_row (jq_debug env) new = Inr stored" and w': "jw_jobs w' = jobs'"
    using assms(1) by (auto simp: cp_create_job_def insert_job_def and_then_Inr jobs_query_Inr)
  note stores = upsert_job_row_stores[OF assms(2) parsed up, unfolded id]
  have "fst (cp_get_job env (jr_job_id job) w') = Inr stored"
    using stores assms(3) st w'
    by (simp add: cp_get_job_def fetch_job_def jobs_query_def attempt_def and_then_def transpose_row_def job_or_404_def)
  moreover have "\<exists>tm src parent. stored = job\<lparr>jr_updated_at := tm, jr_source_id := src, jr_parent_job_id := parent\<rparr>"
  proof -
    obtain tm src parent where "new = ?row\<lparr>je_updated_at := tm, je_source_id := src, je_parent_job_id := parent\<rparr>"
      using stores by blast
    then have "new = row_of_job (job\<lparr>jr_updated_at := tm, jr_source_id := src, jr_parent_job_id := parent\<rparr>)"
      by (simp add: row_of_job_def)
    then show ?thesis
      using st job_from_row_of_job by (metis sum.inject(2))
  qed
  ultimately show ?thesis
    using stores w' by simp
qed

section \<open>Pages of a list\<close>

lemma mset_insert_by [simp]: "mset (insert_by le x xs) = add_mset x (mset xs)"
  by (induction xs) auto

lemma mset_order_by [simp]: "mset (order_by le xs) = mset xs"
  by (induction xs) (auto simp: order_by_def)

lemma sorted_insert_newest:
  "sorted_wrt (\<lambda>x y. je_started_at y \<le> je_started_at x) xs \<Longrightarrow>
   sorted_wrt (\<lambda>x y. je_started_at y \<le> je_started_at x) (insert_by (\<lambda>x y. je_started_at y \<le> je_started_at x) r xs)"
  by (induction xs) (auto simp: order_trans)

lemma newest_first_sorted: "sorted_wrt (\<lambda>x y. je_started_at y \<le> je_started_at x) (newest_first xs)"
  by (induction xs) (auto simp: newest_first_def order_by_def sorted_insert_newest)

lemma newest_first_unique:
  assumes "mset xs = mset ys" "distinct (map je_started_at ys)"
  shows "newest_first xs = newest_first ys"
proof -
  let ?k = "\<lambda>r. - je_started_at r"
  have m: "mset (newest_first xs) = mset (newest_first ys)"
    using assms(1) by (simp add: newest_first_def)
  have sorted: "sorted (map ?k (newest_first zs))" for zs
    using newest_first_sorted[of zs] by (simp add: sorted_wrt_map)
  have "mset (map je_started_at (newest_first ys)) = mset (map je_started_at ys)"
    by (simp add: newest_first_def)
  then have dy: "distinct (map je_started_at (newest_first ys))"
    using assms(2) by (metis mset_eq_imp_distinct_iff)
  have "mset (map ?k (newest_first xs)) = mset (map ?k (newest_first ys))"
    using m by simp
  then have "map ?k (newest_first xs) = map ?k (newest_first ys)"
    using sorted by (metis properties_for_sort)
  moreover have "inj_on ?k (set (newest_first xs) \<union> set (newest_first ys))"
    using dy mset_eq_setD[OF m] by (auto simp: distinct_map inj_on_def)
  ultimately show ?thesis
    by (rule map_inj_on)
qed

lemma concat_pages: "concat (map (\<lambda>k. take m (drop (k * m) xs)) [0..<n]) = take (n * m) xs"
proof (induction n)
  case (Suc n)
  then show ?case
    using take_add[of "n * m" m xs] by (simp add: add.commute)
qed simp

lemma all_jobs_rows: "all_jobs dbg rs = Inr js \<Longrightarrow> map row_of_job js = rs"
  by (induction rs arbitrary: js) (auto simp: try_bind_eq_Inr row_of_job_from_row)

lemma list_page:
  assumes "cp_list_jobs env q h w = (Inr page, w')"
  defines "tenant \<equiv> tenant_scope (lq_tenant_id q) h"
  shows "map row_of_job (jl_jobs page) = take (nat (page_limit q)) (drop (nat (page_offset q))
      (newest_first (filter (listed tenant q) (jq_scan env (jw_queries w) (jw_jobs w)))))
    \<and> jl_total page = length (filter (listed tenant q) (jw_jobs w)) \<and> jw_jobs w' = jw_jobs w"
  using assms by (auto simp: cp_list_jobs_def Let_def and_then_Inr jobs_query_Inr all_jobs_rows)

lemma listed_paging [simp]: "listed tenant (q\<lparr>lq_limit := l, lq_offset := n\<rparr>) = listed tenant q"
  by (intro ext) (simp add: listed_def)

text \<open>C38. Listing jobs misses none and shows none of another tenant. Over a table that does not change meanwhile, in which no two
  jobs of the filter started at the same time, consecutive pages of any allowed size are together the jobs of the filter,
  each once, newest first; each page tells their number. Whatever order the database scans its rows in.\<close>

theorem job_pages_complete:
  assumes scan: "\<forall>n rows. mset (jq_scan env n rows) = mset rows"
    and size: "1 \<le> l" "l \<le> 200" and tenant: "tenant = tenant_scope (lq_tenant_id q) h"
    and times: "distinct (map je_started_at (filter (listed tenant q) jobs))"
    and pages: "\<forall>k < n. jw_jobs (w k) = jobs
      \<and> fst (cp_list_jobs env (q\<lparr>lq_limit := Some l, lq_offset := Some (int k * l)\<rparr>) h (w k)) = Inr (page k)"
    and enough: "length (filter (listed tenant q) jobs) \<le> n * nat l"
  shows "let shown = map row_of_job (concat (map (\<lambda>k. jl_jobs (page k)) [0..<n])) in
      mset shown = mset (filter (listed tenant q) jobs) \<and> sorted_wrt (\<lambda>x y. je_started_at y \<le> je_started_at x) shown
      \<and> (\<forall>k < n. jl_total (page k) = length (filter (listed tenant q) jobs))"
proof -
  let ?all = "filter (listed tenant q) jobs"
  have one: "map row_of_job (jl_jobs (page k)) = take (nat l) (drop (k * nat l) (newest_first ?all)) \<and> jl_total (page k) = length ?all"
    if k: "k < n" for k
  proof -
    let ?q = "q\<lparr>lq_limit := Some l, lq_offset := Some (int k * l)\<rparr>"
    note at_k = pages[rule_format, OF k]
    obtain w' where run: "cp_list_jobs env ?q h (w k) = (Inr (page k), w')"
      using conjunct2[OF at_k] by (cases "cp_list_jobs env ?q h (w k)") simp
    have "mset (filter (listed tenant q) (jq_scan env (jw_queries (w k)) jobs)) = mset ?all"
      using scan by simp
    then have same: "newest_first (filter (listed tenant q) (jq_scan env (jw_queries (w k)) jobs)) = newest_first ?all"
      using times by (rule newest_first_unique)
    have paging: "page_limit ?q = l" "nat (page_offset ?q) = k * nat l" and scope: "tenant_scope (lq_tenant_id ?q) h = tenant"
      using size by (simp_all add: page_limit_def page_offset_def nat_mult_distrib tenant)
    show ?thesis
      using list_page[OF run] unfolding scope paging conjunct1[OF at_k] listed_paging same by simp
  qed
  have "map row_of_job (concat (map (\<lambda>k. jl_jobs (page k)) [0..<n])) = concat (map (\<lambda>k. take (nat l) (drop (k * nat l) (newest_first ?all))) [0..<n])"
    unfolding map_concat map_map comp_def using one by (intro arg_cong[of _ _ concat] map_cong) simp_all
  also have "\<dots> = newest_first ?all"
    using enough by (simp add: concat_pages newest_first_def flip: size_mset)
  finally have shown: "map row_of_job (concat (map (\<lambda>k. jl_jobs (page k)) [0..<n])) = newest_first ?all" .
  show ?thesis
    unfolding Let_def shown using one newest_first_sorted[of ?all] by (simp add: newest_first_def)
qed

section \<open>Witnesses\<close>

definition demo_jobs_env :: jobs_db_env where
  "demo_jobs_env = \<lparr>jq_debug = id, jq_down = (\<lambda>_. None), jq_scan = (\<lambda>n rows. if n = 0 then rows else rev rows), jq_now = int\<rparr>"

definition demo_job_of :: "string \<Rightarrow> int \<Rightarrow> job_status \<Rightarrow> cp_job_record" where
  "demo_job_of name started status = \<lparr>jr_job_id = lit name, jr_workflow_id = [], jr_pipeline_uid = [], jr_tenant_id = Some (lit ''t''),
     jr_index_name = None, jr_status = status, jr_current_step = None, jr_error = None, jr_started_at = started, jr_updated_at = 0,
     jr_source_id = None, jr_parent_job_id = None\<rparr>"

definition demo_jobs_world :: jobs_world where
  "demo_jobs_world = \<lparr>jw_jobs = map row_of_job [demo_job_of ''a'' 1 Running, demo_job_of ''b'' 2 Succeeded], jw_queries = 0\<rparr>"

lemma demo_jobs_ok: "jobs_ok (jw_jobs demo_jobs_world)"
  by (simp add: jobs_ok_def demo_jobs_world_def demo_job_of_def row_of_job_def parse_status_def lit_def)

lemma demo_recorded: "\<exists>stored w'. cp_create_job demo_jobs_env (demo_job_of ''a'' 1 Queued) demo_jobs_world = (Inr stored, w')
    \<and> jq_down demo_jobs_env (jw_queries w') = None"
  by (simp add: cp_create_job_def insert_job_def jobs_query_def attempt_def and_then_def upsert_job_row_def demo_jobs_env_def
      demo_jobs_world_def demo_job_of_def row_of_job_def job_from_row_def parse_status_def Let_def)

theorem recorded_job_reads_back_witness:
  "\<exists>stored w'. cp_create_job demo_jobs_env (demo_job_of ''a'' 1 Queued) demo_jobs_world = (Inr stored, w')
     \<and> fst (cp_get_job demo_jobs_env (lit ''a'') w') = Inr stored"
proof -
  obtain stored w' where c: "cp_create_job demo_jobs_env (demo_job_of ''a'' 1 Queued) demo_jobs_world = (Inr stored, w')"
      "jq_down demo_jobs_env (jw_queries w') = None"
    using demo_recorded by blast
  have "jr_job_id (demo_job_of ''a'' 1 Queued) = lit ''a''"
    by (simp add: demo_job_of_def)
  then show ?thesis
    using recorded_job_reads_back[OF c(1) demo_jobs_ok c(2)] c(1) by auto
qed

definition demo_list :: job_list_query where
  "demo_list = \<lparr>lq_tenant_id = None, lq_status = None, lq_pipeline_uid = None, lq_parent_job_id = None, lq_limit = None, lq_offset = None\<rparr>"

lemma demo_all_listed: "filter (listed None demo_list) rows = rows"
  by (induction rows) (simp_all add: listed_def demo_list_def)

lemma all_jobs_ok: "\<forall>r \<in> set rs. parse_status (je_status r) \<noteq> None \<Longrightarrow> \<exists>js. all_jobs dbg rs = Inr js"
proof (induction rs)
  case (Cons r rs)
  then show ?case
    using job_from_row_ok[of r dbg] by auto
qed simp

lemma demo_page: "\<exists>p. fst (cp_list_jobs demo_jobs_env (demo_list\<lparr>lq_limit := Some 1, lq_offset := Some (int k * 1)\<rparr>) None demo_jobs_world) = Inr p"
proof -
  have scope: "tenant_scope (lq_tenant_id demo_list) None = None"
    by (simp add: demo_list_def tenant_scope_def non_blank_def)
  let ?rows = "take 1 (drop k (newest_first (jw_jobs demo_jobs_world)))"
  have "\<forall>r \<in> set ?rows. parse_status (je_status r) \<noteq> None"
    using demo_jobs_ok by (auto simp: jobs_ok_def newest_first_def dest!: in_set_takeD in_set_dropD)
  then obtain js where js: "all_jobs id ?rows = Inr js"
    using all_jobs_ok by blast
  have limits: "page_limit (demo_list\<lparr>lq_limit := Some 1, lq_offset := Some (int k)\<rparr>) = 1"
      "nat (page_offset (demo_list\<lparr>lq_limit := Some 1, lq_offset := Some (int k)\<rparr>)) = k"
    by (simp_all add: page_limit_def page_offset_def)
  have env: "jq_down demo_jobs_env n = None" "jq_debug demo_jobs_env = id" "jq_scan demo_jobs_env (jw_queries demo_jobs_world) rows = rows" for n rows
    by (simp_all add: demo_jobs_env_def demo_jobs_world_def)
  show ?thesis
    using js by (simp add: cp_list_jobs_def scope limits demo_all_listed jobs_query_def attempt_def and_then_def env Let_def)
qed

theorem job_pages_complete_witness:
  "\<exists>page :: nat \<Rightarrow> job_list. mset (map row_of_job (jl_jobs (page 0) @ jl_jobs (page 1))) = mset (jw_jobs demo_jobs_world)"
proof -
  obtain page :: "nat \<Rightarrow> job_list" where page: "fst (cp_list_jobs demo_jobs_env (demo_list\<lparr>lq_limit := Some 1, lq_offset := Some (int k * 1)\<rparr>) None demo_jobs_world)
      = Inr (page k)" for k
    using demo_page by metis
  have "\<forall>n rows. mset (jq_scan demo_jobs_env n rows) = mset rows"
    by (simp add: demo_jobs_env_def)
  moreover have "None = tenant_scope (lq_tenant_id demo_list) None"
    by (simp add: demo_list_def tenant_scope_def non_blank_def)
  moreover have "distinct (map je_started_at (filter (listed None demo_list) (jw_jobs demo_jobs_world)))"
    unfolding demo_all_listed by (simp add: demo_jobs_world_def demo_job_of_def row_of_job_def)
  moreover have "length (filter (listed None demo_list) (jw_jobs demo_jobs_world)) \<le> 2 * nat 1"
    unfolding demo_all_listed by (simp add: demo_jobs_world_def)
  ultimately have "mset (map row_of_job (concat (map (\<lambda>k. jl_jobs (page k)) [0..<2]))) = mset (filter (listed None demo_list) (jw_jobs demo_jobs_world))"
    using job_pages_complete[of demo_jobs_env 1 None demo_list None "jw_jobs demo_jobs_world" 2 "\<lambda>_. demo_jobs_world" page] page
    by (simp add: Let_def)
  then show ?thesis
    unfolding demo_all_listed by (intro exI[of _ page]) (simp add: numeral_2_eq_2)
qed

section \<open>What the table does not rule out\<close>

text \<open>Two jobs that started at the same time: one is on both pages, the other on none.\<close>

lemma equal_times_paged_twice:
  assumes "jw_jobs w = map row_of_job [demo_job_of ''a'' 1 Running, demo_job_of ''b'' 1 Running]"
  shows "take 1 (drop 0 (newest_first (jq_scan demo_jobs_env 0 (jw_jobs w)))) = take 1 (drop 1 (newest_first (jq_scan demo_jobs_env 2 (jw_jobs w))))"
  using assms by (simp add: newest_first_def order_by_def demo_jobs_env_def demo_job_of_def row_of_job_def)

text \<open>A create that arrives after the job ended, or an update read before it, puts the row back to an earlier status.\<close>

lemma late_create_reopens_job:
  assumes "find (\<lambda>r. je_job_id r = jr_job_id job) jobs = Some old" "je_status old = job_status_str Succeeded" "jr_status job = Queued"
  shows "je_status (fst (upsert_job_row now (row_of_job job) jobs)) = job_status_str Queued"
  using assms by (simp add: upsert_job_row_def row_of_job_def Let_def)

lemma stale_update_reopens_job:
  "je_status (updated_row t2 \<lparr>ju_status = Some Running, ju_current_step = s, ju_error = None, ju_index_name = None\<rparr>
     (updated_row t1 \<lparr>ju_status = Some Succeeded, ju_current_step = None, ju_error = None, ju_index_name = None\<rparr> r)) = job_status_str Running"
  by (simp add: updated_row_def)

text \<open>The step of a job that succeeded is cleared by the update that says so; one that comes later sets it again.\<close>

lemma succeeded_job_gets_step:
  "je_current_step (updated_row t1 \<lparr>ju_status = Some Succeeded, ju_current_step = s, ju_error = None, ju_index_name = None\<rparr> r) = None
   \<and> je_status (updated_row t2 \<lparr>ju_status = None, ju_current_step = Some s', ju_error = None, ju_index_name = None\<rparr>
        (updated_row t1 \<lparr>ju_status = Some Succeeded, ju_current_step = s, ju_error = None, ju_index_name = None\<rparr> r)) = job_status_str Succeeded
   \<and> je_current_step (updated_row t2 \<lparr>ju_status = None, ju_current_step = Some s', ju_error = None, ju_index_name = None\<rparr>
        (updated_row t1 \<lparr>ju_status = Some Succeeded, ju_current_step = s, ju_error = None, ju_index_name = None\<rparr> r)) = Some s'"
  by (simp add: updated_row_def coalesce_def)

end
