(* ===== verification/Gateway_Jobs.thy ===== *)
theory Gateway_Jobs
  imports Control_Jobs Gateway_Submit
begin

text \<open>
  Reading, listing and cancelling jobs at the gateway: \<open>crates/gateway/src/handlers/jobs.rs\<close> with the Temporal and
  control plane calls of \<open>state.rs\<close>. The state is the list of calls made; the answers of Temporal and the control
  plane are functions of it. The lemmas: a caller with a tenant reaches Temporal only for a job of that tenant, and cannot
  tell another tenant's job from one that does not exist.
\<close>

section \<open>Calls\<close>

datatype jobs_call =
    DescribeJob uuid
  | QueryProgress uuid
  | SignalCancel uuid
  | CancelExecution uuid
  | GetJobRow uuid
  | PatchJobRow uuid job_update
  | ListJobRows "(rstr \<times> rstr) list"

datatype execution_status =
    ExUnspecified | ExRunning | ExCompleted | ExFailed | ExCanceled | ExTerminated | ExContinuedAsNew | ExTimedOut

datatype 'a interaction = IxNotFound | IxFailed rstr | IxDone 'a

record jobs_env =
  jx_gateway :: gateway_env
  jx_parse_uuid :: "rstr \<Rightarrow> uuid option"
  jx_describe :: "jobs_call list \<Rightarrow> execution_status interaction"
  jx_progress :: "jobs_call list \<Rightarrow> workflow_progress option"
  jx_signal :: "jobs_call list \<Rightarrow> unit interaction"
  jx_cancel :: "jobs_call list \<Rightarrow> unit interaction"
  jx_row :: "jobs_call list \<Rightarrow> job_record cp_reply"
  jx_patch :: "jobs_call list \<Rightarrow> job_record cp_reply"
  jx_list :: "jobs_call list \<Rightarrow> json cp_reply"

abbreviation jdebug :: "jobs_env \<Rightarrow> rstr \<Rightarrow> rstr" where
  "jdebug env \<equiv> gdebug (jx_gateway env)"

section \<open>Temporal\<close>

fun map_execution_status :: "execution_status \<Rightarrow> job_status" where
  "map_execution_status ExCompleted = Succeeded"
| "map_execution_status ExFailed = Failed"
| "map_execution_status ExTimedOut = Failed"
| "map_execution_status ExCanceled = job_status.Cancelled"
| "map_execution_status ExTerminated = job_status.Cancelled"
| "map_execution_status _ = Running"

definition combine_status :: "job_status \<Rightarrow> workflow_progress option \<Rightarrow> job_status" where
  "combine_status described progress = (case (described, progress) of (Running, Some p) \<Rightarrow> wp_status p | (s, _) \<Rightarrow> s)"

record job_snapshot =
  js_status :: job_status
  js_progress :: "workflow_progress option"

text \<open>\<open>jx_progress\<close>: the decoded answer of the query, if there is one.\<close>

definition temporal_progress :: "jobs_env \<Rightarrow> uuid \<Rightarrow> jobs_call list \<Rightarrow> (gateway_error + job_snapshot option) \<times> jobs_call list" where
  "temporal_progress env job cs =
     (let cs = cs @ [DescribeJob job] in
      case jx_describe env cs of
        IxNotFound \<Rightarrow> (Inr None, cs)
      | IxFailed e \<Rightarrow> (Inl (GwUpstream (lit ''cannot describe workflow: '' @ e)), cs)
      | IxDone described \<Rightarrow>
          let cs = cs @ [QueryProgress job]; progress = jx_progress env cs
          in (Inr (Some \<lparr>js_status = combine_status (map_execution_status described) progress, js_progress = progress\<rparr>), cs))"

definition job_not_found :: "uuid \<Rightarrow> gateway_error" where
  "job_not_found job = GwNotFound (lit ''job '' @ job @ lit '' not found'')"

definition interaction_result :: "uuid \<Rightarrow> unit interaction \<Rightarrow> gateway_error + unit" where
  "interaction_result job r =
     (case r of IxNotFound \<Rightarrow> Inl (job_not_found job) | IxFailed e \<Rightarrow> Inl (GwUpstream (lit ''cannot cancel workflow: '' @ e)) | IxDone u \<Rightarrow> Inr u)"

definition temporal_cancel :: "jobs_env \<Rightarrow> uuid \<Rightarrow> jobs_call list \<Rightarrow> (gateway_error + unit) \<times> jobs_call list" where
  "temporal_cancel env job cs =
     (let cs = cs @ [SignalCancel job] in
      and_then (interaction_result job (jx_signal env cs), cs) (\<lambda>_ cs.
        let cs = cs @ [CancelExecution job] in (interaction_result job (jx_cancel env cs), cs)))"

section \<open>The control plane\<close>

definition client_get_job :: "jobs_env \<Rightarrow> uuid \<Rightarrow> jobs_call list \<Rightarrow> (gateway_error + job_record) \<times> jobs_call list" where
  "client_get_job env job cs =
     (let cs = cs @ [GetJobRow job] in (gateway_send_json (jx_gateway env) ''get job'' (jx_row env cs), cs))"

definition client_update_job ::
  "jobs_env \<Rightarrow> uuid \<Rightarrow> job_update \<Rightarrow> jobs_call list \<Rightarrow> (gateway_error + job_record) \<times> jobs_call list" where
  "client_update_job env job u cs =
     (let cs = cs @ [PatchJobRow job u] in (gateway_send_json (jx_gateway env) ''update job'' (jx_patch env cs), cs))"

definition client_list_jobs ::
  "jobs_env \<Rightarrow> (rstr \<times> rstr) list \<Rightarrow> jobs_call list \<Rightarrow> (gateway_error + json) \<times> jobs_call list" where
  "client_list_jobs env filters cs =
     (let cs = cs @ [ListJobRows filters] in (gateway_send_json (jx_gateway env) ''list jobs'' (jx_list env cs), cs))"

section \<open>Handlers\<close>

record job_response =
  jp_job_id :: uuid
  jp_status :: job_status
  jp_current_step :: "rstr option"
  jp_progress :: "workflow_progress option"
  jp_pipeline_used :: "rstr option"
  jp_target_index :: "rstr option"
  jp_error :: "rstr option"

definition parse_job_id :: "jobs_env \<Rightarrow> rstr \<Rightarrow> gateway_error + uuid" where
  "parse_job_id env i =
     (case jx_parse_uuid env (trim i) of
        Some u \<Rightarrow> Inr u
      | None \<Rightarrow> Inl (GwBadRequest (lit ''invalid job id '' @ jdebug env i @ lit '': expected a UUID'')))"

definition ensure_job_visible ::
  "jobs_env \<Rightarrow> uuid \<Rightarrow> rstr option \<Rightarrow> jobs_call list \<Rightarrow> (gateway_error + unit) \<times> jobs_call list" where
  "ensure_job_visible env job tenant cs =
     (case tenant of
        None \<Rightarrow> (Inr (), cs)
      | Some t \<Rightarrow>
          (case client_get_job env job cs of
             (Inr r, cs) \<Rightarrow> (if jr_tenant_id r = Some t then Inr () else Inl (job_not_found job), cs)
           | (Inl (GwNotFound _), cs) \<Rightarrow> (Inl (job_not_found job), cs)
           | (Inl e, cs) \<Rightarrow> (Inl e, cs)))"

definition list_query :: "scope \<Rightarrow> query_params \<Rightarrow> (rstr \<times> rstr) list" where
  "list_query s params =
     List.map_filter (\<lambda>key. map_option (Pair key) (params key))
       (map lit [''status'', ''pipeline_uid'', ''parent_job_id'', ''limit'', ''offset''])
     @ (case sc_tenant_id s of Some t \<Rightarrow> [(lit ''tenant_id'', t)] | None \<Rightarrow> [])"

definition gateway_list_jobs ::
  "jobs_env \<Rightarrow> scope \<Rightarrow> query_params \<Rightarrow> jobs_call list \<Rightarrow> (gateway_error + json) \<times> jobs_call list" where
  "gateway_list_jobs env s params cs = client_list_jobs env (list_query s params) cs"

definition live_response ::
  "jobs_env \<Rightarrow> uuid \<Rightarrow> job_snapshot \<Rightarrow> jobs_call list \<Rightarrow> (gateway_error + job_response) \<times> jobs_call list" where
  "live_response env job snapshot cs =
     (let step = Option.bind (js_progress snapshot) wp_current_step; err = Option.bind (js_progress snapshot) wp_error;
          (r, cs) = client_update_job env job
            \<lparr>ju_status = Some (js_status snapshot), ju_current_step = step, ju_error = err, ju_index_name = None\<rparr> cs;
          rec = (case r of Inr rec \<Rightarrow> Some rec | Inl _ \<Rightarrow> None)
      in (Inr \<lparr>jp_job_id = job, jp_status = js_status snapshot, jp_current_step = step, jp_progress = js_progress snapshot,
            jp_pipeline_used = map_option jr_pipeline_uid rec, jp_target_index = Option.bind rec jr_index_name, jp_error = err\<rparr>, cs))"

definition cached_response :: "jobs_env \<Rightarrow> uuid \<Rightarrow> jobs_call list \<Rightarrow> (gateway_error + job_response) \<times> jobs_call list" where
  "cached_response env job cs =
     (case client_get_job env job cs of
        (Inl (GwNotFound _), cs) \<Rightarrow> (Inl (job_not_found job), cs)
      | (Inl e, cs) \<Rightarrow> (Inl e, cs)
      | (Inr r, cs) \<Rightarrow> (Inr \<lparr>jp_job_id = job, jp_status = jr_status r, jp_current_step = jr_current_step r, jp_progress = None,
            jp_pipeline_used = Some (jr_pipeline_uid r), jp_target_index = jr_index_name r, jp_error = jr_error r\<rparr>, cs))"

definition gateway_get_job ::
  "jobs_env \<Rightarrow> rstr \<Rightarrow> header_map \<Rightarrow> jobs_call list \<Rightarrow> (gateway_error + job_response) \<times> jobs_call list" where
  "gateway_get_job env i headers cs =
     and_then (authorize_job_read (ge_dbg_char (jx_gateway env)) headers (ge_config (jx_gateway env)), cs) (\<lambda>tenant cs.
     and_then (parse_job_id env i, cs) (\<lambda>job cs.
     and_then (ensure_job_visible env job tenant cs) (\<lambda>_ cs.
     and_then (temporal_progress env job cs) (\<lambda>found cs.
       case found of Some snapshot \<Rightarrow> live_response env job snapshot cs | None \<Rightarrow> cached_response env job cs))))"

definition not_cancellable :: "jobs_env \<Rightarrow> uuid \<Rightarrow> jobs_call list \<Rightarrow> gateway_error \<times> jobs_call list" where
  "not_cancellable env job cs =
     (let (found, cs) = temporal_progress env job cs;
          (status, cs) = (case found of
              Inr (Some snapshot) \<Rightarrow> (Some (js_status snapshot), cs)
            | _ \<Rightarrow> (let (r, cs) = client_get_job env job cs in (case r of Inr rec \<Rightarrow> Some (jr_status rec) | Inl _ \<Rightarrow> None, cs)))
      in (case status of
            Some status \<Rightarrow> if is_terminal status
              then GwAlreadyFinished (lit ''job '' @ job @ lit '' already finished ('' @ job_status_str status @ lit ''); there is nothing to cancel'')
              else GwAlreadyFinished (lit ''job '' @ job @ lit '' is no longer running; there is nothing to cancel'')
          | None \<Rightarrow> job_not_found job, cs))"

record cancel_response =
  cr_job_id :: uuid
  cr_status :: rstr

definition cancel_job ::
  "jobs_env \<Rightarrow> scope \<Rightarrow> rstr \<Rightarrow> jobs_call list \<Rightarrow> (gateway_error + cancel_response) \<times> jobs_call list" where
  "cancel_job env s i cs =
     and_then (parse_job_id env i, cs) (\<lambda>job cs.
     and_then (ensure_job_visible env job (sc_tenant_id s) cs) (\<lambda>_ cs.
       (case temporal_cancel env job cs of
          (Inr _, cs) \<Rightarrow> (Inr \<lparr>cr_job_id = job, cr_status = lit ''cancelling''\<rparr>, cs)
        | (Inl (GwNotFound _), cs) \<Rightarrow> (let (e, cs) = not_cancellable env job cs in (Inl e, cs))
        | (Inl e, cs) \<Rightarrow> (Inl e, cs))))"

section \<open>Another tenant's job\<close>

text \<open>What the control plane says about the job: the row's tenant, if it has a row.\<close>

definition job_of_tenant :: "jobs_env \<Rightarrow> uuid \<Rightarrow> rstr \<Rightarrow> jobs_call list \<Rightarrow> bool" where
  "job_of_tenant env job t cs \<longleftrightarrow>
     (case gateway_send_json (jx_gateway env) ''get job'' (jx_row env (cs @ [GetJobRow job])) of Inr r \<Rightarrow> jr_tenant_id r = Some t | Inl _ \<Rightarrow> False)"

lemma ensure_visible_own:
  assumes "job_of_tenant env job t cs"
  shows "ensure_job_visible env job (Some t) cs = (Inr (), cs @ [GetJobRow job])"
  using assms by (auto simp: ensure_job_visible_def client_get_job_def job_of_tenant_def Let_def split: sum.splits)

lemma ensure_visible_other:
  assumes "\<not> job_of_tenant env job t cs"
  shows "\<exists>e. ensure_job_visible env job (Some t) cs = (Inl e, cs @ [GetJobRow job])
    \<and> (case gateway_send_json (jx_gateway env) ''get job'' (jx_row env (cs @ [GetJobRow job])) of
         Inr _ \<Rightarrow> e = job_not_found job | Inl (GwNotFound _) \<Rightarrow> e = job_not_found job | Inl e' \<Rightarrow> e = e')"
  using assms by (auto simp: ensure_job_visible_def client_get_job_def job_of_tenant_def Let_def split: sum.splits gateway_error.splits)

text \<open>C39. A caller with a tenant sees and cancels the jobs of that tenant only. For a job the control plane does not give to that
  tenant, reading and cancelling ask for its row and nothing else: no call reaches Temporal, nothing is written, and the answer
  to a job of somebody else is the very answer to a job that does not exist.\<close>

theorem jobs_of_tenant_only:
  assumes scope: "authorize_job_read (ge_dbg_char (jx_gateway env)) headers (ge_config (jx_gateway env)) = Inr (Some t)"
    and job: "parse_job_id env i = Inr job" and s: "sc_tenant_id s = Some t" and other: "\<not> job_of_tenant env job t cs"
  shows "snd (gateway_get_job env i headers cs) = cs @ [GetJobRow job] \<and> snd (cancel_job env s i cs) = cs @ [GetJobRow job]
    \<and> (\<exists>e. fst (gateway_get_job env i headers cs) = Inl e \<and> fst (cancel_job env s i cs) = Inl e
        \<and> (case gateway_send_json (jx_gateway env) ''get job'' (jx_row env (cs @ [GetJobRow job])) of
             Inr _ \<Rightarrow> e = job_not_found job | Inl (GwNotFound _) \<Rightarrow> e = job_not_found job | Inl e' \<Rightarrow> e = e'))"
proof -
  obtain e where e: "ensure_job_visible env job (Some t) cs = (Inl e, cs @ [GetJobRow job])"
    and "case gateway_send_json (jx_gateway env) ''get job'' (jx_row env (cs @ [GetJobRow job])) of
         Inr _ \<Rightarrow> e = job_not_found job | Inl (GwNotFound _) \<Rightarrow> e = job_not_found job | Inl e' \<Rightarrow> e = e'"
    using ensure_visible_other[OF other] by blast
  then show ?thesis
    by (simp add: gateway_get_job_def cancel_job_def scope job s e)
qed

text \<open>The filter of a list is the caller's tenant, whatever the query string says.\<close>

lemma list_query_tenant:
  "(lit ''tenant_id'', v) \<in> set (list_query s params) \<longleftrightarrow> sc_tenant_id s = Some v"
  by (auto simp: list_query_def map_filter_def split: option.splits)

section \<open>What a read reports\<close>

lemma progress_snapshot:
  assumes "temporal_progress env job cs = (Inr (Some snapshot), cs')"
  shows "cs' = cs @ [DescribeJob job, QueryProgress job]
    \<and> (\<exists>described. jx_describe env (cs @ [DescribeJob job]) = IxDone described
        \<and> (map_execution_status described \<noteq> Running \<longrightarrow> js_status snapshot = map_execution_status described)
        \<and> (map_execution_status described = Running \<longrightarrow> js_status snapshot = (case js_progress snapshot of Some p \<Rightarrow> wp_status p | None \<Rightarrow> Running)))"
  using assms by (auto simp: temporal_progress_def combine_status_def Let_def split: interaction.splits option.splits job_status.splits)

lemma visible_pre:
  assumes "ensure_job_visible env job tenant cs = (Inr (), w)"
  shows "\<exists>pre. w = cs @ pre \<and> set pre \<subseteq> {GetJobRow job}"
proof (cases tenant)
  case (Some t)
  then show ?thesis
    using assms ensure_visible_own[of env job t cs] ensure_visible_other[of env job t cs] by (cases "job_of_tenant env job t cs") auto
qed (use assms in \<open>simp add: ensure_job_visible_def\<close>)

text \<open>What the answer says when Temporal described the execution as \<open>described\<close>, and when it does not know it.\<close>

definition live_answer :: "uuid \<Rightarrow> execution_status \<Rightarrow> jobs_call list \<Rightarrow> job_response \<Rightarrow> jobs_call list \<Rightarrow> bool" where
  "live_answer job described cs resp cs' \<longleftrightarrow>
     (\<exists>u. cs' = cs @ [QueryProgress job, PatchJobRow job u] \<and> ju_status u = Some (jp_status resp) \<and> ju_error u = jp_error resp
        \<and> ju_current_step u = jp_current_step resp)
     \<and> jp_status resp = (if map_execution_status described = Running
          then (case jp_progress resp of Some p \<Rightarrow> wp_status p | None \<Rightarrow> Running) else map_execution_status described)"

definition cached_answer :: "jobs_env \<Rightarrow> uuid \<Rightarrow> jobs_call list \<Rightarrow> job_response \<Rightarrow> jobs_call list \<Rightarrow> bool" where
  "cached_answer env job cs resp cs' \<longleftrightarrow>
     cs' = cs @ [GetJobRow job]
     \<and> (\<exists>r. gateway_send_json (jx_gateway env) ''get job'' (jx_row env cs') = Inr r \<and> jp_status resp = jr_status r
          \<and> jp_error resp = jr_error r \<and> jp_target_index resp = jr_index_name r)"

lemma live_response_answer:
  assumes "temporal_progress env job cs = (Inr (Some snapshot), w)" "live_response env job snapshot w = (Inr resp, cs')"
  shows "\<exists>described. jx_describe env (cs @ [DescribeJob job]) = IxDone described
    \<and> live_answer job described (cs @ [DescribeJob job]) resp cs' \<and> jp_job_id resp = job"
  using progress_snapshot[OF assms(1)] assms(2)
  by (auto simp: live_response_def client_update_job_def live_answer_def Let_def)

lemma cached_response_answer:
  assumes "temporal_progress env job cs = (Inr None, w)" "cached_response env job w = (Inr resp, cs')"
  shows "jx_describe env (cs @ [DescribeJob job]) = IxNotFound \<and> cached_answer env job (cs @ [DescribeJob job]) resp cs' \<and> jp_job_id resp = job"
proof -
  have "jx_describe env (cs @ [DescribeJob job]) = IxNotFound" "w = cs @ [DescribeJob job]"
    using assms(1) by (auto simp: temporal_progress_def Let_def split: interaction.splits)
  then show ?thesis
    using assms(2) by (auto simp: cached_response_def client_get_job_def cached_answer_def Let_def split: sum.splits gateway_error.splits)
qed

text \<open>C40. The status of a job is Temporal's as long as Temporal knows the execution: an ended execution is reported with its end
  whatever the workflow last said of itself, a running one with the workflow's own view; and the row is refreshed with the same
  status, step and error before the answer. Only when Temporal does not know the execution is the row reported; when Temporal
  fails there is no answer.\<close>

theorem job_reported_as_temporal:
  assumes "gateway_get_job env i headers cs = (Inr resp, cs')"
  shows "\<exists>job pre. parse_job_id env i = Inr job \<and> jp_job_id resp = job \<and> set pre \<subseteq> {GetJobRow job}
    \<and> (let asked = cs @ pre @ [DescribeJob job] in
       case jx_describe env asked of
         IxDone described \<Rightarrow> live_answer job described asked resp cs'
       | IxNotFound \<Rightarrow> cached_answer env job asked resp cs'
       | IxFailed _ \<Rightarrow> False)"
proof -
  obtain tenant job w where job: "parse_job_id env i = Inr job" and vis: "ensure_job_visible env job tenant cs = (Inr (), w)"
    and rest: "and_then (temporal_progress env job w) (\<lambda>found cs.
       case found of Some snapshot \<Rightarrow> live_response env job snapshot cs | None \<Rightarrow> cached_response env job cs) = (Inr resp, cs')"
    using assms(1) by (auto simp: gateway_get_job_def and_then_def split: sum.splits prod.splits)
  obtain pre where pre: "w = cs @ pre" "set pre \<subseteq> {GetJobRow job}"
    using visible_pre[OF vis] by blast
  obtain found w2 where prog: "temporal_progress env job w = (Inr found, w2)"
    and resp: "(case found of Some snapshot \<Rightarrow> live_response env job snapshot w2 | None \<Rightarrow> cached_response env job w2) = (Inr resp, cs')"
    using rest by (auto simp: and_then_def split: sum.splits prod.splits)
  show ?thesis
  proof (cases found)
    case None
    then show ?thesis
      using cached_response_answer[of env job w w2 resp cs'] prog resp job pre by (intro exI[of _ job] exI[of _ pre]) (simp add: Let_def)
  next
    case (Some snapshot)
    then obtain described where "jx_describe env (w @ [DescribeJob job]) = IxDone described"
        "live_answer job described (w @ [DescribeJob job]) resp cs'" "jp_job_id resp = job"
      using live_response_answer[of env job w snapshot w2 resp cs'] prog resp by auto
    then show ?thesis
      using job pre by (intro exI[of _ job] exI[of _ pre]) (simp add: Let_def)
  qed
qed

text \<open>A cancel is answered as accepted only after the signal and the cancellation of the execution were both taken, in this order.\<close>

lemma cancel_accepted:
  assumes "cancel_job env s i cs = (Inr resp, cs')"
  shows "\<exists>job pre. parse_job_id env i = Inr job \<and> set pre \<subseteq> {GetJobRow job} \<and> cs' = cs @ pre @ [SignalCancel job, CancelExecution job]
    \<and> jx_signal env (cs @ pre @ [SignalCancel job]) = IxDone () \<and> jx_cancel env cs' = IxDone ()"
proof -
  obtain job w where job: "parse_job_id env i = Inr job" and vis: "ensure_job_visible env job (sc_tenant_id s) cs = (Inr (), w)"
    and taken: "temporal_cancel env job w = (Inr (), cs')"
    using assms by (auto simp: cancel_job_def and_then_def Let_def split: sum.splits prod.splits gateway_error.splits)
  obtain pre where pre: "w = cs @ pre" "set pre \<subseteq> {GetJobRow job}"
    using visible_pre[OF vis] by blast
  have "cs' = w @ [SignalCancel job, CancelExecution job] \<and> jx_signal env (w @ [SignalCancel job]) = IxDone () \<and> jx_cancel env cs' = IxDone ()"
    using taken by (auto simp: temporal_cancel_def and_then_def interaction_result_def Let_def split: sum.splits prod.splits interaction.splits)
  then show ?thesis
    using job pre by (intro exI[of _ job] exI[of _ pre]) auto
qed

section \<open>Witnesses\<close>

text \<open>Job \<open>a\<close> is of tenant \<open>acme\<close>, every other one of \<open>corp\<close>; the caller is \<open>acme\<close>. The fields of the gateway that jobs
  do not use are arbitrary.\<close>

definition demo_jobs :: "gateway_env \<Rightarrow> jobs_env" where
  "demo_jobs g = \<lparr>jx_gateway = g\<lparr>ge_config := demo_edge_config, ge_dbg_char := (\<lambda>c. [c])\<rparr>, jx_parse_uuid = Some,
     jx_describe = (\<lambda>_. IxDone ExCompleted), jx_progress = (\<lambda>_. None), jx_signal = (\<lambda>_. IxDone ()), jx_cancel = (\<lambda>_. IxDone ()),
     jx_row = (\<lambda>cs. CpReply 200 \<lparr>ue_error = None, ue_message = None, ue_text = []\<rparr> (Inr \<lparr>jr_job_id = lit ''a'', jr_workflow_id = [], jr_pipeline_uid = [],
        jr_tenant_id = Some (if last cs = GetJobRow (lit ''a'') then lit ''acme'' else lit ''corp''), jr_index_name = None, jr_status = Running,
        jr_current_step = None, jr_error = None, jr_started_at = 0, jr_updated_at = 0\<rparr>)),
     jx_patch = (\<lambda>_. CpNoReply []), jx_list = (\<lambda>_. CpNoReply [])\<rparr>"

lemma demo_jobs_facts:
  "authorize_job_read (ge_dbg_char (jx_gateway (demo_jobs g))) demo_edge_headers (ge_config (jx_gateway (demo_jobs g))) = Inr (Some (lit ''acme''))"
  "parse_job_id (demo_jobs g) (lit [c]) = Inr (trim (lit [c]))"
  "job_of_tenant (demo_jobs g) job (lit ''acme'') cs \<longleftrightarrow> job = lit ''a''"
proof -
  show "authorize_job_read (ge_dbg_char (jx_gateway (demo_jobs g))) demo_edge_headers (ge_config (jx_gateway (demo_jobs g)))
      = Inr (Some (lit ''acme''))"
    by (simp add: authorize_job_read_def demo_jobs_def demo_managed demo_bearer demo_management)
  show "parse_job_id (demo_jobs g) (lit [c]) = Inr (trim (lit [c]))"
    by (simp add: parse_job_id_def demo_jobs_def)
  show "job_of_tenant (demo_jobs g) job (lit ''acme'') cs \<longleftrightarrow> job = lit ''a''"
    by (auto simp: job_of_tenant_def demo_jobs_def gateway_send_json_def http_success_def lit_def)
qed

theorem jobs_of_tenant_only_witness:
  "\<forall>g. fst (gateway_get_job (demo_jobs g) (lit ''b'') demo_edge_headers []) = Inl (job_not_found (lit ''b''))
     \<and> snd (cancel_job (demo_jobs g) \<lparr>sc_principal = PrincipalLab, sc_tenant_id = Some (lit ''acme'')\<rparr> (lit ''b'') []) = [GetJobRow (lit ''b'')]"
proof
  fix g
  have b: "trim (lit ''b'') = lit ''b''" "lit ''b'' \<noteq> lit ''a''"
    by (simp_all add: trim_def trim_start_def trim_end_def is_whitespace_def lit_def)
  obtain r where "gateway_send_json (jx_gateway (demo_jobs g)) ''get job'' (jx_row (demo_jobs g) ([] @ [GetJobRow (lit ''b'')])) = Inr r"
    by (simp add: demo_jobs_def gateway_send_json_def http_success_def)
  then show "fst (gateway_get_job (demo_jobs g) (lit ''b'') demo_edge_headers []) = Inl (job_not_found (lit ''b''))
     \<and> snd (cancel_job (demo_jobs g) \<lparr>sc_principal = PrincipalLab, sc_tenant_id = Some (lit ''acme'')\<rparr> (lit ''b'') []) = [GetJobRow (lit ''b'')]"
    using jobs_of_tenant_only[of "demo_jobs g" demo_edge_headers "lit ''acme''" "lit ''b''" "lit ''b''"
        "\<lparr>sc_principal = PrincipalLab, sc_tenant_id = Some (lit ''acme'')\<rparr>" "[]"]
      demo_jobs_facts(1)[of g] demo_jobs_facts(2)[of g "CHR ''b''"] demo_jobs_facts(3)[of g "lit ''b''" "[]"] b
    by (auto split: sum.splits)
qed

theorem job_reported_as_temporal_witness:
  "\<forall>g. \<exists>resp cs'. gateway_get_job (demo_jobs g) (lit ''a'') demo_edge_headers [] = (Inr resp, cs')
     \<and> jp_job_id resp = lit ''a'' \<and> jp_status resp = Succeeded"
proof
  fix g
  have a: "trim (lit ''a'') = lit ''a''"
    by (simp add: trim_def trim_start_def trim_end_def is_whitespace_def lit_def)
  have ex: "jx_describe (demo_jobs g) cs = IxDone ExCompleted" for cs
    by (simp add: demo_jobs_def)
  obtain resp cs' where resp: "gateway_get_job (demo_jobs g) (lit ''a'') demo_edge_headers [] = (Inr resp, cs')"
    by (simp add: gateway_get_job_def demo_jobs_facts a ensure_visible_own temporal_progress_def ex live_response_def
        client_update_job_def Let_def)
  then show "\<exists>resp cs'. gateway_get_job (demo_jobs g) (lit ''a'') demo_edge_headers [] = (Inr resp, cs')
     \<and> jp_job_id resp = lit ''a'' \<and> jp_status resp = Succeeded"
    using job_reported_as_temporal[OF resp] demo_jobs_facts(2)[of g "CHR ''a''"] a
    by (auto simp: ex Let_def live_answer_def)
qed

end
