(* ===== verification/Control_Connections.thy ===== *)
theory Control_Connections
  imports Control_Pipelines
begin

text \<open>
  The table of Meilisearch connections and its internal routes: \<open>crates/control-plane/src/connections.rs\<close>. Keys are
  sealed bytes here. Parameters: failures of Postgres, its collation, its clock, the text of a JSON value that is no string.
  The lemmas: reads fall back to the global row, a job's lookup never does, writes touch one row of exactly one scope.
\<close>

section \<open>Rows\<close>

record conn_row =
  cn_id :: uuid
  cn_uid :: rstr
  cn_name :: rstr
  cn_tenant_id :: "rstr option"
  cn_host :: rstr
  cn_api_key :: "byte list"
  cn_created_at :: int
  cn_updated_at :: int

record new_connection =
  nc_id :: uuid
  nc_uid :: rstr
  nc_name :: rstr
  nc_tenant_id :: "rstr option"
  nc_host :: rstr
  nc_api_key :: "byte list"

record connection_patch =
  cp_name :: "rstr option"
  cp_host :: "rstr option"
  cp_api_key :: "byte list option"

record conns_world =
  kw_rows :: "conn_row list"
  kw_pipelines :: "pipeline_row list"
  kw_queries :: nat

record conns_env =
  kq_debug :: "rstr \<Rightarrow> rstr"
  kq_down :: "nat \<Rightarrow> (bool \<times> rstr) option"
  kq_text_le :: "rstr \<Rightarrow> rstr \<Rightarrow> bool"
  kq_now :: "nat \<Rightarrow> int"
  kq_json_text :: "json \<Rightarrow> rstr"

section \<open>The repository\<close>

text \<open>A statement on the rows; the pipelines are only read.\<close>

definition conns_query :: "conns_env \<Rightarrow> (conn_row list \<Rightarrow> 'a \<times> conn_row list) \<Rightarrow> conns_world \<Rightarrow> (cp_error + 'a) \<times> conns_world" where
  "conns_query env f w =
     (let (r, rows) = attempt (kq_down env (kw_queries w)) (Inr (f (kw_rows w))) (kw_rows w)
      in (r, w\<lparr>kw_queries := kw_queries w + 1, kw_rows := rows\<rparr>))"

definition conns_list :: "conns_env \<Rightarrow> rstr option \<Rightarrow> conns_world \<Rightarrow> (cp_error + conn_row list) \<times> conns_world" where
  "conns_list env tenant = conns_query env (\<lambda>rows. (order_by (scope_first cn_tenant_id (\<lambda>x y. kq_text_le env (cn_uid x) (cn_uid y)))
     (filter (\<lambda>r. visible_row (cn_tenant_id r) tenant) rows), rows))"

definition conns_get :: "conns_env \<Rightarrow> rstr \<Rightarrow> rstr option \<Rightarrow> conns_world \<Rightarrow> (cp_error + conn_row option) \<times> conns_world" where
  "conns_get env uid tenant = conns_query env (\<lambda>rows. (scoped_row cn_tenant_id tenant (filter (\<lambda>r. cn_uid r = uid) rows), rows))"

definition conns_get_owned :: "conns_env \<Rightarrow> rstr \<Rightarrow> rstr \<Rightarrow> conns_world \<Rightarrow> (cp_error + conn_row option) \<times> conns_world" where
  "conns_get_owned env uid tenant = conns_query env (\<lambda>rows. (find (\<lambda>r. cn_uid r = uid \<and> cn_tenant_id r = Some tenant) rows, rows))"

text \<open>The unique index: the uid and \<open>COALESCE(tenant_id, '')\<close>.\<close>

definition conn_key :: "conn_row \<Rightarrow> rstr \<times> rstr" where
  "conn_key r = (cn_uid r, by_scope (cn_tenant_id r))"

definition row_of_new :: "int \<Rightarrow> new_connection \<Rightarrow> conn_row" where
  "row_of_new now new = \<lparr>cn_id = nc_id new, cn_uid = nc_uid new, cn_name = nc_name new, cn_tenant_id = nc_tenant_id new,
     cn_host = nc_host new, cn_api_key = nc_api_key new, cn_created_at = now, cn_updated_at = now\<rparr>"

text \<open>\<open>None\<close>: a unique violation, of the primary key or of the index.\<close>

definition insert_conn_row :: "conn_row \<Rightarrow> conn_row list \<Rightarrow> conn_row option \<times> conn_row list" where
  "insert_conn_row row rows =
     (if list_ex (\<lambda>r. cn_id r = cn_id row \<or> conn_key r = conn_key row) rows then (None, rows) else (Some row, rows @ [row]))"

definition conns_insert :: "conns_env \<Rightarrow> new_connection \<Rightarrow> conns_world \<Rightarrow> (cp_error + conn_row) \<times> conns_world" where
  "conns_insert env new w =
     and_then (conns_query env (insert_conn_row (row_of_new (kq_now env (kw_queries w)) new)) w) (\<lambda>stored w.
       (case stored of
          Some row \<Rightarrow> Inr row
        | None \<Rightarrow> Inl (CpValidation (lit ''a connection named '' @ kq_debug env (nc_uid new) @ lit '' already exists for this tenant'')), w))"

definition patched_row :: "int \<Rightarrow> connection_patch \<Rightarrow> conn_row \<Rightarrow> conn_row" where
  "patched_row now p r = r\<lparr>cn_name := (case cp_name p of Some x \<Rightarrow> x | None \<Rightarrow> cn_name r), cn_host := (case cp_host p of Some x \<Rightarrow> x | None \<Rightarrow> cn_host r),
     cn_api_key := (case cp_api_key p of Some x \<Rightarrow> x | None \<Rightarrow> cn_api_key r), cn_updated_at := now\<rparr>"

definition patch_conn_rows :: "int \<Rightarrow> rstr \<Rightarrow> rstr option \<Rightarrow> connection_patch \<Rightarrow> conn_row list \<Rightarrow> conn_row option \<times> conn_row list" where
  "patch_conn_rows now uid tenant p rows =
     (let hit = (\<lambda>r. conn_key r = (uid, by_scope tenant))
      in (map_option (patched_row now p) (find hit rows), map (\<lambda>r. if hit r then patched_row now p r else r) rows))"

definition conns_update ::
  "conns_env \<Rightarrow> rstr \<Rightarrow> rstr option \<Rightarrow> connection_patch \<Rightarrow> conns_world \<Rightarrow> (cp_error + conn_row option) \<times> conns_world" where
  "conns_update env uid tenant p w = conns_query env (patch_conn_rows (kq_now env (kw_queries w)) uid tenant p) w"

definition conns_delete :: "conns_env \<Rightarrow> rstr \<Rightarrow> rstr option \<Rightarrow> conns_world \<Rightarrow> (cp_error + bool) \<times> conns_world" where
  "conns_delete env uid tenant = conns_query env (\<lambda>rows.
     (list_ex (\<lambda>r. conn_key r = (uid, by_scope tenant)) rows, filter (\<lambda>r. conn_key r \<noteq> (uid, by_scope tenant)) rows))"

text \<open>\<open>config ->> 'connection'\<close>: the text of the member, unlike \<open>pinned_connection\<close> neither trimmed nor of strings only.\<close>

definition named_connection :: "conns_env \<Rightarrow> json \<Rightarrow> rstr option" where
  "named_connection env config =
     (case json_get config (lit ''connection'') of
        Some (JString s) \<Rightarrow> Some s
      | Some JNull \<Rightarrow> None
      | Some v \<Rightarrow> Some (kq_json_text env v)
      | None \<Rightarrow> None)"

definition uses_connection :: "conns_env \<Rightarrow> rstr \<Rightarrow> rstr option \<Rightarrow> pipeline_row \<Rightarrow> bool" where
  "uses_connection env uid tenant p \<longleftrightarrow>
     list_ex (\<lambda>s. step_plugin s = INDEXER_PLUGIN \<and> named_connection env (step_config s) = Some uid) (pl_steps (pr_definition p))
     \<and> (tenant = None \<or> pr_tenant_id p = None \<or> pr_tenant_id p = tenant)"

definition conns_used_by :: "conns_env \<Rightarrow> rstr \<Rightarrow> rstr option \<Rightarrow> conns_world \<Rightarrow> (cp_error + rstr list) \<times> conns_world" where
  "conns_used_by env uid tenant w = conns_query env (\<lambda>rows.
     (map pr_uid (order_by (\<lambda>x y. kq_text_le env (pr_uid x) (pr_uid y)) (filter (uses_connection env uid tenant) (kw_pipelines w))), rows)) w"

section \<open>Routes\<close>

definition conn_opt_debug :: "conns_env \<Rightarrow> rstr option \<Rightarrow> rstr" where
  "conn_opt_debug env x = (case x of None \<Rightarrow> lit ''None'' | Some s \<Rightarrow> lit ''Some('' @ kq_debug env s @ lit '')'')"

definition conn_not_found :: "conns_env \<Rightarrow> rstr \<Rightarrow> rstr option \<Rightarrow> cp_error" where
  "conn_not_found env uid tenant =
     CpNotFound (lit ''connection '' @ kq_debug env uid @ lit '' not found (tenant_id='' @ conn_opt_debug env tenant @ lit '')'')"

definition conn_or_404 :: "conns_env \<Rightarrow> rstr \<Rightarrow> rstr option \<Rightarrow> 'a option \<Rightarrow> conns_world \<Rightarrow> (cp_error + 'a) \<times> conns_world" where
  "conn_or_404 env uid tenant found w = (case found of Some x \<Rightarrow> Inr x | None \<Rightarrow> Inl (conn_not_found env uid tenant), w)"

definition cp_list_connections :: "conns_env \<Rightarrow> rstr option \<Rightarrow> rstr option \<Rightarrow> conns_world \<Rightarrow> (cp_error + conn_row list) \<times> conns_world" where
  "cp_list_connections env tenant project_header = conns_list env (tenant_scope tenant project_header)"

definition cp_create_connection :: "conns_env \<Rightarrow> new_connection \<Rightarrow> conns_world \<Rightarrow> (cp_error + conn_row) \<times> conns_world" where
  "cp_create_connection env new = conns_insert env new"

definition cp_get_connection ::
  "conns_env \<Rightarrow> rstr \<Rightarrow> rstr option \<Rightarrow> rstr option \<Rightarrow> rstr option \<Rightarrow> conns_world \<Rightarrow> (cp_error + conn_row) \<times> conns_world" where
  "cp_get_connection env uid tenant scope project_header w =
     (let tenant = tenant_scope tenant project_header in
      and_then
        (case scope of
           None \<Rightarrow> conns_get env uid tenant w
         | Some s \<Rightarrow>
             if s = lit ''tenant''
             then (case tenant of Some t \<Rightarrow> conns_get_owned env uid t w | None \<Rightarrow> (Inl (CpValidation (lit ''scope=tenant needs a tenant_id'')), w))
             else (Inl (CpValidation (lit ''unknown scope '' @ kq_debug env s)), w))
        (conn_or_404 env uid tenant))"

definition cp_patch_connection ::
  "conns_env \<Rightarrow> rstr \<Rightarrow> rstr option \<Rightarrow> rstr option \<Rightarrow> connection_patch \<Rightarrow> conns_world \<Rightarrow> (cp_error + conn_row) \<times> conns_world" where
  "cp_patch_connection env uid tenant project_header p w =
     (let tenant = tenant_scope tenant project_header in and_then (conns_update env uid tenant p w) (conn_or_404 env uid tenant))"

definition cp_delete_connection ::
  "conns_env \<Rightarrow> rstr \<Rightarrow> rstr option \<Rightarrow> rstr option \<Rightarrow> conns_world \<Rightarrow> (cp_error + unit) \<times> conns_world" where
  "cp_delete_connection env uid tenant project_header w =
     (let tenant = tenant_scope tenant project_header in
      and_then (conns_used_by env uid tenant w) (\<lambda>_ w.
      and_then (conns_delete env uid tenant w) (\<lambda>deleted w.
        (if deleted then Inr () else Inl (conn_not_found env uid tenant), w))))"

definition cp_connection_used_by ::
  "conns_env \<Rightarrow> rstr \<Rightarrow> rstr option \<Rightarrow> rstr option \<Rightarrow> conns_world \<Rightarrow> (cp_error + rstr list) \<times> conns_world" where
  "cp_connection_used_by env uid tenant project_header = conns_used_by env uid (tenant_scope tenant project_header)"

section \<open>Scopes\<close>

text \<open>What the table keeps: one row per id, and per name and scope.\<close>

definition conns_ok :: "conn_row list \<Rightarrow> bool" where
  "conns_ok rows \<longleftrightarrow> distinct (map cn_id rows) \<and> distinct (map conn_key rows)"

lemma conns_query_result:
  obtains (failed) e where "conns_query env f w = (Inl (CpDb e), w\<lparr>kw_queries := kw_queries w + 1\<rparr>)"
  | (lost) e where "conns_query env f w = (Inl (CpDb e), w\<lparr>kw_queries := kw_queries w + 1, kw_rows := snd (f (kw_rows w))\<rparr>)"
  | (ran) "kq_down env (kw_queries w) = None"
      "conns_query env f w = (Inr (fst (f (kw_rows w))), w\<lparr>kw_queries := kw_queries w + 1, kw_rows := snd (f (kw_rows w))\<rparr>)"
proof (cases "kq_down env (kw_queries w)")
  case None
  then show ?thesis
    using ran by (cases "f (kw_rows w)") (simp add: conns_query_def attempt_def)
next
  case (Some d)
  then show ?thesis
    using failed lost by (cases d; cases "fst d"; cases "f (kw_rows w)") (auto simp: conns_query_def attempt_def)
qed

lemma conns_query_rows: "kw_rows (snd (conns_query env f w)) \<in> {kw_rows w, snd (f (kw_rows w))}"
  by (rule conns_query_result[of env f w]) auto

lemma conns_query_Inr:
  "conns_query env f w = (Inr x, w') \<longleftrightarrow> kq_down env (kw_queries w) = None \<and> x = fst (f (kw_rows w))
     \<and> w' = w\<lparr>kw_queries := kw_queries w + 1, kw_rows := snd (f (kw_rows w))\<rparr>"
  by (cases "f (kw_rows w)") (auto simp: conns_query_def attempt_def split: option.splits prod.splits bool.splits)

lemma insert_conn_ok: "conns_ok rows \<Longrightarrow> conns_ok (snd (insert_conn_row row rows))"
  by (auto simp: conns_ok_def insert_conn_row_def list_ex_iff)

lemma patched_key [simp]: "conn_key (patched_row now p r) = conn_key r" "cn_id (patched_row now p r) = cn_id r"
  by (simp_all add: patched_row_def conn_key_def)

lemma patch_conn_map:
  "(\<And>r. f (patched_row now p r) = f r) \<Longrightarrow> map f (snd (patch_conn_rows now uid tenant p rows)) = map f rows"
  by (simp add: patch_conn_rows_def Let_def)

lemma patch_conn_ok: "conns_ok rows \<Longrightarrow> conns_ok (snd (patch_conn_rows now uid tenant p rows))"
  by (simp add: conns_ok_def patch_conn_map)

lemma delete_conn_ok: "conns_ok rows \<Longrightarrow> conns_ok (filter P rows)"
  by (simp add: conns_ok_def distinct_map_filter)

text \<open>Writes to connections stay in their scope. A create adds at most its own row, a patch changes and a delete removes at most
  the row of that name in exactly the caller's scope, whatever fails: every other row stays as it was, and no id and no name of a scope
  comes twice.\<close>

theorem connection_writes_in_scope:
  assumes "conns_ok (kw_rows w)"
  shows "let key = (uid, by_scope (tenant_scope tenant h));
       others = filter (\<lambda>r. conn_key r \<noteq> key);
       patched = snd (cp_patch_connection env uid tenant h p w);
       deleted = snd (cp_delete_connection env uid tenant h w);
       created = snd (cp_create_connection env new w)
     in conns_ok (kw_rows patched) \<and> others (kw_rows patched) = others (kw_rows w)
      \<and> conns_ok (kw_rows deleted) \<and> others (kw_rows deleted) = others (kw_rows w)
      \<and> conns_ok (kw_rows created) \<and> kw_rows created \<in> {kw_rows w, kw_rows w @ [row_of_new (kq_now env (kw_queries w)) new]}"
proof -
  let ?tenant = "tenant_scope tenant h"
  have routes: "kw_rows (snd (conn_or_404 env uid ?tenant found w')) = kw_rows w'" for found :: "conn_row option" and w'
    by (simp add: conn_or_404_def)
  have patched: "kw_rows (snd (cp_patch_connection env uid tenant h p w)) \<in>
      {kw_rows w, snd (patch_conn_rows (kq_now env (kw_queries w)) uid ?tenant p (kw_rows w))}"
    using conns_query_rows[of env "patch_conn_rows (kq_now env (kw_queries w)) uid ?tenant p" w]
    by (cases "conns_update env uid ?tenant p w") (auto simp: cp_patch_connection_def conns_update_def conn_or_404_def and_then_def split: sum.splits)
  have same: "filter (\<lambda>r. conn_key r \<noteq> (uid, by_scope ?tenant)) (snd (patch_conn_rows now uid ?tenant p rows))
      = filter (\<lambda>r. conn_key r \<noteq> (uid, by_scope ?tenant)) rows" for now rows
    by (induction rows) (auto simp: patch_conn_rows_def Let_def)
  have deleted: "kw_rows (snd (cp_delete_connection env uid tenant h w)) \<in>
      {kw_rows w, filter (\<lambda>r. conn_key r \<noteq> (uid, by_scope ?tenant)) (kw_rows w)}"
  proof -
    obtain r w1 where used: "conns_used_by env uid ?tenant w = (r, w1)" by (cases "conns_used_by env uid ?tenant w")
    have w1: "kw_rows w1 = kw_rows w"
      using conns_query_rows[of env "\<lambda>rows. (map pr_uid (order_by (\<lambda>x y. kq_text_le env (pr_uid x) (pr_uid y))
        (filter (uses_connection env uid ?tenant) (kw_pipelines w))), rows)" w] used by (simp add: conns_used_by_def)
    obtain d w2 where del: "conns_delete env uid ?tenant w1 = (d, w2)" by (cases "conns_delete env uid ?tenant w1")
    have "kw_rows w2 \<in> {kw_rows w1, filter (\<lambda>r. conn_key r \<noteq> (uid, by_scope ?tenant)) (kw_rows w1)}"
      using conns_query_rows[of env "\<lambda>rows. (list_ex (\<lambda>r. conn_key r = (uid, by_scope ?tenant)) rows,
        filter (\<lambda>r. conn_key r \<noteq> (uid, by_scope ?tenant)) rows)" w1] del by (simp add: conns_delete_def)
    then show ?thesis
      using w1 by (cases r; cases d) (auto simp: cp_delete_connection_def used del Let_def)
  qed
  have created: "kw_rows (snd (cp_create_connection env new w)) \<in> {kw_rows w, snd (insert_conn_row (row_of_new (kq_now env (kw_queries w)) new) (kw_rows w))}"
    using conns_query_rows[of env "insert_conn_row (row_of_new (kq_now env (kw_queries w)) new)" w]
    by (cases "conns_query env (insert_conn_row (row_of_new (kq_now env (kw_queries w)) new)) w")
      (auto simp: cp_create_connection_def conns_insert_def and_then_def split: sum.splits)
  then have added: "kw_rows (snd (cp_create_connection env new w)) \<in> {kw_rows w, kw_rows w @ [row_of_new (kq_now env (kw_queries w)) new]}"
    by (auto simp: insert_conn_row_def split: if_splits)
  have "conns_ok (kw_rows (snd (cp_create_connection env new w)))" "conns_ok (kw_rows (snd (cp_patch_connection env uid tenant h p w)))"
      "conns_ok (kw_rows (snd (cp_delete_connection env uid tenant h w)))"
    using created patched deleted insert_conn_ok[OF assms] patch_conn_ok[OF assms] delete_conn_ok[OF assms] assms by auto
  moreover have "filter (\<lambda>r. conn_key r \<noteq> (uid, by_scope ?tenant)) (kw_rows (snd (cp_patch_connection env uid tenant h p w)))
      = filter (\<lambda>r. conn_key r \<noteq> (uid, by_scope ?tenant)) (kw_rows w)"
    using patched same by auto
  moreover have "filter (\<lambda>r. conn_key r \<noteq> (uid, by_scope ?tenant)) (kw_rows (snd (cp_delete_connection env uid tenant h w)))
      = filter (\<lambda>r. conn_key r \<noteq> (uid, by_scope ?tenant)) (kw_rows w)"
    using deleted by auto
  ultimately show ?thesis
    using added by (simp add: Let_def)
qed

text \<open>A lookup with \<open>scope=tenant\<close>, what a job uses, gives a row of that tenant only; a create is found by it.\<close>

lemma job_lookup_owned:
  "cp_get_connection env uid tenant (Some (lit ''tenant'')) h w = (Inr r, w') \<Longrightarrow>
     r \<in> set (kw_rows w) \<and> cn_uid r = uid \<and> tenant_scope tenant h \<noteq> None \<and> cn_tenant_id r = tenant_scope tenant h"
  by (auto simp: cp_get_connection_def Let_def and_then_Inr conns_get_owned_def conns_query_Inr conn_or_404_def
      dest!: find_SomeD split: option.splits)

lemma created_connection_found:
  assumes "cp_create_connection env new w = (Inr r, w')" "conns_ok (kw_rows w)" "kq_down env (kw_queries w') = None"
    and "nc_tenant_id new = Some t" "tenant_scope (Some t) h = Some t"
  shows "fst (cp_get_connection env (nc_uid new) (Some t) (Some (lit ''tenant'')) h w') = Inr r \<and> cn_host r = nc_host new \<and> cn_api_key r = nc_api_key new"
proof -
  let ?row = "row_of_new (kq_now env (kw_queries w)) new"
  have r: "r = ?row" "kw_rows w' = kw_rows w @ [?row]" and fresh: "\<not> list_ex (\<lambda>r. cn_id r = cn_id ?row \<or> conn_key r = conn_key ?row) (kw_rows w)"
    using assms(1) by (auto simp: cp_create_connection_def conns_insert_def and_then_Inr conns_query_Inr insert_conn_row_def
        split: if_splits option.splits)
  have key: "conn_key ?row = (nc_uid new, t)" "cn_uid ?row = nc_uid new" "cn_tenant_id ?row = Some t"
    using assms(4) by (simp_all add: conn_key_def row_of_new_def by_scope_def)
  have "find (\<lambda>r. cn_uid r = nc_uid new \<and> cn_tenant_id r = Some t) (kw_rows w) = None"
    using fresh key by (auto simp: find_None_iff list_ex_iff conn_key_def by_scope_def)
  moreover have "find P rows = None \<Longrightarrow> find P (rows @ [x]) = (if P x then Some x else None)" for P :: "conn_row \<Rightarrow> bool" and rows x
    by (induction rows) (auto split: if_splits)
  ultimately have "find (\<lambda>r. cn_uid r = nc_uid new \<and> cn_tenant_id r = Some t) (kw_rows w') = Some ?row"
    using key by (simp add: r)
  then show ?thesis
    using assms(3,5) by (simp add: cp_get_connection_def conns_get_owned_def conns_query_def attempt_def conn_or_404_def r)
      (simp add: row_of_new_def)
qed

section \<open>Witness\<close>

definition demo_conns_env :: conns_env where
  "demo_conns_env = \<lparr>kq_debug = id, kq_down = (\<lambda>_. None), kq_text_le = (\<le>), kq_now = int, kq_json_text = (\<lambda>_. [])\<rparr>"

definition demo_conn :: "string \<Rightarrow> rstr option \<Rightarrow> conn_row" where
  "demo_conn name tenant = \<lparr>cn_id = lit name, cn_uid = lit ''main'', cn_name = [], cn_tenant_id = tenant, cn_host = lit ''http://a'', cn_api_key = [1],
     cn_created_at = 0, cn_updated_at = 0\<rparr>"

definition demo_conns :: conns_world where
  "demo_conns = \<lparr>kw_rows = [demo_conn ''g'' None, demo_conn ''t'' (Some (lit ''t''))], kw_pipelines = [], kw_queries = 0\<rparr>"

theorem connection_writes_in_scope_witness:
  "filter (\<lambda>r. conn_key r \<noteq> (lit ''main'', lit ''t'')) (kw_rows (snd (cp_delete_connection demo_conns_env (lit ''main'') (Some (lit ''t'')) None demo_conns)))
     = [demo_conn ''g'' None]"
proof -
  have "conns_ok (kw_rows demo_conns)"
    by (simp add: conns_ok_def demo_conns_def demo_conn_def conn_key_def by_scope_def lit_def)
  moreover have "tenant_scope (Some (lit ''t'')) None = Some (lit ''t'')"
    by (simp add: tenant_scope_def non_blank_def trim_def trim_start_def trim_end_def is_whitespace_def lit_def)
  moreover have "filter (\<lambda>r. conn_key r \<noteq> (lit ''main'', lit ''t'')) (kw_rows demo_conns) = [demo_conn ''g'' None]"
    by (simp add: demo_conns_def demo_conn_def conn_key_def by_scope_def lit_def)
  ultimately show ?thesis
    using connection_writes_in_scope[of demo_conns "lit ''main''" "Some (lit ''t'')" None demo_conns_env undefined undefined]
    by (simp add: Let_def by_scope_def)
qed

section \<open>Two patches\<close>

text \<open>One patch changes the host, another the key: the row ends with a pair that neither of them had.\<close>

lemma patches_combine:
  "patch_conn_rows t2 uid tenant \<lparr>cp_name = None, cp_host = None, cp_api_key = Some k\<rparr>
      (snd (patch_conn_rows t1 uid tenant \<lparr>cp_name = None, cp_host = Some h, cp_api_key = None\<rparr> [r]))
     = (Some (r\<lparr>cn_host := h, cn_api_key := k, cn_updated_at := t2\<rparr>), [r\<lparr>cn_host := h, cn_api_key := k, cn_updated_at := t2\<rparr>])"
  if "conn_key r = (uid, by_scope tenant)"
  using that by (simp add: patch_conn_rows_def patched_row_def conn_key_def Let_def)

end
