(* ===== verification/Gateway_Connections.thy ===== *)
theory Gateway_Connections
  imports Control_Connections Gateway_Submit
begin

text \<open>
  The \<open>/connections\<close> routes of the gateway: \<open>crates/gateway/src/handlers/connections.rs\<close> and \<open>connections.rs\<close>. The state is the
  list of requests made, to the control plane and to the Meilisearch that is being connected. Parameters: what they answer,
  the JSON of a body, URL parsing, the cipher with its nonces, random ids. The lemmas: nothing is stored that was not tried
  against its Meilisearch, a key leaves the gateway sealed or towards the host it was given for, and no answer shows one.
\<close>

section \<open>Requests\<close>

datatype conn_call =
    ProbeHealth rstr
  | ProbeIndexes rstr rstr
  | ListConns "rstr option"
  | GetConn rstr "rstr option"
  | ConnUsers rstr "rstr option"
  | CreateConn new_connection
  | PatchConn rstr "rstr option" connection_patch
  | DeleteConn rstr "rstr option"

record create_connection_body =
  kb_uid :: rstr
  kb_name :: "rstr option"
  kb_host :: rstr
  kb_api_key :: rstr

record update_connection_body =
  ub_name :: "rstr option"
  ub_host :: "rstr option"
  ub_api_key :: "rstr option"

text \<open>\<open>nx_query_or_fragment\<close>: whether a URL has either. A probe is answered with a status, or fails.\<close>

record conn_env =
  nx_gateway :: gateway_env
  nx_key :: "secret_key option"
  nx_policy :: host_policy
  nx_aead :: aead
  nx_parse_url :: "rstr \<Rightarrow> rstr + url"
  nx_query_or_fragment :: "url \<Rightarrow> bool"
  nx_create_body :: "byte list \<Rightarrow> rstr + create_connection_body"
  nx_update_body :: "byte list \<Rightarrow> rstr + update_connection_body"
  nx_probe :: "conn_call list \<Rightarrow> rstr + nat"
  nx_row :: "conn_call list \<Rightarrow> conn_row cp_reply"
  nx_rows :: "conn_call list \<Rightarrow> conn_row list cp_reply"
  nx_users :: "conn_call list \<Rightarrow> rstr list cp_reply"
  nx_deleted :: "conn_call list \<Rightarrow> unit cp_reply"
  nx_nonce :: "conn_call list \<Rightarrow> byte list"
  nx_uuid :: "conn_call list \<Rightarrow> uuid"

abbreviation cdebug :: "conn_env \<Rightarrow> rstr \<Rightarrow> rstr" where
  "cdebug env \<equiv> gdebug (nx_gateway env)"

abbreviation cstatus :: "conn_env \<Rightarrow> nat \<Rightarrow> rstr" where
  "cstatus env \<equiv> be_status (ge_blob (nx_gateway env))"

section \<open>What a connection looks like from outside\<close>

definition MASK :: rstr where
  "MASK = lit ''****''"

record connection_view =
  cv_uid :: rstr
  cv_name :: rstr
  cv_tenant_id :: "rstr option"
  cv_host :: rstr
  cv_api_key :: rstr
  cv_scope :: row_scope
  cv_used_by :: "rstr list option"
  cv_created_at :: int
  cv_updated_at :: int

definition view_of_record :: "conn_row \<Rightarrow> rstr list option \<Rightarrow> connection_view" where
  "view_of_record r used_by = \<lparr>cv_uid = cn_uid r, cv_name = cn_name r, cv_tenant_id = cn_tenant_id r, cv_host = cn_host r, cv_api_key = MASK,
     cv_scope = row_scope_of False (cn_tenant_id r), cv_used_by = used_by, cv_created_at = cn_created_at r, cv_updated_at = cn_updated_at r\<rparr>"

section \<open>Checks\<close>

definition connection_key :: "conn_env \<Rightarrow> gateway_error + secret_key" where
  "connection_key env = (case nx_key env of Some key \<Rightarrow> Inr key | None \<Rightarrow> Inl (GwNotImplemented
     (lit ''Meilisearch connections are disabled: set SOURCE_SECRET_KEY (32 bytes, base64) on the gateway and the workers'')))"

definition valid_conn_uid :: "rstr \<Rightarrow> bool" where
  "valid_conn_uid uid \<longleftrightarrow> uid \<noteq> [] \<and> utf8_len uid \<le> 128 \<and> (\<forall>c \<in> set uid. is_ascii_alphanumeric c \<or> c \<in> {46, 95, 45})"

definition check_conn_uid :: "conn_env \<Rightarrow> rstr \<Rightarrow> gateway_error + unit" where
  "check_conn_uid env uid =
     (if valid_conn_uid uid then Inr ()
      else Inl (GwBadRequest (lit ''invalid connection uid '' @ cdebug env uid @ lit '': must be 1-128 characters of [a-zA-Z0-9._-]'')))"

definition normalize_host :: "conn_env \<Rightarrow> rstr \<Rightarrow> gateway_error + rstr \<times> url" where
  "normalize_host env raw =
     (let host = rev (trim_start_matches (\<lambda>c. c = 47) (rev (trim raw))) in
      case nx_parse_url env host of
        Inl e \<Rightarrow> Inl (GwUnprocessable (lit ''host '' @ cdebug env host @ lit '' is not a URL: '' @ e))
      | Inr u \<Rightarrow>
          if nx_query_or_fragment env u
          then Inl (GwUnprocessable (lit ''host '' @ cdebug env host @ lit '' must not carry a query string or fragment''))
          else Inr (host, u))"

definition validate_destination ::
  "conn_env \<Rightarrow> rstr \<Rightarrow> url \<Rightarrow> rstr \<Rightarrow> conn_call list \<Rightarrow> (gateway_error + unit) \<times> conn_call list" where
  "validate_destination env host u api_key cs =
     (case check_host (ge_net (nx_gateway env)) (nx_policy env) u of
        Inl (SeDns msg) \<Rightarrow> (Inl (GwUnprocessable (lit ''host '' @ cdebug env host @ lit '' could not be resolved: '' @ msg)), cs)
      | Inl other \<Rightarrow> (Inl (GwUnprocessable (source_error_str other)), cs)
      | Inr _ \<Rightarrow>
     let unreachable = (\<lambda>e. Inl (GwUnprocessable (lit ''Meilisearch at '' @ host @ lit '' is not reachable: '' @ e)));
         cs = cs @ [ProbeHealth host]
     in case nx_probe env cs of
        Inl e \<Rightarrow> (unreachable e, cs)
      | Inr health \<Rightarrow>
     if \<not> http_success health
     then (Inl (GwUnprocessable (lit ''Meilisearch at '' @ host @ lit '' answered /health with '' @ cstatus env health)), cs)
     else
     let cs = cs @ [ProbeIndexes host api_key]
     in (case nx_probe env cs of
           Inl e \<Rightarrow> unreachable e
         | Inr s \<Rightarrow>
             if http_success s then Inr ()
             else if s = 401 \<or> s = 403
             then Inl (GwUnprocessable (lit ''the API key was rejected by Meilisearch at '' @ host))
             else Inl (GwUnprocessable (lit ''Meilisearch at '' @ host @ lit '' answered GET /indexes with '' @ cstatus env s)), cs))"

section \<open>The control plane\<close>

fun reword :: "gateway_error \<Rightarrow> gateway_error" where
  "reword (GwInvalid msg) = GwUnprocessable msg"
| "reword e = e"

definition found_or_none :: "gateway_error + 'a \<Rightarrow> gateway_error + 'a option" where
  "found_or_none r = (case r of Inr x \<Rightarrow> Inr (Some x) | Inl (GwNotFound _) \<Rightarrow> Inr None | Inl e \<Rightarrow> Inl e)"

text \<open>\<open>connection_url\<close>: its errors. The address is the name as one segment.\<close>

definition conn_url_ok :: "conn_env \<Rightarrow> gateway_error + unit" where
  "conn_url_ok env =
     (case nx_parse_url env (rev (trim_start_matches (\<lambda>c. c = 47) (rev (gc_control_plane_url (ge_config (nx_gateway env))))) @ lit ''/internal/connections/'') of
        Inl e \<Rightarrow> Inl (GwInternal (lit ''control plane url: '' @ e))
      | Inr u \<Rightarrow> if ge_cannot_be_base (nx_gateway env) u then Inl (GwInternal (lit ''control plane url cannot be a base'')) else Inr ())"

definition ask_conns :: "conn_env \<Rightarrow> conn_call \<Rightarrow> (conn_call list \<Rightarrow> gateway_error + 'a) \<Rightarrow> conn_call list \<Rightarrow> (gateway_error + 'a) \<times> conn_call list" where
  "ask_conns env req answer cs = and_then (conn_url_ok env, cs) (\<lambda>_ cs. let cs = cs @ [req] in (answer cs, cs))"

definition client_list_connections ::
  "conn_env \<Rightarrow> rstr option \<Rightarrow> conn_call list \<Rightarrow> (gateway_error + conn_row list) \<times> conn_call list" where
  "client_list_connections env tenant cs =
     (let cs = cs @ [ListConns tenant] in (gateway_send_json (nx_gateway env) ''list connections'' (nx_rows env cs), cs))"

definition client_get_connection ::
  "conn_env \<Rightarrow> rstr \<Rightarrow> rstr option \<Rightarrow> conn_call list \<Rightarrow> (gateway_error + conn_row option) \<times> conn_call list" where
  "client_get_connection env uid tenant =
     ask_conns env (GetConn uid tenant) (\<lambda>cs. found_or_none (gateway_send_json (nx_gateway env) ''get connection'' (nx_row env cs)))"

definition client_connection_used_by ::
  "conn_env \<Rightarrow> rstr \<Rightarrow> rstr option \<Rightarrow> conn_call list \<Rightarrow> (gateway_error + rstr list) \<times> conn_call list" where
  "client_connection_used_by env uid tenant =
     ask_conns env (ConnUsers uid tenant) (\<lambda>cs. gateway_send_json (nx_gateway env) ''list connection users'' (nx_users env cs))"

definition client_create_connection ::
  "conn_env \<Rightarrow> rstr \<Rightarrow> rstr \<Rightarrow> rstr option \<Rightarrow> rstr \<Rightarrow> byte list \<Rightarrow> conn_call list \<Rightarrow> (gateway_error + conn_row) \<times> conn_call list" where
  "client_create_connection env uid name tenant host sealed cs =
     (let cs = cs @ [CreateConn \<lparr>nc_id = nx_uuid env cs, nc_uid = uid, nc_name = name, nc_tenant_id = tenant, nc_host = host, nc_api_key = sealed\<rparr>]
      in (map_sum reword id (gateway_send_json (nx_gateway env) ''create connection'' (nx_row env cs)), cs))"

definition client_update_connection ::
  "conn_env \<Rightarrow> rstr \<Rightarrow> rstr option \<Rightarrow> connection_patch \<Rightarrow> conn_call list \<Rightarrow> (gateway_error + conn_row option) \<times> conn_call list" where
  "client_update_connection env uid tenant p =
     ask_conns env (PatchConn uid tenant p)
       (\<lambda>cs. map_sum reword id (found_or_none (gateway_send_json (nx_gateway env) ''update connection'' (nx_row env cs))))"

definition client_delete_connection :: "conn_env \<Rightarrow> rstr \<Rightarrow> rstr option \<Rightarrow> conn_call list \<Rightarrow> (gateway_error + unit) \<times> conn_call list" where
  "client_delete_connection env uid tenant =
     ask_conns env (DeleteConn uid tenant) (\<lambda>cs. send_empty (nx_gateway env) ''delete connection'' (nx_deleted env cs))"

section \<open>Routes\<close>

definition conn_missing :: "conn_env \<Rightarrow> rstr \<Rightarrow> gateway_error" where
  "conn_missing env uid = GwNotFound (lit ''connection '' @ cdebug env uid @ lit '' not found'')"

definition parse_conn_body :: "rstr + 'a \<Rightarrow> gateway_error + 'a" where
  "parse_conn_body r = (case r of Inl e \<Rightarrow> Inl (GwBadRequest (lit ''invalid connection body: '' @ e)) | Inr x \<Rightarrow> Inr x)"

definition seal_key :: "conn_env \<Rightarrow> conn_call list \<Rightarrow> secret_key \<Rightarrow> rstr \<Rightarrow> gateway_error + byte list" where
  "seal_key env cs key api_key =
     map_sum (\<lambda>e. GwInternal (source_error_str e)) id (secret_seal (nx_aead env) (nx_nonce env cs) key (map of_nat (utf8_bytes api_key)))"

definition list_connections :: "conn_env \<Rightarrow> scope \<Rightarrow> conn_call list \<Rightarrow> (gateway_error + connection_view list) \<times> conn_call list" where
  "list_connections env s cs =
     and_then (connection_key env, cs) (\<lambda>_ cs.
     and_then (client_list_connections env (sc_tenant_id s) cs) (\<lambda>rows cs. (Inr (map (\<lambda>r. view_of_record r None) rows), cs)))"

definition create_connection ::
  "conn_env \<Rightarrow> scope \<Rightarrow> byte list \<Rightarrow> conn_call list \<Rightarrow> (gateway_error + connection_view) \<times> conn_call list" where
  "create_connection env s body cs =
     and_then (connection_key env, cs) (\<lambda>key cs.
     and_then (parse_conn_body (nx_create_body env body), cs) (\<lambda>req cs.
     let uid = trim (kb_uid req) in
     and_then (check_conn_uid env uid, cs) (\<lambda>_ cs.
     and_then (case non_blank (Some (kb_api_key req)) of Some k \<Rightarrow> Inr k | None \<Rightarrow> Inl (GwBadRequest (lit ''api_key must not be empty'')), cs) (\<lambda>api_key cs.
     and_then (normalize_host env (kb_host req), cs) (\<lambda>(host, u) cs.
     and_then (validate_destination env host u api_key cs) (\<lambda>_ cs.
     and_then (seal_key env cs key api_key, cs) (\<lambda>sealed cs.
     let name = (case non_blank (kb_name req) of Some n \<Rightarrow> n | None \<Rightarrow> uid) in
     and_then (client_create_connection env uid name (sc_tenant_id s) host sealed cs) (\<lambda>row cs.
       (Inr (view_of_record row (Some [])), cs)))))))))"

definition get_connection ::
  "conn_env \<Rightarrow> scope \<Rightarrow> rstr \<Rightarrow> conn_call list \<Rightarrow> (gateway_error + connection_view) \<times> conn_call list" where
  "get_connection env s uid cs =
     and_then (connection_key env, cs) (\<lambda>_ cs.
     and_then (check_conn_uid env uid, cs) (\<lambda>_ cs.
     and_then (client_get_connection env uid (sc_tenant_id s) cs) (\<lambda>found cs.
     and_then (case found of Some r \<Rightarrow> Inr r | None \<Rightarrow> Inl (conn_missing env uid), cs) (\<lambda>row cs.
     and_then (client_connection_used_by env uid (sc_tenant_id s) cs) (\<lambda>users cs. (Inr (view_of_record row (Some users)), cs))))))"

text \<open>Reads fall back to the global row; a write is for a row of exactly the caller's scope.\<close>

definition own_connection ::
  "conn_env \<Rightarrow> scope \<Rightarrow> rstr \<Rightarrow> conn_call list \<Rightarrow> (gateway_error + conn_row) \<times> conn_call list" where
  "own_connection env s uid cs =
     and_then (client_get_connection env uid (sc_tenant_id s) cs) (\<lambda>found cs.
       (case found of
          Some r \<Rightarrow> if cn_tenant_id r = sc_tenant_id s then Inr r else Inl (conn_missing env uid)
        | None \<Rightarrow> Inl (conn_missing env uid), cs))"

definition stored_key :: "conn_env \<Rightarrow> rstr \<Rightarrow> secret_key \<Rightarrow> conn_row \<Rightarrow> gateway_error + rstr" where
  "stored_key env uid key row =
     (case secret_open (nx_aead env) key (cn_api_key row) of
        Inl _ \<Rightarrow> Inl (GwInternal (lit ''connection '' @ cdebug env uid
          @ lit '': its stored key cannot be decrypted with this SOURCE_SECRET_KEY; send a new api_key''))
      | Inr bytes \<Rightarrow> (case from_utf8 (map unat bytes) of
           Inl _ \<Rightarrow> Inl (GwInternal (lit ''connection '' @ cdebug env uid @ lit '': stored key is not UTF-8''))
         | Inr k \<Rightarrow> Inr k))"

text \<open>The sealed new key, when there is one, after the destination was tried as it will be.\<close>

definition reprove ::
  "conn_env \<Rightarrow> rstr \<Rightarrow> secret_key \<Rightarrow> conn_row \<Rightarrow> (rstr \<times> url) option \<Rightarrow> rstr option \<Rightarrow> conn_call list
   \<Rightarrow> (gateway_error + byte list option) \<times> conn_call list" where
  "reprove env uid key row new_host new_key cs =
     (if new_host = None \<and> new_key = None then (Inr None, cs)
      else
      and_then (case new_host of Some h \<Rightarrow> Inr h | None \<Rightarrow> normalize_host env (cn_host row), cs) (\<lambda>(host, u) cs.
      and_then (case new_key of Some k \<Rightarrow> Inr k | None \<Rightarrow> stored_key env uid key row, cs) (\<lambda>plaintext cs.
      and_then (validate_destination env host u plaintext cs) (\<lambda>_ cs.
        (case new_key of Some k \<Rightarrow> map_sum id Some (seal_key env cs key k) | None \<Rightarrow> Inr None, cs)))))"

definition patch_connection ::
  "conn_env \<Rightarrow> scope \<Rightarrow> rstr \<Rightarrow> byte list \<Rightarrow> conn_call list \<Rightarrow> (gateway_error + connection_view) \<times> conn_call list" where
  "patch_connection env s uid body cs =
     and_then (connection_key env, cs) (\<lambda>key cs.
     and_then (check_conn_uid env uid, cs) (\<lambda>_ cs.
     and_then (parse_conn_body (nx_update_body env body), cs) (\<lambda>req cs.
     and_then (own_connection env s uid cs) (\<lambda>row cs.
     and_then (case ub_host req of Some h \<Rightarrow> map_sum id Some (normalize_host env h) | None \<Rightarrow> Inr None, cs) (\<lambda>new_host cs.
     and_then (reprove env uid key row new_host (non_blank (ub_api_key req)) cs) (\<lambda>sealed cs.
     and_then (client_update_connection env uid (sc_tenant_id s)
         \<lparr>cp_name = non_blank (ub_name req), cp_host = map_option fst new_host, cp_api_key = sealed\<rparr> cs) (\<lambda>found cs.
     and_then (case found of Some r \<Rightarrow> Inr r | None \<Rightarrow> Inl (conn_missing env uid), cs) (\<lambda>row cs.
     and_then (client_connection_used_by env uid (sc_tenant_id s) cs) (\<lambda>users cs. (Inr (view_of_record row (Some users)), cs))))))))))"

definition delete_connection :: "conn_env \<Rightarrow> scope \<Rightarrow> rstr \<Rightarrow> conn_call list \<Rightarrow> (gateway_error + unit) \<times> conn_call list" where
  "delete_connection env s uid cs =
     and_then (connection_key env, cs) (\<lambda>_ cs.
     and_then (check_conn_uid env uid, cs) (\<lambda>_ cs.
     and_then (own_connection env s uid cs) (\<lambda>_ cs. client_delete_connection env uid (sc_tenant_id s) cs)))"

section \<open>Nothing is stored untried\<close>

text \<open>The last two requests tried \<open>host\<close>, which the policy allows, with \<open>api_key\<close>, and both succeeded.\<close>

definition proven :: "conn_env \<Rightarrow> conn_call list \<Rightarrow> rstr \<Rightarrow> rstr \<Rightarrow> bool" where
  "proven env cs host api_key \<longleftrightarrow>
     (\<exists>before u health s. cs = before @ [ProbeHealth host, ProbeIndexes host api_key]
        \<and> nx_parse_url env host = Inr u \<and> check_host (ge_net (nx_gateway env)) (nx_policy env) u = Inr ()
        \<and> nx_probe env (before @ [ProbeHealth host]) = Inr health \<and> http_success health
        \<and> nx_probe env cs = Inr s \<and> http_success s)"

lemma normalize_host_Inr:
  assumes "normalize_host env raw = Inr (host, u)"
  shows "host = rev (trim_start_matches (\<lambda>c. c = 47) (rev (trim raw)))" "nx_parse_url env host = Inr u"
  using assms by (auto simp: normalize_host_def Let_def split: sum.splits if_splits)

lemma validated_proven:
  assumes "validate_destination env host u k cs = (Inr x, cs')" "nx_parse_url env host = Inr u"
  shows "cs' = cs @ [ProbeHealth host, ProbeIndexes host k] \<and> proven env cs' host k"
  using assms by (auto simp: validate_destination_def proven_def Let_def split: sum.splits source_error.splits if_splits)

text \<open>The pair of host and key that a patched row will have was tried, unless the patch changes neither.\<close>

definition patch_proven :: "conn_env \<Rightarrow> rstr \<Rightarrow> secret_key \<Rightarrow> conn_row \<Rightarrow> connection_patch \<Rightarrow> conn_call list \<Rightarrow> bool" where
  "patch_proven env uid key row p cs \<longleftrightarrow>
     cp_host p = None \<and> cp_api_key p = None
     \<or> (\<exists>host k. proven env cs host k
          \<and> host = (case cp_host p of Some h \<Rightarrow> h | None \<Rightarrow> rev (trim_start_matches (\<lambda>c. c = 47) (rev (trim (cn_host row)))))
          \<and> (case cp_api_key p of Some sealed \<Rightarrow> seal_key env cs key k = Inr sealed | None \<Rightarrow> stored_key env uid key row = Inr k))"

definition host_allowed :: "conn_env \<Rightarrow> rstr \<Rightarrow> bool" where
  "host_allowed env host \<longleftrightarrow> (\<exists>u. nx_parse_url env host = Inr u \<and> check_host (ge_net (nx_gateway env)) (nx_policy env) u = Inr ())"

text \<open>The row of the caller's own scope, read first.\<close>

definition own_row :: "conn_env \<Rightarrow> scope \<Rightarrow> conn_call list \<Rightarrow> rstr \<Rightarrow> conn_row \<Rightarrow> bool" where
  "own_row env s start uid row \<longleftrightarrow>
     gateway_send_json (nx_gateway env) ''get connection'' (nx_row env (start @ [GetConn uid (sc_tenant_id s)])) = Inr row
     \<and> cn_tenant_id row = sc_tenant_id s"

text \<open>What a request of a caller may be, after the requests \<open>now\<close>, of which \<open>start\<close> came before the caller's.\<close>

fun call_ok :: "conn_env \<Rightarrow> scope \<Rightarrow> conn_call list \<Rightarrow> conn_call list \<Rightarrow> conn_call \<Rightarrow> bool" where
  "call_ok env s start now (ProbeHealth host) \<longleftrightarrow> host_allowed env host"
| "call_ok env s start now (ProbeIndexes host k) \<longleftrightarrow> host_allowed env host"
| "call_ok env s start now (ListConns tenant) \<longleftrightarrow> tenant = sc_tenant_id s"
| "call_ok env s start now (GetConn uid tenant) \<longleftrightarrow> tenant = sc_tenant_id s \<and> valid_conn_uid uid"
| "call_ok env s start now (ConnUsers uid tenant) \<longleftrightarrow> tenant = sc_tenant_id s \<and> valid_conn_uid uid"
| "call_ok env s start now (CreateConn new) \<longleftrightarrow> nc_tenant_id new = sc_tenant_id s \<and> valid_conn_uid (nc_uid new)
     \<and> (\<exists>key k. nx_key env = Some key \<and> proven env now (nc_host new) k \<and> seal_key env now key k = Inr (nc_api_key new))"
| "call_ok env s start now (PatchConn uid tenant p) \<longleftrightarrow> tenant = sc_tenant_id s
     \<and> (\<exists>key row. nx_key env = Some key \<and> own_row env s start uid row \<and> patch_proven env uid key row p now)"
| "call_ok env s start now (DeleteConn uid tenant) \<longleftrightarrow> tenant = sc_tenant_id s \<and> (\<exists>row. own_row env s start uid row)"

text \<open>Every request added to \<open>cs\<close> is allowed when it is made.\<close>

definition all_calls :: "(conn_call list \<Rightarrow> conn_call \<Rightarrow> bool) \<Rightarrow> conn_call list \<Rightarrow> conn_call list \<Rightarrow> bool" where
  "all_calls Q cs cs' \<longleftrightarrow> (\<exists>calls. cs' = cs @ calls \<and> (\<forall>before c after. calls = before @ c # after \<longrightarrow> Q (cs @ before) c))"

lemma all_calls_refl [simp]: "all_calls Q cs cs"
  by (simp add: all_calls_def)

lemma all_calls_snoc:
  assumes "all_calls Q cs mid" "Q mid c"
  shows "all_calls Q cs (mid @ [c])"
  unfolding all_calls_def
proof -
  obtain calls where calls: "mid = cs @ calls" "\<And>before c after. calls = before @ c # after \<Longrightarrow> Q (cs @ before) c"
    using assms(1) unfolding all_calls_def by blast
  have "Q (cs @ before) d" if "calls @ [c] = before @ d # after" for before d after
    using that calls assms(2) by (cases after rule: rev_cases) auto
  then show "\<exists>new. mid @ [c] = cs @ new \<and> (\<forall>before c after. new = before @ c # after \<longrightarrow> Q (cs @ before) c)"
    using calls(1) by (intro exI[of _ "calls @ [c]"]) auto
qed

lemma all_calls_pure: "(\<And>x. r = Inr x \<Longrightarrow> all_calls Q cs (snd (f x mid))) \<Longrightarrow> all_calls Q cs mid \<Longrightarrow> all_calls Q cs (snd (and_then (r, mid) f))"
  by (cases r) simp_all

lemma all_calls_then:
  "all_calls Q cs (snd r) \<Longrightarrow> (\<And>x mid. r = (Inr x, mid) \<Longrightarrow> all_calls Q cs mid \<Longrightarrow> all_calls Q cs (snd (f x mid))) \<Longrightarrow> all_calls Q cs (snd (and_then r f))"
  by (cases r; cases "fst r") auto

lemma all_calls_ask: "all_calls Q cs mid \<Longrightarrow> Q mid req \<Longrightarrow> all_calls Q cs (snd (ask_conns env req answer mid))"
  unfolding ask_conns_def by (rule all_calls_pure) (simp_all add: all_calls_snoc Let_def)

lemma ask_conns_Inr: "ask_conns env req answer cs = (Inr x, cs') \<Longrightarrow> cs' = cs @ [req] \<and> answer cs' = Inr x"
  by (auto simp: ask_conns_def and_then_Inr Let_def)

lemma all_calls_validate:
  assumes "all_calls (call_ok env s start) cs mid" "nx_parse_url env host = Inr u"
  shows "all_calls (call_ok env s start) cs (snd (validate_destination env host u k mid))"
proof (cases "check_host (ge_net (nx_gateway env)) (nx_policy env) u")
  case (Inl e)
  then show ?thesis
    using assms(1) by (cases e) (simp_all add: validate_destination_def)
next
  case (Inr ok)
  then have "host_allowed env host"
    using assms(2) by (auto simp: host_allowed_def)
  then have health: "all_calls (call_ok env s start) cs (mid @ [ProbeHealth host])"
    using assms(1) by (auto intro!: all_calls_snoc)
  moreover have "all_calls (call_ok env s start) cs (mid @ [ProbeHealth host, ProbeIndexes host k])"
    using all_calls_snoc[OF health, of "ProbeIndexes host k"] \<open>host_allowed env host\<close> by simp
  ultimately show ?thesis
    using Inr assms(1) by (simp add: validate_destination_def Let_def split: sum.split)
qed

lemma check_uid_Inr [simp]: "check_conn_uid env uid = Inr () \<longleftrightarrow> valid_conn_uid uid"
  by (simp add: check_conn_uid_def)

lemma own_connection_calls:
  assumes "valid_conn_uid uid"
  shows "all_calls (call_ok env s cs) cs (snd (own_connection env s uid cs))"
  unfolding own_connection_def client_get_connection_def
  by (rule all_calls_then) (use assms in \<open>simp_all add: all_calls_ask\<close>)

lemma found_or_none_Some: "found_or_none r = Inr (Some x) \<longleftrightarrow> r = Inr x"
proof (cases r)
  case (Inl e)
  then show ?thesis by (cases e) (simp_all add: found_or_none_def)
qed (simp add: found_or_none_def)

lemma own_connection_Inr:
  assumes "own_connection env s uid cs = (Inr row, mid)"
  shows "mid = cs @ [GetConn uid (sc_tenant_id s)] \<and> own_row env s cs uid row"
proof -
  obtain found where get: "client_get_connection env uid (sc_tenant_id s) cs = (Inr found, mid)"
    and row: "found = Some row" "cn_tenant_id row = sc_tenant_id s"
    using assms by (auto simp: own_connection_def and_then_Inr split: option.splits if_splits)
  then show ?thesis
    using ask_conns_Inr[OF get[unfolded client_get_connection_def]] by (auto simp: own_row_def found_or_none_Some)
qed

lemma create_calls: "all_calls (call_ok env s cs) cs (snd (create_connection env s body cs))"
proof -
  have written: "all_calls (call_ok env s cs) cs (snd (client_create_connection env uid name (sc_tenant_id s) host sealed mid))"
    if "all_calls (call_ok env s cs) cs mid" "proven env mid host k" "seal_key env mid key k = Inr sealed" "nx_key env = Some key" "valid_conn_uid uid"
    for uid name host sealed mid k key
    using that by (auto simp: client_create_connection_def Let_def intro!: all_calls_snoc)
  have key: "connection_key env = Inr key \<longleftrightarrow> nx_key env = Some key" for key
    by (auto simp: connection_key_def split: option.split)
  show ?thesis
    unfolding create_connection_def Let_def
    by (intro all_calls_pure all_calls_then all_calls_validate all_calls_refl; clarsimp?)
      (auto simp: key split_def intro!: all_calls_then written all_calls_validate all_calls_pure dest!: validated_proven normalize_host_Inr)
qed

lemma connection_key_Inr: "connection_key env = Inr key \<longleftrightarrow> nx_key env = Some key"
  by (auto simp: connection_key_def split: option.split)

lemma reprove_calls:
  assumes "all_calls (call_ok env s cs) cs mid" "\<And>host u. new_host = Some (host, u) \<Longrightarrow> nx_parse_url env host = Inr u"
  shows "all_calls (call_ok env s cs) cs (snd (reprove env uid key row new_host new_key mid))"
proof (cases "new_host = None \<and> new_key = None")
  case False
  then have "reprove env uid key row new_host new_key mid =
      and_then (case new_host of Some h \<Rightarrow> Inr h | None \<Rightarrow> normalize_host env (cn_host row), mid) (\<lambda>(host, u) cs.
      and_then (case new_key of Some k \<Rightarrow> Inr k | None \<Rightarrow> stored_key env uid key row, cs) (\<lambda>plaintext cs.
      and_then (validate_destination env host u plaintext cs) (\<lambda>_ cs.
        (case new_key of Some k \<Rightarrow> map_sum id Some (seal_key env cs key k) | None \<Rightarrow> Inr None, cs))))"
    unfolding reprove_def by (simp only: if_False)
  then show ?thesis
    using assms by (auto split: option.splits intro!: all_calls_pure all_calls_then all_calls_validate dest: normalize_host_Inr(2))
qed (simp add: reprove_def assms(1))

lemma reprove_Inr:
  assumes "reprove env uid key row new_host new_key mid = (Inr sealed, cs')" "\<And>host u. new_host = Some (host, u) \<Longrightarrow> nx_parse_url env host = Inr u"
  shows "patch_proven env uid key row \<lparr>cp_name = name, cp_host = map_option fst new_host, cp_api_key = sealed\<rparr> cs'"
proof (cases "new_host = None \<and> new_key = None")
  case True
  then show ?thesis
    using assms(1) by (simp add: reprove_def patch_proven_def)
next
  case False
  obtain host u k where host: "(case new_host of Some h \<Rightarrow> Inr h | None \<Rightarrow> normalize_host env (cn_host row)) = Inr (host, u)"
    and k: "(case new_key of Some k \<Rightarrow> Inr k | None \<Rightarrow> stored_key env uid key row) = Inr k"
    and tried: "validate_destination env host u k mid = (Inr (), cs')"
    and sealed: "(case new_key of Some k \<Rightarrow> map_sum id Some (seal_key env cs' key k) | None \<Rightarrow> Inr None) = Inr sealed"
    using assms(1) False by (auto simp: reprove_def and_then_Inr split: prod.splits)
  have "nx_parse_url env host = Inr u"
    using host assms(2) by (auto split: option.splits dest: normalize_host_Inr(2))
  then have "proven env cs' host k"
    using validated_proven[OF tried] by blast
  moreover have "host = (case map_option fst new_host of Some h \<Rightarrow> h | None \<Rightarrow> rev (trim_start_matches (\<lambda>c. c = 47) (rev (trim (cn_host row)))))"
    using host by (auto split: option.splits dest: normalize_host_Inr(1))
  moreover have "case sealed of Some b \<Rightarrow> seal_key env cs' key k = Inr b | None \<Rightarrow> stored_key env uid key row = Inr k"
    using k sealed by (auto split: option.splits simp: map_sum_Inr)
  ultimately show ?thesis
    unfolding patch_proven_def by auto
qed

lemma users_calls:
  "all_calls (call_ok env s cs) cs now \<Longrightarrow> valid_conn_uid uid
     \<Longrightarrow> all_calls (call_ok env s cs) cs (snd (client_connection_used_by env uid (sc_tenant_id s) now))"
  unfolding client_connection_used_by_def by (rule all_calls_ask) simp_all

lemma update_calls:
  assumes "all_calls (call_ok env s cs) cs now" "nx_key env = Some key" "own_row env s cs uid row" "patch_proven env uid key row p now"
  shows "all_calls (call_ok env s cs) cs (snd (client_update_connection env uid (sc_tenant_id s) p now))"
  unfolding client_update_connection_def using assms by (intro all_calls_ask) auto

lemma patch_calls: "all_calls (call_ok env s cs) cs (snd (patch_connection env s uid body cs))"
  unfolding patch_connection_def
proof (intro all_calls_pure all_calls_refl)
  fix key x req
  assume "connection_key env = Inr key" "check_conn_uid env uid = Inr x"
  then have key: "nx_key env = Some key" and uid: "valid_conn_uid uid"
    by (simp_all add: connection_key_Inr)
  show "all_calls (call_ok env s cs) cs (snd (and_then (own_connection env s uid cs) (\<lambda>row cs.
     and_then (case ub_host req of Some h \<Rightarrow> map_sum id Some (normalize_host env h) | None \<Rightarrow> Inr None, cs) (\<lambda>new_host cs.
     and_then (reprove env uid key row new_host (non_blank (ub_api_key req)) cs) (\<lambda>sealed cs.
     and_then (client_update_connection env uid (sc_tenant_id s)
         \<lparr>cp_name = non_blank (ub_name req), cp_host = map_option fst new_host, cp_api_key = sealed\<rparr> cs) (\<lambda>found cs.
     and_then (case found of Some r \<Rightarrow> Inr r | None \<Rightarrow> Inl (conn_missing env uid), cs) (\<lambda>row cs.
     and_then (client_connection_used_by env uid (sc_tenant_id s) cs) (\<lambda>users cs. (Inr (view_of_record row (Some users)), cs)))))))))"
  proof (rule all_calls_then[OF own_connection_calls[OF uid]], rule all_calls_pure)
    fix row mid new_host
    assume own: "own_connection env s uid cs = (Inr row, mid)" and mid: "all_calls (call_ok env s cs) cs mid"
      and new_host: "(case ub_host req of Some h \<Rightarrow> map_sum id Some (normalize_host env h) | None \<Rightarrow> Inr None) = Inr new_host"
    have parsed: "nx_parse_url env host = Inr u" if "new_host = Some (host, u)" for host u
      using new_host that by (auto split: option.splits simp: map_sum_Inr dest: normalize_host_Inr(2))
    have re: "all_calls (call_ok env s cs) cs (snd (reprove env uid key row new_host (non_blank (ub_api_key req)) mid))"
      using mid parsed by (rule reprove_calls)
    show "all_calls (call_ok env s cs) cs (snd (and_then (reprove env uid key row new_host (non_blank (ub_api_key req)) mid) (\<lambda>sealed cs.
       and_then (client_update_connection env uid (sc_tenant_id s)
           \<lparr>cp_name = non_blank (ub_name req), cp_host = map_option fst new_host, cp_api_key = sealed\<rparr> cs) (\<lambda>found cs.
       and_then (case found of Some r \<Rightarrow> Inr r | None \<Rightarrow> Inl (conn_missing env uid), cs) (\<lambda>row cs.
       and_then (client_connection_used_by env uid (sc_tenant_id s) cs) (\<lambda>users cs. (Inr (view_of_record row (Some users)), cs)))))))"
    proof (rule all_calls_then[OF re], rule all_calls_then)
      fix sealed now
      assume "reprove env uid key row new_host (non_blank (ub_api_key req)) mid = (Inr sealed, now)" and now: "all_calls (call_ok env s cs) cs now"
      then show "all_calls (call_ok env s cs) cs (snd (client_update_connection env uid (sc_tenant_id s)
           \<lparr>cp_name = non_blank (ub_name req), cp_host = map_option fst new_host, cp_api_key = sealed\<rparr> now))"
        using own_connection_Inr[OF own] key parsed by (intro update_calls reprove_Inr) auto
    next
      fix found now
      assume "all_calls (call_ok env s cs) cs now"
      then show "all_calls (call_ok env s cs) cs (snd (and_then (case found of Some r \<Rightarrow> Inr r | None \<Rightarrow> Inl (conn_missing env uid), now) (\<lambda>row cs.
         and_then (client_connection_used_by env uid (sc_tenant_id s) cs) (\<lambda>users cs. (Inr (view_of_record row (Some users)), cs)))))"
        using uid by (intro all_calls_pure all_calls_then users_calls) simp_all
    qed
  qed
qed

lemma delete_calls: "all_calls (call_ok env s cs) cs (snd (delete_connection env s uid cs))"
  unfolding delete_connection_def
proof (intro all_calls_pure all_calls_refl)
  fix key x
  assume "check_conn_uid env uid = Inr x"
  then have uid: "valid_conn_uid uid" by simp
  show "all_calls (call_ok env s cs) cs (snd (and_then (own_connection env s uid cs) (\<lambda>_. client_delete_connection env uid (sc_tenant_id s))))"
    unfolding client_delete_connection_def
    by (rule all_calls_then[OF own_connection_calls[OF uid]], rule all_calls_ask) (auto dest: own_connection_Inr)
qed

lemma get_calls: "all_calls (call_ok env s cs) cs (snd (get_connection env s uid cs))"
  unfolding get_connection_def client_get_connection_def
  by (intro all_calls_pure all_calls_then all_calls_ask all_calls_refl users_calls) simp_all

lemma list_calls: "all_calls (call_ok env s cs) cs (snd (list_connections env s cs))"
  unfolding list_connections_def client_list_connections_def
  by (intro all_calls_pure all_calls_then all_calls_refl) (simp_all add: Let_def all_calls_snoc)

text \<open>C36. A connection is stored only as it was tried. Whatever the routes answer, every request they make is for the caller's scope:
  a key goes only to a host the policy allows; a new connection is sent to the control plane only right after its Meilisearch
  took its key, and only sealed; a patch or a delete only for a row that the control plane gave as the
  caller's own, and a patch of host or key only right after the pair the row will then have was tried.\<close>

theorem stored_connection_proven:
  "all_calls (call_ok env s cs) cs (snd (create_connection env s body cs))
   \<and> all_calls (call_ok env s cs) cs (snd (patch_connection env s uid body cs))
   \<and> all_calls (call_ok env s cs) cs (snd (delete_connection env s uid cs))
   \<and> all_calls (call_ok env s cs) cs (snd (get_connection env s uid cs))
   \<and> all_calls (call_ok env s cs) cs (snd (list_connections env s cs))"
  by (intro conjI create_calls patch_calls delete_calls get_calls list_calls)

text \<open>A name of dots alone passes the check of names, but is no segment of a path: URLs drop it.\<close>

lemma dot_names_accepted: "valid_conn_uid (lit ''.'')" "valid_conn_uid (lit ''..'')"
  by (simp_all add: valid_conn_uid_def lit_def utf8_len_simps utf8_char_len_def)

end
