(* ===== verification/Json_Flattener.thy ===== *)
theory Json_Flattener
  imports Plugin_Host Utf8
begin

text \<open>
  \<open>crates/plugins/json\<close>: JSON values, alone or one per line, become documents with flat fields under dotted keys.
  Parameters: serde for the configuration and for parsing, the texts of numbers, values and UTF-8 errors, drawn ids, and
  whether the step was cancelled. The lemmas: the flat fields are exactly the leaves of the value, each under the
  keys that lead to it; which values of a flat map become id, title and content, and that the others stay.
\<close>

section \<open>Configuration\<close>

definition JSON_PLUGIN :: rstr where
  "JSON_PLUGIN = lit ''json_flattener''"

definition WRAPPER_KEYS :: "rstr list" where
  "WRAPPER_KEYS = map lit [''documents'', ''items'', ''data'', ''results'', ''hits'']"

record flatten_config =
  fc_id_field :: rstr
  fc_content_fields :: "rstr list option"
  fc_title_field :: "rstr option"
  fc_flatten_arrays :: bool
  fc_max_depth :: nat

definition default_flatten_config :: flatten_config where
  "default_flatten_config = \<lparr>fc_id_field = lit ''id'', fc_content_fields = None, fc_title_field = None,
     fc_flatten_arrays = False, fc_max_depth = 8\<rparr>"

record json_env =
  je_from_value :: "json \<Rightarrow> rstr + flatten_config"
  je_from_slice :: "byte list \<Rightarrow> rstr + json"
  je_from_str :: "rstr \<Rightarrow> rstr + json"
  je_utf8_text :: "utf8_error \<Rightarrow> rstr"
  je_show_number :: "jnumber \<Rightarrow> rstr"
  je_show_json :: "json \<Rightarrow> rstr"
  je_cancelled :: "nat \<Rightarrow> bool"
  je_fresh :: rstr

definition parse_flatten_config :: "json_env \<Rightarrow> json \<Rightarrow> plugin_error + flatten_config" where
  "parse_flatten_config env value =
     (if value = JNull then Inr default_flatten_config
      else case je_from_value env value of
        Inl e \<Rightarrow> Inl (ErrInvalidConfig (JSON_PLUGIN @ lit '': '' @ e))
      | Inr cfg \<Rightarrow>
          if fc_id_field cfg = [] then Inl (ErrInvalidConfig (JSON_PLUGIN @ lit '': `id_field` must not be empty''))
          else if fc_max_depth cfg = 0 then Inl (ErrInvalidConfig (JSON_PLUGIN @ lit '': `max_depth` must be at least 1''))
          else Inr cfg)"

section \<open>Payloads\<close>

fun first_wrapped :: "rstr list \<Rightarrow> jmap \<Rightarrow> json list option" where
  "first_wrapped [] obj = None"
| "first_wrapped (key # keys) obj = (case bt_get obj key of Some (JArray items) \<Rightarrow> Some items | _ \<Rightarrow> first_wrapped keys obj)"

definition select_roots :: "json \<Rightarrow> json list" where
  "select_roots value =
     (case value of
        JArray items \<Rightarrow> items
      | JObject obj \<Rightarrow> (case first_wrapped WRAPPER_KEYS obj of Some items \<Rightarrow> items | None \<Rightarrow> [JObject obj])
      | other \<Rightarrow> [other])"

text \<open>One value per line; \<open>i\<close> is the number of the line from 0.\<close>

fun parse_lines :: "json_env \<Rightarrow> rstr \<Rightarrow> nat \<Rightarrow> rstr list \<Rightarrow> plugin_error + json list" where
  "parse_lines env single_err i [] = Inr []"
| "parse_lines env single_err i (line # ls) =
     (if trim line = [] then parse_lines env single_err (i + 1) ls
      else case je_from_str env line of
        Inl e \<Rightarrow> Inl (ErrInvalidInput (JSON_PLUGIN @ lit '': payload is neither JSON ('' @ single_err @ lit '') nor NDJSON (line ''
            @ show_nat (i + 1) @ lit '': '' @ e @ lit '')''))
      | Inr v \<Rightarrow> map_sum id ((#) v) (parse_lines env single_err (i + 1) ls))"

definition parse_json_payload :: "json_env \<Rightarrow> byte list \<Rightarrow> plugin_error + json list" where
  "parse_json_payload env bytes =
     (case je_from_slice env bytes of
        Inr v \<Rightarrow> Inr (select_roots v)
      | Inl single_err \<Rightarrow>
     (case from_utf8 (map unat bytes) of
        Inl e \<Rightarrow> Inl (ErrInvalidInput (JSON_PLUGIN @ lit '': payload is not UTF-8: '' @ je_utf8_text env e))
      | Inr tx \<Rightarrow>
     (case parse_lines env single_err 0 (lines_from [] tx) of
        Inl e \<Rightarrow> Inl e
      | Inr roots \<Rightarrow>
          if roots = [] then Inl (ErrInvalidInput (JSON_PLUGIN @ lit '': invalid JSON: '' @ single_err)) else Inr roots)))"

section \<open>Flattening\<close>

fun scalar_json :: "json \<Rightarrow> bool" where
  "scalar_json (JObject _) = False"
| "scalar_json (JArray _) = False"
| "scalar_json _ = True"

definition dotted :: "rstr \<Rightarrow> rstr \<Rightarrow> rstr" where
  "dotted pre k = (if pre = [] then k else pre @ [46] @ k)"

text \<open>Where flattening stops: the value is kept as it is.\<close>

fun kept_whole :: "flatten_config \<Rightarrow> nat \<Rightarrow> json \<Rightarrow> bool" where
  "kept_whole cfg depth (JObject obj) \<longleftrightarrow> fc_max_depth cfg \<le> depth \<or> obj = []"
| "kept_whole cfg depth (JArray items) \<longleftrightarrow> list_all scalar_json items \<or> \<not> fc_flatten_arrays cfg \<or> fc_max_depth cfg \<le> depth"
| "kept_whole cfg depth _ \<longleftrightarrow> True"

fun flatten_into :: "flatten_config \<Rightarrow> rstr \<Rightarrow> json \<Rightarrow> nat \<Rightarrow> jmap \<Rightarrow> jmap"
  and flatten_fields :: "flatten_config \<Rightarrow> rstr \<Rightarrow> (rstr \<times> json) list \<Rightarrow> nat \<Rightarrow> jmap \<Rightarrow> jmap"
  and flatten_items :: "flatten_config \<Rightarrow> rstr \<Rightarrow> nat \<Rightarrow> json list \<Rightarrow> nat \<Rightarrow> jmap \<Rightarrow> jmap" where
  "flatten_into cfg pre (JObject obj) depth out =
     (if kept_whole cfg depth (JObject obj) then bt_insert pre (JObject obj) out else flatten_fields cfg pre obj (depth + 1) out)"
| "flatten_into cfg pre (JArray items) depth out =
     (if kept_whole cfg depth (JArray items) then bt_insert pre (JArray items) out else flatten_items cfg pre 0 items (depth + 1) out)"
| "flatten_into cfg pre v depth out = bt_insert pre v out"
| "flatten_fields cfg pre [] depth out = out"
| "flatten_fields cfg pre ((k, v) # kvs) depth out =
     flatten_fields cfg pre kvs depth (flatten_into cfg (dotted pre k) v depth out)"
| "flatten_items cfg pre i [] depth out = out"
| "flatten_items cfg pre i (v # vs) depth out =
     flatten_items cfg pre (i + 1) vs depth (flatten_into cfg (dotted pre (show_nat i)) v depth out)"

definition flatten_root :: "flatten_config \<Rightarrow> json \<Rightarrow> jmap" where
  "flatten_root cfg rv =
     (case rv of JObject obj \<Rightarrow> flatten_fields cfg [] obj 1 [] | other \<Rightarrow> flatten_into cfg (lit ''value'') other 1 [])"

section \<open>Documents\<close>

fun value_text :: "json_env \<Rightarrow> json \<Rightarrow> rstr" where
  "value_text env (JString s) = s"
| "value_text env JNull = []"
| "value_text env (JBool b) = (if b then lit ''true'' else lit ''false'')"
| "value_text env (JNumber n) = je_show_number env n"
| "value_text env (JArray items) =
     (if list_all scalar_json items then join_with [32] (filter (\<lambda>s. s \<noteq> []) (map (value_text env) items))
      else je_show_json env (JArray items))"
| "value_text env (JObject obj) = je_show_json env (JObject obj)"

definition string_leaves :: "jmap \<Rightarrow> rstr list" where
  "string_leaves flat = concat (map (\<lambda>(_, v). case v of
       JString s \<Rightarrow> if s \<noteq> [] then [s] else []
     | JArray items \<Rightarrow> filter (\<lambda>s. s \<noteq> []) (List.map_filter json_as_str items)
     | _ \<Rightarrow> []) flat)"

record fallback =
  fb_id :: "rstr option"
  fb_title :: "rstr option"
  fb_content :: "rstr option"
  fb_meta :: document_meta

text \<open>\<open>Map::remove\<close> with the text of what was removed, if it has one.\<close>

definition take_text :: "json_env \<Rightarrow> rstr \<Rightarrow> jmap \<Rightarrow> rstr option \<times> jmap" where
  "take_text env key flat =
     (Option.bind (bt_get flat key) (\<lambda>v. if value_text env v = [] then None else Some (value_text env v)), bt_remove key flat)"

fun take_content :: "json_env \<Rightarrow> rstr list \<Rightarrow> jmap \<Rightarrow> rstr list \<times> jmap" where
  "take_content env [] flat = ([], flat)"
| "take_content env (key # keys) flat =
     (let (t, flat) = take_text env key flat; (ts, flat) = take_content env keys flat
      in (case t of Some s \<Rightarrow> s # ts | None \<Rightarrow> ts, flat))"

definition flat_document :: "json_env \<Rightarrow> flatten_config \<Rightarrow> json \<Rightarrow> rstr \<Rightarrow> fallback \<Rightarrow> document" where
  "flat_document env cfg rv generated_id fb =
     (let flat = flatten_root cfg rv;
          (found_id, flat) = take_text env (fc_id_field cfg) flat;
          id_text = (case or_else (map_option (sanitize_id (je_fresh env)) found_id) (fb_id fb) of Some i \<Rightarrow> i | None \<Rightarrow> generated_id);
          (found_title, flat) = (case fc_title_field cfg of Some t \<Rightarrow> take_text env t flat | None \<Rightarrow> (None, flat));
          (parts, flat) = (case fc_content_fields cfg of Some keys \<Rightarrow> take_content env keys flat | None \<Rightarrow> (string_leaves flat, flat));
          content = join_with [32] parts;
          content = (if content = [] then (case fb_content fb of Some c \<Rightarrow> c | None \<Rightarrow> []) else content)
      in \<lparr>doc_id = id_text, doc_title = or_else found_title (fb_title fb), doc_content = content, doc_fields = flat, doc_meta = fb_meta fb\<rparr>)"

text \<open>The documents in order; the token is looked at before each.\<close>

fun flat_documents ::
  "json_env \<Rightarrow> flatten_config \<Rightarrow> nat \<Rightarrow> (json \<times> rstr \<times> fallback) list \<Rightarrow> plugin_error + document list" where
  "flat_documents env cfg i [] = Inr []"
| "flat_documents env cfg i ((rv, generated_id, fb) # items) =
     (if je_cancelled env i then Inl ErrCancelled
      else map_sum id ((#) (flat_document env cfg rv generated_id fb)) (flat_documents env cfg (i + 1) items))"

definition id_stem :: "json_env \<Rightarrow> rstr option \<Rightarrow> rstr \<Rightarrow> rstr" where
  "id_stem env filename fallback_stem =
     (case filename_id_stem (je_fresh env) filename of Some s \<Rightarrow> s | None \<Rightarrow> sanitize_id (je_fresh env) fallback_stem)"

definition numbered_id :: "rstr \<Rightarrow> nat \<Rightarrow> rstr" where
  "numbered_id stem i = stem @ lit ''_'' @ show_nat i"

definition json_items :: "json_env \<Rightarrow> plugin_input \<Rightarrow> plugin_error + (json \<times> rstr \<times> fallback) list" where
  "json_items env inp =
     (case inp of
        InBytes b \<Rightarrow>
          (let stem = id_stem env (blob_filename b) (lit ''json'');
               m = default_meta\<lparr>meta_source := blob_filename b, meta_filename := blob_filename b, meta_mime := Some (blob_mime b)\<rparr>
           in map_sum id (\<lambda>roots. map (\<lambda>(i, v). (v, numbered_id stem i, \<lparr>fb_id = None, fb_title = None, fb_content = None, fb_meta = m\<rparr>))
                (enumerated roots)) (parse_json_payload env (blob_data b)))
      | other \<Rightarrow>
          map_sum id (\<lambda>docs. map (\<lambda>(i, d). (JObject (doc_fields d), numbered_id (doc_id d) i,
                \<lparr>fb_id = Some (doc_id d), fb_title = doc_title d, fb_content = Some (doc_content d), fb_meta = doc_meta d\<rparr>))
            (enumerated docs)) (in_into_documents other))"

definition json_execute :: "json_env \<Rightarrow> plugin_input \<Rightarrow> json \<Rightarrow> plugin_error + plugin_output" where
  "json_execute env inp config =
     try_bind (parse_flatten_config env config) (\<lambda>cfg.
     try_bind (json_items env inp) (\<lambda>items.
     map_sum id OutDocuments (flat_documents env cfg 0 items)))"

section \<open>The flat fields are the leaves\<close>

text \<open>A value below an object or array that flattening enters, by its key or its index.\<close>

definition children :: "json \<Rightarrow> (rstr \<times> json) list" where
  "children v = (case v of JObject obj \<Rightarrow> obj | JArray items \<Rightarrow> map (\<lambda>(i, w). (show_nat i, w)) (enumerated items) | _ \<Rightarrow> [])"

text \<open>The leaf a path of keys leads to, when flattening enters every value on the way and keeps the last.\<close>

fun leaf_at :: "flatten_config \<Rightarrow> nat \<Rightarrow> json \<Rightarrow> rstr list \<Rightarrow> json option" where
  "leaf_at cfg d v [] = (if kept_whole cfg d v then Some v else None)"
| "leaf_at cfg d v (k # p) =
     (if kept_whole cfg d v then None else Option.bind (map_of (children v) k) (\<lambda>w. leaf_at cfg (d + 1) w p))"

fun field_at :: "flatten_config \<Rightarrow> nat \<Rightarrow> (rstr \<times> json) list \<Rightarrow> rstr list \<Rightarrow> json option" where
  "field_at cfg d kvs [] = None"
| "field_at cfg d kvs (k # p) = Option.bind (map_of kvs k) (\<lambda>w. leaf_at cfg d w p)"

definition segment :: "rstr \<Rightarrow> bool" where
  "segment k \<longleftrightarrow> k \<noteq> [] \<and> 46 \<notin> set k"

text \<open>No key is empty, has a dot or comes twice.\<close>

fun dot_free :: "json \<Rightarrow> bool" where
  "dot_free (JObject obj) \<longleftrightarrow> distinct (map fst obj) \<and> (\<forall>(k, v) \<in> set obj. segment k \<and> dot_free v)"
| "dot_free (JArray items) \<longleftrightarrow> (\<forall>v \<in> set items. dot_free v)"
| "dot_free _ \<longleftrightarrow> True"

abbreviation dots :: "rstr list \<Rightarrow> rstr" where
  "dots \<equiv> join_with [46]"

lemma dots_eq_Nil: "list_all segment ps \<Longrightarrow> dots ps = [] \<longleftrightarrow> ps = []"
  by (induction "[46::nat]" ps rule: join_with.induct) (auto simp: segment_def)

lemma dots_snoc: "ps \<noteq> [] \<Longrightarrow> dots (ps @ [k]) = dots ps @ [46] @ k"
proof (induction ps)
  case (Cons p ps)
  then show ?case by (cases ps) simp_all
qed simp

lemma dotted_dots: "list_all segment ps \<Longrightarrow> dotted (dots ps) k = dots (ps @ [k])"
  by (cases "ps = []") (simp_all add: dotted_def dots_eq_Nil dots_snoc)

lemma segment_show_nat: "segment (show_nat i)"
proof -
  have "show_nat i \<noteq> []"
    by (subst show_nat.simps) simp
  then show ?thesis
    using show_nat_digits[of i] by (auto simp: segment_def is_ascii_digit_def)
qed

lemma split_dots: "list_all segment ps \<Longrightarrow> ps \<noteq> [] \<Longrightarrow> split_on 46 (dots ps) = ps"
  by (induction "[46::nat]" ps rule: join_with.induct) (auto simp: segment_def split_on_append)

lemma dots_inject: "list_all segment ps \<Longrightarrow> list_all segment qs \<Longrightarrow> dots ps = dots qs \<longleftrightarrow> ps = qs"
  by (metis dots_eq_Nil split_dots)

lemma children_ok:
  assumes "dot_free v"
  shows "distinct (map fst (children v))" "\<forall>(k, w) \<in> set (children v). segment k \<and> dot_free w"
proof -
  have "map fst (map (\<lambda>(i, w). (show_nat i, w)) (enumerated items)) = map show_nat [0..<length items]" for items :: "json list"
    by (rule nth_equalityI) (simp_all add: enumerated_def split_def)
  then show "distinct (map fst (children v))"
    using assms by (cases v) (simp_all add: children_def distinct_map inj_on_def)
  show "\<forall>(k, w) \<in> set (children v). segment k \<and> dot_free w"
    using assms by (cases v) (auto simp: children_def in_enumerated segment_show_nat)
qed

lemma leaf_at_segments: "dot_free v \<Longrightarrow> leaf_at cfg d v p = Some w \<Longrightarrow> list_all segment p"
proof (induction p arbitrary: v d)
  case (Cons k p)
  obtain u where u: "map_of (children v) k = Some u" "leaf_at cfg (d + 1) u p = Some w"
    using Cons.prems(2) by (auto split: if_splits bind_splits)
  have "segment k \<and> dot_free u"
    using children_ok(2)[OF Cons.prems(1)] map_of_SomeD[OF u(1)] by auto
  then show ?case
    using Cons.IH u(2) by auto
qed simp

text \<open>\<open>flat\<close> is \<open>out\<close> with the leaves of \<open>g\<close> added under \<open>ps\<close>.\<close>

definition adds_leaves :: "(rstr list \<Rightarrow> json option) \<Rightarrow> rstr list \<Rightarrow> jmap \<Rightarrow> jmap \<Rightarrow> bool" where
  "adds_leaves g ps out flat \<longleftrightarrow>
     (\<forall>p w. g p = Some w \<longrightarrow> bt_get flat (dots (ps @ p)) = Some w)
     \<and> (\<forall>k. (\<forall>p w. g p = Some w \<longrightarrow> k \<noteq> dots (ps @ p)) \<longrightarrow> bt_get flat k = bt_get out k)"

lemma adds_one: "adds_leaves (\<lambda>p. if p = [] then Some v else None) ps out (bt_insert (dots ps) v out)"
  by (auto simp: adds_leaves_def bt_get_insert)

lemma adds_cong: "(\<And>p. g p = h p) \<Longrightarrow> adds_leaves g = adds_leaves h"
  by (simp add: fun_eq_iff adds_leaves_def)

text \<open>The leaves of one key, then those of the keys after it.\<close>

lemma adds_fields_Cons:
  assumes first: "adds_leaves (leaf_at cfg d w) (ps @ [k]) out mid" and rest: "adds_leaves (field_at cfg d kvs) ps mid flat"
    and other: "k \<notin> fst ` set kvs" and ok: "list_all segment ps" "segment k" "dot_free w" "\<forall>(k, w) \<in> set kvs. segment k \<and> dot_free w"
  shows "adds_leaves (field_at cfg d ((k, w) # kvs)) ps out flat"
proof -
  have fresh: "map_of kvs k = None"
    using other by (simp add: map_of_eq_None_iff)
  have seg: "list_all segment p" if "field_at cfg d kvs p = Some x" for p x
    using that ok(4) by (cases p) (auto split: bind_splits dest!: map_of_SomeD dest: leaf_at_segments)
  have apart: "dots (ps @ k # q) \<noteq> dots (ps @ p)" if "leaf_at cfg d w q = Some x" "field_at cfg d kvs p = Some y" for p q x y
  proof -
    have "k # q \<noteq> p"
      using that(2) fresh by auto
    then show ?thesis
      using dots_inject[of "ps @ k # q" "ps @ p"] ok seg[OF that(2)] leaf_at_segments[OF ok(3) that(1)] by simp
  qed
  have own: "bt_get flat (dots (ps @ k # q)) = Some x" if "leaf_at cfg d w q = Some x" for q x
  proof -
    have "bt_get flat (dots (ps @ k # q)) = bt_get mid (dots (ps @ k # q))"
      using rest apart[OF that] unfolding adds_leaves_def by blast
    then show ?thesis
      using first that by (auto simp: adds_leaves_def)
  qed
  show ?thesis
    unfolding adds_leaves_def
  proof (intro conjI allI impI)
    fix p x
    assume "field_at cfg d ((k, w) # kvs) p = Some x"
    then obtain k' q where p: "p = k' # q" and x: "Option.bind (if k' = k then Some w else map_of kvs k') (\<lambda>w. leaf_at cfg d w q) = Some x"
      by (cases p) auto
    show "bt_get flat (dots (ps @ p)) = Some x"
    proof (cases "k' = k")
      case False
      then have "field_at cfg d kvs p = Some x"
        using x by (simp add: p)
      then show ?thesis
        using rest by (auto simp: adds_leaves_def)
    qed (use own x p in simp)
  next
    fix key
    assume none: "\<forall>p x. field_at cfg d ((k, w) # kvs) p = Some x \<longrightarrow> key \<noteq> dots (ps @ p)"
    have "key \<noteq> dots (ps @ p)" if "field_at cfg d kvs p = Some x" for p x
    proof -
      have "field_at cfg d ((k, w) # kvs) p = Some x"
        using that fresh by (cases p) (auto split: bind_splits)
      then show ?thesis using none by blast
    qed
    then have "bt_get flat key = bt_get mid key"
      using rest unfolding adds_leaves_def by blast
    moreover have "key \<noteq> dots ((ps @ [k]) @ q)" if "leaf_at cfg d w q = Some x" for q x
      using none[rule_format, of "k # q" x] that by simp
    then have "bt_get mid key = bt_get out key"
      using first unfolding adds_leaves_def by blast
    ultimately show "bt_get flat key = bt_get out key" by simp
  qed
qed

lemma adds_fields:
  assumes "\<And>k w ps out. (k, w) \<in> set kvs \<Longrightarrow> list_all segment ps \<Longrightarrow> dot_free w \<Longrightarrow> adds_leaves (leaf_at cfg d w) ps out (flatten_into cfg (dots ps) w d out)"
    and "distinct (map fst kvs)" "\<forall>(k, w) \<in> set kvs. segment k \<and> dot_free w" "list_all segment ps"
  shows "adds_leaves (field_at cfg d kvs) ps out (flatten_fields cfg (dots ps) kvs d out)"
  using assms
proof (induction kvs arbitrary: out)
  case Nil
  then show ?case by (auto simp: adds_leaves_def elim!: field_at.elims)
next
  case (Cons kw kvs)
  obtain k w where kw: "kw = (k, w)" by (cases kw)
  let ?mid = "flatten_into cfg (dots (ps @ [k])) w d out"
  have "adds_leaves (leaf_at cfg d w) (ps @ [k]) out ?mid"
    using Cons.prems(1)[of k w "ps @ [k]" out] Cons.prems(3,4) by (simp add: kw)
  moreover have "adds_leaves (field_at cfg d kvs) ps ?mid (flatten_fields cfg (dots ps) kvs d ?mid)"
    using Cons.prems by (intro Cons.IH) auto
  ultimately show ?case
    using Cons.prems(2-4) by (auto simp: kw dotted_dots intro!: adds_fields_Cons)
qed

lemma flatten_items_fields:
  "flatten_items cfg pre i vs d out = flatten_fields cfg pre (map (\<lambda>(j, w). (show_nat j, w)) (zip [i..<i + length vs] vs)) d out"
  by (induction vs arbitrary: i out) (simp_all add: upt_conv_Cons del: upt_Suc)

lemma flatten_children:
  "\<not> kept_whole cfg d v \<Longrightarrow> flatten_into cfg pre v d out = flatten_fields cfg pre (children v) (d + 1) out"
  by (cases v) (simp_all add: children_def flatten_items_fields enumerated_def)

lemma flatten_kept: "kept_whole cfg d v \<Longrightarrow> flatten_into cfg pre v d out = bt_insert pre v out"
  by (cases v) simp_all

lemma adds_into:
  "list_all segment ps \<Longrightarrow> dot_free v \<Longrightarrow> adds_leaves (leaf_at cfg d v) ps out (flatten_into cfg (dots ps) v d out)"
proof (induction "size v" arbitrary: v ps d out rule: less_induct)
  case less
  show ?case
  proof (cases "kept_whole cfg d v")
    case True
    then have "leaf_at cfg d v p = (if p = [] then Some v else None)" for p
      by (cases p) simp_all
    then show ?thesis
      using True adds_one[of v ps out] by (simp add: flatten_kept cong: adds_cong)
  next
    case False
    have smaller: "size w < size v" if "(k, w) \<in> set (children v)" for k w
    proof (cases v)
      case (JArray items)
      then have "w \<in> set items"
        using that by (auto simp: children_def enumerated_def dest!: set_zip_rightD)
      then show ?thesis
        using JArray size_list_estimation'[of w items "size w" size] by simp
    next
      case (JObject obj)
      then show ?thesis
        using that size_list_estimation'[of "(k, w)" obj "size w" "size_prod (\<lambda>x. 0) size"] by (simp add: children_def)
    qed (use that in \<open>simp_all add: children_def\<close>)
    have "leaf_at cfg d v p = field_at cfg (d + 1) (children v) p" for p
      using False by (cases p) simp_all
    then have "adds_leaves (leaf_at cfg d v) = adds_leaves (field_at cfg (d + 1) (children v))"
      by (rule adds_cong)
    moreover have "adds_leaves (field_at cfg (d + 1) (children v)) ps out (flatten_fields cfg (dots ps) (children v) (d + 1) out)"
      using less.hyps smaller less.prems children_ok[OF less.prems(2)] by (intro adds_fields) auto
    ultimately show ?thesis
      by (simp only: flatten_children[OF False])
  qed
qed

lemma flatten_root_leaves:
  assumes "dot_free (JObject obj)"
  shows "bt_get (flatten_root cfg (JObject obj)) k = Some w \<longleftrightarrow> (\<exists>p. k = dots p \<and> field_at cfg 1 obj p = Some w)"
proof -
  have "adds_leaves (field_at cfg 1 obj) [] [] (flatten_fields cfg (dots []) obj 1 [])"
    using assms adds_into by (intro adds_fields) auto
  then have *: "adds_leaves (field_at cfg 1 obj) [] [] (flatten_root cfg (JObject obj))"
    by (simp add: flatten_root_def)
  show ?thesis
  proof
    assume k: "bt_get (flatten_root cfg (JObject obj)) k = Some w"
    then obtain p x where "field_at cfg 1 obj p = Some x" "k = dots p"
      using * unfolding adds_leaves_def by (metis append_Nil bt_get_Nil option.distinct(1))
    then show "\<exists>p. k = dots p \<and> field_at cfg 1 obj p = Some w"
      using * k by (auto simp: adds_leaves_def)
  qed (use * in \<open>auto simp: adds_leaves_def\<close>)
qed

text \<open>C37. Flattening an object loses nothing and makes nothing up. When no key on the way is empty or has a dot, the flat map holds
  exactly the leaves of the object, each under the keys that lead to it with dots between: the values that are no object or
  array, the arrays of scalars (all arrays, unless arrays are flattened), and what lies at the greatest depth.\<close>

theorem flat_fields_are_leaves:
  assumes "dot_free (JObject obj)"
  shows "bt_get (flatten_root cfg (JObject obj)) k = Some w \<longleftrightarrow> (\<exists>p. k = dots p \<and> field_at cfg 1 obj p = Some w)"
  using assms by (rule flatten_root_leaves)

section \<open>What a document takes out of the flat fields\<close>

definition picked :: "flatten_config \<Rightarrow> rstr set" where
  "picked cfg = {fc_id_field cfg} \<union> set_option (fc_title_field cfg) \<union> (case fc_content_fields cfg of Some keys \<Rightarrow> set keys | None \<Rightarrow> {})"

definition texts_at :: "json_env \<Rightarrow> jmap \<Rightarrow> rstr list \<Rightarrow> rstr list" where
  "texts_at env flat keys = concat (map (\<lambda>k. case bt_get flat k of
       Some v \<Rightarrow> if value_text env v = [] then [] else [value_text env v] | None \<Rightarrow> []) keys)"

text \<open>The content keys name different fields, none of them the id's or the title's.\<close>

definition separate_keys :: "flatten_config \<Rightarrow> bool" where
  "separate_keys cfg \<longleftrightarrow> (case fc_content_fields cfg of
     Some keys \<Rightarrow> distinct keys \<and> fc_id_field cfg \<notin> set keys \<and> (\<forall>t \<in> set_option (fc_title_field cfg). t \<notin> set keys) | None \<Rightarrow> True)"

definition made_from :: "json_env \<Rightarrow> flatten_config \<Rightarrow> json \<times> rstr \<times> fallback \<Rightarrow> document \<Rightarrow> bool" where
  "made_from env cfg item d \<longleftrightarrow>
     (case item of (rv, generated_id, fb) \<Rightarrow>
      let flat = flatten_root cfg rv;
          id_text = texts_at env flat [fc_id_field cfg];
          content = join_with [32] (case fc_content_fields cfg of Some keys \<Rightarrow> texts_at env flat keys | None \<Rightarrow> string_leaves (doc_fields d))
      in (\<forall>k. bt_get (doc_fields d) k = (if k \<in> picked cfg then None else bt_get flat k))
       \<and> doc_id d = (if id_text \<noteq> [] then sanitize_id (je_fresh env) (hd id_text) else case fb_id fb of Some i \<Rightarrow> i | None \<Rightarrow> generated_id)
       \<and> (separate_keys cfg \<longrightarrow> doc_content d = (if content \<noteq> [] then content else case fb_content fb of Some c \<Rightarrow> c | None \<Rightarrow> []))
       \<and> doc_meta d = fb_meta fb)"

lemma take_content_fields: "bt_get (snd (take_content env keys flat)) k = (if k \<in> set keys then None else bt_get flat k)"
  by (induction keys arbitrary: flat) (auto simp: take_text_def bt_get_remove Let_def split_def)

lemma texts_at_cong: "(\<And>k. k \<in> set keys \<Longrightarrow> bt_get flat k = bt_get flat' k) \<Longrightarrow> texts_at env flat keys = texts_at env flat' keys"
  unfolding texts_at_def by (intro arg_cong[of _ _ concat] map_cong) simp_all

lemma take_content_texts: "distinct keys \<Longrightarrow> fst (take_content env keys flat) = texts_at env flat keys"
proof (induction keys arbitrary: flat)
  case Nil
  then show ?case by (simp add: texts_at_def)
next
  case (Cons key keys)
  have "texts_at env (bt_remove key flat) keys = texts_at env flat keys"
    using Cons.prems by (intro texts_at_cong) (auto simp: bt_get_remove)
  moreover have "texts_at env flat (key # keys) = texts_at env flat [key] @ texts_at env flat keys"
    by (simp add: texts_at_def)
  ultimately show ?case
    using Cons by (simp add: take_text_def Let_def split_def) (simp add: texts_at_def split: option.splits)
qed

lemma take_text_simps:
  "snd (take_text env key flat) = bt_remove key flat"
  "fst (take_text env key flat) = (case texts_at env flat [key] of t # _ \<Rightarrow> Some t | [] \<Rightarrow> None)"
  by (simp_all add: take_text_def texts_at_def split: option.splits)

lemma flat_document_made: "made_from env cfg (rv, generated_id, fb) (flat_document env cfg rv generated_id fb)"
proof -
  let ?flat = "flatten_root cfg rv" and ?d = "flat_document env cfg rv generated_id fb"
  let ?without_id = "bt_remove (fc_id_field cfg) ?flat"
  let ?rest = "case fc_title_field cfg of Some t \<Rightarrow> bt_remove t ?without_id | None \<Rightarrow> ?without_id"
  have rest: "bt_get ?rest k = (if k = fc_id_field cfg \<or> fc_title_field cfg = Some k then None else bt_get ?flat k)" for k
    by (auto simp: bt_get_remove split: option.splits)
  have flat_doc: "doc_fields ?d = (case fc_content_fields cfg of Some keys \<Rightarrow> snd (take_content env keys ?rest) | None \<Rightarrow> ?rest)"
      "doc_meta ?d = fb_meta fb"
      "doc_id ?d = (case texts_at env ?flat [fc_id_field cfg] of t # _ \<Rightarrow> sanitize_id (je_fresh env) t
        | [] \<Rightarrow> case fb_id fb of Some i \<Rightarrow> i | None \<Rightarrow> generated_id)"
      "doc_content ?d = (let c = join_with [32] (case fc_content_fields cfg of Some keys \<Rightarrow> fst (take_content env keys ?rest) | None \<Rightarrow> string_leaves ?rest)
        in if c = [] then (case fb_content fb of Some c \<Rightarrow> c | None \<Rightarrow> []) else c)"
    by (simp_all add: flat_document_def Let_def split_def take_text_simps or_else_def split: option.splits list.splits)
  have texts: "fst (take_content env keys ?rest) = texts_at env ?flat keys" if "separate_keys cfg" "fc_content_fields cfg = Some keys" for keys
  proof -
    have "texts_at env ?rest keys = texts_at env ?flat keys"
      using that by (intro texts_at_cong) (auto simp: rest separate_keys_def)
    then show ?thesis
      using that take_content_texts[of keys env ?rest] by (simp add: separate_keys_def)
  qed
  have "bt_get (doc_fields ?d) k = (if k \<in> picked cfg then None else bt_get ?flat k)" for k
    unfolding flat_doc by (auto simp: take_content_fields rest bt_get_remove picked_def split: option.splits)
  then show ?thesis
    unfolding made_from_def Let_def prod.case flat_doc(2,3,4)
    using texts flat_doc(1) by (auto split: list.splits option.splits)
qed

lemma flat_documents_made:
  "flat_documents env cfg i items = Inr docs \<Longrightarrow> list_all2 (made_from env cfg) items docs"
proof (induction env cfg i items arbitrary: docs rule: flat_documents.induct)
  case (2 env cfg i rv generated_id fb items)
  then show ?case
    by (auto split: if_splits simp: map_sum_def flat_document_made split: sum.splits)
qed simp

lemma flat_documents_go_on: "\<forall>n. \<not> je_cancelled env n \<Longrightarrow> \<exists>docs. flat_documents env cfg i items = Inr docs"
proof (induction env cfg i items rule: flat_documents.induct)
  case (2 env cfg i rv generated_id fb items)
  then obtain docs where "flat_documents env cfg (i + 1) items = Inr docs" by blast
  then show ?case using "2.prems" by simp
qed simp

text \<open>The flattener makes one document of every value, in the order they came, and each keeps its value: what the id, title and
  content keys name is taken out of the flat fields, everything else stays in them. The id is the text under the id key, made
  valid, else the id the document had, else a number after the name of the file. The content is the text under the content keys, or all text
  that is left in the fields, and the old content only when there is none. Only a cancelled step ends without documents
  once its values were read.\<close>

theorem flattener_keeps_values:
  assumes "parse_flatten_config env config = Inr cfg" "json_items env inp = Inr items"
  shows "case json_execute env inp config of
       Inr out \<Rightarrow> \<exists>docs. out = OutDocuments docs \<and> list_all2 (made_from env cfg) items docs
     | Inl e \<Rightarrow> e = ErrCancelled \<and> (\<exists>n. je_cancelled env n)"
proof (cases "flat_documents env cfg 0 items")
  case (Inl e)
  moreover have "flat_documents env cfg i items = Inl e \<Longrightarrow> e = ErrCancelled" for i
    by (induction env cfg i items rule: flat_documents.induct) (auto split: if_splits simp: map_sum_def split: sum.splits)
  ultimately show ?thesis
    using assms flat_documents_go_on[of env cfg 0 items] by (auto simp: json_execute_def)
next
  case (Inr docs)
  then show ?thesis
    using assms flat_documents_made[OF Inr] by (simp add: json_execute_def)
qed

section \<open>Witnesses\<close>

definition demo_json_env :: json_env where
  "demo_json_env = \<lparr>je_from_value = (\<lambda>_. Inl []), je_from_slice = (\<lambda>_. Inr (JObject [(lit ''a'', JObject [(lit ''b'', JBool True)]), (lit ''id'', JString (lit ''x''))])),
     je_from_str = (\<lambda>_. Inl []), je_utf8_text = (\<lambda>_. []), je_show_number = (\<lambda>_. []), je_show_json = (\<lambda>_. []),
     je_cancelled = (\<lambda>_. False), je_fresh = []\<rparr>"

definition demo_nested :: "(rstr \<times> json) list" where
  "demo_nested = [(lit ''a'', JObject [(lit ''b'', JBool True)])]"

theorem flat_fields_are_leaves_witness:
  "bt_get (flatten_root default_flatten_config (JObject demo_nested)) (lit ''a.b'') = Some (JBool True)"
proof -
  have "dot_free (JObject demo_nested)"
    by (simp add: demo_nested_def segment_def lit_def)
  moreover have "field_at default_flatten_config 1 demo_nested [lit ''a'', lit ''b''] = Some (JBool True)"
    by (simp add: demo_nested_def default_flatten_config_def children_def)
  moreover have "lit ''a.b'' = dots [lit ''a'', lit ''b'']"
    by (simp add: lit_def)
  ultimately show ?thesis
    using flat_fields_are_leaves[of demo_nested default_flatten_config] by blast
qed

theorem flattener_keeps_values_witness:
  "\<exists>d. json_execute demo_json_env (InBytes \<lparr>blob_data = [], blob_mime = [], blob_filename = None\<rparr>) JNull = Inr (OutDocuments [d])
     \<and> bt_get (doc_fields d) (lit ''a.b'') = Some (JBool True)"
proof -
  let ?inp = "InBytes \<lparr>blob_data = [], blob_mime = [], blob_filename = None\<rparr>"
  let ?rv = "JObject [(lit ''a'', JObject [(lit ''b'', JBool True)]), (lit ''id'', JString (lit ''x''))]"
  have parsed: "parse_flatten_config demo_json_env JNull = Inr default_flatten_config"
    by (simp add: parse_flatten_config_def)
  have "select_roots ?rv = [?rv]"
    by (simp add: select_roots_def WRAPPER_KEYS_def bt_get_def lit_def)
  then obtain item where items: "json_items demo_json_env ?inp = Inr [item]" and item: "fst item = ?rv"
    by (simp add: json_items_def parse_json_payload_def demo_json_env_def enumerated_def Let_def)
  have not_cancelled: "\<not> je_cancelled demo_json_env n" for n
    by (simp add: demo_json_env_def)
  obtain d where d: "json_execute demo_json_env ?inp JNull = Inr (OutDocuments [d])" "made_from demo_json_env default_flatten_config item d"
    using flattener_keeps_values[OF parsed items] not_cancelled by (auto simp: list_all2_Cons1 split: sum.splits)
  have "bt_get (flatten_root default_flatten_config ?rv) (lit ''a.b'') = Some (JBool True)"
    by (simp add: flatten_root_def default_flatten_config_def dotted_def bt_insert.simps bt_get_def lit_def)
  moreover have "lit ''a.b'' \<notin> picked default_flatten_config"
    by (simp add: picked_def default_flatten_config_def lit_def)
  ultimately show ?thesis
    using d item by (cases item) (auto simp: made_from_def Let_def)
qed

section \<open>Where keys collide\<close>

text \<open>A key with a dot meets the path with the same text, and an empty key is no part of its path: one of the two values is lost.\<close>

lemma dotted_keys_collide:
  "flatten_root default_flatten_config (JObject [(lit ''a'', JObject [(lit ''b'', JBool True)]), (lit ''a.b'', JBool False)])
     = [(lit ''a.b'', JBool False)]"
  by (simp add: flatten_root_def default_flatten_config_def dotted_def bt_insert.simps lit_def)

lemma empty_key_collides:
  "flatten_root default_flatten_config (JObject [([], JObject [(lit ''a'', JBool True)]), (lit ''a'', JBool False)]) = [(lit ''a'', JBool False)]"
  by (simp add: flatten_root_def default_flatten_config_def dotted_def bt_insert.simps lit_def)

text \<open>A document that comes from another step and has text in its fields loses its content under the default configuration.\<close>

lemma upstream_content_replaced:
  assumes "doc_fields d = [(lit ''lang'', JString (lit ''fr''))]"
  shows "\<exists>d'. json_execute demo_json_env (InDocuments [d]) JNull = Inr (OutDocuments [d']) \<and> doc_content d' = lit ''fr''"
  using assms by (simp add: json_execute_def parse_flatten_config_def json_items_def enumerated_def demo_json_env_def flat_document_def
      flatten_root_def default_flatten_config_def bt_insert.simps take_text_def bt_get_def bt_remove_def string_leaves_def dotted_def Let_def lit_def)

end
