(* ===== verification/Spec2Isabelle.thy ===== *)
theory Spec2Isabelle
  imports Workflow_Correct Chunker Cost Lab_Credits Archive_Workflow Source_Url Step_Activity Lab_Outbox Source_Run Lab_Client Indexer Gateway_Start Gateway_Jobs Gateway_Connections Json_Flattener
begin

text \<open>
  The ingest pipeline of this repository: content comes in at a gateway, becomes a job of a pipeline, is turned into documents by the
  steps of the pipeline and ends in a Meilisearch index. Modelled are the Rust crates under \<open>src/crates\<close>, from their sources.

  \<^bold>\<open>The parts and how they interact.\<close> The \<^emph>\<open>gateway\<close> finds out who asks, reads the content, asks the \<^emph>\<open>control plane\<close> which
  pipeline takes it (a definition of the database or a built-in one of the \<^emph>\<open>router\<close>), checks the credits of a Lab account and
  starts a Temporal workflow. The \<^emph>\<open>workflow\<close> of a job orders the steps and schedules an \<^emph>\<open>activity\<close> for each; an activity runs a
  \<^emph>\<open>plugin\<close> on the output of the steps before it, which large outputs reach through the \<^emph>\<open>blob store\<close>. The last plugin, the
  \<^emph>\<open>indexer\<close>, writes to Meilisearch. At its end a job is reported to the control plane, to analytics and to the Lab, to the Lab by way of an
  \<^emph>\<open>outbox\<close>. An archive is a job that starts one job per file; a \<^emph>\<open>source\<close> is fetched on a schedule and starts jobs of what changed.

  \<^bold>\<open>Foundations.\<close>
  \<^item> \<open>Rust_Prelude\<close>, \<open>Utf8\<close>, \<open>F64\<close>, \<open>Json\<close>, \<open>Http\<close>: characters and strings, words with saturation, doubles with
    rounding, ordered maps (the locale \<open>keyed_store\<close>), JSON values, replies to requests. Integers are words where the code
    can wrap or saturate, \<open>nat\<close> where they count what is in memory, \<open>int\<close> for times and for \<open>i64\<close> values that are clamped first.
  \<^item> \<open>Sdk_Types\<close> (\<open>plugin-sdk/src/types.rs\<close>): documents and their ids, inputs, outputs, usage, progress.

  \<^bold>\<open>Pipelines and jobs.\<close>
  \<^item> \<open>Pipeline\<close>, \<open>Kahn\<close>, \<open>Validate\<close> (\<open>types.rs\<close>): definitions; validation is exact, never panics and yields an order of the
    steps; globs decide their language. \<open>Kahn\<close> states the algorithm over the locale \<open>dep_graph\<close>, which \<open>Validate\<close> interprets.
  \<^item> \<open>Router\<close> (\<open>router/src/lib.rs\<close>): types of files, built-in pipelines, and which pipeline takes a file: the best by tier, pattern
    and position, independent of other tenants.
  \<^item> \<open>Dag\<close>, \<open>Workflow\<close>, \<open>Workflow_Correct\<close> (\<open>worker/src/dag.rs\<close>, \<open>workflow.rs\<close>): one job from validation to its usage record, on every
    path: success, failure, cancellation, panic. Two invariants of the loop give order, counters, one schedule per step, one bill.
  \<^item> \<open>Plugin_Host\<close>, \<open>Ai_Target\<close>, \<open>Step_Activity\<close> (\<open>worker/src/registry.rs\<close>, \<open>ai_target.rs\<close>, \<open>activity.rs\<close>, \<open>plugin-sdk\<close>): what a plugin is given, what of
    its output reaches the next step, that a Gateway key stays in the steps of its account, how a job is reported.
  \<^item> \<open>Archive_Walk\<close>, \<open>Archive_Files\<close>, \<open>Archive_Workflow\<close> (\<open>archive/src/lib.rs\<close>, \<open>worker/src/archive_activity.rs\<close>, \<open>archive_workflow.rs\<close>): limits
    of a walk, what is staged, each file counted once, and that continuing as new refines one unbounded loop. Locales: \<open>file_handler\<close> (what
    a walk may assume of its handler of a file) and \<open>manifest_pages\<close> (what the workflow relies on from \<open>prepare\<close>), interpreted on the
    model's own functions.
  \<^item> \<open>Json_Flattener\<close>, \<open>Chunker\<close>, \<open>Indexer\<close> (\<open>plugins/json\<close>, \<open>plugins/chunker\<close>, \<open>plugins/meili-indexer\<close>): flat fields are the leaves of a value; no text is
    lost and chunking ends; every document is sent once, in batches within the limits.

  \<^bold>\<open>Data at rest, keys and hosts.\<close>
  \<^item> \<open>Blob_Store\<close> (\<open>blob/src/lib.rs\<close>): staging, spilling, references and their policy. serde is not assumed to read a value back as it was
    written: what is handed on through the store is what it reads of the stored bytes.
  \<^item> \<open>Host_Policy\<close> (\<open>source/src/guard.rs\<close>, \<open>host_policy.rs\<close>, \<open>worker/src/fetch_guard.rs\<close>): which hosts may be talked to; the locale \<open>url_check\<close>
    is what the fetching code relies on, interpreted for every policy.
  \<^item> \<open>Source_Secret\<close>, \<open>Connection\<close> (\<open>source/src/secret.rs\<close>, \<open>worker/src/connection.rs\<close>): sealed values, and the destination of an index step.
  \<^item> \<open>Source_Template\<close>, \<open>Source_Url\<close>, \<open>Source_Run\<close> (\<open>source/src\<close>, \<open>worker/src/source_activity.rs\<close>, \<open>source_workflow.rs\<close>): one run of a source,
    what it may request, and when its state is saved.

  \<^bold>\<open>Accounts and billing.\<close>
  \<^item> \<open>Cost\<close>, \<open>Usage_Events\<close>, \<open>Usage_Lab\<close> (\<open>plugin-sdk/src/cost.rs\<close>, \<open>usage/src\<close>): prices, rows and Lab events of a job.
  \<^item> \<open>Lab_Credits\<close>, \<open>Lab_Client\<close> (\<open>lab/src\<close>, \<open>control-plane/src/lab_ai.rs\<close>, \<open>lab_credits.rs\<close>, \<open>error.rs\<close>): the caches of credits and of Gateway targets, each as a function that
    runs alone and as a step relation of interleaved lookups, with the refinement between the two.
  \<^item> \<open>Lab_Outbox\<close> (\<open>control-plane/src/lab_events.rs\<close>, \<open>lab_sender.rs\<close>): events are stored once, leased to one sender
    unless they are of an old shape and converted meanwhile, delivered when accepted.

  \<^bold>\<open>The gateway and the control plane.\<close>
  \<^item> \<open>Gateway_Auth\<close>, \<open>Gateway_Extract\<close> (\<open>gateway/src/state.rs\<close>, \<open>error.rs\<close>, \<open>context.rs\<close>, \<open>auth.rs\<close>, \<open>extract.rs\<close>, \<open>handlers/mod.rs\<close>): who asks, for whom, and what.
  \<^item> \<open>Gateway_Submit\<close>, \<open>Gateway_Correct\<close>, \<open>Gateway_Start\<close> (\<open>handlers/ingest.rs\<close>, \<open>pipeline.rs\<close>, \<open>preflight.rs\<close>, \<open>lab.rs\<close>): the ingest routes; every request made
    is for the tenant; a job starts once, last, after its checks; under an index's path it writes to that index.
  \<^item> \<open>Control_Pipelines\<close>, \<open>Control_Jobs\<close>, \<open>Control_Connections\<close> (\<open>control-plane/src/pipelines.rs\<close>, \<open>resolver.rs\<close>, \<open>jobs.rs\<close>, \<open>connections.rs\<close>): the tables of pipelines,
    jobs and connections with their routes.
  \<^item> \<open>Gateway_Jobs\<close>, \<open>Gateway_Connections\<close> (\<open>gateway/src/handlers/jobs.rs\<close>, \<open>handlers/connections.rs\<close>, \<open>connections.rs\<close>): what a tenant sees of its jobs, and that a
    connection is stored only sealed and as it was tried.

  \<^bold>\<open>How state and environment correspond to the code.\<close> A struct is a record and an enum a datatype with the source's variants; a fallible
  function returns a sum whose left side is the source's error type. Code that talks to others is a function of an environment record
  (\<open>wf_env\<close>, \<open>step_env\<close>, \<open>gateway_env\<close>, \<open>sender_env\<close> and so on) that gives the answers of what is not under \<open>src\<close>: Temporal, Postgres, Meilisearch,
  the Lab, HTTP clients, clocks, random ids, ciphers, readers of file formats, serde. Its state is what the code keeps together with
  the list of requests made so far, so that an answer may depend on all that went before, and so that theorems can speak about the order of requests.
  A database table is the list of its rows, a query a function on it that may fail before or after its effect. Where two
  runs share state (the caches of the Lab, the outbox, the cache of pipelines), the atomic sections of the code are the steps of a relation
  or the elements of a list, and theorems hold for every interleaving.

  \<^bold>\<open>Termination, bounds and fuel.\<close> Loops are recursive functions with a measure: pending steps (\<open>run_loop\<close>), positions left
  (\<open>archive_loop\<close>), redirects left (\<open>guarded_get\<close>, \<open>follow\<close>), time left (\<open>wait_for_task\<close>), text left (\<open>render_from\<close>, \<open>decode_from\<close>). Two loops of the code
  may run for ever and are partial functions whose \<open>None\<close> is not returning: the windows of the chunker (an
  accepted configuration excludes it, see \<open>chunk_text_ok\<close>) and an archive job continued as new (it ends, see \<open>archive_job_plain\<close>).
  \<open>hydrate_output\<close> and \<open>resolve_output\<close> count down a depth of references, because an object store may hold a cycle; properties of results hold
  at every depth, and a spilled output that refers to no further one is read at any depth from two more than its size on (\<open>hydrate_spilled\<close>). \<open>run_target_lookup\<close> counts the phases of a lookup; it has
  at most four. \<open>drain\<close> is given the environments of its turns: one for every full batch that is pending, and one more, are enough.

  \<^bold>\<open>Not modelled, and why.\<close> Log lines, metrics and heartbeats, which only report. Timeouts and retries of activities, which Temporal
  does: an environment answers with the last attempt. Serde derivations, parsers of YAML, TOML, JSON and multipart bodies, cryptography, name resolution and the
  readers of zip, tar and gzip: third-party crates, here parameters. The SQL file that converts events of old workers. The route tables of axum.
  The workflow catalog (static descriptions for a user interface), the ClickHouse sink (SQL texts sent over HTTP), the plugin runtime
  (hosts of two third-party engines), the extractor plugins (wrappers of format libraries) and the AI plugins (calls to hosted
  models and to ffmpeg). The management
  routes of pipelines, sources and usage with the schedules of sources, which hand requests on.
\<close>

end
